(* ===== verification/Codebox_Prelude.thy ===== *)
theory Codebox_Prelude
  imports Complex_Main "HOL-Library.Char_ord"
begin

text \<open>
  Shared ground of the development: the values a JSON body or an \<open>unknown\<close> argument of the
  TypeScript sources can hold, the string helpers of \<open>object-utils.ts\<close>, and actions that
  carry a state and may throw.

  Strings are lists of 8-bit code units, so every statement about strings speaks of the
  Latin-1 part of JavaScript's strings.  Numbers are exact rationals with the three special
  IEEE values beside them: the modelled code compares numbers, adds integers far below
  \<open>2 ^ 53\<close> and computes percentages, and the rounding of the last is not modelled.
\<close>

section \<open>Collections of rules\<close>

named_theorems keeps_intros \<open>rules that show an action keeps a predicate on states\<close>
named_theorems js_simps \<open>equations that evaluate JavaScript helpers\<close>

section \<open>JavaScript values\<close>

datatype jsnum = Fin rat | NaN | PosInf | NegInf

datatype jsval =
    JUndef
  | JNull
  | JBool bool
  | JNum jsnum
  | JStr string
  | JArr "jsval list"
  | JObj "(string \<times> jsval) list"

type_synonym js_object = "(string \<times> jsval) list"

abbreviation JInt :: "int \<Rightarrow> jsval" where
  "JInt i \<equiv> JNum (Fin (of_int i))"

definition js_get :: "js_object \<Rightarrow> string \<Rightarrow> jsval" where
  "js_get obj key = (case map_of obj key of None \<Rightarrow> JUndef | Some v \<Rightarrow> v)"

text \<open>Member access \<open>value.key\<close> on an arbitrary value; reading \<open>null\<close> is excluded by the callers.\<close>

fun js_member :: "jsval \<Rightarrow> string \<Rightarrow> jsval" where
  "js_member (JObj obj) key = js_get obj key"
| "js_member _ key = JUndef"

fun js_nullish :: "jsval \<Rightarrow> bool" where
  "js_nullish JUndef = True"
| "js_nullish JNull = True"
| "js_nullish _ = False"

text \<open>The operator \<open>a ?? b\<close>.\<close>

definition coalesce :: "jsval \<Rightarrow> jsval \<Rightarrow> jsval" where
  "coalesce a b = (if js_nullish a then b else a)"

fun js_truthy :: "jsval \<Rightarrow> bool" where
  "js_truthy JUndef = False"
| "js_truthy JNull = False"
| "js_truthy (JBool b) = b"
| "js_truthy (JNum (Fin r)) = (r \<noteq> 0)"
| "js_truthy (JNum NaN) = False"
| "js_truthy (JNum PosInf) = True"
| "js_truthy (JNum NegInf) = True"
| "js_truthy (JStr s) = (s \<noteq> [])"
| "js_truthy (JArr _) = True"
| "js_truthy (JObj _) = True"

definition max_safe_integer :: int where
  "max_safe_integer = 9007199254740991"

text \<open>\<open>Number.isSafeInteger\<close>, returning the integer it recognises.\<close>

fun safe_integer :: "jsval \<Rightarrow> int option" where
  "safe_integer (JNum (Fin r)) =
     (if of_int \<lfloor>r\<rfloor> = r \<and> \<bar>\<lfloor>r\<rfloor>\<bar> \<le> max_safe_integer then Some \<lfloor>r\<rfloor> else None)"
| "safe_integer _ = None"

lemma safe_integer_JInt [js_simps]:
  "safe_integer (JInt i) = (if \<bar>i\<bar> \<le> max_safe_integer then Some i else None)"
  by simp

lemma safe_integer_SomeD: "safe_integer v = Some i \<Longrightarrow> v = JInt i \<and> \<bar>i\<bar> \<le> max_safe_integer"
  by (cases v rule: safe_integer.cases) (auto split: if_splits)

lemma js_get_simps [js_simps, simp]:
  "js_get [] k = JUndef"
  "js_get ((k', v) # obj) k = (if k' = k then v else js_get obj k)"
  by (auto simp: js_get_def)

lemma coalesce_simps [js_simps, simp]:
  "coalesce JUndef v = v"
  "coalesce JNull v = v"
  "coalesce (JBool b) v = JBool b"
  "coalesce (JNum n) v = JNum n"
  "coalesce (JStr s) v = JStr s"
  "coalesce (JArr a) v = JArr a"
  "coalesce (JObj obj) v = JObj obj"
  by (simp_all add: coalesce_def)

section \<open>Actions that carry a state and may throw\<close>

text \<open>
  An \<open>async\<close> method of a stateful object is a function from the state to a result and the
  state it leaves, where \<open>Inl\<close> is the thrown error: whatever was stored before the throw
  stays stored.
\<close>

type_synonym ('s, 'e, 'a) action = "'s \<Rightarrow> ('e + 'a) \<times> 's"

definition succeed :: "'a \<Rightarrow> ('s, 'e, 'a) action" where
  "succeed x s = (Inr x, s)"

definition throw :: "'e \<Rightarrow> ('s, 'e, 'a) action" where
  "throw e s = (Inl e, s)"

definition and_then :: "('s, 'e, 'a) action \<Rightarrow> ('a \<Rightarrow> ('s, 'e, 'b) action) \<Rightarrow> ('s, 'e, 'b) action" where
  "and_then m k s = (case m s of (Inl e, t) \<Rightarrow> (Inl e, t) | (Inr x, t) \<Rightarrow> k x t)"

definition from_result :: "'e + 'a \<Rightarrow> ('s, 'e, 'a) action" where
  "from_result r s = (r, s)"

definition modify :: "('s \<Rightarrow> 's) \<Rightarrow> ('s, 'e, unit) action" where
  "modify f s = (Inr (), f s)"

definition query :: "('s \<Rightarrow> 'a) \<Rightarrow> ('s, 'e, 'a) action" where
  "query f s = (Inr (f s), s)"

definition require :: "bool \<Rightarrow> 'e \<Rightarrow> ('s, 'e, unit) action" where
  "require b e = (if b then succeed () else throw e)"

lemmas action_defs = succeed_def throw_def and_then_def from_result_def modify_def query_def require_def

lemma and_then_Inr_iff:
  "and_then m k s = (Inr y, t) \<longleftrightarrow> (\<exists>x u. m s = (Inr x, u) \<and> k x u = (Inr y, t))"
  by (auto simp: and_then_def split: prod.splits sum.splits)

lemma and_then_Inl_iff:
  "and_then m k s = (Inl e, t) \<longleftrightarrow>
     m s = (Inl e, t) \<or> (\<exists>x u. m s = (Inr x, u) \<and> k x u = (Inl e, t))"
  by (auto simp: and_then_def split: prod.splits sum.splits)

lemma action_result_simps [simp]:
  "succeed x s = (Inr y, t) \<longleftrightarrow> y = x \<and> t = s"
  "succeed x s \<noteq> (Inl e, t)"
  "throw e s \<noteq> (Inr y, t)"
  "throw e s = (Inl e', t) \<longleftrightarrow> e' = e \<and> t = s"
  "modify f s = (Inr u, t) \<longleftrightarrow> t = f s"
  "modify f s \<noteq> (Inl e, t)"
  "query g s = (Inr y, t) \<longleftrightarrow> y = g s \<and> t = s"
  "query g s \<noteq> (Inl e, t)"
  "from_result r s = (r', t) \<longleftrightarrow> r = r' \<and> t = s"
  "require b e s = (Inr u, t) \<longleftrightarrow> b \<and> t = s"
  "require b e s = (Inl e', t) \<longleftrightarrow> \<not> b \<and> e' = e \<and> t = s"
  by (auto simp: action_defs)

text \<open>An action keeps a predicate when it leads from states that satisfy it to such states,
  whether it returns or throws.\<close>

definition keeps :: "('s \<Rightarrow> bool) \<Rightarrow> ('s, 'e, 'a) action \<Rightarrow> bool" where
  "keeps P m \<longleftrightarrow> (\<forall>s. P s \<longrightarrow> P (snd (m s)))"

lemma keepsD: "keeps P m \<Longrightarrow> P s \<Longrightarrow> m s = (r, t) \<Longrightarrow> P t"
  by (force simp: keeps_def)

lemma keeps_succeed [keeps_intros]: "keeps P (succeed x)"
  and keeps_throw [keeps_intros]: "keeps P (throw e)"
  and keeps_from_result [keeps_intros]: "keeps P (from_result r)"
  and keeps_query [keeps_intros]: "keeps P (query f)"
  and keeps_require [keeps_intros]: "keeps P (require b e)"
  by (auto simp: keeps_def action_defs)

lemma keeps_and_then [keeps_intros]:
  assumes "keeps P m" and "\<And>x. keeps P (k x)"
  shows "keeps P (and_then m k)"
  using assms unfolding keeps_def and_then_def
  by (fastforce split: prod.splits sum.splits)

lemma keeps_if [keeps_intros]: "keeps P a \<Longrightarrow> keeps P b \<Longrightarrow> keeps P (if c then a else b)"
  by simp

lemma keeps_modify: "(\<And>s. P s \<Longrightarrow> P (f s)) \<Longrightarrow> keeps P (modify f)"
  by (simp add: keeps_def modify_def)

section \<open>Strings\<close>

text \<open>Decimal digits, as template strings print integers.\<close>

fun string_of_nat :: "nat \<Rightarrow> string" where
  "string_of_nat n =
     (if n < 10 then [char_of (48 + n)] else string_of_nat (n div 10) @ [char_of (48 + n mod 10)])"

declare string_of_nat.simps [simp del]

definition string_of_int :: "int \<Rightarrow> string" where
  "string_of_int i = (if i < 0 then CHR ''-'' # string_of_nat (nat (- i)) else string_of_nat (nat i))"

definition js_space :: "char \<Rightarrow> bool" where
  "js_space c \<longleftrightarrow> of_char c \<in> {9, 10, 11, 12, 13, 32, 160 :: nat}"

definition trim :: "string \<Rightarrow> string" where
  "trim s = rev (dropWhile js_space (rev (dropWhile js_space s)))"

definition starts_with :: "string \<Rightarrow> string \<Rightarrow> bool" where
  "starts_with p s \<longleftrightarrow> take (length p) s = p"

definition ends_with :: "string \<Rightarrow> string \<Rightarrow> bool" where
  "ends_with p s \<longleftrightarrow> length p \<le> length s \<and> drop (length s - length p) s = p"

definition char_between :: "char \<Rightarrow> char \<Rightarrow> char \<Rightarrow> bool" where
  "char_between lo hi c \<longleftrightarrow> (of_char lo :: nat) \<le> of_char c \<and> (of_char c :: nat) \<le> of_char hi"

definition is_lower :: "char \<Rightarrow> bool" where "is_lower = char_between (CHR ''a'') (CHR ''z'')"
definition is_upper :: "char \<Rightarrow> bool" where "is_upper = char_between (CHR ''A'') (CHR ''Z'')"
definition is_digit :: "char \<Rightarrow> bool" where "is_digit = char_between (CHR ''0'') (CHR ''9'')"

definition is_alnum :: "char \<Rightarrow> bool" where
  "is_alnum c \<longleftrightarrow> is_lower c \<or> is_upper c \<or> is_digit c"

text \<open>\<open>s.split(sep)\<close> for a one-character separator.\<close>

fun split_on :: "char \<Rightarrow> string \<Rightarrow> string list" where
  "split_on d [] = [[]]"
| "split_on d (c # cs) =
     (if c = d then [] # split_on d cs
      else (case split_on d cs of [] \<Rightarrow> [[c]] | w # ws \<Rightarrow> (c # w) # ws))"

fun join_with :: "string \<Rightarrow> string list \<Rightarrow> string" where
  "join_with sep [] = []"
| "join_with sep [w] = w"
| "join_with sep (w # v # ws) = w @ sep @ join_with sep (v # ws)"

lemma split_on_ne [simp]: "split_on d s \<noteq> []"
  by (induction s) (auto split: list.splits)

lemma split_on_no_sep: "w \<in> set (split_on d s) \<Longrightarrow> d \<notin> set w"
  by (induction s arbitrary: w) (auto split: if_splits list.splits)

lemma split_on_append_sep: "d \<notin> set w \<Longrightarrow> split_on d (w @ d # s) = w # split_on d s"
  by (induction w) auto

lemma split_on_id: "d \<notin> set w \<Longrightarrow> split_on d w = [w]"
  by (induction w) auto

lemma split_on_join:
  "ws \<noteq> [] \<Longrightarrow> \<forall>w \<in> set ws. d \<notin> set w \<Longrightarrow> split_on d (join_with [d] ws) = ws"
  by (induction "[d]" ws rule: join_with.induct) (auto simp: split_on_id split_on_append_sep)

end
