(* ===== verification/Revision_Contract.thy ===== *)
theory Revision_Contract
  imports Codebox_Prelude
begin

text \<open>
  \<open>packages/runtime-cloudflare/src/revision-coordinator.ts\<close>: the data of canonical WordPress
  revisions (pointers, leases, cutover fences), the bounds on lease and fence lifetimes, and the
  interface \<open>RevisionCoordinator\<close> as a locale that both coordinators of the package
  (\<open>Durable_Coordinator\<close> and \<open>D1_Coordinator\<close>) interpret.  The client lemmas of the
  locale hold for either store.
\<close>

section \<open>Data\<close>

record markdown_pointer =
  revision :: string
  manifestKey :: string
  persistedAt :: string

record revision_lease =
  lease_token :: string
  lease_pointer :: "markdown_pointer option"
  lease_version :: int
  lease_expiresAt :: int

datatype coordinator_store = Durable_object | D1_store

record revision_state =
  state_store :: coordinator_store
  state_pointer :: "markdown_pointer option"
  state_version :: int

record mutation_fence =
  fence_token :: string
  fence_expiresAt :: int

record mutation_fence_status =
  status_active :: bool
  status_expiresAt :: "int option"

text \<open>\<open>RevisionConflict\<close> carries the moment a retry may succeed; any other \<open>Error\<close> is plain.\<close>

datatype coordinator_error = RevisionConflict string "int option" | PlainError string

definition MIN_MUTATION_FENCE_MS :: int where "MIN_MUTATION_FENCE_MS = 30000"
definition MAX_MUTATION_FENCE_MS :: int where "MAX_MUTATION_FENCE_MS = 600000"
definition MAX_REVISION_LEASE_MS :: int where "MAX_REVISION_LEASE_MS = 600000"

definition mutationFenceExpiresAt :: "jsval \<Rightarrow> int \<Rightarrow> coordinator_error + int" where
  "mutationFenceExpiresAt ttlMs now =
     (case safe_integer ttlMs of
        None \<Rightarrow> Inl (RevisionConflict ''Mutation fence TTL must be between 30 and 600 seconds.'' None)
      | Some ttl \<Rightarrow>
          if ttl < MIN_MUTATION_FENCE_MS \<or> ttl > MAX_MUTATION_FENCE_MS
          then Inl (RevisionConflict ''Mutation fence TTL must be between 30 and 600 seconds.'' None)
          else Inr (now + ttl))"

definition revisionLeaseExpiresAt :: "jsval \<Rightarrow> int \<Rightarrow> coordinator_error + int" where
  "revisionLeaseExpiresAt ttlMs now =
     (case safe_integer ttlMs of
        None \<Rightarrow> Inl (RevisionConflict ''Revision lease TTL must be between 1 and 600000 milliseconds.'' None)
      | Some ttl \<Rightarrow>
          if ttl < 1 \<or> ttl > MAX_REVISION_LEASE_MS
          then Inl (RevisionConflict ''Revision lease TTL must be between 1 and 600000 milliseconds.'' None)
          else Inr (now + ttl))"

lemma mutationFenceExpiresAt_bounds:
  "mutationFenceExpiresAt ttl now = Inr e \<Longrightarrow> now + 30000 \<le> e \<and> e \<le> now + 600000"
  by (auto simp: mutationFenceExpiresAt_def MIN_MUTATION_FENCE_MS_def MAX_MUTATION_FENCE_MS_def
      split: option.splits if_splits)

lemma revisionLeaseExpiresAt_bounds:
  "revisionLeaseExpiresAt ttl now = Inr e \<Longrightarrow> now < e \<and> e \<le> now + 600000"
  by (auto simp: revisionLeaseExpiresAt_def MAX_REVISION_LEASE_MS_def split: option.splits if_splits)

section \<open>Lease retries\<close>

text \<open>\<open>lease-retry.ts\<close>: how long a client waits before it asks for the lease again.\<close>

definition DEFAULT_RETRY_DELAY_MS :: rat where "DEFAULT_RETRY_DELAY_MS = 1000"

definition leaseRetryDelayMs :: "jsnum option \<Rightarrow> rat \<Rightarrow> rat" where
  "leaseRetryDelayMs retryAfterSeconds remainingMs =
     (let requestedMs = (case retryAfterSeconds of
            Some (Fin r) \<Rightarrow> if r > 0 then r * 1000 else DEFAULT_RETRY_DELAY_MS
          | _ \<Rightarrow> DEFAULT_RETRY_DELAY_MS)
      in max 0 (min remainingMs requestedMs))"

lemma leaseRetryDelayMs_bounds: "0 \<le> leaseRetryDelayMs r m" "leaseRetryDelayMs r m \<le> max 0 m"
  by (auto simp: leaseRetryDelayMs_def Let_def)

section \<open>The interface\<close>

text \<open>The methods of \<open>RevisionCoordinator\<close> with their arguments, and what they resolve to.\<close>

datatype coordinator_op =
    Read_state
  | Acquire jsval
  | Renew revision_lease jsval
  | Release revision_lease
  | Abort revision_lease
  | Commit revision_lease markdown_pointer
  | Committed int
  | Fence_status
  | Acquire_fence jsval
  | Renew_fence string jsval
  | Release_fence string
  | Adopt markdown_pointer int "string option" bool
  | Reset

datatype coordinator_reply =
    State_reply revision_state
  | Lease_reply revision_lease
  | Released_reply
  | Aborted_reply
  | Promoted_reply markdown_pointer int
  | Pointer_reply "markdown_pointer option"
  | Fence_status_reply mutation_fence_status
  | Fence_reply mutation_fence
  | Reset_reply
  | Void_reply

definition samePointer :: "markdown_pointer option \<Rightarrow> markdown_pointer \<Rightarrow> bool" where
  "samePointer left right \<longleftrightarrow>
     (case left of
        None \<Rightarrow> False
      | Some l \<Rightarrow> revision l = revision right \<and> manifestKey l = manifestKey right
                 \<and> persistedAt l = persistedAt right)"

lemma samePointer_iff [simp]: "samePointer left right \<longleftrightarrow> left = Some right"
  by (auto simp: samePointer_def split: option.splits)

section \<open>The contract\<close>

text \<open>
  What a client can observe of a coordinator: the canonical pointer and its version, the lease it
  stores (token, base revision, base version, expiry), the fence it stores, and the commit receipts.
\<close>

record held_lease =
  held_token :: string
  held_base :: "string option"
  held_version :: int
  held_expiresAt :: int

record revision_view =
  view_pointer :: "markdown_pointer option"
  view_version :: int
  view_lease :: "held_lease option"
  view_fence :: "mutation_fence option"
  view_receipt :: "int \<Rightarrow> markdown_pointer option"

definition lease_active :: "revision_view \<Rightarrow> int \<Rightarrow> bool" where
  "lease_active v now \<longleftrightarrow> (\<exists>l. view_lease v = Some l \<and> now < held_expiresAt l)"

definition fence_active :: "revision_view \<Rightarrow> int \<Rightarrow> bool" where
  "fence_active v now \<longleftrightarrow> (\<exists>f. view_fence v = Some f \<and> now < fence_expiresAt f)"

text \<open>At most one of lease and fence is in force, now and as long as neither is acquired again.\<close>

definition exclusive_from :: "int \<Rightarrow> revision_view \<Rightarrow> bool" where
  "exclusive_from now v \<longleftrightarrow> (\<forall>t \<ge> now. \<not> (lease_active v t \<and> fence_active v t))"

text \<open>Two views agree on the pointer, the version, and on which lease is stored.\<close>

definition same_lease :: "held_lease option \<Rightarrow> held_lease option \<Rightarrow> bool" where
  "same_lease l m \<longleftrightarrow>
     map_option (\<lambda>h. (held_token h, held_base h, held_version h)) l
   = map_option (\<lambda>h. (held_token h, held_base h, held_version h)) m"

definition same_head :: "revision_view \<Rightarrow> revision_view \<Rightarrow> bool" where
  "same_head v w \<longleftrightarrow> view_pointer v = view_pointer w \<and> view_version v = view_version w"

lemma exclusive_from_mono: "exclusive_from now v \<Longrightarrow> now \<le> now' \<Longrightarrow> exclusive_from now' v"
  by (auto simp: exclusive_from_def)

lemma same_lease_refl [simp]: "same_lease l l"
  by (simp add: same_lease_def)

lemma same_head_refl [simp]: "same_head v v"
  by (simp add: same_head_def)

definition is_acquire :: "coordinator_op \<Rightarrow> bool" where
  "is_acquire op \<longleftrightarrow> (case op of Acquire _ \<Rightarrow> True | _ \<Rightarrow> False)"

text \<open>A call of the interface: the operation, the UUID it would draw and the clock it reads.\<close>

record coordinator_call =
  call_op :: coordinator_op
  call_uuid :: string
  call_now :: int

locale revision_coordinator =
  fixes inv :: "'s \<Rightarrow> bool"
    and view :: "'s \<Rightarrow> revision_view"
    and perform :: "coordinator_op \<Rightarrow> string \<Rightarrow> int \<Rightarrow> ('s, coordinator_error, coordinator_reply) action"
  assumes inv_perform: "inv s \<Longrightarrow> perform op uuid now s = (r, t) \<Longrightarrow> inv t"
    and exclusive_perform:
      "inv s \<Longrightarrow> exclusive_from now (view s) \<Longrightarrow> perform op uuid now s = (r, t)
       \<Longrightarrow> exclusive_from now (view t)"
    and acquire_grants:
      "inv s \<Longrightarrow> perform (Acquire ttl) uuid now s = (Inr rep, t) \<Longrightarrow>
       \<exists>l. rep = Lease_reply l \<and> lease_token l = uuid \<and> lease_pointer l = view_pointer (view s)
         \<and> lease_version l = view_version (view s)
         \<and> now < lease_expiresAt l \<and> lease_expiresAt l \<le> now + MAX_REVISION_LEASE_MS
         \<and> \<not> lease_active (view s) now \<and> \<not> fence_active (view s) now \<and> same_head (view s) (view t)
         \<and> view_lease (view t) = Some \<lparr>held_token = uuid,
              held_base = map_option revision (lease_pointer l), held_version = lease_version l,
              held_expiresAt = lease_expiresAt l\<rparr>"
    and acquire_refused:
      "inv s \<Longrightarrow> perform (Acquire ttl) uuid now s = (Inl e, t) \<Longrightarrow>
       same_head (view s) (view t) \<and> same_lease (view_lease (view s)) (view_lease (view t))"
    and other_step:
      "inv s \<Longrightarrow> \<not> is_acquire op \<Longrightarrow> perform op uuid now s = (r, t) \<Longrightarrow>
       view_lease (view t) = None
       \<or> same_head (view s) (view t) \<and> same_lease (view_lease (view s)) (view_lease (view t))"
    and commit_guard:
      "inv s \<Longrightarrow> perform (Commit l p) uuid now s = (Inr rep, t) \<Longrightarrow>
       rep = Promoted_reply p (lease_version l + 1)
       \<and> lease_active (view s) now
       \<and> (\<exists>h. view_lease (view s) = Some h \<and> held_token h = lease_token l
            \<and> held_base h = map_option revision (lease_pointer l) \<and> held_version h = lease_version l)
       \<and> view_version (view s) = lease_version l
       \<and> map_option revision (view_pointer (view s)) = map_option revision (lease_pointer l)
       \<and> view_pointer (view t) = Some p \<and> view_version (view t) = lease_version l + 1
       \<and> view_lease (view t) = None \<and> view_receipt (view t) (lease_version l + 1) = Some p"
begin

text \<open>Calls one after the other; each is atomic, a refused call leaves what it stored.\<close>

fun run :: "coordinator_call list \<Rightarrow> 's \<Rightarrow> 's" where
  "run [] s = s"
| "run (c # cs) s = run cs (snd (perform (call_op c) (call_uuid c) (call_now c) s))"

lemma inv_run: "inv s \<Longrightarrow> inv (run cs s)"
proof (induction cs arbitrary: s)
  case (Cons c cs)
  obtain r t where "perform (call_op c) (call_uuid c) (call_now c) s = (r, t)"
    by fastforce
  with Cons.IH [of t] inv_perform [OF Cons.prems this] show ?case by simp
qed simp

text \<open>
  The state of a lease with a given token, pointer and version: either it is still the stored
  lease and the canonical head has not moved, or the stored lease, if any, has another token.
\<close>

definition lease_kept :: "string \<Rightarrow> markdown_pointer option \<Rightarrow> int \<Rightarrow> 's \<Rightarrow> bool" where
  "lease_kept tok p v s \<longleftrightarrow>
     view_pointer (view s) = p \<and> view_version (view s) = v
     \<and> (\<exists>h. view_lease (view s) = Some h \<and> held_token h = tok)
   \<or> (\<forall>h. view_lease (view s) = Some h \<longrightarrow> held_token h \<noteq> tok)"

lemma lease_kept_step:
  assumes "inv s" and "lease_kept tok p v s" and fresh: "is_acquire op \<longrightarrow> uuid \<noteq> tok"
    and step: "perform op uuid now s = (r, t)"
  shows "lease_kept tok p v t"
proof (cases "is_acquire op")
  case True
  then obtain ttl where op: "op = Acquire ttl" by (auto simp: is_acquire_def split: coordinator_op.splits)
  show ?thesis
  proof (cases r)
    case (Inl e)
    then show ?thesis using acquire_refused [OF assms(1)] step assms(2) op
      by (fastforce simp: lease_kept_def same_head_def same_lease_def)
  next
    case (Inr x)
    then show ?thesis using acquire_grants [OF assms(1)] step op fresh True
      by (fastforce simp: lease_kept_def)
  qed
next
  case False
  from other_step [OF assms(1) False step] assms(2) show ?thesis
    by (fastforce simp: lease_kept_def same_head_def same_lease_def)
qed

lemma lease_kept_run:
  "inv s \<Longrightarrow> lease_kept tok p v s \<Longrightarrow>
   \<forall>c \<in> set cs. is_acquire (call_op c) \<longrightarrow> call_uuid c \<noteq> tok \<Longrightarrow> lease_kept tok p v (run cs s)"
proof (induction cs arbitrary: s)
  case (Cons c cs)
  obtain r t where step: "perform (call_op c) (call_uuid c) (call_now c) s = (r, t)"
    by fastforce
  have "lease_kept tok p v t"
    using lease_kept_step [OF Cons.prems(1,2) _ step] Cons.prems(3) by simp
  with Cons.IH [of t] inv_perform [OF Cons.prems(1) step] Cons.prems(3) step show ?case by simp
qed simp

text \<open>
  No lost update: between the grant of a lease and a commit under it, whatever other clients
  called (commits, adoptions and resets among it), the canonical head did not move.
\<close>

lemma commit_replaces_base:
  assumes "inv s" and grant: "perform (Acquire ttl) tok now s = (Inr (Lease_reply l), t)"
    and fresh: "\<forall>c \<in> set cs. is_acquire (call_op c) \<longrightarrow> call_uuid c \<noteq> tok"
    and commit: "perform (Commit l p) uuid now' (run cs t) = (Inr r, u)"
  shows "view_pointer (view (run cs t)) = view_pointer (view s)
    \<and> view_version (view (run cs t)) = view_version (view s)
    \<and> view_pointer (view u) = Some p \<and> view_version (view u) = view_version (view s) + 1"
proof -
  from acquire_grants [OF assms(1) grant]
  have l: "lease_token l = tok" "lease_version l = view_version (view s)"
    and kept: "lease_kept tok (view_pointer (view s)) (view_version (view s)) t"
    by (auto simp: lease_kept_def same_head_def)
  have t: "inv t" using inv_perform [OF assms(1) grant] .
  note guard = commit_guard [OF inv_run [OF t] commit]
  from lease_kept_run [OF t kept fresh] guard l
  show ?thesis by (auto simp: lease_kept_def)
qed

text \<open>At no moment of a run with a clock that does not go back are a lease and a fence in force together.\<close>

lemma exclusive_run:
  "inv s \<Longrightarrow> exclusive_from now (view s) \<Longrightarrow> sorted (now # map call_now cs) \<Longrightarrow>
   exclusive_from (last (now # map call_now cs)) (view (run cs s))"
proof (induction cs arbitrary: s now)
  case (Cons c cs)
  obtain r t where step: "perform (call_op c) (call_uuid c) (call_now c) s = (r, t)"
    by fastforce
  from Cons.prems(2,3) have "exclusive_from (call_now c) (view s)"
    by (auto intro: exclusive_from_mono)
  then have "exclusive_from (call_now c) (view t)"
    using exclusive_perform [OF Cons.prems(1) _ step] by simp
  with Cons.IH [of t "call_now c"] inv_perform [OF Cons.prems(1) step] Cons.prems(3) step
  show ?case by simp
qed simp

end

text \<open>
  A coordinator with receipts keeps each commit receipt once it is written, as long as the
  canonical state is not reset.
\<close>

locale receipted_coordinator = revision_coordinator +
  fixes tidy :: "'a \<Rightarrow> bool"
  assumes tidy_perform: "inv s \<Longrightarrow> tidy s \<Longrightarrow> op \<noteq> Reset \<Longrightarrow> perform op uuid now s = (r, t) \<Longrightarrow> tidy t"
    and receipt_perform:
      "inv s \<Longrightarrow> tidy s \<Longrightarrow> op \<noteq> Reset \<Longrightarrow> perform op uuid now s = (r, t)
       \<Longrightarrow> view_receipt (view s) k = Some p \<Longrightarrow> view_receipt (view t) k = Some p"
begin

lemma receipt_run:
  "inv s \<Longrightarrow> tidy s \<Longrightarrow> \<forall>c \<in> set cs. call_op c \<noteq> Reset \<Longrightarrow> view_receipt (view s) k = Some p \<Longrightarrow>
   view_receipt (view (run cs s)) k = Some p"
proof (induction cs arbitrary: s)
  case (Cons c cs)
  obtain r t where step: "perform (call_op c) (call_uuid c) (call_now c) s = (r, t)"
    by fastforce
  from Cons.prems(3) have op: "call_op c \<noteq> Reset" by simp
  show ?case
    using Cons.IH [of t] inv_perform [OF Cons.prems(1) step] tidy_perform [OF Cons.prems(1,2) op step]
      receipt_perform [OF Cons.prems(1,2) op step Cons.prems(4)] Cons.prems(3) step by simp
qed simp

end

end
