(* ===== verification/Durable_Coordinator.thy ===== *)
theory Durable_Coordinator
  imports Revision_Contract
begin

text \<open>
  \<open>packages/runtime-cloudflare/src/state-coordinator.ts\<close>: the coordinator that keeps canonical
  revisions in a Durable Object, its request handler, and the client stub that talks to it.

  The object's storage holds one coordinator record and one receipt per committed version; the R2
  bucket holds the current pointer of each site.  Methods are actions on that state.  A method
  works on a copy of the record it loaded, so only what it saves is kept when it throws.  The
  handler runs requests one at a time (the promise chain \<open>tail\<close>), which is why a request is one
  atomic action here.  Where a method reads the clock twice it takes two readings.
\<close>

section \<open>State\<close>

record stored_lease =
  sl_token :: string
  sl_base :: "markdown_pointer option"
  sl_version :: int
  sl_expiresAt :: int

record coordinator_record =
  cr_initialized :: bool
  cr_siteId :: "string option"
  cr_pointer :: "markdown_pointer option"
  cr_version :: int
  cr_lease :: "stored_lease option"
  cr_fence :: "mutation_fence option"

record do_state =
  do_record :: "coordinator_record option"
  do_commits :: "int \<Rightarrow> markdown_pointer option"
  do_bucket :: "string \<Rightarrow> markdown_pointer option"

type_synonym 'a do_action = "(do_state, coordinator_error, 'a) action"

definition LEASE_MS :: int where "LEASE_MS = 90000"

definition pointerKey :: "string \<Rightarrow> string" where
  "pointerKey siteId = ''sites/'' @ siteId @ ''/markdown/current.json''"

definition do_save :: "coordinator_record \<Rightarrow> unit do_action" where
  "do_save rec = modify (\<lambda>s. s\<lparr>do_record := Some rec\<rparr>)"

text \<open>\<open>record\<close>: the stored record, or a fresh one built from the pointer in the bucket.\<close>

definition do_fresh :: "string \<Rightarrow> coordinator_record do_action" where
  "do_fresh siteId =
     and_then (query (\<lambda>s. do_bucket s (pointerKey siteId))) (\<lambda>object.
     let rec = \<lparr>cr_initialized = True, cr_siteId = Some siteId, cr_pointer = object,
                cr_version = 0, cr_lease = None, cr_fence = None\<rparr>
     in and_then (do_save rec) (\<lambda>_. succeed rec))"

definition do_load :: "string \<Rightarrow> coordinator_record do_action" where
  "do_load siteId =
     and_then (query do_record) (\<lambda>stored.
       case stored of
         Some rec \<Rightarrow>
           if cr_initialized rec then
             if (case cr_siteId rec of None \<Rightarrow> ''default'' | Some i \<Rightarrow> i) \<noteq> siteId
             then throw (RevisionConflict ''The Durable Object belongs to a different site.'' None)
             else succeed rec
           else do_fresh siteId
       | None \<Rightarrow> do_fresh siteId)"

text \<open>\<open>activeFence\<close> drops an expired fence and saves the record; the record it leaves is returned too.\<close>

definition do_activeFence ::
    "coordinator_record \<Rightarrow> int \<Rightarrow> (mutation_fence option \<times> coordinator_record) do_action" where
  "do_activeFence rec now =
     (case cr_fence rec of
        None \<Rightarrow> succeed (None, rec)
      | Some fence \<Rightarrow>
          if fence_expiresAt fence > now then succeed (Some fence, rec)
          else let rec' = rec\<lparr>cr_fence := None\<rparr>
               in and_then (do_save rec') (\<lambda>_. succeed (None, rec')))"

definition do_requireLease ::
    "coordinator_record \<Rightarrow> jsval \<Rightarrow> int \<Rightarrow> stored_lease do_action" where
  "do_requireLease rec body now =
     (case cr_lease rec of
        None \<Rightarrow> throw (RevisionConflict ''The canonical WordPress lease has expired.'' None)
      | Some lease \<Rightarrow>
          if sl_expiresAt lease \<le> now
          then throw (RevisionConflict ''The canonical WordPress lease has expired.'' None)
          else if js_member body ''token'' \<noteq> JStr (sl_token lease)
          then throw (RevisionConflict ''The canonical WordPress lease token is invalid.'' None)
          else succeed lease)"

section \<open>Pointers in request bodies\<close>

definition pointer_json :: "markdown_pointer \<Rightarrow> jsval" where
  "pointer_json p = JObj [(''revision'', JStr (revision p)), (''manifestKey'', JStr (manifestKey p)),
                          (''persistedAt'', JStr (persistedAt p))]"

text \<open>The check \<open>!pointer || typeof pointer.revision !== "string" || ...\<close>; \<open>None\<close> where it rejects.\<close>

definition parse_pointer :: "jsval \<Rightarrow> markdown_pointer option" where
  "parse_pointer v =
     (case (js_member v ''revision'', js_member v ''manifestKey'', js_member v ''persistedAt'') of
        (JStr r, JStr m, JStr p) \<Rightarrow> Some \<lparr>revision = r, manifestKey = m, persistedAt = p\<rparr>
      | _ \<Rightarrow> None)"

lemma parse_pointer_json [simp]: "parse_pointer (pointer_json p) = Some p"
  by (simp add: parse_pointer_def pointer_json_def)

fun nullable_string :: "string option \<Rightarrow> jsval" where
  "nullable_string None = JNull"
| "nullable_string (Some s) = JStr s"

section \<open>Operations\<close>

definition do_current :: "string \<Rightarrow> revision_state do_action" where
  "do_current siteId =
     and_then (do_load siteId) (\<lambda>rec.
       succeed \<lparr>state_store = Durable_object, state_pointer = cr_pointer rec, state_version = cr_version rec\<rparr>)"

definition lease_of_stored :: "stored_lease \<Rightarrow> revision_lease" where
  "lease_of_stored l = \<lparr>lease_token = sl_token l, lease_pointer = sl_base l,
     lease_version = sl_version l, lease_expiresAt = sl_expiresAt l\<rparr>"

text \<open>The lifetime a request asks for, else the one configured, else 90 seconds.\<close>

definition do_leaseTtl :: "jsval \<Rightarrow> jsval \<Rightarrow> jsval" where
  "do_leaseTtl leaseMs body = coalesce (js_member body ''ttlMs'') (coalesce leaseMs (JInt LEASE_MS))"

text \<open>The check \<open>record.lease && record.lease.expiresAt > now\<close> of four methods, with the method's message.\<close>

definition do_requireIdle :: "coordinator_record \<Rightarrow> string \<Rightarrow> int \<Rightarrow> unit do_action" where
  "do_requireIdle rec message now =
     (case cr_lease rec of
        Some l \<Rightarrow>
          if sl_expiresAt l > now then throw (RevisionConflict message (Some (sl_expiresAt l))) else succeed ()
      | None \<Rightarrow> succeed ())"

definition do_begin ::
    "jsval \<Rightarrow> string \<Rightarrow> jsval \<Rightarrow> string \<Rightarrow> int \<Rightarrow> int \<Rightarrow> revision_lease do_action" where
  "do_begin leaseMs siteId body uuid now now' =
     and_then (do_load siteId) (\<lambda>rec0.
     and_then (do_activeFence rec0 now') (\<lambda>(fence, rec).
       case fence of
         Some f \<Rightarrow> throw (RevisionConflict
           ''Canonical WordPress mutations are fenced for coordinator cutover.'' (Some (fence_expiresAt f)))
       | None \<Rightarrow>
           and_then (do_requireIdle rec ''A canonical WordPress lease is active.'' now) (\<lambda>_.
           and_then (from_result (revisionLeaseExpiresAt (do_leaseTtl leaseMs body) now)) (\<lambda>expiresAt.
           let lease = \<lparr>sl_token = uuid, sl_base = cr_pointer rec, sl_version = cr_version rec,
                        sl_expiresAt = expiresAt\<rparr>
           in and_then (do_save (rec\<lparr>cr_lease := Some lease\<rparr>)) (\<lambda>_.
              succeed (lease_of_stored lease))))))"

definition do_release :: "string \<Rightarrow> jsval \<Rightarrow> int \<Rightarrow> unit do_action" where
  "do_release siteId body now =
     and_then (do_load siteId) (\<lambda>rec.
     and_then (do_requireLease rec body now) (\<lambda>_.
       do_save (rec\<lparr>cr_lease := None\<rparr>)))"

definition do_renew :: "jsval \<Rightarrow> string \<Rightarrow> jsval \<Rightarrow> int \<Rightarrow> int \<Rightarrow> revision_lease do_action" where
  "do_renew leaseMs siteId body now now' =
     and_then (do_load siteId) (\<lambda>rec.
     and_then (do_requireLease rec body now) (\<lambda>lease.
     and_then (from_result (revisionLeaseExpiresAt (do_leaseTtl leaseMs body) now')) (\<lambda>expiresAt.
     let lease' = lease\<lparr>sl_expiresAt := expiresAt\<rparr>
     in and_then (do_save (rec\<lparr>cr_lease := Some lease'\<rparr>)) (\<lambda>_. succeed (lease_of_stored lease')))))"

definition do_abort :: "string \<Rightarrow> jsval \<Rightarrow> int \<Rightarrow> unit do_action" where
  "do_abort siteId body now =
     and_then (do_load siteId) (\<lambda>rec.
     and_then (do_requireLease rec body now) (\<lambda>_.
       do_save (rec\<lparr>cr_lease := None\<rparr>)))"

definition put_pointer :: "string \<Rightarrow> markdown_pointer option \<Rightarrow> unit do_action" where
  "put_pointer siteId p = modify (\<lambda>s. s\<lparr>do_bucket := (do_bucket s)(pointerKey siteId := p)\<rparr>)"

text \<open>The storage transaction of \<open>commit\<close> and \<open>adopt\<close>: the receipt and the record together.\<close>

definition put_promotion :: "coordinator_record \<Rightarrow> markdown_pointer \<Rightarrow> unit do_action" where
  "put_promotion rec p =
     modify (\<lambda>s. s\<lparr>do_commits := (do_commits s)(cr_version rec := Some p), do_record := Some rec\<rparr>)"

definition do_commit :: "string \<Rightarrow> jsval \<Rightarrow> int \<Rightarrow> (markdown_pointer \<times> int) do_action" where
  "do_commit siteId body now =
     and_then (do_load siteId) (\<lambda>rec.
     and_then (do_requireLease rec body now) (\<lambda>lease.
       case parse_pointer (js_member body ''pointer'') of
         None \<Rightarrow> throw (RevisionConflict ''A complete canonical pointer is required for promotion.'' None)
       | Some pointer \<Rightarrow>
           if js_member body ''baseRevision'' \<noteq> nullable_string (map_option revision (sl_base lease))
              \<or> js_member body ''version'' \<noteq> JInt (sl_version lease)
              \<or> cr_version rec \<noteq> sl_version lease
              \<or> map_option revision (cr_pointer rec) \<noteq> map_option revision (sl_base lease)
           then throw (RevisionConflict ''The canonical pointer changed before promotion.'' None)
           else
             and_then (put_pointer siteId (Some pointer)) (\<lambda>_.
             let rec' = rec\<lparr>cr_pointer := Some pointer, cr_version := cr_version rec + 1, cr_lease := None\<rparr>
             in and_then (put_promotion rec' pointer) (\<lambda>_. succeed (pointer, cr_version rec')))))"

definition do_committed :: "string \<Rightarrow> jsval \<Rightarrow> markdown_pointer option do_action" where
  "do_committed siteId body =
     and_then (do_load siteId) (\<lambda>_.
       case safe_integer (js_member body ''version'') of
         None \<Rightarrow> throw (RevisionConflict ''A canonical commit version is required.'' None)
       | Some v \<Rightarrow>
           if v < 1 then throw (RevisionConflict ''A canonical commit version is required.'' None)
           else query (\<lambda>s. do_commits s v))"

definition do_fenceStatus :: "string \<Rightarrow> int \<Rightarrow> mutation_fence_status do_action" where
  "do_fenceStatus siteId now =
     and_then (do_load siteId) (\<lambda>rec.
     and_then (do_activeFence rec now) (\<lambda>(fence, _).
       succeed (case fence of
           Some f \<Rightarrow> \<lparr>status_active = True, status_expiresAt = Some (fence_expiresAt f)\<rparr>
         | None \<Rightarrow> \<lparr>status_active = False, status_expiresAt = None\<rparr>)))"

definition do_acquireFence :: "string \<Rightarrow> jsval \<Rightarrow> string \<Rightarrow> int \<Rightarrow> mutation_fence do_action" where
  "do_acquireFence siteId body uuid now =
     and_then (do_load siteId) (\<lambda>rec0.
     and_then (from_result (mutationFenceExpiresAt (js_member body ''ttlMs'') now)) (\<lambda>expiresAt.
     and_then (do_requireIdle rec0 ''A canonical WordPress lease is active.'' now) (\<lambda>_.
     and_then (do_activeFence (rec0\<lparr>cr_lease := None\<rparr>) now) (\<lambda>(active, rec).
       case active of
         Some f \<Rightarrow> throw (RevisionConflict ''A coordinator cutover fence is already active.''
                            (Some (fence_expiresAt f)))
       | None \<Rightarrow>
           let fence = \<lparr>fence_token = uuid, fence_expiresAt = expiresAt\<rparr>
           in and_then (do_save (rec\<lparr>cr_fence := Some fence\<rparr>)) (\<lambda>_. succeed fence)))))"

text \<open>The guard \<open>!active || typeof body.token !== "string" || body.token !== active.token\<close>.\<close>

definition do_requireFence :: "mutation_fence option \<Rightarrow> jsval \<Rightarrow> mutation_fence do_action" where
  "do_requireFence active body =
     (case active of
        Some f \<Rightarrow>
          if js_member body ''token'' = JStr (fence_token f) then succeed f
          else throw (RevisionConflict ''The coordinator cutover fence token is invalid or expired.'' None)
      | None \<Rightarrow> throw (RevisionConflict ''The coordinator cutover fence token is invalid or expired.'' None))"

definition do_renewFence :: "string \<Rightarrow> jsval \<Rightarrow> int \<Rightarrow> int \<Rightarrow> mutation_fence do_action" where
  "do_renewFence siteId body now now' =
     and_then (do_load siteId) (\<lambda>rec0.
     and_then (do_activeFence rec0 now) (\<lambda>(active, rec).
     and_then (do_requireFence active body) (\<lambda>f.
     and_then (from_result (mutationFenceExpiresAt (js_member body ''ttlMs'') now')) (\<lambda>expiresAt.
     let fence = \<lparr>fence_token = fence_token f, fence_expiresAt = expiresAt\<rparr>
     in and_then (do_save (rec\<lparr>cr_fence := Some fence\<rparr>)) (\<lambda>_. succeed fence)))))"

definition do_releaseFence :: "string \<Rightarrow> jsval \<Rightarrow> int \<Rightarrow> unit do_action" where
  "do_releaseFence siteId body now =
     and_then (do_load siteId) (\<lambda>rec0.
     and_then (do_activeFence rec0 now) (\<lambda>(active, rec).
     and_then (do_requireFence active body) (\<lambda>_.
       do_save (rec\<lparr>cr_fence := None\<rparr>))))"

text \<open>The end of \<open>adopt\<close>, once body and fence are accepted: the checks on the record, and the promotion.\<close>

definition do_adoptOnto ::
    "coordinator_record \<Rightarrow> markdown_pointer \<Rightarrow> int \<Rightarrow> int \<Rightarrow> (markdown_pointer \<times> int) do_action" where
  "do_adoptOnto rec pointer version now' =
     and_then (do_requireIdle rec ''Coordinator adoption requires no active lease.'' now') (\<lambda>_.
     let rec1 = rec\<lparr>cr_lease := None\<rparr>;
         empty = (cr_version rec1 = 0 \<and> cr_pointer rec1 = None);
         exact = (cr_version rec1 = version \<and> samePointer (cr_pointer rec1) pointer);
         forward = (version > cr_version rec1)
     in if \<not> empty \<and> \<not> exact \<and> \<not> forward
        then throw (RevisionConflict
          ''Coordinator adoption requires empty, exactly matching, or monotonic forward state.'' None)
        else
          and_then (query (\<lambda>s. do_commits s version)) (\<lambda>committed.
          if committed \<noteq> None \<and> \<not> samePointer committed pointer
          then throw (RevisionConflict
            ''Coordinator adoption cannot replace an existing commit receipt.'' None)
          else
            let rec2 = rec1\<lparr>cr_pointer := Some pointer, cr_version := version\<rparr>
            in and_then (put_promotion rec2 pointer) (\<lambda>_. succeed (pointer, cr_version rec2))))"

definition do_adopt :: "string \<Rightarrow> jsval \<Rightarrow> int \<Rightarrow> int \<Rightarrow> (markdown_pointer \<times> int) do_action" where
  "do_adopt siteId body now now' =
     and_then (do_load siteId) (\<lambda>rec0.
     and_then (do_activeFence rec0 now) (\<lambda>(fence, rec).
       if js_member body ''requireFence'' = JBool True \<and> fence = None
       then throw (RevisionConflict ''Selected coordinator adoption requires an active cutover fence.'' None)
       else if (case fence of Some f \<Rightarrow> js_member body ''fenceToken'' \<noteq> JStr (fence_token f) | None \<Rightarrow> False)
       then throw (RevisionConflict ''Coordinator adoption is blocked by an active cutover fence.''
                     (map_option fence_expiresAt fence))
       else
         (case (parse_pointer (js_member body ''pointer''), safe_integer (js_member body ''version'')) of
            (Some pointer, Some version) \<Rightarrow>
              if version < 1
              then throw (RevisionConflict
                ''A complete canonical pointer and positive version are required for adoption.'' None)
              else do_adoptOnto rec pointer version now'
          | _ \<Rightarrow> throw (RevisionConflict
              ''A complete canonical pointer and positive version are required for adoption.'' None))))"

definition do_reset :: "string \<Rightarrow> int \<Rightarrow> unit do_action" where
  "do_reset siteId now =
     and_then (do_load siteId) (\<lambda>rec0.
     and_then (do_activeFence rec0 now) (\<lambda>(fence, rec).
       case fence of
         Some f \<Rightarrow> throw (RevisionConflict ''Coordinator reset is blocked by an active cutover fence.''
                            (Some (fence_expiresAt f)))
       | None \<Rightarrow>
           and_then (do_requireIdle rec ''Coordinator reset is blocked by an active canonical lease.'' now) (\<lambda>_.
           and_then (put_pointer siteId None) (\<lambda>_.
             modify (\<lambda>s. s\<lparr>do_record := None\<rparr>)))))"

section \<open>Request handler and client\<close>

datatype http_method = GET | POST

record do_request =
  req_method :: http_method
  req_action :: "string option"
  req_siteId :: "string option"
  req_body :: jsval

datatype do_response =
    Json_response coordinator_reply
  | Text_response nat string
  | Conflict_response string "int option" "int option"
  | Error_response string

definition reply_with :: "('a \<Rightarrow> coordinator_reply) \<Rightarrow> 'a do_action \<Rightarrow> do_response do_action" where
  "reply_with f m = and_then m (\<lambda>x. succeed (Json_response (f x)))"

abbreviation promoted_reply :: "markdown_pointer \<times> int \<Rightarrow> coordinator_reply" where
  "promoted_reply pv \<equiv> Promoted_reply (fst pv) (snd pv)"

text \<open>
  \<open>handle\<close>.  \<open>leaseMs\<close> is \<open>env.COORDINATOR_LEASE_MS\<close>; \<open>uuid\<close> is what \<open>crypto.randomUUID\<close> would draw;
  \<open>now \<le> now'\<close> are the clock readings.
\<close>

definition do_handle :: "jsval \<Rightarrow> do_request \<Rightarrow> string \<Rightarrow> int \<Rightarrow> int \<Rightarrow> do_response do_action" where
  "do_handle leaseMs request uuid now now' =
     (let siteId = (case req_siteId request of None \<Rightarrow> ''default'' | Some i \<Rightarrow> i);
          body = req_body request
      in
      case (req_method request, req_action request) of
        (method, None) \<Rightarrow> succeed (Text_response 404 ''Coordinator requests require an internal action.'')
      | (method, Some action) \<Rightarrow>
      if method = GET \<and> action = ''state'' then reply_with State_reply (do_current siteId)
      else if method = GET \<and> action = ''fence-status''
        then reply_with Fence_status_reply (do_fenceStatus siteId now)
      else if method \<noteq> POST \<or> action = []
        then succeed (Text_response 404 ''Coordinator requests require an internal action.'')
      else if action = ''begin'' then reply_with Lease_reply (do_begin leaseMs siteId body uuid now now')
      else if action = ''renew'' then reply_with Lease_reply (do_renew leaseMs siteId body now now')
      else if action = ''release'' then reply_with (\<lambda>_. Released_reply) (do_release siteId body now)
      else if action = ''abort'' then reply_with (\<lambda>_. Aborted_reply) (do_abort siteId body now)
      else if action = ''commit'' then reply_with promoted_reply (do_commit siteId body now)
      else if action = ''committed'' then reply_with Pointer_reply (do_committed siteId body)
      else if action = ''fence-status'' then reply_with Fence_status_reply (do_fenceStatus siteId now)
      else if action = ''fence-acquire'' then reply_with Fence_reply (do_acquireFence siteId body uuid now)
      else if action = ''fence-renew'' then reply_with Fence_reply (do_renewFence siteId body now now')
      else if action = ''fence-release'' then reply_with (\<lambda>_. Released_reply) (do_releaseFence siteId body now)
      else if action = ''adopt'' then reply_with promoted_reply (do_adopt siteId body now now')
      else if action = ''reset'' then reply_with (\<lambda>_. Reset_reply) (do_reset siteId now)
      else succeed (Text_response 404 ''Unknown coordinator action.''))"

text \<open>\<open>fetch\<close> turns what the handler throws into a response; it never throws itself.\<close>

definition retry_after :: "int \<Rightarrow> int \<Rightarrow> int" where
  "retry_after retryAt now = max 1 (- ((now - retryAt) div 1000))"

definition do_fetch :: "jsval \<Rightarrow> do_request \<Rightarrow> string \<Rightarrow> int \<Rightarrow> int \<Rightarrow> do_state \<Rightarrow> do_response \<times> do_state" where
  "do_fetch leaseMs request uuid now now' s =
     (case do_handle leaseMs request uuid now now' s of
        (Inr response, t) \<Rightarrow> (response, t)
      | (Inl (RevisionConflict message retryAt), t) \<Rightarrow>
          (Conflict_response message retryAt
             (case retryAt of
                None \<Rightarrow> None
              | Some moment \<Rightarrow> if moment = 0 then None else Some (retry_after moment now')), t)
      | (Inl (PlainError message), t) \<Rightarrow> (Error_response message, t))"

text \<open>The stub's \<open>call\<close>: a request, and the response decoded.\<close>

definition do_decode :: "do_response \<Rightarrow> coordinator_error + coordinator_reply" where
  "do_decode response =
     (case response of
        Json_response r \<Rightarrow> Inr r
      | Text_response status _ \<Rightarrow>
          Inl (PlainError (''Durable Object coordination failed with '' @ string_of_nat status @ ''.''))
      | Conflict_response message retryAt _ \<Rightarrow> Inl (RevisionConflict message retryAt)
      | Error_response message \<Rightarrow> Inl (PlainError message))"

definition do_call ::
    "jsval \<Rightarrow> string \<Rightarrow> string \<Rightarrow> js_object option \<Rightarrow> string \<Rightarrow> int \<Rightarrow> int \<Rightarrow> coordinator_reply do_action" where
  "do_call leaseMs siteId action body uuid now now' s =
     (let request = \<lparr>req_method = (if body = None then GET else POST), req_action = Some action,
                     req_siteId = Some siteId,
                     req_body = (case body of None \<Rightarrow> JUndef | Some fs \<Rightarrow> JObj fs)\<rparr>
      in case do_fetch leaseMs request uuid now now' s of (response, t) \<Rightarrow> (do_decode response, t))"

text \<open>A body field with an undefined value is absent from the JSON text.\<close>

definition js_field :: "string \<Rightarrow> jsval \<Rightarrow> js_object" where
  "js_field key v = (if v = JUndef then [] else [(key, v)])"

lemma js_get_field [simp]: "js_get (js_field k v) k = v"
  by (simp add: js_field_def)

definition void_reply :: "coordinator_reply do_action \<Rightarrow> coordinator_reply do_action" where
  "void_reply m = and_then m (\<lambda>_. succeed Void_reply)"

definition commit_body :: "revision_lease \<Rightarrow> markdown_pointer \<Rightarrow> js_object" where
  "commit_body lease pointer =
     [(''token'', JStr (lease_token lease)),
      (''baseRevision'', nullable_string (map_option revision (lease_pointer lease))),
      (''version'', JInt (lease_version lease)), (''pointer'', pointer_json pointer)]"

definition adopt_body :: "markdown_pointer \<Rightarrow> int \<Rightarrow> string option \<Rightarrow> bool \<Rightarrow> js_object" where
  "adopt_body pointer version fenceToken requireFence =
     [(''pointer'', pointer_json pointer), (''version'', JInt version),
      (''requireFence'', JBool requireFence)]
     @ (case fenceToken of None \<Rightarrow> [] | Some tok \<Rightarrow> [(''fenceToken'', JStr tok)])"

text \<open>The methods of \<open>DurableObjectRevisionCoordinator\<close>.\<close>

fun do_client ::
    "jsval \<Rightarrow> string \<Rightarrow> coordinator_op \<Rightarrow> string \<Rightarrow> int \<Rightarrow> int \<Rightarrow> coordinator_reply do_action" where
  "do_client m site Read_state u n n' = do_call m site ''state'' None u n n'"
| "do_client m site (Acquire ttl) u n n' = do_call m site ''begin'' (Some (js_field ''ttlMs'' ttl)) u n n'"
| "do_client m site (Renew lease ttl) u n n' =
     do_call m site ''renew'' (Some ((''token'', JStr (lease_token lease)) # js_field ''ttlMs'' ttl)) u n n'"
| "do_client m site (Release lease) u n n' =
     void_reply (do_call m site ''release'' (Some [(''token'', JStr (lease_token lease))]) u n n')"
| "do_client m site (Abort lease) u n n' =
     void_reply (do_call m site ''abort'' (Some [(''token'', JStr (lease_token lease))]) u n n')"
| "do_client m site (Commit lease pointer) u n n' =
     do_call m site ''commit'' (Some (commit_body lease pointer)) u n n'"
| "do_client m site (Committed version) u n n' =
     do_call m site ''committed'' (Some [(''version'', JInt version)]) u n n'"
| "do_client m site Fence_status u n n' = do_call m site ''fence-status'' None u n n'"
| "do_client m site (Acquire_fence ttl) u n n' =
     do_call m site ''fence-acquire'' (Some (js_field ''ttlMs'' ttl)) u n n'"
| "do_client m site (Renew_fence token ttl) u n n' =
     do_call m site ''fence-renew'' (Some ((''token'', JStr token) # js_field ''ttlMs'' ttl)) u n n'"
| "do_client m site (Release_fence token) u n n' =
     void_reply (do_call m site ''fence-release'' (Some [(''token'', JStr token)]) u n n')"
| "do_client m site (Adopt pointer version fenceToken requireFence) u n n' =
     do_call m site ''adopt'' (Some (adopt_body pointer version fenceToken requireFence)) u n n'"
| "do_client m site Reset u n n' = void_reply (do_call m site ''reset'' (Some []) u n n')"

section \<open>What the client sees of each method\<close>

text \<open>The stub and the handler are transparent: a call is the method itself with its decoded reply.\<close>

lemma do_decode_fetch:
  "(case do_fetch m req u n n' s of (response, t) \<Rightarrow> (do_decode response, t)) =
   (case do_handle m req u n n' s of (Inr response, t) \<Rightarrow> (do_decode response, t) | (Inl e, t) \<Rightarrow> (Inl e, t))"
  by (auto simp: do_fetch_def do_decode_def split: prod.splits sum.splits coordinator_error.splits)

lemma do_call_handle:
  "do_call m site action body u n n' s =
   (case do_handle m \<lparr>req_method = (if body = None then GET else POST), req_action = Some action,
            req_siteId = Some site, req_body = (case body of None \<Rightarrow> JUndef | Some fs \<Rightarrow> JObj fs)\<rparr> u n n' s of
      (Inr response, t) \<Rightarrow> (do_decode response, t) | (Inl e, t) \<Rightarrow> (Inl e, t))"
  by (simp add: do_call_def Let_def do_decode_fetch)

definition replying :: "('a \<Rightarrow> coordinator_reply) \<Rightarrow> 'a do_action \<Rightarrow> coordinator_reply do_action" where
  "replying f m = and_then m (\<lambda>x. succeed (f x))"

lemma reply_with_decoded:
  "(case reply_with f m s of (Inr response, t) \<Rightarrow> (do_decode response, t) | (Inl e, t) \<Rightarrow> (Inl e, t))
   = replying f m s"
  by (auto simp: reply_with_def replying_def and_then_def succeed_def do_decode_def split: prod.splits sum.splits)

lemma void_replying: "void_reply (replying f m) = replying (\<lambda>_. Void_reply) m"
  by (auto simp: void_reply_def replying_def and_then_def succeed_def fun_eq_iff split: prod.splits sum.splits)

lemma do_call_methods:
  "do_call m site ''state'' None u n n' = replying State_reply (do_current site)"
  "do_call m site ''fence-status'' None u n n' = replying Fence_status_reply (do_fenceStatus site n)"
  "do_call m site ''begin'' (Some b) u n n' = replying Lease_reply (do_begin m site (JObj b) u n n')"
  "do_call m site ''renew'' (Some b) u n n' = replying Lease_reply (do_renew m site (JObj b) n n')"
  "do_call m site ''release'' (Some b) u n n' = replying (\<lambda>_. Released_reply) (do_release site (JObj b) n)"
  "do_call m site ''abort'' (Some b) u n n' = replying (\<lambda>_. Aborted_reply) (do_abort site (JObj b) n)"
  "do_call m site ''commit'' (Some b) u n n' = replying promoted_reply (do_commit site (JObj b) n)"
  "do_call m site ''committed'' (Some b) u n n' = replying Pointer_reply (do_committed site (JObj b))"
  "do_call m site ''fence-acquire'' (Some b) u n n' = replying Fence_reply (do_acquireFence site (JObj b) u n)"
  "do_call m site ''fence-renew'' (Some b) u n n' = replying Fence_reply (do_renewFence site (JObj b) n n')"
  "do_call m site ''fence-release'' (Some b) u n n' = replying (\<lambda>_. Released_reply) (do_releaseFence site (JObj b) n)"
  "do_call m site ''adopt'' (Some b) u n n' = replying promoted_reply (do_adopt site (JObj b) n n')"
  "do_call m site ''reset'' (Some b) u n n' = replying (\<lambda>_. Reset_reply) (do_reset site n)"
  by (rule ext, simp add: do_call_handle do_handle_def reply_with_decoded)+

lemmas do_client_methods = do_client.simps do_call_methods void_replying

section \<open>What each method does to the view\<close>

definition rec_view :: "(int \<Rightarrow> markdown_pointer option) \<Rightarrow> coordinator_record \<Rightarrow> revision_view" where
  "rec_view receipts rec =
     \<lparr>view_pointer = cr_pointer rec, view_version = cr_version rec,
      view_lease = map_option (\<lambda>l. \<lparr>held_token = sl_token l, held_base = map_option revision (sl_base l),
                                    held_version = sl_version l, held_expiresAt = sl_expiresAt l\<rparr>) (cr_lease rec),
      view_fence = cr_fence rec, view_receipt = receipts\<rparr>"

text \<open>The record a method of \<open>site\<close> would load.\<close>

definition loaded :: "string \<Rightarrow> do_state \<Rightarrow> coordinator_record" where
  "loaded site s =
     (case do_record s of
        Some rec \<Rightarrow> if cr_initialized rec then rec else
          \<lparr>cr_initialized = True, cr_siteId = Some site, cr_pointer = do_bucket s (pointerKey site),
           cr_version = 0, cr_lease = None, cr_fence = None\<rparr>
      | None \<Rightarrow>
          \<lparr>cr_initialized = True, cr_siteId = Some site, cr_pointer = do_bucket s (pointerKey site),
           cr_version = 0, cr_lease = None, cr_fence = None\<rparr>)"

definition do_view :: "string \<Rightarrow> do_state \<Rightarrow> revision_view" where
  "do_view site s = rec_view (do_commits s) (loaded site s)"

lemma loaded_stored [simp]:
  "do_record s = Some rec \<Longrightarrow> cr_initialized rec \<Longrightarrow> loaded site s = rec"
  by (simp add: loaded_def)

lemma loaded_initialized [simp]: "cr_initialized (loaded site s)"
  by (auto simp: loaded_def split: option.splits)

lemma do_load_Inr:
  "do_load site s = (Inr rec, t) \<Longrightarrow>
     rec = loaded site s \<and> t = s\<lparr>do_record := Some rec\<rparr>"
  by (auto simp: do_load_def do_fresh_def do_save_def loaded_def action_defs Let_def split: option.splits if_splits)

lemma do_load_Inl: "do_load site s = (Inl e, t) \<Longrightarrow> t = s"
  by (auto simp: do_load_def do_fresh_def do_save_def action_defs Let_def split: option.splits if_splits)

lemma do_requireLease_Inr [simp]:
  "do_requireLease rec body now s = (Inr l, t) \<longleftrightarrow>
     cr_lease rec = Some l \<and> now < sl_expiresAt l \<and> js_member body ''token'' = JStr (sl_token l) \<and> t = s"
  by (auto simp: do_requireLease_def action_defs split: option.splits if_splits)

lemma do_requireLease_Inl: "do_requireLease rec body now s = (Inl e, t) \<Longrightarrow> t = s"
  by (auto simp: do_requireLease_def action_defs split: option.splits if_splits)

lemma do_requireIdle_Inr [simp]:
  "do_requireIdle rec msg now s = (Inr u, t) \<longleftrightarrow> (\<forall>l. cr_lease rec = Some l \<longrightarrow> sl_expiresAt l \<le> now) \<and> t = s"
  by (auto simp: do_requireIdle_def action_defs split: option.splits if_splits)

lemma do_requireIdle_Inl: "do_requireIdle rec msg now s = (Inl e, t) \<Longrightarrow> t = s"
  by (auto simp: do_requireIdle_def action_defs split: option.splits if_splits)

lemma do_requireFence_Inr [simp]:
  "do_requireFence active body s = (Inr f, t) \<longleftrightarrow>
     active = Some f \<and> js_member body ''token'' = JStr (fence_token f) \<and> t = s"
  by (auto simp: do_requireFence_def action_defs split: option.splits if_splits)

lemma do_requireFence_Inl: "do_requireFence active body s = (Inl e, t) \<Longrightarrow> t = s"
  by (auto simp: do_requireFence_def action_defs split: option.splits if_splits)

lemma do_save_result [simp]: "do_save rec s = (r, t) \<longleftrightarrow> r = Inr () \<and> t = s\<lparr>do_record := Some rec\<rparr>"
  by (auto simp: do_save_def modify_def)

text \<open>The record \<open>activeFence\<close> leaves, and the fence it found in force.\<close>

definition live_fence :: "coordinator_record \<Rightarrow> int \<Rightarrow> mutation_fence option" where
  "live_fence rec now = (case cr_fence rec of
      Some f \<Rightarrow> if fence_expiresAt f > now then Some f else None | None \<Rightarrow> None)"

lemma do_activeFence_result:
  "do_activeFence rec now s = (Inr x, t) \<Longrightarrow>
     live_fence rec now = fst x \<and> snd x = rec\<lparr>cr_fence := fst x\<rparr>
     \<and> (t = s \<and> cr_fence rec = fst x \<or> t = s\<lparr>do_record := Some (rec\<lparr>cr_fence := None\<rparr>)\<rparr> \<and> fst x = None)"
  by (cases rec) (auto simp: do_activeFence_def do_save_def live_fence_def action_defs Let_def
      split: option.splits if_splits)

lemma do_activeFence_Inl [simp]: "do_activeFence rec now s \<noteq> (Inl e, t)"
  by (auto simp: do_activeFence_def do_save_def action_defs Let_def split: option.splits if_splits)

lemma put_results [simp]:
  "put_pointer site p s = (r, t) \<longleftrightarrow> r = Inr () \<and> t = s\<lparr>do_bucket := (do_bucket s)(pointerKey site := p)\<rparr>"
  "put_promotion rec q s = (r, t) \<longleftrightarrow> r = Inr ()
     \<and> t = s\<lparr>do_commits := (do_commits s)(cr_version rec := Some q), do_record := Some rec\<rparr>"
  by (auto simp: put_pointer_def put_promotion_def modify_def)

lemma do_begin_Inr:
  assumes "do_begin m site body uuid now now' s = (Inr l, t)"
  shows "\<exists>exp. l = \<lparr>lease_token = uuid, lease_pointer = cr_pointer (loaded site s),
                      lease_version = cr_version (loaded site s), lease_expiresAt = exp\<rparr>
     \<and> revisionLeaseExpiresAt (do_leaseTtl m body) now = Inr exp
     \<and> live_fence (loaded site s) now' = None
     \<and> (\<forall>l. cr_lease (loaded site s) = Some l \<longrightarrow> sl_expiresAt l \<le> now)
     \<and> t = s\<lparr>do_record := Some ((loaded site s)\<lparr>cr_fence := None,
          cr_lease := Some \<lparr>sl_token = uuid, sl_base = cr_pointer (loaded site s),
            sl_version = cr_version (loaded site s), sl_expiresAt = exp\<rparr>\<rparr>)\<rparr>"
  using assms unfolding do_begin_def
  by (fastforce simp: and_then_Inr_iff Let_def lease_of_stored_def split: option.splits
      dest!: do_load_Inr do_activeFence_result)

text \<open>A state that differs at most in a saved copy of the loaded record or a dropped fence.\<close>

definition quiet :: "string \<Rightarrow> do_state \<Rightarrow> do_state \<Rightarrow> bool" where
  "quiet site s t \<longleftrightarrow> t = s \<or> t = s\<lparr>do_record := Some (loaded site s)\<rparr>
     \<or> t = s\<lparr>do_record := Some ((loaded site s)\<lparr>cr_fence := None\<rparr>)\<rparr>"

lemma quiet_refl [simp]: "quiet site s s"
  and quiet_save [simp]: "quiet site s (s\<lparr>do_record := Some (loaded site s)\<rparr>)"
  and quiet_drop [simp]: "quiet site s (s\<lparr>do_record := Some ((loaded site s)\<lparr>cr_fence := None\<rparr>)\<rparr>)"
  by (auto simp: quiet_def)

lemmas do_guards = do_load_Inr do_load_Inl do_activeFence_result do_requireLease_Inl do_requireIdle_Inl
  do_requireFence_Inl

lemmas do_cases = and_then_Inr_iff and_then_Inl_iff Let_def

lemma do_begin_Inl: "do_begin m site body uuid now now' s = (Inl e, t) \<Longrightarrow> quiet site s t"
  unfolding do_begin_def
  by (fastforce simp: do_cases quiet_def split: option.splits dest: do_guards)

lemma do_release_Inr:
  "do_release site body now s = (Inr u, t) \<Longrightarrow>
     (\<exists>l. cr_lease (loaded site s) = Some l \<and> now < sl_expiresAt l \<and> js_member body ''token'' = JStr (sl_token l))
     \<and> t = s\<lparr>do_record := Some ((loaded site s)\<lparr>cr_lease := None\<rparr>)\<rparr>"
  unfolding do_release_def by (auto simp: do_cases dest!: do_load_Inr)

lemma do_release_Inl: "do_release site body now s = (Inl e, t) \<Longrightarrow> quiet site s t"
  unfolding do_release_def by (auto simp: do_cases dest!: do_guards)

lemma do_abort_release: "do_abort = do_release"
  by (intro ext) (simp add: do_abort_def do_release_def)

lemma do_renew_Inr:
  "do_renew m site body now now' s = (Inr l, t) \<Longrightarrow>
     (\<exists>k exp. cr_lease (loaded site s) = Some k \<and> now < sl_expiresAt k
        \<and> js_member body ''token'' = JStr (sl_token k)
        \<and> revisionLeaseExpiresAt (do_leaseTtl m body) now' = Inr exp
        \<and> l = lease_of_stored (k\<lparr>sl_expiresAt := exp\<rparr>)
        \<and> t = s\<lparr>do_record := Some ((loaded site s)\<lparr>cr_lease := Some (k\<lparr>sl_expiresAt := exp\<rparr>)\<rparr>)\<rparr>)"
  unfolding do_renew_def by (auto simp: do_cases dest!: do_load_Inr)

lemma do_renew_Inl: "do_renew m site body now now' s = (Inl e, t) \<Longrightarrow> quiet site s t"
  unfolding do_renew_def by (auto simp: do_cases dest!: do_guards)

lemma do_commit_Inr:
  "do_commit site body now s = (Inr pv, t) \<Longrightarrow>
     (\<exists>l p. cr_lease (loaded site s) = Some l \<and> now < sl_expiresAt l
        \<and> js_member body ''token'' = JStr (sl_token l)
        \<and> parse_pointer (js_member body ''pointer'') = Some p
        \<and> js_member body ''baseRevision'' = nullable_string (map_option revision (sl_base l))
        \<and> js_member body ''version'' = JInt (sl_version l)
        \<and> cr_version (loaded site s) = sl_version l
        \<and> map_option revision (cr_pointer (loaded site s)) = map_option revision (sl_base l)
        \<and> pv = (p, sl_version l + 1)
        \<and> t = s\<lparr>do_bucket := (do_bucket s)(pointerKey site := Some p),
                do_commits := (do_commits s)(sl_version l + 1 := Some p),
                do_record := Some ((loaded site s)\<lparr>cr_pointer := Some p, cr_version := sl_version l + 1,
                                                    cr_lease := None\<rparr>)\<rparr>)"
  unfolding do_commit_def
  by (auto simp: do_cases dest!: do_load_Inr split: option.splits if_splits)

lemma do_commit_Inl: "do_commit site body now s = (Inl e, t) \<Longrightarrow> quiet site s t"
  unfolding do_commit_def
  by (auto simp: do_cases dest!: do_guards split: option.splits if_splits)

lemma do_committed_result:
  "do_committed site body s = (r, t) \<Longrightarrow> quiet site s t
     \<and> (\<forall>q. r = Inr q \<longrightarrow> (\<exists>v \<ge> 1. safe_integer (js_member body ''version'') = Some v \<and> q = do_commits s v))"
  unfolding do_committed_def
  by (cases r) (auto simp: do_cases dest!: do_guards split: option.splits if_splits)

lemma do_current_result:
  "do_current site s = (r, t) \<Longrightarrow> quiet site s t"
  unfolding do_current_def
  by (cases r) (auto simp: do_cases dest!: do_guards)

lemma do_fenceStatus_result:
  "do_fenceStatus site now s = (r, t) \<Longrightarrow> quiet site s t"
  unfolding do_fenceStatus_def
  by (cases r) (auto simp: do_cases dest!: do_guards split: option.splits)

lemma do_acquireFence_Inr:
  "do_acquireFence site body uuid now s = (Inr f, t) \<Longrightarrow>
     (\<exists>exp. mutationFenceExpiresAt (js_member body ''ttlMs'') now = Inr exp
        \<and> f = \<lparr>fence_token = uuid, fence_expiresAt = exp\<rparr>
        \<and> (\<forall>l. cr_lease (loaded site s) = Some l \<longrightarrow> sl_expiresAt l \<le> now)
        \<and> live_fence (loaded site s) now = None
        \<and> t = s\<lparr>do_record := Some ((loaded site s)\<lparr>cr_lease := None, cr_fence := Some f\<rparr>)\<rparr>)"
  unfolding do_acquireFence_def
  by (auto simp: do_cases live_fence_def dest!: do_load_Inr do_activeFence_result split: option.splits if_splits)

lemma do_acquireFence_Inl: "do_acquireFence site body uuid now s = (Inl e, t) \<Longrightarrow> quiet site s t"
  unfolding do_acquireFence_def
  by (auto simp: do_cases live_fence_def dest!: do_guards split: option.splits if_splits)

lemma do_renewFence_Inr:
  "do_renewFence site body now now' s = (Inr f, t) \<Longrightarrow>
     (\<exists>g exp. live_fence (loaded site s) now = Some g \<and> js_member body ''token'' = JStr (fence_token g)
        \<and> mutationFenceExpiresAt (js_member body ''ttlMs'') now' = Inr exp
        \<and> f = \<lparr>fence_token = fence_token g, fence_expiresAt = exp\<rparr>
        \<and> t = s\<lparr>do_record := Some ((loaded site s)\<lparr>cr_fence := Some f\<rparr>)\<rparr>)"
  unfolding do_renewFence_def
  by (auto simp: do_cases dest!: do_load_Inr do_activeFence_result)

lemma do_renewFence_Inl: "do_renewFence site body now now' s = (Inl e, t) \<Longrightarrow> quiet site s t"
  unfolding do_renewFence_def
  by (auto simp: do_cases dest!: do_guards)

lemma do_releaseFence_Inr:
  "do_releaseFence site body now s = (Inr u, t) \<Longrightarrow>
     (\<exists>g. live_fence (loaded site s) now = Some g \<and> js_member body ''token'' = JStr (fence_token g)
        \<and> t = s\<lparr>do_record := Some ((loaded site s)\<lparr>cr_fence := None\<rparr>)\<rparr>)"
  unfolding do_releaseFence_def
  by (auto simp: do_cases dest!: do_load_Inr do_activeFence_result)

lemma do_releaseFence_Inl: "do_releaseFence site body now s = (Inl e, t) \<Longrightarrow> quiet site s t"
  unfolding do_releaseFence_def
  by (auto simp: do_cases dest!: do_guards)

lemma do_adoptOnto_Inr:
  "do_adoptOnto rec p v now' s = (Inr pv, t) \<Longrightarrow>
     pv = (p, v) \<and> (\<forall>l. cr_lease rec = Some l \<longrightarrow> sl_expiresAt l \<le> now')
     \<and> (cr_version rec = 0 \<and> cr_pointer rec = None \<or> cr_version rec = v \<and> cr_pointer rec = Some p
         \<or> cr_version rec < v)
     \<and> (do_commits s v = None \<or> do_commits s v = Some p)
     \<and> t = s\<lparr>do_commits := (do_commits s)(v := Some p),
             do_record := Some (rec\<lparr>cr_lease := None, cr_pointer := Some p, cr_version := v\<rparr>)\<rparr>"
  unfolding do_adoptOnto_def by (auto simp: do_cases split: if_splits)

lemma do_adoptOnto_Inl: "do_adoptOnto rec p v now' s = (Inl e, t) \<Longrightarrow> t = s"
  unfolding do_adoptOnto_def by (auto simp: do_cases dest!: do_requireIdle_Inl split: if_splits)

text \<open>A continuation that stores nothing when it throws leaves the quiet state the fence check made.\<close>

lemma after_activeFence_Inl:
  assumes "and_then (do_load site) (\<lambda>rec. and_then (do_activeFence rec now) k) s = (Inl e, t)"
    and "\<And>x u. k x u = (Inl e, t) \<Longrightarrow> t = u"
  shows "quiet site s t"
  using assms(1)
  by (auto simp: do_cases dest!: assms(2) dest!: do_load_Inr do_load_Inl do_activeFence_result)

lemma after_activeFence_Inr:
  assumes "and_then (do_load site) (\<lambda>rec. and_then (do_activeFence rec now) k) s = (Inr y, t)"
  shows "k (live_fence (loaded site s) now, (loaded site s)\<lparr>cr_fence := live_fence (loaded site s) now\<rparr>)
           (s\<lparr>do_record := Some ((loaded site s)\<lparr>cr_fence := live_fence (loaded site s) now\<rparr>)\<rparr>) = (Inr y, t)"
proof -
  from assms obtain x u where load: "do_activeFence (loaded site s) now
      (s\<lparr>do_record := Some (loaded site s)\<rparr>) = (Inr x, u)" and k: "k x u = (Inr y, t)"
    by (auto simp: do_cases dest!: do_load_Inr)
  from do_activeFence_result [OF load] have
    "x = (live_fence (loaded site s) now, (loaded site s)\<lparr>cr_fence := live_fence (loaded site s) now\<rparr>)"
    "u = s\<lparr>do_record := Some ((loaded site s)\<lparr>cr_fence := live_fence (loaded site s) now\<rparr>)\<rparr>"
    by (cases x, cases "loaded site s", auto)+
  with k show ?thesis by simp
qed

lemma do_adopt_Inr:
  "do_adopt site body now now' s = (Inr pv, t) \<Longrightarrow>
     (\<exists>p v. parse_pointer (js_member body ''pointer'') = Some p
        \<and> safe_integer (js_member body ''version'') = Some v \<and> 1 \<le> v \<and> pv = (p, v)
        \<and> (\<forall>f. live_fence (loaded site s) now = Some f \<longrightarrow> js_member body ''fenceToken'' = JStr (fence_token f))
        \<and> (js_member body ''requireFence'' = JBool True \<longrightarrow> live_fence (loaded site s) now \<noteq> None)
        \<and> (\<forall>l. cr_lease (loaded site s) = Some l \<longrightarrow> sl_expiresAt l \<le> now')
        \<and> (cr_version (loaded site s) = 0 \<and> cr_pointer (loaded site s) = None
           \<or> cr_version (loaded site s) = v \<and> cr_pointer (loaded site s) = Some p
           \<or> cr_version (loaded site s) < v)
        \<and> (do_commits s v = None \<or> do_commits s v = Some p)
        \<and> t = s\<lparr>do_commits := (do_commits s)(v := Some p),
                do_record := Some ((loaded site s)\<lparr>cr_lease := None, cr_pointer := Some p, cr_version := v,
                                cr_fence := live_fence (loaded site s) now\<rparr>)\<rparr>)"
  unfolding do_adopt_def
  by (drule after_activeFence_Inr)
     (auto dest!: do_adoptOnto_Inr split: option.split_asm if_split_asm)

lemma do_adopt_Inl: "do_adopt site body now now' s = (Inl e, t) \<Longrightarrow> quiet site s t"
  unfolding do_adopt_def
  by (erule after_activeFence_Inl)
     (auto dest: do_adoptOnto_Inl split: option.split_asm if_split_asm prod.split_asm)

lemma do_reset_Inr:
  "do_reset site now s = (Inr u, t) \<Longrightarrow>
     live_fence (loaded site s) now = None
     \<and> (\<forall>l. cr_lease (loaded site s) = Some l \<longrightarrow> sl_expiresAt l \<le> now)
     \<and> t = s\<lparr>do_bucket := (do_bucket s)(pointerKey site := None), do_record := None\<rparr>"
  unfolding do_reset_def
  by (auto simp: do_cases dest!: do_load_Inr do_activeFence_result split: option.splits)

lemma do_reset_Inl: "do_reset site now s = (Inl e, t) \<Longrightarrow> quiet site s t"
  unfolding do_reset_def
  by (auto simp: do_cases dest!: do_guards split: option.splits)

section \<open>The Durable Object keeps the contract\<close>

definition do_perform ::
    "jsval \<Rightarrow> string \<Rightarrow> coordinator_op \<Rightarrow> string \<Rightarrow> int \<Rightarrow> coordinator_reply do_action" where
  "do_perform leaseMs site op uuid now = do_client leaseMs site op uuid now now"

lemma replying_Inr: "replying f m s = (Inr r, t) \<longleftrightarrow> (\<exists>x. m s = (Inr x, t) \<and> r = f x)"
  by (auto simp: replying_def and_then_Inr_iff)

lemma replying_Inl: "replying f m s = (Inl e, t) \<longleftrightarrow> m s = (Inl e, t)"
  by (auto simp: replying_def and_then_Inl_iff)

lemmas replying_iffs = replying_Inr replying_Inl

lemma do_view_stored [simp]:
  "cr_initialized rec \<Longrightarrow>
   do_view site \<lparr>do_record = Some rec, do_commits = c, do_bucket = b\<rparr> = rec_view c rec"
  by (simp add: do_view_def)

lemma do_view_simps [simp]:
  "view_pointer (rec_view c rec) = cr_pointer rec"
  "view_version (rec_view c rec) = cr_version rec"
  "view_fence (rec_view c rec) = cr_fence rec"
  "view_receipt (rec_view c rec) = c"
  "view_lease (rec_view c rec) = map_option (\<lambda>l. \<lparr>held_token = sl_token l,
     held_base = map_option revision (sl_base l), held_version = sl_version l,
     held_expiresAt = sl_expiresAt l\<rparr>) (cr_lease rec)"
  by (simp_all add: rec_view_def)

lemma loaded_of_stored [simp]:
  "cr_initialized rec \<Longrightarrow> loaded site (s\<lparr>do_record := Some rec\<rparr>) = rec"
  "cr_initialized rec \<Longrightarrow> loaded site (s\<lparr>do_commits := c, do_record := Some rec\<rparr>) = rec"
  "cr_initialized rec \<Longrightarrow> loaded site (s\<lparr>do_bucket := b, do_commits := c, do_record := Some rec\<rparr>) = rec"
  by (simp_all add: loaded_def)

lemma loaded_reset [simp]:
  "loaded site (s\<lparr>do_bucket := (do_bucket s)(pointerKey site := None), do_record := None\<rparr>) =
   \<lparr>cr_initialized = True, cr_siteId = Some site, cr_pointer = None, cr_version = 0,
    cr_lease = None, cr_fence = None\<rparr>"
  by (simp add: loaded_def)

lemma quiet_view:
  assumes "quiet site s t"
  shows "view_pointer (do_view site t) = view_pointer (do_view site s)"
    and "view_version (do_view site t) = view_version (do_view site s)"
    and "view_lease (do_view site t) = view_lease (do_view site s)"
    and "view_receipt (do_view site t) = view_receipt (do_view site s)"
    and "view_fence (do_view site t) = view_fence (do_view site s) \<or> view_fence (do_view site t) = None"
  using assms by (auto simp: quiet_def do_view_def)

lemma quiet_exclusive:
  "quiet site s t \<Longrightarrow> exclusive_from now (do_view site s) \<Longrightarrow> exclusive_from now (do_view site t)"
  using quiet_view [of site s t] by (fastforce simp: exclusive_from_def lease_active_def fence_active_def)

lemma live_fence_None: "live_fence rec now = None \<longleftrightarrow> (\<forall>f. cr_fence rec = Some f \<longrightarrow> fence_expiresAt f \<le> now)"
  and live_fence_Some: "live_fence rec now = Some f \<longleftrightarrow> cr_fence rec = Some f \<and> now < fence_expiresAt f"
  by (auto simp: live_fence_def split: option.splits)

text \<open>
  Each method either leaves a quiet state or changes the record in one of six ways.
\<close>

inductive do_effect :: "string \<Rightarrow> bool \<Rightarrow> int \<Rightarrow> int \<Rightarrow> do_state \<Rightarrow> do_state \<Rightarrow> bool" for site acquiring now now' where
  quiet: "quiet site s t \<Longrightarrow> do_effect site acquiring now now' s t"
| lease_granted:
    "acquiring \<Longrightarrow> live_fence (loaded site s) now' = None \<Longrightarrow> (\<forall>l. cr_lease (loaded site s) = Some l \<longrightarrow> sl_expiresAt l \<le> now) \<Longrightarrow>
     t = s\<lparr>do_record := Some ((loaded site s)\<lparr>cr_fence := None, cr_lease := Some k\<rparr>)\<rparr> \<Longrightarrow>
     do_effect site acquiring now now' s t"
| lease_renewed:
    "cr_lease (loaded site s) = Some k \<Longrightarrow> now < sl_expiresAt k \<Longrightarrow>
     t = s\<lparr>do_record := Some ((loaded site s)\<lparr>cr_lease := Some (k\<lparr>sl_expiresAt := e\<rparr>)\<rparr>)\<rparr> \<Longrightarrow>
     do_effect site acquiring now now' s t"
| lease_dropped:
    "view_lease (do_view site t) = None \<Longrightarrow>
     view_fence (do_view site t) = view_fence (do_view site s) \<or> view_fence (do_view site t) = None \<Longrightarrow>
     do_effect site acquiring now now' s t"
| fence_granted:
    "(\<forall>l. cr_lease (loaded site s) = Some l \<longrightarrow> sl_expiresAt l \<le> now) \<Longrightarrow> view_lease (do_view site t) = None \<Longrightarrow>
     view_fence (do_view site t) = Some f \<Longrightarrow> do_effect site acquiring now now' s t"
| fence_renewed:
    "cr_fence (loaded site s) = Some g \<Longrightarrow> now < fence_expiresAt g \<Longrightarrow>
     t = s\<lparr>do_record := Some ((loaded site s)\<lparr>cr_fence := Some f\<rparr>)\<rparr> \<Longrightarrow> do_effect site acquiring now now' s t"
| fence_dropped:
    "t = s\<lparr>do_record := Some ((loaded site s)\<lparr>cr_fence := None\<rparr>)\<rparr> \<Longrightarrow> do_effect site acquiring now now' s t"

lemmas do_method_results =
  do_begin_Inr do_begin_Inl do_release_Inr do_release_Inl do_renew_Inr do_renew_Inl do_commit_Inr
  do_commit_Inl do_committed_result do_current_result do_fenceStatus_result do_acquireFence_Inr
  do_acquireFence_Inl do_renewFence_Inr do_renewFence_Inl do_releaseFence_Inr do_releaseFence_Inl
  do_adopt_Inr do_adopt_Inl do_reset_Inr do_reset_Inl

lemma do_client_effect:
  assumes step: "do_client m site op uuid now now' s = (r, t)"
  shows "do_effect site (is_acquire op) now now' s t"
proof (cases op)
  case (Acquire ttl)
  with step show ?thesis
    by (cases r) (auto simp: do_client_methods replying_iffs is_acquire_def dest!: do_begin_Inr do_begin_Inl
        intro: do_effect.quiet do_effect.lease_granted)
next
  case (Renew l ttl)
  with step show ?thesis
    by (cases r) (auto simp: do_client_methods replying_iffs dest!: do_renew_Inr do_renew_Inl
        intro: do_effect.quiet do_effect.lease_renewed)
next
  case (Release l)
  with step show ?thesis
    by (cases r) (auto simp: do_client_methods replying_iffs do_view_def dest!: do_release_Inr do_release_Inl
        intro: do_effect.quiet do_effect.lease_dropped)
next
  case (Abort l)
  with step show ?thesis
    by (cases r) (auto simp: do_client_methods do_abort_release replying_iffs do_view_def
        dest!: do_release_Inr do_release_Inl intro: do_effect.quiet do_effect.lease_dropped)
next
  case (Commit l p)
  with step show ?thesis
    by (cases r) (auto simp: do_client_methods replying_iffs do_view_def dest!: do_commit_Inr do_commit_Inl
        intro: do_effect.quiet do_effect.lease_dropped)
next
  case (Acquire_fence ttl)
  with step show ?thesis
    by (cases r) (auto simp: do_client_methods replying_iffs do_view_def
        dest!: do_acquireFence_Inr do_acquireFence_Inl intro: do_effect.quiet do_effect.fence_granted)
next
  case (Renew_fence tok ttl)
  with step show ?thesis
    by (cases r) (auto simp: do_client_methods replying_iffs live_fence_Some
        dest!: do_renewFence_Inr do_renewFence_Inl intro: do_effect.quiet do_effect.fence_renewed)
next
  case (Release_fence tok)
  with step show ?thesis
    by (cases r) (auto simp: do_client_methods replying_iffs
        dest!: do_releaseFence_Inr do_releaseFence_Inl intro: do_effect.quiet do_effect.fence_dropped)
next
  case (Adopt p v tok req)
  show ?thesis
  proof (cases r)
    case (Inl e)
    with step Adopt show ?thesis
      by (auto simp: do_client_methods replying_iffs dest!: do_adopt_Inl intro: do_effect.quiet)
  next
    case (Inr rep)
    with step Adopt obtain q w where "t = s\<lparr>do_commits := (do_commits s)(w := Some q),
        do_record := Some ((loaded site s)\<lparr>cr_lease := None, cr_pointer := Some q, cr_version := w,
                             cr_fence := live_fence (loaded site s) now\<rparr>)\<rparr>"
      by (auto simp: do_client_methods replying_iffs dest!: do_adopt_Inr)
    then show ?thesis
      by (intro do_effect.lease_dropped) (auto simp: do_view_def live_fence_def split: option.splits)
  qed
next
  case Reset
  with step show ?thesis
    by (cases r) (auto simp: do_client_methods replying_iffs do_view_def dest!: do_reset_Inr do_reset_Inl
        intro: do_effect.quiet do_effect.lease_dropped)
qed (use step in \<open>cases r; auto simp: do_client_methods replying_iffs
    dest!: do_committed_result do_current_result do_fenceStatus_result intro: do_effect.quiet\<close>)+

lemma do_effect_exclusive:
  assumes "do_effect site acquiring now now' s t" and "now \<le> now'" and "exclusive_from now (do_view site s)"
  shows "exclusive_from now' (do_view site t)"
  using assms
proof (induction rule: do_effect.induct)
  case (quiet s t)
  then show ?case by (blast intro: exclusive_from_mono quiet_exclusive)
next
  case (lease_granted s t k)
  then show ?case
    by (auto simp: exclusive_from_def lease_active_def fence_active_def do_view_def live_fence_None)
next
  case (lease_renewed s k t e)
  then show ?case
    by (force simp: exclusive_from_def lease_active_def fence_active_def do_view_def)
next
  case (lease_dropped t s)
  then show ?case by (auto simp: exclusive_from_def lease_active_def fence_active_def)
next
  case (fence_granted s t f)
  then show ?case by (auto simp: exclusive_from_def lease_active_def fence_active_def)
next
  case (fence_renewed s g t f)
  then show ?case
    by (force simp: exclusive_from_def lease_active_def fence_active_def do_view_def)
next
  case (fence_dropped t s)
  then show ?case by (auto simp: exclusive_from_def lease_active_def fence_active_def do_view_def)
qed

lemma do_effect_other:
  assumes "do_effect site False now now' s t"
  shows "view_lease (do_view site t) = None \<or> same_head (do_view site s) (do_view site t)
    \<and> same_lease (view_lease (do_view site s)) (view_lease (do_view site t))"
  using assms
  by (cases rule: do_effect.cases)
     (auto simp: same_head_def same_lease_def do_view_def dest: quiet_view [unfolded do_view_def])

lemma nullable_string_inject [simp]: "nullable_string a = nullable_string b \<longleftrightarrow> a = b"
  by (cases a; cases b) auto

text \<open>What a call other than a reset does to the receipts.\<close>

lemma do_client_receipts:
  assumes step: "do_client m site op uuid now now' s = (r, t)" and "op \<noteq> Reset"
  shows "do_commits t = do_commits s \<and> cr_version (loaded site t) = cr_version (loaded site s)
    \<or> (\<exists>p v. do_commits t = (do_commits s)(v := Some p) \<and> cr_version (loaded site t) = v
         \<and> cr_version (loaded site s) \<le> v
         \<and> (cr_version (loaded site s) < v \<and> v = cr_version (loaded site s) + 1
            \<or> do_commits s v = None \<or> do_commits s v = Some p))"
proof -
  have quiet: "do_commits t = do_commits s \<and> cr_version (loaded site t) = cr_version (loaded site s)"
    if "quiet site s t"
    using quiet_view [OF that] by (simp add: do_view_def)
  show ?thesis
    using assms quiet
    by (cases op; cases r)
       (auto simp: do_client_methods do_abort_release replying_iffs dest!: do_method_results)
qed

definition do_tidy :: "string \<Rightarrow> do_state \<Rightarrow> bool" where
  "do_tidy site s \<longleftrightarrow> (\<forall>k p. do_commits s k = Some p \<longrightarrow> k \<le> cr_version (loaded site s))"

interpretation durable: receipted_coordinator "\<lambda>_. True" "do_view site" "do_perform leaseMs site" "do_tidy site"
  for leaseMs site
proof unfold_locales
  fix s t :: do_state and op uuid now r
  assume ex: "exclusive_from now (do_view site s)" and step: "do_perform leaseMs site op uuid now s = (r, t)"
  show "exclusive_from now (do_view site t)"
    using do_effect_exclusive [OF do_client_effect order_refl ex] step by (auto simp: do_perform_def)
next
  fix s t :: do_state and op uuid now r
  assume step: "do_perform leaseMs site op uuid now s = (r, t)" and na: "\<not> is_acquire op"
  show "view_lease (do_view site t) = None \<or> same_head (do_view site s) (do_view site t)
      \<and> same_lease (view_lease (do_view site s)) (view_lease (do_view site t))"
    using do_effect_other do_client_effect [OF step [unfolded do_perform_def]] na by simp
next
  fix s t :: do_state and ttl uuid now e
  assume "do_perform leaseMs site (Acquire ttl) uuid now s = (Inl e, t)"
  then have "quiet site s t"
    by (auto simp: do_perform_def do_client_methods replying_iffs dest: do_begin_Inl)
  then show "same_head (do_view site s) (do_view site t)
      \<and> same_lease (view_lease (do_view site s)) (view_lease (do_view site t))"
    by (simp add: same_head_def quiet_view)
next
  fix s t :: do_state and ttl uuid now rep
  assume "do_perform leaseMs site (Acquire ttl) uuid now s = (Inr rep, t)"
  then show "\<exists>l. rep = Lease_reply l \<and> lease_token l = uuid \<and> lease_pointer l = view_pointer (do_view site s)
      \<and> lease_version l = view_version (do_view site s)
      \<and> now < lease_expiresAt l \<and> lease_expiresAt l \<le> now + MAX_REVISION_LEASE_MS
      \<and> \<not> lease_active (do_view site s) now \<and> \<not> fence_active (do_view site s) now
      \<and> same_head (do_view site s) (do_view site t)
      \<and> view_lease (do_view site t) = Some \<lparr>held_token = uuid,
           held_base = map_option revision (lease_pointer l), held_version = lease_version l,
           held_expiresAt = lease_expiresAt l\<rparr>"
    by (auto simp: do_perform_def do_client_methods replying_iffs do_view_def same_head_def lease_active_def
        fence_active_def live_fence_None MAX_REVISION_LEASE_MS_def
        dest!: do_begin_Inr dest: revisionLeaseExpiresAt_bounds)
next
  fix s t :: do_state and l p uuid now rep
  assume "do_perform leaseMs site (Commit l p) uuid now s = (Inr rep, t)"
  then show "rep = Promoted_reply p (lease_version l + 1) \<and> lease_active (do_view site s) now
      \<and> (\<exists>h. view_lease (do_view site s) = Some h \<and> held_token h = lease_token l
           \<and> held_base h = map_option revision (lease_pointer l) \<and> held_version h = lease_version l)
      \<and> view_version (do_view site s) = lease_version l
      \<and> map_option revision (view_pointer (do_view site s)) = map_option revision (lease_pointer l)
      \<and> view_pointer (do_view site t) = Some p \<and> view_version (do_view site t) = lease_version l + 1
      \<and> view_lease (do_view site t) = None \<and> view_receipt (do_view site t) (lease_version l + 1) = Some p"
    by (auto simp: do_perform_def do_client_methods replying_iffs do_view_def lease_active_def commit_body_def
        dest!: do_commit_Inr)
next
  fix s t :: do_state and op uuid now r
  assume "do_tidy site s" and "op \<noteq> Reset" and "do_perform leaseMs site op uuid now s = (r, t)"
  then show "do_tidy site t"
    using do_client_receipts [of leaseMs site op uuid now now s r t]
    by (force simp: do_perform_def do_tidy_def split: if_splits)
next
  fix s t :: do_state and op uuid now r k p
  assume tidy: "do_tidy site s" and "op \<noteq> Reset" and "do_perform leaseMs site op uuid now s = (r, t)"
    and "view_receipt (do_view site s) k = Some p"
  then show "view_receipt (do_view site t) k = Some p"
    using do_client_receipts [of leaseMs site op uuid now now s r t]
    by (force simp: do_perform_def do_tidy_def do_view_def split: if_splits)
qed auto

section \<open>Evaluation\<close>

text \<open>The equations that run a call on a concrete state.\<close>

lemmas do_eval = do_perform_def do_client_methods replying_def void_reply_def do_current_def do_begin_def do_release_def
  do_renew_def do_abort_def do_commit_def do_committed_def do_fenceStatus_def do_acquireFence_def
  do_renewFence_def do_releaseFence_def do_adopt_def do_adoptOnto_def do_reset_def do_load_def do_fresh_def
  do_save_def do_activeFence_def do_requireLease_def do_requireIdle_def do_requireFence_def put_pointer_def
  put_promotion_def lease_of_stored_def do_leaseTtl_def js_field_def commit_body_def adopt_body_def
  pointerKey_def action_defs Let_def revisionLeaseExpiresAt_def mutationFenceExpiresAt_def
  MAX_REVISION_LEASE_MS_def MIN_MUTATION_FENCE_MS_def MAX_MUTATION_FENCE_MS_def LEASE_MS_def
  max_safe_integer_def

definition do_empty :: do_state where
  "do_empty = \<lparr>do_record = None, do_commits = (\<lambda>_. None), do_bucket = (\<lambda>_. None)\<rparr>"

end
