(* ===== verification/Sql_Table.thy ===== *)
theory Sql_Table
  imports Codebox_Prelude
begin

text \<open>
  D1 tables and statements.  A statement is a function from the database to the number of rows it
  changed and the database it leaves; \<open>batch\<close> runs two of them as one transaction.  A table whose
  rows are read in an order is a list of rows in the order of their insertion.
\<close>

section \<open>Running statements\<close>

definition execute :: "('db \<Rightarrow> nat \<times> 'db) \<Rightarrow> ('db, 'e, nat) action" where
  "execute stmt db = (case stmt db of (changes, db') \<Rightarrow> (Inr changes, db'))"

definition batch :: "('db \<Rightarrow> nat \<times> 'db) \<Rightarrow> ('db \<Rightarrow> nat \<times> 'db) \<Rightarrow> ('db, 'e, nat \<times> nat) action" where
  "batch first second db =
     (case first db of (n, db1) \<Rightarrow> case second db1 of (m, db2) \<Rightarrow> (Inr (n, m), db2))"

lemma snd_batch: "snd (batch first second db) = snd (second (snd (first db)))"
  by (simp add: batch_def split: prod.split)

lemma and_then_execute: "and_then (execute stmt) k db = k (fst (stmt db)) (snd (stmt db))"
  by (simp add: and_then_def execute_def split: prod.split)

lemma and_then_batch:
  "and_then (batch first second) k db =
   k (fst (first db), fst (second (snd (first db)))) (snd (second (snd (first db))))"
  by (simp add: and_then_def batch_def split: prod.split)

lemma and_then_query: "and_then (query f) k s = k (f s) s"
  and and_then_succeed: "and_then (succeed x) k s = k x s"
  and and_then_throw: "and_then (throw e) k s = throw e s"
  and and_then_result: "and_then (from_result r) k s = (case r of Inl e \<Rightarrow> (Inl e, s) | Inr x \<Rightarrow> k x s)"
  and and_then_require: "and_then (require b e) k' s = (if b then k' () s else (Inl e, s))"
  by (simp_all add: action_defs split: sum.split)

lemma and_then_modify: "and_then (modify f) k s = k () (f s)"
  by (simp add: action_defs)

lemma and_then_assoc: "and_then (and_then m k) f = and_then m (\<lambda>x. and_then (k x) f)"
  by (rule ext) (auto simp: and_then_def split: prod.splits sum.splits)

lemmas run_action = and_then_execute and_then_batch and_then_query and_then_succeed and_then_throw
  and_then_result and_then_require and_then_modify and_then_assoc

section \<open>Tables as lists of rows\<close>

definition sql_update :: "('r \<Rightarrow> bool) \<Rightarrow> ('r \<Rightarrow> 'r) \<Rightarrow> 'r list \<Rightarrow> nat \<times> 'r list" where
  "sql_update c f rows = (length (filter c rows), map (\<lambda>r. if c r then f r else r) rows)"

definition sql_delete :: "('r \<Rightarrow> bool) \<Rightarrow> 'r list \<Rightarrow> nat \<times> 'r list" where
  "sql_delete c rows = (length (filter c rows), filter (\<lambda>r. \<not> c r) rows)"

text \<open>\<open>INSERT OR IGNORE\<close> under a primary key.\<close>

definition sql_insert_ignore :: "('r \<Rightarrow> 'k) \<Rightarrow> 'r \<Rightarrow> 'r list \<Rightarrow> nat \<times> 'r list" where
  "sql_insert_ignore key row rows =
     (if key row \<in> key ` set rows then (0, rows) else (1, rows @ [row]))"

text \<open>\<open>ORDER BY\<close> keeps the order of insertion among equal rows; \<open>LIMIT\<close> takes the first ones.\<close>

definition sql_select :: "('r \<Rightarrow> bool) \<Rightarrow> ('r \<Rightarrow> 'k :: linorder) \<Rightarrow> 'r list \<Rightarrow> 'r list" where
  "sql_select c order rows = sort_key order (filter c rows)"

definition unique_by :: "('r \<Rightarrow> 'k) \<Rightarrow> 'r list \<Rightarrow> bool" where
  "unique_by key rows = distinct (map key rows)"

lemma unique_by_eq: "unique_by key rows \<Longrightarrow> r \<in> set rows \<Longrightarrow> q \<in> set rows \<Longrightarrow> key r = key q \<Longrightarrow> r = q"
  unfolding unique_by_def by (induction rows) (auto simp: image_iff)

lemma unique_by_update [simp]:
  assumes "\<And>r. key (f r) = key r"
  shows "unique_by key (snd (sql_update c f rows)) = unique_by key rows"
proof -
  have "map key (snd (sql_update c f rows)) = map key rows"
    using assms by (simp add: sql_update_def)
  then show ?thesis by (simp add: unique_by_def)
qed

lemma unique_by_delete: "unique_by key rows \<Longrightarrow> unique_by key (snd (sql_delete c rows))"
  by (simp add: unique_by_def sql_delete_def distinct_map_filter)

lemma unique_by_insert: "unique_by key rows \<Longrightarrow> unique_by key (snd (sql_insert_ignore key row rows))"
  by (auto simp: unique_by_def sql_insert_ignore_def)

lemma set_sql_update: "r \<in> set (snd (sql_update c f rows)) \<longleftrightarrow> (\<exists>q \<in> set rows. r = (if c q then f q else q))"
  by (auto simp: sql_update_def)

lemma sql_update_none: "fst (sql_update c f rows) = 0 \<Longrightarrow> snd (sql_update c f rows) = rows"
  by (auto simp: sql_update_def filter_empty_conv intro: map_idI)

lemma sql_update_count: "fst (sql_update c f rows) = 0 \<longleftrightarrow> (\<forall>r \<in> set rows. \<not> c r)"
  by (auto simp: sql_update_def filter_empty_conv)

text \<open>An \<open>UPDATE\<close> of at most one row, where the condition fixes the key.\<close>

lemma filter_unique:
  assumes "unique_by key rows" and "\<And>r. r \<in> set rows \<Longrightarrow> c r \<Longrightarrow> key r = k"
  shows "length (filter c rows) \<le> 1"
  using assms unfolding unique_by_def
proof (induction rows)
  case (Cons r rows)
  then show ?case
  proof (cases "c r")
    case True
    then have "filter c rows = []" using Cons.prems by (force simp: filter_empty_conv)
    with True show ?thesis by simp
  qed auto
qed simp

lemma sql_update_one:
  assumes "unique_by key rows" and "\<And>r. r \<in> set rows \<Longrightarrow> c r \<Longrightarrow> key r = k"
  shows "fst (sql_update c f rows) = (if \<exists>r \<in> set rows. c r then 1 else 0)"
proof (cases "\<exists>r \<in> set rows. c r")
  case True
  then have "filter c rows \<noteq> []" by (auto simp: filter_empty_conv)
  then have "0 < length (filter c rows)" by simp
  moreover have "length (filter c rows) \<le> 1" by (rule filter_unique [where key = key and k = k]) (use assms in auto)
  ultimately have "length (filter c rows) = 1" by linarith
  then show ?thesis using True by (simp add: sql_update_def)
next
  case False
  then have "filter c rows = []" by (auto simp: filter_empty_conv)
  with False show ?thesis by (simp add: sql_update_def)
qed

lemma count_update:
  "length (filter P (snd (sql_update c f rows))) = length (filter (\<lambda>r. P (if c r then f r else r)) rows)"
  by (induction rows) (auto simp: sql_update_def)

lemma find_sql: "find P rows = Some r \<Longrightarrow> r \<in> set rows \<and> P r"
  by (auto simp: find_Some_iff)

lemma set_sql_select [simp]: "set (sql_select c order rows) = {r \<in> set rows. c r}"
  by (auto simp: sql_select_def)

lemma sql_select_sorted: "sorted (map order (sql_select c order rows))"
  by (simp add: sql_select_def)

end
