(* ===== verification/D1_Coordinator.thy ===== *)
theory D1_Coordinator
  imports Revision_Contract Sql_Table
begin

text \<open>
  \<open>packages/runtime-cloudflare/src/d1-revision-coordinator.ts\<close>: the coordinator that keeps
  canonical revisions in three D1 tables.  Each SQL statement of the source is a function from the
  database to the number of changed rows and the database it leaves; \<open>batch\<close> runs its statements
  as one transaction.  A table is a map from its primary key, SQL \<open>NULL\<close> is \<open>None\<close>, and a comparison
  with \<open>NULL\<close> is not true.  The methods compose the statements in their order; the invariants are
  proved statement by statement, so they also hold between the statements of different clients.
\<close>

section \<open>Tables\<close>

record state_row =
  row_revision :: "string option"
  row_manifest_key :: "string option"
  row_persisted_at :: "string option"
  row_version :: int
  row_lease_token :: "string option"
  row_lease_base_revision :: "string option"
  row_lease_version :: "int option"
  row_lease_expires_at :: "int option"

record d1_db =
  db_state :: "string \<Rightarrow> state_row option"
  db_commits :: "string \<times> int \<Rightarrow> markdown_pointer option"
  db_fences :: "string \<Rightarrow> mutation_fence option"

type_synonym statement = "d1_db \<Rightarrow> nat \<times> d1_db"
type_synonym 'a d1_action = "(d1_db, coordinator_error, 'a) action"

definition D1_LEASE_MS :: int where "D1_LEASE_MS = 90000"

abbreviation d1_batch :: "statement \<Rightarrow> statement \<Rightarrow> (nat \<times> nat) d1_action" where
  "d1_batch \<equiv> batch"

text \<open>An \<open>UPDATE\<close> of one site's state row under a condition.\<close>

definition update_state :: "string \<Rightarrow> (d1_db \<Rightarrow> state_row \<Rightarrow> bool) \<Rightarrow> (state_row \<Rightarrow> state_row) \<Rightarrow> statement" where
  "update_state siteId condition change db =
     (case db_state db siteId of
        None \<Rightarrow> (0, db)
      | Some row \<Rightarrow>
          if condition db row then (1, db\<lparr>db_state := (db_state db)(siteId := Some (change row))\<rparr>)
          else (0, db))"

definition sql_at_most :: "int option \<Rightarrow> int \<Rightarrow> bool" where
  "sql_at_most x n = (case x of None \<Rightarrow> False | Some i \<Rightarrow> i \<le> n)"

definition sql_greater :: "int option \<Rightarrow> int \<Rightarrow> bool" where
  "sql_greater x n = (case x of None \<Rightarrow> False | Some i \<Rightarrow> i > n)"

text \<open>\<open>lease_token IS NULL OR lease_expires_at <= now\<close>, and the two fence subqueries.\<close>

definition lease_idle :: "int \<Rightarrow> state_row \<Rightarrow> bool" where
  "lease_idle now row \<longleftrightarrow> row_lease_token row = None \<or> sql_at_most (row_lease_expires_at row) now"

definition fence_exists :: "d1_db \<Rightarrow> string \<Rightarrow> int \<Rightarrow> bool" where
  "fence_exists db siteId now =
     (case db_fences db siteId of None \<Rightarrow> False | Some f \<Rightarrow> fence_expiresAt f > now)"

definition fence_matches :: "d1_db \<Rightarrow> string \<Rightarrow> string option \<Rightarrow> int \<Rightarrow> bool" where
  "fence_matches db siteId tok now =
     (case db_fences db siteId of
        None \<Rightarrow> False
      | Some f \<Rightarrow> tok = Some (fence_token f) \<and> fence_expiresAt f > now)"

definition clear_lease :: "state_row \<Rightarrow> state_row" where
  "clear_lease row = row\<lparr>row_lease_token := None, row_lease_base_revision := None,
     row_lease_version := None, row_lease_expires_at := None\<rparr>"

definition set_pointer :: "markdown_pointer \<Rightarrow> state_row \<Rightarrow> state_row" where
  "set_pointer p row = row\<lparr>row_revision := Some (revision p), row_manifest_key := Some (manifestKey p),
     row_persisted_at := Some (persistedAt p)\<rparr>"

definition row_is_pointer :: "markdown_pointer \<Rightarrow> state_row \<Rightarrow> bool" where
  "row_is_pointer p row \<longleftrightarrow> row_revision row = Some (revision p)
     \<and> row_manifest_key row = Some (manifestKey p) \<and> row_persisted_at row = Some (persistedAt p)"

section \<open>Statements\<close>

definition fresh_row :: state_row where
  "fresh_row = \<lparr>row_revision = None, row_manifest_key = None, row_persisted_at = None, row_version = 0,
     row_lease_token = None, row_lease_base_revision = None, row_lease_version = None,
     row_lease_expires_at = None\<rparr>"

definition stmt_ensure_row :: "string \<Rightarrow> statement" where
  "stmt_ensure_row siteId db =
     (if db_state db siteId = None then (1, db\<lparr>db_state := (db_state db)(siteId := Some fresh_row)\<rparr>) else (0, db))"

definition stmt_begin :: "string \<Rightarrow> string \<Rightarrow> int \<Rightarrow> int \<Rightarrow> statement" where
  "stmt_begin siteId token expiresAt now =
     update_state siteId (\<lambda>db row. lease_idle now row \<and> \<not> fence_exists db siteId now)
       (\<lambda>row. row\<lparr>row_lease_token := Some token, row_lease_base_revision := row_revision row,
                  row_lease_version := Some (row_version row), row_lease_expires_at := Some expiresAt\<rparr>)"

definition stmt_renew :: "string \<Rightarrow> string \<Rightarrow> int \<Rightarrow> int \<Rightarrow> statement" where
  "stmt_renew siteId token expiresAt now =
     update_state siteId
       (\<lambda>db row. row_lease_token row = Some token \<and> sql_greater (row_lease_expires_at row) now
                 \<and> \<not> fence_exists db siteId now)
       (\<lambda>row. row\<lparr>row_lease_expires_at := Some expiresAt\<rparr>)"

definition stmt_finish :: "string \<Rightarrow> string \<Rightarrow> int \<Rightarrow> statement" where
  "stmt_finish siteId token now =
     update_state siteId
       (\<lambda>db row. row_lease_token row = Some token \<and> sql_greater (row_lease_expires_at row) now)
       clear_lease"

text \<open>The two statements of the commit batch.\<close>

definition stmt_promote :: "string \<Rightarrow> revision_lease \<Rightarrow> markdown_pointer \<Rightarrow> int \<Rightarrow> statement" where
  "stmt_promote siteId lease pointer now =
     (let baseRevision = map_option revision (lease_pointer lease) in
      update_state siteId
        (\<lambda>db row. row_lease_token row = Some (lease_token lease)
           \<and> sql_greater (row_lease_expires_at row) now \<and> row_version row = lease_version lease
           \<and> row_lease_version row = Some (lease_version lease)
           \<and> (row_revision row = None \<and> baseRevision = None
              \<or> row_revision row \<noteq> None \<and> row_revision row = baseRevision)
           \<and> (row_lease_base_revision row = None \<and> baseRevision = None
              \<or> row_lease_base_revision row \<noteq> None \<and> row_lease_base_revision row = baseRevision))
        (\<lambda>row. clear_lease (set_pointer pointer (row\<lparr>row_version := row_version row + 1\<rparr>))))"

definition insert_commit :: "string \<Rightarrow> int \<Rightarrow> markdown_pointer \<Rightarrow> (d1_db \<Rightarrow> state_row \<Rightarrow> bool) \<Rightarrow> statement" where
  "insert_commit siteId version pointer condition db =
     (case db_state db siteId of
        None \<Rightarrow> (0, db)
      | Some row \<Rightarrow>
          if condition db row \<and> db_commits db (siteId, version) = None
          then (1, db\<lparr>db_commits := (db_commits db)((siteId, version) := Some pointer)\<rparr>)
          else (0, db))"

definition stmt_receipt :: "string \<Rightarrow> revision_lease \<Rightarrow> markdown_pointer \<Rightarrow> statement" where
  "stmt_receipt siteId lease pointer =
     insert_commit siteId (lease_version lease + 1) pointer
       (\<lambda>db row. row_version row = lease_version lease + 1 \<and> row_revision row = Some (revision pointer))"

definition stmt_acquire_fence :: "string \<Rightarrow> mutation_fence \<Rightarrow> int \<Rightarrow> statement" where
  "stmt_acquire_fence siteId fence now db =
     (case db_state db siteId of
        None \<Rightarrow> (0, db)
      | Some row \<Rightarrow>
          if lease_idle now row
             \<and> (case db_fences db siteId of None \<Rightarrow> True | Some f \<Rightarrow> fence_expiresAt f \<le> now)
          then (1, db\<lparr>db_fences := (db_fences db)(siteId := Some fence)\<rparr>)
          else (0, db))"

definition stmt_renew_fence :: "string \<Rightarrow> mutation_fence \<Rightarrow> int \<Rightarrow> statement" where
  "stmt_renew_fence siteId fence now db =
     (if fence_matches db siteId (Some (fence_token fence)) now
      then (1, db\<lparr>db_fences := (db_fences db)(siteId := Some fence)\<rparr>) else (0, db))"

definition stmt_release_fence :: "string \<Rightarrow> string \<Rightarrow> int \<Rightarrow> statement" where
  "stmt_release_fence siteId token now db =
     (if fence_matches db siteId (Some token) now
      then (1, db\<lparr>db_fences := (db_fences db)(siteId := None)\<rparr>) else (0, db))"

text \<open>The condition on fences that both statements of the adoption batch carry.\<close>

definition fence_admits :: "d1_db \<Rightarrow> string \<Rightarrow> string option \<Rightarrow> int \<Rightarrow> bool" where
  "fence_admits db siteId fenceToken now \<longleftrightarrow>
     \<not> fence_exists db siteId now \<or> fence_matches db siteId fenceToken now"

definition stmt_adopt :: "string \<Rightarrow> markdown_pointer \<Rightarrow> int \<Rightarrow> string option \<Rightarrow> int \<Rightarrow> statement" where
  "stmt_adopt siteId pointer version fenceToken now =
     update_state siteId
       (\<lambda>db row. lease_idle now row \<and> fence_admits db siteId fenceToken now
          \<and> (row_revision row = None \<and> row_manifest_key row = None \<and> row_persisted_at row = None
             \<or> row_version row = version \<and> row_is_pointer pointer row
             \<or> row_version row < version)
          \<and> (db_commits db (siteId, version) = None \<or> db_commits db (siteId, version) = Some pointer))
       (\<lambda>row. clear_lease (set_pointer pointer (row\<lparr>row_version := version\<rparr>)))"

definition stmt_adopt_receipt :: "string \<Rightarrow> markdown_pointer \<Rightarrow> int \<Rightarrow> string option \<Rightarrow> int \<Rightarrow> statement" where
  "stmt_adopt_receipt siteId pointer version fenceToken now =
     insert_commit siteId version pointer
       (\<lambda>db row. row_version row = version \<and> row_is_pointer pointer row \<and> row_lease_token row = None
          \<and> fence_admits db siteId fenceToken now)"

definition stmt_reset :: "string \<Rightarrow> int \<Rightarrow> statement" where
  "stmt_reset siteId now =
     update_state siteId (\<lambda>db row. lease_idle now row \<and> \<not> fence_exists db siteId now)
       (\<lambda>row. clear_lease (row\<lparr>row_revision := None, row_manifest_key := None, row_persisted_at := None,
                                row_version := row_version row + 1\<rparr>))"

text \<open>\<open>DELETE FROM wp_codebox_commits\<close>; the number of deleted rows is not used.\<close>

definition stmt_delete_commits :: "string \<Rightarrow> int \<Rightarrow> statement" where
  "stmt_delete_commits siteId now db =
     (if (case db_state db siteId of None \<Rightarrow> False | Some row \<Rightarrow> lease_idle now row)
         \<and> \<not> fence_exists db siteId now
      then (0, db\<lparr>db_commits := (\<lambda>k. if fst k = siteId then None else db_commits db k)\<rparr>)
      else (0, db))"

section \<open>Methods\<close>

definition d1_ensureSchema :: "string \<Rightarrow> unit d1_action" where
  "d1_ensureSchema siteId = and_then (execute (stmt_ensure_row siteId)) (\<lambda>_. succeed ())"

definition d1_readRow :: "string \<Rightarrow> state_row d1_action" where
  "d1_readRow siteId =
     and_then (query (\<lambda>db. db_state db siteId)) (\<lambda>row.
       case row of None \<Rightarrow> throw (PlainError ''D1 WordPress state row is unavailable.'') | Some r \<Rightarrow> succeed r)"

definition d1_readFenceRow :: "string \<Rightarrow> mutation_fence option d1_action" where
  "d1_readFenceRow siteId = query (\<lambda>db. db_fences db siteId)"

definition pointerFromRow :: "state_row \<Rightarrow> coordinator_error + markdown_pointer option" where
  "pointerFromRow row =
     (case (row_revision row, row_manifest_key row, row_persisted_at row) of
        (None, None, None) \<Rightarrow> Inr None
      | (Some r, Some m, Some p) \<Rightarrow> Inr (Some \<lparr>revision = r, manifestKey = m, persistedAt = p\<rparr>)
      | _ \<Rightarrow> Inl (RevisionConflict ''A complete canonical pointer is required for D1 promotion.'' None))"

definition readWordPressState :: "string \<Rightarrow> revision_state d1_action" where
  "readWordPressState siteId =
     and_then (d1_ensureSchema siteId) (\<lambda>_.
     and_then (d1_readRow siteId) (\<lambda>row.
     and_then (from_result (pointerFromRow row)) (\<lambda>p.
       succeed \<lparr>state_store = D1_store, state_pointer = p, state_version = row_version row\<rparr>)))"

definition beginStateLease :: "string \<Rightarrow> jsval \<Rightarrow> string \<Rightarrow> int \<Rightarrow> revision_lease d1_action" where
  "beginStateLease siteId leaseMs token now =
     and_then (d1_ensureSchema siteId) (\<lambda>_.
     and_then (from_result (revisionLeaseExpiresAt leaseMs now)) (\<lambda>expiresAt.
     and_then (execute (stmt_begin siteId token expiresAt now)) (\<lambda>changes.
     if changes \<noteq> 1 then
       and_then (d1_readRow siteId) (\<lambda>active.
       and_then (d1_readFenceRow siteId) (\<lambda>fence.
         case fence of
           Some f \<Rightarrow>
             if fence_expiresAt f > now
             then throw (RevisionConflict
               ''Canonical WordPress mutations are fenced for coordinator cutover.'' (Some (fence_expiresAt f)))
             else throw (RevisionConflict ''A canonical WordPress lease is active.'' (row_lease_expires_at active))
         | None \<Rightarrow> throw (RevisionConflict ''A canonical WordPress lease is active.'' (row_lease_expires_at active))))
     else
       and_then (d1_readRow siteId) (\<lambda>row.
         case row_lease_version row of
           Some version \<Rightarrow>
             if row_lease_token row \<noteq> Some token
             then throw (RevisionConflict ''The canonical WordPress lease was not acquired.'' None)
             else and_then (from_result (pointerFromRow row)) (\<lambda>p.
               succeed \<lparr>lease_token = token, lease_pointer = p, lease_version = version,
                        lease_expiresAt = expiresAt\<rparr>)
         | None \<Rightarrow> throw (RevisionConflict ''The canonical WordPress lease was not acquired.'' None)))))"

definition renewStateLease :: "string \<Rightarrow> revision_lease \<Rightarrow> jsval \<Rightarrow> int \<Rightarrow> revision_lease d1_action" where
  "renewStateLease siteId lease leaseMs now =
     and_then (d1_ensureSchema siteId) (\<lambda>_.
     and_then (from_result (revisionLeaseExpiresAt leaseMs now)) (\<lambda>expiresAt.
     and_then (execute (stmt_renew siteId (lease_token lease) expiresAt now)) (\<lambda>changes.
     if changes \<noteq> 1
     then throw (RevisionConflict
       ''The canonical WordPress lease cannot renew because it expired or changed.'' None)
     else succeed (lease\<lparr>lease_expiresAt := expiresAt\<rparr>))))"

datatype finish_action = Finish_release | Finish_abort

fun finish_name :: "finish_action \<Rightarrow> string" where
  "finish_name Finish_release = ''release''"
| "finish_name Finish_abort = ''abort''"

definition finishLease :: "string \<Rightarrow> revision_lease \<Rightarrow> finish_action \<Rightarrow> int \<Rightarrow> unit d1_action" where
  "finishLease siteId lease act now =
     and_then (d1_ensureSchema siteId) (\<lambda>_.
     and_then (execute (stmt_finish siteId (lease_token lease) now)) (\<lambda>changes.
     if changes \<noteq> 1
     then throw (RevisionConflict (''The canonical WordPress lease cannot '' @ finish_name act @
       '' because it expired or changed.'') None)
     else succeed ()))"

text \<open>A pointer of the model is complete, so \<open>validatePointer\<close> accepts it.\<close>

definition commitStateLease ::
    "string \<Rightarrow> revision_lease \<Rightarrow> markdown_pointer \<Rightarrow> int \<Rightarrow> (markdown_pointer \<times> int) d1_action" where
  "commitStateLease siteId lease pointer now =
     and_then (d1_ensureSchema siteId) (\<lambda>_.
     and_then (batch (stmt_promote siteId lease pointer now) (stmt_receipt siteId lease pointer))
       (\<lambda>(changes, receiptChanges).
     if changes \<noteq> 1 \<or> receiptChanges \<noteq> 1
     then throw (RevisionConflict ''The canonical pointer changed before D1 promotion.'' None)
     else succeed (pointer, lease_version lease + 1)))"

definition readCommittedPointer :: "string \<Rightarrow> int \<Rightarrow> markdown_pointer option d1_action" where
  "readCommittedPointer siteId version =
     (if \<bar>version\<bar> > max_safe_integer \<or> version < 1
      then throw (RevisionConflict ''A canonical commit version is required.'' None)
      else and_then (d1_ensureSchema siteId) (\<lambda>_. query (\<lambda>db. db_commits db (siteId, version))))"

definition readMutationFence :: "string \<Rightarrow> int \<Rightarrow> mutation_fence_status d1_action" where
  "readMutationFence siteId now =
     and_then (d1_ensureSchema siteId) (\<lambda>_.
     and_then (d1_readFenceRow siteId) (\<lambda>row.
       succeed (case row of
           Some f \<Rightarrow>
             if fence_expiresAt f > now
             then \<lparr>status_active = True, status_expiresAt = Some (fence_expiresAt f)\<rparr>
             else \<lparr>status_active = False, status_expiresAt = None\<rparr>
         | None \<Rightarrow> \<lparr>status_active = False, status_expiresAt = None\<rparr>)))"

definition acquireMutationFence :: "string \<Rightarrow> jsval \<Rightarrow> string \<Rightarrow> int \<Rightarrow> mutation_fence d1_action" where
  "acquireMutationFence siteId ttlMs token now =
     and_then (d1_ensureSchema siteId) (\<lambda>_.
     and_then (from_result (mutationFenceExpiresAt ttlMs now)) (\<lambda>expiresAt.
     let fence = \<lparr>fence_token = token, fence_expiresAt = expiresAt\<rparr> in
     and_then (execute (stmt_acquire_fence siteId fence now)) (\<lambda>changes.
     if changes \<noteq> 1 then
       and_then (d1_readRow siteId) (\<lambda>state.
       and_then (d1_readFenceRow siteId) (\<lambda>active.
         case (row_lease_token state, row_lease_expires_at state) of
           (Some tok, Some e) \<Rightarrow>
             if tok \<noteq> [] \<and> e \<noteq> 0 \<and> e > now
             then throw (RevisionConflict ''A canonical WordPress lease is active.'' (Some e))
             else throw (RevisionConflict ''A coordinator cutover fence is already active.''
                           (map_option fence_expiresAt active))
         | _ \<Rightarrow> throw (RevisionConflict ''A coordinator cutover fence is already active.''
                         (map_option fence_expiresAt active))))
     else succeed fence)))"

definition renewMutationFence :: "string \<Rightarrow> string \<Rightarrow> jsval \<Rightarrow> int \<Rightarrow> mutation_fence d1_action" where
  "renewMutationFence siteId token ttlMs now =
     and_then (d1_ensureSchema siteId) (\<lambda>_.
     and_then (from_result (mutationFenceExpiresAt ttlMs now)) (\<lambda>expiresAt.
     let fence = \<lparr>fence_token = token, fence_expiresAt = expiresAt\<rparr> in
     and_then (execute (stmt_renew_fence siteId fence now)) (\<lambda>changes.
     if changes \<noteq> 1
     then throw (RevisionConflict ''The coordinator cutover fence token is invalid or expired.'' None)
     else succeed fence)))"

definition releaseMutationFence :: "string \<Rightarrow> string \<Rightarrow> int \<Rightarrow> unit d1_action" where
  "releaseMutationFence siteId token now =
     and_then (d1_ensureSchema siteId) (\<lambda>_.
     and_then (execute (stmt_release_fence siteId token now)) (\<lambda>changes.
     if changes \<noteq> 1
     then throw (RevisionConflict ''The coordinator cutover fence token is invalid or expired.'' None)
     else succeed ()))"

definition adoption_conflict :: coordinator_error where
  "adoption_conflict = RevisionConflict
     (''D1 coordinator adoption requires empty, exactly matching, or monotonic forward state '' @
      ''without an active lease or an unmatched fence.'') None"

text \<open>The check after the adoption batch: the state and the receipt are the adopted ones.\<close>

definition adopt_verify :: "string \<Rightarrow> markdown_pointer \<Rightarrow> int \<Rightarrow> (markdown_pointer \<times> int) d1_action" where
  "adopt_verify siteId pointer version =
     and_then (d1_readRow siteId) (\<lambda>state.
     and_then (readCommittedPointer siteId version) (\<lambda>committed.
     if row_version state \<noteq> version then throw adoption_conflict
     else and_then (from_result (pointerFromRow state)) (\<lambda>p.
       if \<not> samePointer p pointer \<or> \<not> samePointer committed pointer
       then throw adoption_conflict
       else succeed (pointer, version))))"

definition adoptWordPressState ::
    "string \<Rightarrow> markdown_pointer \<Rightarrow> int \<Rightarrow> string option \<Rightarrow> bool \<Rightarrow> int \<Rightarrow> int
     \<Rightarrow> (markdown_pointer \<times> int) d1_action" where
  "adoptWordPressState siteId pointer version fenceToken requireFence now now' =
     (if \<bar>version\<bar> > max_safe_integer \<or> version < 1
      then throw (RevisionConflict ''A positive canonical version is required for D1 adoption.'' None)
      else
        and_then (d1_ensureSchema siteId) (\<lambda>_.
        and_then (readMutationFence siteId now') (\<lambda>fence.
        if requireFence \<and> \<not> status_active fence
        then throw (RevisionConflict ''Selected coordinator adoption requires an active cutover fence.'' None)
        else if status_active fence \<and> (fenceToken = None \<or> fenceToken = Some [])
        then throw (RevisionConflict ''D1 coordinator adoption is blocked by an unmatched fence.''
                      (status_expiresAt fence))
        else
          and_then (batch (stmt_adopt siteId pointer version fenceToken now)
                          (stmt_adopt_receipt siteId pointer version fenceToken now)) (\<lambda>_.
          adopt_verify siteId pointer version))))"

definition resetWordPressState :: "string \<Rightarrow> int \<Rightarrow> unit d1_action" where
  "resetWordPressState siteId now =
     and_then (d1_ensureSchema siteId) (\<lambda>_.
     and_then (batch (stmt_reset siteId now) (stmt_delete_commits siteId now)) (\<lambda>(changes, _).
     if changes \<noteq> 1 then
       and_then (d1_readRow siteId) (\<lambda>state.
       and_then (d1_readFenceRow siteId) (\<lambda>fence.
         throw (RevisionConflict
           ''Coordinator reset is blocked by an active canonical lease or cutover fence.''
           (case fence of Some f \<Rightarrow> Some (fence_expiresAt f) | None \<Rightarrow> row_lease_expires_at state))))
     else succeed ()))"

text \<open>The methods of \<open>D1RevisionCoordinator\<close>; a lifetime that is not given is the configured one.\<close>

fun d1_client :: "jsval \<Rightarrow> string \<Rightarrow> coordinator_op \<Rightarrow> string \<Rightarrow> int \<Rightarrow> int \<Rightarrow> coordinator_reply d1_action" where
  "d1_client leaseMs site Read_state u n n' =
     and_then (readWordPressState site) (\<lambda>x. succeed (State_reply x))"
| "d1_client leaseMs site (Acquire ttl) u n n' =
     and_then (beginStateLease site (if ttl = JUndef then leaseMs else ttl) u n) (\<lambda>x. succeed (Lease_reply x))"
| "d1_client leaseMs site (Renew lease ttl) u n n' =
     and_then (renewStateLease site lease (if ttl = JUndef then leaseMs else ttl) n) (\<lambda>x. succeed (Lease_reply x))"
| "d1_client leaseMs site (Release lease) u n n' =
     and_then (finishLease site lease Finish_release n) (\<lambda>_. succeed Void_reply)"
| "d1_client leaseMs site (Abort lease) u n n' =
     and_then (finishLease site lease Finish_abort n) (\<lambda>_. succeed Void_reply)"
| "d1_client leaseMs site (Commit lease pointer) u n n' =
     and_then (commitStateLease site lease pointer n) (\<lambda>x. succeed (Promoted_reply (fst x) (snd x)))"
| "d1_client leaseMs site (Committed version) u n n' =
     and_then (readCommittedPointer site version) (\<lambda>x. succeed (Pointer_reply x))"
| "d1_client leaseMs site Fence_status u n n' =
     and_then (readMutationFence site n) (\<lambda>x. succeed (Fence_status_reply x))"
| "d1_client leaseMs site (Acquire_fence ttl) u n n' =
     and_then (acquireMutationFence site ttl u n) (\<lambda>x. succeed (Fence_reply x))"
| "d1_client leaseMs site (Renew_fence token ttl) u n n' =
     and_then (renewMutationFence site token ttl n) (\<lambda>x. succeed (Fence_reply x))"
| "d1_client leaseMs site (Release_fence token) u n n' =
     and_then (releaseMutationFence site token n) (\<lambda>_. succeed Void_reply)"
| "d1_client leaseMs site (Adopt pointer version fenceToken requireFence) u n n' =
     and_then (adoptWordPressState site pointer version fenceToken requireFence n n')
       (\<lambda>x. succeed (Promoted_reply (fst x) (snd x)))"
| "d1_client leaseMs site Reset u n n' =
     and_then (resetWordPressState site n) (\<lambda>_. succeed Void_reply)"

section \<open>Statement by statement\<close>

definition row_at :: "d1_db \<Rightarrow> string \<Rightarrow> state_row" where
  "row_at db site = (case db_state db site of None \<Rightarrow> fresh_row | Some row \<Rightarrow> row)"

definition row_lease :: "state_row \<Rightarrow> held_lease option" where
  "row_lease row =
     (case (row_lease_token row, row_lease_version row, row_lease_expires_at row) of
        (Some tok, Some v, Some e) \<Rightarrow>
          Some \<lparr>held_token = tok, held_base = row_lease_base_revision row, held_version = v, held_expiresAt = e\<rparr>
      | _ \<Rightarrow> None)"

definition row_pointer :: "state_row \<Rightarrow> markdown_pointer option" where
  "row_pointer row =
     (case (row_revision row, row_manifest_key row, row_persisted_at row) of
        (Some r, Some m, Some p) \<Rightarrow> Some \<lparr>revision = r, manifestKey = m, persistedAt = p\<rparr>
      | _ \<Rightarrow> None)"

definition d1_view :: "string \<Rightarrow> d1_db \<Rightarrow> revision_view" where
  "d1_view site db = \<lparr>view_pointer = row_pointer (row_at db site), view_version = row_version (row_at db site),
     view_lease = row_lease (row_at db site), view_fence = db_fences db site,
     view_receipt = (\<lambda>k. db_commits db (site, k))\<rparr>"

text \<open>
  A row is well-formed when its pointer columns are all null or all set, and its lease columns are
  all null or set but for the base revision.  A site is ordered when its receipts belong to versions up to
  the current one, and there is none without a pointer.
\<close>

definition row_wf :: "state_row \<Rightarrow> bool" where
  "row_wf row \<longleftrightarrow>
     (row_revision row = None \<longleftrightarrow> row_manifest_key row = None)
   \<and> (row_revision row = None \<longleftrightarrow> row_persisted_at row = None)
   \<and> (row_lease_token row = None \<longleftrightarrow> row_lease_version row = None)
   \<and> (row_lease_token row = None \<longleftrightarrow> row_lease_expires_at row = None)
   \<and> (row_lease_token row = None \<longrightarrow> row_lease_base_revision row = None)"

definition site_ordered :: "d1_db \<Rightarrow> string \<Rightarrow> bool" where
  "site_ordered db site \<longleftrightarrow> row_wf (row_at db site)
     \<and> (\<forall>k. db_commits db (site, k) \<noteq> None \<longrightarrow>
          k \<le> row_version (row_at db site) \<and> row_revision (row_at db site) \<noteq> None)"

text \<open>The current pointer has its receipt.\<close>

definition receipt_current :: "d1_db \<Rightarrow> string \<Rightarrow> bool" where
  "receipt_current db site \<longleftrightarrow>
     (row_revision (row_at db site) \<noteq> None \<longrightarrow>
        db_commits db (site, row_version (row_at db site)) = row_pointer (row_at db site))"

definition site_wf :: "d1_db \<Rightarrow> string \<Rightarrow> bool" where
  "site_wf db site \<longleftrightarrow> site_ordered db site \<and> receipt_current db site"

text \<open>The writes of the methods, one transaction each, as steps of the database at a moment.\<close>

inductive d1_step :: "int \<Rightarrow> string \<Rightarrow> bool \<Rightarrow> d1_db \<Rightarrow> d1_db \<Rightarrow> bool" for now where
  ensured: "d1_step now site acq db (snd (stmt_ensure_row site db))"
| begun: "acq \<Longrightarrow> now < e \<Longrightarrow> d1_step now site acq db (snd (stmt_begin site tok e now db))"
| renewed: "d1_step now site acq db (snd (stmt_renew site tok e now db))"
| finished: "d1_step now site acq db (snd (stmt_finish site tok now db))"
| committed: "d1_step now site acq db (snd (d1_batch (stmt_promote site l p now) (stmt_receipt site l p) db))"
| fenced: "d1_step now site acq db (snd (stmt_acquire_fence site f now db))"
| refenced: "d1_step now site acq db (snd (stmt_renew_fence site f now db))"
| unfenced: "d1_step now site acq db (snd (stmt_release_fence site tok now db))"
| adopted: "d1_step now site acq db
     (snd (d1_batch (stmt_adopt site p v ft now) (stmt_adopt_receipt site p v ft now) db))"
| reset: "d1_step now site acq db (snd (d1_batch (stmt_reset site now) (stmt_delete_commits site now) db))"

lemmas stmt_defs = stmt_ensure_row_def stmt_begin_def stmt_renew_def stmt_finish_def stmt_promote_def
  stmt_receipt_def stmt_acquire_fence_def stmt_renew_fence_def stmt_release_fence_def stmt_adopt_def
  stmt_adopt_receipt_def stmt_reset_def stmt_delete_commits_def insert_commit_def update_state_def batch_def

text \<open>A step leaves the other sites alone.\<close>

lemma d1_step_other_site:
  assumes "d1_step now site acq db db'" and "other \<noteq> site"
  shows "db_state db' other = db_state db other" and "db_fences db' other = db_fences db other"
    and "db_commits db' (other, k) = db_commits db (other, k)"
  using assms by (induction rule: d1_step.induct) (auto simp: stmt_defs Let_def split: option.splits)

lemmas row_defs = row_wf_def clear_lease_def set_pointer_def fresh_row_def row_is_pointer_def

text \<open>An \<open>UPDATE\<close> that keeps a row well-formed and its version growing keeps the site well-formed.\<close>

lemma update_state_cases:
  obtains (unchanged) "update_state site c f db = (0, db)"
  | (changed) row where "db_state db site = Some row" and "c db row"
      and "update_state site c f db = (1, db\<lparr>db_state := (db_state db)(site := Some (f row))\<rparr>)"
proof (cases "db_state db site")
  case None
  then show thesis by (intro unchanged) (simp add: update_state_def)
next
  case (Some row)
  then show thesis using unchanged changed by (cases "c db row") (simp_all add: update_state_def)
qed

lemma insert_commit_cases:
  obtains (unchanged) "insert_commit site v p c db = (0, db)"
  | (changed) row where "db_state db site = Some row" and "c db row" and "db_commits db (site, v) = None"
      and "insert_commit site v p c db = (1, db\<lparr>db_commits := (db_commits db)((site, v) := Some p)\<rparr>)"
proof (cases "db_state db site")
  case None
  then show thesis by (intro unchanged) (simp add: insert_commit_def)
next
  case (Some row)
  then show thesis using unchanged changed
    by (cases "c db row \<and> db_commits db (site, v) = None") (simp_all add: insert_commit_def)
qed

lemma row_at_stored [simp]:
  "row_at (db\<lparr>db_state := (db_state db)(site := Some row)\<rparr>) site = row"
  "row_at (db\<lparr>db_commits := c\<rparr>) site = row_at db site"
  "row_at (db\<lparr>db_fences := f\<rparr>) site = row_at db site"
  "db_state db site = Some row \<Longrightarrow> row_at db site = row"
  by (simp_all add: row_at_def)

lemma update_site_ordered:
  assumes "site_ordered db site"
    and "\<And>row. db_state db site = Some row \<Longrightarrow> c db row \<Longrightarrow> row_wf row \<Longrightarrow> row_wf (f row)"
    and "\<And>row k. db_state db site = Some row \<Longrightarrow> c db row \<Longrightarrow> db_commits db (site, k) \<noteq> None \<Longrightarrow>
           k \<le> row_version row \<Longrightarrow> row_revision row \<noteq> None \<Longrightarrow>
           k \<le> row_version (f row) \<and> row_revision (f row) \<noteq> None"
  shows "site_ordered (snd (update_state site c f db)) site"
  by (rule update_state_cases [of site c f db])
     (use assms in \<open>auto simp: site_ordered_def\<close>)

lemma insert_site_ordered:
  assumes "site_ordered db site" and "\<And>row. c db row \<Longrightarrow> v \<le> row_version row \<and> row_revision row \<noteq> None"
  shows "site_ordered (snd (insert_commit site v p c db)) site"
  by (rule insert_commit_cases [of site v p c db])
     (use assms in \<open>auto simp: site_ordered_def\<close>)

lemma d1_step_site_ordered: "d1_step now site acq db db' \<Longrightarrow> site_ordered db site \<Longrightarrow> site_ordered db' site"
proof (induction rule: d1_step.induct)
  case (ensured site acq db)
  then show ?case
    by (auto simp: stmt_ensure_row_def site_ordered_def row_at_def)
next
  case (committed site acq db l p)
  then show ?case
    unfolding snd_batch stmt_promote_def stmt_receipt_def Let_def
    by (intro insert_site_ordered update_site_ordered) (auto simp: row_defs)
next
  case (adopted site acq db p v ft)
  have "site_ordered (snd (stmt_adopt site p v ft now db)) site"
    unfolding stmt_adopt_def
    by (rule update_site_ordered [OF adopted]) (auto simp: row_defs)
  then show ?case
    unfolding snd_batch stmt_adopt_receipt_def
    by (rule insert_site_ordered) (auto simp: row_defs)
next
  case (reset site acq db)
  show ?case
    using reset
    by (cases "db_state db site")
       (auto simp: batch_def stmt_reset_def stmt_delete_commits_def update_state_def site_ordered_def row_at_def
         row_defs lease_idle_def fence_exists_def)
next
  case (begun acq e site db tok)
  then show ?case unfolding stmt_begin_def by (intro update_site_ordered) (auto simp: row_defs)
next
  case (renewed site acq db tok e)
  then show ?case unfolding stmt_renew_def by (intro update_site_ordered) (auto simp: row_defs)
next
  case (finished site acq db tok)
  then show ?case unfolding stmt_finish_def by (intro update_site_ordered) (auto simp: row_defs)
qed (auto simp: stmt_acquire_fence_def stmt_renew_fence_def stmt_release_fence_def site_ordered_def split: option.split)

lemmas view_defs = d1_view_def row_lease_def row_pointer_def lease_active_def fence_active_def

lemma lease_idle_inactive:
  "lease_idle now (row_at db site) \<Longrightarrow> now \<le> t \<Longrightarrow> \<not> lease_active (d1_view site db) t"
  by (auto simp: view_defs lease_idle_def sql_at_most_def split: option.splits)

lemma fence_absent_inactive:
  "\<not> fence_exists db site now \<Longrightarrow> now \<le> t \<Longrightarrow> \<not> fence_active (d1_view site db) t"
  by (auto simp: view_defs fence_exists_def split: option.splits)

lemma fence_matches_active: "fence_matches db site tok now \<Longrightarrow> fence_active (d1_view site db) now"
  by (auto simp: view_defs fence_matches_def split: option.splits)

lemma active_before: "lease_active v t \<Longrightarrow> now \<le> t \<Longrightarrow> lease_active v now"
  and fence_active_before: "fence_active v t \<Longrightarrow> now \<le> t \<Longrightarrow> fence_active v now"
  by (auto simp: lease_active_def fence_active_def)

lemma exclusive_if_no_lease: "view_lease v = None \<Longrightarrow> exclusive_from now v"
  by (simp add: exclusive_from_def lease_active_def)

lemma row_lease_clear [simp]: "row_lease (clear_lease row) = None"
  by (simp add: row_lease_def clear_lease_def)

lemma d1_view_stored [simp]:
  "view_lease (d1_view site db) = row_lease (row_at db site)"
  "view_pointer (d1_view site db) = row_pointer (row_at db site)"
  "view_version (d1_view site db) = row_version (row_at db site)"
  "view_fence (d1_view site db) = db_fences db site"
  "view_receipt (d1_view site db) k = db_commits db (site, k)"
  by (simp_all add: d1_view_def)

lemma insert_commit_row [simp]:
  "row_at (snd (insert_commit site v p c db)) site = row_at db site"
  "db_fences (snd (insert_commit site v p c db)) = db_fences db"
  by (simp_all add: insert_commit_def split: option.split)

lemma update_state_fences [simp]:
  "db_fences (snd (update_state site c f db)) = db_fences db"
  "db_commits (snd (update_state site c f db)) = db_commits db"
  by (simp_all add: update_state_def split: option.split)

lemma update_state_row:
  "row_at (snd (update_state site c f db)) site =
     (if db_state db site \<noteq> None \<and> c db (row_at db site) then f (row_at db site) else row_at db site)"
  by (auto simp: update_state_def row_at_def split: option.split)

lemma delete_commits_row [simp]:
  "row_at (snd (stmt_delete_commits site now db)) site = row_at db site"
  "db_fences (snd (stmt_delete_commits site now db)) = db_fences db"
  by (simp_all add: stmt_delete_commits_def row_at_def)

lemma ensure_row [simp]:
  "row_at (snd (stmt_ensure_row site db)) site = row_at db site"
  "db_fences (snd (stmt_ensure_row site db)) = db_fences db"
  "db_commits (snd (stmt_ensure_row site db)) = db_commits db"
  by (auto simp: stmt_ensure_row_def row_at_def)

lemma exclusive_cong:
  "view_lease v = view_lease w \<Longrightarrow> view_fence v = view_fence w \<Longrightarrow> exclusive_from now v = exclusive_from now w"
  by (simp add: exclusive_from_def lease_active_def fence_active_def)

lemma d1_step_exclusive:
  "d1_step now site acq db db' \<Longrightarrow> exclusive_from now (d1_view site db) \<Longrightarrow> exclusive_from now (d1_view site db')"
proof (induction rule: d1_step.induct)
  case (ensured site acq db)
  then show ?case by (simp add: exclusive_cong [where v = "d1_view site (snd (stmt_ensure_row site db))" and w = "d1_view site db"])
next
  case (begun acq e site db tok)
  then show ?case
    using fence_absent_inactive [of db site now]
    by (auto simp: exclusive_from_def lease_active_def fence_active_def stmt_begin_def update_state_row)
next
  case (renewed site acq db tok e)
  then show ?case
    using fence_absent_inactive [of db site now]
    by (auto simp: exclusive_from_def lease_active_def fence_active_def stmt_renew_def update_state_row)
next
  case (finished site acq db tok)
  then show ?case
    by (auto simp: exclusive_from_def lease_active_def fence_active_def stmt_finish_def update_state_row)
next
  case (committed site acq db l p)
  then show ?case
    by (auto simp: exclusive_from_def lease_active_def fence_active_def snd_batch stmt_promote_def
        stmt_receipt_def Let_def update_state_row)
next
  case (fenced site acq db f)
  show ?case
  proof (cases "db_state db site")
    case None
    with fenced show ?thesis by (simp add: stmt_acquire_fence_def)
  next
    case (Some row)
    with fenced show ?thesis
      using lease_idle_inactive [of now db site]
      by (auto simp: stmt_acquire_fence_def exclusive_from_def lease_active_def fence_active_def
          split: option.splits)
  qed
next
  case (refenced site acq db f)
  show ?case
  proof (cases "fence_matches db site (Some (fence_token f)) now")
    case True
    from fence_matches_active [OF True] refenced have "\<not> lease_active (d1_view site db) now"
      by (auto simp: exclusive_from_def)
    then have "\<forall>t \<ge> now. \<not> lease_active (d1_view site db) t"
      using active_before by blast
    then show ?thesis
      by (auto simp: stmt_renew_fence_def exclusive_from_def lease_active_def)
  qed (use refenced in \<open>simp add: stmt_renew_fence_def\<close>)
next
  case (unfenced site acq db tok)
  then show ?case
    by (auto simp: stmt_release_fence_def exclusive_from_def lease_active_def fence_active_def)
next
  case (adopted site acq db p v ft)
  then show ?case
    by (auto simp: exclusive_from_def lease_active_def fence_active_def snd_batch stmt_adopt_def
        stmt_adopt_receipt_def update_state_row)
next
  case (reset site acq db)
  then show ?case
    by (auto simp: exclusive_from_def lease_active_def fence_active_def snd_batch stmt_reset_def update_state_row)
qed

lemma d1_step_other:
  "d1_step now site acq db db' \<Longrightarrow> \<not> acq \<Longrightarrow>
   view_lease (d1_view site db') = None
   \<or> same_head (d1_view site db) (d1_view site db')
     \<and> same_lease (view_lease (d1_view site db)) (view_lease (d1_view site db'))"
proof (induction rule: d1_step.induct)
  case (renewed site acq db tok e)
  then show ?case
    by (auto simp: stmt_renew_def update_state_row same_head_def same_lease_def row_lease_def row_pointer_def
        sql_greater_def split: option.splits)
next
  case (fenced site acq db f)
  then show ?case
    by (auto simp: stmt_acquire_fence_def same_head_def split: option.split)
qed (auto simp: snd_batch stmt_finish_def stmt_promote_def stmt_receipt_def Let_def stmt_adopt_def
      stmt_adopt_receipt_def stmt_reset_def stmt_renew_fence_def stmt_release_fence_def
      update_state_row same_head_def)

text \<open>No statement but a reset touches a receipt that exists.\<close>

lemma insert_commit_keeps:
  "db_commits db k = Some q \<Longrightarrow> db_commits (snd (insert_commit site v p c db)) k = Some q"
  by (auto simp: insert_commit_def split: option.split)

text \<open>The receipt of the current version, statement by statement.\<close>

lemma update_receipt_current:
  assumes "receipt_current db site"
    and "\<And>row. row_revision (f row) = row_revision row \<and> row_manifest_key (f row) = row_manifest_key row
           \<and> row_persisted_at (f row) = row_persisted_at row \<and> row_version (f row) = row_version row"
  shows "receipt_current (snd (update_state site c f db)) site"
  using assms(1) assms(2) [of "row_at db site"]
  by (cases "db_state db site \<noteq> None \<and> c db (row_at db site)")
     (auto simp: receipt_current_def update_state_row row_pointer_def)

lemma row_pointer_set [simp]: "row_pointer (clear_lease (set_pointer p row)) = Some p"
  and row_version_set [simp]: "row_version (clear_lease (set_pointer p row)) = row_version row"
  and row_revision_set [simp]: "row_revision (clear_lease (set_pointer p row)) = Some (revision p)"
  by (simp_all add: row_pointer_def clear_lease_def set_pointer_def)

lemma d1_step_receipt_current:
  "d1_step now site acq db db' \<Longrightarrow> site_ordered db site \<Longrightarrow> receipt_current db site \<Longrightarrow> receipt_current db' site"
proof (induction rule: d1_step.induct)
  case (ensured site acq db)
  then show ?case by (simp add: receipt_current_def)
next
  case (begun acq e site db tok)
  then show ?case unfolding stmt_begin_def by (intro update_receipt_current) auto
next
  case (renewed site acq db tok e)
  then show ?case unfolding stmt_renew_def by (intro update_receipt_current) auto
next
  case (finished site acq db tok)
  then show ?case unfolding stmt_finish_def by (intro update_receipt_current) (auto simp: clear_lease_def)
next
  case (committed site acq db l p)
  have "db_commits db (site, row_version (row_at db site) + 1) = None"
    using committed by (fastforce simp: site_ordered_def)
  moreover have "row_revision (row_at db site) \<noteq> None \<Longrightarrow> db_commits db (site, row_version (row_at db site)) \<noteq> None"
    using committed by (auto simp: site_ordered_def receipt_current_def row_wf_def row_pointer_def)
  ultimately show ?case
    using committed
    by (cases "db_state db site")
       (auto simp: receipt_current_def snd_batch stmt_promote_def stmt_receipt_def Let_def update_state_def
         insert_commit_def)
next
  case (adopted site acq db p v ft)
  then show ?case
    by (cases "db_state db site")
       (auto simp: receipt_current_def snd_batch stmt_adopt_def stmt_adopt_receipt_def update_state_def
         insert_commit_def fence_admits_def fence_exists_def fence_matches_def row_defs row_pointer_def
         split: option.splits)
next
  case (reset site acq db)
  then show ?case
    by (cases "db_state db site")
       (auto simp: receipt_current_def snd_batch stmt_reset_def stmt_delete_commits_def update_state_def
         clear_lease_def row_at_def)
qed (auto simp: receipt_current_def stmt_acquire_fence_def stmt_renew_fence_def stmt_release_fence_def
       split: option.split)

lemma d1_step_wf: "d1_step now site acq db db' \<Longrightarrow> site_wf db site \<Longrightarrow> site_wf db' site"
  using d1_step_site_ordered d1_step_receipt_current by (auto simp: site_wf_def)

section \<open>Method by method\<close>

definition ensured :: "string \<Rightarrow> d1_db \<Rightarrow> d1_db" where
  "ensured site db = snd (stmt_ensure_row site db)"

lemma ensured_idem [simp]: "db_state db site \<noteq> None \<Longrightarrow> ensured site db = db"
  by (auto simp: ensured_def stmt_ensure_row_def)

lemma ensured_row [simp]:
  "db_state (ensured site db) site = Some (row_at db site)"
  "row_at (ensured site db) other = row_at db other"
  "db_fences (ensured site db) = db_fences db"
  "db_commits (ensured site db) = db_commits db"
  by (auto simp: ensured_def stmt_ensure_row_def row_at_def)

lemma d1_view_ensured [simp]: "d1_view other (ensured site db) = d1_view other db"
  by (simp add: d1_view_def)

lemma ensured_site_wf [simp]: "site_wf (ensured site db) other = site_wf db other"
  by (simp add: site_wf_def site_ordered_def receipt_current_def)

lemma and_then_ensure [simp]: "and_then (d1_ensureSchema site) k db = k () (ensured site db)"
  by (simp add: d1_ensureSchema_def action_defs execute_def ensured_def split: prod.split)

lemma and_then_readRow:
  "db_state db site = Some row \<Longrightarrow> and_then (d1_readRow site) k db = k row db"
  by (simp add: d1_readRow_def action_defs)

lemma and_then_readFenceRow: "and_then (d1_readFenceRow site) k db = k (db_fences db site) db"
  by (simp add: d1_readFenceRow_def action_defs)

lemmas d1_run = and_then_execute and_then_batch and_then_query and_then_succeed and_then_throw
  and_then_result and_then_readRow and_then_readFenceRow

lemma update_state_some:
  "db_state db site = Some row \<Longrightarrow> update_state site c f db =
     (if c db row then (1, db\<lparr>db_state := (db_state db)(site := Some (f row))\<rparr>) else (0, db))"
  by (simp add: update_state_def)

lemma pointerFromRow_wf: "row_wf row \<Longrightarrow> pointerFromRow row = Inr (row_pointer row)"
  by (auto simp: pointerFromRow_def row_pointer_def row_wf_def split: option.splits)

lemma site_wf_row: "site_wf db site \<Longrightarrow> row_wf (row_at db site)"
  by (simp add: site_wf_def site_ordered_def)

text \<open>What a granted lease, a commit and the two idle outcomes are.\<close>

lemma beginStateLease_result:
  assumes wf: "site_wf db site" and run: "beginStateLease site ttl tok now db = (r, t)"
  shows "(case r of
      Inl e \<Rightarrow> t = ensured site db
    | Inr l \<Rightarrow> \<exists>exp. revisionLeaseExpiresAt ttl now = Inr exp \<and> lease_idle now (row_at db site)
        \<and> \<not> fence_exists db site now
        \<and> l = \<lparr>lease_token = tok, lease_pointer = row_pointer (row_at db site),
               lease_version = row_version (row_at db site), lease_expiresAt = exp\<rparr>
        \<and> t = snd (stmt_begin site tok exp now (ensured site db))
        \<and> row_at t site = (row_at db site)\<lparr>row_lease_token := Some tok,
            row_lease_base_revision := row_revision (row_at db site),
            row_lease_version := Some (row_version (row_at db site)), row_lease_expires_at := Some exp\<rparr>)"
proof (cases "revisionLeaseExpiresAt ttl now")
  case (Inl e)
  with run show ?thesis by (auto simp: beginStateLease_def d1_run)
next
  case (Inr exp)
  define row where "row = row_at db site"
  let ?row = "row\<lparr>row_lease_token := Some tok, row_lease_base_revision := row_revision row,
      row_lease_version := Some (row_version row), row_lease_expires_at := Some exp\<rparr>"
  have stored: "db_state (ensured site db) site = Some row" by (simp add: row_def)
  have "fence_exists (ensured site db) site now = fence_exists db site now"
    by (simp add: fence_exists_def)
  show ?thesis
  proof (cases "lease_idle now row \<and> \<not> fence_exists db site now")
    case True
    have "row_wf ?row" using site_wf_row [OF wf] by (auto simp: row_wf_def row_def)
    then have "pointerFromRow ?row = Inr (row_pointer row)"
      by (simp add: pointerFromRow_wf) (simp add: row_pointer_def)
    with True Inr run stored show ?thesis
      by (cases r) (auto simp: beginStateLease_def d1_run stmt_begin_def update_state_some fence_exists_def
          row_def succeed_def)
  next
    case False
    with Inr run stored show ?thesis
      by (auto simp: beginStateLease_def d1_run stmt_begin_def update_state_some fence_exists_def throw_def
          simp flip: row_def split: option.splits if_splits)
  qed
qed

lemma commitStateLease_result:
  assumes wf: "site_wf db site" and run: "commitStateLease site l p now db = (r, t)"
  shows "(case r of
      Inl e \<Rightarrow> t = ensured site db
    | Inr pv \<Rightarrow> pv = (p, lease_version l + 1)
        \<and> row_lease_token (row_at db site) = Some (lease_token l)
        \<and> sql_greater (row_lease_expires_at (row_at db site)) now
        \<and> row_version (row_at db site) = lease_version l
        \<and> row_lease_version (row_at db site) = Some (lease_version l)
        \<and> row_revision (row_at db site) = map_option revision (lease_pointer l)
        \<and> row_lease_base_revision (row_at db site) = map_option revision (lease_pointer l)
        \<and> row_at t site = clear_lease (set_pointer p ((row_at db site)\<lparr>row_version := lease_version l + 1\<rparr>))
        \<and> t = snd (d1_batch (stmt_promote site l p now) (stmt_receipt site l p) (ensured site db))
        \<and> db_commits t = (db_commits db)((site, lease_version l + 1) := Some p))"
proof -
  define row where "row = row_at db site"
  have stored: "db_state (ensured site db) site = Some row" by (simp add: row_def)
  have fresh: "db_commits db (site, row_version row + 1) = None"
  proof (rule ccontr)
    assume "db_commits db (site, row_version row + 1) \<noteq> None"
    with wf have "row_version row + 1 \<le> row_version row"
      unfolding site_wf_def site_ordered_def row_def by blast
    then show False by simp
  qed
  have present: "row_revision row \<noteq> None \<Longrightarrow> db_commits db (site, row_version row) \<noteq> None"
    using wf by (auto simp: site_wf_def site_ordered_def receipt_current_def row_wf_def row_pointer_def
        simp flip: row_def)
  show ?thesis
    using run stored fresh present
    by (auto simp: commitStateLease_def d1_run stmt_promote_def stmt_receipt_def Let_def update_state_some
        insert_commit_def throw_def succeed_def batch_def clear_lease_def set_pointer_def simp flip: row_def
        split: if_splits)
qed

lemma finishLease_result:
  "finishLease site l act now db = (r, t) \<Longrightarrow>
     (case r of Inl e \<Rightarrow> t = ensured site db
      | Inr _ \<Rightarrow> row_lease_token (row_at db site) = Some (lease_token l)
          \<and> t = snd (stmt_finish site (lease_token l) now (ensured site db)))"
  by (auto simp: finishLease_def d1_run stmt_finish_def update_state_some throw_def succeed_def split: if_splits)

lemma renewStateLease_result:
  "renewStateLease site l ttl now db = (r, t) \<Longrightarrow>
     (case r of Inl e \<Rightarrow> t = ensured site db
      | Inr m \<Rightarrow> \<exists>exp. revisionLeaseExpiresAt ttl now = Inr exp \<and> m = l\<lparr>lease_expiresAt := exp\<rparr>
          \<and> row_lease_token (row_at db site) = Some (lease_token l)
          \<and> t = snd (stmt_renew site (lease_token l) exp now (ensured site db)))"
  by (auto simp: renewStateLease_def d1_run stmt_renew_def update_state_some throw_def succeed_def
      split: if_splits sum.splits)

lemma readMutationFence_run [simp]: "snd (readMutationFence site now db) = ensured site db"
  by (simp add: readMutationFence_def d1_run succeed_def)

lemma readCommittedPointer_run:
  "snd (readCommittedPointer site v db) = (if \<bar>v\<bar> > max_safe_integer \<or> v < 1 then db else ensured site db)"
  by (auto simp add: readCommittedPointer_def d1_run throw_def query_def)

lemma acquireMutationFence_result:
  "acquireMutationFence site ttl tok now db = (r, t) \<Longrightarrow>
     (case r of Inl e \<Rightarrow> t = ensured site db
      | Inr f \<Rightarrow> \<exists>exp. mutationFenceExpiresAt ttl now = Inr exp \<and> f = \<lparr>fence_token = tok, fence_expiresAt = exp\<rparr>
          \<and> t = snd (stmt_acquire_fence site f now (ensured site db)))"
  by (auto simp: acquireMutationFence_def d1_run stmt_acquire_fence_def throw_def succeed_def Let_def
      split: if_splits sum.splits option.splits)

lemma renewMutationFence_result:
  "renewMutationFence site tok ttl now db = (r, t) \<Longrightarrow>
     (case r of Inl e \<Rightarrow> t = ensured site db
      | Inr f \<Rightarrow> \<exists>exp. mutationFenceExpiresAt ttl now = Inr exp \<and> f = \<lparr>fence_token = tok, fence_expiresAt = exp\<rparr>
          \<and> t = snd (stmt_renew_fence site f now (ensured site db)))"
  by (auto simp: renewMutationFence_def d1_run stmt_renew_fence_def throw_def succeed_def Let_def
      split: if_splits sum.splits)

lemma releaseMutationFence_result:
  "releaseMutationFence site tok now db = (r, t) \<Longrightarrow>
     (case r of Inl e \<Rightarrow> t = ensured site db | Inr _ \<Rightarrow> t = snd (stmt_release_fence site tok now (ensured site db)))"
  by (auto simp: releaseMutationFence_def d1_run stmt_release_fence_def throw_def succeed_def split: if_splits)

lemma resetWordPressState_result:
  assumes run: "resetWordPressState site now db = (r, t)"
  shows "(case r of Inl e \<Rightarrow> t = ensured site db
    | Inr _ \<Rightarrow> lease_idle now (row_at db site) \<and> \<not> fence_exists db site now
        \<and> t = snd (d1_batch (stmt_reset site now) (stmt_delete_commits site now) (ensured site db)))"
proof (cases "lease_idle now (row_at db site) \<and> \<not> fence_exists db site now")
  case True
  with run show ?thesis
    by (auto simp: resetWordPressState_def d1_run stmt_reset_def update_state_some throw_def succeed_def
        fence_exists_def snd_batch split: if_splits)
next
  case False
  with run show ?thesis
    by (auto simp: resetWordPressState_def d1_run stmt_reset_def stmt_delete_commits_def update_state_some
        throw_def succeed_def fence_exists_def snd_batch split: if_splits option.splits)
qed

text \<open>
  The adoption batch either leaves the tables or promotes the pointer with its receipt; a receipt
  for a state that already matched is there by the invariant.
\<close>

definition adopt_admits :: "string \<Rightarrow> markdown_pointer \<Rightarrow> int \<Rightarrow> string option \<Rightarrow> int \<Rightarrow> d1_db \<Rightarrow> bool" where
  "adopt_admits site p v ft now db \<longleftrightarrow>
     lease_idle now (row_at db site) \<and> fence_admits db site ft now
     \<and> (row_revision (row_at db site) = None \<or> row_version (row_at db site) = v \<and> row_pointer (row_at db site) = Some p
        \<or> row_version (row_at db site) < v)
     \<and> (db_commits db (site, v) = None \<or> db_commits db (site, v) = Some p)"

lemma clear_lease_token [simp]: "row_lease_token (clear_lease row) = None"
  by (simp add: clear_lease_def)

lemma row_is_pointer_iff: "row_is_pointer p row \<longleftrightarrow> row_pointer row = Some p"
  by (cases p) (auto simp: row_is_pointer_def row_pointer_def split: option.splits)

lemma adopt_batch:
  assumes wf: "site_wf db site"
    and t: "t = snd (d1_batch (stmt_adopt site p v ft now) (stmt_adopt_receipt site p v ft now) (ensured site db))"
  shows "t = ensured site db
    \<or> adopt_admits site p v ft now db
      \<and> row_at t site = clear_lease (set_pointer p ((row_at db site)\<lparr>row_version := v\<rparr>))
      \<and> db_commits t = (db_commits db)((site, v) := Some p)"
proof -
  define row where "row = row_at db site"
  have stored: "db_state (ensured site db) site = Some row" by (simp add: row_def)
  have admits: "fence_admits (ensured site db) site ft now = fence_admits db site ft now"
    and admits': "\<And>s. fence_admits (ensured site db\<lparr>db_state := s\<rparr>) site ft now = fence_admits db site ft now"
    by (simp_all add: fence_admits_def fence_exists_def fence_matches_def)
  have row: "row_wf row" using site_wf_row [OF wf] by (simp add: row_def)
  have present: "row_pointer row = Some p \<Longrightarrow> db_commits db (site, row_version row) = Some p"
    using wf by (auto simp: site_wf_def receipt_current_def row_def row_pointer_def split: option.splits)
  have set: "row_is_pointer p (clear_lease (set_pointer p (row\<lparr>row_version := v\<rparr>)))"
    by (simp add: row_is_pointer_iff)
  have empty: "row_revision row = None \<Longrightarrow> row_manifest_key row = None \<and> row_persisted_at row = None"
    using row by (auto simp: row_wf_def)
  let ?c = "lease_idle now row \<and> fence_admits db site ft now
     \<and> (row_revision row = None \<or> row_version row = v \<and> row_pointer row = Some p \<or> row_version row < v)
     \<and> (db_commits db (site, v) = None \<or> db_commits db (site, v) = Some p)"
  have upd: "stmt_adopt site p v ft now (ensured site db) =
      (if ?c then (1, (ensured site db)\<lparr>db_state := (db_state (ensured site db))
                      (site := Some (clear_lease (set_pointer p (row\<lparr>row_version := v\<rparr>))))\<rparr>)
       else (0, ensured site db))"
    unfolding stmt_adopt_def update_state_some [OF stored] admits row_is_pointer_iff using empty by auto
  show ?thesis
  proof (cases ?c)
    case True
    then show ?thesis
      using t set
      by (auto simp: snd_batch upd stmt_adopt_receipt_def insert_commit_def admits' adopt_admits_def
          fun_upd_idem simp flip: row_def)
  next
    case False
    then have "stmt_adopt site p v ft now (ensured site db) = (0, ensured site db)"
      unfolding upd by simp
    then show ?thesis
      using t present stored
      by (auto simp: snd_batch stmt_adopt_receipt_def insert_commit_def row_is_pointer_iff)
  qed
qed

lemma adopt_verify_run:
  assumes "db_state db site = Some row" and "row_wf row" and "\<bar>v\<bar> \<le> max_safe_integer" and "1 \<le> v"
  shows "adopt_verify site p v db =
    (if row_version row = v \<and> row_pointer row = Some p \<and> db_commits db (site, v) = Some p
     then Inr (p, v) else Inl adoption_conflict, db)"
proof -
  have committed: "readCommittedPointer site v db = (Inr (db_commits db (site, v)), db)"
    using assms by (simp add: readCommittedPointer_def)
  have "and_then (readCommittedPointer site v) k db = k (db_commits db (site, v)) db"
    for k :: "markdown_pointer option \<Rightarrow> (markdown_pointer \<times> int) d1_action"
    by (simp add: and_then_def committed)
  then show ?thesis
    using assms(2)
    by (simp add: adopt_verify_def and_then_readRow [OF assms(1)] and_then_result pointerFromRow_wf
        succeed_def throw_def)
qed

lemma adoptWordPressState_result:
  assumes wf: "site_wf db site" and run: "adoptWordPressState site p v ft req now now' db = (r, t)"
  shows "(case r of
      Inl e \<Rightarrow> t = db \<or> t = ensured site db
    | Inr pv \<Rightarrow> pv = (p, v) \<and> 1 \<le> v \<and> row_version (row_at t site) = v \<and> row_pointer (row_at t site) = Some p
        \<and> db_commits t (site, v) = Some p
        \<and> (t = ensured site db
           \<or> adopt_admits site p v ft now db
             \<and> row_at t site = clear_lease (set_pointer p ((row_at db site)\<lparr>row_version := v\<rparr>))
             \<and> db_commits t = (db_commits db)((site, v) := Some p)
             \<and> t = snd (d1_batch (stmt_adopt site p v ft now) (stmt_adopt_receipt site p v ft now) (ensured site db))))"
proof -
  define u where "u = snd (d1_batch (stmt_adopt site p v ft now) (stmt_adopt_receipt site p v ft now) (ensured site db))"
  have u_wf: "site_wf u site"
    unfolding u_def by (rule d1_step_wf [OF d1_step.adopted [where acq = False]]) (simp add: wf)
  have u_stored: "db_state u site = Some (row_at u site)"
    unfolding u_def snd_batch stmt_adopt_def stmt_adopt_receipt_def
    by (auto simp: row_at_def insert_commit_def update_state_def split: option.splits)
  define k :: "mutation_fence_status \<Rightarrow> (markdown_pointer \<times> int) d1_action" where
    "k fence = (if req \<and> \<not> status_active fence
        then throw (RevisionConflict ''Selected coordinator adoption requires an active cutover fence.'' None)
        else if status_active fence \<and> (ft = None \<or> ft = Some [])
        then throw (RevisionConflict ''D1 coordinator adoption is blocked by an unmatched fence.''
                      (status_expiresAt fence))
        else and_then (batch (stmt_adopt site p v ft now) (stmt_adopt_receipt site p v ft now))
               (\<lambda>_. adopt_verify site p v))" for fence
  show ?thesis
  proof (cases "\<bar>v\<bar> > max_safe_integer \<or> v < 1")
    case True
    with run show ?thesis by (auto simp: adoptWordPressState_def throw_def)
  next
    case False
    obtain fence where fence: "readMutationFence site now' (ensured site db) = (Inr fence, ensured site db)"
      by (simp add: readMutationFence_def d1_run succeed_def)
    from run False fence have "k fence (ensured site db) = (r, t)"
      unfolding adoptWordPressState_def k_def by (simp add: and_then_def [where m = "readMutationFence site now'"])
    then consider (refused) e where "r = Inl e" "t = ensured site db"
      | (batched) "adopt_verify site p v u = (r, t)"
      unfolding k_def by (cases r) (auto simp: and_then_batch u_def snd_batch split: if_splits)
    then show ?thesis
    proof cases
      case batched
      have range: "\<bar>v\<bar> \<le> max_safe_integer" "1 \<le> v" using False by auto
      have "u = t" and r: "r = (if row_version (row_at u site) = v \<and> row_pointer (row_at u site) = Some p
          \<and> db_commits u (site, v) = Some p then Inr (p, v) else Inl adoption_conflict)"
        using batched unfolding adopt_verify_run [OF u_stored site_wf_row [OF u_wf] range] by auto
      then show ?thesis
        using adopt_batch [OF wf u_def] range u_def by (auto split: if_splits)
    qed simp
  qed
qed

lemma readWordPressState_run:
  assumes "site_wf db site"
  shows "readWordPressState site db =
    (Inr \<lparr>state_store = D1_store, state_pointer = row_pointer (row_at db site),
          state_version = row_version (row_at db site)\<rparr>, ensured site db)"
  using pointerFromRow_wf [OF site_wf_row [OF assms]]
  by (simp add: readWordPressState_def and_then_readRow [OF ensured_row(1)] and_then_result succeed_def)

lemma readMutationFence_result: "readMutationFence site now db = (r, t) \<Longrightarrow> t = ensured site db"
  using readMutationFence_run [of site now db] by simp

lemma row_pointer_lease_fields [simp]:
  "row_pointer (row\<lparr>row_lease_token := a, row_lease_base_revision := b, row_lease_version := c,
     row_lease_expires_at := e\<rparr>) = row_pointer row"
  by (simp add: row_pointer_def)

text \<open>The base revision of a granted lease is the revision of its pointer.\<close>

lemma row_pointer_base: "site_wf db site \<Longrightarrow> map_option revision (row_pointer (row_at db site)) = row_revision (row_at db site)"
  by (auto simp: site_wf_def site_ordered_def row_wf_def row_pointer_def split: option.splits)

section \<open>The D1 coordinator keeps the contract\<close>

text \<open>
  One call of a client makes at most one step of the database beside the insertion of the fresh
  row, and a call that throws makes none.
\<close>

lemma d1_client_refused:
  assumes wf: "site_wf db site" and run: "d1_client m site op uuid now now' db = (Inl e, t)"
  shows "t = db \<or> t = ensured site db"
proof (cases op)
  case (Committed v)
  with run readCommittedPointer_run [of site v db] show ?thesis by (auto simp: and_then_Inl_iff split: if_splits)
next
  case Fence_status
  with run show ?thesis by (auto simp: and_then_Inl_iff dest: readMutationFence_result)
qed (use run readWordPressState_run [OF wf] in \<open>auto simp: and_then_Inl_iff
      dest!: beginStateLease_result [OF wf] commitStateLease_result [OF wf] finishLease_result
        renewStateLease_result acquireMutationFence_result renewMutationFence_result
        releaseMutationFence_result adoptWordPressState_result [OF wf] resetWordPressState_result\<close>)

lemma d1_client_step:
  assumes wf: "site_wf db site" and run: "d1_client m site op uuid now now' db = (r, t)"
  shows "t = db \<or> t = ensured site db \<or> d1_step now site (is_acquire op) (ensured site db) t"
proof (cases r)
  case (Inl e)
  with d1_client_refused [OF wf, of m op uuid now now' e t] run show ?thesis by blast
next
  case (Inr rep)
  note run = run [unfolded Inr]
  show ?thesis
  proof (cases op)
    case (Committed v)
    with run readCommittedPointer_run [of site v db] show ?thesis
      by (auto simp: and_then_Inr_iff split: if_splits)
  next
    case Fence_status
    with run show ?thesis by (auto simp: and_then_Inr_iff dest: readMutationFence_result)
  next
    case (Acquire ttl)
    with run show ?thesis
      by (auto simp: and_then_Inr_iff is_acquire_def dest!: beginStateLease_result [OF wf]
          intro!: d1_step.begun dest: revisionLeaseExpiresAt_bounds)
  next
    case (Adopt p v ft req)
    with run obtain pv where "adoptWordPressState site p v ft req now now' db = (Inr pv, t)"
      by (auto simp: and_then_Inr_iff)
    with adoptWordPressState_result [OF wf this] show ?thesis
      using d1_step.adopted [of now site "is_acquire op" "ensured site db" p v ft] by auto
  qed (use run readWordPressState_run [OF wf] in \<open>auto simp: and_then_Inr_iff
        dest!: commitStateLease_result [OF wf] finishLease_result
          renewStateLease_result acquireMutationFence_result renewMutationFence_result
          releaseMutationFence_result resetWordPressState_result
        intro: d1_step.committed d1_step.finished d1_step.renewed d1_step.fenced d1_step.refenced
          d1_step.unfenced d1_step.reset\<close>)
qed

definition d1_perform ::
    "jsval \<Rightarrow> string \<Rightarrow> coordinator_op \<Rightarrow> string \<Rightarrow> int \<Rightarrow> coordinator_reply d1_action" where
  "d1_perform leaseMs site op uuid now = d1_client leaseMs site op uuid now now"

lemma d1_client_wf:
  assumes wf: "site_wf db site" and run: "d1_client m site op uuid now now' db = (r, t)"
  shows "site_wf t site"
  using d1_client_step [OF wf run] wf by (auto intro: d1_step_wf)

lemma d1_client_exclusive:
  assumes wf: "site_wf db site" and run: "d1_client m site op uuid now now' db = (r, t)"
    and ex: "exclusive_from now (d1_view site db)"
  shows "exclusive_from now (d1_view site t)"
  using d1_client_step [OF wf run] ex by (auto intro: d1_step_exclusive)

lemma d1_client_receipts:
  assumes wf: "site_wf db site" and run: "d1_client m site op uuid now now' db = (r, t)" and "op \<noteq> Reset"
    and receipt: "db_commits db (site, k) = Some p"
  shows "db_commits t (site, k) = Some p"
proof (cases r)
  case (Inl e)
  with d1_client_refused [OF wf, of m op uuid now now' e t] run receipt show ?thesis by auto
next
  case (Inr rep)
  note run = run [unfolded Inr]
  show ?thesis
  proof (cases op)
    case (Commit l q)
    from run Commit obtain pv where "commitStateLease site l q now db = (Inr pv, t)"
      by (auto simp: and_then_Inr_iff)
    from commitStateLease_result [OF wf this] receipt wf show ?thesis
      by (auto simp: site_wf_def site_ordered_def)
  next
    case (Adopt q v ft req)
    with run receipt show ?thesis
      by (auto simp: and_then_Inr_iff adopt_admits_def dest!: adoptWordPressState_result [OF wf])
  next
    case (Committed v)
    with run receipt readCommittedPointer_run [of site v db] show ?thesis
      by (auto simp: and_then_Inr_iff split: if_splits)
  next
    case Fence_status
    with run receipt show ?thesis by (auto simp: and_then_Inr_iff dest: readMutationFence_result)
  qed (use run receipt \<open>op \<noteq> Reset\<close> readWordPressState_run [OF wf] in
      \<open>auto simp: and_then_Inr_iff stmt_begin_def stmt_finish_def stmt_renew_def stmt_acquire_fence_def
          stmt_renew_fence_def stmt_release_fence_def
        dest!: beginStateLease_result [OF wf] finishLease_result
          renewStateLease_result acquireMutationFence_result renewMutationFence_result
          releaseMutationFence_result split: option.splits\<close>)
qed

text \<open>The initial tables, and any table a call leaves, are well-formed for every site.\<close>

definition d1_empty :: d1_db where
  "d1_empty = \<lparr>db_state = (\<lambda>_. None), db_commits = (\<lambda>_. None), db_fences = (\<lambda>_. None)\<rparr>"

lemma d1_empty_wf [simp]: "site_wf d1_empty site"
  by (simp add: d1_empty_def site_wf_def site_ordered_def receipt_current_def row_at_def fresh_row_def row_wf_def)

lemma lease_idle_view: "lease_idle now (row_at db site) \<Longrightarrow> \<not> lease_active (d1_view site db) now"
  using lease_idle_inactive [of now db site now] by simp

interpretation d1: receipted_coordinator "\<lambda>db. site_wf db site" "d1_view site" "d1_perform leaseMs site" "\<lambda>_. True"
  for leaseMs site
proof unfold_locales
  fix s t :: d1_db and op uuid now r
  assume wf: "site_wf s site" and step: "d1_perform leaseMs site op uuid now s = (r, t)"
  show "site_wf t site" using d1_client_wf [OF wf] step by (simp add: d1_perform_def)
  show "exclusive_from now (d1_view site t)" if "exclusive_from now (d1_view site s)"
    using d1_client_exclusive [OF wf _ that] step by (simp add: d1_perform_def)
  show "view_lease (d1_view site t) = None \<or> same_head (d1_view site s) (d1_view site t)
      \<and> same_lease (view_lease (d1_view site s)) (view_lease (d1_view site t))" if "\<not> is_acquire op"
    using d1_client_step [OF wf step [unfolded d1_perform_def]] d1_step_other that by fastforce
  show "view_receipt (d1_view site t) k = Some p" if "op \<noteq> Reset" "view_receipt (d1_view site s) k = Some p" for k p
    using d1_client_receipts [OF wf step [unfolded d1_perform_def] that(1)] that(2) by simp
next
  fix s t :: d1_db and ttl uuid now e
  assume wf: "site_wf s site" and step: "d1_perform leaseMs site (Acquire ttl) uuid now s = (Inl e, t)"
  from d1_client_refused [OF wf step [unfolded d1_perform_def]]
  show "same_head (d1_view site s) (d1_view site t)
      \<and> same_lease (view_lease (d1_view site s)) (view_lease (d1_view site t))" by auto
next
  fix s t :: d1_db and ttl uuid now rep
  assume wf: "site_wf s site" and step: "d1_perform leaseMs site (Acquire ttl) uuid now s = (Inr rep, t)"
  then obtain l where rep: "rep = Lease_reply l"
      and run: "beginStateLease site (if ttl = JUndef then leaseMs else ttl) uuid now s = (Inr l, t)"
    by (auto simp: d1_perform_def and_then_Inr_iff)
  from beginStateLease_result [OF wf run] rep row_pointer_base [OF wf]
  show "\<exists>l. rep = Lease_reply l \<and> lease_token l = uuid \<and> lease_pointer l = view_pointer (d1_view site s)
      \<and> lease_version l = view_version (d1_view site s)
      \<and> now < lease_expiresAt l \<and> lease_expiresAt l \<le> now + MAX_REVISION_LEASE_MS
      \<and> \<not> lease_active (d1_view site s) now \<and> \<not> fence_active (d1_view site s) now
      \<and> same_head (d1_view site s) (d1_view site t)
      \<and> view_lease (d1_view site t) = Some \<lparr>held_token = uuid,
           held_base = map_option revision (lease_pointer l), held_version = lease_version l,
           held_expiresAt = lease_expiresAt l\<rparr>"
    by (auto simp: same_head_def row_lease_def MAX_REVISION_LEASE_MS_def lease_idle_view
        fence_absent_inactive dest: revisionLeaseExpiresAt_bounds)
next
  fix s t :: d1_db and l p uuid now rep
  assume wf: "site_wf s site" and step: "d1_perform leaseMs site (Commit l p) uuid now s = (Inr rep, t)"
  then obtain pv where rep: "rep = Promoted_reply (fst pv) (snd pv)"
      and run: "commitStateLease site l p now s = (Inr pv, t)"
    by (auto simp: d1_perform_def and_then_Inr_iff)
  from commitStateLease_result [OF wf run] rep row_pointer_base [OF wf]
  show "rep = Promoted_reply p (lease_version l + 1) \<and> lease_active (d1_view site s) now
      \<and> (\<exists>h. view_lease (d1_view site s) = Some h \<and> held_token h = lease_token l
           \<and> held_base h = map_option revision (lease_pointer l) \<and> held_version h = lease_version l)
      \<and> view_version (d1_view site s) = lease_version l
      \<and> map_option revision (view_pointer (d1_view site s)) = map_option revision (lease_pointer l)
      \<and> view_pointer (d1_view site t) = Some p \<and> view_version (d1_view site t) = lease_version l + 1
      \<and> view_lease (d1_view site t) = None \<and> view_receipt (d1_view site t) (lease_version l + 1) = Some p"
    by (auto simp: lease_active_def row_lease_def sql_greater_def split: option.splits)
qed auto

section \<open>Interleaved statements\<close>

text \<open>
  The database as any number of clients leave it, each statement or batch at a clock reading that
  does not go back.  Nothing is assumed about which method a statement belongs to, so a client that
  stops between two statements is included.
\<close>

inductive d1_reach :: "int \<Rightarrow> d1_db \<Rightarrow> bool" where
  start: "d1_reach now d1_empty"
| wait: "d1_reach now db \<Longrightarrow> now \<le> now' \<Longrightarrow> d1_reach now' db"
| step: "d1_reach now db \<Longrightarrow> now \<le> now' \<Longrightarrow> d1_step now' site acq db db' \<Longrightarrow> d1_reach now' db'"

inductive_cases d1_reachE: "d1_reach now db"

lemma d1_step_other_view: "d1_step now site acq db db' \<Longrightarrow> other \<noteq> site \<Longrightarrow> d1_view other db' = d1_view other db"
  by (simp add: d1_view_def row_at_def d1_step_other_site)

lemma d1_step_other_wf: "d1_step now site acq db db' \<Longrightarrow> other \<noteq> site \<Longrightarrow> site_wf db' other = site_wf db other"
  by (simp add: site_wf_def site_ordered_def receipt_current_def row_at_def d1_step_other_site)

lemma d1_reach_wf: "d1_reach now db \<Longrightarrow> site_wf db site"
proof (induction rule: d1_reach.induct)
  case (step now db now' site' acq db')
  then show ?case by (cases "site = site'") (auto intro: d1_step_wf simp: d1_step_other_wf)
qed simp

lemma d1_empty_exclusive [simp]: "exclusive_from now (d1_view site d1_empty)"
  by (simp add: exclusive_from_def d1_empty_def fence_active_def)

lemma d1_reach_exclusive: "d1_reach now db \<Longrightarrow> exclusive_from now (d1_view site db)"
proof (induction rule: d1_reach.induct)
  case (wait now db now')
  then show ?case by (blast intro: exclusive_from_mono)
next
  case (step now db now' site' acq db')
  then have "exclusive_from now' (d1_view site db)" by (blast intro: exclusive_from_mono)
  with step show ?case
    by (cases "site = site'") (auto intro: d1_step_exclusive simp: d1_step_other_view)
qed simp

text \<open>What a client call does is such a sequence of statements.\<close>

lemma d1_client_reach:
  assumes reach: "d1_reach now db" and "now \<le> now'" and run: "d1_client m site op uuid now' now'' db = (r, t)"
  shows "d1_reach now' t"
proof -
  from reach \<open>now \<le> now'\<close> have db: "d1_reach now' db" by (rule d1_reach.wait)
  then have "d1_reach now' (ensured site db)"
    unfolding ensured_def using order_refl d1_step.ensured [of now' site False] by (rule d1_reach.step)
  then show ?thesis
    using d1_client_step [OF d1_reach_wf [OF reach] run] db d1_reach.step [OF _ order_refl] by blast
qed

section \<open>Evaluation\<close>

lemmas d1_eval = d1_perform_def beginStateLease_def renewStateLease_def finishLease_def commitStateLease_def
  readCommittedPointer_def readMutationFence_def acquireMutationFence_def renewMutationFence_def
  releaseMutationFence_def adoptWordPressState_def adopt_verify_def resetWordPressState_def
  readWordPressState_def pointerFromRow_def d1_ensureSchema_def d1_readRow_def d1_readFenceRow_def
  execute_def batch_def stmt_defs lease_idle_def fence_exists_def fence_matches_def fence_admits_def
  sql_at_most_def sql_greater_def clear_lease_def set_pointer_def row_is_pointer_def fresh_row_def
  action_defs Let_def revisionLeaseExpiresAt_def mutationFenceExpiresAt_def
  MAX_REVISION_LEASE_MS_def MIN_MUTATION_FENCE_MS_def MAX_MUTATION_FENCE_MS_def max_safe_integer_def

text \<open>A reset that is granted empties the site.\<close>

lemma d1_client_reset:
  assumes wf: "site_wf db site" and run: "d1_client m site Reset uuid now now' db = (Inr rep, u)"
  shows "(\<forall>k. db_commits u (site, k) = None) \<and> view_pointer (d1_view site u) = None
      \<and> view_version (d1_view site u) = view_version (d1_view site db) + 1
      \<and> (other \<noteq> site \<longrightarrow> d1_view other u = d1_view other db)"
proof -
  from run obtain x where "resetWordPressState site now db = (Inr x, u)" by (auto simp: and_then_Inr_iff)
  from resetWordPressState_result [OF this] have idle: "lease_idle now (row_at db site)" "\<not> fence_exists db site now"
    and u: "u = snd (d1_batch (stmt_reset site now) (stmt_delete_commits site now) (ensured site db))"
    by simp_all
  have stored: "db_state (ensured site db) site = Some (row_at db site)" by simp
  have "d1_view other u = d1_view other db" if "other \<noteq> site"
    using d1_step_other_view [OF d1_step.reset [of now site False "ensured site db"] that] u by simp
  with u idle stored show ?thesis
    by (auto simp: snd_batch stmt_reset_def stmt_delete_commits_def update_state_some fence_exists_def row_pointer_def
        clear_lease_def lease_idle_def)
qed

end
