(* ===== verification/Coordinator_Refinement.thy ===== *)
theory Coordinator_Refinement
  imports Durable_Coordinator D1_Coordinator
begin

text \<open>
  The abstract coordinator: a pointer, its version, and the lease and the fence that are in force.
  Both implementations refine it for the calls that do not depend on how they are stored, so a
  client that uses those calls cannot tell the Durable Object from the D1 tables
  (\<open>packages/runtime-cloudflare/src/revision-coordinator.ts\<close> promises exactly that).
\<close>

section \<open>The abstract coordinator\<close>

record abstract_head =
  abs_pointer :: "markdown_pointer option"
  abs_version :: int
  abs_lease :: "held_lease option"
  abs_fence :: "mutation_fence option"

text \<open>What is in force of a view at a moment: an expired lease or fence is as good as none.\<close>

definition in_force :: "int \<Rightarrow> revision_view \<Rightarrow> abstract_head" where
  "in_force now v =
     \<lparr>abs_pointer = view_pointer v, abs_version = view_version v,
      abs_lease = (case view_lease v of Some l \<Rightarrow> if now < held_expiresAt l then Some l else None | None \<Rightarrow> None),
      abs_fence = (case view_fence v of Some f \<Rightarrow> if now < fence_expiresAt f then Some f else None | None \<Rightarrow> None)\<rparr>"

text \<open>The calls both implementations answer alike.\<close>

fun portable :: "coordinator_op \<Rightarrow> bool" where
  "portable (Acquire ttl) = (safe_integer ttl \<noteq> None)"
| "portable (Release _) = True"
| "portable (Abort _) = True"
| "portable (Commit _ _) = True"
| "portable Fence_status = True"
| "portable (Acquire_fence _) = True"
| "portable (Renew_fence _ _) = True"
| "portable (Release_fence _) = True"
| "portable _ = False"

definition holds_lease :: "revision_lease \<Rightarrow> abstract_head \<Rightarrow> bool" where
  "holds_lease l a \<longleftrightarrow> (\<exists>h. abs_lease a = Some h \<and> held_token h = lease_token l)"

definition may_commit :: "revision_lease \<Rightarrow> abstract_head \<Rightarrow> bool" where
  "may_commit l a \<longleftrightarrow>
     (\<exists>h. abs_lease a = Some h \<and> held_token h = lease_token l \<and> held_version h = lease_version l
        \<and> held_base h = map_option revision (lease_pointer l))
     \<and> abs_version a = lease_version l
     \<and> map_option revision (abs_pointer a) = map_option revision (lease_pointer l)"

text \<open>One call: its reply, \<open>None\<close> where it is refused, and the head it leaves.\<close>

fun abstract_call :: "coordinator_op \<Rightarrow> string \<Rightarrow> int \<Rightarrow> abstract_head \<Rightarrow> coordinator_reply option \<times> abstract_head" where
  "abstract_call (Acquire ttl) uuid now a =
     (case revisionLeaseExpiresAt ttl now of
        Inr e \<Rightarrow>
          if abs_lease a = None \<and> abs_fence a = None
          then (Some (Lease_reply \<lparr>lease_token = uuid, lease_pointer = abs_pointer a,
                                   lease_version = abs_version a, lease_expiresAt = e\<rparr>),
                a\<lparr>abs_lease := Some \<lparr>held_token = uuid, held_base = map_option revision (abs_pointer a),
                                     held_version = abs_version a, held_expiresAt = e\<rparr>\<rparr>)
          else (None, a)
      | Inl _ \<Rightarrow> (None, a))"
| "abstract_call (Release l) uuid now a =
     (if holds_lease l a then (Some Void_reply, a\<lparr>abs_lease := None\<rparr>) else (None, a))"
| "abstract_call (Abort l) uuid now a =
     (if holds_lease l a then (Some Void_reply, a\<lparr>abs_lease := None\<rparr>) else (None, a))"
| "abstract_call (Commit l p) uuid now a =
     (if may_commit l a
      then (Some (Promoted_reply p (lease_version l + 1)),
            a\<lparr>abs_pointer := Some p, abs_version := lease_version l + 1, abs_lease := None\<rparr>)
      else (None, a))"
| "abstract_call Fence_status uuid now a =
     (Some (Fence_status_reply (case abs_fence a of
         Some f \<Rightarrow> \<lparr>status_active = True, status_expiresAt = Some (fence_expiresAt f)\<rparr>
       | None \<Rightarrow> \<lparr>status_active = False, status_expiresAt = None\<rparr>)), a)"
| "abstract_call (Acquire_fence ttl) uuid now a =
     (case mutationFenceExpiresAt ttl now of
        Inr e \<Rightarrow>
          if abs_lease a = None \<and> abs_fence a = None
          then (Some (Fence_reply \<lparr>fence_token = uuid, fence_expiresAt = e\<rparr>),
                a\<lparr>abs_fence := Some \<lparr>fence_token = uuid, fence_expiresAt = e\<rparr>\<rparr>)
          else (None, a)
      | Inl _ \<Rightarrow> (None, a))"
| "abstract_call (Renew_fence tok ttl) uuid now a =
     (case (mutationFenceExpiresAt ttl now, abs_fence a) of
        (Inr e, Some f) \<Rightarrow>
          if fence_token f = tok
          then (Some (Fence_reply \<lparr>fence_token = tok, fence_expiresAt = e\<rparr>),
                a\<lparr>abs_fence := Some \<lparr>fence_token = tok, fence_expiresAt = e\<rparr>\<rparr>)
          else (None, a)
      | _ \<Rightarrow> (None, a))"
| "abstract_call (Release_fence tok) uuid now a =
     (case abs_fence a of
        Some f \<Rightarrow> if fence_token f = tok then (Some Void_reply, a\<lparr>abs_fence := None\<rparr>) else (None, a)
      | None \<Rightarrow> (None, a))"
| "abstract_call _ uuid now a = (None, a)"

fun granted :: "coordinator_error + 'a \<Rightarrow> 'a option" where
  "granted (Inl _) = None"
| "granted (Inr x) = Some x"

section \<open>The Durable Object refines it\<close>

definition do_owned :: "string \<Rightarrow> do_state \<Rightarrow> bool" where
  "do_owned site s \<longleftrightarrow> (case do_record s of
      Some rec \<Rightarrow> cr_initialized rec \<longrightarrow> (case cr_siteId rec of None \<Rightarrow> ''default'' | Some i \<Rightarrow> i) = site
    | None \<Rightarrow> True)"

lemma resave [simp]: "do_record s = Some rec \<Longrightarrow> s\<lparr>do_record := Some rec\<rparr> = s"
  by (cases s) simp

lemma and_then_load:
  "do_owned site s \<Longrightarrow> and_then (do_load site) k s = k (loaded site s) (s\<lparr>do_record := Some (loaded site s)\<rparr>)"
  by (auto simp: do_owned_def do_load_def do_fresh_def do_save_def loaded_def action_defs Let_def split: option.splits)

text \<open>The state \<open>activeFence\<close> leaves.\<close>

definition settled :: "coordinator_record \<Rightarrow> int \<Rightarrow> do_state \<Rightarrow> do_state" where
  "settled rec now s =
     (if cr_fence rec = live_fence rec now then s else s\<lparr>do_record := Some (rec\<lparr>cr_fence := None\<rparr>)\<rparr>)"

lemma and_then_activeFence:
  "and_then (do_activeFence rec now) k s =
   k (live_fence rec now, rec\<lparr>cr_fence := live_fence rec now\<rparr>) (settled rec now s)"
  by (cases rec)
     (auto simp: do_activeFence_def do_save_def live_fence_def settled_def action_defs Let_def split: option.splits)

lemma settled_save [simp]: "(settled rec now s)\<lparr>do_record := x\<rparr> = s\<lparr>do_record := x\<rparr>"
  by (simp add: settled_def)

lemma loaded_settled [simp]:
  "do_record s = Some rec \<Longrightarrow> cr_initialized rec \<Longrightarrow>
   loaded site (settled rec now s) = rec\<lparr>cr_fence := live_fence rec now\<rparr>"
  by (cases rec) (auto simp: settled_def loaded_def live_fence_def split: option.splits)

lemma settled_some [simp]: "live_fence rec now = Some f \<Longrightarrow> settled rec now s = s"
  by (simp add: settled_def) (simp add: live_fence_Some)

definition rec_head :: "int \<Rightarrow> coordinator_record \<Rightarrow> abstract_head" where
  "rec_head now rec = in_force now (rec_view (\<lambda>_. None) rec)"

lemma in_force_do_view: "in_force now (do_view site s) = rec_head now (loaded site s)"
  by (simp add: do_view_def rec_head_def in_force_def)

lemma rec_head_simps:
  "abs_pointer (rec_head now rec) = cr_pointer rec"
  "abs_version (rec_head now rec) = cr_version rec"
  "abs_fence (rec_head now rec) = live_fence rec now"
  "abs_lease (rec_head now rec) =
     (case cr_lease rec of
        Some l \<Rightarrow> if now < sl_expiresAt l
                   then Some \<lparr>held_token = sl_token l, held_base = map_option revision (sl_base l),
                              held_version = sl_version l, held_expiresAt = sl_expiresAt l\<rparr> else None
      | None \<Rightarrow> None)"
  by (auto simp: rec_head_def in_force_def rec_view_def live_fence_def split: option.split)


lemma rec_head_live [simp]: "rec_head now (rec\<lparr>cr_fence := live_fence rec now\<rparr>) = rec_head now rec"
  by (auto simp: rec_head_def in_force_def live_fence_def split: option.split)

lemma rec_head_no_fence [simp]: "live_fence rec now = None \<Longrightarrow> rec_head now (rec\<lparr>cr_fence := None\<rparr>) = rec_head now rec"
  using rec_head_live [of now rec] by simp

lemma and_then_do_save: "and_then (do_save rec) k s = k () (s\<lparr>do_record := Some rec\<rparr>)"
  and and_then_put_pointer: "and_then (put_pointer site p) k s = k () (s\<lparr>do_bucket := (do_bucket s)(pointerKey site := p)\<rparr>)"
  and and_then_put_promotion: "and_then (put_promotion rec q) k s =
    k () (s\<lparr>do_commits := (do_commits s)(cr_version rec := Some q), do_record := Some rec\<rparr>)"
  by (auto simp: action_defs do_save_def put_pointer_def put_promotion_def)

lemma and_then_requireIdle:
  "and_then (do_requireIdle rec msg now) k s =
   (case cr_lease rec of
      Some l \<Rightarrow> if now < sl_expiresAt l then (Inl (RevisionConflict msg (Some (sl_expiresAt l))), s) else k () s
    | None \<Rightarrow> k () s)"
  by (auto simp: do_requireIdle_def action_defs split: option.split)

lemma and_then_requireLease:
  "and_then (do_requireLease rec body now) k s =
   (case cr_lease rec of
      None \<Rightarrow> (Inl (RevisionConflict ''The canonical WordPress lease has expired.'' None), s)
    | Some l \<Rightarrow>
        if sl_expiresAt l \<le> now then (Inl (RevisionConflict ''The canonical WordPress lease has expired.'' None), s)
        else if js_member body ''token'' \<noteq> JStr (sl_token l)
        then (Inl (RevisionConflict ''The canonical WordPress lease token is invalid.'' None), s)
        else k l s)"
  by (auto simp: do_requireLease_def action_defs split: option.split)

lemma and_then_requireFence:
  "and_then (do_requireFence active body) k s =
   (case active of
      Some f \<Rightarrow>
        if js_member body ''token'' = JStr (fence_token f) then k f s
        else (Inl (RevisionConflict ''The coordinator cutover fence token is invalid or expired.'' None), s)
    | None \<Rightarrow> (Inl (RevisionConflict ''The coordinator cutover fence token is invalid or expired.'' None), s))"
  by (auto simp: do_requireFence_def action_defs split: option.split)

lemmas do_run = and_then_load and_then_activeFence and_then_query and_then_throw and_then_succeed
  and_then_result and_then_do_save and_then_put_pointer and_then_put_promotion and_then_requireIdle and_then_requireLease and_then_requireFence
  and_then_assoc Let_def

lemma live_fence_simps [simp]:
  "live_fence (rec\<lparr>cr_fence := None\<rparr>) now = None"
  "live_fence (rec\<lparr>cr_lease := l\<rparr>) now = live_fence rec now"
  "live_fence (rec\<lparr>cr_pointer := p\<rparr>) now = live_fence rec now"
  "live_fence (rec\<lparr>cr_version := v\<rparr>) now = live_fence rec now"
  "now < fence_expiresAt f \<Longrightarrow> live_fence (rec\<lparr>cr_fence := Some f\<rparr>) now = Some f"
  by (simp_all add: live_fence_def)

lemma rec_head_eqI:
  "abs_pointer a = cr_pointer rec \<Longrightarrow> abs_version a = cr_version rec \<Longrightarrow>
   abs_lease a = abs_lease (rec_head now rec) \<Longrightarrow> abs_fence a = live_fence rec now \<Longrightarrow> a = rec_head now rec"
  by (rule abstract_head.equality) (simp_all add: rec_head_simps)

lemma do_refines:
  assumes owned: "do_owned site s" and portable: "portable op" and run: "do_perform m site op u now s = (r, t)"
  shows "abstract_call op u now (in_force now (do_view site s)) = (granted r, in_force now (do_view site t))"
proof -
  define rec where "rec = loaded site s"
  have init: "cr_initialized rec" by (simp add: rec_def)
  note start = in_force_do_view do_perform_def do_client_methods replying_def void_reply_def
  note finish = do_run rec_head_simps throw_def succeed_def
  show ?thesis
  proof (cases op)
    case (Acquire ttl)
    then have lease: "do_leaseTtl m (JObj (js_field ''ttlMs'' ttl)) = ttl"
      using portable by (cases ttl) (auto simp: do_leaseTtl_def)
    show ?thesis
      using run init owned Acquire
      by (cases "revisionLeaseExpiresAt ttl now"; cases "live_fence rec now"; cases "cr_lease rec")
         (auto simp: start do_begin_def finish lease lease_of_stored_def simp flip: rec_def
           dest: revisionLeaseExpiresAt_bounds intro!: rec_head_eqI split: if_splits)
  next
    case (Release l)
    show ?thesis
      using run init owned Release
      by (cases "cr_lease rec")
         (auto simp: start do_release_def finish holds_lease_def simp flip: rec_def intro!: rec_head_eqI
           split: if_splits)
  next
    case (Abort l)
    show ?thesis
      using run init owned Abort
      by (cases "cr_lease rec")
         (auto simp: start do_abort_release do_release_def finish holds_lease_def simp flip: rec_def
           intro!: rec_head_eqI split: if_splits)
  next
    case (Commit l p)
    show ?thesis
      using run init owned Commit
      by (cases "cr_lease rec")
         (auto simp: start do_commit_def finish may_commit_def commit_body_def simp flip: rec_def
           intro!: rec_head_eqI split: if_splits)
  next
    case Fence_status
    show ?thesis
      using run init owned Fence_status
      by (cases "live_fence rec now")
         (auto simp: start do_fenceStatus_def finish simp flip: rec_def intro!: rec_head_eqI)
  next
    case (Acquire_fence ttl)
    let ?idle = "\<forall>l. cr_lease rec = Some l \<longrightarrow> sl_expiresAt l \<le> now"
    have idle: "and_then (do_requireIdle rec msg now) k s' =
        (if ?idle then k () s' else (Inl (RevisionConflict msg (map_option sl_expiresAt (cr_lease rec))), s'))"
      for msg s' and k :: "unit \<Rightarrow> coordinator_reply do_action"
      by (auto simp: and_then_requireIdle split: option.split)
    have lease: "abs_lease (rec_head now rec) = None \<longleftrightarrow> ?idle"
      by (auto simp: rec_head_simps split: option.split)
    have dropped: "?idle \<Longrightarrow> rec_head now (rec\<lparr>cr_lease := None, cr_fence := f\<rparr>)
        = rec_head now (rec\<lparr>cr_fence := f\<rparr>)" for f
      by (rule abstract_head.equality) (auto simp: rec_head_simps live_fence_def split: option.split)
    have fence: "now < fence_expiresAt f \<Longrightarrow>
        (rec_head now rec)\<lparr>abs_fence := Some f\<rparr> = rec_head now (rec\<lparr>cr_fence := Some f\<rparr>)" for f
      by (rule abstract_head.equality) (simp_all add: rec_head_simps)
    show ?thesis
    proof (cases ?idle)
      case True
      show ?thesis
        using run init owned Acquire_fence True
        by (cases "mutationFenceExpiresAt ttl now"; cases "live_fence rec now")
           (auto simp: start do_acquireFence_def and_then_load and_then_activeFence and_then_result
             and_then_do_save and_then_throw and_then_succeed and_then_assoc Let_def throw_def succeed_def
             idle lease dropped fence rec_head_simps(3) simp flip: rec_def dest: mutationFenceExpiresAt_bounds)
    next
      case False
      show ?thesis
        using run init owned Acquire_fence False
        by (cases "mutationFenceExpiresAt ttl now")
           (auto simp: start do_acquireFence_def and_then_load and_then_result and_then_assoc idle lease
             simp flip: rec_def simp del: all_simps)
    qed
  next
    case (Renew_fence tok ttl)
    show ?thesis
      using run init owned Renew_fence
      by (cases "mutationFenceExpiresAt ttl now"; cases "live_fence rec now")
         (auto simp: start do_renewFence_def finish simp flip: rec_def
           dest: mutationFenceExpiresAt_bounds intro!: rec_head_eqI split: if_splits)
  next
    case (Release_fence tok)
    show ?thesis
      using run init owned Release_fence
      by (cases "live_fence rec now")
         (auto simp: start do_releaseFence_def finish simp flip: rec_def intro!: rec_head_eqI split: if_splits)
  qed (use portable in auto)
qed

section \<open>The D1 tables refine it\<close>

definition table_head :: "int \<Rightarrow> state_row \<Rightarrow> mutation_fence option \<Rightarrow> abstract_head" where
  "table_head now row fence =
     \<lparr>abs_pointer = row_pointer row, abs_version = row_version row,
      abs_lease = (case row_lease row of Some l \<Rightarrow> if now < held_expiresAt l then Some l else None | None \<Rightarrow> None),
      abs_fence = (case fence of Some f \<Rightarrow> if now < fence_expiresAt f then Some f else None | None \<Rightarrow> None)\<rparr>"

lemma in_force_d1_view: "in_force now (d1_view site db) = table_head now (row_at db site) (db_fences db site)"
  by (simp add: in_force_def table_head_def)

lemma fence_exists_head: "fence_exists db site now \<longleftrightarrow> abs_fence (table_head now row (db_fences db site)) \<noteq> None"
  by (auto simp: fence_exists_def table_head_def split: option.splits)

lemma fence_matches_head:
  "fence_matches db site (Some tok) now \<longleftrightarrow>
     (\<exists>f. abs_fence (table_head now row (db_fences db site)) = Some f \<and> fence_token f = tok)"
  by (auto simp: fence_matches_def table_head_def split: option.splits)

lemma lease_idle_head: "row_wf row \<Longrightarrow> lease_idle now row \<longleftrightarrow> abs_lease (table_head now row fence) = None"
  by (auto simp: lease_idle_def sql_at_most_def table_head_def row_lease_def row_wf_def split: option.splits)

lemma lease_held_head:
  "row_wf row \<Longrightarrow> (row_lease_token row = Some tok \<and> sql_greater (row_lease_expires_at row) now) \<longleftrightarrow>
     (\<exists>h. abs_lease (table_head now row fence) = Some h \<and> held_token h = tok)"
  by (auto simp: sql_greater_def table_head_def row_lease_def row_wf_def split: option.splits)

lemma commit_held_head:
  "row_wf row \<Longrightarrow>
     (row_lease_token row = Some tok \<and> sql_greater (row_lease_expires_at row) now
      \<and> row_lease_version row = Some v \<and> row_lease_base_revision row = b) \<longleftrightarrow>
     (\<exists>h. abs_lease (table_head now row fence) = Some h \<and> held_token h = tok \<and> held_version h = v \<and> held_base h = b)"
  by (auto simp: sql_greater_def table_head_def row_lease_def row_wf_def split: option.splits)

lemma table_head_updates:
  "table_head now (clear_lease row) fence = (table_head now row fence)\<lparr>abs_lease := None\<rparr>"
  "table_head now (clear_lease (set_pointer p (row\<lparr>row_version := v\<rparr>))) fence =
     (table_head now row fence)\<lparr>abs_pointer := Some p, abs_version := v, abs_lease := None\<rparr>"
  "now < fence_expiresAt f \<Longrightarrow> table_head now row (Some f) = (table_head now row fence)\<lparr>abs_fence := Some f\<rparr>"
  "table_head now row None = (table_head now row fence)\<lparr>abs_fence := None\<rparr>"
  "now < e \<Longrightarrow> table_head now (row\<lparr>row_lease_token := Some tok, row_lease_base_revision := b,
     row_lease_version := Some v, row_lease_expires_at := Some e\<rparr>) fence =
     (table_head now row fence)\<lparr>abs_lease := Some \<lparr>held_token = tok, held_base = b, held_version = v,
       held_expiresAt = e\<rparr>\<rparr>"
  by (auto simp: table_head_def row_lease_def clear_lease_def row_pointer_def set_pointer_def)

lemma table_head_fields:
  "abs_pointer (table_head now row fence) = row_pointer row"
  "abs_version (table_head now row fence) = row_version row"
  by (simp_all add: table_head_def)

text \<open>A commit that meets its guards succeeds: the receipt of the next version is always new.\<close>

lemma commitStateLease_succeeds:
  assumes wf: "site_wf db site" and row: "row = row_at db site"
    and guard: "row_lease_token row = Some (lease_token l)" "sql_greater (row_lease_expires_at row) now"
      "row_version row = lease_version l" "row_lease_version row = Some (lease_version l)"
      "row_revision row = map_option revision (lease_pointer l)"
      "row_lease_base_revision row = map_option revision (lease_pointer l)"
  shows "fst (commitStateLease site l p now db) = Inr (p, lease_version l + 1)"
proof -
  have stored: "db_state (ensured site db) site = Some row" by (simp add: row)
  have fresh: "db_commits db (site, lease_version l + 1) = None"
  proof (rule ccontr)
    assume "db_commits db (site, lease_version l + 1) \<noteq> None"
    with wf have "row_version row + 1 \<le> row_version row"
      unfolding site_wf_def site_ordered_def row guard(3) [symmetric, unfolded row] by blast
    then show False by simp
  qed
  have set: "row_version (clear_lease (set_pointer p (row\<lparr>row_version := row_version row + 1\<rparr>))) = row_version row + 1"
    by simp
  show ?thesis
    using guard fresh stored
    by (cases "lease_pointer l")
       (auto simp: commitStateLease_def d1_run stmt_promote_def stmt_receipt_def Let_def update_state_some
         insert_commit_def throw_def succeed_def)
qed

lemma beginStateLease_succeeds:
  assumes wf: "site_wf db site" and row: "row = row_at db site"
    and moment: "revisionLeaseExpiresAt ttl now = Inr moment" and idle: "lease_idle now row" "\<not> fence_exists db site now"
  shows "\<exists>l. fst (beginStateLease site ttl u now db) = Inr l"
proof -
  have stored: "db_state (ensured site db) site = Some row" by (simp add: row)
  have "row_wf (row\<lparr>row_lease_token := Some u, row_lease_base_revision := row_revision row,
      row_lease_version := Some (row_version row), row_lease_expires_at := Some moment\<rparr>)"
    using site_wf_row [OF wf] by (auto simp: row_wf_def row)
  from pointerFromRow_wf [OF this] show ?thesis
    using moment idle stored
    by (simp add: beginStateLease_def d1_run stmt_begin_def update_state_some fence_exists_def succeed_def)
qed

lemma d1_refines_finish:
  assumes wf: "site_wf db site"
    and run: "and_then (finishLease site l act now) (\<lambda>_. succeed Void_reply) db = (r, t)"
  shows "abstract_call (Release l) u now (in_force now (d1_view site db)) = (granted r, in_force now (d1_view site t))"
proof -
  define row where "row = row_at db site"
  have row: "row_wf row" using site_wf_row [OF wf] by (simp add: row_def)
  have stored: "db_state (ensured site db) site = Some row" by (simp add: row_def)
  show ?thesis
    using run stored lease_held_head [OF row, of "lease_token l" now "db_fences db site"]
    by (auto simp: in_force_d1_view finishLease_def d1_run update_state_some throw_def succeed_def stmt_finish_def
        holds_lease_def and_then_assoc table_head_updates simp flip: row_def split: if_splits)
qed

lemma d1_refines:
  assumes wf: "site_wf db site" and portable: "portable op" and run: "d1_perform m site op u now db = (r, t)"
  shows "abstract_call op u now (in_force now (d1_view site db)) = (granted r, in_force now (d1_view site t))"
proof -
  define row where "row = row_at db site"
  let ?h = "table_head now row (db_fences db site)"
  have row: "row_wf row" using site_wf_row [OF wf] by (simp add: row_def)
  have stored: "db_state (ensured site db) site = Some row" by (simp add: row_def)
  have base: "map_option revision (row_pointer row) = row_revision row"
    using row_pointer_base [OF wf] by (simp add: row_def)
  note start = in_force_d1_view d1_perform_def and_then_assoc
  note finish = d1_run update_state_some throw_def succeed_def
  note heads = fence_exists_head [of _ _ _ row] lease_idle_head [OF row, of now "db_fences db site"]
  show ?thesis
  proof (cases op)
    case (Acquire ttl)
    with portable have ttl: "(if ttl = JUndef then m else ttl) = ttl" by auto
    obtain lr where begins: "beginStateLease site ttl u now db = (lr, t)"
      and r: "granted r = map_option Lease_reply (granted lr)"
      using run Acquire ttl
      by (cases "beginStateLease site ttl u now db") (auto simp: d1_perform_def and_then_def succeed_def split: sum.splits)
    show ?thesis
    proof (cases lr)
      case (Inr l)
      with beginStateLease_result [OF wf begins] obtain moment
        where "revisionLeaseExpiresAt ttl now = Inr moment" "lease_idle now row" "\<not> fence_exists db site now"
          "l = \<lparr>lease_token = u, lease_pointer = row_pointer row, lease_version = row_version row,
                lease_expiresAt = moment\<rparr>"
          "row_at t site = row\<lparr>row_lease_token := Some u, row_lease_base_revision := row_revision row,
             row_lease_version := Some (row_version row), row_lease_expires_at := Some moment\<rparr>"
          and fences: "db_fences t = db_fences db"
        by (auto simp: stmt_begin_def simp flip: row_def)
      moreover from this(1) have "now < moment" by (blast dest: revisionLeaseExpiresAt_bounds)
      ultimately show ?thesis
        using Inr r Acquire base heads(2) by (simp add: start table_head_fields table_head_updates fence_exists_head [of _ _ _ row] flip: row_def)
    next
      case (Inl e)
      have "\<not> (lease_idle now row \<and> \<not> fence_exists db site now)" if "revisionLeaseExpiresAt ttl now = Inr moment" for moment
        using beginStateLease_succeeds [OF wf row_def that, of u] begins Inl by auto
      with Inl r Acquire beginStateLease_result [OF wf begins] heads show ?thesis
        by (auto simp: start simp flip: row_def split: sum.split)
    qed
  next
    case (Release l)
    with run d1_refines_finish [OF wf, of l Finish_release now r t u] show ?thesis by (simp add: d1_perform_def)
  next
    case (Abort l)
    with run d1_refines_finish [OF wf, of l Finish_abort now r t u] show ?thesis by (simp add: d1_perform_def)
  next
    case (Commit l p)
    have commit: "may_commit l ?h \<longleftrightarrow> row_lease_token row = Some (lease_token l)
        \<and> sql_greater (row_lease_expires_at row) now \<and> row_version row = lease_version l
        \<and> row_lease_version row = Some (lease_version l)
        \<and> row_revision row = map_option revision (lease_pointer l)
        \<and> row_lease_base_revision row = map_option revision (lease_pointer l)"
      using commit_held_head [OF row, of "lease_token l" now "lease_version l"
          "map_option revision (lease_pointer l)" "db_fences db site"] base
      by (auto simp: may_commit_def table_head_fields)
    obtain pv where commits: "commitStateLease site l p now db = (pv, t)"
      and r: "granted r = map_option (\<lambda>x. Promoted_reply (fst x) (snd x)) (granted pv)"
      using run Commit
      by (cases "commitStateLease site l p now db") (auto simp: d1_perform_def and_then_def succeed_def split: sum.splits)
    show ?thesis
    proof (cases pv)
      case (Inl e)
      have "\<not> may_commit l ?h"
        using commitStateLease_succeeds [OF wf row_def, of l now p] commits Inl unfolding commit by auto
      with Inl r Commit commitStateLease_result [OF wf commits] show ?thesis
        by (simp add: start flip: row_def)
    next
      case (Inr x)
      note result = commitStateLease_result [OF wf commits, unfolded Inr sum.case, folded row_def]
      have "may_commit l ?h" unfolding commit using result by (elim conjE) (intro conjI)
      moreover have "x = (p, lease_version l + 1)" using result by (elim conjE)
      moreover have "row_at t site = clear_lease (set_pointer p (row\<lparr>row_version := lease_version l + 1\<rparr>))"
        using result by (elim conjE)
      moreover have "db_fences t = db_fences db"
        using result by (auto simp: snd_batch stmt_promote_def stmt_receipt_def Let_def)
      ultimately show ?thesis using Inr r Commit
        by (simp add: start table_head_updates(2) flip: row_def)
    qed
  next
    case Fence_status
    with run show ?thesis
      by (auto simp: start readMutationFence_def finish table_head_def simp flip: row_def split: option.splits)
  next
    case (Acquire_fence ttl)
    show ?thesis
    proof (cases "mutationFenceExpiresAt ttl now")
      case (Inl e)
      with run Acquire_fence show ?thesis by (auto simp: start acquireMutationFence_def d1_run simp flip: row_def)
    next
      case (Inr moment)
      let ?f = "\<lparr>fence_token = u, fence_expiresAt = moment\<rparr>"
      let ?free = "lease_idle now row \<and> \<not> fence_exists db site now"
      have stmt: "stmt_acquire_fence site ?f now (ensured site db) = (if ?free
          then (1, (ensured site db)\<lparr>db_fences := (db_fences db)(site := Some ?f)\<rparr>) else (0, ensured site db))"
        using stored by (auto simp: stmt_acquire_fence_def fence_exists_def split: option.split)
      have "\<exists>err. acquireMutationFence site ttl u now db =
          (if ?free then (Inr ?f, (ensured site db)\<lparr>db_fences := (db_fences db)(site := Some ?f)\<rparr>)
           else (Inl err, ensured site db))"
        using stored Inr
        by (cases ?free; cases "row_lease_token row"; cases "row_lease_expires_at row")
           (simp_all add: acquireMutationFence_def d1_run stmt Let_def succeed_def throw_def flip: row_def)
      then obtain err where "d1_perform m site op u now db =
          (if ?free then (Inr (Fence_reply ?f), (ensured site db)\<lparr>db_fences := (db_fences db)(site := Some ?f)\<rparr>)
           else (Inl err, ensured site db))"
        unfolding Acquire_fence by (auto simp: d1_perform_def and_then_def succeed_def split: if_splits)
      with run have r: "(r, t) = (if ?free
          then (Inr (Fence_reply ?f), (ensured site db)\<lparr>db_fences := (db_fences db)(site := Some ?f)\<rparr>)
          else (Inl err, ensured site db))" by simp
      have "now < fence_expiresAt ?f" using mutationFenceExpiresAt_bounds [OF Inr] by simp
      from table_head_updates(3) [OF this, of row "db_fences db site"] show ?thesis
        using r Acquire_fence Inr heads(2) fence_exists_head [of db site now row]
        by (cases ?free) (auto simp: in_force_d1_view simp flip: row_def)
    qed
  next
    case (Renew_fence tok ttl)
    show ?thesis
    proof (cases "mutationFenceExpiresAt ttl now")
      case (Inl e)
      with run Renew_fence show ?thesis by (auto simp: start renewMutationFence_def d1_run simp flip: row_def)
    next
      case (Inr e)
      let ?f = "\<lparr>fence_token = tok, fence_expiresAt = e\<rparr>"
      have "now < fence_expiresAt ?f" using mutationFenceExpiresAt_bounds [OF Inr] by simp
      note table = table_head_updates(3) [OF this, of row "db_fences db site"]
      have matches: "fence_matches (ensured site db) site (Some tok) now =
          (\<exists>f. abs_fence ?h = Some f \<and> fence_token f = tok)"
        using fence_matches_head [of "ensured site db" site tok now row] by simp
      from run Renew_fence Inr have "(\<exists>f. abs_fence ?h = Some f \<and> fence_token f = tok)
          \<and> r = Inr (Fence_reply ?f) \<and> t = (ensured site db)\<lparr>db_fences := (db_fences db)(site := Some ?f)\<rparr>
        \<or> \<not> (\<exists>f. abs_fence ?h = Some f \<and> fence_token f = tok) \<and> granted r = None \<and> t = ensured site db"
        by (simp add: d1_perform_def and_then_assoc renewMutationFence_def d1_run Let_def stmt_renew_fence_def
            matches succeed_def throw_def split: if_splits) auto
      with table Renew_fence Inr show ?thesis
        by (auto simp: in_force_d1_view simp flip: row_def split: option.split)
    qed
  next
    case (Release_fence tok)
    have matches: "fence_matches (ensured site db) site (Some tok) now =
        (\<exists>f. abs_fence ?h = Some f \<and> fence_token f = tok)"
      using fence_matches_head [of "ensured site db" site tok now row] by simp
    from run Release_fence have "(\<exists>f. abs_fence ?h = Some f \<and> fence_token f = tok)
        \<and> r = Inr Void_reply \<and> t = (ensured site db)\<lparr>db_fences := (db_fences db)(site := None)\<rparr>
      \<or> \<not> (\<exists>f. abs_fence ?h = Some f \<and> fence_token f = tok) \<and> granted r = None \<and> t = ensured site db"
      by (simp add: d1_perform_def and_then_assoc releaseMutationFence_def d1_run stmt_release_fence_def
          matches succeed_def throw_def split: if_splits) auto
    with Release_fence table_head_updates(4) [of now row "db_fences db site"] show ?thesis
      by (auto simp: in_force_d1_view simp flip: row_def split: option.split)
  qed (use portable in auto)
qed

end
