(* ===== verification/Runtime_Queue.thy ===== *)
theory Runtime_Queue
  imports Codebox_Prelude "HOL-Library.Multiset"
begin

text \<open>
  \<open>packages/runtime-cloudflare/src/queue-dispatch.ts\<close> and \<open>queue-batch.ts\<close>: the messages of the
  runtime queue, how they are recognised in a delivery, the queue policy, and how a batch of
  deliveries is turned into one execution per site.
\<close>

section \<open>Messages\<close>

datatype queue_kind = Operation_kind | Publication_kind

record runtime_queue_message =
  qm_siteId :: string
  qm_generation :: int
  qm_kind :: queue_kind
  qm_identity :: string

record runtime_queue_policy =
  maxActive :: int
  maxActivePerPrincipal :: int

definition RUNTIME_QUEUE_MESSAGE_SCHEMA :: string where
  "RUNTIME_QUEUE_MESSAGE_SCHEMA = ''wp-codebox/runtime-dispatch/v1''"

definition DEFAULT_RUNTIME_QUEUE_POLICY :: runtime_queue_policy where
  "DEFAULT_RUNTIME_QUEUE_POLICY = \<lparr>maxActive = 100, maxActivePerPrincipal = 10\<rparr>"

fun kind_name :: "queue_kind \<Rightarrow> string" where
  "kind_name Operation_kind = ''operation''"
| "kind_name Publication_kind = ''publication''"

definition is_hex :: "char \<Rightarrow> bool" where
  "is_hex c \<longleftrightarrow> is_digit c \<or> char_between (CHR ''a'') (CHR ''f'') c"

text \<open>\<open>/^[0-9a-f]{8}-(?:[0-9a-f]{4}-){3}[0-9a-f]{12}$/\<close>\<close>

definition operationIdentity :: "string \<Rightarrow> bool" where
  "operationIdentity s \<longleftrightarrow>
     map length (split_on (CHR ''-'') s) = [8, 4, 4, 4, 12]
     \<and> list_all (list_all is_hex) (split_on (CHR ''-'') s)"

text \<open>\<open>/^[a-z0-9][a-z0-9-]{0,127}$/\<close>\<close>

fun queue_site_id :: "string \<Rightarrow> bool" where
  "queue_site_id [] = False"
| "queue_site_id (c # cs) =
     ((is_lower c \<or> is_digit c) \<and> length cs \<le> 127 \<and> list_all (\<lambda>d. is_lower d \<or> is_digit d \<or> d = CHR ''-'') cs)"

text \<open>\<open>[0-9]{20}-[a-f0-9-]{36}\.json\<close>\<close>

definition publication_file :: "string \<Rightarrow> bool" where
  "publication_file s \<longleftrightarrow>
     length s = 62 \<and> list_all is_digit (take 20 s) \<and> s ! 20 = CHR ''-''
     \<and> list_all (\<lambda>c. is_hex c \<or> c = CHR ''-'') (take 36 (drop 21 s)) \<and> drop 57 s = ''.json''"

text \<open>The site that \<open>publicationIdentity\<close> captures, where it matches.\<close>

definition publicationIdentity :: "string \<Rightarrow> string option" where
  "publicationIdentity s =
     (case split_on (CHR ''/'') s of
        [a, site, b, c, file] \<Rightarrow>
          if a = ''sites'' \<and> queue_site_id site \<and> b = ''publications'' \<and> c = ''jobs'' \<and> publication_file file
          then Some site else None
      | _ \<Rightarrow> None)"

definition validRuntimeQueueIdentity :: "string \<Rightarrow> queue_kind \<Rightarrow> string \<Rightarrow> bool" where
  "validRuntimeQueueIdentity siteId kind identity =
     (case kind of
        Operation_kind \<Rightarrow> operationIdentity identity
      | Publication_kind \<Rightarrow> publicationIdentity identity = Some siteId)"

definition runtimeQueueMessage :: "string \<Rightarrow> jsval \<Rightarrow> queue_kind \<Rightarrow> string \<Rightarrow> string + runtime_queue_message" where
  "runtimeQueueMessage siteId generation kind identity =
     (case safe_integer generation of
        Some g \<Rightarrow>
          if queue_site_id siteId \<and> g \<ge> 1 \<and> validRuntimeQueueIdentity siteId kind identity
          then Inr \<lparr>qm_siteId = siteId, qm_generation = g, qm_kind = kind, qm_identity = identity\<rparr>
          else Inl ''Runtime queue dispatch identity is invalid.''
      | None \<Rightarrow> Inl ''Runtime queue dispatch identity is invalid.'')"

fun kind_of_name :: "jsval \<Rightarrow> queue_kind option" where
  "kind_of_name (JStr s) =
     (if s = ''operation'' then Some Operation_kind else if s = ''publication'' then Some Publication_kind else None)"
| "kind_of_name _ = None"

definition parseRuntimeQueueMessage :: "jsval \<Rightarrow> runtime_queue_message option" where
  "parseRuntimeQueueMessage value =
     (case value of
        JObj message \<Rightarrow>
          if js_get message ''schema'' \<noteq> JStr RUNTIME_QUEUE_MESSAGE_SCHEMA then None
          else
            (case (kind_of_name (js_get message ''kind''), js_get message ''siteId'',
                   safe_integer (js_get message ''generation''), js_get message ''identity'') of
               (Some kind, JStr siteId, Some g, JStr identity) \<Rightarrow>
                 if queue_site_id siteId \<and> g \<ge> 1 \<and> validRuntimeQueueIdentity siteId kind identity
                 then Some \<lparr>qm_siteId = siteId, qm_generation = g, qm_kind = kind, qm_identity = identity\<rparr>
                 else None
             | _ \<Rightarrow> None)
      | _ \<Rightarrow> None)"

text \<open>The JSON value a message is sent as.\<close>

definition message_json :: "runtime_queue_message \<Rightarrow> jsval" where
  "message_json m = JObj [(''schema'', JStr RUNTIME_QUEUE_MESSAGE_SCHEMA), (''siteId'', JStr (qm_siteId m)),
     (''generation'', JInt (qm_generation m)), (''kind'', JStr (kind_name (qm_kind m))),
     (''identity'', JStr (qm_identity m))]"

text \<open>
  The queue policy: \<open>parse\<close> is \<open>JSON.parse\<close>, \<open>None\<close> where it throws.  Reading a member of a
  parsed \<open>null\<close> throws the engine's own error.
\<close>

definition parseRuntimeQueuePolicy ::
    "(string \<Rightarrow> jsval option) \<Rightarrow> string option \<Rightarrow> string + runtime_queue_policy" where
  "parseRuntimeQueuePolicy parse value =
     (if value = None \<or> value = Some [] then Inr DEFAULT_RUNTIME_QUEUE_POLICY
      else
        (case parse (the value) of
           None \<Rightarrow> Inl ''Runtime queue policy is invalid.''
         | Some JNull \<Rightarrow> Inl ''Cannot read properties of null''
         | Some policy \<Rightarrow>
             (case (safe_integer (js_member policy ''maxActive''),
                    safe_integer (js_member policy ''maxActivePerPrincipal'')) of
                (Some n, Some k) \<Rightarrow>
                  if n < 1 \<or> n > 10000 \<or> k < 1 \<or> k > n then Inl ''Runtime queue policy is invalid.''
                  else Inr \<lparr>maxActive = n, maxActivePerPrincipal = k\<rparr>
              | _ \<Rightarrow> Inl ''Runtime queue policy is invalid.'')))"

definition message_wf :: "runtime_queue_message \<Rightarrow> bool" where
  "message_wf m \<longleftrightarrow> queue_site_id (qm_siteId m) \<and> 1 \<le> qm_generation m \<and> qm_generation m \<le> max_safe_integer
     \<and> validRuntimeQueueIdentity (qm_siteId m) (qm_kind m) (qm_identity m)"

lemma kind_of_kind_name [simp]: "kind_of_name (JStr (kind_name k)) = Some k"
  by (cases k) simp_all

lemma parse_message_json: "message_wf m \<Longrightarrow> parseRuntimeQueueMessage (message_json m) = Some m"
  by (cases "qm_kind m") (simp_all add: parseRuntimeQueueMessage_def message_json_def message_wf_def)

lemma parse_message_wf:
  assumes "parseRuntimeQueueMessage v = Some m"
  shows "message_wf m"
  using assms
  by (auto simp: parseRuntimeQueueMessage_def message_wf_def
      split: jsval.split_asm option.split_asm if_split_asm dest!: safe_integer_SomeD)

lemma runtimeQueueMessage_wf: "runtimeQueueMessage site g kind identity = Inr m \<Longrightarrow> message_wf m"
  by (auto simp: runtimeQueueMessage_def message_wf_def split: option.splits if_splits dest!: safe_integer_SomeD)

lemma policy_bounds:
  "parseRuntimeQueuePolicy parse v = Inr p \<Longrightarrow>
   1 \<le> maxActivePerPrincipal p \<and> maxActivePerPrincipal p \<le> maxActive p \<and> maxActive p \<le> 10000"
  by (auto simp: parseRuntimeQueuePolicy_def DEFAULT_RUNTIME_QUEUE_POLICY_def
      split: if_splits option.splits jsval.splits)

section \<open>Batches of deliveries\<close>

text \<open>
  A delivery is known by its position in the batch.  \<open>select\<close> and \<open>execute\<close> are the callbacks of
  \<open>dispatchQueueBatch\<close>; the lanes run concurrently, and since they share no delivery the outcomes are
  given here lane by lane.
\<close>

datatype execution_result = Ack_result | Retry_result | Retry_after_result int

datatype delivery_outcome = Acked | Retried | Retried_after int

type_synonym parsed_delivery = "nat \<times> runtime_queue_message"
type_synonym lanes = "(string \<times> parsed_delivery list) list"

fun lane_push :: "string \<Rightarrow> parsed_delivery \<Rightarrow> lanes \<Rightarrow> lanes" where
  "lane_push site d [] = [(site, [d])]"
| "lane_push site d ((s, ds) # rest) = (if s = site then (s, ds @ [d]) # rest else (s, ds) # lane_push site d rest)"

text \<open>The first loop: unparsed deliveries are acknowledged, the others join the lane of their site.\<close>

fun collect_lanes ::
    "('b \<Rightarrow> runtime_queue_message option) \<Rightarrow> nat \<Rightarrow> 'b list \<Rightarrow> lanes \<Rightarrow> (nat \<times> delivery_outcome) list
     \<Rightarrow> lanes \<times> (nat \<times> delivery_outcome) list" where
  "collect_lanes parse i [] lanes acks = (lanes, acks)"
| "collect_lanes parse i (body # bodies) lanes acks =
     (case parse body of
        None \<Rightarrow> collect_lanes parse (i + 1) bodies lanes (acks @ [(i, Acked)])
      | Some m \<Rightarrow> collect_lanes parse (i + 1) bodies (lane_push (qm_siteId m) (i, m) lanes) acks)"

fun outcome_of :: "execution_result \<Rightarrow> delivery_outcome" where
  "outcome_of Ack_result = Acked"
| "outcome_of Retry_result = Retried"
| "outcome_of (Retry_after_result n) = Retried_after n"

definition lane_outcomes ::
    "(string \<Rightarrow> parsed_delivery list \<Rightarrow> parsed_delivery option) \<Rightarrow> (parsed_delivery \<Rightarrow> execution_result)
     \<Rightarrow> string \<times> parsed_delivery list \<Rightarrow> (nat \<times> delivery_outcome) list" where
  "lane_outcomes select execute lane =
     (let selected = select (fst lane) (snd lane);
          retries = map (\<lambda>d. (fst d, Retried)) (filter (\<lambda>d. Some d \<noteq> selected) (snd lane))
      in case selected of
           None \<Rightarrow> retries
         | Some d \<Rightarrow> retries @ [(fst d, outcome_of (execute d))])"

definition dispatchQueueBatch ::
    "'b list \<Rightarrow> ('b \<Rightarrow> runtime_queue_message option)
     \<Rightarrow> (string \<Rightarrow> parsed_delivery list \<Rightarrow> parsed_delivery option) \<Rightarrow> (parsed_delivery \<Rightarrow> execution_result)
     \<Rightarrow> (nat \<times> delivery_outcome) list" where
  "dispatchQueueBatch deliveries parse select execute =
     (case collect_lanes parse 0 deliveries [] [] of
        (lanes, acks) \<Rightarrow> acks @ concat (map (lane_outcomes select execute) lanes))"

lemma mset_lane_push: "mset (concat (map snd (lane_push site d lanes))) = add_mset d (mset (concat (map snd lanes)))"
  by (induction site d lanes rule: lane_push.induct) auto

lemma lane_push_sites:
  "distinct (map fst lanes) \<Longrightarrow> distinct (map fst (lane_push site d lanes))
   \<and> set (map fst (lane_push site d lanes)) = insert site (set (map fst lanes))"
  by (induction site d lanes rule: lane_push.induct) auto

lemma lane_push_members:
  "\<forall>(s, ds) \<in> set lanes. \<forall>d \<in> set ds. qm_siteId (snd d) = s \<Longrightarrow> qm_siteId (snd d) = site \<Longrightarrow>
   \<forall>(s, ds) \<in> set (lane_push site d lanes). \<forall>d \<in> set ds. qm_siteId (snd d) = s"
  by (induction site d lanes rule: lane_push.induct) auto

lemma collect_lanes_wf:
  "collect_lanes parse i bodies lanes acks = (lanes', acks') \<Longrightarrow>
   distinct (map fst lanes) \<Longrightarrow> \<forall>(s, ds) \<in> set lanes. \<forall>d \<in> set ds. qm_siteId (snd d) = s \<Longrightarrow>
   distinct (map fst lanes') \<and> (\<forall>(s, ds) \<in> set lanes'. \<forall>d \<in> set ds. qm_siteId (snd d) = s)"
proof (induction parse i bodies lanes acks rule: collect_lanes.induct)
  case (2 parse i body bodies lanes acks)
  show ?case
  proof (cases "parse body")
    case None
    with 2 show ?thesis by simp
  next
    case (Some m)
    then show ?thesis
      using 2 lane_push_sites [of lanes "qm_siteId m" "(i, m)"] lane_push_members [of lanes "(i, m)" "qm_siteId m"]
      by simp
  qed
qed simp

lemma collect_lanes_positions:
  "collect_lanes parse i bodies lanes acks = (lanes', acks') \<Longrightarrow>
   image_mset fst (mset (concat (map snd lanes'))) + image_mset fst (mset acks') =
   image_mset fst (mset (concat (map snd lanes))) + image_mset fst (mset acks) + mset [i..<i + length bodies]"
proof (induction parse i bodies lanes acks rule: collect_lanes.induct)
  case (2 parse i body bodies lanes acks)
  have upt: "mset [i..<i + length (body # bodies)] = add_mset i (mset [i + 1..<i + 1 + length bodies])"
    by (subst upt_conv_Cons) (simp_all del: mset_upt)
  show ?case
  proof (cases "parse body")
    case None
    from 2(1) [OF None] 2(3) None show ?thesis unfolding upt by simp
  next
    case (Some m)
    have "image_mset fst (mset (concat (map snd (lane_push (qm_siteId m) (i, m) lanes))))
        = add_mset i (image_mset fst (mset (concat (map snd lanes))))"
      unfolding mset_lane_push by simp
    with 2(2) [OF Some] 2(3) Some show ?thesis unfolding upt by simp
  qed
qed simp

text \<open>Where \<open>select\<close> takes a delivery of the lane, each delivery of a lane gets exactly one outcome.\<close>

lemma lane_outcomes_positions:
  assumes "distinct ds" and "\<And>d. select s ds = Some d \<Longrightarrow> d \<in> set ds"
  shows "image_mset fst (mset (lane_outcomes select execute (s, ds))) = image_mset fst (mset ds)"
proof (cases "select s ds")
  case None
  then show ?thesis by (simp add: lane_outcomes_def image_mset.compositionality comp_def)
next
  case (Some d)
  from assms(2) [OF this] have "d \<in> set ds" .
  then have "add_mset d (mset (remove1 d ds)) = mset ds" by simp
  moreover have "remove1 d ds = filter (\<lambda>e. e \<noteq> d) ds"
    unfolding distinct_remove1_removeAll [OF assms(1)] removeAll_filter_not_eq by (rule filter_cong) auto
  ultimately have split: "add_mset d (mset (filter (\<lambda>e. e \<noteq> d) ds)) = mset ds" by simp
  have "image_mset fst (mset (lane_outcomes select execute (s, ds)))
      = image_mset fst (add_mset d (mset (filter (\<lambda>e. e \<noteq> d) ds)))"
    using Some by (simp add: lane_outcomes_def image_mset.compositionality comp_def)
  then show ?thesis by (simp only: split)
qed

text \<open>The deliveries that are executed.\<close>

definition executed_deliveries ::
    "'b list \<Rightarrow> ('b \<Rightarrow> runtime_queue_message option)
     \<Rightarrow> (string \<Rightarrow> parsed_delivery list \<Rightarrow> parsed_delivery option) \<Rightarrow> parsed_delivery list" where
  "executed_deliveries deliveries parse select =
     List.map_filter (\<lambda>lane. select (fst lane) (snd lane)) (fst (collect_lanes parse 0 deliveries [] []))"

lemma distinct_if_mset_upt:
  assumes "image_mset f (mset xs) + image_mset g (mset ys) = mset [0..<n]"
  shows "distinct (map f xs)"
proof -
  have "mset (map f xs @ map g ys) = mset [0..<n]" using assms by (simp del: mset_upt)
  then have "distinct (map f xs @ map g ys)" by (metis distinct_upt mset_eq_imp_distinct_iff)
  then show ?thesis by simp
qed

lemma batch_settles_all:
  assumes select: "\<And>s ds d. select s ds = Some d \<Longrightarrow> d \<in> set ds"
  shows "mset (map fst (dispatchQueueBatch deliveries parse select execute)) = mset [0..<length deliveries]"
proof -
  obtain lanes acks where collect: "collect_lanes parse 0 deliveries [] [] = (lanes, acks)" by fastforce
  have all: "image_mset fst (mset (concat (map snd lanes))) + image_mset fst (mset acks) = mset [0..<length deliveries]"
    using collect_lanes_positions [OF collect] by simp
  then have "distinct (map fst (concat (map snd lanes)))" by (rule distinct_if_mset_upt)
  then have distinct: "distinct (concat (map snd lanes))" by (simp add: distinct_map)
  have "image_mset fst (mset (concat (map (lane_outcomes select execute) lanes)))
      = image_mset fst (mset (concat (map snd lanes)))"
    using distinct
  proof (induction lanes)
    case (Cons lane lanes)
    obtain s ds where lane: "lane = (s, ds)" by fastforce
    have "image_mset fst (mset (lane_outcomes select execute (s, ds))) = image_mset fst (mset ds)"
      using Cons.prems lane by (intro lane_outcomes_positions select) auto
    with Cons lane show ?case by simp
  qed simp
  with all collect show ?thesis by (simp add: dispatchQueueBatch_def add.commute)
qed

lemma executed_one_per_site:
  assumes select: "\<And>s ds d. select s ds = Some d \<Longrightarrow> d \<in> set ds"
  shows "distinct (map (qm_siteId \<circ> snd) (executed_deliveries deliveries parse select))"
proof -
  obtain lanes acks where collect: "collect_lanes parse 0 deliveries [] [] = (lanes, acks)" by fastforce
  from collect_lanes_wf [OF collect] have "distinct (map fst lanes)"
    and "\<forall>(s, ds) \<in> set lanes. \<forall>d \<in> set ds. qm_siteId (snd d) = s" by auto
  then have "distinct (map (qm_siteId \<circ> snd) (List.map_filter (\<lambda>lane. select (fst lane) (snd lane)) lanes))
    \<and> set (map (qm_siteId \<circ> snd) (List.map_filter (\<lambda>lane. select (fst lane) (snd lane)) lanes)) \<subseteq> set (map fst lanes)"
  proof (induction lanes)
    case (Cons lane lanes)
    obtain s ds where lane: "lane = (s, ds)" by fastforce
    show ?case
    proof (cases "select s ds")
      case None
      with Cons lane show ?thesis by (auto simp: map_filter_simps)
    next
      case (Some d)
      with Cons lane select [OF Some] show ?thesis by (auto simp: map_filter_simps)
    qed
  qed (simp add: map_filter_simps)
  with collect show ?thesis by (simp add: executed_deliveries_def)
qed

section \<open>Properties of the queue\<close>

text \<open>
  What \<open>runtimeQueueMessage\<close> builds, once sent as JSON, is parsed back to the same message by
  the consumer; and whatever the consumer accepts has a valid site, generation and identity.
\<close>

lemma queue_message_roundtrip:
  assumes "runtimeQueueMessage site g kind identity = Inr m"
  shows "parseRuntimeQueueMessage (message_json m) = Some m
    \<and> (parseRuntimeQueueMessage v = Some m' \<longrightarrow> message_wf m')"
  using parse_message_json [OF runtimeQueueMessage_wf [OF assms]] parse_message_wf by blast

lemma queue_message_roundtrip_sample:
  "parseRuntimeQueueMessage (message_json \<lparr>qm_siteId = ''s1'', qm_generation = 1, qm_kind = Operation_kind,
      qm_identity = ''00000000-0000-4000-8000-00000000000a''\<rparr>) = Some \<lparr>qm_siteId = ''s1'', qm_generation = 1,
      qm_kind = Operation_kind, qm_identity = ''00000000-0000-4000-8000-00000000000a''\<rparr>"
proof -
  have "runtimeQueueMessage ''s1'' (JInt 1) Operation_kind ''00000000-0000-4000-8000-00000000000a'' =
      Inr \<lparr>qm_siteId = ''s1'', qm_generation = 1, qm_kind = Operation_kind,
        qm_identity = ''00000000-0000-4000-8000-00000000000a''\<rparr>"
    by (simp add: runtimeQueueMessage_def max_safe_integer_def is_lower_def is_digit_def char_between_def
        validRuntimeQueueIdentity_def operationIdentity_def is_hex_def)
  from queue_message_roundtrip [OF this] show ?thesis by blast
qed

text \<open>
  A policy that is accepted bounds the active dispatches of a principal by those of the runtime,
  and these by ten thousand.
\<close>

lemma queue_policy_bounds:
  assumes "parseRuntimeQueuePolicy parse v = Inr p"
  shows "1 \<le> maxActivePerPrincipal p \<and> maxActivePerPrincipal p \<le> maxActive p \<and> maxActive p \<le> 10000"
  by (rule policy_bounds [OF assms])

lemma default_queue_policy_bounds:
  "maxActivePerPrincipal (DEFAULT_RUNTIME_QUEUE_POLICY) \<le> maxActive (DEFAULT_RUNTIME_QUEUE_POLICY)"
  using queue_policy_bounds [of "\<lambda>_. None" None DEFAULT_RUNTIME_QUEUE_POLICY]
  by (simp add: parseRuntimeQueuePolicy_def)



end
