(* ===== verification/Operation_Tables.thy ===== *)
theory Operation_Tables
  imports Sql_Table Revision_Contract Runtime_Queue "HOL-Library.List_Lexorder" "HOL-Library.Product_Lexorder"
begin

text \<open>
  The D1 tables that \<open>d1-operation-repository.ts\<close> and \<open>allocation-lifecycle.ts\<close> of
  \<open>packages/runtime-cloudflare/src\<close> share: sites, their lifecycles, operations with their attempts,
  runtime dispatches with their dead letters, and the fairness turn of each site.  A moment written as
  an ISO string is kept as the moment, and JSON text as the value it encodes.
\<close>

section \<open>Rows\<close>

record site_context =
  ctx_id :: string
  ctx_hostname :: string
  ctx_origin :: string

record site_row =
  sr_id :: string
  sr_hostname :: string
  sr_origin :: string
  sr_generation :: int

datatype lifecycle_state = Lifecycle_active | Deleting | Tombstoned

record deletion_receipt =
  dr_siteId :: string
  dr_generation :: int
  dr_deletedObjects :: int
  dr_deletedBytes :: int
  dr_deletedRecords :: int
  dr_startedAt :: int
  dr_completedAt :: int

record lifecycle_row =
  lc_site :: string
  lc_generation :: int
  lc_principal :: string
  lc_state :: lifecycle_state
  lc_expires_at :: int
  lc_retain_until :: int
  lc_mutation_fence :: int
  lc_operation_fence :: int
  lc_cursor :: "string option"
  lc_deleted_objects :: int
  lc_deleted_bytes :: int
  lc_deleted_records :: int
  lc_receipt :: "deletion_receipt option"
  lc_terminal_at :: "int option"
  lc_updated_at :: int

datatype operation_state = Queued | Running | Retryable | Publication_pending | Succeeded | Failed

record operation_input =
  in_key :: string
  in_fingerprint :: string
  in_r2Key :: string
  in_sha256 :: string
  in_size :: int
  in_slug :: string
  in_name :: string
  in_siteTitle :: string

datatype publication_status =
    Publication_none
  | Publication_waits string
  | Publication_promoted string string
  | Publication_superseded string
  | Publication_orphaned string

record operation_receipt =
  rc_input :: operation_input
  rc_result :: jsval
  rc_pointer :: markdown_pointer
  rc_version :: int
  rc_publication :: publication_status
  rc_siteUrl :: string
  rc_canonicalCompletedAt :: int
  rc_terminalCompletedAt :: "int option"

record operation_row =
  op_site :: string
  op_id :: string
  op_input :: operation_input
  op_allocation_fence :: "int option"
  op_state :: operation_state
  op_stage :: string
  op_progress :: int
  op_attempts :: int
  op_retry_at :: "int option"
  op_claim_token :: "string option"
  op_claim_expires :: "int option"
  op_prepared_version :: "int option"
  op_prepared_revision :: "string option"
  op_prepared_manifest_key :: "string option"
  op_prepared_persisted_at :: "string option"
  op_prepared_result :: "jsval option"
  op_prepared_job :: "string option"
  op_receipt :: "operation_receipt option"
  op_error_code :: "string option"
  op_error_message :: "string option"
  op_created_at :: int
  op_updated_at :: int
  op_completed_at :: "int option"

record attempt_row =
  at_site :: string
  at_op :: string
  at_number :: int
  at_token :: string
  at_started :: int
  at_completed :: "int option"
  at_state :: operation_state
  at_stage :: string
  at_error_code :: "string option"
  at_error_message :: "string option"

datatype dispatch_state = Backpressured | Pending | Sent | Processing | Dispatch_retryable | Done | Dead_letter

record dispatch_row =
  ds_site :: string
  ds_generation :: int
  ds_kind :: queue_kind
  ds_identity :: string
  ds_principal :: string
  ds_state :: dispatch_state
  ds_attempts :: int
  ds_last_error :: "string option"
  ds_retry_at :: "int option"
  ds_sent_at :: "int option"
  ds_processing_at :: "int option"
  ds_completed_at :: "int option"
  ds_updated_at :: int

record dead_letter_row =
  dl_site :: string
  dl_generation :: int
  dl_kind :: queue_kind
  dl_identity :: string
  dl_attempts :: int
  dl_input_digest :: string
  dl_last_error :: string
  dl_recovery_command :: string
  dl_recorded_at :: int

record runtime_db =
  rt_sites :: "site_row list"
  rt_lifecycles :: "lifecycle_row list"
  rt_deletion_receipts :: "deletion_receipt list"
  rt_operations :: "operation_row list"
  rt_attempts :: "attempt_row list"
  rt_dispatches :: "dispatch_row list"
  rt_dead_letters :: "dead_letter_row list"
  rt_fairness :: "string \<Rightarrow> queue_kind option"

datatype operation_error = OperationConflict string | ConstraintFailure | OperationFailure string | NonError

type_synonym 'a runtime_action = "(runtime_db, operation_error, 'a) action"
type_synonym runtime_statement = "runtime_db \<Rightarrow> nat \<times> runtime_db"

text \<open>
  An \<open>OperationConflict\<close>, a constraint failure of the database, another \<open>Error\<close>, or a thrown value that
  is none: what \<open>sanitizeError\<close> distinguishes, and the message it takes.
\<close>

fun error_message :: "operation_error \<Rightarrow> string" where
  "error_message (OperationConflict m) = m"
| "error_message ConstraintFailure = ''UNIQUE constraint failed''"
| "error_message (OperationFailure m) = m"
| "error_message NonError = ''Operation failed.''"

section \<open>Keys, joins and conditions\<close>

definition operation_key :: "operation_row \<Rightarrow> string \<times> string" where
  "operation_key w = (op_site w, op_id w)"

definition idempotency_key :: "operation_row \<Rightarrow> string \<times> string" where
  "idempotency_key w = (op_site w, in_key (op_input w))"

definition attempt_key :: "attempt_row \<Rightarrow> string \<times> string \<times> int" where
  "attempt_key a = (at_site a, at_op a, at_number a)"

definition lifecycle_key :: "lifecycle_row \<Rightarrow> string \<times> int" where
  "lifecycle_key l = (lc_site l, lc_generation l)"

definition dispatch_key :: "dispatch_row \<Rightarrow> string \<times> int \<times> queue_kind \<times> string" where
  "dispatch_key d = (ds_site d, ds_generation d, ds_kind d, ds_identity d)"

definition site_of :: "runtime_db \<Rightarrow> string \<Rightarrow> site_row option" where
  "site_of db siteId = find (\<lambda>s. sr_id s = siteId) (rt_sites db)"

definition lifecycle_at :: "runtime_db \<Rightarrow> string \<Rightarrow> int \<Rightarrow> lifecycle_row option" where
  "lifecycle_at db siteId generation =
     find (\<lambda>l. lc_site l = siteId \<and> lc_generation l = generation) (rt_lifecycles db)"

text \<open>\<open>activeLifecycle\<close>: the operation's site exists, and its lifecycle, if any, is active with the operation's fence.\<close>

definition activeLifecycle :: "runtime_db \<Rightarrow> int \<Rightarrow> operation_row \<Rightarrow> bool" where
  "activeLifecycle db now w =
     (case site_of db (op_site w) of
        None \<Rightarrow> False
      | Some s \<Rightarrow>
          (case lifecycle_at db (sr_id s) (sr_generation s) of
             None \<Rightarrow> True
           | Some l \<Rightarrow> lc_state l = Lifecycle_active \<and> lc_expires_at l > now
                       \<and> op_allocation_fence w = Some (lc_operation_fence l)))"

text \<open>The states of the unique index \<open>wp_codebox_one_active_operation\<close>, and the claimable rows.\<close>

definition op_active :: "operation_row \<Rightarrow> bool" where
  "op_active w \<longleftrightarrow> op_state w \<in> {Queued, Running, Retryable}"

definition sql_due :: "int option \<Rightarrow> int \<Rightarrow> bool" where
  "sql_due x now = (case x of None \<Rightarrow> False | Some i \<Rightarrow> i \<le> now)"

definition claimable :: "int \<Rightarrow> operation_row \<Rightarrow> bool" where
  "claimable now w \<longleftrightarrow> op_state w = Queued \<or> op_state w = Retryable \<and> sql_due (op_retry_at w) now
     \<or> op_state w = Running \<and> sql_due (op_claim_expires w) now"

text \<open>\<open>state = 'running' AND claim_token = ? AND claim_expires_at > ?\<close>\<close>

definition owned_by :: "string \<Rightarrow> int \<Rightarrow> operation_row \<Rightarrow> bool" where
  "owned_by token now w \<longleftrightarrow> op_state w = Running \<and> op_claim_token w = Some token
     \<and> (case op_claim_expires w of None \<Rightarrow> False | Some e \<Rightarrow> e > now)"

lemma owned_not_claimable: "owned_by token now w \<Longrightarrow> \<not> claimable now w"
  by (auto simp: owned_by_def claimable_def sql_due_def split: option.splits)

section \<open>Well-formed tables\<close>

text \<open>
  The primary keys and unique indexes of the schema; a running operation has a claim and one open
  attempt with its token, and no other operation has a claim; attempts are numbered from one up to
  the operation's count.
\<close>

definition open_attempts :: "runtime_db \<Rightarrow> string \<Rightarrow> string \<Rightarrow> string \<Rightarrow> attempt_row list" where
  "open_attempts db siteId operationId token =
     filter (\<lambda>a. at_site a = siteId \<and> at_op a = operationId \<and> at_token a = token \<and> at_completed a = None)
       (rt_attempts db)"

definition operation_wf :: "runtime_db \<Rightarrow> operation_row \<Rightarrow> bool" where
  "operation_wf db w \<longleftrightarrow>
     (op_state w = Running \<longleftrightarrow> op_claim_token w \<noteq> None)
     \<and> (op_claim_token w = None \<longleftrightarrow> op_claim_expires w = None)
     \<and> (\<forall>token. op_claim_token w = Some token \<longrightarrow> length (open_attempts db (op_site w) (op_id w) token) = 1)
     \<and> 0 \<le> op_attempts w"

definition attempt_wf :: "runtime_db \<Rightarrow> attempt_row \<Rightarrow> bool" where
  "attempt_wf db a \<longleftrightarrow> (\<forall>w \<in> set (rt_operations db).
     operation_key w = (at_site a, at_op a) \<longrightarrow> 1 \<le> at_number a \<and> at_number a \<le> op_attempts w)
     \<and> (at_site a, at_op a) \<in> operation_key ` set (rt_operations db)"

definition one_active :: "operation_row list \<Rightarrow> bool" where
  "one_active rows \<longleftrightarrow> (\<forall>siteId. length (filter (\<lambda>w. op_site w = siteId \<and> op_active w) rows) \<le> 1)"

definition repository_wf :: "runtime_db \<Rightarrow> bool" where
  "repository_wf db \<longleftrightarrow>
     unique_by operation_key (rt_operations db) \<and> unique_by idempotency_key (rt_operations db)
     \<and> one_active (rt_operations db) \<and> unique_by attempt_key (rt_attempts db)
     \<and> (\<forall>w \<in> set (rt_operations db). operation_wf db w) \<and> (\<forall>a \<in> set (rt_attempts db). attempt_wf db a)"

definition empty_runtime_db :: runtime_db where
  "empty_runtime_db = \<lparr>rt_sites = [], rt_lifecycles = [], rt_deletion_receipts = [], rt_operations = [],
     rt_attempts = [], rt_dispatches = [], rt_dead_letters = [], rt_fairness = (\<lambda>_. None)\<rparr>"

lemma repository_wf_empty [simp]: "repository_wf empty_runtime_db"
  by (simp add: repository_wf_def empty_runtime_db_def unique_by_def one_active_def)

end
