(* ===== verification/Operation_Repository.thy ===== *)
theory Operation_Repository
  imports Operation_Tables
begin

text \<open>
  The operations of \<open>D1OperationRepository\<close> (\<open>packages/runtime-cloudflare/src/d1-operation-repository.ts\<close>):
  creating an operation or converging on the one its key is bound to, claiming it, working under the
  claim, finishing it, and reconciling its publication.  Each method composes its SQL statements;
  the properties are proved statement by statement and then for the methods.
\<close>

section \<open>What the repository returns\<close>

record operation_attempt =
  oa_number :: int
  oa_startedAt :: int
  oa_completedAt :: "int option"
  oa_state :: operation_state
  oa_stage :: string
  oa_error :: "(string \<times> string) option"

record prepared_commit =
  pc_version :: int
  pc_pointer :: markdown_pointer
  pc_ssiResult :: jsval
  pc_publicationJobKey :: "string option"

record static_operation =
  so_site :: site_context
  so_operationId :: string
  so_state :: operation_state
  so_input :: operation_input
  so_attempts :: int
  so_attemptHistory :: "operation_attempt list"
  so_stage :: string
  so_progress :: int
  so_retryAt :: "int option"
  so_claimExpiresAt :: "int option"
  so_prepared :: "prepared_commit option"
  so_error :: "(string \<times> string) option"
  so_receipt :: "operation_receipt option"

definition shouldRecoverPreparedCommit :: "prepared_commit option \<Rightarrow> markdown_pointer option \<Rightarrow> bool" where
  "shouldRecoverPreparedCommit prepared committed =
     (case (prepared, committed) of
        (Some p, Some c) \<Rightarrow> revision (pc_pointer p) = revision c \<and> manifestKey (pc_pointer p) = manifestKey c
                            \<and> persistedAt (pc_pointer p) = persistedAt c
      | _ \<Rightarrow> False)"

text \<open>A string column is truthy when it is neither null nor empty.\<close>

definition truthy_column :: "string option \<Rightarrow> string option" where
  "truthy_column x = (case x of None \<Rightarrow> None | Some s \<Rightarrow> if s = [] then None else Some s)"

definition error_of_columns :: "string option \<Rightarrow> string option \<Rightarrow> (string \<times> string) option" where
  "error_of_columns code message =
     (case truthy_column code of
        None \<Rightarrow> None
      | Some c \<Rightarrow> Some (c, case message of None \<Rightarrow> ''Operation failed.'' | Some m \<Rightarrow> m))"

definition attempt_of_row :: "attempt_row \<Rightarrow> operation_attempt" where
  "attempt_of_row a = \<lparr>oa_number = at_number a, oa_startedAt = at_started a, oa_completedAt = at_completed a,
     oa_state = at_state a, oa_stage = at_stage a, oa_error = error_of_columns (at_error_code a) (at_error_message a)\<rparr>"

definition prepared_of_row :: "operation_row \<Rightarrow> prepared_commit option" where
  "prepared_of_row row =
     (case (op_prepared_version row, truthy_column (op_prepared_revision row),
            truthy_column (op_prepared_manifest_key row), truthy_column (op_prepared_persisted_at row),
            op_prepared_result row) of
        (Some v, Some r, Some m, Some p, Some result) \<Rightarrow>
          Some \<lparr>pc_version = v, pc_pointer = \<lparr>revision = r, manifestKey = m, persistedAt = p\<rparr>,
                pc_ssiResult = result, pc_publicationJobKey = op_prepared_job row\<rparr>
      | _ \<Rightarrow> None)"

definition operationFromRow :: "site_row \<Rightarrow> operation_row \<Rightarrow> attempt_row list \<Rightarrow> static_operation" where
  "operationFromRow site row attempts =
     \<lparr>so_site = \<lparr>ctx_id = op_site row, ctx_hostname = sr_hostname site, ctx_origin = sr_origin site\<rparr>,
      so_operationId = op_id row, so_state = op_state row, so_input = op_input row, so_attempts = op_attempts row,
      so_attemptHistory = map attempt_of_row attempts, so_stage = op_stage row, so_progress = op_progress row,
      so_retryAt = op_retry_at row, so_claimExpiresAt = op_claim_expires row, so_prepared = prepared_of_row row,
      so_error = error_of_columns (op_error_code row) (op_error_message row), so_receipt = op_receipt row\<rparr>"

text \<open>\<open>hydrate\<close>: the ten latest attempts, newest first.\<close>

definition op_hydrate :: "site_row \<Rightarrow> operation_row \<Rightarrow> runtime_db \<Rightarrow> static_operation" where
  "op_hydrate site row db =
     operationFromRow site row
       (take 10 (sql_select (\<lambda>a. at_site a = op_site row \<and> at_op a = op_id row) (\<lambda>a. - at_number a) (rt_attempts db)))"

text \<open>\<open>operationSelect\<close> joins the operation with its site.\<close>

definition op_select :: "(operation_row \<Rightarrow> bool) \<Rightarrow> runtime_db \<Rightarrow> static_operation option" where
  "op_select condition db =
     (case find (\<lambda>w. condition w \<and> site_of db (op_site w) \<noteq> None) (rt_operations db) of
        None \<Rightarrow> None
      | Some w \<Rightarrow> map_option (\<lambda>s. op_hydrate s w db) (site_of db (op_site w)))"

definition op_get :: "string \<Rightarrow> string \<Rightarrow> static_operation option runtime_action" where
  "op_get siteId operationId = query (op_select (\<lambda>w. op_site w = siteId \<and> op_id w = operationId))"

definition op_byKey :: "string \<Rightarrow> string \<Rightarrow> static_operation option runtime_action" where
  "op_byKey siteId key = query (op_select (\<lambda>w. op_site w = siteId \<and> in_key (op_input w) = key))"

definition activeSites :: "runtime_db \<Rightarrow> site_context list" where
  "activeSites db =
     map (\<lambda>s. \<lparr>ctx_id = sr_id s, ctx_hostname = sr_hostname s, ctx_origin = sr_origin s\<rparr>)
       (sql_select (\<lambda>s. case lifecycle_at db (sr_id s) (sr_generation s) of
                          None \<Rightarrow> True | Some l \<Rightarrow> lc_state l = Lifecycle_active) sr_id (rt_sites db))"

definition truncate_message :: "string \<Rightarrow> string" where
  "truncate_message s =
     take 500 (map (\<lambda>c. if c \<in> {CHR 0x0D, CHR 0x0A, CHR 0x09} then CHR '' '' else c) s)"

definition sanitizeError :: "operation_error \<Rightarrow> string \<times> string" where
  "sanitizeError err =
     ((case err of OperationConflict _ \<Rightarrow> ''conflict'' | _ \<Rightarrow> ''execution_failed''),
      truncate_message (error_message err))"

section \<open>Registering a site and creating an operation\<close>

definition stmt_register :: "site_context \<Rightarrow> runtime_statement" where
  "stmt_register site db =
     (if site_of db (ctx_id site) \<noteq> None \<or> (\<exists>s \<in> set (rt_sites db). sr_hostname s = ctx_hostname site) then (0, db)
      else (1, db\<lparr>rt_sites := rt_sites db @ [\<lparr>sr_id = ctx_id site, sr_hostname = ctx_hostname site,
                    sr_origin = ctx_origin site, sr_generation = 1\<rparr>]\<rparr>))"

definition registerSite :: "site_context \<Rightarrow> unit runtime_action" where
  "registerSite site =
     and_then (execute (stmt_register site)) (\<lambda>_.
     and_then (query (\<lambda>db. site_of db (ctx_id site))) (\<lambda>registered.
       case registered of
         None \<Rightarrow> throw (OperationFailure ''D1 site registration was not observable.'')
       | Some s \<Rightarrow>
           require (sr_hostname s = ctx_hostname site \<and> sr_origin s = ctx_origin site)
             (OperationConflict ''The configured site identity conflicts with its registered D1 site.'')))"

definition new_operation :: "string \<Rightarrow> string \<Rightarrow> operation_input \<Rightarrow> int option \<Rightarrow> int \<Rightarrow> operation_row" where
  "new_operation siteId uuid input fence now =
     \<lparr>op_site = siteId, op_id = uuid, op_input = input, op_allocation_fence = fence, op_state = Queued,
      op_stage = ''created'', op_progress = 0, op_attempts = 0, op_retry_at = None, op_claim_token = None,
      op_claim_expires = None, op_prepared_version = None, op_prepared_revision = None,
      op_prepared_manifest_key = None, op_prepared_persisted_at = None, op_prepared_result = None,
      op_prepared_job = None, op_receipt = None, op_error_code = None, op_error_message = None,
      op_created_at = now, op_updated_at = now, op_completed_at = None\<rparr>"

text \<open>
  The \<open>INSERT ... SELECT\<close> of \<open>createOrConverge\<close>: no row when the site's lifecycle is not active any
  more, a constraint failure when a key is taken or another operation of the site is active.
\<close>

definition site_lifecycle :: "runtime_db \<Rightarrow> string \<Rightarrow> lifecycle_row option" where
  "site_lifecycle db siteId =
     (case site_of db siteId of None \<Rightarrow> None | Some s \<Rightarrow> lifecycle_at db (sr_id s) (sr_generation s))"

definition insert_operation :: "string \<Rightarrow> string \<Rightarrow> operation_input \<Rightarrow> int \<Rightarrow> nat runtime_action" where
  "insert_operation siteId uuid input now db =
     (let lifecycle = site_lifecycle db siteId;
          row = new_operation siteId uuid input (map_option lc_operation_fence lifecycle) now
      in
      if \<not> (case lifecycle of None \<Rightarrow> True | Some l \<Rightarrow> lc_state l = Lifecycle_active \<and> lc_expires_at l > now)
      then (Inr 0, db)
      else if operation_key row \<in> operation_key ` set (rt_operations db)
           \<or> idempotency_key row \<in> idempotency_key ` set (rt_operations db)
           \<or> (\<exists>w \<in> set (rt_operations db). op_site w = siteId \<and> op_active w)
      then (Inl ConstraintFailure, db)
      else (Inr 1, db\<lparr>rt_operations := rt_operations db @ [row]\<rparr>))"

text \<open>A \<open>try\<close> block: the handler runs in the state the block left.\<close>

definition recover :: "('s, 'e, 'a) action \<Rightarrow> ('e \<Rightarrow> ('s, 'e, 'a) action) \<Rightarrow> ('s, 'e, 'a) action" where
  "recover m handler s = (case m s of (Inl e, t) \<Rightarrow> handler e t | (Inr x, t) \<Rightarrow> (Inr x, t))"

definition create_conflict :: "string \<Rightarrow> operation_input \<Rightarrow> operation_error \<Rightarrow> (static_operation \<times> bool) option runtime_action" where
  "create_conflict siteId input err =
     and_then (op_byKey siteId (in_key input)) (\<lambda>raced.
       case raced of
         Some r \<Rightarrow>
           if in_fingerprint (so_input r) = in_fingerprint input then succeed (Some (r, False))
           else throw (OperationConflict ''The idempotency key is already bound to a different immutable input.'')
       | None \<Rightarrow>
           and_then (query (\<lambda>db. \<exists>w \<in> set (rt_operations db). op_site w = siteId \<and> op_active w)) (\<lambda>active.
             if active then throw (OperationConflict ''A mutating operation is already active for this site.'')
             else throw err))"

text \<open>The insertion with its handler, once no operation with the key was found.\<close>

definition createNew :: "string \<Rightarrow> operation_input \<Rightarrow> string \<Rightarrow> int \<Rightarrow> (static_operation \<times> bool) runtime_action" where
  "createNew siteId input uuid now =
     and_then
       (recover
          (and_then (insert_operation siteId uuid input now) (\<lambda>created.
             if created \<noteq> 1 then throw (OperationConflict ''The allocation is no longer active.'')
             else succeed None))
          (create_conflict siteId input))
       (\<lambda>raced. case raced of
          Some answer \<Rightarrow> succeed answer
        | None \<Rightarrow>
            and_then (op_byKey siteId (in_key input)) (\<lambda>operation.
              case operation of
                None \<Rightarrow> throw (OperationFailure ''D1 operation insert was not observable.'')
              | Some w \<Rightarrow> succeed (w, True)))"

definition createOrConverge ::
    "site_context \<Rightarrow> operation_input \<Rightarrow> string \<Rightarrow> int \<Rightarrow> (static_operation \<times> bool) runtime_action" where
  "createOrConverge site input uuid now =
     and_then (registerSite site) (\<lambda>_.
     and_then (op_byKey (ctx_id site) (in_key input)) (\<lambda>existing.
       case existing of
         Some e \<Rightarrow>
           if in_fingerprint (so_input e) \<noteq> in_fingerprint input
           then throw (OperationConflict ''The idempotency key is already bound to a different immutable input.'')
           else succeed (e, False)
       | None \<Rightarrow> createNew (ctx_id site) input uuid now))"

section \<open>Claims\<close>

definition claim_row :: "string \<Rightarrow> int \<Rightarrow> int \<Rightarrow> operation_row \<Rightarrow> operation_row" where
  "claim_row token expiresAt now w = w\<lparr>op_state := Running, op_stage := ''claimed'', op_claim_token := Some token,
     op_claim_expires := Some expiresAt, op_attempts := op_attempts w + 1, op_retry_at := None,
     op_error_code := None, op_error_message := None, op_updated_at := now\<rparr>"

definition update_operations :: "(runtime_db \<Rightarrow> operation_row \<Rightarrow> bool) \<Rightarrow> (operation_row \<Rightarrow> operation_row) \<Rightarrow> runtime_statement" where
  "update_operations condition change db =
     (case sql_update (condition db) change (rt_operations db) of
        (n, rows) \<Rightarrow> (n, db\<lparr>rt_operations := rows\<rparr>))"

definition stmt_claim :: "string \<Rightarrow> string \<Rightarrow> string \<Rightarrow> int \<Rightarrow> int \<Rightarrow> runtime_statement" where
  "stmt_claim siteId operationId token expiresAt now =
     update_operations
       (\<lambda>db w. op_site w = siteId \<and> op_id w = operationId \<and> claimable now w \<and> activeLifecycle db now w)
       (claim_row token expiresAt now)"

definition attempt_for :: "string \<Rightarrow> int \<Rightarrow> operation_row \<Rightarrow> attempt_row" where
  "attempt_for token now w = \<lparr>at_site = op_site w, at_op = op_id w, at_number = op_attempts w, at_token = token,
     at_started = now, at_completed = None, at_state = Running, at_stage = ''claimed'',
     at_error_code = None, at_error_message = None\<rparr>"

text \<open>The batch of both claims; a duplicate attempt number rolls it back.\<close>

definition claim_batch :: "string \<Rightarrow> string \<Rightarrow> string \<Rightarrow> int \<Rightarrow> int \<Rightarrow> (nat \<times> nat) runtime_action" where
  "claim_batch siteId operationId token expiresAt now db =
     (case stmt_claim siteId operationId token expiresAt now db of
        (n, db1) \<Rightarrow>
          let rows = map (attempt_for token now)
                (filter (\<lambda>w. op_site w = siteId \<and> op_id w = operationId \<and> op_state w = Running
                             \<and> op_claim_token w = Some token \<and> op_claim_expires w = Some expiresAt)
                   (rt_operations db1))
          in if distinct (map attempt_key (rt_attempts db1 @ rows))
             then (Inr (n, length rows), db1\<lparr>rt_attempts := rt_attempts db1 @ rows\<rparr>)
             else (Inl ConstraintFailure, db))"

definition claimExact ::
    "int \<Rightarrow> string \<Rightarrow> string \<Rightarrow> string \<Rightarrow> int \<Rightarrow> (static_operation \<times> string) option runtime_action" where
  "claimExact claimMs siteId operationId token now =
     and_then (claim_batch siteId operationId token (now + claimMs) now) (\<lambda>(updated, attempted).
       if updated \<noteq> 1 then succeed None
       else if attempted \<noteq> 1
       then throw (OperationConflict ''Operation attempt creation did not match its claim.'')
       else
         and_then (op_get siteId operationId) (\<lambda>operation.
           case operation of
             None \<Rightarrow> throw (OperationFailure ''Claimed operation is unavailable.'')
           | Some w \<Rightarrow> succeed (Some (w, token))))"

definition claimOperation ::
    "int \<Rightarrow> string \<Rightarrow> string \<Rightarrow> string \<Rightarrow> int \<Rightarrow> (static_operation \<times> string) option runtime_action" where
  "claimOperation claimMs siteId operationId token now =
     and_then (query (\<lambda>db. find (\<lambda>w. op_site w = siteId \<and> op_id w = operationId \<and> claimable now w) (rt_operations db)))
       (\<lambda>candidate. case candidate of
          None \<Rightarrow> succeed None
        | Some _ \<Rightarrow> claimExact claimMs siteId operationId token now)"

text \<open>\<open>claimNext\<close> takes the oldest claimable operation of a site whose lifecycle is active.\<close>

definition claim_candidates :: "string \<Rightarrow> int \<Rightarrow> runtime_db \<Rightarrow> operation_row list" where
  "claim_candidates siteId now db =
     sql_select (\<lambda>w. op_site w = siteId \<and> site_of db siteId \<noteq> None
         \<and> (case site_lifecycle db siteId of None \<Rightarrow> True | Some l \<Rightarrow> lc_state l = Lifecycle_active)
         \<and> claimable now w)
       op_created_at (rt_operations db)"

definition claimNext ::
    "int \<Rightarrow> string \<Rightarrow> string \<Rightarrow> int \<Rightarrow> (static_operation \<times> string) option runtime_action" where
  "claimNext claimMs siteId token now =
     and_then (query (claim_candidates siteId now)) (\<lambda>candidates.
       case candidates of
         [] \<Rightarrow> succeed None
       | w # _ \<Rightarrow> claimExact claimMs siteId (op_id w) token now)"

section \<open>Working under a claim\<close>

definition stmt_owned ::
    "string \<Rightarrow> string \<Rightarrow> string \<Rightarrow> (operation_row \<Rightarrow> operation_row) \<Rightarrow> int \<Rightarrow> runtime_statement" where
  "stmt_owned siteId operationId token change now =
     update_operations
       (\<lambda>db w. op_site w = siteId \<and> op_id w = operationId \<and> owned_by token now w \<and> activeLifecycle db now w)
       change"

definition ownedUpdate ::
    "string \<Rightarrow> string \<Rightarrow> string \<Rightarrow> (operation_row \<Rightarrow> operation_row) \<Rightarrow> int \<Rightarrow> unit runtime_action" where
  "ownedUpdate siteId operationId token change now =
     and_then (execute (stmt_owned siteId operationId token change now)) (\<lambda>changes.
       if changes \<noteq> 1 then throw (OperationConflict ''Operation claim expired or changed.'') else succeed ())"

definition renew_row :: "int \<Rightarrow> int \<Rightarrow> operation_row \<Rightarrow> operation_row" where
  "renew_row claimMs now w = w\<lparr>op_claim_expires := Some (now + claimMs), op_updated_at := now\<rparr>"

definition checkpoint_row :: "string \<Rightarrow> int \<Rightarrow> int \<Rightarrow> operation_row \<Rightarrow> operation_row" where
  "checkpoint_row stage progress now w = w\<lparr>op_stage := stage, op_progress := progress, op_updated_at := now\<rparr>"

definition prepare_row :: "int \<Rightarrow> markdown_pointer \<Rightarrow> jsval \<Rightarrow> string option \<Rightarrow> int \<Rightarrow> operation_row \<Rightarrow> operation_row" where
  "prepare_row version pointer ssiResult jobKey now w =
     w\<lparr>op_prepared_version := Some version, op_prepared_revision := Some (revision pointer),
       op_prepared_manifest_key := Some (manifestKey pointer), op_prepared_persisted_at := Some (persistedAt pointer),
       op_prepared_result := Some ssiResult, op_prepared_job := jobKey, op_stage := ''prepared-commit'',
       op_progress := 85, op_updated_at := now\<rparr>"

definition commit_row :: "int \<Rightarrow> operation_row \<Rightarrow> operation_row" where
  "commit_row now w = w\<lparr>op_stage := ''committed'', op_progress := 90, op_updated_at := now\<rparr>"

text \<open>The methods; \<open>now\<close> is read for the values and \<open>now'\<close> for the guard.  \<open>undefined\<close> has no JSON
  text and cannot be bound to a statement.\<close>

definition op_renew :: "int \<Rightarrow> string \<Rightarrow> string \<Rightarrow> string \<Rightarrow> int \<Rightarrow> int \<Rightarrow> unit runtime_action" where
  "op_renew claimMs siteId operationId token now now' =
     ownedUpdate siteId operationId token (renew_row claimMs now) now'"

text \<open>The column's \<open>CHECK (progress BETWEEN 0 AND 100)\<close>: the statement fails where it would set another value.\<close>

definition checked_progress ::
    "string \<Rightarrow> string \<Rightarrow> string \<Rightarrow> int \<Rightarrow> int \<Rightarrow> unit runtime_action \<Rightarrow> unit runtime_action" where
  "checked_progress siteId operationId token progress now m db =
     (if (progress < 0 \<or> 100 < progress)
         \<and> (\<exists>w \<in> set (rt_operations db). op_site w = siteId \<and> op_id w = operationId
              \<and> owned_by token now w \<and> activeLifecycle db now w)
      then (Inl ConstraintFailure, db) else m db)"

definition op_checkpoint :: "string \<Rightarrow> string \<Rightarrow> string \<Rightarrow> string \<Rightarrow> int \<Rightarrow> int \<Rightarrow> int \<Rightarrow> unit runtime_action" where
  "op_checkpoint siteId operationId token stage progress now now' =
     checked_progress siteId operationId token progress now'
       (ownedUpdate siteId operationId token (checkpoint_row stage progress now) now')"

definition op_prepareCommit ::
    "string \<Rightarrow> string \<Rightarrow> string \<Rightarrow> int \<Rightarrow> markdown_pointer \<Rightarrow> jsval \<Rightarrow> string option \<Rightarrow> int \<Rightarrow> int \<Rightarrow> unit runtime_action" where
  "op_prepareCommit siteId operationId token version pointer ssiResult jobKey now now' =
     (if ssiResult = JUndef then throw (OperationFailure ''D1_TYPE_ERROR'')
      else ownedUpdate siteId operationId token (prepare_row version pointer ssiResult jobKey now) now')"

definition op_recordCommit :: "string \<Rightarrow> string \<Rightarrow> string \<Rightarrow> int \<Rightarrow> int \<Rightarrow> unit runtime_action" where
  "op_recordCommit siteId operationId token now now' =
     ownedUpdate siteId operationId token (commit_row now) now'"

section \<open>Finishing\<close>

definition release_claim :: "operation_row \<Rightarrow> operation_row" where
  "release_claim w = w\<lparr>op_claim_token := None, op_claim_expires := None\<rparr>"

definition stmt_close_attempt ::
    "string \<Rightarrow> string \<Rightarrow> string \<Rightarrow> operation_state \<Rightarrow> string \<Rightarrow> (string \<times> string) option \<Rightarrow> int \<Rightarrow> runtime_statement" where
  "stmt_close_attempt siteId operationId token state stage err now db =
     (case sql_update
            (\<lambda>a. at_site a = siteId \<and> at_op a = operationId \<and> at_token a = token \<and> at_completed a = None
               \<and> (\<exists>w \<in> set (rt_operations db). op_site w = siteId \<and> op_id w = operationId
                    \<and> owned_by token now w \<and> activeLifecycle db now w))
            (\<lambda>a. a\<lparr>at_completed := Some now, at_state := state, at_stage := stage,
                   at_error_code := map_option fst err, at_error_message := map_option snd err\<rparr>)
            (rt_attempts db) of
        (n, rows) \<Rightarrow> (n, db\<lparr>rt_attempts := rows\<rparr>))"

definition terminalBatch ::
    "string \<Rightarrow> string \<Rightarrow> string \<Rightarrow> (operation_row \<Rightarrow> operation_row) \<Rightarrow> operation_state \<Rightarrow> string
     \<Rightarrow> (string \<times> string) option \<Rightarrow> int \<Rightarrow> unit runtime_action" where
  "terminalBatch siteId operationId token change state stage err now =
     and_then (batch (stmt_close_attempt siteId operationId token state stage err now)
                     (stmt_owned siteId operationId token change now)) (\<lambda>(attempt, operation).
       if attempt \<noteq> 1 \<or> operation \<noteq> 1
       then throw (OperationConflict ''Operation claim expired or changed.'') else succeed ())"

definition complete_row :: "operation_receipt \<Rightarrow> bool \<Rightarrow> int \<Rightarrow> operation_row \<Rightarrow> operation_row" where
  "complete_row receipt pending now w =
     (release_claim w)\<lparr>op_state := (if pending then Publication_pending else Succeeded),
       op_stage := (if pending then ''canonical-completed-publication-pending'' else ''completed''),
       op_progress := (if pending then 95 else 100), op_receipt := Some receipt, op_error_code := None,
       op_error_message := None, op_retry_at := None,
       op_completed_at := (if pending then None else Some now), op_updated_at := now\<rparr>"

text \<open>An empty job key is falsy; \<open>ssiResult\<close> is \<open>undefined\<close> where the prepared one is used.\<close>

definition op_complete ::
    "string \<Rightarrow> string \<Rightarrow> string \<Rightarrow> jsval \<Rightarrow> string option \<Rightarrow> string \<Rightarrow> int \<Rightarrow> int \<Rightarrow> unit runtime_action" where
  "op_complete siteId operationId token ssiResult publicationJobKey siteUrl now now' =
     and_then (op_get siteId operationId) (\<lambda>operation.
       case operation of
         None \<Rightarrow> throw (OperationConflict ''A prepared canonical pointer is required before operation completion.'')
       | Some w \<Rightarrow>
           (case so_prepared w of
              None \<Rightarrow> throw (OperationConflict ''A prepared canonical pointer is required before operation completion.'')
            | Some prepared \<Rightarrow>
                let jobKey = (case publicationJobKey of Some j \<Rightarrow> Some j | None \<Rightarrow> pc_publicationJobKey prepared);
                    job = truthy_column jobKey;
                    receipt = \<lparr>rc_input = so_input w, rc_result = coalesce ssiResult (pc_ssiResult prepared),
                               rc_pointer = pc_pointer prepared, rc_version = pc_version prepared,
                               rc_publication = (case job of None \<Rightarrow> Publication_none | Some j \<Rightarrow> Publication_waits j),
                               rc_siteUrl = siteUrl, rc_canonicalCompletedAt = now,
                               rc_terminalCompletedAt = (if job = None then Some now else None)\<rparr>
                in terminalBatch siteId operationId token (complete_row receipt (job \<noteq> None) now)
                     (if job = None then Succeeded else Publication_pending)
                     (if job = None then ''completed'' else ''canonical-completed-publication-pending'') None now'))"

datatype finish_state = Finish_retryable | Finish_failed

definition finish_row :: "finish_state \<Rightarrow> string \<times> string \<Rightarrow> int option \<Rightarrow> int \<Rightarrow> operation_row \<Rightarrow> operation_row" where
  "finish_row state err retryAt now w =
     (release_claim w)\<lparr>op_state := (case state of Finish_retryable \<Rightarrow> Retryable | Finish_failed \<Rightarrow> Failed),
       op_stage := (case state of Finish_retryable \<Rightarrow> ''retryable'' | Finish_failed \<Rightarrow> ''failed''),
       op_error_code := Some (fst err), op_error_message := Some (snd err), op_retry_at := retryAt,
       op_completed_at := (case state of Finish_retryable \<Rightarrow> None | Finish_failed \<Rightarrow> Some now),
       op_updated_at := now\<rparr>"

definition op_finish ::
    "string \<Rightarrow> string \<Rightarrow> string \<Rightarrow> finish_state \<Rightarrow> operation_error \<Rightarrow> int option \<Rightarrow> int \<Rightarrow> int \<Rightarrow> unit runtime_action" where
  "op_finish siteId operationId token state err retryAt now now' =
     terminalBatch siteId operationId token (finish_row state (sanitizeError err) retryAt now)
       (case state of Finish_retryable \<Rightarrow> Retryable | Finish_failed \<Rightarrow> Failed)
       (case state of Finish_retryable \<Rightarrow> ''retryable'' | Finish_failed \<Rightarrow> ''failed'')
       (Some (sanitizeError err)) now'"

definition op_retry ::
    "string \<Rightarrow> string \<Rightarrow> string \<Rightarrow> operation_error \<Rightarrow> int \<Rightarrow> int \<Rightarrow> int \<Rightarrow> unit runtime_action" where
  "op_retry siteId operationId token err retryAt now now' =
     op_finish siteId operationId token Finish_retryable err (Some retryAt) now now'"

definition op_fail :: "string \<Rightarrow> string \<Rightarrow> string \<Rightarrow> operation_error \<Rightarrow> int \<Rightarrow> int \<Rightarrow> unit runtime_action" where
  "op_fail siteId operationId token err now now' =
     op_finish siteId operationId token Finish_failed err None now now'"

section \<open>Publications\<close>

datatype publication_outcome = Promoted | Superseded | Orphaned

fun outcome_name :: "publication_outcome \<Rightarrow> string" where
  "outcome_name Promoted = ''promoted''"
| "outcome_name Superseded = ''superseded''"
| "outcome_name Orphaned = ''orphaned''"

definition published_row :: "publication_outcome \<Rightarrow> operation_receipt \<Rightarrow> int \<Rightarrow> operation_row \<Rightarrow> operation_row" where
  "published_row outcome receipt now w =
     w\<lparr>op_state := (if outcome = Promoted then Succeeded else Failed),
       op_stage := (if outcome = Promoted then ''published'' else ''publication-'' @ outcome_name outcome),
       op_progress := 100, op_receipt := Some receipt,
       op_error_code := (if outcome = Promoted then None else Some (''publication_'' @ outcome_name outcome)),
       op_error_message := (if outcome = Promoted then None
                            else Some (''Publication '' @ outcome_name outcome @ ''.'')),
       op_completed_at := Some now, op_updated_at := now\<rparr>"

definition stmt_publish ::
    "string \<Rightarrow> string \<Rightarrow> string \<Rightarrow> publication_outcome \<Rightarrow> operation_receipt \<Rightarrow> int \<Rightarrow> runtime_statement" where
  "stmt_publish siteId operationId jobKey outcome receipt now =
     update_operations
       (\<lambda>db w. op_site w = siteId \<and> op_id w = operationId \<and> op_state w = Publication_pending
          \<and> op_prepared_job w = Some jobKey \<and> activeLifecycle db now w)
       (published_row outcome receipt now)"

definition reconcilePublication ::
    "string \<Rightarrow> string \<Rightarrow> publication_outcome \<Rightarrow> string option \<Rightarrow> int \<Rightarrow> unit runtime_action" where
  "reconcilePublication siteId jobKey outcome published now =
     (if outcome = Promoted \<and> truthy_column published = None then succeed ()
      else
        and_then (query (op_select (\<lambda>w. op_site w = siteId \<and> op_state w = Publication_pending
                                        \<and> op_prepared_job w = Some jobKey))) (\<lambda>found.
          case found of
            None \<Rightarrow> succeed ()
          | Some operation \<Rightarrow>
              (case so_receipt operation of
                 None \<Rightarrow> succeed ()
               | Some receipt \<Rightarrow>
                   (case rc_publication receipt of
                      Publication_waits _ \<Rightarrow>
                        let receipt' = receipt\<lparr>rc_publication := (case outcome of
                               Promoted \<Rightarrow> Publication_promoted jobKey (the published)
                             | Superseded \<Rightarrow> Publication_superseded jobKey
                             | Orphaned \<Rightarrow> Publication_orphaned jobKey), rc_terminalCompletedAt := Some now\<rparr>
                        in and_then (execute (stmt_publish siteId (so_operationId operation) jobKey outcome receipt' now))
                             (\<lambda>_. succeed ())
                    | _ \<Rightarrow> succeed ()))))"

definition pendingPublicationJobs :: "string \<Rightarrow> nat \<Rightarrow> runtime_db \<Rightarrow> string list" where
  "pendingPublicationJobs siteId limit db =
     map (\<lambda>w. the (op_prepared_job w))
       (take limit (sql_select (\<lambda>w. op_site w = siteId \<and> op_state w = Publication_pending \<and> op_prepared_job w \<noteq> None)
          op_updated_at (rt_operations db)))"

section \<open>What a statement keeps\<close>

text \<open>A change of rows that keeps their identity and activates none.\<close>

definition keeps_identity :: "(operation_row \<Rightarrow> operation_row) \<Rightarrow> bool" where
  "keeps_identity f \<longleftrightarrow> (\<forall>w. op_site (f w) = op_site w \<and> op_id (f w) = op_id w \<and> op_input (f w) = op_input w)"

lemma update_operations_rows:
  "update_operations c f db =
     (length (filter (c db) (rt_operations db)),
      db\<lparr>rt_operations := map (\<lambda>w. if c db w then f w else w) (rt_operations db)\<rparr>)"
  by (simp add: update_operations_def sql_update_def)

lemma one_active_map:
  assumes "one_active rows" and "\<And>w. w \<in> set rows \<Longrightarrow> op_site (g w) = op_site w"
    and "\<And>w. w \<in> set rows \<Longrightarrow> op_active (g w) \<Longrightarrow> op_active w"
  shows "one_active (map g rows)"
proof -
  have "length (filter (\<lambda>w. op_site w = s \<and> op_active w) (map g rows))
      \<le> length (filter (\<lambda>w. op_site w = s \<and> op_active w) rows)" for s
    using assms(2,3) by (induction rows) auto
  with assms(1) show ?thesis unfolding one_active_def by (meson le_trans)
qed

lemma unique_keys_map:
  assumes "\<And>w. op_site (g w) = op_site w \<and> op_id (g w) = op_id w \<and> op_input (g w) = op_input w"
  shows "unique_by operation_key (map g rows) = unique_by operation_key rows"
    and "unique_by idempotency_key (map g rows) = unique_by idempotency_key rows"
proof -
  have "operation_key \<circ> g = operation_key" "idempotency_key \<circ> g = idempotency_key"
    using assms by (auto simp: fun_eq_iff operation_key_def idempotency_key_def)
  then show "unique_by operation_key (map g rows) = unique_by operation_key rows"
    and "unique_by idempotency_key (map g rows) = unique_by idempotency_key rows"
    by (simp_all add: unique_by_def)
qed

text \<open>An update of operations under which the attempts stay as they are.\<close>

lemma update_operations_wf:
  assumes wf: "repository_wf db" and keeps: "keeps_identity f"
    and active: "\<And>w. w \<in> set (rt_operations db) \<Longrightarrow> c db w \<Longrightarrow> op_active (f w) \<Longrightarrow> op_active w"
    and row: "\<And>w. w \<in> set (rt_operations db) \<Longrightarrow> c db w \<Longrightarrow> operation_wf db w \<Longrightarrow> operation_wf db (f w)"
    and attempts: "\<And>w. w \<in> set (rt_operations db) \<Longrightarrow> c db w \<Longrightarrow> op_attempts w \<le> op_attempts (f w)"
  shows "repository_wf (snd (update_operations c f db))"
proof -
  define g where "g w = (if c db w then f w else w)" for w
  have g: "op_site (g w) = op_site w \<and> op_id (g w) = op_id w \<and> op_input (g w) = op_input w" for w
    using keeps by (simp add: g_def keeps_identity_def)
  have key: "operation_key (g w) = operation_key w" for w using g by (simp add: operation_key_def)
  have rows: "snd (update_operations c f db) = db\<lparr>rt_operations := map g (rt_operations db)\<rparr>"
    by (simp add: update_operations_rows g_def)
  have "operation_wf (db\<lparr>rt_operations := map g (rt_operations db)\<rparr>) = operation_wf db"
    by (simp add: operation_wf_def open_attempts_def fun_eq_iff)
  moreover have "operation_wf db (g w)" if "w \<in> set (rt_operations db)" for w
    using that wf row by (simp add: g_def repository_wf_def)
  moreover have "attempt_wf (db\<lparr>rt_operations := map g (rt_operations db)\<rparr>) a" if "a \<in> set (rt_attempts db)" for a
  proof -
    from wf that have "attempt_wf db a" by (simp add: repository_wf_def)
    moreover have "op_attempts w \<le> op_attempts (g w)" if "w \<in> set (rt_operations db)" for w
      using that attempts by (simp add: g_def)
    ultimately show ?thesis unfolding attempt_wf_def by (force simp: key image_image)
  qed
  moreover have "one_active (map g (rt_operations db))"
  proof (rule one_active_map)
    show "op_active w" if "w \<in> set (rt_operations db)" "op_active (g w)" for w
      using that active by (auto simp: g_def split: if_splits)
  qed (use wf in \<open>simp_all add: g repository_wf_def\<close>)
  ultimately show ?thesis
    using wf unfolding rows repository_wf_def by (simp add: unique_keys_map [OF g])
qed

lemma operation_wf_cong:
  "op_site w' = op_site w \<Longrightarrow> op_id w' = op_id w \<Longrightarrow> (op_state w' = Running) = (op_state w = Running) \<Longrightarrow>
   op_claim_token w' = op_claim_token w \<Longrightarrow> (op_claim_expires w' = None) = (op_claim_expires w = None) \<Longrightarrow>
   op_attempts w' = op_attempts w \<Longrightarrow> operation_wf db w \<Longrightarrow> operation_wf db w'"
  unfolding operation_wf_def by simp

lemma operation_wf_unclaimed:
  "op_state w \<noteq> Running \<Longrightarrow> op_claim_token w = None \<Longrightarrow> op_claim_expires w = None \<Longrightarrow> 0 \<le> op_attempts w \<Longrightarrow>
   operation_wf db w"
  by (simp add: operation_wf_def)

text \<open>The changes made under a claim, and those that end it.\<close>

definition owned_change :: "(operation_row \<Rightarrow> operation_row) \<Rightarrow> bool" where
  "owned_change f \<longleftrightarrow> keeps_identity f
     \<and> (\<forall>w. op_state (f w) = op_state w \<and> op_claim_token (f w) = op_claim_token w \<and> op_attempts (f w) = op_attempts w
          \<and> (op_claim_expires w \<noteq> None \<longrightarrow> op_claim_expires (f w) \<noteq> None))"

definition ending_change :: "(operation_row \<Rightarrow> operation_row) \<Rightarrow> bool" where
  "ending_change f \<longleftrightarrow> keeps_identity f
     \<and> (\<forall>w. op_state (f w) \<in> {Retryable, Publication_pending, Succeeded, Failed} \<and> op_claim_token (f w) = None
          \<and> op_claim_expires (f w) = None \<and> op_attempts (f w) = op_attempts w)"

lemma owned_changes [simp]:
  "owned_change (renew_row m now)" "owned_change (checkpoint_row stage progress now)"
  "owned_change (prepare_row v p res job now)" "owned_change (commit_row now)"
  by (simp_all add: owned_change_def keeps_identity_def renew_row_def checkpoint_row_def prepare_row_def commit_row_def)

lemma ending_changes [simp]:
  "ending_change (complete_row receipt pending now)" "ending_change (finish_row st err retryAt now)"
  by (simp_all add: ending_change_def keeps_identity_def complete_row_def finish_row_def release_claim_def
      split: finish_state.split)

lemma claim_keeps_identity [simp]: "keeps_identity (claim_row token e now)"
  and published_keeps_identity [simp]: "keeps_identity (published_row outcome receipt now)"
  by (simp_all add: keeps_identity_def claim_row_def published_row_def)

lemma stmt_owned_wf:
  assumes "repository_wf db" and f: "owned_change f"
  shows "repository_wf (snd (stmt_owned siteId operationId token f now db))"
  unfolding stmt_owned_def
proof (rule update_operations_wf [OF assms(1)])
  fix w assume "op_site w = siteId \<and> op_id w = operationId \<and> owned_by token now w \<and> activeLifecycle db now w"
    and "operation_wf db w"
  then show "operation_wf db (f w)"
    using f by (intro operation_wf_cong [of "f w" w])
      (auto simp: owned_change_def keeps_identity_def owned_by_def split: option.splits)
qed (use f in \<open>auto simp: owned_change_def op_active_def\<close>)

lemma stmt_publish_wf:
  assumes "repository_wf db"
  shows "repository_wf (snd (stmt_publish siteId operationId job outcome receipt now db))"
  unfolding stmt_publish_def
proof (rule update_operations_wf [OF assms])
  fix w assume "op_site w = siteId \<and> op_id w = operationId \<and> op_state w = Publication_pending
      \<and> op_prepared_job w = Some job \<and> activeLifecycle db now w" and "operation_wf db w"
  then show "operation_wf db (published_row outcome receipt now w)"
    by (intro operation_wf_unclaimed) (auto simp: published_row_def operation_wf_def)
qed (auto simp: published_row_def op_active_def split: if_splits)

lemma insert_operation_wf:
  assumes wf: "repository_wf db"
  shows "repository_wf (snd (insert_operation siteId uuid input now db))"
proof -
  define row where "row = new_operation siteId uuid input (map_option lc_operation_fence (site_lifecycle db siteId)) now"
  show ?thesis
  proof (cases "snd (insert_operation siteId uuid input now db) = db")
    case False
    then have keys: "operation_key row \<notin> operation_key ` set (rt_operations db)"
      "idempotency_key row \<notin> idempotency_key ` set (rt_operations db)"
      and free: "\<forall>w \<in> set (rt_operations db). \<not> (op_site w = siteId \<and> op_active w)"
      and db': "snd (insert_operation siteId uuid input now db) = db\<lparr>rt_operations := rt_operations db @ [row]\<rparr>"
      unfolding insert_operation_def Let_def by (fold row_def) (auto split: if_splits)
    have row: "op_site row = siteId" "op_state row = Queued" "op_claim_token row = None" "op_claim_expires row = None"
      "op_attempts row = 0" by (simp_all add: row_def new_operation_def)
    have "one_active (rt_operations db @ [row])"
      unfolding one_active_def
    proof
      fix s
      have "length (filter (\<lambda>w. op_site w = s \<and> op_active w) (rt_operations db)) \<le> 1"
        using wf by (simp add: repository_wf_def one_active_def)
      moreover have "filter (\<lambda>w. op_site w = siteId \<and> op_active w) (rt_operations db) = []"
        using free by (auto simp: filter_empty_conv)
      ultimately show "length (filter (\<lambda>w. op_site w = s \<and> op_active w) (rt_operations db @ [row])) \<le> 1"
        using row by (cases "s = siteId") auto
    qed
    moreover have "attempt_wf (db\<lparr>rt_operations := rt_operations db @ [row]\<rparr>) a" if "a \<in> set (rt_attempts db)" for a
    proof -
      from wf that have a: "attempt_wf db a" by (simp add: repository_wf_def)
      with keys(1) have "operation_key row \<noteq> (at_site a, at_op a)" unfolding attempt_wf_def by metis
      with a show ?thesis unfolding attempt_wf_def by auto
    qed
    ultimately show ?thesis
      using wf keys row unfolding db' repository_wf_def
      by (auto simp: unique_by_def operation_wf_def open_attempts_def)
  qed (use wf in simp)
qed

text \<open>A statement that names one operation meets at most one row.\<close>

lemma filter_operation:
  assumes wf: "repository_wf db"
  obtains (none) "filter (\<lambda>w. op_site w = siteId \<and> op_id w = operationId \<and> P w) (rt_operations db) = []"
    | (one) w where "filter (\<lambda>w. op_site w = siteId \<and> op_id w = operationId \<and> P w) (rt_operations db) = [w]"
        and "w \<in> set (rt_operations db)" and "op_site w = siteId" and "op_id w = operationId" and "P w"
proof -
  let ?rows = "filter (\<lambda>w. op_site w = siteId \<and> op_id w = operationId \<and> P w) (rt_operations db)"
  have "length ?rows \<le> 1"
    using wf by (intro filter_unique [where key = operation_key and k = "(siteId, operationId)"])
      (auto simp: repository_wf_def operation_key_def)
  then consider "?rows = []" | w where "?rows = [w]" by (cases ?rows) (auto simp: le_Suc_eq)
  then show thesis
  proof cases
    case (2 w)
    then have "w \<in> set ?rows" by simp
    then have "w \<in> set (rt_operations db) \<and> op_site w = siteId \<and> op_id w = operationId \<and> P w"
      by (simp only: set_filter mem_Collect_eq)
    with 2 show thesis by (intro one [of w]) simp_all
  qed (use none in simp)
qed

lemma same_operation:
  "repository_wf db \<Longrightarrow> w \<in> set (rt_operations db) \<Longrightarrow> v \<in> set (rt_operations db) \<Longrightarrow>
   op_site v = op_site w \<Longrightarrow> op_id v = op_id w \<Longrightarrow> v = w"
  by (rule unique_by_eq [of operation_key "rt_operations db"]) (auto simp: repository_wf_def operation_key_def)

definition fresh_token :: "runtime_db \<Rightarrow> string \<Rightarrow> bool" where
  "fresh_token db token \<longleftrightarrow> token \<notin> at_token ` set (rt_attempts db)"

lemma fresh_token_unclaimed:
  assumes wf: "repository_wf db" and "fresh_token db token" and "w \<in> set (rt_operations db)"
  shows "op_claim_token w \<noteq> Some token"
proof
  assume "op_claim_token w = Some token"
  with wf assms(3) have "length (open_attempts db (op_site w) (op_id w) token) = 1"
    by (simp add: repository_wf_def operation_wf_def)
  then obtain a where "a \<in> set (open_attempts db (op_site w) (op_id w) token)" by (cases "open_attempts db (op_site w) (op_id w) token") auto
  with assms(2) show False by (auto simp: open_attempts_def fresh_token_def)
qed

lemma filter_replaced:
  "distinct xs \<Longrightarrow> w \<in> set xs \<Longrightarrow> Q w' \<Longrightarrow> (\<And>v. v \<in> set xs \<Longrightarrow> \<not> Q v) \<Longrightarrow>
   filter Q (map (\<lambda>v. if v = w then w' else v) xs) = [w']"
proof (induction xs)
  case (Cons x xs)
  then show ?case by (cases "x = w") (auto simp: filter_empty_conv)
qed simp

definition claimed_db :: "string \<Rightarrow> int \<Rightarrow> int \<Rightarrow> operation_row \<Rightarrow> runtime_db \<Rightarrow> runtime_db" where
  "claimed_db token expiresAt now w db =
     db\<lparr>rt_operations := map (\<lambda>v. if v = w then claim_row token expiresAt now w else v) (rt_operations db),
        rt_attempts := rt_attempts db @ [attempt_for token now (claim_row token expiresAt now w)]\<rparr>"

lemma claim_batch_cases:
  assumes wf: "repository_wf db" and fresh: "fresh_token db token"
  obtains (idle) "claim_batch siteId operationId token e now db = (Inr (0, 0), db)"
      and "\<forall>w \<in> set (rt_operations db). \<not> (op_site w = siteId \<and> op_id w = operationId \<and> claimable now w \<and> activeLifecycle db now w)"
    | (claimed) w where "w \<in> set (rt_operations db)" and "op_site w = siteId" and "op_id w = operationId"
      and "claimable now w" and "activeLifecycle db now w"
      and "claim_batch siteId operationId token e now db = (Inr (1, 1), claimed_db token e now w db)"
proof -
  let ?P = "\<lambda>w. claimable now w \<and> activeLifecycle db now w"
  let ?Q = "\<lambda>w. op_state w = Running \<and> op_claim_token w = Some token \<and> op_claim_expires w = Some e"
  have old: "\<not> ?Q w" if "w \<in> set (rt_operations db)" for w
    using fresh_token_unclaimed [OF wf fresh that] by simp
  show thesis
  proof (rule filter_operation [OF wf, of siteId operationId ?P])
    assume none: "filter (\<lambda>w. op_site w = siteId \<and> op_id w = operationId \<and> ?P w) (rt_operations db) = []"
    then have no: "\<And>w. w \<in> set (rt_operations db) \<Longrightarrow> \<not> (op_site w = siteId \<and> op_id w = operationId \<and> ?P w)"
      by (auto simp: filter_empty_conv)
    then have "map (\<lambda>w. if op_site w = siteId \<and> op_id w = operationId \<and> ?P w then claim_row token e now w else w)
        (rt_operations db) = rt_operations db"
      by (intro map_idI) auto
    then have "stmt_claim siteId operationId token e now db = (0, db)"
      using none by (simp add: stmt_claim_def update_operations_rows)
    moreover have none': "filter (\<lambda>w. op_site w = siteId \<and> op_id w = operationId \<and> ?Q w) (rt_operations db) = []"
      using old by (auto simp: filter_empty_conv)
    moreover have "distinct (map attempt_key (rt_attempts db))"
      using wf by (simp add: repository_wf_def unique_by_def)
    ultimately have "claim_batch siteId operationId token e now db = (Inr (0, 0), db)"
      unfolding claim_batch_def by (simp only: prod.case Let_def none' list.map append_Nil2 list.size) simp
    with no show thesis by (intro idle) auto
  next
    fix w assume one: "filter (\<lambda>w. op_site w = siteId \<and> op_id w = operationId \<and> ?P w) (rt_operations db) = [w]"
      and w: "w \<in> set (rt_operations db)" "op_site w = siteId" "op_id w = operationId" "?P w"
    define rows where "rows = map (\<lambda>v. if v = w then claim_row token e now w else v) (rt_operations db)"
    have "map (\<lambda>v. if op_site v = siteId \<and> op_id v = operationId \<and> ?P v then claim_row token e now v else v)
        (rt_operations db) = rows"
      unfolding rows_def
    proof (rule map_cong [OF refl])
      fix v assume "v \<in> set (rt_operations db)"
      with same_operation [OF wf w(1) this] w(2,3) have "op_site v = siteId \<and> op_id v = operationId \<longleftrightarrow> v = w" by auto
      then show "(if op_site v = siteId \<and> op_id v = operationId \<and> ?P v then claim_row token e now v else v)
          = (if v = w then claim_row token e now w else v)"
        using w(4) by (cases "v = w") auto
    qed
    then have stmt: "stmt_claim siteId operationId token e now db = (1, db\<lparr>rt_operations := rows\<rparr>)"
      using one by (simp add: stmt_claim_def update_operations_rows)
    have fields: "op_site (claim_row token e now w) = siteId" "op_id (claim_row token e now w) = operationId"
      "?Q (claim_row token e now w)" using w by (simp_all add: claim_row_def)
    have "distinct (rt_operations db)"
      using wf unfolding repository_wf_def unique_by_def by (blast dest: distinct_map [THEN iffD1])
    then have filter: "filter (\<lambda>v. op_site v = siteId \<and> op_id v = operationId \<and> ?Q v) rows = [claim_row token e now w]"
      unfolding rows_def by (rule filter_replaced) (use w in simp, use fields in simp, use old in blast)
    have "attempt_key (attempt_for token now (claim_row token e now w)) \<notin> attempt_key ` set (rt_attempts db)"
    proof
      assume "attempt_key (attempt_for token now (claim_row token e now w)) \<in> attempt_key ` set (rt_attempts db)"
      then obtain a where a: "a \<in> set (rt_attempts db)" "at_site a = op_site w" "at_op a = op_id w"
          "at_number a = op_attempts w + 1"
        by (auto simp: attempt_key_def attempt_for_def claim_row_def)
      with wf have "attempt_wf db a" by (simp add: repository_wf_def)
      with a w(1) have "op_attempts w + 1 \<le> op_attempts w" by (force simp: attempt_wf_def operation_key_def)
      then show False by simp
    qed
    moreover have "distinct (map attempt_key (rt_attempts db))"
      using wf by (simp add: repository_wf_def unique_by_def)
    moreover have "rt_operations (db\<lparr>rt_operations := rows\<rparr>) = rows" by simp
    ultimately have "claim_batch siteId operationId token e now db = (Inr (1, 1), claimed_db token e now w db)"
      by (simp only: claim_batch_def stmt prod.case filter Let_def) (simp add: claimed_db_def flip: rows_def)
    with w show thesis by (intro claimed) auto
  qed
qed

lemma open_attempts_append:
  "open_attempts (db\<lparr>rt_operations := rows, rt_attempts := as @ [a]\<rparr>) s k t =
   open_attempts (db\<lparr>rt_attempts := as\<rparr>) s k t
     @ (if at_site a = s \<and> at_op a = k \<and> at_token a = t \<and> at_completed a = None then [a] else [])"
  by (simp add: open_attempts_def)

lemma claimed_db_wf:
  assumes wf: "repository_wf db" and fresh: "fresh_token db token" and w: "w \<in> set (rt_operations db)"
    and claimable: "claimable now w"
  shows "repository_wf (claimed_db token e now w db)"
proof -
  define v where "v = claim_row token e now w"
  define a where "a = attempt_for token now v"
  define g where "g x = (if x = w then v else x)" for x
  have v: "op_site v = op_site w" "op_id v = op_id w" "op_input v = op_input w" "op_state v = Running"
    "op_claim_token v = Some token" "op_claim_expires v = Some e" "op_attempts v = op_attempts w + 1"
    by (simp_all add: v_def claim_row_def)
  have a: "at_site a = op_site w" "at_op a = op_id w" "at_token a = token" "at_completed a = None"
    "at_number a = op_attempts w + 1" by (simp_all add: a_def attempt_for_def v)
  have g: "op_site (g x) = op_site x \<and> op_id (g x) = op_id x \<and> op_input (g x) = op_input x" for x
    by (simp add: g_def v)
  have db': "claimed_db token e now w db = db\<lparr>rt_operations := map g (rt_operations db), rt_attempts := rt_attempts db @ [a]\<rparr>"
    by (simp add: claimed_db_def g_def v_def a_def)
  have wf_op: "operation_wf db x" if "x \<in> set (rt_operations db)" for x using wf that by (simp add: repository_wf_def)
  have none: "open_attempts db s k token = []" for s k
    using fresh by (auto simp: open_attempts_def filter_empty_conv fresh_token_def)
  have "op_active w" using claimable by (auto simp: claimable_def op_active_def)
  then have "one_active (map g (rt_operations db))"
    using wf by (intro one_active_map) (auto simp: g_def v repository_wf_def split: if_splits)
  moreover have "operation_wf (claimed_db token e now w db) (g x)" if x: "x \<in> set (rt_operations db)" for x
  proof (cases "x = w")
    case True
    then show ?thesis
      using none wf_op [OF w]
      unfolding operation_wf_def db' by (auto simp: g_def v open_attempts_append a)
  next
    case False
    have "op_claim_token x \<noteq> Some token" using fresh_token_unclaimed [OF wf fresh x] .
    then have "open_attempts (claimed_db token e now w db) (op_site x) (op_id x) t = open_attempts db (op_site x) (op_id x) t"
      if "op_claim_token x = Some t" for t
      using that a by (auto simp: db' open_attempts_append)
    with wf_op [OF x] False show ?thesis by (auto simp: operation_wf_def g_def)
  qed
  moreover have "attempt_wf (claimed_db token e now w db) b" if "b \<in> set (rt_attempts db @ [a])" for b
  proof -
    have key: "operation_key (g x) = operation_key x" for x using g by (simp add: operation_key_def)
    have more: "op_attempts x \<le> op_attempts (g x)" for x by (simp add: g_def v)
    have "at_number a \<le> op_attempts (g x)" if "x \<in> set (rt_operations db)" "operation_key x = (op_site w, op_id w)" for x
      using same_operation [OF wf w that(1)] that(2) by (auto simp: operation_key_def g_def v a)
    moreover have "1 \<le> at_number a" using wf_op [OF w] by (simp add: a operation_wf_def)
    moreover have "attempt_wf db b" if "b \<in> set (rt_attempts db)" using wf that by (simp add: repository_wf_def)
    moreover have "(op_site w, op_id w) \<in> operation_key ` set (rt_operations db)"
      using w by (force simp: operation_key_def)
    ultimately show ?thesis
      using that unfolding attempt_wf_def db'
      by (auto simp: a key image_image) (use more order_trans in blast)
  qed
  moreover have "attempt_key a \<notin> attempt_key ` set (rt_attempts db)"
  proof
    assume "attempt_key a \<in> attempt_key ` set (rt_attempts db)"
    then obtain b where b: "b \<in> set (rt_attempts db)" "at_site b = op_site w" "at_op b = op_id w"
        "at_number b = op_attempts w + 1" by (auto simp: attempt_key_def a)
    with wf have "attempt_wf db b" by (simp add: repository_wf_def)
    with b w show False by (force simp: attempt_wf_def operation_key_def)
  qed
  then have "unique_by attempt_key (rt_attempts db @ [a])"
    using wf by (auto simp: unique_by_def repository_wf_def)
  moreover have "unique_by operation_key (map g (rt_operations db))" "unique_by idempotency_key (map g (rt_operations db))"
    using wf by (simp_all add: unique_keys_map [OF g] repository_wf_def)
  ultimately show ?thesis
    unfolding repository_wf_def db' by auto
qed

text \<open>The operation a token owns, and what ending its claim leaves.\<close>

definition owned_operation :: "string \<Rightarrow> string \<Rightarrow> string \<Rightarrow> int \<Rightarrow> runtime_db \<Rightarrow> operation_row \<Rightarrow> bool" where
  "owned_operation siteId operationId token now db w \<longleftrightarrow>
     w \<in> set (rt_operations db) \<and> op_site w = siteId \<and> op_id w = operationId
     \<and> owned_by token now w \<and> activeLifecycle db now w"

definition replace_operation :: "operation_row \<Rightarrow> operation_row \<Rightarrow> runtime_db \<Rightarrow> runtime_db" where
  "replace_operation w w' db = db\<lparr>rt_operations := map (\<lambda>v. if v = w then w' else v) (rt_operations db)\<rparr>"

definition close_attempt :: "operation_state \<Rightarrow> string \<Rightarrow> (string \<times> string) option \<Rightarrow> int \<Rightarrow> attempt_row \<Rightarrow> attempt_row" where
  "close_attempt state stage err now a = a\<lparr>at_completed := Some now, at_state := state, at_stage := stage,
     at_error_code := map_option fst err, at_error_message := map_option snd err\<rparr>"

lemma activeLifecycle_attempts [simp]:
  "activeLifecycle (db\<lparr>rt_attempts := as\<rparr>) now w = activeLifecycle db now w"
  "activeLifecycle (db\<lparr>rt_operations := rows\<rparr>) now w = activeLifecycle db now w"
  by (simp_all add: activeLifecycle_def site_of_def lifecycle_at_def cong: option.case_cong)

lemma stmt_owned_cases:
  assumes wf: "repository_wf db"
  obtains (refused) "stmt_owned siteId operationId token f now db = (0, db)"
      and "\<And>w. \<not> owned_operation siteId operationId token now db w"
    | (owned) w where "owned_operation siteId operationId token now db w"
      and "stmt_owned siteId operationId token f now db = (1, replace_operation w (f w) db)"
proof (rule filter_operation [OF wf, of siteId operationId "\<lambda>w. owned_by token now w \<and> activeLifecycle db now w"])
  assume none: "filter (\<lambda>w. op_site w = siteId \<and> op_id w = operationId \<and> owned_by token now w \<and> activeLifecycle db now w)
      (rt_operations db) = []"
  then have no: "\<And>w. \<not> owned_operation siteId operationId token now db w"
    by (auto simp: filter_empty_conv owned_operation_def)
  then have "map (\<lambda>w. if op_site w = siteId \<and> op_id w = operationId \<and> owned_by token now w \<and> activeLifecycle db now w
      then f w else w) (rt_operations db) = rt_operations db"
    by (intro map_idI) (auto simp: owned_operation_def)
  with none no show thesis by (intro refused) (simp_all add: stmt_owned_def update_operations_rows)
next
  fix w assume one: "filter (\<lambda>w. op_site w = siteId \<and> op_id w = operationId \<and> owned_by token now w \<and> activeLifecycle db now w)
      (rt_operations db) = [w]"
    and w: "w \<in> set (rt_operations db)" "op_site w = siteId" "op_id w = operationId"
      "owned_by token now w \<and> activeLifecycle db now w"
  have "map (\<lambda>v. if op_site v = siteId \<and> op_id v = operationId \<and> owned_by token now v \<and> activeLifecycle db now v
      then f v else v) (rt_operations db) = map (\<lambda>v. if v = w then f w else v) (rt_operations db)"
  proof (rule map_cong [OF refl])
    fix v assume "v \<in> set (rt_operations db)"
    with same_operation [OF wf w(1) this] w(2,3) have "op_site v = siteId \<and> op_id v = operationId \<longleftrightarrow> v = w" by auto
    then show "(if op_site v = siteId \<and> op_id v = operationId \<and> owned_by token now v \<and> activeLifecycle db now v
        then f v else v) = (if v = w then f w else v)"
      using w(4) by (cases "v = w") auto
  qed
  with one w show thesis
    by (intro owned [of w]) (simp_all add: stmt_owned_def update_operations_rows owned_operation_def replace_operation_def)
qed

definition closed_db ::
    "string \<Rightarrow> operation_row \<Rightarrow> operation_row \<Rightarrow> (attempt_row \<Rightarrow> attempt_row) \<Rightarrow> runtime_db \<Rightarrow> runtime_db" where
  "closed_db token w w' close db = replace_operation w w'
     (db\<lparr>rt_attempts := map (\<lambda>a. if at_site a = op_site w \<and> at_op a = op_id w \<and> at_token a = token \<and> at_completed a = None
                               then close a else a) (rt_attempts db)\<rparr>)"

lemma terminalBatch_cases:
  assumes wf: "repository_wf db"
  obtains (refused) "terminalBatch siteId operationId token f st stage err now db =
        (Inl (OperationConflict ''Operation claim expired or changed.''), db)"
      and "\<And>w. \<not> owned_operation siteId operationId token now db w"
    | (ended) w where "owned_operation siteId operationId token now db w"
      and "terminalBatch siteId operationId token f st stage err now db =
        (Inr (), closed_db token w (f w) (close_attempt st stage err now) db)"
proof (rule stmt_owned_cases [OF wf, of siteId operationId token f now])
  assume owned: "stmt_owned siteId operationId token f now db = (0, db)"
    and no: "\<And>w. \<not> owned_operation siteId operationId token now db w"
  then have "\<not> (\<exists>w \<in> set (rt_operations db). op_site w = siteId \<and> op_id w = operationId
      \<and> owned_by token now w \<and> activeLifecycle db now w)"
    by (auto simp: owned_operation_def)
  then have "stmt_close_attempt siteId operationId token st stage err now db = (0, db)"
    unfolding stmt_close_attempt_def sql_update_def by (simp only: simp_thms if_False) simp
  with owned no show thesis by (intro refused) (simp_all add: terminalBatch_def and_then_batch throw_def)
next
  fix w assume w: "owned_operation siteId operationId token now db w"
    and owned: "stmt_owned siteId operationId token f now db = (1, replace_operation w (f w) db)"
  let ?c = "\<lambda>a. at_site a = op_site w \<and> at_op a = op_id w \<and> at_token a = token \<and> at_completed a = None"
  let ?as = "map (\<lambda>a. if ?c a then close_attempt st stage err now a else a) (rt_attempts db)"
  have "op_claim_token w = Some token" "w \<in> set (rt_operations db)"
    using w by (simp_all add: owned_operation_def owned_by_def)
  with wf have "length (filter ?c (rt_attempts db)) = 1"
    by (auto simp: repository_wf_def operation_wf_def open_attempts_def)
  moreover have "(\<exists>v \<in> set (rt_operations db). op_site v = siteId \<and> op_id v = operationId
      \<and> owned_by token now v \<and> activeLifecycle db now v)" "op_site w = siteId" "op_id w = operationId"
    using w by (auto simp: owned_operation_def)
  ultimately have closed: "stmt_close_attempt siteId operationId token st stage err now db = (1, db\<lparr>rt_attempts := ?as\<rparr>)"
    by (simp add: stmt_close_attempt_def sql_update_def close_attempt_def)
  have "rt_operations (snd (stmt_owned siteId operationId token f now db)) = rt_operations (replace_operation w (f w) db)"
    by (simp only: owned snd_conv)
  then have rows: "map (\<lambda>v. if op_site v = siteId \<and> op_id v = operationId \<and> owned_by token now v \<and> activeLifecycle db now v
      then f v else v) (rt_operations db) = map (\<lambda>v. if v = w then f w else v) (rt_operations db)"
    by (simp add: stmt_owned_def update_operations_rows replace_operation_def)
  have "fst (stmt_owned siteId operationId token f now db) = 1" by (simp add: owned)
  then have "stmt_owned siteId operationId token f now (db\<lparr>rt_attempts := ?as\<rparr>) =
      (1, replace_operation w (f w) (db\<lparr>rt_attempts := ?as\<rparr>))"
    by (simp add: stmt_owned_def update_operations_rows replace_operation_def rows)
  with closed w show thesis
    by (intro ended [of w]) (simp_all add: terminalBatch_def and_then_batch succeed_def closed_db_def)
qed

lemma replaced_wf:
  assumes wf: "repository_wf db" and w: "w \<in> set (rt_operations db)" and keeps: "keeps_identity f"
    and active: "op_active (f w) \<Longrightarrow> op_active w" and attempts: "op_attempts (f w) = op_attempts w"
    and row: "operation_wf db (f w)"
  shows "repository_wf (replace_operation w (f w) db)"
proof -
  have "replace_operation w (f w) db = snd (update_operations (\<lambda>_ v. v = w) f db)"
    by (auto simp: replace_operation_def update_operations_rows intro!: arg_cong [where f = "\<lambda>r. db\<lparr>rt_operations := r\<rparr>"])
  also have "repository_wf \<dots>"
    using active attempts row by (intro update_operations_wf [OF wf keeps]) auto
  finally show ?thesis .
qed

lemma filter_map_same:
  "(\<And>a. a \<in> set as \<Longrightarrow> P (g a) = P a \<and> (P a \<longrightarrow> g a = a)) \<Longrightarrow> filter P (map g as) = filter P as"
  by (induction as) auto

lemma ending_change_row:
  assumes "ending_change f"
  shows "op_state (f w) \<noteq> Running \<and> op_state (f w) \<noteq> Queued \<and> op_claim_token (f w) = None \<and> op_claim_expires (f w) = None
    \<and> op_attempts (f w) = op_attempts w"
proof -
  from assms have "op_state (f w) \<in> {Retryable, Publication_pending, Succeeded, Failed} \<and> op_claim_token (f w) = None
      \<and> op_claim_expires (f w) = None \<and> op_attempts (f w) = op_attempts w"
    unfolding ending_change_def by blast
  then show ?thesis by auto
qed

lemma closed_db_wf:
  assumes wf: "repository_wf db" and owned: "owned_operation siteId operationId token now db w" and f: "ending_change f"
  shows "repository_wf (closed_db token w (f w) (close_attempt st stage err now') db)"
proof -
  let ?c = "\<lambda>a. at_site a = op_site w \<and> at_op a = op_id w \<and> at_token a = token \<and> at_completed a = None"
  define g where "g a = (if ?c a then close_attempt st stage err now' a else a)" for a
  have g: "at_site (g a) = at_site a \<and> at_op (g a) = at_op a \<and> at_number (g a) = at_number a \<and> at_token (g a) = at_token a" for a
    by (simp add: g_def close_attempt_def)
  have w: "w \<in> set (rt_operations db)" "op_state w = Running" "op_claim_token w = Some token"
    using owned by (simp_all add: owned_operation_def owned_by_def)
  have others: "open_attempts (db\<lparr>rt_attempts := map g (rt_attempts db)\<rparr>) (op_site v) (op_id v) t = open_attempts db (op_site v) (op_id v) t"
    if "v \<in> set (rt_operations db)" "v \<noteq> w" for v t
  proof -
    have "(op_site v, op_id v) \<noteq> (op_site w, op_id w)"
      using same_operation [OF wf w(1) that(1)] that(2) by auto
    then have "(at_site (g a) = op_site v \<and> at_op (g a) = op_id v \<and> at_token (g a) = t \<and> at_completed (g a) = None)
        = (at_site a = op_site v \<and> at_op a = op_id v \<and> at_token a = t \<and> at_completed a = None)
      \<and> (at_site a = op_site v \<and> at_op a = op_id v \<longrightarrow> g a = a)" for a
      by (auto simp: g_def close_attempt_def)
    then show ?thesis unfolding open_attempts_def by (simp add: filter_map_same)
  qed
  define h where "h v = (if v = w then f w else v)" for v
  have h: "op_site (h v) = op_site v \<and> op_id (h v) = op_id v \<and> op_input (h v) = op_input v"
    and h_attempts: "op_attempts (h v) = op_attempts v" for v
    using f by (auto simp: h_def ending_change_def keeps_identity_def)
  let ?db = "db\<lparr>rt_attempts := map g (rt_attempts db), rt_operations := map h (rt_operations db)\<rparr>"
  have db': "closed_db token w (f w) (close_attempt st stage err now') db = ?db"
    by (simp add: closed_db_def replace_operation_def g_def [abs_def] h_def [abs_def])
  have wf_op: "operation_wf db v" if "v \<in> set (rt_operations db)" for v using wf that by (simp add: repository_wf_def)
  have "operation_wf ?db (h v)" if v: "v \<in> set (rt_operations db)" for v
  proof (cases "v = w")
    case True
    then have "h v = f w" by (simp add: h_def)
    moreover have "op_state (f w) \<noteq> Running" "op_claim_token (f w) = None" "op_claim_expires (f w) = None"
        "op_attempts (f w) = op_attempts w"
      using ending_change_row [OF f, of w] by simp_all
    moreover have "0 \<le> op_attempts w" using wf_op [OF w(1)] by (simp add: operation_wf_def)
    ultimately show ?thesis by (simp add: operation_wf_unclaimed)
  next
    case False
    then have "h v = v" by (simp add: h_def)
    moreover have "open_attempts ?db (op_site v) (op_id v) t = open_attempts db (op_site v) (op_id v) t" for t
      using others [OF v False, of t] by (simp add: open_attempts_def)
    ultimately show ?thesis using wf_op [OF v] by (auto simp: operation_wf_def)
  qed
  moreover have "attempt_wf ?db (g a)" if "a \<in> set (rt_attempts db)" for a
  proof -
    have key: "operation_key (h v) = operation_key v" for v using h by (simp add: operation_key_def)
    from wf that have "attempt_wf db a" by (simp add: repository_wf_def)
    then show ?thesis unfolding attempt_wf_def using g [of a] by (auto simp: key h_attempts image_image)
  qed
  moreover have "one_active (map h (rt_operations db))"
  proof (rule one_active_map)
    show "op_active v" if "v \<in> set (rt_operations db)" "op_active (h v)" for v
      using that w by (cases "v = w") (auto simp: h_def op_active_def)
  qed (use wf h in \<open>simp_all add: repository_wf_def\<close>)
  moreover have "attempt_key \<circ> g = attempt_key" using g by (auto simp: attempt_key_def)
  then have "unique_by attempt_key (map g (rt_attempts db))"
    using wf by (simp add: unique_by_def repository_wf_def)
  moreover have "unique_by operation_key (map h (rt_operations db))" "unique_by idempotency_key (map h (rt_operations db))"
    using wf by (simp_all add: unique_keys_map [OF h] repository_wf_def)
  ultimately show ?thesis
    unfolding repository_wf_def db' by auto
qed

section \<open>Steps of the repository\<close>

text \<open>
  The writes of the repository, one transaction each.  A claim draws a token no attempt has
  (\<open>crypto.randomUUID\<close>); the other tables change freely.
\<close>

inductive repository_step :: "int \<Rightarrow> runtime_db \<Rightarrow> runtime_db \<Rightarrow> bool" for now where
  elsewhere: "rt_operations db' = rt_operations db \<Longrightarrow> rt_attempts db' = rt_attempts db \<Longrightarrow> repository_step now db db'"
| created: "repository_step now db (snd (insert_operation siteId uuid input now db))"
| claimed: "fresh_token db token \<Longrightarrow> repository_step now db (snd (claim_batch siteId operationId token e now db))"
| worked: "owned_change f \<Longrightarrow> repository_step now db (snd (stmt_owned siteId operationId token f now db))"
| ended: "ending_change f \<Longrightarrow>
    repository_step now db (snd (terminalBatch siteId operationId token f st stage err now db))"
| published: "repository_step now db (snd (stmt_publish siteId operationId job outcome receipt now db))"

inductive repository_reach :: "int \<Rightarrow> runtime_db \<Rightarrow> bool" where
  start: "repository_reach now empty_runtime_db"
| wait: "repository_reach now db \<Longrightarrow> now \<le> now' \<Longrightarrow> repository_reach now' db"
| step: "repository_reach now db \<Longrightarrow> repository_step now db db' \<Longrightarrow> repository_reach now db'"

lemma repository_wf_elsewhere:
  "rt_operations db' = rt_operations db \<Longrightarrow> rt_attempts db' = rt_attempts db \<Longrightarrow> repository_wf db' = repository_wf db"
  by (simp add: repository_wf_def operation_wf_def open_attempts_def attempt_wf_def)

lemma repository_step_wf: "repository_step now db db' \<Longrightarrow> repository_wf db \<Longrightarrow> repository_wf db'"
proof (induction rule: repository_step.induct)
  case (elsewhere db' db)
  with repository_wf_elsewhere [OF elsewhere(1,2)] show ?case by (simp only:)
next
  case (created db siteId uuid input)
  then show ?case by (rule insert_operation_wf)
next
  case (claimed db token siteId operationId e)
  show ?case
  proof (rule claim_batch_cases [OF claimed(2,1), of siteId operationId e now])
    assume "claim_batch siteId operationId token e now db = (Inr (0, 0), db)"
    with claimed(2) show ?case by (simp only: snd_conv)
  next
    fix w assume w: "w \<in> set (rt_operations db)" "claimable now w"
      and "claim_batch siteId operationId token e now db = (Inr (1, 1), claimed_db token e now w db)"
    with claimed_db_wf [OF claimed(2,1) w] show ?case by (simp only: snd_conv)
  qed
next
  case (worked f db siteId operationId token)
  then show ?case by (intro stmt_owned_wf)
next
  case (ended f db siteId operationId token st stage err)
  show ?case
  proof (rule terminalBatch_cases [OF ended(2), of siteId operationId token f st stage err now])
    assume "terminalBatch siteId operationId token f st stage err now db =
        (Inl (OperationConflict ''Operation claim expired or changed.''), db)"
    with ended(2) show ?case by (simp only: snd_conv)
  next
    fix w assume w: "owned_operation siteId operationId token now db w"
      and "terminalBatch siteId operationId token f st stage err now db =
        (Inr (), closed_db token w (f w) (close_attempt st stage err now) db)"
    with closed_db_wf [OF ended(2) w ended(1)] show ?case by (simp only: snd_conv)
  qed
next
  case (published db siteId operationId job outcome receipt)
  then show ?case by (rule stmt_publish_wf)
qed

lemma repository_reach_wf: "repository_reach now db \<Longrightarrow> repository_wf db"
  by (induction rule: repository_reach.induct) (auto intro: repository_step_wf)

end
