(* ===== verification/Repository_Calls.thy ===== *)
theory Repository_Calls
  imports Operation_Repository
begin

text \<open>
  The calls a client makes on \<open>D1OperationRepository\<close>, and what every sequence of them keeps.  Each
  call writes at most once, by one of the statements of \<open>Operation_Repository\<close>; \<open>call_cases\<close> says
  which, and the properties follow from it.
\<close>

section \<open>Calls\<close>

datatype repository_call =
    Create site_context operation_input string
  | Claim_next string string
  | Claim_operation string string string
  | Renew_claim string string string
  | Checkpoint string string string string int
  | Prepare_commit string string string int markdown_pointer jsval "string option"
  | Record_commit string string string
  | Complete string string string jsval "string option" string
  | Retry_later string string string operation_error int
  | Fail_operation string string string operation_error
  | Reconcile string string publication_outcome "string option"

definition reported :: "(operation_error + 'a) \<times> runtime_db \<Rightarrow> operation_error option \<times> runtime_db" where
  "reported r = (case r of (Inl e, db) \<Rightarrow> (Some e, db) | (Inr _, db) \<Rightarrow> (None, db))"

text \<open>\<open>now\<close> is the time the values were computed at, \<open>now'\<close> the time of the guard.\<close>

fun perform_call :: "int \<Rightarrow> int \<Rightarrow> int \<Rightarrow> repository_call \<Rightarrow> runtime_db \<Rightarrow> operation_error option \<times> runtime_db" where
  "perform_call claimMs now now' (Create site input uuid) db = reported (createOrConverge site input uuid now' db)"
| "perform_call claimMs now now' (Claim_next siteId token) db = reported (claimNext claimMs siteId token now' db)"
| "perform_call claimMs now now' (Claim_operation siteId operationId token) db =
     reported (claimOperation claimMs siteId operationId token now' db)"
| "perform_call claimMs now now' (Renew_claim siteId operationId token) db =
     reported (op_renew claimMs siteId operationId token now now' db)"
| "perform_call claimMs now now' (Checkpoint siteId operationId token stage progress) db =
     reported (op_checkpoint siteId operationId token stage progress now now' db)"
| "perform_call claimMs now now' (Prepare_commit siteId operationId token version pointer result job) db =
     reported (op_prepareCommit siteId operationId token version pointer result job now now' db)"
| "perform_call claimMs now now' (Record_commit siteId operationId token) db =
     reported (op_recordCommit siteId operationId token now now' db)"
| "perform_call claimMs now now' (Complete siteId operationId token result job url) db =
     reported (op_complete siteId operationId token result job url now now' db)"
| "perform_call claimMs now now' (Retry_later siteId operationId token err retryAt) db =
     reported (op_retry siteId operationId token err retryAt now now' db)"
| "perform_call claimMs now now' (Fail_operation siteId operationId token err) db =
     reported (op_fail siteId operationId token err now now' db)"
| "perform_call claimMs now now' (Reconcile siteId job outcome published) db =
     reported (reconcilePublication siteId job outcome published now' db)"

text \<open>The token a call works under, and the new one a claim draws.\<close>

fun call_token :: "repository_call \<Rightarrow> string option" where
  "call_token (Renew_claim _ _ token) = Some token"
| "call_token (Checkpoint _ _ token _ _) = Some token"
| "call_token (Prepare_commit _ _ token _ _ _ _) = Some token"
| "call_token (Record_commit _ _ token) = Some token"
| "call_token (Complete _ _ token _ _ _) = Some token"
| "call_token (Retry_later _ _ token _ _) = Some token"
| "call_token (Fail_operation _ _ token _) = Some token"
| "call_token _ = None"

fun claim_token_of :: "repository_call \<Rightarrow> string option" where
  "claim_token_of (Claim_next _ token) = Some token"
| "claim_token_of (Claim_operation _ _ token) = Some token"
| "claim_token_of _ = None"

definition call_admissible :: "runtime_db \<Rightarrow> repository_call \<Rightarrow> bool" where
  "call_admissible db call = (case claim_token_of call of None \<Rightarrow> True | Some token \<Rightarrow> fresh_token db token)"

section \<open>Which statement a call runs\<close>

lemma snd_reported [simp]: "snd (reported r) = snd r"
  by (simp add: reported_def split: prod.split sum.split)

lemma fst_reported: "fst (reported r) = (case fst r of Inl e \<Rightarrow> Some e | Inr _ \<Rightarrow> None)"
  by (simp add: reported_def split: prod.split sum.split)

lemma snd_ownedUpdate: "snd (ownedUpdate siteId operationId token f now db) = snd (stmt_owned siteId operationId token f now db)"
  by (simp add: ownedUpdate_def run_action throw_def succeed_def)

lemma snd_query_then: "snd (and_then (query f) k db) = snd (k (f db) db)"
  by (simp add: run_action)

lemma snd_claimExact:
  "snd (claimExact claimMs siteId operationId token now db)
   = snd (claim_batch siteId operationId token (now + claimMs) now db)"
  by (auto simp: claimExact_def and_then_def op_get_def query_def throw_def succeed_def
      split: prod.split sum.split option.split)

lemma snd_complete:
  "snd (op_complete siteId operationId token result job url now now' db) = db
   \<or> (\<exists>receipt pending st stage. snd (op_complete siteId operationId token result job url now now' db)
       = snd (terminalBatch siteId operationId token (complete_row receipt pending now) st stage None now' db))"
  unfolding op_complete_def op_get_def snd_query_then Let_def
  by (auto simp: throw_def split: option.split)

lemma snd_reconcile:
  "snd (reconcilePublication siteId job outcome published now db) = db
   \<or> (\<exists>operationId receipt. snd (reconcilePublication siteId job outcome published now db)
       = snd (stmt_publish siteId operationId job outcome receipt now db))"
  unfolding reconcilePublication_def
  by (auto simp: snd_query_then succeed_def and_then_execute Let_def split: option.split publication_status.split)

lemma op_byKey_state: "op_byKey siteId key db = (Inr (op_select (\<lambda>w. op_site w = siteId \<and> in_key (op_input w) = key) db), db)"
  by (simp add: op_byKey_def query_def)

lemma registerSite_rows:
  "rt_operations (snd (registerSite site db)) = rt_operations db
   \<and> rt_attempts (snd (registerSite site db)) = rt_attempts db"
  by (auto simp: registerSite_def run_action throw_def succeed_def require_def stmt_register_def split: option.split)

lemma snd_create_conflict [simp]: "snd (create_conflict siteId input err db) = db"
  by (auto simp: create_conflict_def and_then_def op_byKey_state query_def throw_def succeed_def split: option.split)

lemma snd_and_then:
  "snd (and_then m k db) = (case fst (m db) of Inl _ \<Rightarrow> snd (m db) | Inr x \<Rightarrow> snd (k x (snd (m db))))"
  by (simp add: and_then_def split: prod.split sum.split)

lemma snd_recover:
  "snd (recover m handler db) = (case fst (m db) of Inl e \<Rightarrow> snd (handler e (snd (m db))) | Inr _ \<Rightarrow> snd (m db))"
  by (simp add: recover_def split: prod.split sum.split)

lemma snd_pure [simp]: "snd (succeed x db) = db" "snd (throw e db) = db" "snd (query f db) = db"
  by (simp_all add: succeed_def throw_def query_def)

lemma snd_op_byKey [simp]: "snd (op_byKey siteId key db) = db"
  by (simp add: op_byKey_def)

lemma snd_and_then_pure: "(\<And>x s. snd (k x s) = s) \<Longrightarrow> snd (and_then m k db) = snd (m db)"
  by (simp add: snd_and_then split: sum.split)

lemma snd_recover_pure: "(\<And>e s. snd (handler e s) = s) \<Longrightarrow> snd (recover m handler db) = snd (m db)"
  by (simp add: snd_recover split: sum.split)

lemma snd_createNew: "snd (createNew siteId input uuid now db) = snd (insert_operation siteId uuid input now db)"
  unfolding createNew_def
  by (subst snd_and_then_pure, simp add: snd_and_then_pure split: option.split)
     (subst snd_recover_pure, simp, subst snd_and_then_pure, simp_all)

lemma snd_createOrConverge:
  "snd (createOrConverge site input uuid now db) = snd (registerSite site db)
   \<or> snd (createOrConverge site input uuid now db)
     = snd (insert_operation (ctx_id site) uuid input now (snd (registerSite site db)))"
  unfolding createOrConverge_def snd_and_then
  by (auto simp: op_byKey_state snd_createNew split: sum.split option.split)


lemma call_cases [consumes 0, case_names elsewhere created claimed worked ended published]:
  fixes claimMs now now' call db defines "db' \<equiv> snd (perform_call claimMs now now' call db)"
  obtains "rt_operations db' = rt_operations db" and "rt_attempts db' = rt_attempts db"
    | siteId uuid input base where "rt_operations base = rt_operations db" and "rt_attempts base = rt_attempts db"
      and "db' = snd (insert_operation siteId uuid input now' base)"
    | siteId operationId token e where "claim_token_of call = Some token"
      and "db' = snd (claim_batch siteId operationId token e now' db)"
    | siteId operationId token f where "call_token call = Some token" and "owned_change f"
      and "db' = snd (stmt_owned siteId operationId token f now' db)"
    | siteId operationId token f st stage err where "call_token call = Some token" and "ending_change f"
      and "db' = snd (terminalBatch siteId operationId token f st stage err now' db)"
    | siteId operationId job outcome receipt where
      "db' = snd (stmt_publish siteId operationId job outcome receipt now' db)"
proof (cases call)
  case (Create site input uuid)
  consider "db' = snd (registerSite site db)"
    | "db' = snd (insert_operation (ctx_id site) uuid input now' (snd (registerSite site db)))"
    using snd_createOrConverge [of site input uuid now' db] by (auto simp: db'_def Create)
  then show thesis
    by cases (use registerSite_rows [of site db] that(1,2) in auto)
next
  case (Claim_next siteId token)
  show thesis
  proof (cases "claim_candidates siteId now' db")
    case Nil
    with that(1) show thesis by (simp add: db'_def Claim_next claimNext_def snd_query_then)
  next
    case (Cons w ws)
    with that(3) [of token siteId "op_id w" "now' + claimMs"] show thesis
      by (simp add: db'_def Claim_next claimNext_def snd_query_then snd_claimExact)
  qed
next
  case (Claim_operation siteId operationId token)
  have "db' = db \<or> db' = snd (claim_batch siteId operationId token (now' + claimMs) now' db)"
    by (auto simp: db'_def Claim_operation claimOperation_def snd_query_then snd_claimExact split: option.split)
  with that(1,3) Claim_operation show thesis by auto
next
  case (Renew_claim siteId operationId token)
  with that(4) [where token = token and siteId = siteId and operationId = operationId and f = "renew_row claimMs now"] show thesis by (simp add: db'_def op_renew_def snd_ownedUpdate)
next
  case (Checkpoint siteId operationId token stage progress)
  have "db' = db \<or> db' = snd (stmt_owned siteId operationId token (checkpoint_row stage progress now) now' db)"
    by (simp add: db'_def Checkpoint op_checkpoint_def checked_progress_def snd_ownedUpdate)
  with that(1) that(4) [where token = token and siteId = siteId and operationId = operationId and f = "checkpoint_row stage progress now"] Checkpoint show thesis by auto
next
  case (Prepare_commit siteId operationId token version pointer result job)
  have "db' = db \<or> db' = snd (stmt_owned siteId operationId token (prepare_row version pointer result job now) now' db)"
    by (simp add: db'_def Prepare_commit op_prepareCommit_def snd_ownedUpdate)
  with that(1) that(4) [where token = token and siteId = siteId and operationId = operationId and f = "prepare_row version pointer result job now"] Prepare_commit show thesis by auto
next
  case (Record_commit siteId operationId token)
  with that(4) [where token = token and siteId = siteId and operationId = operationId and f = "commit_row now"] show thesis by (simp add: db'_def op_recordCommit_def snd_ownedUpdate)
next
  case (Complete siteId operationId token result job url)
  from snd_complete [of siteId operationId token result job url now now' db] show thesis
  proof (elim disjE exE)
    fix receipt pending st stage
    assume "snd (op_complete siteId operationId token result job url now now' db)
      = snd (terminalBatch siteId operationId token (complete_row receipt pending now) st stage None now' db)"
    with that(5) [where token = token and siteId = siteId and operationId = operationId and st = st and stage = stage
        and err = None and f = "complete_row receipt pending now"] Complete show thesis by (simp add: db'_def)
  qed (use that(1) Complete in \<open>simp add: db'_def\<close>)
next
  case (Retry_later siteId operationId token err retryAt)
  with that(5) [where token = token and siteId = siteId and operationId = operationId and f = "finish_row Finish_retryable (sanitizeError err) (Some retryAt) now"
        and st = Retryable and stage = "''retryable''" and err = "Some (sanitizeError err)"] show thesis
    by (simp add: db'_def op_retry_def op_finish_def)
next
  case (Fail_operation siteId operationId token err)
  with that(5) [where token = token and siteId = siteId and operationId = operationId and f = "finish_row Finish_failed (sanitizeError err) None now"
        and st = Failed and stage = "''failed''" and err = "Some (sanitizeError err)"] show thesis
    by (simp add: db'_def op_fail_def op_finish_def)
next
  case (Reconcile siteId job outcome published)
  with snd_reconcile [of siteId job outcome published now' db] that(1,6) show thesis
    by (auto simp: db'_def)
qed

lemma perform_call_step:
  assumes "call_admissible db call" and "repository_wf db"
  shows "repository_wf (snd (perform_call claimMs now now' call db))"
proof (cases claimMs now now' call db rule: call_cases)
  case elsewhere
  with assms(2) repository_wf_elsewhere show ?thesis by blast
next
  case (created siteId uuid input base)
  with assms(2) repository_wf_elsewhere [of base db] insert_operation_wf [of base] show ?thesis by simp
next
  case (claimed siteId operationId token e)
  with assms(1) have "fresh_token db token" by (simp add: call_admissible_def)
  from repository_step_wf [OF repository_step.claimed [OF this] assms(2)] claimed show ?thesis by simp
next
  case (worked siteId operationId token f)
  with assms(2) show ?thesis by (simp add: stmt_owned_wf)
next
  case (ended siteId operationId token f st stage err)
  with repository_step_wf [OF repository_step.ended [OF ended(2)] assms(2)] show ?thesis by simp
next
  case (published siteId operationId job outcome receipt)
  with assms(2) show ?thesis by (simp add: stmt_publish_wf)
qed

section \<open>What a call does to a row\<close>

inductive row_step :: "int \<Rightarrow> repository_call \<Rightarrow> runtime_db \<Rightarrow> operation_row \<Rightarrow> operation_row \<Rightarrow> bool"
  for now call db where
  row_same: "row_step now call db w w"
| row_claimed: "claim_token_of call = Some token \<Longrightarrow> claimable now w \<Longrightarrow> activeLifecycle db now w \<Longrightarrow>
    row_step now call db w (claim_row token e now w)"
| row_worked: "call_token call = Some token \<Longrightarrow> owned_by token now w \<Longrightarrow> activeLifecycle db now w \<Longrightarrow>
    owned_change f \<Longrightarrow> row_step now call db w (f w)"
| row_ended: "call_token call = Some token \<Longrightarrow> owned_by token now w \<Longrightarrow> activeLifecycle db now w \<Longrightarrow>
    ending_change f \<Longrightarrow> row_step now call db w (f w)"
| row_published: "op_state w = Publication_pending \<Longrightarrow> activeLifecycle db now w \<Longrightarrow>
    row_step now call db w (published_row outcome receipt now w)"

lemma rows_of_update:
  assumes "\<And>w. w \<in> set (rt_operations db) \<Longrightarrow> c db w \<Longrightarrow> row_step now call db w (f w)"
    and "w \<in> set (rt_operations db)"
  shows "\<exists>w' \<in> set (rt_operations (snd (update_operations c f db))). row_step now call db w w'"
  using assms row_same [of now call db w] by (cases "c db w") (force simp: update_operations_rows)+

lemma call_rows:
  assumes wf: "repository_wf db" and adm: "call_admissible db call" and w: "w \<in> set (rt_operations db)"
  shows "\<exists>w' \<in> set (rt_operations (snd (perform_call claimMs now now' call db))). row_step now' call db w w'"
proof (cases claimMs now now' call db rule: call_cases)
  case elsewhere
  with w row_same [of now' call db w] show ?thesis by auto
next
  case (created siteId uuid input base)
  with w have "w \<in> set (rt_operations (snd (perform_call claimMs now now' call db)))"
    by (auto simp: insert_operation_def Let_def)
  with row_same [of now' call db w] show ?thesis by blast
next
  case (claimed siteId operationId token e)
  from adm claimed(1) have "fresh_token db token" by (simp add: call_admissible_def)
  then show ?thesis
  proof (rule claim_batch_cases [OF wf, of token siteId operationId e now'])
    assume "claim_batch siteId operationId token e now' db = (Inr (0, 0), db)"
    with claimed(2) w row_same [of now' call db w] show ?thesis by auto
  next
    fix v assume v: "claimable now' v" "activeLifecycle db now' v"
      and "claim_batch siteId operationId token e now' db = (Inr (1, 1), claimed_db token e now' v db)"
    then have rows: "rt_operations (snd (perform_call claimMs now now' call db))
        = map (\<lambda>u. if u = v then claim_row token e now' v else u) (rt_operations db)"
      using claimed(2) by (simp add: claimed_db_def)
    show ?thesis
      using row_claimed [OF claimed(1) v, of e] row_same [of now' call db w] w
      by (cases "w = v") (auto simp: rows)
  qed
next
  case (worked siteId operationId token f)
  show ?thesis
    unfolding worked(3) stmt_owned_def
    by (rule rows_of_update) (use w worked in \<open>auto intro: row_worked\<close>)
next
  case (ended siteId operationId token f st stage err)
  show ?thesis
  proof (rule terminalBatch_cases [OF wf, of siteId operationId token f st stage err now'])
    assume "terminalBatch siteId operationId token f st stage err now' db =
        (Inl (OperationConflict ''Operation claim expired or changed.''), db)"
    with ended(3) w row_same [of now' call db w] show ?thesis by auto
  next
    fix v assume v: "owned_operation siteId operationId token now' db v"
      and "terminalBatch siteId operationId token f st stage err now' db =
        (Inr (), closed_db token v (f v) (close_attempt st stage err now') db)"
    then have rows: "rt_operations (snd (perform_call claimMs now now' call db))
        = map (\<lambda>u. if u = v then f v else u) (rt_operations db)"
      using ended(3) by (simp add: closed_db_def replace_operation_def)
    have "row_step now' call db v (f v)"
      using v ended by (auto simp: owned_operation_def intro: row_ended)
    with row_same [of now' call db w] w show ?thesis by (cases "w = v") (auto simp: rows)
  qed
next
  case (published siteId operationId job outcome receipt)
  show ?thesis
    unfolding published stmt_publish_def
    by (rule rows_of_update) (use w in \<open>auto intro: row_published\<close>)
qed

inductive_cases row_stepE: "row_step now call db w w'"

text \<open>The states an operation may move to.\<close>

fun may_follow :: "operation_state \<Rightarrow> operation_state \<Rightarrow> bool" where
  "may_follow Queued s = (s \<in> {Queued, Running})"
| "may_follow Retryable s = (s \<in> {Retryable, Running})"
| "may_follow Running s = (s \<noteq> Queued)"
| "may_follow Publication_pending s = (s \<in> {Publication_pending, Succeeded, Failed})"
| "may_follow Succeeded s = (s = Succeeded)"
| "may_follow Failed s = (s = Failed)"

lemma may_follow_same [simp]: "may_follow s s"
  by (cases s) auto

lemma row_step_follows: "row_step now call db w w' \<Longrightarrow> may_follow (op_state w) (op_state w')"
proof (induction rule: row_step.induct)
  case (row_claimed token w e)
  then show ?case by (auto simp: claimable_def claim_row_def)
next
  case (row_worked token w f)
  then show ?case by (auto simp: owned_change_def owned_by_def)
next
  case (row_ended token w f)
  then show ?case using ending_change_row [OF row_ended(4), of w]
    by (auto simp: owned_by_def)
next
  case (row_published w outcome receipt)
  then show ?case by (simp add: published_row_def)
qed simp

lemma row_step_identity: "row_step now call db w w' \<Longrightarrow>
  op_site w' = op_site w \<and> op_id w' = op_id w \<and> op_input w' = op_input w \<and> op_attempts w \<le> op_attempts w'"
  by (induction rule: row_step.induct)
    (simp_all add: owned_change_def ending_change_def keeps_identity_def claim_row_def published_row_def)

lemma row_step_exclusive:
  "row_step now call db w w' \<Longrightarrow> owned_by token now w \<Longrightarrow> call_token call \<noteq> Some token \<Longrightarrow> w' = w"
  by (erule row_stepE) (auto simp: owned_not_claimable, auto simp: owned_by_def)

lemma row_step_terminal: "row_step now call db w w' \<Longrightarrow> op_state w \<in> {Succeeded, Failed} \<Longrightarrow> w' = w"
  by (erule row_stepE) (auto simp: owned_by_def claimable_def)

lemma row_step_fenced: "row_step now call db w w' \<Longrightarrow> \<not> activeLifecycle db now w \<Longrightarrow> w' = w"
  by (erule row_stepE) auto

section \<open>Sequences of calls\<close>

text \<open>Other components write the other tables at any time.\<close>

inductive call_reach :: "int \<Rightarrow> int \<Rightarrow> runtime_db \<Rightarrow> bool" for claimMs where
  start: "call_reach claimMs now empty_runtime_db"
| other: "call_reach claimMs now db \<Longrightarrow> rt_operations db' = rt_operations db \<Longrightarrow> rt_attempts db' = rt_attempts db \<Longrightarrow>
    call_reach claimMs now db'"
| call: "call_reach claimMs now db \<Longrightarrow> now \<le> at' \<Longrightarrow> at' \<le> now' \<Longrightarrow> call_admissible db c \<Longrightarrow>
    call_reach claimMs now' (snd (perform_call claimMs at' now' c db))"

lemma call_reach_wf: "call_reach claimMs now db \<Longrightarrow> repository_wf db"
proof (induction rule: call_reach.induct)
  case (other now db db')
  with repository_wf_elsewhere show ?case by blast
qed (simp_all add: perform_call_step)

section \<open>A call without the claim\<close>

lemma refused_stmt_owned:
  assumes "repository_wf db" and "\<And>w. \<not> owned_operation siteId operationId token now db w"
  shows "stmt_owned siteId operationId token f now db = (0, db)"
  using assms by (cases rule: stmt_owned_cases [OF assms(1), of siteId operationId token f now]) auto

lemma refused_ownedUpdate:
  "repository_wf db \<Longrightarrow> (\<And>w. \<not> owned_operation siteId operationId token now db w) \<Longrightarrow>
   ownedUpdate siteId operationId token f now db
     = (Inl (OperationConflict ''Operation claim expired or changed.''), db)"
  by (simp add: ownedUpdate_def run_action refused_stmt_owned throw_def)

lemma refused_terminalBatch:
  assumes "repository_wf db" and "\<And>w. \<not> owned_operation siteId operationId token now db w"
  shows "terminalBatch siteId operationId token f st stage err now db
     = (Inl (OperationConflict ''Operation claim expired or changed.''), db)"
  using assms by (cases rule: terminalBatch_cases [OF assms(1), of siteId operationId token f st stage err now]) auto

lemma unowned_call_refused:
  assumes wf: "repository_wf db" and token: "call_token call = Some token"
    and no: "\<And>w. w \<in> set (rt_operations db) \<Longrightarrow> \<not> (owned_by token now' w \<and> activeLifecycle db now' w)"
  shows "\<exists>e. perform_call claimMs now now' call db = (Some e, db)"
proof -
  have none: "\<not> owned_operation siteId operationId token now' db w" for siteId operationId w
    using no by (auto simp: owned_operation_def)
  note refused = refused_ownedUpdate [OF wf none] refused_terminalBatch [OF wf none]
  show ?thesis
    using token none no
    by (cases call)
      (auto simp: reported_def refused op_renew_def op_checkpoint_def checked_progress_def op_prepareCommit_def
        op_recordCommit_def op_retry_def op_fail_def op_finish_def op_complete_def op_get_def and_then_query throw_def Let_def
        split: option.split)
qed

section \<open>Creating the same operation twice\<close>

lemma registerSite_again:
  assumes "fst (registerSite site db) = Inr ()" and "site_of db' (ctx_id site) = site_of (snd (registerSite site db)) (ctx_id site)"
  shows "registerSite site db' = (Inr (), db')"
proof -
  from assms(1) obtain s where s: "site_of (snd (registerSite site db)) (ctx_id site) = Some s"
      "sr_hostname s = ctx_hostname site" "sr_origin s = ctx_origin site"
    by (auto simp: registerSite_def run_action throw_def succeed_def require_def split: option.splits if_splits)
  then have "stmt_register site db' = (0, db')" using assms(2) by (simp add: stmt_register_def)
  with s assms(2) show ?thesis
    by (simp add: registerSite_def run_action require_def succeed_def)
qed

lemma insert_operation_sites: "rt_sites (snd (insert_operation siteId uuid input now db)) = rt_sites db"
  by (simp add: insert_operation_def Let_def)

lemma op_select_input:
  assumes "op_select (\<lambda>w. op_site w = siteId \<and> P w) db = Some e"
  obtains w where "w \<in> set (rt_operations db)" and "op_site w = siteId" and "P w" and "so_input e = op_input w"
proof -
  from assms obtain w where "find (\<lambda>w. (op_site w = siteId \<and> P w) \<and> site_of db (op_site w) \<noteq> None) (rt_operations db) = Some w"
    and "so_input e = op_input w"
    by (auto simp: op_select_def op_hydrate_def operationFromRow_def split: option.splits)
  with that show thesis using find_sql by fast
qed

lemma createNew_created:
  assumes wf: "repository_wf db" and none: "op_select (\<lambda>w. op_site w = siteId \<and> in_key (op_input w) = in_key input) db = None"
    and success: "createNew siteId input uuid now db = (Inr (e, created), db')"
  shows "op_select (\<lambda>w. op_site w = siteId \<and> in_key (op_input w) = in_key input) db' = Some e
    \<and> so_input e = input \<and> created \<and> rt_sites db' = rt_sites db"
proof -
  define row where "row = new_operation siteId uuid input (map_option lc_operation_fence (site_lifecycle db siteId)) now"
  have row: "op_site row = siteId" "op_input row = input" by (simp_all add: row_def new_operation_def)
  have ins: "insert_operation siteId uuid input now db = (Inr 1, db\<lparr>rt_operations := rt_operations db @ [row]\<rparr>)"
  proof (rule ccontr)
    assume "\<not> ?thesis"
    then have "insert_operation siteId uuid input now db \<in> {(Inr 0, db), (Inl ConstraintFailure, db)}"
      unfolding insert_operation_def Let_def by (fold row_def) (auto split: if_splits)
    then show False
      using success none
      by (auto simp: createNew_def recover_def create_conflict_def run_action op_byKey_def and_then_def throw_def query_def
          split: if_splits)
  qed
  let ?db = "db\<lparr>rt_operations := rt_operations db @ [row]\<rparr>"
  from success ins have db': "db' = ?db" and created: created
    and found: "op_select (\<lambda>w. op_site w = siteId \<and> in_key (op_input w) = in_key input) ?db = Some e"
    by (auto simp: createNew_def recover_def and_then_def op_byKey_def throw_def query_def succeed_def split: option.splits)
  have "repository_wf ?db" using insert_operation_wf [OF wf, of siteId uuid input now] ins by simp
  moreover obtain w where w: "w \<in> set (rt_operations ?db)" "op_site w = siteId" "in_key (op_input w) = in_key input"
      "so_input e = op_input w"
    using op_select_input [OF found] by blast
  ultimately have "w = row"
    using row by (intro unique_by_eq [of idempotency_key "rt_operations ?db"])
      (auto simp: repository_wf_def idempotency_key_def)
  with w row db' created found show ?thesis by simp
qed

lemma create_again:
  assumes wf: "repository_wf db" and success: "createOrConverge site input uuid now db = (Inr (e, created), db')"
    and key: "in_key input' = in_key input"
  shows "createOrConverge site input' uuid' now' db' =
    (if in_fingerprint input' = in_fingerprint input then (Inr (e, False), db')
     else (Inl (OperationConflict ''The idempotency key is already bound to a different immutable input.''), db'))"
proof -
  let ?P = "\<lambda>w. op_site w = ctx_id site \<and> in_key (op_input w) = in_key input"
  define db0 where "db0 = snd (registerSite site db)"
  have reg: "registerSite site db = (Inr (), db0)"
    using success unfolding db0_def createOrConverge_def and_then_def by (auto split: prod.splits sum.splits)
  have wf0: "repository_wf db0"
    using wf repository_wf_elsewhere [of db0 db] registerSite_rows [of site db] by (simp add: db0_def)
  have "op_select ?P db' = Some e \<and> in_fingerprint (so_input e) = in_fingerprint input \<and> rt_sites db' = rt_sites db0"
  proof (cases "op_select ?P db0")
    case None
    then have "createNew (ctx_id site) input uuid now db0 = (Inr (e, created), db')"
      using success by (simp add: createOrConverge_def and_then_def reg op_byKey_state)
    from createNew_created [OF wf0 None this] show ?thesis by simp
  next
    case (Some e0)
    with success show ?thesis
      by (auto simp: createOrConverge_def and_then_def reg op_byKey_state throw_def succeed_def split: if_splits)
  qed
  moreover from this have "registerSite site db' = (Inr (), db')"
    using reg by (intro registerSite_again [of site db]) (simp_all add: site_of_def)
  ultimately show ?thesis
    using key by (simp add: createOrConverge_def and_then_def op_byKey_state throw_def succeed_def)
qed

section \<open>Properties of the operation repository\<close>

text \<open>
  C8: whatever calls were made in whatever order, a site has at most one active operation, no two
  operations share an idempotency key, and a running operation has a claim with exactly one open attempt.
\<close>

theorem repository_consistent:
  assumes "call_reach claimMs now db"
  shows "length (filter (\<lambda>w. op_site w = siteId \<and> op_active w) (rt_operations db)) \<le> 1
    \<and> distinct (map idempotency_key (rt_operations db))
    \<and> (\<forall>w \<in> set (rt_operations db). op_state w = Running \<longrightarrow>
      (\<exists>token. op_claim_token w = Some token \<and> length (open_attempts db (op_site w) (op_id w) token) = 1))"
  using call_reach_wf [OF assms]
  by (auto simp: repository_wf_def one_active_def unique_by_def operation_wf_def)

definition sample_site :: site_context where
  "sample_site = \<lparr>ctx_id = ''s'', ctx_hostname = ''h'', ctx_origin = ''u''\<rparr>"

definition sample_input :: operation_input where
  "sample_input = \<lparr>in_key = ''k'', in_fingerprint = ''f'', in_r2Key = ''r'', in_sha256 = ''x'', in_size = 1,
     in_slug = ''a'', in_name = ''b'', in_siteTitle = ''t''\<rparr>"

definition sample_created :: runtime_db where
  "sample_created = snd (perform_call 60 1 1 (Create sample_site sample_input ''o1'') empty_runtime_db)"

definition sample_claimed :: runtime_db where
  "sample_claimed = snd (perform_call 60 2 2 (Claim_next ''s'' ''t1'') sample_created)"

lemmas repository_eval = execute_def reported_def createOrConverge_def createNew_def registerSite_def stmt_register_def run_action
  recover_def insert_operation_def new_operation_def site_lifecycle_def site_of_def lifecycle_at_def activeLifecycle_def
  op_byKey_def op_select_def op_get_def query_def throw_def succeed_def require_def and_then_def empty_runtime_db_def
  claimNext_def claim_candidates_def claimExact_def claim_batch_def stmt_claim_def update_operations_rows claimable_def
  sql_due_def claim_row_def attempt_for_def attempt_key_def sample_site_def sample_input_def sql_select_def
  op_hydrate_def operationFromRow_def owned_by_def

lemma sample_created_rows:
  "rt_operations sample_created = [new_operation ''s'' ''o1'' sample_input None 1]" "rt_attempts sample_created = []"
  "rt_sites sample_created = [\<lparr>sr_id = ''s'', sr_hostname = ''h'', sr_origin = ''u'', sr_generation = 1\<rparr>]"
  "rt_lifecycles sample_created = []"
  by (simp_all add: sample_created_def repository_eval)

lemma sample_created_reach: "call_reach 60 1 sample_created"
  unfolding sample_created_def
  by (rule call_reach.call [OF call_reach.start [of _ 1]]) (simp_all add: call_admissible_def)

lemma sample_claimed_rows:
  "rt_operations sample_claimed = [claim_row ''t1'' 62 2 (new_operation ''s'' ''o1'' sample_input None 1)]"
  "rt_attempts sample_claimed = [attempt_for ''t1'' 2 (claim_row ''t1'' 62 2 (new_operation ''s'' ''o1'' sample_input None 1))]"
  "rt_sites sample_claimed = rt_sites sample_created" "rt_lifecycles sample_claimed = []"
  by (simp_all add: sample_claimed_def repository_eval sample_created_rows)

lemma sample_claimed_reach: "call_reach 60 2 sample_claimed"
  unfolding sample_claimed_def
  by (rule call_reach.call [OF sample_created_reach])
     (simp_all add: call_admissible_def fresh_token_def sample_created_rows)

theorem repository_consistent_witness:
  "length (filter (\<lambda>w. op_site w = ''s'' \<and> op_active w) (rt_operations sample_claimed)) \<le> 1"
  using repository_consistent [OF sample_claimed_reach] by blast

text \<open>
  C7: while a token owns an operation (it is running, under the token, before the claim's expiry), no
  call under another token, no claim and no publication changes the operation's row.
\<close>

theorem claim_exclusive:
  assumes "call_reach claimMs t db" and "call_admissible db call" and "w \<in> set (rt_operations db)"
    and "owned_by token now' w" and "call_token call \<noteq> Some token"
  shows "w \<in> set (rt_operations (snd (perform_call claimMs now now' call db)))"
proof -
  obtain w' where "w' \<in> set (rt_operations (snd (perform_call claimMs now now' call db)))" "row_step now' call db w w'"
    using call_rows [OF call_reach_wf [OF assms(1)] assms(2,3)] by blast
  with row_step_exclusive [OF this(2) assms(4,5)] show ?thesis by simp
qed

theorem claim_exclusive_witness:
  "claim_row ''t1'' 62 2 (new_operation ''s'' ''o1'' sample_input None 1)
   \<in> set (rt_operations (snd (perform_call 60 30 30 (Claim_operation ''s'' ''o1'' ''t2'') sample_claimed)))"
  by (rule claim_exclusive [OF sample_claimed_reach, where token = "''t1''"])
     (simp_all add: call_admissible_def fresh_token_def sample_claimed_rows attempt_for_def owned_by_def claim_row_def)



text \<open>
  C10: once the lifecycle of its allocation is fenced, expired or replaced, no call changes an operation.
\<close>

theorem fenced_operation_untouched:
  assumes "call_reach claimMs t db" and "call_admissible db call" and "w \<in> set (rt_operations db)"
    and "\<not> activeLifecycle db now' w"
  shows "w \<in> set (rt_operations (snd (perform_call claimMs now now' call db)))"
proof -
  obtain w' where "w' \<in> set (rt_operations (snd (perform_call claimMs now now' call db)))" "row_step now' call db w w'"
    using call_rows [OF call_reach_wf [OF assms(1)] assms(2,3)] by blast
  with row_step_fenced [OF this(2) assms(4)] show ?thesis by simp
qed

definition sample_fenced :: runtime_db where
  "sample_fenced = sample_claimed\<lparr>rt_lifecycles := [\<lparr>lc_site = ''s'', lc_generation = 1, lc_principal = ''p'',
     lc_state = Deleting, lc_expires_at = 9, lc_retain_until = 9, lc_mutation_fence = 1, lc_operation_fence = 2,
     lc_cursor = None, lc_deleted_objects = 0, lc_deleted_bytes = 0, lc_deleted_records = 0, lc_receipt = None,
     lc_terminal_at = None, lc_updated_at = 3\<rparr>]\<rparr>"

theorem fenced_operation_untouched_witness:
  "claim_row ''t1'' 62 2 (new_operation ''s'' ''o1'' sample_input None 1)
   \<in> set (rt_operations (snd (perform_call 60 5 5 (Fail_operation ''s'' ''o1'' ''t1'' NonError) sample_fenced)))"
proof (rule fenced_operation_untouched)
  show "call_reach 60 2 sample_fenced"
    by (rule call_reach.other [OF sample_claimed_reach]) (simp_all add: sample_fenced_def)
qed (simp_all add: call_admissible_def sample_fenced_def sample_claimed_rows sample_created_rows activeLifecycle_def
    site_of_def lifecycle_at_def claim_row_def new_operation_def)

text \<open>
  C11: a call under a token that owns no operation of an active allocation is refused and changes nothing.
\<close>

theorem unowned_calls_refused:
  assumes "call_reach claimMs t db" and "call_token call = Some token"
    and "\<forall>w \<in> set (rt_operations db). \<not> (owned_by token now' w \<and> activeLifecycle db now' w)"
  shows "\<exists>e. perform_call claimMs now now' call db = (Some e, db)"
  using unowned_call_refused [OF call_reach_wf [OF assms(1)] assms(2)] assms(3) by blast

theorem unowned_calls_refused_witness:
  "\<exists>e. perform_call 60 62 62 (Renew_claim ''s'' ''o1'' ''t1'') sample_claimed = (Some e, sample_claimed)"
  by (rule unowned_calls_refused [OF sample_claimed_reach]) (simp_all add: sample_claimed_rows owned_by_def claim_row_def)

text \<open>
  C12: creating is idempotent.  After a successful create, a second one with the same key and
  fingerprint answers with the same operation and writes nothing; with another fingerprint it is a conflict.
\<close>

theorem create_idempotent:
  assumes "call_reach claimMs t db" and "createOrConverge site input uuid now db = (Inr (e, created), db')"
    and "in_key input' = in_key input"
  shows "createOrConverge site input' uuid' now' db' =
    (if in_fingerprint input' = in_fingerprint input then (Inr (e, False), db')
     else (Inl (OperationConflict ''The idempotency key is already bound to a different immutable input.''), db'))"
  by (rule create_again [OF call_reach_wf [OF assms(1)] assms(2,3)])

theorem create_idempotent_witness:
  "snd (createOrConverge sample_site sample_input ''o2'' 7 sample_created) = sample_created"
proof -
  let ?run = "createOrConverge sample_site sample_input ''o1'' 1 empty_runtime_db"
  have "case fst ?run of Inl _ \<Rightarrow> False | Inr _ \<Rightarrow> True" by (simp add: repository_eval)
  then obtain e created where "fst ?run = Inr (e, created)" by (auto split: sum.splits)
  moreover have "snd ?run = sample_created" by (simp add: sample_created_def)
  ultimately have "?run = (Inr (e, created), sample_created)" by (simp add: prod_eq_iff)
  from create_idempotent [OF call_reach.start this refl, of "''o2''" 7] show ?thesis by simp
qed

end
