(* ===== verification/Dispatch_Repository.thy ===== *)
theory Dispatch_Repository
  imports Operation_Repository
begin

text \<open>
  The runtime dispatches of \<open>D1OperationRepository\<close>
  (\<open>packages/runtime-cloudflare/src/d1-operation-repository.ts\<close>): staging a dispatch, admitting it
  under the queue policy, its delivery, processing, retries and dead letters, the periodic repair, and
  the alternation between the two kinds of work of a site.
\<close>

section \<open>Statements on dispatches\<close>

definition message_key :: "runtime_queue_message \<Rightarrow> string \<times> int \<times> queue_kind \<times> string" where
  "message_key m = (qm_siteId m, qm_generation m, qm_kind m, qm_identity m)"

definition update_dispatches :: "(dispatch_row \<Rightarrow> bool) \<Rightarrow> (dispatch_row \<Rightarrow> dispatch_row) \<Rightarrow> runtime_statement" where
  "update_dispatches c f db =
     (case sql_update c f (rt_dispatches db) of (n, rows) \<Rightarrow> (n, db\<lparr>rt_dispatches := rows\<rparr>))"

definition stmt_dispatch ::
    "runtime_queue_message \<Rightarrow> (dispatch_row \<Rightarrow> bool) \<Rightarrow> (dispatch_row \<Rightarrow> dispatch_row) \<Rightarrow> runtime_statement" where
  "stmt_dispatch m c f = update_dispatches (\<lambda>d. dispatch_key d = message_key m \<and> c d) f"

definition stmt_insert_dispatch :: "dispatch_row \<Rightarrow> runtime_statement" where
  "stmt_insert_dispatch row db =
     (case sql_insert_ignore dispatch_key row (rt_dispatches db) of (n, rows) \<Rightarrow> (n, db\<lparr>rt_dispatches := rows\<rparr>))"

definition new_dispatch :: "string \<Rightarrow> int \<Rightarrow> queue_kind \<Rightarrow> string \<Rightarrow> string \<Rightarrow> int \<Rightarrow> dispatch_row" where
  "new_dispatch siteId generation kind identity owner now =
     \<lparr>ds_site = siteId, ds_generation = generation, ds_kind = kind, ds_identity = identity, ds_principal = owner,
      ds_state = Backpressured, ds_attempts = 0, ds_last_error = None, ds_retry_at = None, ds_sent_at = None,
      ds_processing_at = None, ds_completed_at = None, ds_updated_at = now\<rparr>"

definition dispatch_of :: "runtime_db \<Rightarrow> runtime_queue_message \<Rightarrow> dispatch_row option" where
  "dispatch_of db m = find (\<lambda>d. dispatch_key d = message_key m) (rt_dispatches db)"

section \<open>Staging and admission\<close>

definition dispatch_principal_ok :: "string \<Rightarrow> bool" where
  "dispatch_principal_ok s \<longleftrightarrow> s \<noteq> [] \<and> length s \<le> 128
     \<and> list_all (\<lambda>c. is_alnum c \<or> c \<in> {CHR ''.'', CHR ''_'', CHR '':'', CHR ''@'', CHR ''-''}) s"

definition message_or_fail :: "string + runtime_queue_message \<Rightarrow> runtime_queue_message runtime_action" where
  "message_or_fail r = from_result (case r of Inl e \<Rightarrow> Inl (OperationFailure e) | Inr m \<Rightarrow> Inr m)"

definition stageDispatch ::
    "site_context \<Rightarrow> queue_kind \<Rightarrow> string \<Rightarrow> string \<Rightarrow> int \<Rightarrow> runtime_queue_message runtime_action" where
  "stageDispatch site kind identity owner now =
     and_then (registerSite site) (\<lambda>_.
     and_then (require (dispatch_principal_ok owner) (OperationConflict ''Runtime dispatch principal is invalid.'')) (\<lambda>_.
     and_then (query (\<lambda>db. site_of db (ctx_id site))) (\<lambda>row.
       case row of
         None \<Rightarrow> throw (OperationConflict ''The site is not active for queue dispatch.'')
       | Some s \<Rightarrow>
           and_then (message_or_fail (runtimeQueueMessage (ctx_id site) (JInt (sr_generation s)) kind identity)) (\<lambda>message.
           and_then (execute (stmt_insert_dispatch
               (new_dispatch (ctx_id site) (sr_generation s) kind identity owner now))) (\<lambda>_.
           and_then (query (\<lambda>db. dispatch_of db message)) (\<lambda>stored.
           and_then (require (map_option ds_principal stored = Some owner)
               (OperationConflict ''Runtime dispatch identity is bound to another principal.'')) (\<lambda>_.
             succeed message)))))))"

definition ds_active :: "dispatch_row \<Rightarrow> bool" where
  "ds_active d \<longleftrightarrow> ds_state d \<in> {Pending, Sent, Processing, Dispatch_retryable}"

definition active_dispatches :: "runtime_db \<Rightarrow> dispatch_row list" where
  "active_dispatches db = filter ds_active (rt_dispatches db)"

definition principal_dispatches :: "runtime_db \<Rightarrow> string \<Rightarrow> dispatch_row list" where
  "principal_dispatches db p = filter (\<lambda>d. ds_principal d = p \<and> ds_active d) (rt_dispatches db)"

definition stmt_admit :: "runtime_queue_message \<Rightarrow> runtime_queue_policy \<Rightarrow> int \<Rightarrow> runtime_statement" where
  "stmt_admit m policy now db =
     stmt_dispatch m
       (\<lambda>d. ds_state d = Backpressured \<and> int (length (active_dispatches db)) < maxActive policy
            \<and> int (length (principal_dispatches db (ds_principal d))) < maxActivePerPrincipal policy)
       (\<lambda>d. d\<lparr>ds_state := Pending, ds_retry_at := None, ds_updated_at := now\<rparr>) db"

definition dispatchState :: "runtime_queue_message \<Rightarrow> dispatch_state option runtime_action" where
  "dispatchState m = query (\<lambda>db. map_option ds_state (dispatch_of db m))"

definition dispatchPrincipal :: "runtime_queue_message \<Rightarrow> string option runtime_action" where
  "dispatchPrincipal m = query (\<lambda>db. map_option ds_principal (dispatch_of db m))"

definition admitDispatch :: "runtime_queue_message \<Rightarrow> runtime_queue_policy \<Rightarrow> int \<Rightarrow> bool runtime_action" where
  "admitDispatch m policy now =
     and_then (execute (stmt_admit m policy now)) (\<lambda>changes.
       if changes = 1 then succeed True
       else and_then (dispatchState m) (\<lambda>state. succeed (state \<noteq> None \<and> state \<noteq> Some Backpressured \<and> state \<noteq> Some Dead_letter)))"

definition matchesGeneration :: "string \<Rightarrow> int \<Rightarrow> runtime_db \<Rightarrow> bool" where
  "matchesGeneration siteId generation db = (map_option sr_generation (site_of db siteId) = Some generation)"

section \<open>Delivery and processing\<close>

definition stmt_delivered :: "runtime_queue_message \<Rightarrow> int \<Rightarrow> runtime_statement" where
  "stmt_delivered m now = stmt_dispatch m (\<lambda>d. ds_state d \<in> {Pending, Dispatch_retryable})
     (\<lambda>d. d\<lparr>ds_state := Sent, ds_attempts := ds_attempts d + 1, ds_sent_at := Some now, ds_last_error := None,
            ds_updated_at := now\<rparr>)"

definition deliveredDispatch :: "runtime_queue_message \<Rightarrow> int \<Rightarrow> unit runtime_action" where
  "deliveredDispatch m now = and_then (execute (stmt_delivered m now)) (\<lambda>_. succeed ())"

definition stmt_processing :: "runtime_queue_message \<Rightarrow> int \<Rightarrow> runtime_statement" where
  "stmt_processing m now = stmt_dispatch m
     (\<lambda>d. ds_state d \<in> {Pending, Sent} \<or> ds_state d = Dispatch_retryable \<and> sql_due (ds_retry_at d) now)
     (\<lambda>d. d\<lparr>ds_state := Processing, ds_processing_at := Some now, ds_updated_at := now\<rparr>)"

definition processingDispatch :: "runtime_queue_message \<Rightarrow> int \<Rightarrow> bool runtime_action" where
  "processingDispatch m now = and_then (execute (stmt_processing m now)) (\<lambda>changes. succeed (changes = 1))"

definition stmt_continue :: "runtime_queue_message \<Rightarrow> int \<Rightarrow> runtime_statement" where
  "stmt_continue m now = stmt_dispatch m (\<lambda>d. ds_state d = Processing)
     (\<lambda>d. d\<lparr>ds_state := Pending, ds_retry_at := None, ds_updated_at := now\<rparr>)"

definition continueDispatch :: "runtime_queue_message \<Rightarrow> int \<Rightarrow> unit runtime_action" where
  "continueDispatch m now = and_then (execute (stmt_continue m now)) (\<lambda>changes.
     require (changes = 1) (OperationConflict ''Runtime dispatch continuation lost processing ownership.''))"

definition stmt_retry :: "runtime_queue_message \<Rightarrow> operation_error \<Rightarrow> int \<Rightarrow> int \<Rightarrow> runtime_statement" where
  "stmt_retry m err delayMs now = stmt_dispatch m (\<lambda>d. ds_state d \<noteq> Dead_letter)
     (\<lambda>d. d\<lparr>ds_state := Dispatch_retryable, ds_attempts := ds_attempts d + 1,
            ds_last_error := Some (snd (sanitizeError err)), ds_retry_at := Some (now + delayMs), ds_updated_at := now\<rparr>)"

definition retryDispatch :: "runtime_queue_message \<Rightarrow> operation_error \<Rightarrow> jsval \<Rightarrow> int \<Rightarrow> unit runtime_action" where
  "retryDispatch m err delay now =
     (case safe_integer delay of
        None \<Rightarrow> throw (OperationFailure ''Runtime dispatch retry delay is invalid.'')
      | Some delayMs \<Rightarrow>
          if delayMs < 0 \<or> delayMs > 300000 then throw (OperationFailure ''Runtime dispatch retry delay is invalid.'')
          else and_then (execute (stmt_retry m err delayMs now)) (\<lambda>_. succeed ()))"

definition stmt_failed :: "runtime_queue_message \<Rightarrow> operation_error \<Rightarrow> int \<Rightarrow> runtime_statement" where
  "stmt_failed m err now = stmt_dispatch m (\<lambda>d. ds_state d \<notin> {Done, Dead_letter})
     (\<lambda>d. d\<lparr>ds_state := Backpressured, ds_attempts := ds_attempts d + 1,
            ds_last_error := Some (snd (sanitizeError err)), ds_retry_at := None, ds_updated_at := now\<rparr>)"

definition failedDispatch :: "runtime_queue_message \<Rightarrow> operation_error \<Rightarrow> int \<Rightarrow> unit runtime_action" where
  "failedDispatch m err now = and_then (execute (stmt_failed m err now)) (\<lambda>_. succeed ())"

definition stmt_complete :: "runtime_queue_message \<Rightarrow> int \<Rightarrow> runtime_statement" where
  "stmt_complete m now = stmt_dispatch m (\<lambda>d. ds_state d \<noteq> Dead_letter)
     (\<lambda>d. d\<lparr>ds_state := Done, ds_completed_at := Some now, ds_updated_at := now\<rparr>)"

definition completeDispatch :: "runtime_queue_message \<Rightarrow> int \<Rightarrow> unit runtime_action" where
  "completeDispatch m now = and_then (execute (stmt_complete m now)) (\<lambda>_. succeed ())"

section \<open>Dead letters\<close>

definition dead_letter_key :: "dead_letter_row \<Rightarrow> (string \<times> int \<times> queue_kind \<times> string) \<times> int" where
  "dead_letter_key r = ((dl_site r, dl_generation r, dl_kind r, dl_identity r), dl_attempts r)"

definition recoveryCommand :: "runtime_queue_message \<Rightarrow> string" where
  "recoveryCommand m =
     ''npx wrangler d1 execute wp-codebox-runtime-state --remote --command '' @ [CHR 0x22]
     @ ''UPDATE wp_codebox_runtime_dispatches SET state='' @ [CHR 0x27] @ ''backpressured'' @ [CHR 0x27]
     @ '', retry_at=NULL, completed_at=NULL, updated_at=unixepoch()*1000 WHERE site_id='' @ [CHR 0x27] @ qm_siteId m
     @ [CHR 0x27] @ '' AND generation='' @ string_of_int (qm_generation m) @ '' AND kind='' @ [CHR 0x27]
     @ kind_name (qm_kind m) @ [CHR 0x27] @ '' AND identity='' @ [CHR 0x27] @ qm_identity m @ [CHR 0x27]
     @ '' AND state='' @ [CHR 0x27] @ ''dead-letter'' @ [CHR 0x27] @ [CHR 0x22]"

text \<open>The fingerprint of the operation, or the last part of the identity; only \<open>deadDispatch\<close> drops \<open>.json\<close>.\<close>

definition strip_json :: "string \<Rightarrow> string" where
  "strip_json s = (if ends_with ''.json'' s then take (length s - 5) s else s)"

definition input_fingerprint :: "runtime_queue_message \<Rightarrow> runtime_db \<Rightarrow> string option" where
  "input_fingerprint m db =
     (if qm_kind m = Operation_kind
      then map_option (in_fingerprint \<circ> op_input)
             (find (\<lambda>w. op_site w = qm_siteId m \<and> op_id w = qm_identity m) (rt_operations db))
      else None)"

definition dead_letter_for ::
    "runtime_queue_message \<Rightarrow> int \<Rightarrow> string \<Rightarrow> operation_error \<Rightarrow> int \<Rightarrow> dead_letter_row" where
  "dead_letter_for m attempts digest err now =
     \<lparr>dl_site = qm_siteId m, dl_generation = qm_generation m, dl_kind = qm_kind m, dl_identity = qm_identity m,
      dl_attempts = attempts, dl_input_digest = digest, dl_last_error = snd (sanitizeError err),
      dl_recovery_command = recoveryCommand m, dl_recorded_at = now\<rparr>"

definition stmt_evidence :: "dead_letter_row \<Rightarrow> runtime_statement" where
  "stmt_evidence row db =
     (case sql_insert_ignore dead_letter_key row (rt_dead_letters db) of (n, rows) \<Rightarrow> (n, db\<lparr>rt_dead_letters := rows\<rparr>))"

definition stmt_dead :: "runtime_queue_message \<Rightarrow> int \<Rightarrow> operation_error \<Rightarrow> int \<Rightarrow> runtime_statement" where
  "stmt_dead m attempts err now = stmt_dispatch m (\<lambda>d. ds_state d \<noteq> Done)
     (\<lambda>d. d\<lparr>ds_state := Dead_letter, ds_attempts := attempts, ds_last_error := Some (snd (sanitizeError err)),
            ds_completed_at := Some now, ds_updated_at := now\<rparr>)"

definition deadDispatch :: "runtime_queue_message \<Rightarrow> int \<Rightarrow> operation_error \<Rightarrow> int \<Rightarrow> unit runtime_action" where
  "deadDispatch m attempts err now =
     and_then (query (input_fingerprint m)) (\<lambda>fingerprint.
       let digest = (case fingerprint of Some f \<Rightarrow> f | None \<Rightarrow> strip_json (last (split_on (CHR ''-'') (qm_identity m))))
       in and_then (batch (stmt_evidence (dead_letter_for m attempts digest err now)) (stmt_dead m attempts err now))
            (\<lambda>(evidence, dispatch). require (evidence = 1 \<and> dispatch = 1)
              (OperationConflict ''Runtime dead-letter transition did not converge.'')))"

definition deadLetter :: "runtime_queue_message \<Rightarrow> int \<Rightarrow> operation_error \<Rightarrow> int \<Rightarrow> unit runtime_action" where
  "deadLetter m attempts err now =
     and_then (query (input_fingerprint m)) (\<lambda>fingerprint.
       let digest = (case fingerprint of Some f \<Rightarrow> f | None \<Rightarrow> last (split_on (CHR ''-'') (qm_identity m)))
       in and_then (execute (stmt_evidence (dead_letter_for m attempts digest err now)))
            (\<lambda>inserted. require (inserted = 1) ConstraintFailure))"

definition deadLetterEvidence :: "runtime_queue_message \<Rightarrow> runtime_db \<Rightarrow> (int \<times> string \<times> string \<times> string) option" where
  "deadLetterEvidence m db =
     (case sql_select (\<lambda>r. fst (dead_letter_key r) = message_key m) (\<lambda>r. - dl_attempts r) (rt_dead_letters db) of
        [] \<Rightarrow> None
      | r # _ \<Rightarrow> Some (dl_attempts r, dl_input_digest r, dl_last_error r, dl_recovery_command r))"

section \<open>Repair, pending work and fairness\<close>

definition dispatch_principal_of :: "runtime_db \<Rightarrow> string \<Rightarrow> string" where
  "dispatch_principal_of db siteId =
     (case site_lifecycle db siteId of Some l \<Rightarrow> lc_principal l | None \<Rightarrow> ''system:'' @ siteId)"

definition insert_dispatches :: "dispatch_row list \<Rightarrow> runtime_db \<Rightarrow> runtime_db" where
  "insert_dispatches rows db = fold (\<lambda>row db. snd (stmt_insert_dispatch row db)) rows db"

definition repair_rows ::
    "(operation_row \<Rightarrow> bool) \<Rightarrow> queue_kind \<Rightarrow> (operation_row \<Rightarrow> string) \<Rightarrow> nat \<Rightarrow> int \<Rightarrow> runtime_db \<Rightarrow> dispatch_row list" where
  "repair_rows c kind identity limit now db =
     map (\<lambda>w. new_dispatch (op_site w) (case site_of db (op_site w) of Some s \<Rightarrow> sr_generation s | None \<Rightarrow> 0) kind
            (identity w) (dispatch_principal_of db (op_site w)) now)
       (take limit (sql_select (\<lambda>w. site_of db (op_site w) \<noteq> None \<and> c w) (\<lambda>w. (op_updated_at w, op_site w))
          (rt_operations db)))"

definition repairMissingDispatches :: "nat \<Rightarrow> int \<Rightarrow> unit runtime_action" where
  "repairMissingDispatches limit now =
     and_then (modify (\<lambda>db. insert_dispatches
        (repair_rows (\<lambda>w. op_state w \<in> {Queued, Retryable} \<or> op_state w = Running \<and> sql_due (op_claim_expires w) now)
           Operation_kind op_id limit now db) db)) (\<lambda>_.
     modify (\<lambda>db. insert_dispatches
        (repair_rows (\<lambda>w. op_state w = Publication_pending \<and> op_prepared_job w \<noteq> None)
           Publication_kind (\<lambda>w. the (op_prepared_job w)) limit now db) db))"

definition stmt_stale :: "int \<Rightarrow> int \<Rightarrow> runtime_statement" where
  "stmt_stale claimMs now = update_dispatches
     (\<lambda>d. ds_state d \<in> {Sent, Processing} \<and> ds_updated_at d \<le> now - claimMs)
     (\<lambda>d. d\<lparr>ds_state := Backpressured, ds_updated_at := now\<rparr>)"

definition kind_rank :: "queue_kind \<Rightarrow> nat" where
  "kind_rank k = (case k of Operation_kind \<Rightarrow> 0 | Publication_kind \<Rightarrow> 1)"

definition pending_rows :: "nat \<Rightarrow> int \<Rightarrow> runtime_db \<Rightarrow> dispatch_row list" where
  "pending_rows limit now db =
     take limit (sql_select (\<lambda>d. matchesGeneration (ds_site d) (ds_generation d) db
         \<and> ds_state d \<in> {Backpressured, Pending, Dispatch_retryable}
         \<and> (case ds_retry_at d of None \<Rightarrow> True | Some t \<Rightarrow> t \<le> now))
       (\<lambda>d. (ds_updated_at d, ds_site d, kind_rank (ds_kind d), ds_identity d)) (rt_dispatches db))"

text \<open>The loop over the selected rows; the clock is read anew for each admission.\<close>

fun admit_pending :: "runtime_queue_policy \<Rightarrow> (nat \<Rightarrow> int) \<Rightarrow> dispatch_row list \<Rightarrow> runtime_queue_message list runtime_action" where
  "admit_pending policy clock [] = succeed []"
| "admit_pending policy clock (row # rows) =
     and_then (message_or_fail (runtimeQueueMessage (ds_site row) (JInt (ds_generation row)) (ds_kind row) (ds_identity row))) (\<lambda>m.
     and_then (if ds_state row \<noteq> Backpressured then succeed True else admitDispatch m policy (clock 0)) (\<lambda>admitted.
     and_then (admit_pending policy (\<lambda>i. clock (i + 1)) rows) (\<lambda>later.
       succeed (if admitted then m # later else later))))"

definition pendingDispatches ::
    "int \<Rightarrow> runtime_queue_policy \<Rightarrow> nat \<Rightarrow> int \<Rightarrow> (nat \<Rightarrow> int) \<Rightarrow> runtime_queue_message list runtime_action" where
  "pendingDispatches claimMs policy limit now clock =
     and_then (execute (stmt_stale claimMs now)) (\<lambda>_.
     and_then (query (pending_rows limit now)) (\<lambda>rows. admit_pending policy clock rows))"

definition other_kind :: "queue_kind \<Rightarrow> queue_kind" where
  "other_kind k = (case k of Operation_kind \<Rightarrow> Publication_kind | Publication_kind \<Rightarrow> Operation_kind)"

definition selectLaneDispatch :: "string \<Rightarrow> runtime_queue_message list \<Rightarrow> runtime_queue_message option runtime_action" where
  "selectLaneDispatch siteId messages =
     and_then (query (\<lambda>db. case rt_fairness db siteId of None \<Rightarrow> Operation_kind | Some k \<Rightarrow> k)) (\<lambda>preferred.
       case (case find (\<lambda>m. qm_kind m = preferred) messages of
               Some m \<Rightarrow> Some m
             | None \<Rightarrow> (case messages of [] \<Rightarrow> None | m # _ \<Rightarrow> Some m)) of
         None \<Rightarrow> succeed None
       | Some m \<Rightarrow>
           and_then (modify (\<lambda>db. db\<lparr>rt_fairness := (rt_fairness db)(siteId := Some (other_kind (qm_kind m)))\<rparr>))
             (\<lambda>_. succeed (Some m)))"

section \<open>Calls on dispatches\<close>

datatype dispatch_call =
    Stage site_context queue_kind string string
  | Admit runtime_queue_message
  | Repair nat
  | Deliver runtime_queue_message
  | Process runtime_queue_message
  | Continue runtime_queue_message
  | Retry_dispatch runtime_queue_message operation_error jsval
  | Fail_dispatch runtime_queue_message operation_error
  | Complete_dispatch runtime_queue_message
  | Dead_dispatch runtime_queue_message int operation_error
  | Pending_sweep nat "nat \<Rightarrow> int"
  | Record_dead_letter runtime_queue_message int operation_error
  | Select_lane string "runtime_queue_message list"

fun perform_dispatch :: "int \<Rightarrow> runtime_queue_policy \<Rightarrow> int \<Rightarrow> dispatch_call \<Rightarrow> runtime_db \<Rightarrow> runtime_db" where
  "perform_dispatch claimMs policy now (Stage site kind identity owner) db = snd (stageDispatch site kind identity owner now db)"
| "perform_dispatch claimMs policy now (Admit m) db = snd (admitDispatch m policy now db)"
| "perform_dispatch claimMs policy now (Repair limit) db = snd (repairMissingDispatches limit now db)"
| "perform_dispatch claimMs policy now (Deliver m) db = snd (deliveredDispatch m now db)"
| "perform_dispatch claimMs policy now (Process m) db = snd (processingDispatch m now db)"
| "perform_dispatch claimMs policy now (Continue m) db = snd (continueDispatch m now db)"
| "perform_dispatch claimMs policy now (Retry_dispatch m err delay) db = snd (retryDispatch m err delay now db)"
| "perform_dispatch claimMs policy now (Fail_dispatch m err) db = snd (failedDispatch m err now db)"
| "perform_dispatch claimMs policy now (Complete_dispatch m) db = snd (completeDispatch m now db)"
| "perform_dispatch claimMs policy now (Dead_dispatch m attempts err) db = snd (deadDispatch m attempts err now db)"
| "perform_dispatch claimMs policy now (Pending_sweep limit clock) db = snd (pendingDispatches claimMs policy limit now clock db)"
| "perform_dispatch claimMs policy now (Record_dead_letter m attempts err) db = snd (deadLetter m attempts err now db)"
| "perform_dispatch claimMs policy now (Select_lane siteId messages) db = snd (selectLaneDispatch siteId messages db)"

text \<open>A change of dispatch rows is an insertion of backpressured rows or an update that keeps the keys.\<close>

definition dispatch_wf :: "runtime_db \<Rightarrow> bool" where
  "dispatch_wf db \<longleftrightarrow> unique_by dispatch_key (rt_dispatches db)"

definition keeps_key :: "(dispatch_row \<Rightarrow> dispatch_row) \<Rightarrow> bool" where
  "keeps_key f \<longleftrightarrow> (\<forall>d. dispatch_key (f d) = dispatch_key d \<and> ds_principal (f d) = ds_principal d)"

definition within_capacity :: "runtime_queue_policy \<Rightarrow> runtime_db \<Rightarrow> bool" where
  "within_capacity policy db \<longleftrightarrow> int (length (active_dispatches db)) \<le> maxActive policy
     \<and> (\<forall>p. int (length (principal_dispatches db p)) \<le> maxActivePerPrincipal policy)"

lemma rt_update_dispatches:
  "rt_dispatches (snd (update_dispatches c f db)) = map (\<lambda>d. if c d then f d else d) (rt_dispatches db)"
  by (simp add: update_dispatches_def sql_update_def)

lemma update_dispatches_wf:
  assumes "dispatch_wf db" and "keeps_key f"
  shows "dispatch_wf (snd (update_dispatches c f db))"
proof -
  have "map dispatch_key (rt_dispatches (snd (update_dispatches c f db))) = map dispatch_key (rt_dispatches db)"
    using assms(2) by (simp add: rt_update_dispatches keeps_key_def)
  with assms(1) show ?thesis by (simp add: dispatch_wf_def unique_by_def)
qed

lemma length_filter_map_le:
  "(\<And>d. d \<in> set ds \<Longrightarrow> P (g d) \<Longrightarrow> P d) \<Longrightarrow> length (filter P (map g ds)) \<le> length (filter P ds)"
  by (induction ds) auto

lemma within_capacity_mono:
  assumes "within_capacity policy db" and "length (active_dispatches db') \<le> length (active_dispatches db)"
    and "\<And>p. length (principal_dispatches db' p) \<le> length (principal_dispatches db p)"
  shows "within_capacity policy db'"
proof -
  have "int (length (active_dispatches db')) \<le> int (length (active_dispatches db))" using assms(2) by simp
  moreover have "int (length (principal_dispatches db' p)) \<le> int (length (principal_dispatches db p))" for p
    using assms(3) by simp
  ultimately show ?thesis using assms(1) unfolding within_capacity_def by (meson order_trans)
qed

lemma update_dispatches_capacity:
  assumes cap: "within_capacity policy db" and key: "keeps_key f"
    and active: "\<And>d. d \<in> set (rt_dispatches db) \<Longrightarrow> c d \<Longrightarrow> ds_active (f d) \<Longrightarrow> ds_active d"
  shows "within_capacity policy (snd (update_dispatches c f db))"
proof (rule within_capacity_mono [OF cap])
  show "length (active_dispatches (snd (update_dispatches c f db))) \<le> length (active_dispatches db)"
    unfolding active_dispatches_def rt_update_dispatches
    by (rule length_filter_map_le) (use active in \<open>auto split: if_splits\<close>)
  show "length (principal_dispatches (snd (update_dispatches c f db)) p) \<le> length (principal_dispatches db p)" for p
    unfolding principal_dispatches_def rt_update_dispatches
    by (rule length_filter_map_le) (use active key in \<open>auto simp: keeps_key_def split: if_splits\<close>)
qed

lemma insert_dispatch_keeps:
  assumes "\<not> ds_active row"
  shows "dispatch_wf db \<Longrightarrow> dispatch_wf (snd (stmt_insert_dispatch row db))"
    and "within_capacity policy db \<Longrightarrow> within_capacity policy (snd (stmt_insert_dispatch row db))"
  using assms
  by (auto simp: stmt_insert_dispatch_def sql_insert_ignore_def dispatch_wf_def unique_by_def within_capacity_def
      active_dispatches_def principal_dispatches_def)

text \<open>Admission changes at most one row, and only where there is room for it.\<close>

lemma stmt_admit_capacity:
  assumes wf: "dispatch_wf db" and cap: "within_capacity policy db"
  shows "within_capacity policy (snd (stmt_admit m policy now db))"
proof -
  define c where "c d \<longleftrightarrow> dispatch_key d = message_key m \<and> ds_state d = Backpressured
      \<and> int (length (active_dispatches db)) < maxActive policy
      \<and> int (length (principal_dispatches db (ds_principal d))) < maxActivePerPrincipal policy" for d
  define f where "f d = d\<lparr>ds_state := Pending, ds_retry_at := None, ds_updated_at := now\<rparr>" for d :: dispatch_row
  have rows: "rt_dispatches (snd (stmt_admit m policy now db)) = map (\<lambda>d. if c d then f d else d) (rt_dispatches db)"
    by (simp add: stmt_admit_def stmt_dispatch_def rt_update_dispatches c_def f_def)
  have one: "length (filter c (rt_dispatches db)) \<le> 1"
    by (rule filter_unique [where key = dispatch_key and k = "message_key m"])
       (use wf in \<open>auto simp: dispatch_wf_def c_def\<close>)
  have grow: "length (filter P (map (\<lambda>d. if c d then f d else d) ds)) \<le> length (filter P ds) + length (filter c ds)"
    for P and ds :: "dispatch_row list" by (induction ds) auto
  have active: "length (active_dispatches (snd (stmt_admit m policy now db))) \<le> length (active_dispatches db) + 1"
    using grow [of ds_active "rt_dispatches db"] one by (simp add: active_dispatches_def rows)
  have per: "length (principal_dispatches (snd (stmt_admit m policy now db)) p) \<le> length (principal_dispatches db p) + 1" for p
    using grow [of "\<lambda>d. ds_principal d = p \<and> ds_active d" "rt_dispatches db"] one by (simp add: principal_dispatches_def rows)
  show ?thesis
  proof (cases "\<exists>d \<in> set (rt_dispatches db). c d")
    case False
    then have "map (\<lambda>d. if c d then f d else d) (rt_dispatches db) = rt_dispatches db" by (intro map_idI) auto
    with cap show ?thesis by (simp add: within_capacity_def active_dispatches_def principal_dispatches_def rows)
  next
    case True
    then obtain d where d: "d \<in> set (rt_dispatches db)" "c d" by blast
    then have room: "int (length (active_dispatches db)) < maxActive policy"
      "int (length (principal_dispatches db (ds_principal d))) < maxActivePerPrincipal policy" by (simp_all add: c_def)
    have same: "v = d" if "v \<in> set (rt_dispatches db)" "c v" for v
      using wf d that by (intro unique_by_eq [of dispatch_key "rt_dispatches db"]) (auto simp: dispatch_wf_def c_def)
    have "length (principal_dispatches (snd (stmt_admit m policy now db)) p) \<le> length (principal_dispatches db p)"
      if "p \<noteq> ds_principal d" for p
      unfolding principal_dispatches_def rows
      by (rule length_filter_map_le) (use same that in \<open>auto simp: f_def split: if_splits\<close>)
    moreover have "int (length (principal_dispatches db p)) \<le> maxActivePerPrincipal policy" for p
      using cap by (simp add: within_capacity_def)
    ultimately have "int (length (principal_dispatches (snd (stmt_admit m policy now db)) p)) \<le> maxActivePerPrincipal policy" for p
      using per [of p] room(2) by (cases "p = ds_principal d") (auto intro: order_trans [OF of_nat_mono])
    with active room(1) show ?thesis by (simp add: within_capacity_def)
  qed
qed

definition dispatch_ok :: "runtime_queue_policy \<Rightarrow> runtime_db \<Rightarrow> bool" where
  "dispatch_ok policy db \<longleftrightarrow> dispatch_wf db \<and> within_capacity policy db"

lemma dispatch_ok_elsewhere:
  "rt_dispatches db' = rt_dispatches db \<Longrightarrow> dispatch_ok policy db \<Longrightarrow> dispatch_ok policy db'"
  by (simp add: dispatch_ok_def dispatch_wf_def within_capacity_def active_dispatches_def principal_dispatches_def)

lemma update_dispatches_ok:
  assumes "dispatch_ok policy db" and "keeps_key f"
    and "\<And>d. d \<in> set (rt_dispatches db) \<Longrightarrow> c d \<Longrightarrow> ds_active (f d) \<Longrightarrow> ds_active d"
  shows "dispatch_ok policy (snd (update_dispatches c f db))"
  unfolding dispatch_ok_def
proof
  show "dispatch_wf (snd (update_dispatches c f db))"
    using assms(1,2) by (intro update_dispatches_wf) (auto simp: dispatch_ok_def)
  show "within_capacity policy (snd (update_dispatches c f db))"
    by (rule update_dispatches_capacity [OF _ assms(2)]) (use assms(1,3) in \<open>auto simp: dispatch_ok_def\<close>)
qed

lemma stmt_dispatch_ok:
  assumes "dispatch_ok policy db" and "keeps_key f"
    and "\<And>d. d \<in> set (rt_dispatches db) \<Longrightarrow> dispatch_key d = message_key m \<Longrightarrow> c d \<Longrightarrow> ds_active (f d) \<Longrightarrow> ds_active d"
  shows "dispatch_ok policy (snd (stmt_dispatch m c f db))"
  unfolding stmt_dispatch_def by (rule update_dispatches_ok [OF assms(1,2)]) (use assms(3) in blast)

lemma stmt_admit_ok:
  assumes "dispatch_ok policy db"
  shows "dispatch_ok policy (snd (stmt_admit m policy now db))"
proof -
  have "dispatch_wf (snd (stmt_admit m policy now db))"
    unfolding stmt_admit_def stmt_dispatch_def
    by (rule update_dispatches_wf) (use assms in \<open>auto simp: dispatch_ok_def keeps_key_def dispatch_key_def\<close>)
  with assms stmt_admit_capacity show ?thesis by (auto simp: dispatch_ok_def)
qed

lemma keeps_execute: "(\<And>db. I db \<Longrightarrow> I (snd (stmt db))) \<Longrightarrow> keeps I (execute stmt)"
  unfolding keeps_def execute_def by (metis (no_types, lifting) case_prod_beta snd_conv)

lemma keeps_registerSite: "keeps (dispatch_ok policy) (registerSite site)"
proof -
  have "rt_dispatches (snd (registerSite site db)) = rt_dispatches db" for db
    by (auto simp: registerSite_def run_action throw_def succeed_def require_def stmt_register_def split: option.split)
  then show ?thesis by (auto simp: keeps_def intro: dispatch_ok_elsewhere)
qed

lemma keeps_option [keeps_intros]:
  "keeps P a \<Longrightarrow> (\<And>x. keeps P (b x)) \<Longrightarrow> keeps P (case v of None \<Rightarrow> a | Some x \<Rightarrow> b x)"
  by (simp split: option.split)

lemma keeps_message_or_fail [keeps_intros]: "keeps P (message_or_fail r)"
  by (simp add: message_or_fail_def keeps_intros)

lemma stmt_insert_dispatch_ok: "\<not> ds_active row \<Longrightarrow> dispatch_ok policy db \<Longrightarrow> dispatch_ok policy (snd (stmt_insert_dispatch row db))"
  by (simp add: dispatch_ok_def insert_dispatch_keeps)

lemma new_dispatch_inactive [simp]: "\<not> ds_active (new_dispatch s g k i p now)"
  by (simp add: ds_active_def new_dispatch_def)

lemma insert_dispatches_ok:
  "\<forall>row \<in> set rows. \<not> ds_active row \<Longrightarrow> dispatch_ok policy db \<Longrightarrow> dispatch_ok policy (insert_dispatches rows db)"
  unfolding insert_dispatches_def
  by (induction rows arbitrary: db) (simp_all add: stmt_insert_dispatch_ok)

lemma repair_rows_inactive: "\<forall>row \<in> set (repair_rows c kind identity limit now db). \<not> ds_active row"
  by (auto simp: repair_rows_def)

lemma keeps_stageDispatch: "keeps (dispatch_ok policy) (stageDispatch site kind identity owner now)"
  unfolding stageDispatch_def
  by (intro keeps_intros keeps_registerSite keeps_execute stmt_insert_dispatch_ok new_dispatch_inactive)

lemma keeps_admitDispatch: "keeps (dispatch_ok policy) (admitDispatch m policy now)"
  unfolding admitDispatch_def dispatchState_def by (intro keeps_intros keeps_execute stmt_admit_ok)

lemma keeps_repair: "keeps (dispatch_ok policy) (repairMissingDispatches limit now)"
  unfolding repairMissingDispatches_def
  by (intro keeps_intros keeps_modify insert_dispatches_ok repair_rows_inactive)

lemma stmt_stale_ok: "dispatch_ok policy db \<Longrightarrow> dispatch_ok policy (snd (stmt_stale claimMs now db))"
  unfolding stmt_stale_def
  by (rule update_dispatches_ok) (auto simp: keeps_key_def dispatch_key_def ds_active_def)

lemma keeps_admit_pending: "keeps (dispatch_ok policy) (admit_pending policy clock rows)"
proof (induction policy clock rows rule: admit_pending.induct)
  case (2 policy clock row rows)
  show ?case
    unfolding admit_pending.simps
    by (intro keeps_intros keeps_admitDispatch) (rule 2)
qed (simp add: keeps_intros)

lemma keeps_pendingDispatches: "keeps (dispatch_ok policy) (pendingDispatches claimMs policy limit now clock)"
  unfolding pendingDispatches_def
  by (intro keeps_intros keeps_execute stmt_stale_ok keeps_admit_pending)

lemma stmt_evidence_dispatches [simp]: "rt_dispatches (snd (stmt_evidence row db)) = rt_dispatches db"
  by (simp add: stmt_evidence_def split: prod.split)

lemma dispatch_statements_ok:
  assumes "dispatch_ok policy db"
  shows "dispatch_ok policy (snd (stmt_delivered m now db))" "dispatch_ok policy (snd (stmt_processing m now db))"
    "dispatch_ok policy (snd (stmt_continue m now db))" "dispatch_ok policy (snd (stmt_failed m err now db))"
    "dispatch_ok policy (snd (stmt_complete m now db))" "dispatch_ok policy (snd (stmt_dead m attempts err now db))"
  unfolding stmt_delivered_def stmt_processing_def stmt_continue_def stmt_failed_def stmt_complete_def stmt_dead_def
  by (rule stmt_dispatch_ok [OF assms]; auto simp: keeps_key_def dispatch_key_def ds_active_def)+

lemma stmt_retry_ok:
  assumes "dispatch_ok policy db"
    and "\<forall>d \<in> set (rt_dispatches db). dispatch_key d = message_key m \<longrightarrow> ds_active d \<or> ds_state d = Dead_letter"
  shows "dispatch_ok policy (snd (stmt_retry m err delayMs now db))"
  unfolding stmt_retry_def
  by (rule stmt_dispatch_ok [OF assms(1)]) (use assms(2) in \<open>auto simp: keeps_key_def dispatch_key_def\<close>)

lemma keeps_simple_dispatches:
  "keeps (dispatch_ok policy) (deliveredDispatch m now)" "keeps (dispatch_ok policy) (processingDispatch m now)"
  "keeps (dispatch_ok policy) (continueDispatch m now)" "keeps (dispatch_ok policy) (failedDispatch m err now)"
  "keeps (dispatch_ok policy) (completeDispatch m now)"
  unfolding deliveredDispatch_def processingDispatch_def continueDispatch_def failedDispatch_def completeDispatch_def
  by (intro keeps_intros keeps_execute dispatch_statements_ok; assumption)+

lemma keeps_deadDispatch: "keeps (dispatch_ok policy) (deadDispatch m attempts err now)"
proof -
  have "keeps (dispatch_ok policy) (batch (stmt_evidence row) (stmt_dead m attempts err now))" for row
    unfolding keeps_def snd_batch using dispatch_statements_ok(6) dispatch_ok_elsewhere [OF stmt_evidence_dispatches] by blast
  then show ?thesis unfolding deadDispatch_def Let_def case_prod_beta by (intro keeps_intros)
qed

lemma keeps_deadLetter: "keeps (dispatch_ok policy) (deadLetter m attempts err now)"
  unfolding deadLetter_def Let_def
  by (intro keeps_intros keeps_execute dispatch_ok_elsewhere [OF stmt_evidence_dispatches])

lemma keeps_selectLane: "keeps (dispatch_ok policy) (selectLaneDispatch siteId messages)"
  unfolding selectLaneDispatch_def
  by (intro keeps_intros keeps_modify) (simp add: dispatch_ok_elsewhere)

text \<open>A retry of a dispatch that is neither active nor dead activates it without admission.\<close>

definition retry_admissible :: "runtime_db \<Rightarrow> dispatch_call \<Rightarrow> bool" where
  "retry_admissible db call =
     (case call of
        Retry_dispatch m _ _ \<Rightarrow> (\<forall>d \<in> set (rt_dispatches db). dispatch_key d = message_key m \<longrightarrow>
          ds_active d \<or> ds_state d = Dead_letter)
      | _ \<Rightarrow> True)"

lemma perform_dispatch_ok:
  assumes "dispatch_ok policy db" and "retry_admissible db call"
  shows "dispatch_ok policy (perform_dispatch claimMs policy now call db)"
proof (cases call)
  case (Retry_dispatch m err delay)
  then show ?thesis
    using assms stmt_retry_ok [OF assms(1), of m err _ now]
    by (auto simp: retryDispatch_def retry_admissible_def throw_def succeed_def and_then_execute split: option.split)
qed (use assms(1) keeps_stageDispatch keeps_admitDispatch keeps_repair keeps_simple_dispatches keeps_deadDispatch
    keeps_pendingDispatches keeps_deadLetter keeps_selectLane in \<open>simp_all add: keeps_def\<close>)

inductive dispatch_reach :: "int \<Rightarrow> runtime_queue_policy \<Rightarrow> runtime_db \<Rightarrow> bool" for claimMs policy where
  start: "dispatch_reach claimMs policy empty_runtime_db"
| other: "dispatch_reach claimMs policy db \<Longrightarrow> rt_dispatches db' = rt_dispatches db \<Longrightarrow> dispatch_reach claimMs policy db'"
| call: "dispatch_reach claimMs policy db \<Longrightarrow> retry_admissible db c \<Longrightarrow>
    dispatch_reach claimMs policy (perform_dispatch claimMs policy now c db)"

lemma dispatch_reach_ok:
  assumes "dispatch_reach claimMs policy db" and "0 \<le> maxActive policy" and "0 \<le> maxActivePerPrincipal policy"
  shows "dispatch_ok policy db"
  using assms
proof (induction rule: dispatch_reach.induct)
  case start
  then show ?case
    by (simp add: dispatch_ok_def dispatch_wf_def within_capacity_def active_dispatches_def principal_dispatches_def
        empty_runtime_db_def unique_by_def)
next
  case (other db db')
  with dispatch_ok_elsewhere show ?case by blast
next
  case (call db c now)
  with perform_dispatch_ok show ?case by blast
qed

section \<open>Properties of the dispatches\<close>

text \<open>
  C14: the dispatches that are pending, sent, processing or to be retried never exceed the bounds of the
  queue policy, for the runtime and for each principal, whatever calls are made, as long as no retry
  hits a dispatch that was returned to backpressure or is done.
\<close>

theorem dispatch_capacity:
  assumes "dispatch_reach claimMs policy db" and "parseRuntimeQueuePolicy parse v = Inr policy"
  shows "int (length (active_dispatches db)) \<le> maxActive policy
    \<and> int (length (principal_dispatches db p)) \<le> maxActivePerPrincipal policy"
  using dispatch_reach_ok [OF assms(1)] policy_bounds [OF assms(2)]
  by (simp add: dispatch_ok_def within_capacity_def)

definition sample_message :: runtime_queue_message where
  "sample_message = \<lparr>qm_siteId = ''s'', qm_generation = 1, qm_kind = Operation_kind,
     qm_identity = ''00000000-0000-4000-8000-00000000000a''\<rparr>"

definition sample_dispatch :: "dispatch_state \<Rightarrow> dispatch_row" where
  "sample_dispatch st = (new_dispatch ''s'' 1 Operation_kind ''00000000-0000-4000-8000-00000000000a'' ''p'' 1)\<lparr>ds_state := st\<rparr>"

definition sample_dispatches :: "dispatch_state \<Rightarrow> runtime_db" where
  "sample_dispatches st = empty_runtime_db\<lparr>rt_dispatches := [sample_dispatch st]\<rparr>"

lemma sample_staged_reach:
  "dispatch_reach 60 policy (perform_dispatch 60 policy 2 (Admit sample_message)
     (perform_dispatch 60 policy 1 (Stage \<lparr>ctx_id = ''s'', ctx_hostname = ''h'', ctx_origin = ''u''\<rparr> Operation_kind
        ''00000000-0000-4000-8000-00000000000a'' ''p'') empty_runtime_db))"
  by (rule dispatch_reach.call [OF dispatch_reach.call [OF dispatch_reach.start]]) (simp_all add: retry_admissible_def)

theorem dispatch_capacity_witness:
  "int (length (principal_dispatches (perform_dispatch 60 DEFAULT_RUNTIME_QUEUE_POLICY 2 (Admit sample_message)
     (perform_dispatch 60 DEFAULT_RUNTIME_QUEUE_POLICY 1 (Stage \<lparr>ctx_id = ''s'', ctx_hostname = ''h'', ctx_origin = ''u''\<rparr>
        Operation_kind ''00000000-0000-4000-8000-00000000000a'' ''p'') empty_runtime_db)) ''p'')) \<le> 10"
  using dispatch_capacity [OF sample_staged_reach, of "\<lambda>_. None" None DEFAULT_RUNTIME_QUEUE_POLICY "''p''"]
  by (simp add: parseRuntimeQueuePolicy_def DEFAULT_RUNTIME_QUEUE_POLICY_def)

text \<open>
  A retry takes a dispatch that is done, for instance because the deletion of its allocation
  fenced it, back into the active ones, without admission.
\<close>

lemma retry_revives_done:
  assumes "d \<in> set (rt_dispatches db)" and "dispatch_key d = message_key m" and "ds_state d = Done"
    and "0 \<le> delayMs" and "delayMs \<le> 300000"
  shows "\<exists>d' \<in> set (rt_dispatches (snd (retryDispatch m err (JInt delayMs) now db))).
    dispatch_key d' = message_key m \<and> ds_active d' \<and> ds_attempts d' = ds_attempts d + 1"
proof -
  define f where "f d = d\<lparr>ds_state := Dispatch_retryable, ds_attempts := ds_attempts d + 1,
      ds_last_error := Some (snd (sanitizeError err)), ds_retry_at := Some (now + delayMs), ds_updated_at := now\<rparr>"
    for d :: dispatch_row
  have "snd (retryDispatch m err (JInt delayMs) now db) = snd (stmt_retry m err delayMs now db)"
    using assms(4,5) by (simp add: retryDispatch_def max_safe_integer_def and_then_execute succeed_def)
  then have rows: "rt_dispatches (snd (retryDispatch m err (JInt delayMs) now db))
      = map (\<lambda>d. if dispatch_key d = message_key m \<and> ds_state d \<noteq> Dead_letter then f d else d) (rt_dispatches db)"
    by (simp add: stmt_retry_def stmt_dispatch_def rt_update_dispatches f_def)
  have "f d \<in> set (rt_dispatches (snd (retryDispatch m err (JInt delayMs) now db)))"
    unfolding rows set_map using assms(1-3) by (intro image_eqI [where x = d]) simp_all
  moreover have "dispatch_key (f d) = message_key m \<and> ds_active (f d) \<and> ds_attempts (f d) = ds_attempts d + 1"
    using assms(2) by (simp add: f_def dispatch_key_def ds_active_def)
  ultimately show ?thesis by blast
qed

lemma retry_revives_done_sample:
  "\<exists>d' \<in> set (rt_dispatches (snd (retryDispatch sample_message NonError (JInt 30000) 5 (sample_dispatches Done)))).
    dispatch_key d' = message_key sample_message \<and> ds_active d' \<and> ds_attempts d' = ds_attempts (sample_dispatch Done) + 1"
  by (rule retry_revives_done)
     (simp_all add: sample_dispatches_def sample_dispatch_def sample_message_def message_key_def dispatch_key_def new_dispatch_def)

text \<open>
  A dispatch is processed by one consumer at a time: after \<open>processingDispatch\<close> has answered true,
  it answers false for any other delivery of the same dispatch.
\<close>

lemma processing_once:
  assumes "dispatch_reach claimMs policy db" and "0 \<le> maxActive policy" and "0 \<le> maxActivePerPrincipal policy"
    and "processingDispatch m now db = (Inr True, db')"
  shows "processingDispatch m now' db' = (Inr False, db')"
proof -
  have "dispatch_wf db" using dispatch_reach_ok [OF assms(1-3)] by (simp add: dispatch_ok_def)
  define c where "c now d \<longleftrightarrow> dispatch_key d = message_key m \<and> (ds_state d \<in> {Pending, Sent}
      \<or> ds_state d = Dispatch_retryable \<and> sql_due (ds_retry_at d) now)" for now d
  define f where "f now d = d\<lparr>ds_state := Processing, ds_processing_at := Some now, ds_updated_at := now\<rparr>"
    for now and d :: dispatch_row
  have run: "processingDispatch m t s = (Inr (length (filter (c t) (rt_dispatches s)) = 1),
      s\<lparr>rt_dispatches := map (\<lambda>d. if c t d then f t d else d) (rt_dispatches s)\<rparr>)" for t s
    by (simp add: processingDispatch_def and_then_execute succeed_def stmt_processing_def stmt_dispatch_def
        update_dispatches_def sql_update_def c_def [abs_def] f_def cong: if_cong)
  from assms(4) have "length (filter (c now) (rt_dispatches db)) = 1" unfolding run by simp
  then have "filter (c now) (rt_dispatches db) \<noteq> []" by (intro notI) simp
  then obtain d where d: "d \<in> set (rt_dispatches db)" "c now d" unfolding filter_empty_conv by blast
  have db': "rt_dispatches db' = map (\<lambda>d. if c now d then f now d else d) (rt_dispatches db)"
    using assms(4) unfolding run by auto
  have none: "\<not> c now' e" if "e \<in> set (rt_dispatches db')" for e
  proof
    assume e: "c now' e"
    from that db' obtain e0 where e0: "e0 \<in> set (rt_dispatches db)" "e = (if c now e0 then f now e0 else e0)" by auto
    have "dispatch_key e0 = dispatch_key e" using e0(2) by (simp add: f_def dispatch_key_def)
    with e d have "dispatch_key e0 = dispatch_key d" by (simp add: c_def)
    with \<open>dispatch_wf db\<close> e0(1) d(1) have "e0 = d"
      by (intro unique_by_eq [of dispatch_key "rt_dispatches db"]) (simp_all add: dispatch_wf_def)
    with e0(2) d(2) have "e = f now d" by simp
    with e show False by (simp add: c_def f_def)
  qed
  then have "map (\<lambda>d. if c now' d then f now' d else d) (rt_dispatches db') = rt_dispatches db'"
    by (intro map_idI) auto
  moreover from none have "filter (c now') (rt_dispatches db') = []" by (simp add: filter_empty_conv)
  ultimately show ?thesis by (simp add: run)
qed

lemma sample_sent_reach: "dispatch_reach 60 DEFAULT_RUNTIME_QUEUE_POLICY (sample_dispatches Pending)"
proof -
  let ?site = "\<lparr>ctx_id = ''s'', ctx_hostname = ''h'', ctx_origin = ''u''\<rparr>"
  let ?db = "perform_dispatch 60 DEFAULT_RUNTIME_QUEUE_POLICY 1 (Admit sample_message)
     (perform_dispatch 60 DEFAULT_RUNTIME_QUEUE_POLICY 1 (Stage ?site Operation_kind
        ''00000000-0000-4000-8000-00000000000a'' ''p'') empty_runtime_db)"
  have "dispatch_reach 60 DEFAULT_RUNTIME_QUEUE_POLICY ?db"
    by (rule dispatch_reach.call [OF dispatch_reach.call [OF dispatch_reach.start]]) (simp_all add: retry_admissible_def)
  moreover have "rt_dispatches ?db = [sample_dispatch Pending]"
  proof -
    have message: "runtimeQueueMessage ''s'' (JNum (Fin 1)) Operation_kind ''00000000-0000-4000-8000-00000000000a'' = Inr sample_message"
      by (simp add: runtimeQueueMessage_def max_safe_integer_def is_lower_def is_digit_def
          char_between_def validRuntimeQueueIdentity_def operationIdentity_def is_hex_def sample_message_def)
    have owner: "dispatch_principal_ok ''p''"
      by (simp add: dispatch_principal_ok_def is_alnum_def is_lower_def char_between_def)
    let ?base = "empty_runtime_db\<lparr>rt_sites := [\<lparr>sr_id = ''s'', sr_hostname = ''h'', sr_origin = ''u'', sr_generation = 1\<rparr>]\<rparr>"
    have reg: "registerSite ?site empty_runtime_db = (Inr (), ?base)"
      by (simp add: registerSite_def stmt_register_def site_of_def run_action require_def succeed_def empty_runtime_db_def)
    have "snd (stageDispatch ?site Operation_kind ''00000000-0000-4000-8000-00000000000a'' ''p'' 1 empty_runtime_db)
        = ?base\<lparr>rt_dispatches := [sample_dispatch Backpressured]\<rparr>"
      unfolding stageDispatch_def and_then_def [of "registerSite ?site"] reg
      by (simp add: run_action owner site_of_def message message_or_fail_def stmt_insert_dispatch_def sql_insert_ignore_def
          dispatch_of_def empty_runtime_db_def succeed_def message_key_def dispatch_key_def sample_message_def
          new_dispatch_def sample_dispatch_def)
    then show ?thesis
      by (simp add: admitDispatch_def and_then_execute succeed_def stmt_admit_def stmt_dispatch_def update_dispatches_def
          sql_update_def active_dispatches_def principal_dispatches_def ds_active_def sample_message_def message_key_def
          dispatch_key_def DEFAULT_RUNTIME_QUEUE_POLICY_def sample_dispatch_def new_dispatch_def)
  qed
  then have "rt_dispatches (sample_dispatches Pending) = rt_dispatches ?db" by (simp only:) (simp add: sample_dispatches_def)
  with calculation show ?thesis by (rule dispatch_reach.other)
qed

lemma processing_once_sample:
  "fst (processingDispatch sample_message 7 (snd (processingDispatch sample_message 5 (sample_dispatches Pending)))) = Inr False"
proof -
  have "processingDispatch sample_message 5 (sample_dispatches Pending)
      = (Inr True, snd (processingDispatch sample_message 5 (sample_dispatches Pending)))"
    by (simp add: processingDispatch_def and_then_execute succeed_def stmt_processing_def stmt_dispatch_def
        update_dispatches_def sql_update_def sample_dispatches_def sample_dispatch_def sample_message_def message_key_def
        dispatch_key_def new_dispatch_def)
  from processing_once [OF sample_sent_reach _ _ this, of 7] show ?thesis
    by (simp add: DEFAULT_RUNTIME_QUEUE_POLICY_def)
qed

lemma selected_kind:
  assumes "selectLaneDispatch siteId messages db = (Inr (Some m), db')"
  shows "m \<in> set messages \<and> rt_fairness db' siteId = Some (other_kind (qm_kind m))
    \<and> ((\<exists>n \<in> set messages. qm_kind n = (case rt_fairness db siteId of None \<Rightarrow> Operation_kind | Some k \<Rightarrow> k))
       \<longrightarrow> qm_kind m = (case rt_fairness db siteId of None \<Rightarrow> Operation_kind | Some k \<Rightarrow> k))"
proof -
  define preferred where "preferred = (case rt_fairness db siteId of None \<Rightarrow> Operation_kind | Some k \<Rightarrow> k)"
  define pick where "pick = (case find (\<lambda>m. qm_kind m = preferred) messages of Some m \<Rightarrow> Some m
      | None \<Rightarrow> (case messages of [] \<Rightarrow> None | m # _ \<Rightarrow> Some m))"
  have run: "selectLaneDispatch siteId messages db = (case pick of None \<Rightarrow> (Inr None, db)
      | Some m \<Rightarrow> (Inr (Some m), db\<lparr>rt_fairness := (rt_fairness db)(siteId := Some (other_kind (qm_kind m)))\<rparr>))"
    unfolding selectLaneDispatch_def pick_def preferred_def
    by (simp add: and_then_query and_then_modify succeed_def split: option.split)
  with assms have pick: "pick = Some m" and "rt_fairness db' siteId = Some (other_kind (qm_kind m))"
    by (auto split: option.splits)
  moreover have "m \<in> set messages" using pick by (auto simp: pick_def find_Some_iff split: option.splits list.splits)
  moreover have "qm_kind m = preferred" if "\<exists>n \<in> set messages. qm_kind n = preferred"
    using pick that by (auto simp: pick_def find_None_iff find_Some_iff split: option.splits)
  ultimately show ?thesis unfolding preferred_def by blast
qed

text \<open>
  C15: the two kinds of work of a site take turns.  Where deliveries of both kinds wait for two
  selections in a row, the second selects the kind the first did not.
\<close>

theorem lanes_take_turns:
  assumes "selectLaneDispatch siteId messages db = (Inr (Some m), db')"
    and "selectLaneDispatch siteId later db' = (Inr (Some n), db'')"
    and "\<exists>x \<in> set later. qm_kind x \<noteq> qm_kind m"
  shows "n \<in> set later \<and> qm_kind n \<noteq> qm_kind m"
proof -
  have kinds: "k \<noteq> qm_kind m \<longleftrightarrow> k = other_kind (qm_kind m)" for k
    by (cases k; cases "qm_kind m") (simp_all add: other_kind_def)
  from selected_kind [OF assms(1)] have "rt_fairness db' siteId = Some (other_kind (qm_kind m))" by blast
  with selected_kind [OF assms(2)] assms(3) show ?thesis unfolding kinds by auto
qed

theorem lanes_take_turns_witness:
  "qm_kind (sample_message\<lparr>qm_kind := Publication_kind\<rparr>) \<noteq> qm_kind sample_message"
proof -
  let ?p = "sample_message\<lparr>qm_kind := Publication_kind\<rparr>"
  let ?db = "snd (selectLaneDispatch ''s'' [?p, sample_message] empty_runtime_db)"
  have first: "selectLaneDispatch ''s'' [?p, sample_message] empty_runtime_db = (Inr (Some sample_message), ?db)"
    by (simp add: selectLaneDispatch_def and_then_query and_then_modify succeed_def empty_runtime_db_def sample_message_def)
  have second: "selectLaneDispatch ''s'' [sample_message, ?p] ?db = (Inr (Some ?p), snd (selectLaneDispatch ''s'' [sample_message, ?p] ?db))"
    by (simp add: selectLaneDispatch_def and_then_query and_then_modify succeed_def empty_runtime_db_def sample_message_def
        other_kind_def)
  from lanes_take_turns [OF first second] show ?thesis by (simp add: sample_message_def)
qed

end
