(* ===== verification/Js_Conversions.thy ===== *)
theory Js_Conversions
  imports Codebox_Prelude
begin

text \<open>
  The conversions of the language that the contracts of \<open>packages/runtime-core/src\<close> apply to
  untyped input: \<open>String(value)\<close>, \<open>Number(value)\<close>, comparison and rounding of numbers with the
  special values, and the small helpers built on them.

  A non-integer prints its decimal expansion up to seventeen fractional digits; exponent notation,
  which JavaScript uses below \<open>10^-6\<close> and from \<open>10^21\<close>, is not modelled.
\<close>

section \<open>Numbers\<close>

fun js_floor :: "jsnum \<Rightarrow> jsnum" where
  "js_floor (Fin q) = Fin (of_int \<lfloor>q\<rfloor>)"
| "js_floor n = n"

fun js_less :: "jsnum \<Rightarrow> jsnum \<Rightarrow> bool" where
  "js_less NaN _ = False"
| "js_less _ NaN = False"
| "js_less (Fin a) (Fin b) = (a < b)"
| "js_less NegInf b = (b \<noteq> NegInf)"
| "js_less _ NegInf = False"
| "js_less PosInf _ = False"
| "js_less (Fin _) PosInf = True"

definition js_min :: "jsnum \<Rightarrow> jsnum \<Rightarrow> jsnum" where
  "js_min a b = (if a = NaN \<or> b = NaN then NaN else if js_less b a then b else a)"

definition js_max :: "jsnum \<Rightarrow> jsnum \<Rightarrow> jsnum" where
  "js_max a b = (if a = NaN \<or> b = NaN then NaN else if js_less a b then b else a)"

text \<open>\<open>n || d\<close> for a number \<open>n\<close>.\<close>

definition js_num_or :: "jsnum \<Rightarrow> jsnum \<Rightarrow> jsnum" where
  "js_num_or n d = (if n = NaN \<or> n = Fin 0 then d else n)"

definition js_finite :: "jsnum \<Rightarrow> bool" where
  "js_finite n = (case n of Fin _ \<Rightarrow> True | _ \<Rightarrow> False)"

abbreviation NInt :: "int \<Rightarrow> jsnum" where
  "NInt i \<equiv> Fin (of_int i)"

section \<open>String of a value\<close>

fun fraction_digits :: "nat \<Rightarrow> rat \<Rightarrow> string" where
  "fraction_digits 0 q = []"
| "fraction_digits (Suc n) q =
     (if q = 0 then [] else char_of (48 + nat \<lfloor>10 * q\<rfloor>) # fraction_digits n (10 * q - of_int \<lfloor>10 * q\<rfloor>))"

fun js_number_string :: "jsnum \<Rightarrow> string" where
  "js_number_string (Fin q) =
     (if of_int \<lfloor>q\<rfloor> = q then string_of_int \<lfloor>q\<rfloor>
      else (if q < 0 then [CHR ''-''] else []) @ string_of_nat (nat \<lfloor>\<bar>q\<bar>\<rfloor>) @ ''.''
           @ fraction_digits 17 (\<bar>q\<bar> - of_int \<lfloor>\<bar>q\<bar>\<rfloor>))"
| "js_number_string NaN = ''NaN''"
| "js_number_string PosInf = ''Infinity''"
| "js_number_string NegInf = ''-Infinity''"

fun js_string :: "jsval \<Rightarrow> string" where
  "js_string JUndef = ''undefined''"
| "js_string JNull = ''null''"
| "js_string (JBool b) = (if b then ''true'' else ''false'')"
| "js_string (JNum n) = js_number_string n"
| "js_string (JStr s) = s"
| "js_string (JArr vs) = join_with '','' (map (\<lambda>v. if js_nullish v then [] else js_string v) vs)"
| "js_string (JObj _) = ''[object Object]''"

section \<open>Number of a value\<close>

definition digits_value :: "nat \<Rightarrow> string \<Rightarrow> nat" where
  "digits_value base s =
     foldl (\<lambda>n c. base * n + (if is_digit c then of_char c - 48
                             else if is_lower c then of_char c - 87 else of_char c - 55)) 0 s"

definition digit_of_base :: "nat \<Rightarrow> char \<Rightarrow> bool" where
  "digit_of_base base c \<longleftrightarrow> (is_digit c \<and> of_char c - 48 < base)
     \<or> (is_lower c \<and> of_char c - 87 < base) \<or> (is_upper c \<and> of_char c - 55 < base)"

definition unsigned_decimal :: "string \<Rightarrow> rat option" where
  "unsigned_decimal s =
     (let mantissa = takeWhile (\<lambda>c. c \<noteq> CHR ''e'' \<and> c \<noteq> CHR ''E'') s;
          tail = drop (length mantissa) s;
          whole = takeWhile is_digit mantissa;
          rest = drop (length whole) mantissa;
          frac = (case rest of [] \<Rightarrow> [] | _ # f \<Rightarrow> f);
          negative = (case tail of _ # c # _ \<Rightarrow> c = CHR ''-'' | _ \<Rightarrow> False);
          power = (case tail of [] \<Rightarrow> ''0'' | [_] \<Rightarrow> [] | _ # c # ds \<Rightarrow> if c = CHR ''-'' \<or> c = CHR ''+'' then ds else c # ds)
      in if (rest = [] \<or> hd rest = CHR ''.'') \<and> list_all is_digit frac \<and> whole @ frac \<noteq> []
            \<and> power \<noteq> [] \<and> list_all is_digit power
         then Some (of_nat (digits_value 10 (whole @ frac)) / 10 ^ length frac
                * (if negative then 1 / 10 ^ digits_value 10 power else 10 ^ digits_value 10 power))
         else None)"

text \<open>\<open>StringToNumber\<close>.\<close>

definition js_string_number :: "string \<Rightarrow> jsnum" where
  "js_string_number text =
     (let s = trim text;
          radix = (\<lambda>base. let ds = drop 2 s in
                     if ds \<noteq> [] \<and> list_all (digit_of_base base) ds then Fin (of_nat (digits_value base ds)) else NaN)
      in if s = [] then Fin 0
         else if take 2 s \<in> {''0x'', ''0X''} then radix 16
         else if take 2 s \<in> {''0o'', ''0O''} then radix 8
         else if take 2 s \<in> {''0b'', ''0B''} then radix 2
         else
           let negative = (hd s = CHR ''-'');
               body = (if hd s \<in> {CHR ''-'', CHR ''+''} then tl s else s)
           in if body = ''Infinity'' then (if negative then NegInf else PosInf)
              else (case unsigned_decimal body of
                      None \<Rightarrow> NaN
                    | Some q \<Rightarrow> Fin (if negative then - q else q)))"

fun js_number :: "jsval \<Rightarrow> jsnum" where
  "js_number JUndef = NaN"
| "js_number JNull = Fin 0"
| "js_number (JBool b) = Fin (if b then 1 else 0)"
| "js_number (JNum n) = n"
| "js_number (JStr s) = js_string_number s"
| "js_number (JArr vs) = js_string_number (js_string (JArr vs))"
| "js_number (JObj _) = NaN"

section \<open>Helpers of the contracts\<close>

text \<open>\<open>stringValue\<close> and \<open>stringList\<close>, as \<open>run-plan.ts\<close> and other contracts define them.\<close>

definition string_value :: "jsval \<Rightarrow> string" where
  "string_value v = (if js_nullish v then [] else trim (js_string v))"

definition string_list :: "jsval \<Rightarrow> string list" where
  "string_list v = (case v of JArr vs \<Rightarrow> filter (\<lambda>s. s \<noteq> []) (map string_value vs) | _ \<Rightarrow> [])"

definition positive_integer :: "jsval \<Rightarrow> jsnum option" where
  "positive_integer v =
     (let n = js_floor (js_num_or (js_number v) (Fin 0)) in if js_less (Fin 0) n then Some n else None)"

text \<open>\<open>{ ...obj, key: value }\<close>.\<close>

fun js_put :: "js_object \<Rightarrow> string \<Rightarrow> jsval \<Rightarrow> js_object" where
  "js_put [] k v = [(k, v)]"
| "js_put ((k', v') # obj) k v = (if k' = k then (k, v) # obj else (k', v') # js_put obj k v)"

text \<open>\<open>{ ...a, ...b }\<close>\<close>

definition js_spread :: "js_object \<Rightarrow> js_object \<Rightarrow> js_object" where
  "js_spread a b = foldl (\<lambda>obj (k, v). js_put obj k v) a b"

definition contains_text :: "string \<Rightarrow> string \<Rightarrow> bool" where
  "contains_text p s \<longleftrightarrow> (\<exists>i \<in> set [0..<Suc (length s)]. starts_with p (drop i s))"

text \<open>\<open>isRecord\<close>/\<open>isPlainObject\<close>, \<open>objectValue\<close>, a non-empty string, and \<open>stripUndefined\<close>\<close>

definition is_record :: "jsval \<Rightarrow> bool" where
  "is_record v = (case v of JObj _ \<Rightarrow> True | _ \<Rightarrow> False)"

fun record_fields :: "jsval \<Rightarrow> js_object" where
  "record_fields (JObj obj) = obj"
| "record_fields _ = []"

definition nonempty_string :: "jsval \<Rightarrow> string option" where
  "nonempty_string v = (case v of JStr s \<Rightarrow> if s \<noteq> [] then Some s else None | _ \<Rightarrow> None)"

text \<open>\<open>stringValue\<close> and \<open>numberValue\<close> of \<open>object-utils.ts\<close>, and \<open>a || b\<close> for two strings.\<close>

definition text_value :: "jsval \<Rightarrow> string" where
  "text_value v = (case v of JStr s \<Rightarrow> trim s | _ \<Rightarrow> [])"

definition number_value :: "jsval \<Rightarrow> rat option" where
  "number_value v = (case v of JNum (Fin q) \<Rightarrow> Some q | _ \<Rightarrow> None)"

definition str_or :: "string \<Rightarrow> string \<Rightarrow> string" where
  "str_or a b = (if a = [] then b else a)"

definition js_optional :: "string option \<Rightarrow> jsval" where
  "js_optional s = (case s of None \<Rightarrow> JUndef | Some t \<Rightarrow> JStr t)"

definition strip_undefined :: "js_object \<Rightarrow> js_object" where
  "strip_undefined = filter (\<lambda>(k, v). v \<noteq> JUndef)"

text \<open>\<open>[...new Set(xs)]\<close>: the first occurrences, in order.\<close>

definition js_unique :: "'a list \<Rightarrow> 'a list" where
  "js_unique xs = foldl (\<lambda>out x. if x \<in> set out then out else out @ [x]) [] xs"

lemma js_unique_fold:
  "distinct out \<Longrightarrow> distinct (foldl (\<lambda>out x. if x \<in> set out then out else out @ [x]) out xs)
   \<and> set (foldl (\<lambda>out x. if x \<in> set out then out else out @ [x]) out xs) = set out \<union> set xs"
  by (induction xs arbitrary: out) auto

lemma set_js_unique [simp]: "set (js_unique xs) = set xs"
  and distinct_js_unique [simp]: "distinct (js_unique xs)"
  using js_unique_fold [of "[]" xs] by (simp_all add: js_unique_def)

lemma js_get_put [simp]: "js_get (js_put obj k v) k' = (if k' = k then v else js_get obj k')"
  by (induction obj k v rule: js_put.induct) auto

lemma js_less_irrefl [simp]: "\<not> js_less a a"
  by (cases a) auto

lemma js_less_Fin [simp]: "js_less (Fin a) (Fin b) = (a < b)"
  by simp

lemma positive_integer_pos: "positive_integer v = Some n \<Longrightarrow> js_less (Fin 0) n"
  by (auto simp: positive_integer_def Let_def split: if_splits)

lemma trimmed_ends: "trim s \<noteq> [] \<Longrightarrow> \<not> js_space (hd (trim s)) \<and> \<not> js_space (last (trim s))"
proof -
  define t where "t = dropWhile js_space s"
  have trim_t: "trim s = rev (dropWhile js_space (rev t))" by (simp add: trim_def t_def)
  assume ne: "trim s \<noteq> []"
  then have tne: "dropWhile js_space (rev t) \<noteq> []" by (simp add: trim_t)
  have "\<not> js_space (last (trim s))"
    using hd_dropWhile [OF tne] tne by (simp add: trim_t last_rev)
  moreover obtain u where u: "rev t = u @ dropWhile js_space (rev t)"
    by (metis takeWhile_dropWhile_id)
  then have "t = trim s @ rev u" by (metis trim_t rev_append rev_rev_ident)
  with ne have "hd (trim s) = hd t" "t \<noteq> []" by (metis hd_append2, auto)
  then have "\<not> js_space (hd (trim s))" using hd_dropWhile [of js_space s] by (simp add: t_def)
  ultimately show ?thesis by simp
qed

lemma trim_trim [simp]: "trim (trim s) = trim s"
proof (cases "trim s = []")
  case False
  note ends = trimmed_ends [OF False]
  obtain c cs where c: "trim s = c # cs" using False by (cases "trim s") auto
  have d: "dropWhile js_space (trim s) = trim s" using ends c by simp
  obtain l ls where l: "rev (trim s) = l # ls" using False by (cases "rev (trim s)") auto
  then have "l = last (trim s)" by (metis hd_rev list.sel(1))
  with ends have "\<not> js_space l" by simp
  then have "dropWhile js_space (rev (trim s)) = rev (trim s)" unfolding l by simp
  with d have "rev (dropWhile js_space (rev (dropWhile js_space (trim s)))) = trim s" by simp
  then show ?thesis by (simp add: trim_def [of "trim s"])
qed (simp add: trim_def [of "[]"])

lemma text_value_JStr [simp]: "text_value (JStr s) = trim s"
  and text_value_undef [simp]: "text_value JUndef = []"
  by (simp_all add: text_value_def)

lemma text_value_idem [simp]: "trim (text_value v) = text_value v"
  by (cases v) (simp_all add: text_value_def, simp_all add: trim_def)

lemma str_or_ne [simp]: "str_or a b = [] \<longleftrightarrow> a = [] \<and> b = []"
  by (simp add: str_or_def)

end
