(* ===== verification/Run_Plan.thy ===== *)
theory Run_Plan
  imports Js_Conversions "HOL-Library.AList"
begin

text \<open>
  \<open>packages/runtime-core/src/run-plan.ts\<close>: normalizing a plan of workers, validating the graph of
  their dependencies, counting results, and the progress snapshot.  The scheduler that runs a plan is
  in \<open>Run_Scheduler\<close>.  \<open>Date.parse\<close> and the clock are arguments.
\<close>

section \<open>Contracts\<close>

record cancellation_metadata =
  cm_cancelRequested :: bool
  cm_reason :: "string option"
  cm_timeoutSeconds :: "jsnum option"
  cm_deadline :: "string option"

record worker_descriptor =
  wd_id :: string
  wd_index :: nat
  wd_worker :: js_object
  wd_goal :: string
  wd_agent :: string
  wd_namespace :: string
  wd_required :: bool
  wd_dependsOn :: "string list"
  wd_timeoutSeconds :: "jsnum option"
  wd_cancellation :: cancellation_metadata

datatype concurrency_mode = Clamp | Validate

record plan_options =
  po_defaultAgent :: jsval
  po_defaultConcurrency :: jsval
  po_maxConcurrency :: jsval
  po_requireGoal :: bool
  po_concurrencyMode :: "concurrency_mode option"

text \<open>A result of a worker; \<open>wr_extra\<close> holds the further fields an adapter may put into it.\<close>

record worker_result =
  wr_workerId :: string
  wr_success :: "bool option"
  wr_status :: "string option"
  wr_output :: jsval
  wr_error :: "(string \<times> string) option"
  wr_dependencies :: "(string \<times> string option \<times> bool option) list"
  wr_extra :: js_object

record result_counts =
  rn_total :: int
  rn_completed :: int
  rn_failed :: int
  rn_skipped :: int
  rn_cancelled :: int
  rn_timed_out :: int

section \<open>Normalization\<close>

definition safe_segment :: "string \<Rightarrow> bool" where
  "safe_segment s \<longleftrightarrow> s \<noteq> [] \<and> is_alnum (hd s)
     \<and> list_all (\<lambda>c. is_alnum c \<or> c \<in> {CHR ''.'', CHR ''_'', CHR ''-''}) (tl s)"

definition or_empty :: "string \<Rightarrow> string" where
  "or_empty s = (if s = [] then ''<empty>'' else s)"

definition safeRunPlanPathSegment :: "jsval \<Rightarrow> string + string" where
  "safeRunPlanPathSegment value =
     (let segment = string_value value in
      if safe_segment segment then Inr segment
      else Inl (''Run plan path segment must be safe: '' @ or_empty segment))"

definition safeRunPlanNamespace :: "string \<Rightarrow> string + string" where
  "safeRunPlanNamespace value =
     (let namespace = trim value in
      if namespace = [] \<or> \<not> list_all safe_segment (split_on (CHR ''/'') namespace)
      then Inl (''Run plan namespace must contain safe path segments: '' @ or_empty namespace)
      else Inr namespace)"

definition non_empty :: "string \<Rightarrow> string option" where
  "non_empty s = (if s = [] then None else Some s)"

definition timeout_of :: "js_object \<Rightarrow> jsnum option" where
  "timeout_of source = positive_integer (coalesce (js_get source ''timeoutSeconds'')
     (coalesce (js_get source ''timeout_seconds'') (js_get source ''task_timeout_seconds'')))"

definition runPlanCancellationMetadata :: "js_object \<Rightarrow> cancellation_metadata" where
  "runPlanCancellationMetadata source =
     \<lparr>cm_cancelRequested = js_truthy (coalesce (js_get source ''cancelRequested'')
        (coalesce (js_get source ''cancel_requested'') (js_get source ''cancelled''))),
      cm_reason = non_empty (string_value (coalesce (js_get source ''cancelReason'') (js_get source ''cancel_reason''))),
      cm_timeoutSeconds = timeout_of source,
      cm_deadline = non_empty (string_value (js_get source ''deadline''))\<rparr>"

definition descriptor_of ::
    "plan_options \<Rightarrow> nat \<Rightarrow> string \<Rightarrow> string \<Rightarrow> string \<Rightarrow> js_object \<Rightarrow> worker_descriptor" where
  "descriptor_of options index wid goal namespace worker =
     \<lparr>wd_id = wid, wd_index = index, wd_worker = js_put worker ''id'' (JStr wid), wd_goal = goal,
      wd_agent = (let agent = string_value (js_get worker ''agent'') in
                  if agent = [] then string_value (po_defaultAgent options) else agent),
      wd_namespace = namespace, wd_required = (js_get worker ''required'' \<noteq> JBool False),
      wd_dependsOn = string_list (coalesce (js_get worker ''dependsOn'') (js_get worker ''depends_on'')),
      wd_timeoutSeconds = timeout_of worker, wd_cancellation = runPlanCancellationMetadata worker\<rparr>"

definition normalize_worker :: "plan_options \<Rightarrow> string list \<Rightarrow> nat \<Rightarrow> js_object \<Rightarrow> string + worker_descriptor" where
  "normalize_worker options seen index worker =
     (case safeRunPlanPathSegment (js_get worker ''id'') of
        Inl e \<Rightarrow> Inl e
      | Inr wid \<Rightarrow>
          if wid \<in> set seen then Inl (''Run plan worker ids must be unique: '' @ wid)
          else
            let goal = string_value (js_get worker ''goal'') in
            if po_requireGoal options \<and> goal = [] then Inl (''Run plan worker requires goal: '' @ wid)
            else
              let given = string_value (coalesce (js_get worker ''artifactNamespace'') (js_get worker ''artifact_namespace'')) in
              case safeRunPlanNamespace (if given = [] then wid else given) of
                Inl e \<Rightarrow> Inl e
              | Inr namespace \<Rightarrow> Inr (descriptor_of options index wid goal namespace worker))"

fun normalize_workers :: "plan_options \<Rightarrow> string list \<Rightarrow> nat \<Rightarrow> js_object list \<Rightarrow> string + worker_descriptor list" where
  "normalize_workers options seen index [] = Inr []"
| "normalize_workers options seen index (worker # workers) =
     (case normalize_worker options seen index worker of
        Inl e \<Rightarrow> Inl e
      | Inr d \<Rightarrow>
          (case normalize_workers options (wd_id d # seen) (index + 1) workers of
             Inl e \<Rightarrow> Inl e
           | Inr ds \<Rightarrow> Inr (d # ds)))"

definition normalizeRunPlanWorkerDescriptors :: "js_object list \<Rightarrow> plan_options \<Rightarrow> string + worker_descriptor list" where
  "normalizeRunPlanWorkerDescriptors workers options =
     (if workers = [] then Inl ''Run plan requires at least one worker.'' else normalize_workers options [] 0 workers)"

text \<open>\<open>Math.max(1, Math.floor(Number(v) || d))\<close>\<close>

definition at_least_one :: "jsval \<Rightarrow> jsnum \<Rightarrow> jsnum" where
  "at_least_one v d = js_max (Fin 1) (js_floor (js_num_or (js_number v) d))"

definition max_concurrency_of :: "jsval \<Rightarrow> jsnum" where
  "max_concurrency_of v = at_least_one v (NInt max_safe_integer)"

definition normalizeRunPlanConcurrency ::
    "jsval \<Rightarrow> jsval \<Rightarrow> jsval \<Rightarrow> concurrency_mode option \<Rightarrow> string + jsnum" where
  "normalizeRunPlanConcurrency value fallback maximum mode =
     (let defaultConcurrency = at_least_one fallback (Fin 1);
          maxConcurrency = max_concurrency_of maximum;
          requested = js_floor (js_num_or (js_number value) defaultConcurrency)
      in if mode = Some Validate \<and> (js_less requested (Fin 1) \<or> js_less maxConcurrency requested)
         then Inl (''Run plan concurrency must be between 1 and '' @ js_number_string maxConcurrency @ ''.'')
         else Inr (js_max (Fin 1) (js_min maxConcurrency requested)))"

definition js_thousand_times :: "jsnum \<Rightarrow> jsnum" where
  "js_thousand_times n = (case n of Fin q \<Rightarrow> Fin (1000 * q) | _ \<Rightarrow> n)"

definition runPlanWorkerExecutionTimeoutMs :: "(string \<Rightarrow> jsnum) \<Rightarrow> string \<Rightarrow> worker_descriptor \<Rightarrow> jsnum option" where
  "runPlanWorkerExecutionTimeoutMs parse clock d =
     (let limits = (case wd_timeoutSeconds d of None \<Rightarrow> [] | Some n \<Rightarrow> [js_thousand_times n])
        @ (case cm_deadline (wd_cancellation d) of
             None \<Rightarrow> []
           | Some deadline \<Rightarrow>
               (case (parse deadline, parse clock) of
                  (Fin e, Fin now) \<Rightarrow> [Fin (max 0 (e - now))]
                | _ \<Rightarrow> []))
      in if limits = [] then None else Some (foldl js_min PosInf limits))"

section \<open>Validation of the dependencies\<close>

definition find_worker :: "worker_descriptor list \<Rightarrow> string \<Rightarrow> worker_descriptor option" where
  "find_worker workers wid = find (\<lambda>w. wd_id w = wid) (rev workers)"

fun check_known :: "worker_descriptor list \<Rightarrow> string \<Rightarrow> string list \<Rightarrow> string + unit" where
  "check_known workers wid [] = Inr ()"
| "check_known workers wid (d # ds) =
     (if d = wid then Inl (''Run plan worker cannot depend on itself: '' @ wid)
      else if find_worker workers d = None
      then Inl (''Run plan worker '' @ wid @ '' depends on unknown worker: '' @ d)
      else check_known workers wid ds)"

fun check_all_known :: "worker_descriptor list \<Rightarrow> worker_descriptor list \<Rightarrow> string + unit" where
  "check_all_known workers [] = Inr ()"
| "check_all_known workers (w # ws) =
     (case check_known workers (wd_id w) (wd_dependsOn w) of
        Inl e \<Rightarrow> Inl e
      | Inr _ \<Rightarrow> check_all_known workers ws)"

text \<open>
  The depth-first search: \<open>visiting\<close> holds the workers on the current path, \<open>visited\<close> the finished
  ones.  Looking up an unknown worker would throw; it is the branch \<open>None\<close>.
\<close>

function visit :: "worker_descriptor list \<Rightarrow> string list \<Rightarrow> string list \<Rightarrow> string \<Rightarrow> string + string list"
    and visit_each :: "worker_descriptor list \<Rightarrow> string list \<Rightarrow> string list \<Rightarrow> string list \<Rightarrow> string + string list" where
  "visit workers visiting visited wid =
     (case find_worker workers wid of
        None \<Rightarrow> Inl ''Cannot read properties of undefined''
      | Some w \<Rightarrow>
          if wid \<in> set visited then Inr visited
          else if wid \<in> set visiting then Inl (''Run plan dependencies contain a cycle at worker: '' @ wid)
          else (case visit_each workers (wid # visiting) visited (wd_dependsOn w) of
                  Inl e \<Rightarrow> Inl e
                | Inr visited' \<Rightarrow> Inr (wid # visited')))"
| "visit_each workers visiting visited [] = Inr visited"
| "visit_each workers visiting visited (d # ds) =
     (case visit workers visiting visited d of
        Inl e \<Rightarrow> Inl e
      | Inr visited' \<Rightarrow> visit_each workers visiting visited' ds)"
  by pat_completeness auto

lemma find_workerD: "find_worker workers wid = Some w \<Longrightarrow> w \<in> set workers \<and> wd_id w = wid"
  unfolding find_worker_def by (auto simp: find_Some_iff) (metis nth_mem set_rev length_rev)

lemma unvisited_less:
  assumes "find_worker workers wid = Some w" and "wid \<notin> set visiting"
  shows "card (wd_id ` set workers - insert wid (set visiting)) < card (wd_id ` set workers - set visiting)"
  using find_workerD [OF assms(1)] assms(2) by (intro psubset_card_mono) auto

termination visit
  by (relation "measures [\<lambda>x. case x of
        Inl (workers, visiting, visited, wid) \<Rightarrow> card (wd_id ` set workers - set visiting)
      | Inr (workers, visiting, visited, ds) \<Rightarrow> card (wd_id ` set workers - set visiting),
      \<lambda>x. case x of Inl _ \<Rightarrow> 0 | Inr (workers, visiting, visited, ds) \<Rightarrow> Suc (length ds)]")
     (auto simp: unvisited_less)

declare visit.simps [simp del]

definition validateRunPlanDependencies :: "worker_descriptor list \<Rightarrow> string + unit" where
  "validateRunPlanDependencies workers =
     (case check_all_known workers workers of
        Inl e \<Rightarrow> Inl e
      | Inr _ \<Rightarrow>
          (case visit_each workers [] [] (map wd_id workers) of
             Inl e \<Rightarrow> Inl e
           | Inr _ \<Rightarrow> Inr ()))"

section \<open>The search is a test for cycles\<close>

definition depends_on :: "worker_descriptor list \<Rightarrow> (string \<times> string) set" where
  "depends_on workers = {(wd_id w, d) | w d. w \<in> set workers \<and> d \<in> set (wd_dependsOn w)}"

definition known_dependencies :: "worker_descriptor list \<Rightarrow> bool" where
  "known_dependencies workers \<longleftrightarrow>
     (\<forall>w \<in> set workers. \<forall>d \<in> set (wd_dependsOn w). d \<noteq> wd_id w \<and> d \<in> wd_id ` set workers)"

lemma find_worker_None: "find_worker workers d = None \<longleftrightarrow> d \<notin> wd_id ` set workers"
  by (auto simp: find_worker_def find_None_iff)

lemma find_worker_Some:
  assumes "distinct (map wd_id workers)" and "w \<in> set workers"
  shows "find_worker workers (wd_id w) = Some w"
proof -
  obtain v where v: "find_worker workers (wd_id w) = Some v"
    using assms(2) find_worker_None [of workers "wd_id w"] by (cases "find_worker workers (wd_id w)") auto
  with find_workerD [OF v] assms have "v = w" by (auto simp: distinct_map inj_on_def)
  with v show ?thesis by simp
qed

lemma check_known_ok:
  "check_known workers wid ds = Inr () \<longleftrightarrow> (\<forall>d \<in> set ds. d \<noteq> wid \<and> d \<in> wd_id ` set workers)"
  by (induction ds) (auto simp: find_worker_None)

lemma check_all_known_ok:
  "check_all_known workers ws = Inr ()
   \<longleftrightarrow> (\<forall>w \<in> set ws. \<forall>d \<in> set (wd_dependsOn w). d \<noteq> wd_id w \<and> d \<in> wd_id ` set workers)"
proof (induction ws)
  case (Cons w ws)
  show ?case
  proof (cases "check_known workers (wd_id w) (wd_dependsOn w)")
    case (Inr u)
    then have "check_known workers (wd_id w) (wd_dependsOn w) = Inr ()" by simp
    with Cons check_known_ok [of workers "wd_id w" "wd_dependsOn w"] show ?thesis by simp
  next
    case (Inl e)
    with check_known_ok [of workers "wd_id w" "wd_dependsOn w"] show ?thesis by auto
  qed
qed simp

text \<open>The visited list is in an order where what a worker depends on comes later.\<close>

fun finished_order :: "worker_descriptor list \<Rightarrow> string list \<Rightarrow> bool" where
  "finished_order workers [] = True"
| "finished_order workers (v # rest) =
     ((\<exists>w. find_worker workers v = Some w \<and> set (wd_dependsOn w) \<subseteq> set rest) \<and> finished_order workers rest)"

lemma visit_finishes:
  "visit workers visiting visited wid = Inr visited' \<Longrightarrow> finished_order workers visited \<Longrightarrow>
     finished_order workers visited' \<and> wid \<in> set visited' \<and> set visited \<subseteq> set visited'"
  "visit_each workers visiting visited ds = Inr visited' \<Longrightarrow> finished_order workers visited \<Longrightarrow>
     finished_order workers visited' \<and> set ds \<subseteq> set visited' \<and> set visited \<subseteq> set visited'"
proof (induction workers visiting visited wid and workers visiting visited ds arbitrary: visited' and visited'
    rule: visit_visit_each.induct)
  case (1 workers visiting visited wid)
  from 1(2) obtain w where w: "find_worker workers wid = Some w" by (auto simp: visit.simps split: option.splits)
  show ?case
  proof (cases "wid \<in> set visited")
    case True
    with 1(2,3) w show ?thesis by (simp add: visit.simps)
  next
    case False
    with 1(2) w have new: "wid \<notin> set visiting" by (auto simp: visit.simps)
    with 1(2) w False obtain v where v: "visit_each workers (wid # visiting) visited (wd_dependsOn w) = Inr v"
        and "visited' = wid # v"
      by (auto simp: visit.simps split: sum.splits)
    with 1(1) [OF w False new v 1(3)] w show ?thesis by auto
  qed
next
  case (3 workers visiting visited d ds)
  then obtain v where v: "visit workers visiting visited d = Inr v" by (auto split: sum.splits)
  with 3 have "visit_each workers visiting v ds = Inr visited'" by simp
  with 3(1) [OF v 3(4)] 3(2) [OF v] show ?case by auto
qed simp_all

fun finished_rank :: "string list \<Rightarrow> string \<Rightarrow> nat" where
  "finished_rank [] v = 0"
| "finished_rank (x # xs) v = (if v \<in> set xs then finished_rank xs v else Suc (length xs))"

lemma finished_rank_le: "finished_rank xs v \<le> length xs"
  by (induction xs) auto

lemma finished_order_rank:
  assumes "distinct (map wd_id workers)"
  shows "finished_order workers xs \<Longrightarrow> v \<in> set xs \<Longrightarrow> (v, d) \<in> depends_on workers \<Longrightarrow>
    d \<in> set xs \<and> finished_rank xs d < finished_rank xs v"
proof (induction xs)
  case (Cons x xs)
  show ?case
  proof (cases "v \<in> set xs")
    case True
    with Cons show ?thesis by auto
  next
    case False
    with Cons have x: "x = v" by simp
    with Cons obtain w where w: "find_worker workers v = Some w" "set (wd_dependsOn w) \<subseteq> set xs" by auto
    from Cons(4) obtain u where u: "u \<in> set workers" "wd_id u = v" "d \<in> set (wd_dependsOn u)"
      by (auto simp: depends_on_def)
    with find_worker_Some [OF assms u(1)] w have "d \<in> set xs" by auto
    with False x finished_rank_le [of xs d] show ?thesis by simp
  qed
qed simp

lemma finished_order_acyclic:
  assumes "distinct (map wd_id workers)" and "finished_order workers xs" and "wd_id ` set workers \<subseteq> set xs"
  shows "acyclic (depends_on workers)"
proof -
  have "(d, v) \<in> measure (finished_rank xs)" if "(v, d) \<in> depends_on workers" for v d
    using finished_order_rank [OF assms(1,2) _ that] that assms(3) by (auto simp: depends_on_def)
  then have "(depends_on workers)\<inverse> \<subseteq> measure (finished_rank xs)" by auto
  then have "wf ((depends_on workers)\<inverse>)" by (rule wf_subset [OF wf_measure])
  then show ?thesis using wf_acyclic acyclic_converse by blast
qed

lemma visit_succeeds:
  assumes "known_dependencies workers" and "acyclic (depends_on workers)"
  shows "wid \<in> wd_id ` set workers \<Longrightarrow> (\<And>v. v \<in> set visiting \<Longrightarrow> (v, wid) \<in> (depends_on workers)\<^sup>+) \<Longrightarrow>
      \<exists>visited'. visit workers visiting visited wid = Inr visited'"
    and "set ds \<subseteq> wd_id ` set workers \<Longrightarrow>
      (\<And>v d. v \<in> set visiting \<Longrightarrow> d \<in> set ds \<Longrightarrow> (v, d) \<in> (depends_on workers)\<^sup>+) \<Longrightarrow>
      \<exists>visited'. visit_each workers visiting visited ds = Inr visited'"
  using assms
proof (induction workers visiting visited wid and workers visiting visited ds rule: visit_visit_each.induct)
  case (1 workers visiting visited wid)
  then obtain w where w: "find_worker workers wid = Some w"
    using find_worker_None [of workers wid] by (cases "find_worker workers wid") auto
  note wD = find_workerD [OF w]
  have new: "wid \<notin> set visiting"
  proof
    assume "wid \<in> set visiting"
    with 1(3) have "(wid, wid) \<in> (depends_on workers)\<^sup>+" by blast
    with 1(5) show False by (auto simp: acyclic_def)
  qed
  show ?case
  proof (cases "wid \<in> set visited")
    case True
    with w show ?thesis by (simp add: visit.simps)
  next
    case False
    have "set (wd_dependsOn w) \<subseteq> wd_id ` set workers" using 1(4) wD by (auto simp: known_dependencies_def)
    moreover have edge: "(wid, d) \<in> depends_on workers" if "d \<in> set (wd_dependsOn w)" for d
      using that wD by (auto simp: depends_on_def)
    then have "(v, d) \<in> (depends_on workers)\<^sup>+" if "v \<in> set (wid # visiting)" "d \<in> set (wd_dependsOn w)" for v d
      using that 1(3) [of v] by (auto intro: trancl_into_trancl)
    ultimately obtain v where "visit_each workers (wid # visiting) visited (wd_dependsOn w) = Inr v"
      using 1(1) [OF w False new _ _ 1(4,5)] by blast
    with w False new show ?thesis by (simp add: visit.simps)
  qed
next
  case (3 workers visiting visited d ds)
  then obtain v where v: "visit workers visiting visited d = Inr v" by auto
  with 3(2) [OF v] 3(3-) show ?case by simp
qed simp

lemma validate_iff:
  assumes "distinct (map wd_id workers)"
  shows "validateRunPlanDependencies workers = Inr () \<longleftrightarrow> known_dependencies workers \<and> acyclic (depends_on workers)"
proof
  assume ok: "validateRunPlanDependencies workers = Inr ()"
  then have "check_all_known workers workers = Inr ()"
    by (auto simp: validateRunPlanDependencies_def split: sum.splits)
  then have known: "known_dependencies workers" by (auto simp: check_all_known_ok known_dependencies_def)
  from ok obtain v where "visit_each workers [] [] (map wd_id workers) = Inr v"
    by (auto simp: validateRunPlanDependencies_def split: sum.splits)
  from visit_finishes(2) [OF this] have "finished_order workers v" "wd_id ` set workers \<subseteq> set v" by auto
  with known finished_order_acyclic [OF assms] show "known_dependencies workers \<and> acyclic (depends_on workers)" by blast
next
  assume a: "known_dependencies workers \<and> acyclic (depends_on workers)"
  then have "check_all_known workers workers = Inr ()" by (auto simp: check_all_known_ok known_dependencies_def)
  moreover obtain v where "visit_each workers [] [] (map wd_id workers) = Inr v"
    using visit_succeeds(2) [of workers "map wd_id workers" "[]" "[]"] a by auto
  ultimately show "validateRunPlanDependencies workers = Inr ()" by (simp add: validateRunPlanDependencies_def)
qed

lemma normalize_worker_id: "normalize_worker options seen index worker = Inr d \<Longrightarrow> wd_id d \<notin> set seen \<and> wd_index d = index
  \<and> safe_segment (wd_id d) \<and> list_all safe_segment (split_on (CHR ''/'') (wd_namespace d))"
  by (auto simp: normalize_worker_def descriptor_of_def Let_def safeRunPlanPathSegment_def safeRunPlanNamespace_def
      split: sum.splits if_splits)

lemma normalize_workers_ids:
  "normalize_workers options seen index workers = Inr ds \<Longrightarrow>
   distinct (map wd_id ds) \<and> set (map wd_id ds) \<inter> set seen = {} \<and> map wd_index ds = [index..<index + length workers]
   \<and> (\<forall>d \<in> set ds. safe_segment (wd_id d) \<and> list_all safe_segment (split_on (CHR ''/'') (wd_namespace d)))"
proof (induction options seen index workers arbitrary: ds rule: normalize_workers.induct)
  case (2 options seen index worker workers)
  then obtain d ds' where d: "normalize_worker options seen index worker = Inr d"
    and ds': "normalize_workers options (wd_id d # seen) (index + 1) workers = Inr ds'" and ds: "ds = d # ds'"
    by (auto split: sum.splits)
  have "[index..<index + length (worker # workers)] = index # [index + 1..<index + 1 + length workers]"
    by (subst upt_conv_Cons) simp_all
  with 2(1) [OF d ds'] normalize_worker_id [OF d] show ?case unfolding ds by (auto simp del: upt_Suc)
qed simp

lemma js_not_less: "a \<noteq> NaN \<Longrightarrow> b \<noteq> NaN \<Longrightarrow> \<not> js_less a b \<Longrightarrow> a = b \<or> js_less b a"
  by (cases a; cases b) auto

lemma js_max_ge: "b \<noteq> NaN \<Longrightarrow> \<not> js_less (js_max (Fin 1) b) (Fin 1)"
  by (cases b) (auto simp: js_max_def)

lemma js_floor_or_nan: "d \<noteq> NaN \<Longrightarrow> js_floor (js_num_or n d) \<noteq> NaN"
  by (cases n; cases d) (auto simp: js_num_or_def)

lemma at_least_one_ne: "d \<noteq> NaN \<Longrightarrow> at_least_one v d \<noteq> NaN"
  using js_floor_or_nan [of d "js_number v"] by (auto simp: at_least_one_def js_max_def)

lemma concurrency_bounds:
  assumes "normalizeRunPlanConcurrency value fallback maximum mode = Inr n"
  shows "\<not> js_less n (Fin 1) \<and> \<not> js_less (max_concurrency_of maximum) n"
proof -
  define r where "r = js_floor (js_num_or (js_number value) (at_least_one fallback (Fin 1)))"
  define m where "m = max_concurrency_of maximum"
  have "m \<noteq> NaN" "r \<noteq> NaN"
    using at_least_one_ne [of "NInt max_safe_integer" maximum] js_floor_or_nan at_least_one_ne [of "Fin 1" fallback]
    by (auto simp: m_def r_def max_concurrency_of_def)
  moreover have "\<not> js_less m (Fin 1)"
    using js_max_ge [of "js_floor (js_num_or (js_number maximum) (NInt max_safe_integer))"] js_floor_or_nan [of "NInt max_safe_integer" "js_number maximum"]
    by (simp add: m_def max_concurrency_of_def at_least_one_def)
  moreover have "n = js_max (Fin 1) (js_min m r)"
    using assms by (auto simp: normalizeRunPlanConcurrency_def Let_def r_def m_def split: if_splits)
  ultimately show ?thesis
    unfolding m_def [symmetric] by (cases m; cases r) (auto simp: js_max_def js_min_def split: if_splits)
qed

section \<open>Counting results\<close>

definition count_where :: "('a \<Rightarrow> bool) \<Rightarrow> 'a list \<Rightarrow> int" where
  "count_where c xs = int (length (filter c xs))"

definition countRunPlanChildResults :: "worker_result list \<Rightarrow> result_counts" where
  "countRunPlanChildResults results =
     (let completed = count_where (\<lambda>r. wr_success r = Some True) results;
          skipped = count_where (\<lambda>r. wr_status r = Some ''skipped'') results;
          cancelled = count_where (\<lambda>r. wr_status r = Some ''cancelled'') results;
          timedOut = count_where (\<lambda>r. wr_status r = Some ''timed_out'' \<or> wr_status r = Some ''timeout'') results
      in \<lparr>rn_total = int (length results), rn_completed = completed,
          rn_failed = int (length results) - completed - skipped - cancelled - timedOut,
          rn_skipped = skipped, rn_cancelled = cancelled, rn_timed_out = timedOut\<rparr>)"

definition runPlanSucceeded :: "result_counts \<Rightarrow> bool" where
  "runPlanSucceeded counts \<longleftrightarrow>
     rn_failed counts = 0 \<and> rn_skipped counts = 0 \<and> rn_cancelled counts = 0 \<and> rn_timed_out counts = 0"

text \<open>Results whose success and status do not contradict each other.\<close>

definition interrupted_status :: "string option \<Rightarrow> bool" where
  "interrupted_status s \<longleftrightarrow> s \<in> {Some ''skipped'', Some ''cancelled'', Some ''timed_out'', Some ''timeout''}"

definition coherent_result :: "worker_result \<Rightarrow> bool" where
  "coherent_result r \<longleftrightarrow> (wr_success r = Some True \<longrightarrow> \<not> interrupted_status (wr_status r))"

lemma failed_count:
  assumes "\<forall>r \<in> set results. coherent_result r"
  shows "rn_failed (countRunPlanChildResults results)
    = count_where (\<lambda>r. wr_success r \<noteq> Some True \<and> \<not> interrupted_status (wr_status r)) results"
  using assms
proof (induction results)
  case (Cons r results)
  then show ?case
    by (auto simp: countRunPlanChildResults_def count_where_def coherent_result_def interrupted_status_def Let_def)
qed (simp add: countRunPlanChildResults_def count_where_def)

lemma succeeded_all:
  assumes "\<forall>r \<in> set results. coherent_result r"
  shows "runPlanSucceeded (countRunPlanChildResults results) \<longleftrightarrow> (\<forall>r \<in> set results. wr_success r = Some True)"
  unfolding runPlanSucceeded_def failed_count [OF assms] using assms
  by (auto simp: countRunPlanChildResults_def count_where_def Let_def filter_empty_conv coherent_result_def interrupted_status_def)

section \<open>Progress\<close>

datatype progress_status = P_queued | P_running | P_succeeded | P_failed | P_skipped | P_cancelled | P_timed_out

record plan_event =
  pe_event :: jsval
  pe_time :: "string option"
  pe_workerId :: jsval
  pe_status :: jsval

record progress_worker =
  pw_id :: string
  pw_status :: progress_status
  pw_required :: "bool option"
  pw_namespace :: "string option"
  pw_lastEvent :: "string option"
  pw_startedAt :: "string option"
  pw_completedAt :: "string option"

record progress_input =
  pi_planWorkers :: "js_object list option"
  pi_planSession :: jsval
  pi_planId :: jsval
  pi_workers :: "js_object list option"
  pi_results :: "worker_result list"
  pi_events :: "plan_event list"
  pi_sessionId :: jsval
  pi_runId :: jsval
  pi_eventsRef :: jsval
  pi_resultRef :: jsval
  pi_time :: "string option"
  pi_metadata :: jsval

record progress_snapshot =
  sn_time :: string
  sn_status :: progress_status
  sn_active :: nat
  sn_counts :: result_counts
  sn_workers :: "progress_worker list"
  sn_sessionId :: "string option"
  sn_runId :: "string option"
  sn_eventsRef :: "string option"
  sn_resultRef :: "string option"
  sn_metadata :: "jsval option"

definition contains_any :: "string list \<Rightarrow> string \<Rightarrow> bool" where
  "contains_any ps s = list_ex (\<lambda>p. contains_text p s) ps"

definition progress_of_event :: "plan_event \<Rightarrow> progress_status option" where
  "progress_of_event event =
     (let label = string_value (pe_event event) @ '' '' @ string_value (pe_status event) in
      if contains_any [''started'', ''running''] label then Some P_running
      else if contains_any [''completed'', ''succeeded'', ''success''] label then Some P_succeeded
      else if contains_any [''cancelled'', ''canceled''] label then Some P_cancelled
      else if contains_any [''timed_out'', ''timed out'', ''timed-out'', ''timedout'', ''timeout''] label then Some P_timed_out
      else if contains_any [''skipped''] label then Some P_skipped
      else if contains_any [''failed'', ''error''] label then Some P_failed
      else None)"

definition progress_of_result :: "worker_result \<Rightarrow> progress_status" where
  "progress_of_result r =
     (if wr_success r = Some True then P_succeeded
      else
        let status = (case wr_status r of None \<Rightarrow> [] | Some s \<Rightarrow> trim s) in
        if status = ''cancelled'' then P_cancelled
        else if status = ''skipped'' then P_skipped
        else if status = ''timed_out'' \<or> status = ''timeout'' then P_timed_out
        else P_failed)"

definition progress_of_counts :: "result_counts \<Rightarrow> progress_status" where
  "progress_of_counts c =
     (if rn_completed c + rn_failed c + rn_skipped c + rn_cancelled c + rn_timed_out c < rn_total c then P_running
      else if rn_timed_out c > 0 then P_timed_out
      else if rn_cancelled c > 0 then P_cancelled
      else if rn_failed c > 0 then P_failed
      else if rn_skipped c > 0 then P_skipped
      else P_succeeded)"

definition count_progress :: "progress_worker list \<Rightarrow> result_counts" where
  "count_progress workers =
     \<lparr>rn_total = int (length workers),
      rn_completed = count_where (\<lambda>w. pw_status w = P_succeeded) workers,
      rn_failed = count_where (\<lambda>w. pw_status w = P_failed) workers,
      rn_skipped = count_where (\<lambda>w. pw_status w = P_skipped) workers,
      rn_cancelled = count_where (\<lambda>w. pw_status w = P_cancelled) workers,
      rn_timed_out = count_where (\<lambda>w. pw_status w = P_timed_out) workers\<rparr>"

definition queued_worker :: "string \<Rightarrow> progress_worker" where
  "queued_worker wid = \<lparr>pw_id = wid, pw_status = P_queued, pw_required = None, pw_namespace = None, pw_lastEvent = None,
     pw_startedAt = None, pw_completedAt = None\<rparr>"

type_synonym progress_map = "(string \<times> progress_worker) list"

definition add_source :: "js_object \<Rightarrow> progress_map \<Rightarrow> progress_map" where
  "add_source worker m =
     (let wid = string_value (js_get worker ''id'') in
      if wid = [] \<or> map_of m wid \<noteq> None then m
      else AList.update wid ((queued_worker wid)\<lparr>
             pw_required := (case js_get worker ''required'' of JBool b \<Rightarrow> Some b | _ \<Rightarrow> None),
             pw_namespace := non_empty (string_value
               (coalesce (js_get worker ''artifactNamespace'') (js_get worker ''artifact_namespace'')))\<rparr>) m)"

definition current_worker :: "progress_map \<Rightarrow> string \<Rightarrow> progress_worker" where
  "current_worker m wid = (case map_of m wid of None \<Rightarrow> queued_worker wid | Some w \<Rightarrow> w)"

definition truthy_time :: "plan_event \<Rightarrow> string option" where
  "truthy_time event = (case pe_time event of None \<Rightarrow> None | Some t \<Rightarrow> non_empty t)"

definition add_event :: "plan_event \<Rightarrow> progress_map \<Rightarrow> progress_map" where
  "add_event event m =
     (let wid = string_value (pe_workerId event) in
      if wid = [] then m
      else
        let current = current_worker m wid;
            status = progress_of_event event;
            last_event = non_empty (string_value (pe_event event))
        in AList.update wid (current\<lparr>
             pw_status := (case status of None \<Rightarrow> pw_status current | Some s \<Rightarrow> s),
             pw_lastEvent := (case last_event of None \<Rightarrow> pw_lastEvent current | Some e \<Rightarrow> Some e),
             pw_startedAt := (if status = Some P_running \<and> truthy_time event \<noteq> None then truthy_time event
                              else pw_startedAt current),
             pw_completedAt := (if status \<noteq> None \<and> status \<noteq> Some P_running \<and> truthy_time event \<noteq> None
                                then truthy_time event else pw_completedAt current)\<rparr>) m)"

definition add_result :: "string \<times> worker_result \<Rightarrow> progress_map \<Rightarrow> progress_map" where
  "add_result = (\<lambda>(wid, result) m. AList.update wid ((current_worker m wid)\<lparr>pw_status := progress_of_result result\<rparr>) m)"

definition results_by_worker :: "worker_result list \<Rightarrow> (string \<times> worker_result) list" where
  "results_by_worker results = fold (\<lambda>r. AList.update (wr_workerId r) r) results []"

definition progress_map_of :: "progress_input \<Rightarrow> progress_map" where
  "progress_map_of input =
     (let sources = (case pi_workers input of Some ws \<Rightarrow> ws
                     | None \<Rightarrow> (case pi_planWorkers input of Some ws \<Rightarrow> ws | None \<Rightarrow> []))
      in fold add_result (results_by_worker (pi_results input))
           (fold add_event (pi_events input) (fold add_source sources [])))"

definition normalizeRunPlanProgressSnapshot :: "string \<Rightarrow> progress_input \<Rightarrow> progress_snapshot" where
  "normalizeRunPlanProgressSnapshot clock input =
     (let workers = map snd (progress_map_of input);
          counts = count_progress workers
      in \<lparr>sn_time = (case pi_time input of Some t \<Rightarrow> t | None \<Rightarrow> clock), sn_status = progress_of_counts counts,
          sn_active = length (filter (\<lambda>w. pw_status w = P_running) workers), sn_counts = counts, sn_workers = workers,
          sn_sessionId = non_empty (string_value (coalesce (pi_sessionId input) (pi_planSession input))),
          sn_runId = non_empty (string_value (coalesce (pi_runId input) (pi_planId input))),
          sn_eventsRef = non_empty (string_value (pi_eventsRef input)),
          sn_resultRef = non_empty (string_value (pi_resultRef input)),
          sn_metadata = (if js_truthy (pi_metadata input) then Some (pi_metadata input) else None)\<rparr>)"

text \<open>The map is keyed by the identifiers of its workers.\<close>

definition progress_map_wf :: "progress_map \<Rightarrow> bool" where
  "progress_map_wf m \<longleftrightarrow> distinct (map fst m) \<and> (\<forall>(wid, w) \<in> set m. pw_id w = wid)"

lemma progress_map_wf_update:
  "progress_map_wf m \<Longrightarrow> pw_id w = wid \<Longrightarrow> progress_map_wf (AList.update wid w m)"
proof -
  have "set (AList.update wid w m) \<subseteq> insert (wid, w) (set m)" by (induction m) auto
  then show "progress_map_wf m \<Longrightarrow> pw_id w = wid \<Longrightarrow> progress_map_wf (AList.update wid w m)"
    unfolding progress_map_wf_def using distinct_update by fastforce
qed

lemma current_worker_id: "progress_map_wf m \<Longrightarrow> pw_id (current_worker m wid) = wid"
  by (auto simp: current_worker_def queued_worker_def progress_map_wf_def split: option.split dest!: map_of_SomeD)

lemma progress_steps_wf:
  "progress_map_wf m \<Longrightarrow> progress_map_wf (add_source worker m)"
  "progress_map_wf m \<Longrightarrow> progress_map_wf (add_event event m)"
  "progress_map_wf m \<Longrightarrow> progress_map_wf (add_result r m)"
  by (auto simp: add_source_def add_event_def add_result_def Let_def queued_worker_def current_worker_id
      split: prod.split intro!: progress_map_wf_update)

lemma fold_wf: "(\<And>x m. I m \<Longrightarrow> I (f x m)) \<Longrightarrow> I m \<Longrightarrow> I (fold f xs m)"
  by (induction xs arbitrary: m) auto

lemma progress_map_of_wf: "progress_map_wf (progress_map_of input)"
  unfolding progress_map_of_def Let_def
  by (intro fold_wf [where I = progress_map_wf] progress_steps_wf) (simp_all add: progress_map_wf_def)

lemma results_by_worker_distinct: "distinct (map fst (results_by_worker results))"
  unfolding results_by_worker_def
  by (rule fold_wf [where I = "\<lambda>m. distinct (map fst m)"]) (simp_all add: distinct_update)

lemma fold_add_result:
  "distinct (map fst rs) \<Longrightarrow> (wid, r) \<in> set rs \<Longrightarrow>
   \<exists>w. map_of (fold add_result rs m) wid = Some w \<and> pw_status w = progress_of_result r"
proof (induction rs arbitrary: m)
  case (Cons x rs)
  obtain v s where x: "x = (v, s)" by fastforce
  show ?case
  proof (cases "(wid, r) \<in> set rs")
    case True
    with Cons show ?thesis by simp
  next
    case False
    with Cons x have eq: "v = wid" "s = r" by auto
    have keep: "wid \<notin> fst ` set rs \<Longrightarrow> map_of (fold add_result rs m') wid = map_of m' wid" for m'
      by (induction rs arbitrary: m') (auto simp: add_result_def update_conv)
    from Cons(2) eq x have "wid \<notin> fst ` set rs" by auto
    with keep show ?thesis by (simp add: x eq add_result_def update_conv)
  qed
qed simp

lemma progress_of_counts_iff:
  "progress_of_counts c = P_succeeded \<longleftrightarrow>
     rn_total c \<le> rn_completed c + rn_failed c + rn_skipped c + rn_cancelled c + rn_timed_out c
     \<and> rn_timed_out c \<le> 0 \<and> rn_cancelled c \<le> 0 \<and> rn_failed c \<le> 0 \<and> rn_skipped c \<le> 0"
  by (auto simp: progress_of_counts_def)

lemma progress_of_counts_succeeded:
  "progress_of_counts (count_progress ws) = P_succeeded \<longleftrightarrow> (\<forall>w \<in> set ws. pw_status w = P_succeeded)"
proof -
  have "rn_completed (count_progress ws) + rn_failed (count_progress ws) + rn_skipped (count_progress ws)
      + rn_cancelled (count_progress ws) + rn_timed_out (count_progress ws)
      + count_where (\<lambda>w. pw_status w \<in> {P_queued, P_running}) ws = rn_total (count_progress ws)"
  proof (induction ws)
    case (Cons w ws)
    then show ?case by (cases "pw_status w") (simp_all add: count_progress_def count_where_def)
  qed (simp add: count_progress_def count_where_def)
  moreover have "0 \<le> count_where c ws" for c by (simp add: count_where_def)
  note this [of "\<lambda>w. pw_status w \<in> {P_queued, P_running}"] this [of "\<lambda>w. pw_status w = P_failed"]
    this [of "\<lambda>w. pw_status w = P_skipped"] this [of "\<lambda>w. pw_status w = P_cancelled"] this [of "\<lambda>w. pw_status w = P_timed_out"]
  ultimately have iff: "progress_of_counts (count_progress ws) = P_succeeded \<longleftrightarrow>
      count_where (\<lambda>w. pw_status w \<in> {P_queued, P_running}) ws = 0 \<and> count_where (\<lambda>w. pw_status w = P_failed) ws = 0
      \<and> count_where (\<lambda>w. pw_status w = P_skipped) ws = 0 \<and> count_where (\<lambda>w. pw_status w = P_cancelled) ws = 0
      \<and> count_where (\<lambda>w. pw_status w = P_timed_out) ws = 0"
    unfolding progress_of_counts_iff by (auto simp: count_progress_def)
  have zero: "count_where c ws = 0 \<longleftrightarrow> (\<forall>w \<in> set ws. \<not> c w)" for c
    by (simp add: count_where_def filter_empty_conv)
  have status: "pw_status w = P_succeeded \<longleftrightarrow> pw_status w \<notin> {P_queued, P_running} \<and> pw_status w \<noteq> P_failed
      \<and> pw_status w \<noteq> P_skipped \<and> pw_status w \<noteq> P_cancelled \<and> pw_status w \<noteq> P_timed_out" for w
    by (cases "pw_status w") auto
  show ?thesis unfolding iff zero by (auto simp: status)
qed

text \<open>A result that claims success and a skip at once is counted twice, and the failures turn negative.\<close>

lemma contradictory_result_counted_twice:
  "rn_failed (countRunPlanChildResults [\<lparr>wr_workerId = ''w'', wr_success = Some True, wr_status = Some ''skipped'',
     wr_output = JUndef, wr_error = None, wr_dependencies = [], wr_extra = []\<rparr>]) = - 1"
  by (simp add: countRunPlanChildResults_def count_where_def)

section \<open>Properties of plans\<close>

text \<open>
  C16: for the descriptors of a normalized plan, whose identifiers are distinct safe path segments and
  whose indices count from zero, the depth-first search accepts exactly the plans in which every
  dependency is a known other worker and the dependencies form no cycle.
\<close>

theorem plan_validation_exact:
  assumes "normalizeRunPlanWorkerDescriptors workers options = Inr ds"
  shows "(validateRunPlanDependencies ds = Inr () \<longleftrightarrow> known_dependencies ds \<and> acyclic (depends_on ds))
    \<and> distinct (map wd_id ds) \<and> map wd_index ds = [0..<length workers]
    \<and> (\<forall>d \<in> set ds. safe_segment (wd_id d) \<and> list_all safe_segment (split_on (CHR ''/'') (wd_namespace d)))"
proof -
  have "normalize_workers options [] 0 workers = Inr ds"
    using assms by (auto simp: normalizeRunPlanWorkerDescriptors_def split: if_splits)
  from normalize_workers_ids [OF this] validate_iff [of ds] show ?thesis by simp
qed

definition sample_options :: plan_options where
  "sample_options = \<lparr>po_defaultAgent = JUndef, po_defaultConcurrency = JUndef, po_maxConcurrency = JUndef,
     po_requireGoal = False, po_concurrencyMode = None\<rparr>"

definition sample_workers :: "js_object list" where
  "sample_workers = [[(''id'', JStr ''a'')], [(''id'', JStr ''b''), (''dependsOn'', JArr [JStr ''a''])]]"

lemma depends_on_Cons: "depends_on (w # ws) = Pair (wd_id w) ` set (wd_dependsOn w) \<union> depends_on ws"
  and depends_on_Nil [simp]: "depends_on [] = {}"
  by (auto simp: depends_on_def)

theorem plan_validation_exact_witness:
  "\<exists>ds. normalizeRunPlanWorkerDescriptors sample_workers sample_options = Inr ds \<and> distinct (map wd_id ds)
    \<and> validateRunPlanDependencies ds = Inr ()"
proof -
  have "case normalizeRunPlanWorkerDescriptors sample_workers sample_options of
      Inl _ \<Rightarrow> False | Inr ds \<Rightarrow> map wd_id ds = [''a'', ''b''] \<and> map wd_dependsOn ds = [[], [''a'']]"
    by code_simp
  then obtain ds where ds: "normalizeRunPlanWorkerDescriptors sample_workers sample_options = Inr ds"
      "map wd_id ds = [''a'', ''b'']" "map wd_dependsOn ds = [[], [''a'']]" by (auto split: sum.splits)
  then obtain u v where uv: "ds = [u, v]" "wd_id u = ''a''" "wd_id v = ''b''" "wd_dependsOn u = []" "wd_dependsOn v = [''a'']"
    by (auto simp: map_eq_Cons_conv)
  then have "depends_on ds = {(''b'', ''a'')}" by (simp add: depends_on_Cons)
  then have "acyclic (depends_on ds)" by (simp add: acyclic_def trancl_insert)
  moreover have "known_dependencies ds" using uv by (simp add: known_dependencies_def)
  ultimately show ?thesis using ds(1) plan_validation_exact [OF ds(1)] by blast
qed

text \<open>
  Where no result claims success together with a skipped, cancelled or timed-out status, the
  failed count is the number of the remaining results, and the run has succeeded exactly when every
  result has.
\<close>

lemma plan_counts:
  assumes "\<forall>r \<in> set results. coherent_result r"
  shows "rn_failed (countRunPlanChildResults results)
      = count_where (\<lambda>r. wr_success r \<noteq> Some True \<and> \<not> interrupted_status (wr_status r)) results
    \<and> (runPlanSucceeded (countRunPlanChildResults results) \<longleftrightarrow> (\<forall>r \<in> set results. wr_success r = Some True))"
  using failed_count [OF assms] succeeded_all [OF assms] by blast

definition sample_failed :: worker_result where
  "sample_failed = \<lparr>wr_workerId = ''w'', wr_success = Some False, wr_status = Some ''failed'', wr_output = JUndef,
     wr_error = None, wr_dependencies = [], wr_extra = []\<rparr>"

lemma plan_counts_sample:
  "rn_failed (countRunPlanChildResults [sample_failed]) = 1"
  using plan_counts [of "[sample_failed]"]
  by (simp add: coherent_result_def sample_failed_def interrupted_status_def count_where_def)

text \<open>
  A progress snapshot lists each worker once; a worker with a result shows the status of its
  last result whatever its events said; and the run shows success exactly when all its workers do.
\<close>

lemma progress_snapshot:
  shows "distinct (map pw_id (sn_workers (normalizeRunPlanProgressSnapshot clock input)))
    \<and> (\<forall>(wid, r) \<in> set (results_by_worker (pi_results input)).
        \<exists>w \<in> set (sn_workers (normalizeRunPlanProgressSnapshot clock input)).
          pw_id w = wid \<and> pw_status w = progress_of_result r)
    \<and> (sn_status (normalizeRunPlanProgressSnapshot clock input) = P_succeeded \<longleftrightarrow>
        (\<forall>w \<in> set (sn_workers (normalizeRunPlanProgressSnapshot clock input)). pw_status w = P_succeeded))"
proof (intro conjI)
  let ?m = "progress_map_of input"
  have wf: "progress_map_wf ?m" by (rule progress_map_of_wf)
  have workers: "sn_workers (normalizeRunPlanProgressSnapshot clock input) = map snd ?m"
    by (simp add: normalizeRunPlanProgressSnapshot_def Let_def)
  have ids: "map pw_id (map snd ?m) = map fst ?m" using wf by (auto simp: progress_map_wf_def)
  show "distinct (map pw_id (sn_workers (normalizeRunPlanProgressSnapshot clock input)))"
    unfolding workers ids using wf by (simp add: progress_map_wf_def)
  show "\<forall>(wid, r) \<in> set (results_by_worker (pi_results input)).
      \<exists>w \<in> set (sn_workers (normalizeRunPlanProgressSnapshot clock input)). pw_id w = wid \<and> pw_status w = progress_of_result r"
  proof (rule ballI, rule case_prodI2)
    fix x wid r assume "x \<in> set (results_by_worker (pi_results input))" and x: "x = (wid, r)"
    then obtain w where "map_of ?m wid = Some w" "pw_status w = progress_of_result r"
      using fold_add_result [OF results_by_worker_distinct] unfolding progress_map_of_def Let_def by blast
    moreover from this have m: "(wid, w) \<in> set ?m" by (simp only: map_of_SomeD)
    then have "w \<in> set (map snd ?m)" by force
    moreover from wf m have "pw_id w = wid" unfolding progress_map_wf_def by blast
    ultimately show "\<exists>w \<in> set (sn_workers (normalizeRunPlanProgressSnapshot clock input)).
        pw_id w = wid \<and> pw_status w = progress_of_result r" unfolding workers by blast
  qed
  show "sn_status (normalizeRunPlanProgressSnapshot clock input) = P_succeeded \<longleftrightarrow>
      (\<forall>w \<in> set (sn_workers (normalizeRunPlanProgressSnapshot clock input)). pw_status w = P_succeeded)"
    unfolding workers progress_of_counts_succeeded [symmetric]
    by (simp add: normalizeRunPlanProgressSnapshot_def Let_def)
qed

definition sample_progress :: progress_input where
  "sample_progress = \<lparr>pi_planWorkers = Some sample_workers, pi_planSession = JUndef, pi_planId = JUndef, pi_workers = None,
     pi_results = [sample_failed\<lparr>wr_workerId := ''a''\<rparr>], pi_events = [], pi_sessionId = JUndef, pi_runId = JUndef,
     pi_eventsRef = JUndef, pi_resultRef = JUndef, pi_time = None, pi_metadata = JUndef\<rparr>"

lemma progress_snapshot_sample:
  "\<exists>w \<in> set (sn_workers (normalizeRunPlanProgressSnapshot ''t'' sample_progress)). pw_id w = ''a'' \<and> pw_status w = P_failed"
proof -
  have "(''a'', sample_failed\<lparr>wr_workerId := ''a''\<rparr>) \<in> set (results_by_worker (pi_results sample_progress))"
    by (simp add: sample_progress_def results_by_worker_def)
  moreover have "progress_of_result (sample_failed\<lparr>wr_workerId := ''a''\<rparr>) = P_failed" by code_simp
  moreover note all = progress_snapshot [of "''t''" sample_progress, THEN conjunct2, THEN conjunct1]
  note bspec [OF all, of "(''a'', sample_failed\<lparr>wr_workerId := ''a''\<rparr>)"]
  ultimately show ?thesis by (simp only: prod.case simp_thms)
qed

end
