(* ===== verification/Run_Scheduler.thy ===== *)
theory Run_Scheduler
  imports Run_Plan
begin

text \<open>
  The scheduler of \<open>packages/runtime-core/src/run-plan.ts\<close>: \<open>runDependencyAwareConcurrent\<close> starts the
  workers of a plan as their dependencies succeed, at most so many at once, and \<open>executeRunPlan\<close> puts
  normalization, validation, the scheduler and the counting together.

  The promises in flight are part of the state; the environment fulfils them in any order, one step
  each, and \<open>pump\<close> runs to its end within a step, as it does between two turns of the event loop.
\<close>

section \<open>The state of a run\<close>

datatype task = Work | Skip "worker_result list"

datatype settlement = Unsettled | Resolved "worker_result option list" | Rejected string

record sched =
  sc_results :: "nat \<Rightarrow> worker_result option"
  sc_completed :: "string list"
  sc_running :: "(worker_descriptor \<times> task) list"
  sc_active :: nat
  sc_outcome :: settlement

definition sched_start :: sched where
  "sched_start = \<lparr>sc_results = (\<lambda>_. None), sc_completed = [], sc_running = [], sc_active = 0, sc_outcome = Unsettled\<rparr>"

definition running_ids :: "sched \<Rightarrow> string list" where
  "running_ids s = map (wd_id \<circ> fst) (sc_running s)"

text \<open>A promise keeps its first settlement.\<close>

definition finish :: "settlement \<Rightarrow> sched \<Rightarrow> sched" where
  "finish outcome s = (if sc_outcome s = Unsettled then s\<lparr>sc_outcome := outcome\<rparr> else s)"

definition begin_task :: "worker_descriptor \<Rightarrow> task \<Rightarrow> sched \<Rightarrow> sched" where
  "begin_task item t s = s\<lparr>sc_running := sc_running s @ [(item, t)], sc_active := sc_active s + 1\<rparr>"

definition dependency_results ::
    "worker_descriptor list \<Rightarrow> (nat \<Rightarrow> worker_result option) \<Rightarrow> worker_descriptor \<Rightarrow> worker_result option list" where
  "dependency_results items results item =
     map (\<lambda>d. case find_worker items d of None \<Rightarrow> None | Some w \<Rightarrow> results (wd_index w)) (wd_dependsOn item)"

text \<open>What may be started for an item, once all its dependencies have results.\<close>

definition ready_task ::
    "worker_descriptor list \<Rightarrow> (nat \<Rightarrow> worker_result option) \<Rightarrow> worker_descriptor \<Rightarrow> task option" where
  "ready_task items results item =
     (let ds = dependency_results items results item in
      if None \<in> set ds then None
      else if \<exists>r \<in> set ds. wr_success (the r) \<noteq> Some True then Some (Skip (map the ds))
      else Some Work)"

fun pump_loop :: "jsnum \<Rightarrow> worker_descriptor list \<Rightarrow> worker_descriptor list \<Rightarrow> sched \<Rightarrow> bool \<Rightarrow> string option \<times> sched \<times> bool" where
  "pump_loop limit items [] s progressed = (None, s, progressed)"
| "pump_loop limit items (item # rest) s progressed =
     (if wd_id item \<in> set (sc_completed s) \<or> wd_id item \<in> set (running_ids s) then pump_loop limit items rest s progressed
      else if \<exists>d \<in> set (wd_dependsOn item). find_worker items d = None
      then (Some ''Cannot read properties of undefined'', s, progressed)
      else
        (case ready_task items (sc_results s) item of
           None \<Rightarrow> pump_loop limit items rest s progressed
         | Some Work \<Rightarrow>
             if \<not> js_less (NInt (int (sc_active s))) limit then pump_loop limit items rest s progressed
             else pump_loop limit items rest (begin_task item Work s) True
         | Some (Skip ds) \<Rightarrow> pump_loop limit items rest (begin_task item (Skip ds) s) True))"

definition pump :: "jsnum \<Rightarrow> worker_descriptor list \<Rightarrow> sched \<Rightarrow> sched" where
  "pump limit items s =
     (case pump_loop limit items items s False of
        (Some e, s', _) \<Rightarrow> finish (Rejected e) s'
      | (None, s', progressed) \<Rightarrow>
          if length (sc_completed s') = length items \<and> sc_active s' = 0
          then finish (Resolved (map (sc_results s') [0..<length items])) s'
          else if \<not> progressed \<and> sc_active s' = 0
          then finish (Rejected ''Run plan dependencies could not be scheduled.'') s'
          else s')"

text \<open>The continuation of a promise that is fulfilled.\<close>

definition settle :: "jsnum \<Rightarrow> worker_descriptor list \<Rightarrow> worker_descriptor \<times> task \<Rightarrow> worker_result \<Rightarrow> sched \<Rightarrow> sched" where
  "settle limit items p r s =
     pump limit items
       (s\<lparr>sc_results := (sc_results s)(wd_index (fst p) := Some r), sc_running := remove1 p (sc_running s),
          sc_completed := wd_id (fst p) # sc_completed s, sc_active := sc_active s - 1\<rparr>)"

text \<open>\<open>run\<close> is what the promise of a task settles with.\<close>

inductive sched_reach ::
    "jsnum \<Rightarrow> worker_descriptor list \<Rightarrow> (worker_descriptor \<Rightarrow> task \<Rightarrow> string + worker_result) \<Rightarrow> nat \<Rightarrow> sched \<Rightarrow> bool"
  for limit items run where
  begin_run: "sched_reach limit items run 0 (pump limit items sched_start)"
| fulfil: "sched_reach limit items run n s \<Longrightarrow> p \<in> set (sc_running s) \<Longrightarrow> run (fst p) (snd p) = Inr r \<Longrightarrow>
    sched_reach limit items run (Suc n) (settle limit items p r s)"
| reject: "sched_reach limit items run n s \<Longrightarrow> p \<in> set (sc_running s) \<Longrightarrow> run (fst p) (snd p) = Inl e \<Longrightarrow>
    sched_reach limit items run n (finish (Rejected e) s)"

section \<open>Executing a plan\<close>

definition cancelled_result :: "worker_descriptor \<Rightarrow> worker_result" where
  "cancelled_result d = \<lparr>wr_workerId = wd_id d, wr_success = Some False, wr_status = Some ''cancelled'', wr_output = JUndef,
     wr_error = Some (''worker-cancelled'', case cm_reason (wd_cancellation d) of
        Some reason \<Rightarrow> reason | None \<Rightarrow> ''Run plan worker '' @ wd_id d @ '' was cancelled before execution.''),
     wr_dependencies = [], wr_extra = []\<rparr>"

definition timed_out_result :: "worker_descriptor \<Rightarrow> string \<Rightarrow> worker_result" where
  "timed_out_result d reason = \<lparr>wr_workerId = wd_id d, wr_success = Some False, wr_status = Some ''timed_out'',
     wr_output = JUndef, wr_error = Some (''worker-timed-out'', ''Run plan worker '' @ wd_id d @ '' exceeded its '' @ reason @ ''.''),
     wr_dependencies = [], wr_extra = []\<rparr>"

definition skipped_result :: "worker_descriptor \<Rightarrow> worker_result list \<Rightarrow> worker_result" where
  "skipped_result d ds = \<lparr>wr_workerId = wd_id d, wr_success = Some False, wr_status = Some ''skipped'', wr_output = JUndef,
     wr_error = Some (''dependency-skipped'', ''Run plan worker '' @ wd_id d
       @ '' skipped because a dependency did not complete successfully.''),
     wr_dependencies = map (\<lambda>r. (wr_workerId r, wr_status r, wr_success r)) ds, wr_extra = []\<rparr>"

datatype hook = On_started | On_completed | On_failed | On_skipped

text \<open>
  The options: the adapter, whether the timer of a worker fires before the adapter answers,
  \<open>Date.parse\<close> and the time each worker is looked at, the error each hook throws, and the optional
  constructors of results.
\<close>

record executor_options =
  xo_adapter :: "worker_descriptor \<Rightarrow> string + worker_result"
  xo_late :: "worker_descriptor \<Rightarrow> bool"
  xo_parse :: "string \<Rightarrow> jsnum"
  xo_clock :: "worker_descriptor \<Rightarrow> string"
  xo_hook :: "hook \<Rightarrow> worker_descriptor \<Rightarrow> string option"
  xo_cancelled :: "worker_descriptor \<Rightarrow> worker_result option"
  xo_timed_out :: "worker_descriptor \<Rightarrow> string \<Rightarrow> worker_result option"
  xo_skipped :: "worker_descriptor \<Rightarrow> worker_result list \<Rightarrow> worker_result option"

definition execution_timeout :: "executor_options \<Rightarrow> worker_descriptor \<Rightarrow> jsnum option" where
  "execution_timeout opts d = runPlanWorkerExecutionTimeoutMs (xo_parse opts) (xo_clock opts d) d"

definition with_hook :: "executor_options \<Rightarrow> hook \<Rightarrow> worker_descriptor \<Rightarrow> 'a \<Rightarrow> string + 'a" where
  "with_hook opts h d x = (case xo_hook opts h d of None \<Rightarrow> Inr x | Some e \<Rightarrow> Inl e)"

definition or_default :: "'a option \<Rightarrow> 'a \<Rightarrow> 'a" where
  "or_default x y = (case x of None \<Rightarrow> y | Some v \<Rightarrow> v)"

definition runPlanWorkerWithTimeout :: "executor_options \<Rightarrow> worker_descriptor \<Rightarrow> string + worker_result" where
  "runPlanWorkerWithTimeout opts d =
     (case execution_timeout opts d of
        Some (Fin _) \<Rightarrow> if xo_late opts d then Inr (or_default (xo_timed_out opts d ''timeout'') (timed_out_result d ''timeout''))
                     else xo_adapter opts d
      | _ \<Rightarrow> xo_adapter opts d)"

fun execute_task :: "executor_options \<Rightarrow> worker_descriptor \<Rightarrow> task \<Rightarrow> string + worker_result" where
  "execute_task opts d (Skip ds) =
     (let r = or_default (xo_skipped opts d ds) (skipped_result d ds) in with_hook opts On_skipped d r)"
| "execute_task opts d Work =
     (if cm_cancelRequested (wd_cancellation d)
      then with_hook opts On_failed d (or_default (xo_cancelled opts d) (cancelled_result d))
      else if execution_timeout opts d = Some (Fin 0)
      then with_hook opts On_failed d (or_default (xo_timed_out opts d ''deadline'') (timed_out_result d ''deadline''))
      else
        (case with_hook opts On_started d () of
           Inl e \<Rightarrow> Inl e
         | Inr _ \<Rightarrow>
             (case runPlanWorkerWithTimeout opts d of
                Inl e \<Rightarrow> Inl e
              | Inr r \<Rightarrow> with_hook opts (if wr_success r = Some True then On_completed else On_failed) d r)))"

definition effective_concurrency :: "jsnum \<Rightarrow> 'a list \<Rightarrow> jsnum" where
  "effective_concurrency concurrency items =
     (case normalizeRunPlanConcurrency (JNum concurrency) JUndef (JInt (max 1 (int (length items)))) None of
        Inl _ \<Rightarrow> Fin 1 | Inr n \<Rightarrow> n)"

text \<open>What \<open>executeRunPlan\<close> computes before it starts the scheduler.\<close>

definition plan_run :: "js_object list \<Rightarrow> jsval \<Rightarrow> plan_options \<Rightarrow> string + worker_descriptor list \<times> jsnum" where
  "plan_run workers concurrency options =
     (case normalizeRunPlanWorkerDescriptors workers options of
        Inl e \<Rightarrow> Inl e
      | Inr ds \<Rightarrow>
          (case validateRunPlanDependencies ds of
             Inl e \<Rightarrow> Inl e
           | Inr _ \<Rightarrow>
               (case normalizeRunPlanConcurrency concurrency (po_defaultConcurrency options)
                       (po_maxConcurrency options) (po_concurrencyMode options) of
                  Inl e \<Rightarrow> Inl e
                | Inr n \<Rightarrow> Inr (ds, n))))"

record plan_report =
  pr_success :: bool
  pr_concurrency :: jsnum
  pr_counts :: result_counts
  pr_workers :: "worker_result list"

text \<open>The answer of \<open>executeRunPlan\<close>, once the scheduler has settled.\<close>

definition plan_report_of :: "jsnum \<Rightarrow> settlement \<Rightarrow> (string + plan_report) option" where
  "plan_report_of concurrency outcome =
     (case outcome of
        Unsettled \<Rightarrow> None
      | Rejected e \<Rightarrow> Some (Inl e)
      | Resolved rs \<Rightarrow>
          let results = map the rs; counts = countRunPlanChildResults results
          in Some (Inr \<lparr>pr_success = runPlanSucceeded counts, pr_concurrency = concurrency, pr_counts = counts,
                        pr_workers = results\<rparr>))"

definition execute_reach :: "js_object list \<Rightarrow> jsval \<Rightarrow> plan_options \<Rightarrow> executor_options \<Rightarrow> nat \<Rightarrow> sched \<Rightarrow> bool" where
  "execute_reach workers concurrency options opts n s =
     (case plan_run workers concurrency options of
        Inl _ \<Rightarrow> False
      | Inr (ds, c) \<Rightarrow> sched_reach (effective_concurrency c ds) ds (execute_task opts) n s)"

section \<open>The invariant of a run\<close>

definition schedulable :: "int \<Rightarrow> worker_descriptor list \<Rightarrow> bool" where
  "schedulable k items \<longleftrightarrow> 1 \<le> k \<and> distinct (map wd_id items) \<and> map wd_index items = [0..<length items]
     \<and> known_dependencies items \<and> acyclic (depends_on items)"

definition working :: "sched \<Rightarrow> nat" where
  "working s = length (filter (\<lambda>p. snd p = Work) (sc_running s))"

definition sched_ok ::
    "int \<Rightarrow> worker_descriptor list \<Rightarrow> (worker_descriptor \<Rightarrow> task \<Rightarrow> string + worker_result) \<Rightarrow> sched \<Rightarrow> bool" where
  "sched_ok k items run s \<longleftrightarrow>
     distinct (sc_completed s @ running_ids s)
     \<and> set (sc_completed s) \<subseteq> wd_id ` set items \<and> fst ` set (sc_running s) \<subseteq> set items
     \<and> sc_active s = length (sc_running s)
     \<and> (\<forall>w \<in> set items. (sc_results s (wd_index w) \<noteq> None) = (wd_id w \<in> set (sc_completed s)))
     \<and> (\<forall>p \<in> set (sc_running s). ready_task items (sc_results s) (fst p) = Some (snd p))
     \<and> (\<forall>w \<in> set items. \<forall>r. sc_results s (wd_index w) = Some r \<longrightarrow>
          (\<exists>t. ready_task items (sc_results s) w = Some t \<and> run w t = Inr r))
     \<and> int (working s) \<le> k"

lemma schedulable_index:
  assumes "schedulable k items" and "v \<in> set items" and "w \<in> set items" and "wd_index v = wd_index w"
  shows "v = w"
proof -
  have "distinct (map wd_index items)" using assms(1) by (simp add: schedulable_def)
  with assms show ?thesis by (auto simp: distinct_map inj_on_def)
qed

lemma schedulable_find:
  assumes "schedulable k items" and "w \<in> set items" and "d \<in> set (wd_dependsOn w)"
  obtains v where "v \<in> set items" and "wd_id v = d" and "find_worker items d = Some v"
proof -
  have "d \<in> wd_id ` set items" using assms by (auto simp: schedulable_def known_dependencies_def)
  then obtain v where "v \<in> set items" "wd_id v = d" by auto
  moreover from this assms(1) have "find_worker items d = Some v" using find_worker_Some [of items v] by (simp add: schedulable_def)
  ultimately show thesis using that by blast
qed

text \<open>Further results change nothing for a task that is ready.\<close>

lemma ready_task_mono:
  assumes "ready_task items results item = Some t" and "\<And>i r. results i = Some r \<Longrightarrow> results' i = Some r"
  shows "ready_task items results' item = Some t"
proof -
  have "None \<notin> set (dependency_results items results item)"
    using assms(1) by (auto simp: ready_task_def Let_def split: if_splits)
  then have "dependency_results items results' item = dependency_results items results item"
    unfolding dependency_results_def
  proof (intro map_cong [OF refl])
    fix d assume "d \<in> set (wd_dependsOn item)" and no: "None \<notin> set (map (\<lambda>d. case find_worker items d of
        None \<Rightarrow> None | Some w \<Rightarrow> results (wd_index w)) (wd_dependsOn item))"
    then have "(case find_worker items d of None \<Rightarrow> None | Some w \<Rightarrow> results (wd_index w)) \<noteq> None"
      by (metis (no_types, lifting) image_eqI set_map)
    then show "(case find_worker items d of None \<Rightarrow> None | Some w \<Rightarrow> results' (wd_index w))
        = (case find_worker items d of None \<Rightarrow> None | Some w \<Rightarrow> results (wd_index w))"
      using assms(2) by (auto split: option.splits)
  qed
  with assms(1) show ?thesis by (simp add: ready_task_def)
qed

lemma begin_task_ok:
  assumes ok: "sched_ok k items run s" and item: "item \<in> set items"
    and new: "wd_id item \<notin> set (sc_completed s)" "wd_id item \<notin> set (running_ids s)"
    and ready: "ready_task items (sc_results s) item = Some t" and room: "t = Work \<Longrightarrow> int (sc_active s) < k"
  shows "sched_ok k items run (begin_task item t s)"
proof -
  have "working (begin_task item t s) = (if t = Work then working s + 1 else working s)"
    by (simp add: working_def begin_task_def)
  moreover have "working s \<le> sc_active s" "int (working s) \<le> k" using ok by (simp_all add: sched_ok_def working_def)
  ultimately have "int (working (begin_task item t s)) \<le> k" using room by auto
  moreover have "running_ids (begin_task item t s) = running_ids s @ [wd_id item]"
    by (simp add: running_ids_def begin_task_def)
  ultimately show ?thesis using assms unfolding sched_ok_def by (auto simp: begin_task_def)
qed

definition pumped :: "int \<Rightarrow> worker_descriptor list \<Rightarrow> worker_descriptor list \<Rightarrow> sched \<Rightarrow> sched \<Rightarrow> bool" where
  "pumped k items rest s s' \<longleftrightarrow> sc_results s' = sc_results s \<and> sc_completed s' = sc_completed s
     \<and> sc_outcome s' = sc_outcome s \<and> set (sc_running s) \<subseteq> set (sc_running s') \<and> sc_active s \<le> sc_active s'
     \<and> (\<forall>item \<in> set rest. ready_task items (sc_results s) item \<noteq> None \<longrightarrow>
          wd_id item \<in> set (sc_completed s) \<or> wd_id item \<in> set (running_ids s') \<or> k \<le> int (sc_active s'))"

lemma running_ids_subset: "set (sc_running s) \<subseteq> set (sc_running s') \<Longrightarrow> set (running_ids s) \<subseteq> set (running_ids s')"
  by (auto simp: running_ids_def)

lemma pumped_skip:
  assumes p: "pumped k items rest s s'" and skip: "ready_task items (sc_results s) item \<noteq> None \<Longrightarrow>
     wd_id item \<in> set (sc_completed s) \<or> wd_id item \<in> set (running_ids s) \<or> k \<le> int (sc_active s)"
  shows "pumped k items (item # rest) s s'"
proof -
  have "set (running_ids s) \<subseteq> set (running_ids s')" "sc_active s \<le> sc_active s'"
    using p running_ids_subset by (auto simp: pumped_def)
  then have "wd_id item \<in> set (sc_completed s) \<or> wd_id item \<in> set (running_ids s') \<or> k \<le> int (sc_active s')"
    if "ready_task items (sc_results s) item \<noteq> None"
    using skip [OF that] by auto
  with p show ?thesis by (simp add: pumped_def)
qed

lemma pumped_begin:
  assumes p: "pumped k items rest (begin_task item t s) s'"
  shows "pumped k items (item # rest) s s'"
proof -
  have begun: "sc_results (begin_task item t s) = sc_results s" "sc_completed (begin_task item t s) = sc_completed s"
    "sc_outcome (begin_task item t s) = sc_outcome s" "sc_active (begin_task item t s) = sc_active s + 1"
    "set (sc_running (begin_task item t s)) = insert (item, t) (set (sc_running s))"
    by (simp_all add: begin_task_def)
  from p have "wd_id item \<in> set (running_ids s')" unfolding pumped_def begun running_ids_def by force
  with p show ?thesis unfolding pumped_def begun by auto
qed

lemma pump_loop_done:
  assumes "wd_id item \<in> set (sc_completed s) \<or> wd_id item \<in> set (running_ids s)"
  shows "pump_loop limit items (item # rest) s progressed = pump_loop limit items rest s progressed"
  unfolding pump_loop.simps(2) by (rule if_P [OF assms])

lemma pump_loop_new:
  assumes "\<not> (wd_id item \<in> set (sc_completed s) \<or> wd_id item \<in> set (running_ids s))"
    and "\<not> (\<exists>d \<in> set (wd_dependsOn item). find_worker items d = None)"
  shows "pump_loop limit items (item # rest) s progressed =
    (case ready_task items (sc_results s) item of
       None \<Rightarrow> pump_loop limit items rest s progressed
     | Some Work \<Rightarrow>
         if \<not> js_less (NInt (int (sc_active s))) limit then pump_loop limit items rest s progressed
         else pump_loop limit items rest (begin_task item Work s) True
     | Some (Skip ds) \<Rightarrow> pump_loop limit items rest (begin_task item (Skip ds) s) True)"
  unfolding pump_loop.simps(2) by (rule trans [OF if_not_P [OF assms(1)] if_not_P [OF assms(2)]])

lemma pump_loop_ok:
  assumes plan: "schedulable k items" and limit: "limit = NInt k"
    and "pump_loop limit items rest s progressed = (e, s', progressed')" and "set rest \<subseteq> set items"
    and "sched_ok k items run s"
  shows "e = None \<and> sched_ok k items run s' \<and> pumped k items rest s s'"
  using assms(3-5)
proof (induction rest arbitrary: s progressed)
  case Nil
  then show ?case by (simp add: pumped_def)
next
  case (Cons item rest)
  have item: "item \<in> set items" and rest: "set rest \<subseteq> set items" using Cons.prems(2) by auto
  show ?case
  proof (cases "wd_id item \<in> set (sc_completed s) \<or> wd_id item \<in> set (running_ids s)")
    case True
    with Cons.prems(1) have "pump_loop limit items rest s progressed = (e, s', progressed')" by (simp only: pump_loop_done)
    from Cons.IH [OF this rest Cons.prems(3)] True show ?thesis by (blast intro: pumped_skip)
  next
    case new: False
    have known: "\<not> (\<exists>d \<in> set (wd_dependsOn item). find_worker items d = None)"
      using schedulable_find [OF plan item] by (metis option.distinct(1))
    show ?thesis
    proof (cases "ready_task items (sc_results s) item")
      case None
      with Cons.prems(1) have "pump_loop limit items rest s progressed = (e, s', progressed')"
        by (simp add: pump_loop_new [OF new known] del: pump_loop.simps)
      from Cons.IH [OF this rest Cons.prems(3)] None show ?thesis by (blast intro: pumped_skip)
    next
      case (Some t)
      show ?thesis
      proof (cases "t = Work \<and> \<not> int (sc_active s) < k")
        case True
        with Some Cons.prems(1) limit have "pump_loop limit items rest s progressed = (e, s', progressed')"
          by (simp add: pump_loop_new [OF new known] del: pump_loop.simps)
        from Cons.IH [OF this rest Cons.prems(3)] True show ?thesis by (metis (no_types, lifting) not_less pumped_skip)
      next
        case False
        with Some Cons.prems(1) limit have run': "pump_loop limit items rest (begin_task item t s) True = (e, s', progressed')"
          by (cases t) (simp_all add: pump_loop_new [OF new known] del: pump_loop.simps)
        have "sched_ok k items run (begin_task item t s)"
          by (rule begin_task_ok [OF Cons.prems(3) item _ _ Some]) (use new False in auto)
        from Cons.IH [OF run' rest this] show ?thesis by (blast intro: pumped_begin)
      qed
    qed
  qed
qed

text \<open>When nothing runs after a pump, everything is completed.\<close>

lemma idle_completes:
  assumes plan: "schedulable k items" and ok: "sched_ok k items run s'" and pumped: "pumped k items items s s'"
    and idle: "sc_running s' = []"
  shows "set (sc_completed s') = wd_id ` set items"
proof (rule ccontr)
  assume "set (sc_completed s') \<noteq> wd_id ` set items"
  with ok obtain w where w: "w \<in> set items" "wd_id w \<notin> set (sc_completed s')" by (auto simp: sched_ok_def)
  have "depends_on items \<subseteq> wd_id ` set items \<times> wd_id ` set items"
    using plan by (auto simp: depends_on_def schedulable_def known_dependencies_def)
  then have "finite (depends_on items)" by (rule finite_subset) simp
  with plan have wf: "wf ((depends_on items)\<inverse>)" by (simp add: schedulable_def finite_acyclic_wf_converse)
  let ?open = "{wd_id w | w. w \<in> set items \<and> wd_id w \<notin> set (sc_completed s')}"
  from w have "wd_id w \<in> ?open" by blast
  from wfE_min [OF wf this] obtain m where "m \<in> ?open" and least: "\<And>y. (y, m) \<in> (depends_on items)\<inverse> \<Longrightarrow> y \<notin> ?open" by blast
  then obtain v where v: "v \<in> set items" "wd_id v \<notin> set (sc_completed s')" "m = wd_id v" by blast
  have "None \<notin> set (dependency_results items (sc_results s') v)"
  proof
    assume "None \<in> set (dependency_results items (sc_results s') v)"
    then obtain d where d: "d \<in> set (wd_dependsOn v)"
        and none: "(case find_worker items d of None \<Rightarrow> None | Some w \<Rightarrow> sc_results s' (wd_index w)) = None"
      by (auto simp: dependency_results_def)
    obtain u where u: "u \<in> set items" "wd_id u = d" "find_worker items d = Some u" using schedulable_find [OF plan v(1) d] .
    from d v have "(d, m) \<in> (depends_on items)\<inverse>" by (auto simp: depends_on_def)
    with least u have "wd_id u \<in> set (sc_completed s')" by blast
    with ok u(1) have "sc_results s' (wd_index u) \<noteq> None" by (auto simp: sched_ok_def)
    with none u(3) show False by simp
  qed
  then have "ready_task items (sc_results s') v \<noteq> None" by (simp add: ready_task_def Let_def)
  with pumped v have "k \<le> int (sc_active s')" using idle by (auto simp: pumped_def running_ids_def)
  with ok idle plan show False by (simp add: sched_ok_def schedulable_def)
qed

definition settled_outcome :: "worker_descriptor list \<Rightarrow> sched \<Rightarrow> settlement" where
  "settled_outcome items s = (if sc_running s = [] then Resolved (map (sc_results s) [0..<length items]) else Unsettled)"

lemma finish_simps [simp]:
  "sc_results (finish v s) = sc_results s" "sc_completed (finish v s) = sc_completed s"
  "sc_running (finish v s) = sc_running s" "sc_active (finish v s) = sc_active s"
  by (simp_all add: finish_def)

lemma sched_ok_cong:
  "sc_results s' = sc_results s \<Longrightarrow> sc_completed s' = sc_completed s \<Longrightarrow> sc_running s' = sc_running s \<Longrightarrow>
   sc_active s' = sc_active s \<Longrightarrow> sched_ok k items run s' = sched_ok k items run s"
  by (simp add: sched_ok_def running_ids_def working_def)

lemma pump_ok:
  assumes plan: "schedulable k items" and ok: "sched_ok k items run s"
  shows "sched_ok k items run (pump (NInt k) items s) \<and> sc_completed (pump (NInt k) items s) = sc_completed s
    \<and> (sc_running (pump (NInt k) items s) = [] \<longrightarrow> length (sc_completed s) = length items)
    \<and> (sc_outcome s = Unsettled \<longrightarrow> sc_outcome (pump (NInt k) items s) = settled_outcome items (pump (NInt k) items s))"
proof -
  obtain e s' progressed where loop: "pump_loop (NInt k) items items s False = (e, s', progressed)" by (metis prod_cases3)
  note looped = pump_loop_ok [OF plan refl loop subset_refl ok]
  from looped have e: "e = None" and ok': "sched_ok k items run s'" and p: "pumped k items items s s'" by blast+
  have complete: "length (sc_completed s') = length items" if "sc_running s' = []"
  proof -
    have "distinct (sc_completed s')" using ok' by (simp add: sched_ok_def)
    moreover have "set (sc_completed s') = wd_id ` set items" by (rule idle_completes [OF plan ok' p that])
    moreover have "distinct (map wd_id items)" using plan by (simp add: schedulable_def)
    ultimately show ?thesis by (metis distinct_card length_map set_map)
  qed
  have active: "sc_active s' = 0 \<longleftrightarrow> sc_running s' = []" using ok' by (simp add: sched_ok_def)
  have "pump (NInt k) items s = (if sc_running s' = [] then finish (Resolved (map (sc_results s') [0..<length items])) s' else s')"
    unfolding pump_def loop e by (simp add: active complete)
  then show ?thesis
    using ok' p complete sched_ok_cong [of "finish (Resolved (map (sc_results s') [0..<length items])) s'" s' k items run]
    by (simp add: pumped_def settled_outcome_def finish_def)
qed

lemma sched_start_ok: "schedulable k items \<Longrightarrow> sched_ok k items run sched_start"
  by (simp add: sched_ok_def sched_start_def running_ids_def working_def schedulable_def)

lemma sched_ok_task:
  "sched_ok k items run s \<Longrightarrow> w \<in> set items \<Longrightarrow> sc_results s (wd_index w) = Some r \<Longrightarrow>
   \<exists>t. ready_task items (sc_results s) w = Some t \<and> run w t = Inr r"
  unfolding sched_ok_def by blast

lemma settle_ok:
  assumes plan: "schedulable k items" and ok: "sched_ok k items run s" and p: "p \<in> set (sc_running s)"
    and r: "run (fst p) (snd p) = Inr r"
  shows "sched_ok k items run (s\<lparr>sc_results := (sc_results s)(wd_index (fst p) := Some r),
    sc_running := remove1 p (sc_running s), sc_completed := wd_id (fst p) # sc_completed s, sc_active := sc_active s - 1\<rparr>)"
    (is "sched_ok k items run ?s")
proof -
  let ?res = "(sc_results s)(wd_index (fst p) := Some r)"
  have item: "fst p \<in> set items" using ok p by (auto simp: sched_ok_def)
  have run_ids: "distinct (running_ids s)" using ok by (simp add: sched_ok_def)
  have new: "wd_id (fst p) \<notin> set (sc_completed s)" using ok p by (auto simp: sched_ok_def running_ids_def)
  then have "sc_results s (wd_index (fst p)) = None" using ok item by (auto simp: sched_ok_def)
  then have more: "?res i = Some q" if "sc_results s i = Some q" for i q using that by auto
  have grow: "ready_task items ?res w = Some t" if "ready_task items (sc_results s) w = Some t" for w t
    by (rule ready_task_mono [OF that]) (rule more)
  have "distinct (sc_running s)" using run_ids by (auto simp: running_ids_def distinct_map)
  then have rest: "set (remove1 p (sc_running s)) = set (sc_running s) - {p}" by (rule set_remove1_eq)
  have ids: "set (running_ids ?s) = set (running_ids s) - {wd_id (fst p)}"
    unfolding running_ids_def using rest run_ids p by (auto simp: running_ids_def distinct_map inj_on_def)
  have "distinct (map (wd_id \<circ> fst) (remove1 p (sc_running s)))"
    using run_ids unfolding running_ids_def distinct_map rest by (auto simp: inj_on_def)
  then have "distinct (sc_completed ?s @ running_ids ?s)"
    using ok new ids by (auto simp: sched_ok_def running_ids_def)
  moreover have "length (remove1 p (sc_running s)) = length (sc_running s) - 1" using p by (simp add: length_remove1)
  moreover have "(?res (wd_index w) \<noteq> None) = (wd_id w \<in> set (wd_id (fst p) # sc_completed s))" if w: "w \<in> set items" for w
  proof (cases "w = fst p")
    case False
    then have "wd_index w \<noteq> wd_index (fst p)" using schedulable_index [OF plan w item] by auto
    moreover have "wd_id w \<noteq> wd_id (fst p)" using plan w item False by (auto simp: schedulable_def distinct_map inj_on_def)
    ultimately show ?thesis using ok w by (auto simp: sched_ok_def)
  qed simp
  moreover have "ready_task items ?res (fst q) = Some (snd q)" if "q \<in> set (sc_running s)" for q
    using ok that grow by (simp add: sched_ok_def del: fun_upd_apply)
  moreover have "\<exists>t. ready_task items ?res w = Some t \<and> run w t = Inr q" if w: "w \<in> set items" and q: "?res (wd_index w) = Some q" for w q
  proof (cases "w = fst p")
    case True
    with q have "q = r" by simp
    moreover have "ready_task items ?res w = Some (snd p)"
      using ok p grow True by (simp add: sched_ok_def del: fun_upd_apply)
    ultimately show ?thesis using r True by blast
  next
    case False
    then have "wd_index w \<noteq> wd_index (fst p)" using schedulable_index [OF plan w item] by auto
    with q have "sc_results s (wd_index w) = Some q" by simp
    from sched_ok_task [OF ok w this] show ?thesis using grow by blast
  qed
  moreover have "working ?s \<le> working s" unfolding working_def
    by (simp add: filter_remove1 length_remove1)
  moreover have "fst ` set (remove1 p (sc_running s)) \<subseteq> set items" using ok rest by (auto simp: sched_ok_def)
  ultimately show ?thesis using ok item rest unfolding sched_ok_def by auto
qed

lemma sched_reach_ok:
  assumes plan: "schedulable k items" and "sched_reach (NInt k) items run n s"
  shows "sched_ok k items run s \<and> n = length (sc_completed s)
    \<and> (sc_running s = [] \<longrightarrow> length (sc_completed s) = length items)
    \<and> ((\<forall>d t. \<exists>r. run d t = Inr r) \<longrightarrow> sc_outcome s = settled_outcome items s)"
  using assms(2)
proof (induction rule: sched_reach.induct)
  case begin_run
  from pump_ok [OF plan sched_start_ok [OF plan]] show ?case by (simp add: sched_start_def)
next
  case (fulfil n s p r)
  let ?s = "s\<lparr>sc_results := (sc_results s)(wd_index (fst p) := Some r), sc_running := remove1 p (sc_running s),
    sc_completed := wd_id (fst p) # sc_completed s, sc_active := sc_active s - 1\<rparr>"
  have ok: "sched_ok k items run ?s" by (rule settle_ok [OF plan conjunct1 [OF fulfil(4)] fulfil(2,3)])
  have "sc_outcome ?s = Unsettled" if "\<forall>d t. \<exists>r. run d t = Inr r"
    using fulfil(2,4) that by (auto simp: settled_outcome_def)
  with pump_ok [OF plan ok] fulfil(4) show ?case by (auto simp: settle_def)
next
  case (reject n s p e)
  have "sched_ok k items run (finish (Rejected e) s) = sched_ok k items run s" by (rule sched_ok_cong) simp_all
  moreover have "\<not> (\<forall>d t. \<exists>r. run d t = Inr r)" using reject(3) by (metis sum.distinct(1))
  ultimately show ?case using reject(4) by (simp only: finish_simps) blast
qed

section \<open>What a finished run has computed\<close>

lemma ready_task_cong:
  assumes plan: "schedulable k items" and w: "w \<in> set items"
    and same: "\<And>v. v \<in> set items \<Longrightarrow> wd_id v \<in> set (wd_dependsOn w) \<Longrightarrow> f (wd_index v) = g (wd_index v)"
  shows "ready_task items f w = ready_task items g w"
proof -
  have "dependency_results items f w = dependency_results items g w"
    unfolding dependency_results_def
  proof (rule map_cong [OF refl])
    fix d assume d: "d \<in> set (wd_dependsOn w)"
    then obtain v where "v \<in> set items" "wd_id v = d" "find_worker items d = Some v" using schedulable_find [OF plan w] by blast
    with same [of v] d show "(case find_worker items d of None \<Rightarrow> None | Some w \<Rightarrow> f (wd_index w))
        = (case find_worker items d of None \<Rightarrow> None | Some w \<Rightarrow> g (wd_index w))" by simp
  qed
  then show ?thesis by (simp add: ready_task_def)
qed

definition explains :: "worker_descriptor list \<Rightarrow> (worker_descriptor \<Rightarrow> task \<Rightarrow> string + worker_result) \<Rightarrow> (nat \<Rightarrow> worker_result option) \<Rightarrow> bool" where
  "explains items run f \<longleftrightarrow> (\<forall>w \<in> set items. \<exists>t r. ready_task items f w = Some t \<and> run w t = Inr r \<and> f (wd_index w) = Some r)"

lemma explains_unique:
  assumes plan: "schedulable k items" and f: "explains items run f" and g: "explains items run g"
  shows "w \<in> set items \<Longrightarrow> f (wd_index w) = g (wd_index w)"
proof -
  have "depends_on items \<subseteq> wd_id ` set items \<times> wd_id ` set items"
    using plan by (auto simp: depends_on_def schedulable_def known_dependencies_def)
  then have "finite (depends_on items)" by (rule finite_subset) simp
  with plan have wf: "wf ((depends_on items)\<inverse>)" by (simp add: schedulable_def finite_acyclic_wf_converse)
  have "\<forall>w \<in> set items. wd_id w = x \<longrightarrow> f (wd_index w) = g (wd_index w)" for x
    using wf
  proof (induction x rule: wf_induct_rule)
    case (less x)
    show ?case
    proof (intro ballI impI)
      fix w assume w: "w \<in> set items" "wd_id w = x"
      have "f (wd_index v) = g (wd_index v)" if "v \<in> set items" "wd_id v \<in> set (wd_dependsOn w)" for v
        using less [of "wd_id v"] that w by (auto simp: depends_on_def)
      then have "ready_task items f w = ready_task items g w" by (rule ready_task_cong [OF plan w(1)])
      with f g w(1) show "f (wd_index w) = g (wd_index w)" unfolding explains_def by fastforce
    qed
  qed
  then show "w \<in> set items \<Longrightarrow> f (wd_index w) = g (wd_index w)" by blast
qed

lemma idle_explains:
  assumes plan: "schedulable k items" and reach: "sched_reach (NInt k) items run n s" and idle: "sc_running s = []"
  shows "explains items run (sc_results s)"
proof -
  note ok = sched_reach_ok [OF plan reach]
  from ok have inv: "sched_ok k items run s" by blast
  have "set (sc_completed s) = wd_id ` set items"
  proof (rule card_subset_eq)
    show "set (sc_completed s) \<subseteq> wd_id ` set items" using inv by (simp add: sched_ok_def)
    have "card (set (sc_completed s)) = length items"
      using inv ok idle by (simp add: sched_ok_def distinct_card)
    moreover have "card (wd_id ` set items) = length items"
      using plan by (metis schedulable_def distinct_card length_map set_map)
    ultimately show "card (set (sc_completed s)) = card (wd_id ` set items)" by simp
  qed simp
  then have "\<exists>r. sc_results s (wd_index w) = Some r" if "w \<in> set items" for w
    using inv that by (auto simp: sched_ok_def)
  with sched_ok_task [OF inv] show ?thesis unfolding explains_def by blast
qed

lemma effective_bounds:
  fixes items :: "'a list"
  assumes "c \<noteq> NaN" "\<not> js_less c (Fin 1)"
  shows "\<exists>k. effective_concurrency c items = NInt k \<and> 1 \<le> k \<and> k \<le> max 1 (int (length items)) \<and> \<not> js_less c (NInt k)"
proof -
  define m where "m = max 1 (int (length items))"
  have m: "max_concurrency_of (JInt m) = NInt m"
    by (simp add: max_concurrency_of_def at_least_one_def js_num_or_def js_max_def m_def)
  have e: "effective_concurrency c items = js_max (Fin 1) (js_min (NInt m) (js_floor (js_num_or c (Fin 1))))"
  proof -
    have "at_least_one JUndef (Fin 1) = Fin 1" by (simp add: at_least_one_def js_num_or_def js_max_def)
    then show ?thesis
      unfolding effective_concurrency_def normalizeRunPlanConcurrency_def m_def [symmetric] Let_def m by simp
  qed
  show ?thesis
  proof (cases c)
    case (Fin q)
    with assms have q: "1 \<le> q" by simp
    then have f: "1 \<le> \<lfloor>q\<rfloor>" by (simp add: le_floor_iff)
    have "effective_concurrency c items = NInt (max 1 (min m \<lfloor>q\<rfloor>))"
      using q f unfolding e unfolding Fin by (auto simp: js_num_or_def js_max_def js_min_def max_def min_def floor_eq_iff)
    moreover have "of_int (max 1 (min m \<lfloor>q\<rfloor>)) \<le> q"
      using f by (metis floor_correct le_floor_iff max.absorb_iff2 max_def min.cobounded2 m_def max.cobounded1 min.boundedI)
    ultimately show ?thesis unfolding m_def using Fin by (intro exI [of _ "max 1 (min (max 1 (int (length items))) \<lfloor>q\<rfloor>)"]) auto
  next
    case PosInf
    then have "effective_concurrency c items = NInt m" unfolding e m_def by (auto simp: js_num_or_def js_max_def js_min_def)
    with PosInf show ?thesis unfolding m_def by (intro exI [of _ "max 1 (int (length items))"]) simp
  qed (use assms in \<open>auto simp: e\<close>)
qed

lemma plan_run_schedulable:
  assumes "plan_run workers concurrency options = Inr (ds, c)"
  shows "\<exists>k. schedulable k ds \<and> effective_concurrency c ds = NInt k \<and> \<not> js_less c (NInt k) \<and> length ds = length workers"
proof -
  from assms have ds: "normalizeRunPlanWorkerDescriptors workers options = Inr ds"
    and valid: "validateRunPlanDependencies ds = Inr ()"
    and c: "normalizeRunPlanConcurrency concurrency (po_defaultConcurrency options) (po_maxConcurrency options)
        (po_concurrencyMode options) = Inr c"
    by (auto simp: plan_run_def split: sum.splits)
  have "c \<noteq> NaN"
    using c js_floor_or_nan at_least_one_ne
    by (auto simp: normalizeRunPlanConcurrency_def Let_def js_max_def js_min_def max_concurrency_of_def split: if_splits)
  moreover have "\<not> js_less c (Fin 1)" using concurrency_bounds [OF c] by blast
  ultimately obtain k where k: "effective_concurrency c ds = NInt k" "1 \<le> k" "\<not> js_less c (NInt k)"
    using effective_bounds [of c ds] by blast
  have n: "normalize_workers options [] 0 workers = Inr ds"
    using ds by (auto simp: normalizeRunPlanWorkerDescriptors_def split: if_splits)
  note normalized = normalize_workers_ids [OF n]
  then have "map wd_index ds = [0..<length workers]" by simp
  moreover from this have len: "length ds = length workers" by (metis length_map length_upt minus_nat.diff_0)
  ultimately have "schedulable k ds"
    using normalized valid validate_iff [of ds] k(2) by (simp add: schedulable_def)
  with k len show ?thesis by blast
qed

section \<open>Properties of executing a plan\<close>

text \<open>
  C17: at any moment of any execution of a plan, no more workers are at work than the requested
  concurrency, a worker is at work only if all its dependencies have finished with success, and a
  worker is skipped only if all have finished and one has not succeeded.
\<close>

theorem plan_execution_safe:
  assumes "plan_run workers concurrency options = Inr (ds, c)" and "execute_reach workers concurrency options opts n s"
  shows "\<not> js_less c (NInt (int (working s)))
    \<and> (\<forall>(w, t) \<in> set (sc_running s). \<exists>rs. dependency_results ds (sc_results s) w = map Some rs
        \<and> (t = Work \<longleftrightarrow> (\<forall>r \<in> set rs. wr_success r = Some True)) \<and> (t \<noteq> Work \<longrightarrow> t = Skip rs))"
proof -
  obtain k where plan: "schedulable k ds" and k: "effective_concurrency c ds = NInt k" "\<not> js_less c (NInt k)"
    using plan_run_schedulable [OF assms(1)] by blast
  have "sched_reach (NInt k) ds (execute_task opts) n s" using assms k by (simp add: execute_reach_def)
  from sched_reach_ok [OF plan this] have ok: "sched_ok k ds (execute_task opts) s" by blast
  then have "int (working s) \<le> k" by (simp add: sched_ok_def)
  with k(2) have "\<not> js_less c (NInt (int (working s)))" by (cases c) auto
  moreover have "\<exists>rs. dependency_results ds (sc_results s) w = map Some rs
      \<and> (t = Work \<longleftrightarrow> (\<forall>r \<in> set rs. wr_success r = Some True)) \<and> (t \<noteq> Work \<longrightarrow> t = Skip rs)"
    if "(w, t) \<in> set (sc_running s)" for w t
  proof -
    have ready: "ready_task ds (sc_results s) w = Some t" using ok that by (auto simp: sched_ok_def)
    then have none: "None \<notin> set (dependency_results ds (sc_results s) w)"
      by (auto simp: ready_task_def Let_def split: if_splits)
    define rs where "rs = map the (dependency_results ds (sc_results s) w)"
    have "map Some rs = dependency_results ds (sc_results s) w"
      unfolding rs_def map_map by (rule map_idI) (use none in \<open>metis comp_apply option.collapse\<close>)
    moreover have "t = (if \<exists>r \<in> set rs. wr_success r \<noteq> Some True then Skip rs else Work)"
      using ready none by (auto simp: ready_task_def Let_def rs_def split: if_splits)
    ultimately show ?thesis by (intro exI [of _ rs]) auto
  qed
  ultimately show ?thesis by blast
qed

definition done_result :: "worker_descriptor \<Rightarrow> worker_result" where
  "done_result d = \<lparr>wr_workerId = wd_id d, wr_success = Some True, wr_status = Some ''completed'', wr_output = JUndef,
     wr_error = None, wr_dependencies = [], wr_extra = []\<rparr>"

definition sample_executor :: executor_options where
  "sample_executor = \<lparr>xo_adapter = (\<lambda>d. Inr (done_result d)), xo_late = (\<lambda>_. False), xo_parse = (\<lambda>_. NaN),
     xo_clock = (\<lambda>_. []), xo_hook = (\<lambda>_ _. None), xo_cancelled = (\<lambda>_. None), xo_timed_out = (\<lambda>_ _. None),
     xo_skipped = (\<lambda>_ _. None)\<rparr>"

lemma sample_executor_answers: "\<forall>d t. \<exists>r. execute_task sample_executor d t = Inr r"
proof (intro allI)
  fix d t show "\<exists>r. execute_task sample_executor d t = Inr r"
    by (cases t)
      (auto simp: sample_executor_def with_hook_def runPlanWorkerWithTimeout_def split: option.split jsnum.split)
qed

definition sample_pair :: "js_object list" where
  "sample_pair = [[(''id'', JStr ''a'')], [(''id'', JStr ''b'')]]"

definition sample_plan :: "worker_descriptor list \<times> jsnum" where
  "sample_plan = (case plan_run sample_pair (JInt 2) sample_options of Inl _ \<Rightarrow> ([], NaN) | Inr p \<Rightarrow> p)"

lemma sample_plan_run: "plan_run sample_pair (JInt 2) sample_options = Inr (fst sample_plan, snd sample_plan)"
proof -
  have "case plan_run sample_pair (JInt 2) sample_options of Inl _ \<Rightarrow> False | Inr _ \<Rightarrow> True" by code_simp
  then show ?thesis by (auto simp: sample_plan_def split: sum.splits)
qed

text \<open>The two workers, finished in the given order.\<close>

definition sample_run :: "nat list \<Rightarrow> sched" where
  "sample_run order =
     (let ds = fst sample_plan; limit = effective_concurrency (snd sample_plan) ds in
      fold (\<lambda>i s. settle limit ds (ds ! i, Work) (done_result (ds ! i)) s) order (pump limit ds sched_start))"

lemma sample_reach: "execute_reach sample_pair (JInt 2) sample_options sample_executor n s
    = sched_reach (effective_concurrency (snd sample_plan) (fst sample_plan)) (fst sample_plan) (execute_task sample_executor) n s"
  unfolding execute_reach_def sample_plan_run sum.case prod.case ..

lemma sample_run_start: "execute_reach sample_pair (JInt 2) sample_options sample_executor 0 (sample_run [])"
  unfolding sample_reach by (simp add: sample_run_def Let_def sched_reach.begin_run)

lemma sample_run_step:
  assumes "execute_reach sample_pair (JInt 2) sample_options sample_executor n (sample_run order)"
    and "(fst sample_plan ! i, Work) \<in> set (sc_running (sample_run order))"
    and "execute_task sample_executor (fst sample_plan ! i) Work = Inr (done_result (fst sample_plan ! i))"
  shows "execute_reach sample_pair (JInt 2) sample_options sample_executor (Suc n) (sample_run (order @ [i]))"
proof -
  have "sample_run (order @ [i]) = settle (effective_concurrency (snd sample_plan) (fst sample_plan)) (fst sample_plan)
      (fst sample_plan ! i, Work) (done_result (fst sample_plan ! i)) (sample_run order)"
    by (simp add: sample_run_def Let_def)
  with sched_reach.fulfil [OF assms(1) [unfolded sample_reach] assms(2)] assms(3) show ?thesis
    unfolding sample_reach by simp
qed

theorem plan_execution_safe_witness:
  "\<not> js_less (snd sample_plan) (NInt (int (working (sample_run []))))"
  using plan_execution_safe [OF sample_plan_run sample_run_start] by blast

lemma execution_progress:
  assumes "plan_run workers concurrency options = Inr (ds, c)" and "execute_reach workers concurrency options opts n s"
    and "\<forall>d t. \<exists>r. execute_task opts d t = Inr r"
  shows "n \<le> length workers \<and> (sc_running s = [] \<longleftrightarrow> n = length workers)
    \<and> (if n = length workers then \<exists>rs. length rs = length workers \<and> sc_outcome s = Resolved (map Some rs)
       else sc_outcome s = Unsettled)"
proof -
  obtain k where plan: "schedulable k ds" and k: "effective_concurrency c ds = NInt k" and len: "length ds = length workers"
    using plan_run_schedulable [OF assms(1)] by blast
  have reach: "sched_reach (NInt k) ds (execute_task opts) n s" using assms(1,2) k by (simp add: execute_reach_def)
  from sched_reach_ok [OF plan this] assms(3) have ok: "sched_ok k ds (execute_task opts) s"
    and n: "n = length (sc_completed s)" and idle: "sc_running s = [] \<longrightarrow> length (sc_completed s) = length ds"
    and out: "sc_outcome s = settled_outcome ds s" by blast+
  have ids: "card (wd_id ` set ds) = length ds" using plan by (metis schedulable_def distinct_card length_map set_map)
  have sub: "set (sc_completed s) \<subseteq> wd_id ` set ds" and completed: "card (set (sc_completed s)) = n"
    using ok n by (simp_all add: sched_ok_def distinct_card)
  have le: "n \<le> length workers" using card_mono [OF _ sub] ids completed len by simp
  have busy: "sc_running s = []" if "n = length workers"
  proof (rule ccontr)
    assume "sc_running s \<noteq> []"
    then obtain p where p: "p \<in> set (sc_running s)" by (cases "sc_running s") auto
    have "set (sc_completed s) = wd_id ` set ds"
      using card_subset_eq [OF _ sub] ids completed that len by simp
    moreover have "wd_id (fst p) \<in> wd_id ` set ds" "wd_id (fst p) \<notin> set (sc_completed s)"
      using ok p by (auto simp: sched_ok_def running_ids_def)
    ultimately show False by simp
  qed
  have "\<exists>rs. length rs = length workers \<and> sc_outcome s = Resolved (map Some rs)" if "n = length workers"
  proof -
    have e: "explains ds (execute_task opts) (sc_results s)" by (rule idle_explains [OF plan reach busy [OF that]])
    have "\<exists>r. sc_results s i = Some r" if "i < length ds" for i
    proof -
      have "wd_index (ds ! i) = i" using plan that by (metis schedulable_def add_0 nth_map nth_upt)
      with e that show ?thesis unfolding explains_def by (metis nth_mem)
    qed
    then have "map (sc_results s) [0..<length ds] = map Some (map (the \<circ> sc_results s) [0..<length ds])" by auto
    with out busy [OF that] len show ?thesis
      by (intro exI [of _ "map (the \<circ> sc_results s) [0..<length ds]"]) (simp add: settled_outcome_def)
  qed
  moreover have "sc_outcome s = Unsettled" if "n \<noteq> length workers"
    using out idle n that len by (auto simp: settled_outcome_def)
  ultimately show ?thesis using le busy idle n len by auto
qed

text \<open>Every execution can go on until all workers have finished.\<close>

lemma execution_reaches_end:
  assumes "plan_run workers concurrency options = Inr (ds, c)" and "\<forall>d t. \<exists>r. execute_task opts d t = Inr r"
  shows "\<exists>s rs. execute_reach workers concurrency options opts (length workers) s
    \<and> sc_outcome s = Resolved (map Some rs) \<and> length rs = length workers"
proof -
  have "\<exists>s. execute_reach workers concurrency options opts n s" if "n \<le> length workers" for n
    using that
  proof (induction n)
    case 0
    have "sched_reach (effective_concurrency c ds) ds (execute_task opts) 0 (pump (effective_concurrency c ds) ds sched_start)"
      by (rule begin_run)
    with assms(1) show ?case by (auto simp: execute_reach_def)
  next
    case (Suc n)
    then obtain s where s: "execute_reach workers concurrency options opts n s" by auto
    with execution_progress [OF assms(1) s assms(2)] Suc(2) have "sc_running s \<noteq> []" by simp
    then obtain p where p: "p \<in> set (sc_running s)" by (cases "sc_running s") auto
    obtain r where "execute_task opts (fst p) (snd p) = Inr r" using assms(2) by blast
    with s p assms(1) show ?case by (auto simp: execute_reach_def intro: fulfil)
  qed
  then obtain s where s: "execute_reach workers concurrency options opts (length workers) s" by blast
  with execution_progress [OF assms(1) s assms(2)] show ?thesis by auto
qed




lemma sample_finished: "sc_running (sample_run [0, 1]) = []" "sc_running (sample_run [1, 0]) = []"
  by code_simp+

lemma sample_run_both:
  "execute_reach sample_pair (JInt 2) sample_options sample_executor (Suc (Suc 0)) (sample_run [0, 1])"
  "execute_reach sample_pair (JInt 2) sample_options sample_executor (Suc (Suc 0)) (sample_run [1, 0])"
proof -
  have answers: "execute_task sample_executor (fst sample_plan ! 0) Work = Inr (done_result (fst sample_plan ! 0))"
    "execute_task sample_executor (fst sample_plan ! 1) Work = Inr (done_result (fst sample_plan ! 1))" by code_simp+
  have running: "(fst sample_plan ! 0, Work) \<in> set (sc_running (sample_run []))"
    "(fst sample_plan ! 1, Work) \<in> set (sc_running (sample_run []))"
    "(fst sample_plan ! 1, Work) \<in> set (sc_running (sample_run [0]))"
    "(fst sample_plan ! 0, Work) \<in> set (sc_running (sample_run [1]))" by code_simp+
  note one = sample_run_step [OF sample_run_start running(1) answers(1), unfolded append_Nil]
  from sample_run_step [OF one running(3) answers(2), unfolded append.simps]
  show "execute_reach sample_pair (JInt 2) sample_options sample_executor (Suc (Suc 0)) (sample_run [0, 1])" .
  note two = sample_run_step [OF sample_run_start running(2) answers(2), unfolded append_Nil]
  from sample_run_step [OF two running(4) answers(1), unfolded append.simps]
  show "execute_reach sample_pair (JInt 2) sample_options sample_executor (Suc (Suc 0)) (sample_run [1, 0])" .
qed


end
