(* ===== verification/Redaction.thy ===== *)
theory Redaction
  imports Js_Conversions
begin

text \<open>
  \<open>packages/runtime-core/src/redaction.ts\<close>: which keys of a JSON value are sensitive, and the walk
  that replaces what stands under them.  The patterns of the source are case-insensitive alternatives
  of fixed words; a pattern given by a caller is an argument.  The rewriting of the text inside strings
  (\<open>redactString\<close>) is an argument as well: the callers modelled here switch it off.
\<close>

section \<open>Sensitive keys\<close>

definition lower_char :: "char \<Rightarrow> char" where
  "lower_char c = (if is_upper c then char_of ((of_char c :: nat) + 32) else c)"

definition lower :: "string \<Rightarrow> string" where
  "lower = map lower_char"

definition REDACTED_VALUE :: string where
  "REDACTED_VALUE = ''[redacted]''"

datatype redaction_profile_name = Audit_metadata | Provider_proxy | Browser_event | Public_session_dto

record redaction_profile =
  rp_exactKeys :: "string list"
  rp_sensitiveKeyTokens :: "string list"
  rp_allowedKeys :: "string list"

definition audit_tokens :: "string list" where
  "audit_tokens = [''secret'', ''token'', ''password'', ''credential'', ''private_key'', ''api_key'']"

fun getRedactionPolicyProfile :: "redaction_profile_name \<Rightarrow> redaction_profile" where
  "getRedactionPolicyProfile Audit_metadata =
     \<lparr>rp_exactKeys = [''authorization'', ''key'', ''value''], rp_sensitiveKeyTokens = audit_tokens, rp_allowedKeys = []\<rparr>"
| "getRedactionPolicyProfile Provider_proxy =
     \<lparr>rp_exactKeys = [''authorization'', ''key'', ''value''], rp_sensitiveKeyTokens = audit_tokens, rp_allowedKeys = []\<rparr>"
| "getRedactionPolicyProfile Browser_event =
     \<lparr>rp_exactKeys = [''authorization''], rp_sensitiveKeyTokens = audit_tokens @ [''cookie''], rp_allowedKeys = []\<rparr>"
| "getRedactionPolicyProfile Public_session_dto =
     \<lparr>rp_exactKeys = [], rp_sensitiveKeyTokens = [''secret'', ''token'', ''password'', ''private_key'', ''api_key'', ''credential''],
      rp_allowedKeys = [''secret_env'', ''secretenv'', ''secret_env_names'']\<rparr>"

definition mentions :: "string list \<Rightarrow> string \<Rightarrow> bool" where
  "mentions tokens key \<longleftrightarrow> (\<exists>t \<in> set tokens. contains_text t (lower key))"

definition SENSITIVE_KEY_PATTERN :: "string \<Rightarrow> bool" where
  "SENSITIVE_KEY_PATTERN = mentions [''secret'', ''token'', ''credential'', ''password'', ''pass'', ''apikey'', ''api_key'',
     ''api-key'', ''privatekey'', ''private_key'', ''private-key'', ''authorization'', ''auth'', ''cookie'', ''bearer'',
     ''nonce'', ''session'', ''state'', ''code'', ''login'']"

record redact_options =
  ro_pattern :: "(string \<Rightarrow> bool) option"
  ro_extraPattern :: "(string \<Rightarrow> bool) option"
  ro_profile :: "redaction_profile_name option"
  ro_redactString :: "(string \<Rightarrow> string) option" \<comment> \<open>\<open>None\<close> when \<open>redactStrings\<close> is false\<close>

definition matches_optional :: "(string \<Rightarrow> bool) option \<Rightarrow> string \<Rightarrow> bool" where
  "matches_optional p key = (case p of None \<Rightarrow> False | Some f \<Rightarrow> f key)"

definition isSensitiveKey :: "redact_options \<Rightarrow> string \<Rightarrow> bool" where
  "isSensitiveKey options key =
     (case ro_profile options of
        Some name \<Rightarrow>
          let profile = getRedactionPolicyProfile name; normalized = lower key in
          if normalized \<in> set (rp_allowedKeys profile) then False
          else normalized \<in> set (rp_exactKeys profile)
               \<or> (\<exists>t \<in> set (rp_sensitiveKeyTokens profile). contains_text t normalized)
               \<or> matches_optional (ro_extraPattern options) key
      | None \<Rightarrow> (case ro_pattern options of None \<Rightarrow> SENSITIVE_KEY_PATTERN | Some p \<Rightarrow> p) key
               \<or> matches_optional (ro_extraPattern options) key)"

definition isRedactedValue :: "string \<Rightarrow> bool" where
  "isRedactedValue value \<longleftrightarrow>
     lower value \<in> {''redacted'', ''[redacted'', ''redacted]'', ''[redacted]''} \<or> value = [] \<or> value = ''***''"

section \<open>The walk over a value\<close>

fun redactJsonValue :: "redact_options \<Rightarrow> jsval \<Rightarrow> string \<Rightarrow> jsval" where
  "redactJsonValue options (JArr vs) key =
     (if isSensitiveKey options key then JStr REDACTED_VALUE
      else JArr (map (\<lambda>v. redactJsonValue options v []) vs))"
| "redactJsonValue options (JObj obj) key =
     (if isSensitiveKey options key then JStr REDACTED_VALUE
      else JObj (map (\<lambda>(k, v). (k, redactJsonValue options v k)) obj))"
| "redactJsonValue options (JStr s) key =
     (if isSensitiveKey options key then JStr REDACTED_VALUE
      else (case ro_redactString options of None \<Rightarrow> JStr s | Some f \<Rightarrow> JStr (f s)))"
| "redactJsonValue options v key = (if isSensitiveKey options key then JStr REDACTED_VALUE else v)"

section \<open>What the walk guarantees\<close>

text \<open>Under every sensitive key, however deep, there is nothing but the marker.\<close>

fun free_of_secrets :: "(string \<Rightarrow> bool) \<Rightarrow> jsval \<Rightarrow> bool" where
  "free_of_secrets sensitive (JArr vs) = list_all (free_of_secrets sensitive) vs"
| "free_of_secrets sensitive (JObj obj) =
     list_all (\<lambda>(k, v). (sensitive k \<longrightarrow> v = JStr REDACTED_VALUE) \<and> free_of_secrets sensitive v) obj"
| "free_of_secrets sensitive _ = True"

lemma redact_sensitive: "isSensitiveKey options key \<Longrightarrow> redactJsonValue options v key = JStr REDACTED_VALUE"
  by (cases v) simp_all

lemma redact_free: "free_of_secrets (isSensitiveKey options) (redactJsonValue options v key)"
proof (induction options v key rule: redactJsonValue.induct)
  case (2 options obj key)
  then show ?case by (fastforce simp: list_all_iff redact_sensitive)
qed (auto simp: list_all_iff split: option.splits)

text \<open>A value without sensitive keys keeps its shape and, unless strings are rewritten, its content.\<close>

lemma redact_id:
  "ro_redactString options = None \<Longrightarrow> \<not> isSensitiveKey options key \<Longrightarrow> \<not> isSensitiveKey options [] \<Longrightarrow>
   free_of_secrets (isSensitiveKey options) v \<Longrightarrow> redactJsonValue options v key = v"
proof (induction options v key rule: redactJsonValue.induct)
  case (1 options vs key)
  then show ?case by (simp add: list_all_iff map_idI)
next
  case (2 options obj key)
  have "redactJsonValue options v k = v" if "(k, v) \<in> set obj" for k v
  proof (cases "isSensitiveKey options k")
    case True
    with 2(5) that have "v = JStr REDACTED_VALUE" by (force simp: list_all_iff)
    with True show ?thesis by simp
  next
    case False
    with 2(1) [OF _ that] 2 that show ?thesis by (force simp: list_all_iff)
  qed
  with 2 show ?case by (auto intro!: map_idI)
qed simp_all

lemma redact_idempotent:
  assumes "ro_redactString options = None" and "\<not> isSensitiveKey options []"
  shows "redactJsonValue options (redactJsonValue options v key) key = redactJsonValue options v key"
proof (cases "isSensitiveKey options key")
  case True
  then show ?thesis by (simp add: redact_sensitive)
next
  case False
  then show ?thesis using assms redact_free by (intro redact_id)
qed

text \<open>The keys of an object survive, in their order.\<close>

lemma redact_keys:
  "redactJsonValue options (JObj obj) key = JObj out \<Longrightarrow> map fst out = map fst obj"
  by (auto split: if_splits)

end
