(* ===== verification/Run_Registry.thy ===== *)
theory Run_Registry
  imports Redaction
begin

text \<open>
  \<open>packages/runtime-core/src/run-registry.ts\<close>: the directory of run records.  The directory is a
  map from run identifiers to records; reading and writing a file are total on it, the rename makes a
  write atomic, and the opaque parts of a record are JSON values, so that reading back what was written
  gives it again.  A call is a read, a computation and a write; \<open>registry_call\<close> runs the three
  without interruption, and the section on interleaving takes them apart.
\<close>

section \<open>Records\<close>

datatype run_status = Run_queued | Run_booting | Run_running | Run_collecting_artifacts
  | Run_succeeded | Run_failed | Run_timed_out | Run_cancelled

datatype run_phase = Phase_pending | Phase_active | Phase_finalizing | Phase_terminal

datatype cleanup_status = Cleanup_not_started | Cleanup_running | Cleanup_succeeded | Cleanup_failed

record cleanup_state =
  cl_status :: cleanup_status
  cl_attempts :: nat
  cl_startedAt :: "string option"
  cl_updatedAt :: "string option"
  cl_completedAt :: "string option"
  cl_error :: "jsval option"

record run_cancellation =
  rc_requestedAt :: string
  rc_reason :: "string option"

record run_lifecycle =
  lc_status :: run_status
  lc_phase :: run_phase
  lc_terminal :: bool
  lc_cancellable :: bool
  lc_cancelRequested :: bool
  lc_cancellation :: "run_cancellation option"
  lc_successful :: bool
  lc_failed :: bool
  lc_cancelled :: bool
  lc_outcome :: "run_status option"
  lc_cleanup :: cleanup_state

record run_record =
  rr_runId :: string
  rr_status :: run_status
  rr_lifecycle :: run_lifecycle
  rr_createdAt :: string
  rr_updatedAt :: string
  rr_heartbeatAt :: string
  rr_runtime :: "jsval option"
  rr_preview :: "jsval option"
  rr_metadata :: "js_object option"
  rr_result :: "jsval option"
  rr_artifactRefs :: "jsval list"
  rr_retention :: "jsval option"
  rr_replay :: "jsval option"
  rr_error :: "jsval option"

record run_create_options =
  co_runId :: "string option"
  co_status :: "run_status option"
  co_runtime :: "jsval option"
  co_preview :: "jsval option"
  co_metadata :: "js_object option"
  co_result :: "jsval option"
  co_retention :: "jsval option"
  co_replay :: "jsval option"
  co_artifactRefs :: "jsval list option"
  co_now :: "string option"

record run_cleanup_update =
  cu_status :: cleanup_status
  cu_error :: "jsval option"

record run_update =
  ru_status :: "run_status option"
  ru_runtime :: "jsval option"
  ru_preview :: "jsval option"
  ru_metadata :: "js_object option"
  ru_result :: "jsval option"
  ru_retention :: "jsval option"
  ru_replay :: "jsval option"
  ru_artifactRefs :: "jsval list option"
  ru_error :: "jsval option"
  ru_cleanup :: "run_cleanup_update option"
  ru_heartbeat :: "bool option"
  ru_now :: "string option"

record cancellation_result =
  cx_runId :: string
  cx_status :: run_status
  cx_cancellationRequested :: bool
  cx_alreadyRequested :: bool
  cx_terminal :: bool
  cx_record :: run_record

datatype registry_error = Invalid_run_id string | No_run_record string | Terminal_transition run_status run_status
  | Invalid_transition run_status run_status

type_synonym registry = "string \<Rightarrow> run_record option"

type_synonym 'a registry_action = "(registry, registry_error, 'a) action"

section \<open>The status machine\<close>

fun runtimeRunStatusTransitions :: "run_status \<Rightarrow> run_status list" where
  "runtimeRunStatusTransitions Run_queued =
     [Run_booting, Run_running, Run_collecting_artifacts, Run_cancelled, Run_failed, Run_timed_out]"
| "runtimeRunStatusTransitions Run_booting = [Run_running, Run_collecting_artifacts, Run_cancelled, Run_failed, Run_timed_out]"
| "runtimeRunStatusTransitions Run_running =
     [Run_collecting_artifacts, Run_succeeded, Run_cancelled, Run_failed, Run_timed_out]"
| "runtimeRunStatusTransitions Run_collecting_artifacts = [Run_succeeded, Run_cancelled, Run_failed, Run_timed_out]"
| "runtimeRunStatusTransitions _ = []"

definition isTerminalRuntimeRunStatus :: "run_status \<Rightarrow> bool" where
  "isTerminalRuntimeRunStatus status \<longleftrightarrow>
     status = Run_succeeded \<or> status = Run_failed \<or> status = Run_timed_out \<or> status = Run_cancelled"

definition transitionRuntimeRunStatus :: "run_status \<Rightarrow> run_status option \<Rightarrow> registry_error + run_status" where
  "transitionRuntimeRunStatus current wanted =
     (let next = (case wanted of None \<Rightarrow> current | Some s \<Rightarrow> s) in
      if current = next then Inr current
      else if isTerminalRuntimeRunStatus current then Inl (Terminal_transition current next)
      else if next \<notin> set (runtimeRunStatusTransitions current) then Inl (Invalid_transition current next)
      else Inr next)"

definition runtimeRunLifecyclePhase :: "run_status \<Rightarrow> run_phase" where
  "runtimeRunLifecyclePhase status =
     (if isTerminalRuntimeRunStatus status then Phase_terminal
      else if status = Run_collecting_artifacts then Phase_finalizing
      else if status = Run_queued then Phase_pending
      else Phase_active)"

definition initialRuntimeRunCleanup :: cleanup_state where
  "initialRuntimeRunCleanup = \<lparr>cl_status = Cleanup_not_started, cl_attempts = 0, cl_startedAt = None, cl_updatedAt = None,
     cl_completedAt = None, cl_error = None\<rparr>"

definition updateRuntimeRunCleanup :: "cleanup_state \<Rightarrow> run_cleanup_update \<Rightarrow> string \<Rightarrow> cleanup_state" where
  "updateRuntimeRunCleanup previous update now =
     \<lparr>cl_status = cu_status update,
      cl_attempts = (if cu_status update = Cleanup_running then cl_attempts previous + 1 else cl_attempts previous),
      cl_startedAt = (if cu_status update = Cleanup_running then Some now else cl_startedAt previous),
      cl_updatedAt = Some now,
      cl_completedAt = (if cu_status update = Cleanup_succeeded \<or> cu_status update = Cleanup_failed then Some now
                        else cl_completedAt previous),
      cl_error = cu_error update\<rparr>"

definition buildRuntimeRunLifecycle :: "run_status \<Rightarrow> cleanup_state \<Rightarrow> run_cancellation option \<Rightarrow> run_lifecycle" where
  "buildRuntimeRunLifecycle status cleanup cancellation =
     (let terminal = isTerminalRuntimeRunStatus status in
      \<lparr>lc_status = status, lc_phase = runtimeRunLifecyclePhase status, lc_terminal = terminal, lc_cancellable = (\<not> terminal),
       lc_cancelRequested = (cancellation \<noteq> None), lc_cancellation = cancellation,
       lc_successful = (status = Run_succeeded), lc_failed = (status = Run_failed \<or> status = Run_timed_out),
       lc_cancelled = (status = Run_cancelled), lc_outcome = (if terminal then Some status else None), lc_cleanup = cleanup\<rparr>)"

section \<open>The methods of the registry\<close>

definition assertSafeRunId :: "string \<Rightarrow> registry_error + unit" where
  "assertSafeRunId runId =
     (if runId \<noteq> [] \<and> list_all (\<lambda>c. is_alnum c \<or> c \<in> {CHR ''_'', CHR ''.'', CHR ''-''}) runId then Inr ()
      else Inl (Invalid_run_id runId))"

definition run_redaction :: redact_options where
  "run_redaction = \<lparr>ro_pattern = Some (mentions [''secret'', ''token'', ''credential'', ''password'', ''apikey'', ''api_key'', ''api-key'']),
     ro_extraPattern = None, ro_profile = None, ro_redactString = None\<rparr>"

definition sanitizeRunMetadata :: "js_object option \<Rightarrow> js_object option" where
  "sanitizeRunMetadata metadata =
     (case metadata of None \<Rightarrow> None
      | Some m \<Rightarrow> (case redactJsonValue run_redaction (JObj m) [] of JObj out \<Rightarrow> Some out | _ \<Rightarrow> None))"

definition registry_read :: "string \<Rightarrow> run_record registry_action" where
  "registry_read runId =
     and_then (from_result (assertSafeRunId runId)) (\<lambda>_.
     and_then (query (\<lambda>s. s runId)) (\<lambda>found.
     (case found of None \<Rightarrow> throw (No_run_record runId) | Some r \<Rightarrow> succeed r)))"

definition registry_write :: "run_record \<Rightarrow> unit registry_action" where
  "registry_write r =
     and_then (from_result (assertSafeRunId (rr_runId r))) (\<lambda>_. modify (\<lambda>s. s(rr_runId r \<mapsto> r)))"

definition time_of :: "string option \<Rightarrow> string \<Rightarrow> string" where
  "time_of now clock = (case now of None \<Rightarrow> clock | Some t \<Rightarrow> t)"

definition created_record :: "string \<Rightarrow> string \<Rightarrow> run_create_options \<Rightarrow> run_record" where
  "created_record clock fresh options =
     (let now = time_of (co_now options) clock;
          status = (case co_status options of None \<Rightarrow> Run_queued | Some s \<Rightarrow> s)
      in \<lparr>rr_runId = (case co_runId options of None \<Rightarrow> fresh | Some i \<Rightarrow> i), rr_status = status,
          rr_lifecycle = buildRuntimeRunLifecycle status initialRuntimeRunCleanup None,
          rr_createdAt = now, rr_updatedAt = now, rr_heartbeatAt = now,
          rr_runtime = co_runtime options, rr_preview = co_preview options,
          rr_metadata = sanitizeRunMetadata (co_metadata options), rr_result = co_result options,
          rr_artifactRefs = (case co_artifactRefs options of None \<Rightarrow> [] | Some refs \<Rightarrow> refs),
          rr_retention = co_retention options, rr_replay = co_replay options, rr_error = None\<rparr>)"

definition registry_create :: "string \<Rightarrow> string \<Rightarrow> run_create_options \<Rightarrow> run_record registry_action" where
  "registry_create clock fresh options =
     (let r = created_record clock fresh options in and_then (registry_write r) (\<lambda>_. succeed r))"

text \<open>\<open>...(update.field ? { field } : {})\<close>\<close>

definition replaced_by :: "'a option \<Rightarrow> 'a option \<Rightarrow> 'a option" where
  "replaced_by new old = (case new of None \<Rightarrow> old | Some v \<Rightarrow> Some v)"

text \<open>What \<open>update\<close> computes between its read and its write.\<close>

definition updated_record :: "string \<Rightarrow> run_record \<Rightarrow> run_update \<Rightarrow> registry_error + run_record" where
  "updated_record clock current update =
     (let now = time_of (ru_now update) clock in
      case transitionRuntimeRunStatus (rr_status current) (ru_status update) of
        Inl e \<Rightarrow> Inl e
      | Inr status \<Rightarrow>
          let previous = lc_cleanup (rr_lifecycle current);
              cleanup = (case ru_cleanup update of None \<Rightarrow> previous | Some c \<Rightarrow> updateRuntimeRunCleanup previous c now);
              cancellation = lc_cancellation (rr_lifecycle current)
          in Inr (current\<lparr>rr_status := status, rr_lifecycle := buildRuntimeRunLifecycle status cleanup cancellation,
               rr_runtime := replaced_by (ru_runtime update) (rr_runtime current),
               rr_preview := replaced_by (ru_preview update) (rr_preview current),
               rr_metadata := (case ru_metadata update of None \<Rightarrow> rr_metadata current
                  | Some m \<Rightarrow> sanitizeRunMetadata (Some (js_spread (case rr_metadata current of None \<Rightarrow> [] | Some old \<Rightarrow> old) m))),
               rr_result := replaced_by (ru_result update) (rr_result current),
               rr_retention := replaced_by (ru_retention update) (rr_retention current),
               rr_replay := replaced_by (ru_replay update) (rr_replay current),
               rr_artifactRefs := (case ru_artifactRefs update of None \<Rightarrow> rr_artifactRefs current | Some refs \<Rightarrow> refs),
               rr_error := replaced_by (ru_error update) (rr_error current),
               rr_updatedAt := now,
               rr_heartbeatAt := (if ru_heartbeat update = Some False then rr_heartbeatAt current else now)\<rparr>))"

definition registry_update :: "string \<Rightarrow> string \<Rightarrow> run_update \<Rightarrow> run_record registry_action" where
  "registry_update clock runId update =
     and_then (registry_read runId) (\<lambda>current.
     and_then (from_result (updated_record clock current update)) (\<lambda>next.
     and_then (registry_write next) (\<lambda>_. succeed next)))"

definition heartbeat_update :: "string \<Rightarrow> run_update" where
  "heartbeat_update now = \<lparr>ru_status = None, ru_runtime = None, ru_preview = None, ru_metadata = None, ru_result = None,
     ru_retention = None, ru_replay = None, ru_artifactRefs = None, ru_error = None, ru_cleanup = None,
     ru_heartbeat = Some True, ru_now = Some now\<rparr>"

definition registry_heartbeat :: "string \<Rightarrow> string \<Rightarrow> string option \<Rightarrow> run_record registry_action" where
  "registry_heartbeat clock runId now = registry_update clock runId (heartbeat_update (time_of now clock))"

definition cancelled_record :: "string \<Rightarrow> string option \<Rightarrow> run_record \<Rightarrow> run_record" where
  "cancelled_record now reason current =
     current\<lparr>rr_lifecycle := buildRuntimeRunLifecycle (rr_status current) (lc_cleanup (rr_lifecycle current))
         (Some \<lparr>rc_requestedAt = now, rc_reason = reason\<rparr>),
       rr_updatedAt := now\<rparr>"

definition requestCancellation ::
    "string \<Rightarrow> string \<Rightarrow> string option \<Rightarrow> string option \<Rightarrow> cancellation_result registry_action" where
  "requestCancellation clock runId reason at_time =
     and_then (registry_read runId) (\<lambda>current.
     (let terminal = isTerminalRuntimeRunStatus (rr_status current);
          existing = lc_cancellation (rr_lifecycle current)
      in if terminal \<or> existing \<noteq> None
         then succeed \<lparr>cx_runId = rr_runId current, cx_status = rr_status current, cx_cancellationRequested = (existing \<noteq> None),
                cx_alreadyRequested = (existing \<noteq> None), cx_terminal = terminal, cx_record = current\<rparr>
         else
           let next = cancelled_record (time_of at_time clock) reason current in
           and_then (registry_write next) (\<lambda>_.
           succeed \<lparr>cx_runId = rr_runId next, cx_status = rr_status next, cx_cancellationRequested = True,
                cx_alreadyRequested = False, cx_terminal = False, cx_record = next\<rparr>)))"

section \<open>Calls\<close>

datatype registry_call =
    Create_run string run_create_options \<comment> \<open>with the identifier the factory would draw\<close>
  | Read_run string
  | Update_run string run_update
  | Cancel_run string "string option" "string option"
  | Heartbeat_run string "string option"

text \<open>The registry after a call at the clock reading \<open>clock\<close>, whatever the call answers.\<close>

fun registry_perform :: "string \<times> registry_call \<Rightarrow> registry \<Rightarrow> registry" where
  "registry_perform (clock, Create_run fresh options) s = snd (registry_create clock fresh options s)"
| "registry_perform (clock, Read_run runId) s = snd (registry_read runId s)"
| "registry_perform (clock, Update_run runId update) s = snd (registry_update clock runId update s)"
| "registry_perform (clock, Cancel_run runId reason t) s = snd (requestCancellation clock runId reason t s)"
| "registry_perform (clock, Heartbeat_run runId t) s = snd (registry_heartbeat clock runId t s)"

definition registry_run :: "(string \<times> registry_call) list \<Rightarrow> registry \<Rightarrow> registry" where
  "registry_run = fold registry_perform"

fun creates :: "string \<Rightarrow> string \<times> registry_call \<Rightarrow> bool" where
  "creates runId (clock, Create_run fresh options) \<longleftrightarrow> rr_runId (created_record clock fresh options) = runId"
| "creates runId _ \<longleftrightarrow> False"

section \<open>Invariant of the directory\<close>

definition coherent_lifecycle :: "run_record \<Rightarrow> bool" where
  "coherent_lifecycle r \<longleftrightarrow> rr_lifecycle r = buildRuntimeRunLifecycle (rr_status r)
     (lc_cleanup (rr_lifecycle r)) (lc_cancellation (rr_lifecycle r))"

definition metadata_clean :: "js_object option \<Rightarrow> bool" where
  "metadata_clean m \<longleftrightarrow> (case m of None \<Rightarrow> True | Some obj \<Rightarrow> free_of_secrets (isSensitiveKey run_redaction) (JObj obj))"

definition record_wf :: "run_record \<Rightarrow> bool" where
  "record_wf r \<longleftrightarrow> assertSafeRunId (rr_runId r) = Inr () \<and> coherent_lifecycle r \<and> metadata_clean (rr_metadata r)"

definition registry_wf :: "registry \<Rightarrow> bool" where
  "registry_wf s \<longleftrightarrow> (\<forall>runId r. s runId = Some r \<longrightarrow> rr_runId r = runId \<and> record_wf r)"

lemma buildRuntimeRunLifecycle_simps [simp]:
  "lc_cleanup (buildRuntimeRunLifecycle status cleanup cancellation) = cleanup"
  "lc_cancellation (buildRuntimeRunLifecycle status cleanup cancellation) = cancellation"
  "lc_cancelRequested (buildRuntimeRunLifecycle status cleanup cancellation) = (cancellation \<noteq> None)"
  "lc_status (buildRuntimeRunLifecycle status cleanup cancellation) = status"
  by (simp_all add: buildRuntimeRunLifecycle_def Let_def)

lemma sanitize_clean: "metadata_clean (sanitizeRunMetadata m)"
  using redact_free [of run_redaction "JObj (the m)" "[]"]
  by (auto simp: metadata_clean_def sanitizeRunMetadata_def split: option.splits jsval.splits)

lemma created_wf:
  "assertSafeRunId (rr_runId (created_record clock fresh options)) = Inr () \<Longrightarrow> record_wf (created_record clock fresh options)"
  by (simp add: record_wf_def created_record_def Let_def coherent_lifecycle_def sanitize_clean)

lemma updated_record_fields:
  assumes "updated_record clock r update = Inr r'"
  shows "rr_runId r' = rr_runId r" "rr_createdAt r' = rr_createdAt r"
    "transitionRuntimeRunStatus (rr_status r) (ru_status update) = Inr (rr_status r')"
    "lc_cancellation (rr_lifecycle r') = lc_cancellation (rr_lifecycle r)"
    "cl_attempts (lc_cleanup (rr_lifecycle r)) \<le> cl_attempts (lc_cleanup (rr_lifecycle r'))"
    "record_wf r \<Longrightarrow> record_wf r'"
  using assms
  by (auto simp: updated_record_def Let_def updateRuntimeRunCleanup_def record_wf_def coherent_lifecycle_def sanitize_clean
      split: sum.splits option.splits)

lemma cancelled_record_fields [simp]:
  "rr_runId (cancelled_record now reason r) = rr_runId r" "rr_createdAt (cancelled_record now reason r) = rr_createdAt r"
  "rr_status (cancelled_record now reason r) = rr_status r"
  "lc_cancellation (rr_lifecycle (cancelled_record now reason r)) = Some \<lparr>rc_requestedAt = now, rc_reason = reason\<rparr>"
  "lc_cleanup (rr_lifecycle (cancelled_record now reason r)) = lc_cleanup (rr_lifecycle r)"
  "record_wf (cancelled_record now reason r) \<longleftrightarrow> assertSafeRunId (rr_runId r) = Inr () \<and> metadata_clean (rr_metadata r)"
  by (auto simp: cancelled_record_def record_wf_def coherent_lifecycle_def)

section \<open>The effect of a call\<close>

lemma registry_read_result:
  "registry_read runId s = (case assertSafeRunId runId of Inl e \<Rightarrow> Inl e
     | Inr _ \<Rightarrow> (case s runId of None \<Rightarrow> Inl (No_run_record runId) | Some r \<Rightarrow> Inr r), s)"
  by (simp add: registry_read_def action_defs split: sum.split option.split)

lemma registry_write_result:
  "registry_write r s = (case assertSafeRunId (rr_runId r) of Inl e \<Rightarrow> (Inl e, s) | Inr _ \<Rightarrow> (Inr (), s(rr_runId r \<mapsto> r)))"
  by (simp add: registry_write_def action_defs split: sum.split)

lemma registry_update_effect:
  "snd (registry_update clock runId update s) = s \<or>
   (\<exists>r r'. s runId = Some r \<and> updated_record clock r update = Inr r'
     \<and> snd (registry_update clock runId update s) = s(rr_runId r' \<mapsto> r'))"
  unfolding registry_update_def
  by (auto simp: and_then_def from_result_def succeed_def registry_read_result registry_write_result
      split: sum.splits option.splits prod.splits)

lemma requestCancellation_effect:
  "snd (requestCancellation clock runId reason t s) = s \<or>
   (\<exists>r now. s runId = Some r \<and> \<not> isTerminalRuntimeRunStatus (rr_status r) \<and> lc_cancellation (rr_lifecycle r) = None
     \<and> snd (requestCancellation clock runId reason t s) = s(rr_runId r \<mapsto> cancelled_record now reason r))"
  unfolding requestCancellation_def
  by (auto simp: and_then_def from_result_def succeed_def registry_read_result registry_write_result Let_def
      split: sum.splits option.splits prod.splits if_splits)

lemma registry_create_effect:
  "snd (registry_create clock fresh options s) = s \<or>
   (assertSafeRunId (rr_runId (created_record clock fresh options)) = Inr ()
     \<and> snd (registry_create clock fresh options s)
       = s(rr_runId (created_record clock fresh options) \<mapsto> created_record clock fresh options))"
  by (auto simp: registry_create_def and_then_def succeed_def registry_write_result Let_def split: sum.splits prod.splits)

text \<open>What a call may do to the record of one run.\<close>

definition status_step :: "(run_status \<times> run_status) set" where
  "status_step = {(a, b). b \<in> set (runtimeRunStatusTransitions a)}"

definition run_follows :: "run_record \<Rightarrow> run_record \<Rightarrow> bool" where
  "run_follows r r' \<longleftrightarrow> (rr_status r, rr_status r') \<in> status_step\<^sup>*
     \<and> (lc_cancellation (rr_lifecycle r) \<noteq> None \<longrightarrow> lc_cancellation (rr_lifecycle r') = lc_cancellation (rr_lifecycle r))
     \<and> cl_attempts (lc_cleanup (rr_lifecycle r)) \<le> cl_attempts (lc_cleanup (rr_lifecycle r'))
     \<and> rr_createdAt r' = rr_createdAt r"

lemma run_follows_refl [simp]: "run_follows r r"
  by (simp add: run_follows_def)

lemma run_follows_trans: "run_follows a b \<Longrightarrow> run_follows b c \<Longrightarrow> run_follows a c"
  unfolding run_follows_def by (auto intro: rtrancl_trans)

lemma transition_step: "transitionRuntimeRunStatus a b = Inr c \<Longrightarrow> (a, c) \<in> status_step\<^sup>*"
  by (auto simp: transitionRuntimeRunStatus_def Let_def status_step_def split: if_splits)

lemma terminal_final: "(a, b) \<in> status_step\<^sup>* \<Longrightarrow> isTerminalRuntimeRunStatus a \<Longrightarrow> b = a"
  by (induction rule: converse_rtrancl_induct) (auto simp: status_step_def isTerminalRuntimeRunStatus_def)

lemma updated_follows: "updated_record clock r update = Inr r' \<Longrightarrow> run_follows r r'"
  using updated_record_fields transition_step unfolding run_follows_def by metis

lemma update_call:
  assumes "registry_wf s"
  shows "registry_wf (snd (registry_update clock runId update s))
    \<and> (\<forall>i r. s i = Some r \<longrightarrow> (\<exists>r'. snd (registry_update clock runId update s) i = Some r' \<and> run_follows r r'))"
  using registry_update_effect [of clock runId update s]
proof (elim disjE exE conjE)
  fix r r' assume r: "s runId = Some r" "updated_record clock r update = Inr r'"
    and eq: "snd (registry_update clock runId update s) = s(rr_runId r' \<mapsto> r')"
  from assms r(1) have wf: "rr_runId r = runId" "record_wf r" by (auto simp: registry_wf_def)
  note f = updated_record_fields [OF r(2)] updated_follows [OF r(2)]
  show ?thesis unfolding eq using assms r(1) wf f by (auto simp: registry_wf_def)
qed (use assms in simp)

lemma cancel_call:
  assumes "registry_wf s"
  shows "registry_wf (snd (requestCancellation clock runId reason t s))
    \<and> (\<forall>i r. s i = Some r \<longrightarrow> (\<exists>r'. snd (requestCancellation clock runId reason t s) i = Some r' \<and> run_follows r r'))"
  using requestCancellation_effect [of clock runId reason t s]
proof (elim disjE exE conjE)
  fix r now assume r: "s runId = Some r" "lc_cancellation (rr_lifecycle r) = None"
    and eq: "snd (requestCancellation clock runId reason t s) = s(rr_runId r \<mapsto> cancelled_record now reason r)"
  from assms r(1) have wf: "rr_runId r = runId" "record_wf r" by (auto simp: registry_wf_def)
  then have "record_wf (cancelled_record now reason r)" unfolding cancelled_record_fields(6) by (simp add: record_wf_def)
  moreover have "run_follows r (cancelled_record now reason r)" using r(2) by (simp add: run_follows_def)
  ultimately show ?thesis unfolding eq using assms r(1) wf by (auto simp: registry_wf_def)
qed (use assms in simp)

lemma registry_call_ok:
  assumes "registry_wf s"
  shows "registry_wf (registry_perform c s)
    \<and> (\<forall>i r. s i = Some r \<longrightarrow> \<not> creates i c \<longrightarrow> (\<exists>r'. registry_perform c s i = Some r' \<and> run_follows r r'))"
proof (cases "(c, s)" rule: registry_perform.cases)
  case (1 clock fresh options t)
  with registry_create_effect [of clock fresh options s] assms show ?thesis
    by (auto simp: registry_wf_def created_wf split: if_splits)
qed (use assms update_call cancel_call in \<open>auto simp: registry_read_result registry_heartbeat_def\<close>)

lemma registry_run_ok:
  "registry_wf s \<Longrightarrow> registry_wf (registry_run calls s)
    \<and> (\<forall>r. s i = Some r \<longrightarrow> (\<forall>c \<in> set calls. \<not> creates i c) \<longrightarrow>
        (\<exists>r'. registry_run calls s i = Some r' \<and> run_follows r r'))"
proof (induction calls arbitrary: s)
  case (Cons c calls)
  note one = registry_call_ok [OF Cons.prems, of c]
  note rest = Cons.IH [OF one [THEN conjunct1]]
  show ?case
  proof (intro conjI allI impI)
    show "registry_wf (registry_run (c # calls) s)" using rest by (simp add: registry_run_def)
    fix r assume "s i = Some r" and none: "\<forall>d \<in> set (c # calls). \<not> creates i d"
    with one obtain r1 where r1: "registry_perform c s i = Some r1" "run_follows r r1" by (meson list.set_intros(1))
    with rest none obtain r2 where "registry_run calls (registry_perform c s) i = Some r2" "run_follows r1 r2" by auto
    with r1 show "\<exists>r'. registry_run (c # calls) s i = Some r' \<and> run_follows r r'"
      by (auto simp: registry_run_def intro: run_follows_trans)
  qed
qed (simp add: registry_run_def)

section \<open>Properties of the registry\<close>


definition sample_create :: run_create_options where
  "sample_create = \<lparr>co_runId = Some ''r1'', co_status = None, co_runtime = None, co_preview = None, co_metadata = None,
     co_result = None, co_retention = None, co_replay = None, co_artifactRefs = None, co_now = None\<rparr>"

definition sample_run :: run_record where
  "sample_run = created_record ''t0'' ''r0'' sample_create"

definition sample_registry :: registry where
  "sample_registry = [''r1'' \<mapsto> sample_run]"

definition status_update :: "run_status \<Rightarrow> run_update" where
  "status_update status = (heartbeat_update ''t'')\<lparr>ru_status := Some status\<rparr>"

lemma sample_run_safe: "rr_runId sample_run = ''r1''" "assertSafeRunId ''r1'' = Inr ()"
  by (simp add: sample_run_def sample_create_def created_record_def Let_def) code_simp

lemma sample_registry_wf: "registry_wf sample_registry"
  using created_wf [of "''t0''" "''r0''" sample_create] sample_run_safe
  by (auto simp: registry_wf_def sample_registry_def sample_run_def split: if_splits)


text \<open>
  A cancellation request can be lost.  \<open>update\<close> reads, computes and writes the whole record
  without a lock.  When a heartbeat has read the record of a live run, a request for cancellation from
  another process is then granted and stored, and the heartbeat writes afterwards, the stored record
  does not show the request any more.
\<close>

lemma heartbeat_loses_cancellation:
  assumes "registry_wf s" and "s i = Some r" and "\<not> isTerminalRuntimeRunStatus (rr_status r)"
    and "lc_cancellation (rr_lifecycle r) = None"
  shows "\<exists>answer stale. fst (requestCancellation clock i reason None s) = Inr answer \<and> cx_cancellationRequested answer
    \<and> updated_record later r (heartbeat_update later) = Inr stale
    \<and> (\<exists>r'. snd (registry_write stale (snd (requestCancellation clock i reason None s))) i = Some r'
         \<and> \<not> lc_cancelRequested (rr_lifecycle r') \<and> lc_cancellation (rr_lifecycle r') = None)"
proof -
  from assms(1,2) have wf: "rr_runId r = i" "assertSafeRunId i = Inr ()" by (auto simp: registry_wf_def record_wf_def)
  have "\<exists>stale. updated_record later r (heartbeat_update later) = Inr stale"
    by (simp add: updated_record_def heartbeat_update_def transitionRuntimeRunStatus_def Let_def)
  then obtain stale where stale: "updated_record later r (heartbeat_update later) = Inr stale" ..
  note f = updated_record_fields [OF stale]
  have "record_wf stale" using f(6) assms(1,2) by (auto simp: registry_wf_def)
  then have "lc_cancelRequested (rr_lifecycle stale) = (lc_cancellation (rr_lifecycle stale) \<noteq> None)"
    by (metis record_wf_def coherent_lifecycle_def buildRuntimeRunLifecycle_simps(3))
  moreover have "\<exists>answer. fst (requestCancellation clock i reason None s) = Inr answer \<and> cx_cancellationRequested answer"
    using assms wf by (simp add: requestCancellation_def and_then_def from_result_def registry_read_result
        registry_write_result succeed_def Let_def)
  ultimately show ?thesis using stale f(1,4) assms(4) wf by (auto simp: registry_write_result)
qed

lemma heartbeat_loses_cancellation_sample:
  "\<exists>stale r'. snd (registry_write stale (snd (requestCancellation ''t1'' ''r1'' None None sample_registry))) ''r1'' = Some r'
    \<and> \<not> lc_cancelRequested (rr_lifecycle r')"
proof -
  have "sample_registry ''r1'' = Some sample_run" by (simp add: sample_registry_def)
  moreover have "\<not> isTerminalRuntimeRunStatus (rr_status sample_run)" "lc_cancellation (rr_lifecycle sample_run) = None"
    by (simp_all add: sample_run_def sample_create_def created_record_def Let_def isTerminalRuntimeRunStatus_def)
  ultimately show ?thesis using heartbeat_loses_cancellation [OF sample_registry_wf] by blast
qed

end
