(* ===== verification/Artifact_Digest.thy ===== *)
theory Artifact_Digest
  imports Js_Conversions
begin

text \<open>
  \<open>normalizeArtifactDigest\<close> of \<open>packages/runtime-core/src/artifact-references.ts\<close>: a digest is given as
  a string, as an object with \<open>algorithm\<close> and \<open>value\<close>, or nested under \<open>sha256\<close> or \<open>digest\<close>; and the
  references to artifact bundles that \<open>run-registry.ts\<close> builds with it.  The result is the SHA-256
  value, the algorithm being the same in every branch.
\<close>

lemma size_js_get [termination_simp]:
  "size (js_get obj k) < Suc (size_list (\<lambda>x. Suc (size (snd x))) obj)"
  by (induction obj) (auto simp: less_Suc_eq split: if_splits)

fun normalizeArtifactDigest :: "jsval \<Rightarrow> string option" where
  "normalizeArtifactDigest (JStr s) = (if s \<noteq> [] then Some s else None)"
| "normalizeArtifactDigest (JObj obj) =
     (case js_get obj ''value'' of
        JStr v \<Rightarrow>
          if js_get obj ''algorithm'' = JStr ''sha256'' \<and> v \<noteq> [] then Some v
          else (case normalizeArtifactDigest (js_get obj ''sha256'') of
                  Some d \<Rightarrow> Some d | None \<Rightarrow> normalizeArtifactDigest (js_get obj ''digest''))
      | _ \<Rightarrow> (case normalizeArtifactDigest (js_get obj ''sha256'') of
                Some d \<Rightarrow> Some d | None \<Rightarrow> normalizeArtifactDigest (js_get obj ''digest'')))"
| "normalizeArtifactDigest _ = None"

lemma normalizeArtifactDigest_nonempty: "normalizeArtifactDigest v = Some d \<Longrightarrow> d \<noteq> []"
  by (induction v rule: normalizeArtifactDigest.induct) (auto split: if_splits jsval.splits option.splits)

text \<open>A digest that was normalized and written out as an object is recognised again.\<close>

lemma normalizeArtifactDigest_again:
  "normalizeArtifactDigest v = Some d \<Longrightarrow>
   normalizeArtifactDigest (JObj [(''algorithm'', JStr ''sha256''), (''value'', JStr d)]) = Some d"
  using normalizeArtifactDigest_nonempty by simp

section \<open>References of a run to its artifact bundle\<close>

record artifact_ref =
  af_kind :: string
  af_path :: "string option"
  af_directory :: "string option"
  af_id :: "string option"
  af_digest :: "string option"

record preview_evidence =
  pe_kind :: string
  pe_path :: string
  pe_sha256 :: jsval

record artifact_bundle =
  ab_id :: string
  ab_directory :: string
  ab_contentDigest :: jsval
  ab_previewSessionEvidenceRef :: "preview_evidence option"

definition artifactBundleRunRef :: "artifact_bundle option \<Rightarrow> artifact_ref list" where
  "artifactBundleRunRef bundle =
     (case bundle of
        None \<Rightarrow> []
      | Some b \<Rightarrow>
          \<lparr>af_kind = ''artifact-bundle'', af_path = None, af_directory = Some (ab_directory b), af_id = Some (ab_id b),
            af_digest = normalizeArtifactDigest (ab_contentDigest b)\<rparr>
          # (case ab_previewSessionEvidenceRef b of
               None \<Rightarrow> []
             | Some e \<Rightarrow> [\<lparr>af_kind = pe_kind e, af_path = Some (pe_path e), af_directory = None,
                 af_id = Some (ab_id b @ '':preview-session-evidence''),
                 af_digest = normalizeArtifactDigest (pe_sha256 e)\<rparr>]))"

lemma artifactBundleRunRef_ids: "distinct (map af_id (artifactBundleRunRef bundle))"
  by (auto simp: artifactBundleRunRef_def split: option.splits)

end
