(* ===== verification/Chunk_Reduction.thy ===== *)
theory Chunk_Reduction
  imports Js_Conversions "HOL-Library.Sublist"
begin

text \<open>
  The reduction loop that \<open>fuzz-case-minimizer.ts\<close> and \<open>adversarial-campaign.ts\<close> share in shape: try to
  remove a chunk of a sequence, restart with the shorter sequence when the failure persists, and halve
  the chunk when no removal does.  The test of a candidate runs the program under test, so it is an
  effect on a state: it sees the bounds of the removed range and the candidate.
\<close>

type_synonym ('a, 's) reduction_test = "nat \<Rightarrow> nat \<Rightarrow> 'a list \<Rightarrow> 's \<Rightarrow> bool \<times> 's"

text \<open>
  One pass over the starting positions of a chunk size.  The outer loop runs it with a positive chunk
  only; for an empty chunk the pass would not end in the source, here it stops.
\<close>

function chunk_pass :: "('a, 's) reduction_test \<Rightarrow> nat \<Rightarrow> nat \<Rightarrow> 'a list \<Rightarrow> 's \<Rightarrow> 'a list option \<times> 's" where
  "chunk_pass test chunk start xs s =
     (if start < length xs \<and> length xs > 1 \<and> chunk \<ge> 1
      then let stop = min (length xs) (start + chunk);
               candidate = take start xs @ drop stop xs
           in if length candidate = 0 \<or> length candidate = length xs then chunk_pass test chunk (start + chunk) xs s
              else case test start stop candidate s of
                     (True, t) \<Rightarrow> (Some candidate, t)
                   | (False, t) \<Rightarrow> chunk_pass test chunk (start + chunk) xs t
      else (None, s))"
  by pat_completeness auto

termination chunk_pass
  by (relation "measure (\<lambda>(test, chunk, start, xs, s). length xs - start)") auto

declare chunk_pass.simps [simp del]

abbreviation chunk_left :: "nat \<Rightarrow> nat \<Rightarrow> 'a list \<Rightarrow> bool" where
  "chunk_left chunk start xs \<equiv> start < length xs \<and> length xs > 1 \<and> chunk \<ge> 1"

definition without_chunk :: "nat \<Rightarrow> nat \<Rightarrow> 'a list \<Rightarrow> 'a list" where
  "without_chunk start chunk xs = take start xs @ drop (min (length xs) (start + chunk)) xs"

lemma without_chunk_shorter: "chunk_left chunk start xs \<Longrightarrow> length (without_chunk start chunk xs) < length xs"
  by (auto simp: without_chunk_def min_def)

lemma without_chunk_subseq: "subseq (without_chunk start chunk xs) xs"
proof -
  let ?j = "min (length xs) (start + chunk)"
  have "drop ?j xs = drop (?j - min (length xs) start) (drop start xs)" by (auto simp: min_def)
  then have "subseq (drop ?j xs) (drop start xs)" using suffix_drop suffix_imp_subseq by metis
  then show ?thesis unfolding without_chunk_def by (metis append_take_drop_id list_emb_append_mono subseq_order.refl)
qed

lemma chunk_pass_end: "\<not> chunk_left chunk start xs \<Longrightarrow> chunk_pass test chunk start xs s = (None, s)"
  by (subst chunk_pass.simps) auto

lemma chunk_pass_skip:
  "chunk_left chunk start xs \<Longrightarrow> without_chunk start chunk xs = [] \<Longrightarrow> chunk_pass test chunk start xs s = (None, s)"
  by (subst chunk_pass.simps) (auto simp: without_chunk_def Let_def chunk_pass_end)

lemma chunk_pass_try:
  assumes "chunk_left chunk start xs" and "without_chunk start chunk xs \<noteq> []"
    and "test start (min (length xs) (start + chunk)) (without_chunk start chunk xs) s = (b, u)"
  shows "chunk_pass test chunk start xs s =
    (if b then (Some (without_chunk start chunk xs), u) else chunk_pass test chunk (start + chunk) xs u)"
  using assms without_chunk_shorter [OF assms(1)] unfolding without_chunk_def
  by (subst chunk_pass.simps) (auto simp: Let_def)

text \<open>The rule to reason about a pass: it stops, finds, or goes on after a failed test.\<close>

lemma chunk_pass_induct [case_names stop found failed]:
  assumes "\<And>start s. \<not> chunk_left chunk start xs \<or> without_chunk start chunk xs = [] \<Longrightarrow> P start s (None, s)"
    and "\<And>start s t. chunk_left chunk start xs \<Longrightarrow> without_chunk start chunk xs \<noteq> [] \<Longrightarrow>
      test start (min (length xs) (start + chunk)) (without_chunk start chunk xs) s = (True, t) \<Longrightarrow>
      P start s (Some (without_chunk start chunk xs), t)"
    and "\<And>start s t. chunk_left chunk start xs \<Longrightarrow> without_chunk start chunk xs \<noteq> [] \<Longrightarrow>
      test start (min (length xs) (start + chunk)) (without_chunk start chunk xs) s = (False, t) \<Longrightarrow>
      P (start + chunk) t (chunk_pass test chunk (start + chunk) xs t) \<Longrightarrow>
      P start s (chunk_pass test chunk (start + chunk) xs t)"
  shows "P start s (chunk_pass test chunk start xs s)"
proof (induction "length xs - start" arbitrary: start s rule: less_induct)
  case less
  show ?case
  proof (cases "chunk_left chunk start xs \<and> without_chunk start chunk xs \<noteq> []")
    case False
    then show ?thesis using assms(1) [of start s] chunk_pass_end chunk_pass_skip by metis
  next
    case True
    then have left: "chunk_left chunk start xs" and ne: "without_chunk start chunk xs \<noteq> []" by auto
    obtain b t where b: "test start (min (length xs) (start + chunk)) (without_chunk start chunk xs) s = (b, t)" by fastforce
    note step = chunk_pass_try [where test = test and s = s and b = b and u = t, OF left ne b]
    show ?thesis
    proof (cases b)
      case True
      with step assms(2) [OF left ne] b show ?thesis by simp
    next
      case False
      have "P (start + chunk) t (chunk_pass test chunk (start + chunk) xs t)" by (rule less) (use left in auto)
      from assms(3) [OF left ne _ this] b False step show ?thesis by simp
    qed
  qed
qed

lemma chunk_pass_found:
  assumes "chunk_pass test chunk start xs s = (Some ys, t)"
  shows "length ys < length xs \<and> ys \<noteq> [] \<and> subseq ys xs \<and> (\<exists>i j u. test i j ys u = (True, t))"
proof -
  have "chunk_pass test chunk start xs s = (Some ys, t) \<longrightarrow>
      length ys < length xs \<and> ys \<noteq> [] \<and> subseq ys xs \<and> (\<exists>i j u. test i j ys u = (True, t))"
  proof (rule chunk_pass_induct [where P = "\<lambda>start s r. r = (Some ys, t) \<longrightarrow>
      length ys < length xs \<and> ys \<noteq> [] \<and> subseq ys xs \<and> (\<exists>i j u. test i j ys u = (True, t))"])
    fix start s u
    assume "chunk_left chunk start xs" "without_chunk start chunk xs \<noteq> []"
      "test start (min (length xs) (start + chunk)) (without_chunk start chunk xs) s = (True, u)"
    then show "(Some (without_chunk start chunk xs), u) = (Some ys, t) \<longrightarrow>
        length ys < length xs \<and> ys \<noteq> [] \<and> subseq ys xs \<and> (\<exists>i j u. test i j ys u = (True, t))"
      using without_chunk_shorter without_chunk_subseq by blast
  qed simp_all
  with assms show ?thesis by blast
qed

function chunk_loop :: "('a, 's) reduction_test \<Rightarrow> nat \<Rightarrow> 'a list \<Rightarrow> 's \<Rightarrow> 'a list \<times> 's" where
  "chunk_loop test chunk xs s =
     (if chunk \<ge> 1
      then case chunk_pass test chunk 0 xs s of
             (Some ys, t) \<Rightarrow> chunk_loop test chunk ys t
           | (None, t) \<Rightarrow> chunk_loop test (chunk div 2) xs t
      else (xs, s))"
  by pat_completeness auto

termination chunk_loop
  by (relation "measures [\<lambda>(test, chunk, xs, s). length xs, \<lambda>(test, chunk, xs, s). chunk]")
     (auto dest: chunk_pass_found [OF sym])

declare chunk_loop.simps [simp del]

definition first_chunk :: "'a list \<Rightarrow> nat" where
  "first_chunk xs = max 1 (length xs div 2)"

section \<open>What a reduction guarantees\<close>

lemma chunk_loop_step:
  "chunk \<ge> 1 \<Longrightarrow> chunk_pass test chunk 0 xs s = (Some ys, t) \<Longrightarrow> chunk_loop test chunk xs s = chunk_loop test chunk ys t"
  "chunk \<ge> 1 \<Longrightarrow> chunk_pass test chunk 0 xs s = (None, t) \<Longrightarrow> chunk_loop test chunk xs s = chunk_loop test (chunk div 2) xs t"
  "chunk_loop test 0 xs s = (xs, s)"
  by (subst chunk_loop.simps; simp)+

text \<open>The loop yields a subsequence, and one that passed a test unless it is the whole sequence.\<close>

lemma chunk_loop_subseq:
  "chunk_loop test chunk xs s = (ys, t) \<Longrightarrow>
   subseq ys xs \<and> (xs \<noteq> [] \<longrightarrow> ys \<noteq> []) \<and> (ys = xs \<or> (\<exists>i j u v. test i j ys u = (True, v)))"
proof (induction test chunk xs s arbitrary: ys t rule: chunk_loop.induct)
  case (1 test chunk xs s)
  show ?case
  proof (cases "chunk \<ge> 1")
    case True
    obtain found u where pass: "chunk_pass test chunk 0 xs s = (found, u)" by fastforce
    show ?thesis
    proof (cases found)
      case None
      with pass chunk_loop_step(2) [OF True] 1(3) have "chunk_loop test (chunk div 2) xs u = (ys, t)" by metis
      from 1(1) [OF True pass [symmetric] None this] show ?thesis .
    next
      case (Some zs)
      with pass chunk_loop_step(1) [OF True] 1(3) have run: "chunk_loop test chunk zs u = (ys, t)" by metis
      from 1(2) [OF True pass [symmetric] Some run] chunk_pass_found [of test chunk 0 xs s zs u] pass Some
      show ?thesis by (auto intro: subseq_order.trans)
    qed
  next
    case False
    with 1(3) show ?thesis by (subst (asm) chunk_loop.simps) auto
  qed
qed

text \<open>
  A test is steady when its verdict depends on the candidate only.  Then the last pass has tried to
  remove every single element, and none could be removed.
\<close>

definition steady :: "('a, 's) reduction_test \<Rightarrow> ('a list \<Rightarrow> bool) \<Rightarrow> bool" where
  "steady test verdict \<longleftrightarrow> (\<forall>i j ys s. fst (test i j ys s) = verdict ys)"

lemma chunk_pass_none:
  assumes "steady test verdict" and "chunk_pass test 1 start xs s = (None, t)" and "length xs > 1"
    and "start \<le> i" and "i < length xs"
  shows "\<not> verdict (take i xs @ drop (Suc i) xs)"
proof -
  have "r = (None, t) \<longrightarrow> start \<le> i \<longrightarrow> \<not> verdict (take i xs @ drop (Suc i) xs)"
    if "r = chunk_pass test 1 start xs s" for r
    unfolding that
  proof (rule chunk_pass_induct [where P = "\<lambda>start s r. r = (None, t) \<longrightarrow> start \<le> i \<longrightarrow>
      \<not> verdict (take i xs @ drop (Suc i) xs)"])
    fix start s
    assume "\<not> chunk_left 1 start xs \<or> without_chunk start 1 xs = []"
    with assms(3,5) show "(None, s) = (None, t) \<longrightarrow> start \<le> i \<longrightarrow> \<not> verdict (take i xs @ drop (Suc i) xs)"
      by (auto simp: without_chunk_def)
  next
    fix start s u
    assume left: "chunk_left 1 start xs" and fail: "test start (min (length xs) (start + 1)) (without_chunk start 1 xs) s = (False, u)"
      and rest: "chunk_pass test 1 (start + 1) xs u = (None, t) \<longrightarrow> start + 1 \<le> i \<longrightarrow> \<not> verdict (take i xs @ drop (Suc i) xs)"
    from assms(1) fail have "\<not> verdict (without_chunk start 1 xs)" unfolding steady_def by (metis fst_conv)
    moreover have "without_chunk start 1 xs = take start xs @ drop (Suc start) xs"
      using left by (simp add: without_chunk_def min_def)
    ultimately show "chunk_pass test 1 (start + 1) xs u = (None, t) \<longrightarrow> start \<le> i \<longrightarrow> \<not> verdict (take i xs @ drop (Suc i) xs)"
      using rest by (cases "start = i") auto
  qed simp
  with assms show ?thesis by blast
qed

lemma chunk_loop_minimal:
  "steady test verdict \<Longrightarrow> chunk \<ge> 1 \<Longrightarrow> chunk_loop test chunk xs s = (ys, t) \<Longrightarrow> length ys > 1 \<Longrightarrow> i < length ys \<Longrightarrow>
   \<not> verdict (take i ys @ drop (Suc i) ys)"
proof (induction test chunk xs s arbitrary: ys t rule: chunk_loop.induct)
  case (1 test chunk xs s)
  obtain found u where pass: "chunk_pass test chunk 0 xs s = (found, u)" by fastforce
  show ?case
  proof (cases found)
    case (Some zs)
    with pass chunk_loop_step(1) [OF 1(4)] 1(5) have "chunk_loop test chunk zs u = (ys, t)" by metis
    from 1(2) [OF 1(4) pass [symmetric] Some 1(3,4) this 1(6,7)] show ?thesis .
  next
    case None
    with pass chunk_loop_step(2) [OF 1(4)] 1(5) have run: "chunk_loop test (chunk div 2) xs u = (ys, t)" by metis
    show ?thesis
    proof (cases "chunk = 1")
      case True
      with run have "ys = xs" by (simp add: chunk_loop_step(3))
      with True None pass chunk_pass_none [OF 1(3), of 0 xs s u i] 1(6,7) show ?thesis by simp
    next
      case False
      with 1(4) have "chunk div 2 \<ge> 1" by (simp add: div_greater_zero_iff)
      from 1(1) [OF 1(4) pass [symmetric] None 1(3) this run 1(6,7)] show ?thesis .
    qed
  qed
qed

text \<open>An invariant of the state that every test keeps, the loop keeps.\<close>

lemma chunk_pass_keeps:
  assumes "\<And>i j c s. I s \<Longrightarrow> I (snd (test i j c s))"
  shows "I s \<longrightarrow> I (snd (chunk_pass test chunk start xs s))"
proof (rule chunk_pass_induct [where P = "\<lambda>start s r. I s \<longrightarrow> I (snd r)"])
  fix start s t
  assume "test start (min (length xs) (start + chunk)) (without_chunk start chunk xs) s = (True, t)"
  with assms show "I s \<longrightarrow> I (snd (Some (without_chunk start chunk xs), t))" by (metis snd_conv)
next
  fix start s t
  assume "test start (min (length xs) (start + chunk)) (without_chunk start chunk xs) s = (False, t)"
    and "I t \<longrightarrow> I (snd (chunk_pass test chunk (start + chunk) xs t))"
  with assms show "I s \<longrightarrow> I (snd (chunk_pass test chunk (start + chunk) xs t))" by (metis snd_conv)
qed simp

lemma chunk_loop_keeps:
  assumes "\<And>i j c s. I s \<Longrightarrow> I (snd (test i j c s))"
  shows "I s \<Longrightarrow> I (snd (chunk_loop test chunk xs s))"
  using assms
proof (induction test chunk xs s rule: chunk_loop.induct)
  case (1 test chunk xs s)
  obtain found u where pass: "chunk_pass test chunk 0 xs s = (found, u)" by fastforce
  have u: "I u" using chunk_pass_keeps [of I test s chunk 0 xs] 1(3,4) pass by simp
  show ?case
  proof (cases "chunk \<ge> 1")
    case True
    show ?thesis
    proof (cases found)
      case None
      from 1(1) [OF True pass [symmetric] None u 1(4)] None True pass show ?thesis by (simp add: chunk_loop_step(2))
    next
      case (Some ys)
      from 1(2) [OF True pass [symmetric] Some u 1(4)] Some True pass show ?thesis by (simp add: chunk_loop_step(1))
    qed
  next
    case False
    then have "chunk = 0" by simp
    with 1(3) show ?thesis by (simp add: chunk_loop_step(3))
  qed
qed

end
