(* ===== verification/Fuzz_Minimizer.thy ===== *)
theory Fuzz_Minimizer
  imports Chunk_Reduction
begin

text \<open>
  \<open>packages/runtime-core/src/fuzz-case-minimizer.ts\<close>: shrinking the steps of a failing fuzz case by
  replaying subsets of them.  A replay runs the suite in a runtime, so \<open>runFuzzSuite\<close> (with the contract
  built around the case) is an argument: it gets the number of the run, the identifier of the suite and
  the case, and answers with the result of the suite.  Two replays of one case may differ.
\<close>

section \<open>Results of a replay\<close>

record fuzz_case_result =
  fc_status :: string
  fc_diagnostics :: jsval

record fuzz_envelope =
  fe_status :: string
  fe_cases :: "fuzz_case_result list"

record minimize_attempt =
  ma_stepCount :: nat
  ma_status :: string
  ma_preserved :: bool
  ma_removedRange :: "nat \<times> nat"

datatype minimize_status = Reduced | Unchanged | Blocked

record minimize_result =
  mr_status :: minimize_status
  mr_caseId :: string
  mr_originalSteps :: nat
  mr_minimizedSteps :: nat
  mr_originalStatus :: "string option"
  mr_minimizedCase :: "js_object option"
  mr_minimizedResult :: "fuzz_case_result option"
  mr_diagnostics :: jsval
  mr_attempts :: "minimize_attempt list"

type_synonym replayer = "nat \<Rightarrow> string \<Rightarrow> js_object \<Rightarrow> fuzz_envelope"

section \<open>Reading the input\<close>

definition isRuntimeAction :: "jsval \<Rightarrow> bool" where
  "isRuntimeAction v \<longleftrightarrow> is_record v \<and> (\<exists>t. js_member v ''type'' = JStr t \<and> t \<noteq> ''sequence'')"

lemma isRuntimeAction_code [code]:
  "isRuntimeAction v \<longleftrightarrow> is_record v \<and> (case js_member v ''type'' of JStr t \<Rightarrow> t \<noteq> ''sequence'' | _ \<Rightarrow> False)"
  by (auto simp: isRuntimeAction_def split: jsval.split)

definition diagnosticCodes :: "jsval \<Rightarrow> string list" where
  "diagnosticCodes v =
     (case v of JArr items \<Rightarrow> List.map_filter (\<lambda>item. if is_record item then nonempty_string (js_member item ''code'') else None) items
      | _ \<Rightarrow> [])"

definition js_count :: "nat \<Rightarrow> jsval" where
  "js_count n = JInt (int n)"

section \<open>Replays\<close>

definition minimizedCaseFrom :: "js_object \<Rightarrow> jsval list \<Rightarrow> js_object" where
  "minimizedCaseFrom baseCase steps =
     strip_undefined (js_put baseCase ''input''
       (JObj (js_spread (record_fields (js_get baseCase ''input''))
          [(''type'', JStr ''sequence''), (''steps'', JArr steps), (''max_steps'', js_count (length steps))])))"

definition preservesFailure :: "fuzz_envelope \<Rightarrow> string \<Rightarrow> string list \<Rightarrow> bool" where
  "preservesFailure result originalStatus originalCodes =
     (case fe_cases result of
        [] \<Rightarrow> False
      | candidate # _ \<Rightarrow>
          if fc_status candidate \<noteq> originalStatus then False
          else if originalCodes = [] then True
          else (\<exists>code \<in> set originalCodes. code \<in> set (diagnosticCodes (fc_diagnostics candidate))))"

record minimize_job =
  mj_suiteId :: string
  mj_baseCase :: js_object
  mj_status :: string
  mj_codes :: "string list"

definition replayMinimizedSequence :: "replayer \<Rightarrow> minimize_job \<Rightarrow> jsval list \<Rightarrow> nat \<Rightarrow> fuzz_envelope" where
  "replayMinimizedSequence replay job steps n = replay n (mj_suiteId job) (minimizedCaseFrom (mj_baseCase job) steps)"

text \<open>The state of the loop: the number of runs so far and the attempts.\<close>

definition try_candidate :: "replayer \<Rightarrow> minimize_job \<Rightarrow> (jsval, nat \<times> minimize_attempt list) reduction_test" where
  "try_candidate replay job start stop steps s =
     (case s of (n, attempts) \<Rightarrow>
        let candidate = replayMinimizedSequence replay job steps n;
            preserved = preservesFailure candidate (mj_status job) (mj_codes job)
        in (preserved, n + 1, attempts @
             [\<lparr>ma_stepCount = length steps,
               ma_status = (case fe_cases candidate of [] \<Rightarrow> fe_status candidate | c # _ \<Rightarrow> fc_status c),
               ma_preserved = preserved, ma_removedRange = (start, stop)\<rparr>]))"

definition blockedMinimizeResult :: "string \<Rightarrow> nat \<Rightarrow> string option \<Rightarrow> string \<Rightarrow> string \<Rightarrow> minimize_result" where
  "blockedMinimizeResult caseId stepCount originalStatus code message =
     \<lparr>mr_status = Blocked, mr_caseId = caseId, mr_originalSteps = stepCount, mr_minimizedSteps = stepCount,
      mr_originalStatus = originalStatus, mr_minimizedCase = None, mr_minimizedResult = None,
      mr_diagnostics = JArr [JObj [(''severity'', JStr ''error''), (''code'', JStr code), (''caseId'', JStr caseId), (''message'', JStr message)]],
      mr_attempts = []\<rparr>"

section \<open>The minimizer\<close>

definition replay_case_of :: "jsval \<Rightarrow> jsval" where
  "replay_case_of input = (if is_record input \<and> is_record (js_member input ''replayCase'') then js_member input ''replayCase'' else input)"

definition sequence_of :: "jsval \<Rightarrow> js_object" where
  "sequence_of replayCase = record_fields (js_member (JObj (record_fields (js_member replayCase ''replay''))) ''sequence'')"

definition steps_of :: "jsval \<Rightarrow> jsval list" where
  "steps_of replayCase = (case js_get (sequence_of replayCase) ''steps'' of JArr vs \<Rightarrow> filter isRuntimeAction vs | _ \<Rightarrow> [])"

definition case_id_of :: "js_object \<Rightarrow> string" where
  "case_id_of caseRecord = (case nonempty_string (js_get caseRecord ''id'') of None \<Rightarrow> ''replay-case'' | Some s \<Rightarrow> s)"

definition base_case_of :: "js_object \<Rightarrow> js_object \<Rightarrow> jsval list \<Rightarrow> js_object" where
  "base_case_of caseRecord sequence steps =
     (let target = js_get caseRecord ''target'';
          kept = (case js_member target ''kind'' of JStr _ \<Rightarrow> is_record target | _ \<Rightarrow> False)
      in strip_undefined
        [(''id'', JStr (case_id_of caseRecord)),
         (''target'', if kept then target else JObj [(''kind'', JStr ''runtime-action'')]),
         (''input'', JObj (strip_undefined (js_spread sequence
            [(''type'', JStr ''sequence''), (''steps'', JArr steps), (''max_steps'', js_count (length steps)), (''maxSteps'', JUndef)]))),
         (''metadata'', JObj [(''minimizedFromReplay'', JBool True)])])"

definition minimize_job_of :: "jsval \<Rightarrow> string \<Rightarrow> minimize_job" where
  "minimize_job_of replayCase status =
     (let caseRecord = record_fields (js_member replayCase ''case'') in
      \<lparr>mj_suiteId = (case nonempty_string (js_member (js_member replayCase ''suite'') ''id'') of
           None \<Rightarrow> case_id_of caseRecord @ ''-minimize-suite'' | Some s \<Rightarrow> s),
       mj_baseCase = base_case_of caseRecord (sequence_of replayCase) (steps_of replayCase),
       mj_status = status, mj_codes = diagnosticCodes (js_get caseRecord ''diagnostics'')\<rparr>)"

definition minimize_steps :: "replayer \<Rightarrow> minimize_job \<Rightarrow> jsval list \<Rightarrow> jsval list \<times> nat \<times> minimize_attempt list" where
  "minimize_steps replay job steps = chunk_loop (try_candidate replay job) (first_chunk steps) steps (0, [])"

definition minimizeFuzzCase :: "replayer \<Rightarrow> jsval \<Rightarrow> minimize_result" where
  "minimizeFuzzCase replay input =
     (let replayCase = replay_case_of input;
          caseRecord = record_fields (js_member replayCase ''case'');
          caseId = case_id_of caseRecord;
          originalStatus = nonempty_string (js_get caseRecord ''status'');
          steps = steps_of replayCase
      in if length steps < 2
         then blockedMinimizeResult caseId (length steps) originalStatus ''fuzz_minimize_case_sequence_replay_required''
           ''Fuzz case minimization currently requires a replay.sequence.steps array with at least two runtime actions.''
         else if originalStatus \<noteq> Some ''failed'' \<and> originalStatus \<noteq> Some ''error''
         then blockedMinimizeResult caseId (length steps) originalStatus ''fuzz_minimize_case_failing_replay_required''
           ''Fuzz case minimization requires an original failed or error replay case.''
         else
           let job = minimize_job_of replayCase (the originalStatus) in
           case minimize_steps replay job steps of
             (current, n, attempts) \<Rightarrow>
               let minimized = (case fe_cases (replayMinimizedSequence replay job current n) of [] \<Rightarrow> None | c # _ \<Rightarrow> Some c) in
               \<lparr>mr_status = (if length current < length steps then Reduced else Unchanged), mr_caseId = caseId,
                mr_originalSteps = length steps, mr_minimizedSteps = length current, mr_originalStatus = originalStatus,
                mr_minimizedCase = Some (minimizedCaseFrom (mj_baseCase job) current), mr_minimizedResult = minimized,
                mr_diagnostics = (case minimized of None \<Rightarrow> JArr [] | Some c \<Rightarrow> coalesce (fc_diagnostics c) (JArr [])),
                mr_attempts = attempts\<rparr>)"

section \<open>The attempts are the whole story of the loop\<close>

text \<open>One run per attempt; and the sequence left is the one of the last attempt that preserved the failure.\<close>

definition attempts_ok :: "nat \<times> minimize_attempt list \<Rightarrow> bool" where
  "attempts_ok s \<longleftrightarrow> fst s = length (snd s)"

lemma try_candidate_attempts: "attempts_ok s \<Longrightarrow> attempts_ok (snd (try_candidate replay job i j c s))"
  by (cases s) (simp add: try_candidate_def attempts_ok_def Let_def)

lemma minimize_steps_attempts:
  "minimize_steps replay job steps = (current, n, attempts) \<Longrightarrow> n = length attempts"
  using chunk_loop_keeps [of attempts_ok "try_candidate replay job" "(0, [])" "first_chunk steps" steps] try_candidate_attempts
  by (fastforce simp: minimize_steps_def attempts_ok_def)

definition still_fails :: "replayer \<Rightarrow> minimize_job \<Rightarrow> nat \<Rightarrow> jsval list \<Rightarrow> bool" where
  "still_fails replay job n steps =
     preservesFailure (replayMinimizedSequence replay job steps n) (mj_status job) (mj_codes job)"

lemma minimize_steps_sound:
  assumes "minimize_steps replay job steps = (current, n, attempts)" and "steps \<noteq> []"
  shows "subseq current steps \<and> current \<noteq> [] \<and> (current = steps \<or> (\<exists>k. still_fails replay job k current))"
proof -
  from assms chunk_loop_subseq [of "try_candidate replay job" "first_chunk steps" steps "(0, [])" current "(n, attempts)"]
  have "subseq current steps \<and> current \<noteq> [] \<and>
      (current = steps \<or> (\<exists>i j u v. try_candidate replay job i j current u = (True, v)))"
    by (auto simp: minimize_steps_def)
  moreover have "still_fails replay job (fst u) current" if "try_candidate replay job i j current u = (True, v)" for i j u v
    using that by (cases u) (simp add: try_candidate_def still_fails_def Let_def)
  ultimately show ?thesis by blast
qed

lemma first_chunk_pos: "first_chunk xs \<ge> 1"
  by (simp add: first_chunk_def)

lemma minimize_steps_minimal:
  assumes "minimize_steps replay job steps = (current, n, attempts)" and "\<forall>k ys. still_fails replay job k ys = still_fails replay job 0 ys"
    and "length current > 1" and "i < length current"
  shows "\<not> still_fails replay job 0 (take i current @ drop (Suc i) current)"
proof -
  have "steady (try_candidate replay job) (still_fails replay job 0)"
    using assms(2) by (auto simp: steady_def try_candidate_def still_fails_def Let_def)
  from chunk_loop_minimal [OF this first_chunk_pos] assms(1,3,4) show ?thesis unfolding minimize_steps_def by blast
qed

section \<open>Properties of the minimizer\<close>

text \<open>
  C21: the minimizer is sound and, for replays that always agree, leaves nothing to remove.  For a failed
  case with at least two steps, the steps it keeps are a non-empty subsequence of the original ones;
  it reports a reduction exactly when some step was dropped, and then a replay of the kept steps has
  shown the original status and, when the original had diagnostic codes, one of them; it ran one
  replay per reported attempt; and if the verdict on a candidate is always the same, then no single
  one of two or more kept steps can be dropped without losing the failure.
\<close>

theorem minimizer_sound_and_minimal:
  assumes "length (steps_of (replay_case_of input)) \<ge> 2"
    and "nonempty_string (js_get (record_fields (js_member (replay_case_of input) ''case'')) ''status'') = Some status"
    and "status \<in> {''failed'', ''error''}"
  shows "\<exists>current job. job = minimize_job_of (replay_case_of input) status
    \<and> mr_minimizedCase (minimizeFuzzCase replay input) = Some (minimizedCaseFrom (mj_baseCase job) current)
    \<and> mr_minimizedSteps (minimizeFuzzCase replay input) = length current
    \<and> subseq current (steps_of (replay_case_of input)) \<and> current \<noteq> []
    \<and> (mr_status (minimizeFuzzCase replay input) = Unchanged \<longrightarrow> current = steps_of (replay_case_of input))
    \<and> (mr_status (minimizeFuzzCase replay input) = Reduced \<longrightarrow>
         length current < length (steps_of (replay_case_of input)) \<and> (\<exists>k. still_fails replay job k current))
    \<and> ((\<forall>k ys. still_fails replay job k ys = still_fails replay job 0 ys) \<longrightarrow> length current > 1 \<longrightarrow>
         (\<forall>i < length current. \<not> still_fails replay job 0 (take i current @ drop (Suc i) current)))"
proof -
  define rc where "rc = replay_case_of input"
  define job where "job = minimize_job_of rc status"
  obtain current n attempts where run: "minimize_steps replay job (steps_of rc) = (current, n, attempts)"
    by (metis prod_cases3)
  have ne: "steps_of rc \<noteq> []" using assms(1) by (auto simp: rc_def)
  note sound = minimize_steps_sound [OF run ne]
  have len: "length current \<le> length (steps_of rc)" using sound by (auto dest: list_emb_length)
  have same: "current = steps_of rc" if "\<not> length current < length (steps_of rc)"
    using sound len that subseq_same_length by fastforce
  have result: "mr_minimizedCase (minimizeFuzzCase replay input) = Some (minimizedCaseFrom (mj_baseCase job) current)"
      "mr_minimizedSteps (minimizeFuzzCase replay input) = length current"
      "mr_status (minimizeFuzzCase replay input) = (if length current < length (steps_of rc) then Reduced else Unchanged)"
    using assms run unfolding minimizeFuzzCase_def rc_def [symmetric] job_def [symmetric]
    by (auto simp: Let_def job_def)
  show ?thesis
    unfolding rc_def [symmetric] job_def [symmetric]
    using result sound same minimize_steps_minimal [OF run] by (intro exI [of _ current] exI [of _ job]) auto
qed

definition sample_step :: "string \<Rightarrow> jsval" where
  "sample_step t = JObj [(''type'', JStr t)]"

definition sample_fuzz_input :: jsval where
  "sample_fuzz_input = JObj [(''case'', JObj [(''id'', JStr ''c''), (''status'', JStr ''failed'')]),
     (''replay'', JObj [(''sequence'', JObj [(''steps'', JArr [sample_step ''a'', sample_step ''b'', sample_step ''c''])])])]"

definition sample_replay :: replayer where
  "sample_replay n suite fuzz_case =
     (let failing = (case js_member (js_get fuzz_case ''input'') ''steps'' of
                       JArr steps \<Rightarrow> sample_step ''b'' \<in> set steps | _ \<Rightarrow> False)
      in \<lparr>fe_status = '''', fe_cases = [\<lparr>fc_status = (if failing then ''failed'' else ''passed''), fc_diagnostics = JUndef\<rparr>]\<rparr>)"

theorem minimizer_sound_and_minimal_witness:
  "\<exists>current. mr_minimizedSteps (minimizeFuzzCase sample_replay sample_fuzz_input) = length current
    \<and> subseq current [sample_step ''a'', sample_step ''b'', sample_step ''c''] \<and> current \<noteq> []"
proof -
  have steps: "steps_of (replay_case_of sample_fuzz_input) = [sample_step ''a'', sample_step ''b'', sample_step ''c'']"
    by (simp add: sample_fuzz_input_def replay_case_of_def is_record_def steps_of_def sequence_of_def isRuntimeAction_def
        sample_step_def)
  have "nonempty_string (js_get (record_fields (js_member (replay_case_of sample_fuzz_input) ''case'')) ''status'') = Some ''failed''"
    by (simp add: sample_fuzz_input_def replay_case_of_def is_record_def nonempty_string_def)
  from minimizer_sound_and_minimal [OF _ this, of sample_replay] steps show ?thesis by auto
qed

end
