(* ===== verification/Transport_Faults.thy ===== *)
theory Transport_Faults
  imports Redaction "HOL-Library.List_Lexorder" "HOL-Library.AList" "HOL-Library.Sublist"
begin

text \<open>
  \<open>packages/runtime-core/src/transport-faults.ts\<close>: validation of a fault model, the engine that decides
  which fault the next request gets, the evidence it records, negotiation with an adapter, and the
  schedule that is safe to publish.  An outcome is the object the source has, a list of members.

  Arguments stand for what the platform provides: parsing and printing of URLs, the test of a regular
  expression, whether an expression compiles, the first four bytes of a SHA-256 digest, and the
  fingerprint of a JSON value.
\<close>

section \<open>Types\<close>

datatype fault_semantic = Response_substitution | Malformed_response | Truncated_response | Chunked_response
  | Delay | Jitter | Bandwidth | Timeout | Connection_refusal | Connection_reset | Half_close
  | Disconnect_after_bytes | Host_remap | Request_corruption | Response_corruption

fun semantic_name :: "fault_semantic \<Rightarrow> string" where
  "semantic_name Response_substitution = ''response-substitution''"
| "semantic_name Malformed_response = ''malformed-response''"
| "semantic_name Truncated_response = ''truncated-response''"
| "semantic_name Chunked_response = ''chunked-response''"
| "semantic_name Delay = ''delay''"
| "semantic_name Jitter = ''jitter''"
| "semantic_name Bandwidth = ''bandwidth''"
| "semantic_name Timeout = ''timeout''"
| "semantic_name Connection_refusal = ''connection-refusal''"
| "semantic_name Connection_reset = ''connection-reset''"
| "semantic_name Half_close = ''half-close''"
| "semantic_name Disconnect_after_bytes = ''disconnect-after-bytes''"
| "semantic_name Host_remap = ''host-remap''"
| "semantic_name Request_corruption = ''request-corruption''"
| "semantic_name Response_corruption = ''response-corruption''"

datatype fault_fidelity = Exact | Emulated | Unsupported

datatype fault_repeat = Repeat_last | Repeat_cycle | Repeat_none

type_synonym headers = "(string \<times> string) list"

record request_matcher =
  rm_host :: "string option"
  rm_method :: "string option"
  rm_path :: "string option"
  rm_pathPattern :: "string option"
  rm_headers :: "headers option"

type_synonym fault_outcome = js_object

record fault_rule =
  fr_id :: string
  fr_match :: request_matcher
  fr_sequence :: "fault_outcome list"
  fr_repeat :: "fault_repeat option"
  fr_metadata :: "js_object option"

record fault_model =
  fm_schema :: "string option"
  fm_seed :: string
  fm_rules :: "fault_rule list"
  fm_redactHeaders :: "string list option"
  fm_metadata :: "js_object option"

record fault_capability =
  ft_semantic :: fault_semantic
  ft_fidelity :: fault_fidelity
  ft_reason :: "string option"

record fault_capabilities =
  fs_adapter :: string
  fs_capabilities :: "fault_capability list"

record fault_negotiation =
  ng_supported :: bool
  ng_required :: "fault_semantic list"
  ng_unsupported :: "fault_capability list"
  ng_capabilities :: fault_capabilities

record fault_request =
  fq_url :: string
  fq_method :: string
  fq_headers :: "headers option"
  fq_bodyBytes :: "nat option" \<comment> \<open>what \<open>transportBodyBytes\<close> makes of the body\<close>

record fault_decision =
  fd_ruleId :: string
  fd_sequenceIndex :: nat
  fd_invocation :: nat
  fd_outcome :: fault_outcome
  fd_semantics :: "fault_semantic list"
  fd_delayMs :: rat

record url_parts =
  up_host :: string
  up_hostname :: string
  up_pathname :: string
  up_username :: string
  up_password :: string
  up_query :: headers \<comment> \<open>the entries of \<open>searchParams\<close>\<close>
  up_rest :: string

datatype fault_error = Bad_model_schema | No_seed | Bad_rule_id string | No_outcomes string | Bad_pattern string
  | Passthrough_not_true | Passthrough_with_effect | Bad_number string | Bad_status

definition TRANSPORT_FAULT_MODEL_SCHEMA :: string where
  "TRANSPORT_FAULT_MODEL_SCHEMA = ''wp-codebox/transport-fault-model/v1''"

section \<open>Headers\<close>

definition upper_char :: "char \<Rightarrow> char" where
  "upper_char c = (if is_lower c then char_of ((of_char c :: nat) - 32) else c)"

definition upper :: "string \<Rightarrow> string" where
  "upper = map upper_char"

definition normalizeHeaders :: "headers \<Rightarrow> headers" where
  "normalizeHeaders hs = foldl (\<lambda>out (name, value). AList.update (lower name) value out) [] hs"

text \<open>The \<open>headers\<close> member of an outcome, as the model is typed: an object of strings.\<close>

definition headers_of :: "jsval \<Rightarrow> headers" where
  "headers_of v = map (\<lambda>(k, x). (k, js_string x)) (record_fields v)"

definition headers_value :: "headers \<Rightarrow> jsval" where
  "headers_value hs = JObj (map (\<lambda>(k, s). (k, JStr s)) hs)"

definition sensitive_headers :: "string list" where
  "sensitive_headers = [''authorization'', ''cookie'', ''proxy-authorization'', ''set-cookie'', ''x-api-key'']"

definition redactTransportHeaders :: "headers \<Rightarrow> string list \<Rightarrow> headers" where
  "redactTransportHeaders hs extra =
     map (\<lambda>(name, value). (name, if lower name \<in> set (sensitive_headers @ map lower extra) then REDACTED_VALUE else value)) hs"

section \<open>Validation of a model\<close>

definition effect_number :: "string \<Rightarrow> bool" where
  "effect_number name \<longleftrightarrow> ends_with ''Ms'' name \<or> ends_with ''Bytes'' name \<or> name = ''bandwidthBytesPerSecond''"

definition bad_number :: "jsval \<Rightarrow> bool" where
  "bad_number v = (case v of JNum (Fin q) \<Rightarrow> q < 0 | JNum _ \<Rightarrow> True | _ \<Rightarrow> False)"

fun check_numbers :: "js_object \<Rightarrow> fault_error + unit" where
  "check_numbers [] = Inr ()"
| "check_numbers ((name, v) # rest) = (if effect_number name \<and> bad_number v then Inl (Bad_number name) else check_numbers rest)"

definition good_status :: "jsval \<Rightarrow> bool" where
  "good_status v = (case v of JNum (Fin q) \<Rightarrow> of_int \<lfloor>q\<rfloor> = q \<and> 100 \<le> q \<and> q \<le> 599 | _ \<Rightarrow> False)"

definition normalizeTransportFaultOutcome :: "fault_outcome \<Rightarrow> fault_error + fault_outcome" where
  "normalizeTransportFaultOutcome outcome =
     (let passthrough = js_get outcome ''passthrough''; status = js_get outcome ''status''; hs = js_get outcome ''headers'' in
      if passthrough \<noteq> JUndef \<and> passthrough \<noteq> JBool True then Inl Passthrough_not_true
      else if js_truthy passthrough
           \<and> (\<exists>(name, v) \<in> set outcome. v \<noteq> JUndef \<and> name \<noteq> ''passthrough'' \<and> name \<noteq> ''metadata'')
      then Inl Passthrough_with_effect
      else case check_numbers outcome of
        Inl e \<Rightarrow> Inl e
      | Inr _ \<Rightarrow>
          if status \<noteq> JUndef \<and> \<not> good_status status then Inl Bad_status
          else Inr (js_put outcome ''headers'' (if js_truthy hs then headers_value (normalizeHeaders (headers_of hs)) else JUndef)))"

fun normalize_outcomes :: "fault_outcome list \<Rightarrow> fault_error + fault_outcome list" where
  "normalize_outcomes [] = Inr []"
| "normalize_outcomes (x # xs) =
     (case normalizeTransportFaultOutcome x of
        Inl e \<Rightarrow> Inl e
      | Inr y \<Rightarrow> (case normalize_outcomes xs of Inl e \<Rightarrow> Inl e | Inr ys \<Rightarrow> Inr (y # ys)))"

text \<open>A string member that is absent or empty counts as not given.\<close>

definition given :: "string option \<Rightarrow> string option" where
  "given s = (case s of Some t \<Rightarrow> if t \<noteq> [] then Some t else None | None \<Rightarrow> None)"

definition normalize_rule :: "(string \<Rightarrow> bool) \<Rightarrow> string set \<Rightarrow> fault_rule \<Rightarrow> fault_error + fault_rule" where
  "normalize_rule compiles ids rule =
     (if fr_id rule = [] \<or> fr_id rule \<in> ids then Inl (Bad_rule_id (fr_id rule))
      else if fr_sequence rule = [] then Inl (No_outcomes (fr_id rule))
      else case given (rm_pathPattern (fr_match rule)) of
        Some p \<Rightarrow>
          if \<not> compiles p then Inl (Bad_pattern p)
          else (case normalize_outcomes (fr_sequence rule) of Inl e \<Rightarrow> Inl e | Inr os \<Rightarrow> Inr (rule\<lparr>fr_sequence := os\<rparr>))
      | None \<Rightarrow> (case normalize_outcomes (fr_sequence rule) of Inl e \<Rightarrow> Inl e | Inr os \<Rightarrow> Inr (rule\<lparr>fr_sequence := os\<rparr>)))"

fun normalize_rules :: "(string \<Rightarrow> bool) \<Rightarrow> string set \<Rightarrow> fault_rule list \<Rightarrow> fault_error + fault_rule list" where
  "normalize_rules compiles ids [] = Inr []"
| "normalize_rules compiles ids (r # rs) =
     (case normalize_rule compiles ids r of
        Inl e \<Rightarrow> Inl e
      | Inr r' \<Rightarrow> (case normalize_rules compiles (insert (fr_id r) ids) rs of Inl e \<Rightarrow> Inl e | Inr rs' \<Rightarrow> Inr (r' # rs')))"

definition transportFaultModel :: "(string \<Rightarrow> bool) \<Rightarrow> fault_model \<Rightarrow> fault_error + fault_model" where
  "transportFaultModel compiles input =
     (if fm_schema input \<noteq> None \<and> fm_schema input \<noteq> Some TRANSPORT_FAULT_MODEL_SCHEMA then Inl Bad_model_schema
      else if fm_seed input = [] then Inl No_seed
      else case normalize_rules compiles {} (fm_rules input) of
        Inl e \<Rightarrow> Inl e
      | Inr rules \<Rightarrow> Inr (input\<lparr>fm_schema := Some TRANSPORT_FAULT_MODEL_SCHEMA, fm_rules := rules\<rparr>))"

section \<open>Matching and the meaning of an outcome\<close>

definition transportRequestMatches ::
    "(string \<Rightarrow> url_parts option) \<Rightarrow> (string \<Rightarrow> string \<Rightarrow> bool) \<Rightarrow> request_matcher \<Rightarrow> fault_request \<Rightarrow> bool" where
  "transportRequestMatches parse regex_test matcher request =
     (case parse (fq_url request) of
        None \<Rightarrow> False
      | Some url \<Rightarrow>
          (case given (rm_host matcher) of None \<Rightarrow> True
           | Some h \<Rightarrow> lower (up_host url) = lower h \<or> lower (up_hostname url) = lower h)
          \<and> (case given (rm_method matcher) of None \<Rightarrow> True | Some m \<Rightarrow> upper (fq_method request) = upper m)
          \<and> (case given (rm_path matcher) of None \<Rightarrow> True | Some p \<Rightarrow> up_pathname url = p)
          \<and> (case given (rm_pathPattern matcher) of None \<Rightarrow> True | Some p \<Rightarrow> regex_test p (up_pathname url))
          \<and> (let hs = normalizeHeaders (case fq_headers request of None \<Rightarrow> [] | Some hs \<Rightarrow> hs) in
             \<forall>(name, value) \<in> set (case rm_headers matcher of None \<Rightarrow> [] | Some hs \<Rightarrow> hs). map_of hs (lower name) = Some value))"

definition declares :: "fault_outcome \<Rightarrow> string \<Rightarrow> bool" where
  "declares outcome name \<longleftrightarrow> js_get outcome name \<noteq> JUndef"

definition push_if :: "bool \<Rightarrow> 'a \<Rightarrow> 'a list" where
  "push_if b x = (if b then [x] else [])"

definition transportFaultOutcomeSemantics :: "fault_outcome \<Rightarrow> fault_semantic list" where
  "transportFaultOutcomeSemantics o' = js_unique (
     push_if (declares o' ''status'' \<or> js_truthy (js_get o' ''headers'') \<or> declares o' ''body'' \<or> declares o' ''bodyBase64'')
       Response_substitution
     @ push_if (js_truthy (js_get o' ''malformed'')) Malformed_response
     @ push_if (declares o' ''truncateAfterBytes'') Truncated_response
     @ push_if (declares o' ''chunkBytes'') Chunked_response
     @ push_if (declares o' ''delayMs'') Delay
     @ push_if (declares o' ''jitterMs'') Jitter
     @ push_if (declares o' ''bandwidthBytesPerSecond'') Bandwidth
     @ push_if (declares o' ''timeoutMs'') Timeout
     @ push_if (js_get o' ''connection'' = JStr ''refuse'') Connection_refusal
     @ push_if (js_get o' ''connection'' = JStr ''reset'') Connection_reset
     @ push_if (js_get o' ''connection'' = JStr ''half-close'') Half_close
     @ push_if (declares o' ''disconnectAfterBytes'') Disconnect_after_bytes
     @ push_if (js_truthy (js_get o' ''remapHost'')) Host_remap
     @ push_if (js_truthy (js_get o' ''requestCorruption'')) Request_corruption
     @ push_if (js_truthy (js_get o' ''responseCorruption'')) Response_corruption)"

definition faultSequenceIndex :: "fault_rule \<Rightarrow> nat \<Rightarrow> nat option" where
  "faultSequenceIndex rule invocation =
     (let repeat = (case fr_repeat rule of None \<Rightarrow> Repeat_last | Some r \<Rightarrow> r); n = length (fr_sequence rule) in
      if invocation < n then Some invocation
      else if repeat = Repeat_cycle then Some (invocation mod n)
      else if repeat = Repeat_last then Some (n - 1)
      else None)"

section \<open>The engine\<close>

record url_redactor =
  ur_parse :: "string \<Rightarrow> url_parts option"
  ur_print :: "url_parts \<Rightarrow> string"

record fault_response =
  fp_status :: "jsval"
  fp_headers :: "headers option"
  fp_bodyBytes :: "nat option"
  fp_connection :: "jsval"

record fault_evidence =
  ev_fingerprint :: string
  ev_adapter :: string
  ev_fidelity :: "fault_capability list"
  ev_url :: string
  ev_method :: string
  ev_headers :: headers
  ev_bodyBytes :: "nat option"
  ev_fault :: "(string \<times> nat \<times> nat \<times> fault_semantic list \<times> rat) option"
  ev_response :: "fault_response option"

record fault_engine =
  en_model :: fault_model
  en_capabilities :: fault_capabilities
  en_evidence :: "fault_evidence list"
  en_counts :: "(string \<times> nat) list"

definition fault_engine_for :: "(string \<Rightarrow> bool) \<Rightarrow> fault_model \<Rightarrow> fault_capabilities \<Rightarrow> fault_error + fault_engine" where
  "fault_engine_for compiles model capabilities =
     (case transportFaultModel compiles model of
        Inl e \<Rightarrow> Inl e
      | Inr m \<Rightarrow> Inr \<lparr>en_model = m, en_capabilities = capabilities, en_evidence = [], en_counts = []\<rparr>)"

definition deterministicRange :: "(string \<Rightarrow> nat) \<Rightarrow> string \<Rightarrow> rat \<Rightarrow> nat" where
  "deterministicRange digest32 seed maximum = digest32 seed mod (nat \<lfloor>maximum\<rfloor> + 1)"

definition number_member :: "fault_outcome \<Rightarrow> string \<Rightarrow> rat" where
  "number_member outcome name = (case js_get outcome name of JNum (Fin q) \<Rightarrow> q | _ \<Rightarrow> 0)"

definition jitter_of :: "(string \<Rightarrow> nat) \<Rightarrow> string \<Rightarrow> string \<Rightarrow> nat \<Rightarrow> fault_outcome \<Rightarrow> rat" where
  "jitter_of digest32 seed ruleId invocation outcome =
     (let q = number_member outcome ''jitterMs'' in
      if q \<noteq> 0 then of_nat (deterministicRange digest32 (seed @ '':'' @ ruleId @ '':'' @ string_of_nat invocation) q) else 0)"

definition matching_rule ::
    "(string \<Rightarrow> url_parts option) \<Rightarrow> (string \<Rightarrow> string \<Rightarrow> bool) \<Rightarrow> fault_model \<Rightarrow> fault_request \<Rightarrow> fault_rule option" where
  "matching_rule parse regex_test model request =
     find (\<lambda>candidate. transportRequestMatches parse regex_test (fr_match candidate) request) (fm_rules model)"

definition decision_for :: "(string \<Rightarrow> nat) \<Rightarrow> string \<Rightarrow> fault_rule \<Rightarrow> nat \<Rightarrow> fault_decision option" where
  "decision_for digest32 seed rule invocation =
     (case faultSequenceIndex rule invocation of
        None \<Rightarrow> None
      | Some index \<Rightarrow>
          let outcome = fr_sequence rule ! index in
          Some \<lparr>fd_ruleId = fr_id rule, fd_sequenceIndex = index, fd_invocation = invocation, fd_outcome = outcome,
                fd_semantics = transportFaultOutcomeSemantics outcome,
                fd_delayMs = max 0 (number_member outcome ''delayMs'' + jitter_of digest32 seed (fr_id rule) invocation outcome)\<rparr>)"

definition decide ::
    "(string \<Rightarrow> url_parts option) \<Rightarrow> (string \<Rightarrow> string \<Rightarrow> bool) \<Rightarrow> (string \<Rightarrow> nat) \<Rightarrow> fault_request \<Rightarrow> fault_engine
      \<Rightarrow> fault_decision option \<times> fault_engine" where
  "decide parse regex_test digest32 request engine =
     (case matching_rule parse regex_test (en_model engine) request of
        None \<Rightarrow> (None, engine)
      | Some rule \<Rightarrow>
          let invocation = (case map_of (en_counts engine) (fr_id rule) of None \<Rightarrow> 0 | Some n \<Rightarrow> n) in
          (decision_for digest32 (fm_seed (en_model engine)) rule invocation,
           engine\<lparr>en_counts := AList.update (fr_id rule) (invocation + 1) (en_counts engine)\<rparr>))"

section \<open>Redaction of URLs\<close>

definition secret_parameter :: "string \<Rightarrow> bool" where
  "secret_parameter = mentions [''token'', ''secret'', ''nonce'', ''password'', ''passwd'', ''pwd'', ''key'', ''signature'', ''authorization'']"

text \<open>\<open>searchParams.set\<close>\<close>

fun params_set :: "string \<Rightarrow> string \<Rightarrow> headers \<Rightarrow> headers" where
  "params_set key value [] = [(key, value)]"
| "params_set key value ((k, v) # ps) =
     (if k = key then (k, value) # filter (\<lambda>p. fst p \<noteq> key) ps else (k, v) # params_set key value ps)"

definition redact_query :: "headers \<Rightarrow> headers" where
  "redact_query params = foldl (\<lambda>ps key. if secret_parameter key then params_set key REDACTED_VALUE ps else ps) params (map fst params)"

text \<open>The fallback for text that is no URL: \<open>/([?&](?:token|...|key)=[^&#]*)/gi\<close> replaced by \<open>$1[redacted]\<close>.\<close>

definition secret_name :: "string \<Rightarrow> string option" where
  "secret_name s = find (\<lambda>name. starts_with name (lower s)) [''token='', ''secret='', ''nonce='', ''password='', ''key='']"

function redact_fallback :: "string \<Rightarrow> string" where
  "redact_fallback [] = []"
| "redact_fallback (c # cs) =
     (case (if c = CHR ''?'' \<or> c = CHR ''&'' then secret_name cs else None) of
        None \<Rightarrow> c # redact_fallback cs
      | Some name \<Rightarrow>
          let value = takeWhile (\<lambda>d. d \<noteq> CHR ''&'' \<and> d \<noteq> CHR ''#'') (drop (length name) cs);
              n = length name + length value
          in c # take n cs @ REDACTED_VALUE @ redact_fallback (drop n cs))"
  by pat_completeness auto

termination redact_fallback
  by (relation "measure length") (auto simp: less_Suc_eq_le)

definition redactTransportUrl :: "url_redactor \<Rightarrow> string \<Rightarrow> string" where
  "redactTransportUrl urls raw =
     (case ur_parse urls raw of
        None \<Rightarrow> redact_fallback raw
      | Some url \<Rightarrow> ur_print urls (url\<lparr>up_username := [], up_password := [], up_query := redact_query (up_query url)\<rparr>))"

section \<open>Evidence and negotiation\<close>

definition capability_for :: "fault_capabilities \<Rightarrow> fault_semantic \<Rightarrow> fault_capability" where
  "capability_for capabilities semantic =
     (case find (\<lambda>c. ft_semantic c = semantic) (fs_capabilities capabilities) of
        Some c \<Rightarrow> c
      | None \<Rightarrow> \<lparr>ft_semantic = semantic, ft_fidelity = Unsupported, ft_reason = Some ''Adapter did not declare this semantic.''\<rparr>)"

definition rule_headers :: "fault_rule option \<Rightarrow> string list" where
  "rule_headers rule = (case rule of None \<Rightarrow> [] | Some r \<Rightarrow> (case rm_headers (fr_match r) of None \<Rightarrow> [] | Some hs \<Rightarrow> map fst hs))"

definition fault_note :: "fault_decision \<Rightarrow> string \<times> nat \<times> nat \<times> fault_semantic list \<times> rat" where
  "fault_note d = (fd_ruleId d, fd_sequenceIndex d, fd_invocation d, fd_semantics d, fd_delayMs d)"

definition record_fault ::
    "url_redactor \<Rightarrow> (string \<times> string \<times> string \<times> (string \<times> nat \<times> fault_semantic list) option \<times> (jsval \<times> jsval) option \<Rightarrow> string)
      \<Rightarrow> fault_request \<Rightarrow> fault_decision option \<Rightarrow> fault_response option \<Rightarrow> fault_engine \<Rightarrow> fault_evidence \<times> fault_engine" where
  "record_fault urls fingerprint request decision response engine =
     (let fidelity = (case decision of None \<Rightarrow> [] | Some d \<Rightarrow> map (capability_for (en_capabilities engine)) (fd_semantics d));
          rule = (case decision of None \<Rightarrow> None | Some d \<Rightarrow> find (\<lambda>r. fr_id r = fd_ruleId d) (fm_rules (en_model engine)));
          declared = rule_headers rule @ (case decision of None \<Rightarrow> [] | Some d \<Rightarrow> map fst (headers_of (js_get (fd_outcome d) ''headers'')));
          redacted = (case fm_redactHeaders (en_model engine) of None \<Rightarrow> [] | Some hs \<Rightarrow> hs) @ declared;
          adapter = fs_adapter (en_capabilities engine);
          url = redactTransportUrl urls (fq_url request);
          method = upper (fq_method request);
          evidence = \<lparr>ev_fingerprint = fingerprint (adapter, url, method,
                map_option (\<lambda>d. (fd_ruleId d, fd_sequenceIndex d, fd_semantics d)) decision,
                map_option (\<lambda>r. (fp_status r, fp_connection r)) response),
              ev_adapter = adapter, ev_fidelity = fidelity, ev_url = url, ev_method = method,
              ev_headers = redactTransportHeaders (case fq_headers request of None \<Rightarrow> [] | Some hs \<Rightarrow> hs) redacted,
              ev_bodyBytes = fq_bodyBytes request, ev_fault = map_option fault_note decision,
              ev_response = map_option (\<lambda>r. r\<lparr>fp_headers := map_option (\<lambda>hs. redactTransportHeaders hs redacted) (fp_headers r)\<rparr>) response\<rparr>
      in (evidence, engine\<lparr>en_evidence := en_evidence engine @ [evidence]\<rparr>))"

definition transportFaultCapabilities :: "string \<Rightarrow> fault_capability list \<Rightarrow> fault_capabilities" where
  "transportFaultCapabilities adapter capabilities =
     \<lparr>fs_adapter = adapter,
      fs_capabilities = sort_key (\<lambda>c. semantic_name (ft_semantic c))
        (map snd (foldl (\<lambda>m c. AList.update (ft_semantic c) c m) [] capabilities))\<rparr>"

definition negotiateTransportFaults :: "fault_model \<Rightarrow> fault_capabilities \<Rightarrow> fault_negotiation" where
  "negotiateTransportFaults model capabilities =
     (let required = sort_key semantic_name (js_unique
            (concat (map (\<lambda>rule. concat (map transportFaultOutcomeSemantics (fr_sequence rule))) (fm_rules model))));
          unsupported = filter (\<lambda>c. ft_fidelity c = Unsupported) (map (capability_for capabilities) required)
      in \<lparr>ng_supported = (unsupported = []), ng_required = required, ng_unsupported = unsupported, ng_capabilities = capabilities\<rparr>)"


section \<open>The schedule that is safe to publish\<close>

definition utf8_bytes :: "string \<Rightarrow> nat" where
  "utf8_bytes s = length s + length (filter (\<lambda>c. (of_char c :: nat) \<ge> 128) s)"

definition withheld :: "string list" where
  "withheld = [''headers'', ''body'', ''bodyBase64'', ''metadata'', ''remapHost'']"

definition header_names :: "string list \<Rightarrow> jsval" where
  "header_names names = JArr (map JStr (sort (map lower names)))"

definition body_note :: "string \<Rightarrow> nat \<Rightarrow> jsval" where
  "body_note encoding n = JObj [(''encoding'', JStr encoding), (''bytes'', JInt (int n)), (''redacted'', JBool True)]"

definition safeTransportFaultOutcome :: "(string \<Rightarrow> string) \<Rightarrow> (string \<Rightarrow> nat) \<Rightarrow> fault_outcome \<Rightarrow> js_object" where
  "safeTransportFaultOutcome redact_host base64_bytes outcome =
     (let hs = js_get outcome ''headers''; body = js_get outcome ''body''; b64 = js_get outcome ''bodyBase64'';
          host = js_get outcome ''remapHost''
      in strip_undefined (js_spread (filter (\<lambda>(k, v). k \<notin> set withheld) outcome)
           [(''remapHost'', if js_truthy host then JStr (redact_host (js_string host)) else JUndef),
            (''headerNames'', if js_truthy hs then header_names (map fst (record_fields hs)) else JUndef),
            (''body'', if body \<noteq> JUndef then body_note ''utf8'' (utf8_bytes (js_string body))
                       else if b64 \<noteq> JUndef then body_note ''base64'' (base64_bytes (js_string b64)) else JUndef),
            (''metadataRedacted'', if js_truthy (js_get outcome ''metadata'') then JBool True else JUndef)]))"

record safe_rule =
  sr_id :: string
  sr_host :: "string option"
  sr_method :: "string option"
  sr_path :: "string option"
  sr_pathPattern :: "string option"
  sr_headerNames :: "string list option"
  sr_sequence :: "js_object list"
  sr_repeat :: "fault_repeat option"
  sr_metadataRedacted :: bool

record safe_schedule =
  ss_seed :: string
  ss_rules :: "safe_rule list"
  ss_redactHeaders :: "string list option"
  ss_metadataRedacted :: bool

definition safe_rule_of :: "(string \<Rightarrow> string) \<Rightarrow> (string \<Rightarrow> nat) \<Rightarrow> fault_rule \<Rightarrow> safe_rule" where
  "safe_rule_of redact_host base64_bytes rule =
     \<lparr>sr_id = fr_id rule, sr_host = rm_host (fr_match rule), sr_method = rm_method (fr_match rule),
      sr_path = rm_path (fr_match rule), sr_pathPattern = rm_pathPattern (fr_match rule),
      sr_headerNames = map_option (\<lambda>hs. sort (map lower (map fst hs))) (rm_headers (fr_match rule)),
      sr_sequence = map (safeTransportFaultOutcome redact_host base64_bytes) (fr_sequence rule), sr_repeat = fr_repeat rule,
      sr_metadataRedacted = (fr_metadata rule \<noteq> None)\<rparr>"

definition transportFaultSafeSchedule ::
    "url_redactor \<Rightarrow> (string \<Rightarrow> nat) \<Rightarrow> (string \<Rightarrow> bool) \<Rightarrow> (safe_schedule \<Rightarrow> string) \<Rightarrow> fault_model
      \<Rightarrow> fault_error + (safe_schedule \<times> string)" where
  "transportFaultSafeSchedule urls base64_bytes compiles fingerprint input =
     (case transportFaultModel compiles input of
        Inl e \<Rightarrow> Inl e
      | Inr model \<Rightarrow>
          let safe = \<lparr>ss_seed = fm_seed model, ss_rules = map (safe_rule_of (redactTransportUrl urls) base64_bytes) (fm_rules model),
                ss_redactHeaders = map_option (\<lambda>hs. sort (map lower hs)) (fm_redactHeaders model),
                ss_metadataRedacted = (fm_metadata model \<noteq> None)\<rparr>
          in Inr (safe, fingerprint safe))"

section \<open>Models that passed validation\<close>

definition model_ok :: "fault_model \<Rightarrow> bool" where
  "model_ok m \<longleftrightarrow> fm_seed m \<noteq> [] \<and> distinct (map fr_id (fm_rules m)) \<and> (\<forall>r \<in> set (fm_rules m). fr_id r \<noteq> [] \<and> fr_sequence r \<noteq> [])"

lemma normalize_outcomes_length: "normalize_outcomes xs = Inr ys \<Longrightarrow> length ys = length xs"
  by (induction xs arbitrary: ys) (auto split: sum.splits)

lemma normalize_rule_ok:
  assumes "normalize_rule compiles ids r = Inr r'"
  shows "fr_id r' = fr_id r \<and> fr_id r \<noteq> [] \<and> fr_id r \<notin> ids \<and> fr_sequence r' \<noteq> []"
proof -
  from assms obtain os where os: "normalize_outcomes (fr_sequence r) = Inr os" "r' = r\<lparr>fr_sequence := os\<rparr>"
      "fr_id r \<noteq> []" "fr_id r \<notin> ids" "fr_sequence r \<noteq> []"
    by (auto simp: normalize_rule_def split: if_splits option.splits sum.splits)
  from normalize_outcomes_length [OF os(1)] os show ?thesis by auto
qed

lemma normalize_rules_ok:
  "normalize_rules compiles ids rs = Inr rs' \<Longrightarrow>
   distinct (map fr_id rs') \<and> (\<forall>r \<in> set rs'. fr_id r \<notin> ids \<and> fr_id r \<noteq> [] \<and> fr_sequence r \<noteq> [])"
proof (induction compiles ids rs arbitrary: rs' rule: normalize_rules.induct)
  case (2 compiles ids r rs)
  from 2(2) obtain r' os where r': "normalize_rule compiles ids r = Inr r'"
      "normalize_rules compiles (insert (fr_id r) ids) rs = Inr os" "rs' = r' # os"
    by (auto split: sum.splits)
  from normalize_rule_ok [OF r'(1)] 2(1) [OF r'(1,2)] r'(3) show ?case by auto
qed simp

lemma transportFaultModel_ok: "transportFaultModel compiles input = Inr m \<Longrightarrow> model_ok m"
  using normalize_rules_ok by (fastforce simp: transportFaultModel_def model_ok_def split: if_splits sum.splits)

section \<open>The engine counts the requests of each rule\<close>

datatype fault_event = Ask fault_request | Note fault_request "fault_decision option" "fault_response option"


fun engine_event ::
    "(string \<Rightarrow> url_parts option) \<Rightarrow> (string \<Rightarrow> string \<Rightarrow> bool) \<Rightarrow> (string \<Rightarrow> nat) \<Rightarrow> url_redactor
      \<Rightarrow> (string \<times> string \<times> string \<times> (string \<times> nat \<times> fault_semantic list) option \<times> (jsval \<times> jsval) option \<Rightarrow> string)
      \<Rightarrow> fault_event \<Rightarrow> fault_engine \<Rightarrow> fault_engine" where
  "engine_event parse regex_test digest32 urls fingerprint (Ask request) e = snd (decide parse regex_test digest32 request e)"
| "engine_event parse regex_test digest32 urls fingerprint (Note request d response) e =
     snd (record_fault urls fingerprint request d response e)"

fun asked_rule :: "(string \<Rightarrow> url_parts option) \<Rightarrow> (string \<Rightarrow> string \<Rightarrow> bool) \<Rightarrow> fault_model \<Rightarrow> fault_rule \<Rightarrow> fault_event \<Rightarrow> bool" where
  "asked_rule parse regex_test m r (Ask request) \<longleftrightarrow> matching_rule parse regex_test m request = Some r"
| "asked_rule parse regex_test m r (Note _ _ _) \<longleftrightarrow> False"

lemma engine_events:
  assumes "model_ok (en_model e)" and "r \<in> set (fm_rules (en_model e))"
  shows "en_model (fold (engine_event parse regex_test digest32 urls fingerprint) events e) = en_model e
    \<and> (case map_of (en_counts (fold (engine_event parse regex_test digest32 urls fingerprint) events e)) (fr_id r) of
         None \<Rightarrow> 0 | Some n \<Rightarrow> n)
      = (case map_of (en_counts e) (fr_id r) of None \<Rightarrow> 0 | Some n \<Rightarrow> n)
        + length (filter (asked_rule parse regex_test (en_model e) r) events)"
  using assms
proof (induction events arbitrary: e)
  case (Cons event events)
  let ?e = "engine_event parse regex_test digest32 urls fingerprint event e"
  have model: "en_model ?e = en_model e"
    by (cases event) (auto simp: decide_def record_fault_def Let_def split: option.split)
  have count: "(case map_of (en_counts ?e) (fr_id r) of None \<Rightarrow> 0 | Some n \<Rightarrow> n)
      = (case map_of (en_counts e) (fr_id r) of None \<Rightarrow> 0 | Some n \<Rightarrow> n)
        + (if asked_rule parse regex_test (en_model e) r event then 1 else 0)"
  proof (cases event)
    case (Ask request)
    have same: "r' = r" if "matching_rule parse regex_test (en_model e) request = Some r'" "fr_id r' = fr_id r" for r'
      using that Cons.prems by (auto simp: matching_rule_def model_ok_def find_Some_iff distinct_map inj_on_def)
    show ?thesis
    proof (cases "matching_rule parse regex_test (en_model e) request")
      case None
      with Ask show ?thesis by (simp add: decide_def)
    next
      case (Some r')
      with Ask same [OF Some] show ?thesis by (auto simp: decide_def Let_def update_conv)
    qed
  next
    case (Note request d response)
    then show ?thesis by (simp add: record_fault_def Let_def)
  qed
  from Cons.IH [of ?e] Cons.prems model count show ?case by simp
qed simp

lemma faultSequenceIndex_less: "fr_sequence r \<noteq> [] \<Longrightarrow> faultSequenceIndex r k = Some i \<Longrightarrow> i < length (fr_sequence r)"
  by (auto simp: faultSequenceIndex_def Let_def split: if_splits)

lemma matching_rule_member: "matching_rule parse regex_test m q = Some r \<Longrightarrow> r \<in> set (fm_rules m)"
  by (auto simp: matching_rule_def find_Some_iff)

lemma jitter_of_bounds:
  assumes "0 \<le> number_member outcome ''jitterMs''"
  shows "0 \<le> jitter_of digest32 seed ruleId k outcome" "jitter_of digest32 seed ruleId k outcome \<le> number_member outcome ''jitterMs''"
proof -
  let ?q = "number_member outcome ''jitterMs''"
  have "digest32 s mod (nat \<lfloor>?q\<rfloor> + 1) \<le> nat \<lfloor>?q\<rfloor>" for s
    using mod_less_divisor [of "nat \<lfloor>?q\<rfloor> + 1" "digest32 s"] by linarith
  then have "(of_nat (digest32 s mod (nat \<lfloor>?q\<rfloor> + 1)) :: rat) \<le> of_nat (nat \<lfloor>?q\<rfloor>)" for s
    by (rule of_nat_mono)
  moreover have "(of_nat (nat \<lfloor>?q\<rfloor>) :: rat) \<le> ?q" using assms by simp
  ultimately have "(of_nat (digest32 s mod (nat \<lfloor>?q\<rfloor> + 1)) :: rat) \<le> ?q" for s by (rule order_trans)
  then show "jitter_of digest32 seed ruleId k outcome \<le> ?q"
    using assms unfolding jitter_of_def deterministicRange_def Let_def by auto
  show "0 \<le> jitter_of digest32 seed ruleId k outcome" by (simp add: jitter_of_def Let_def)
qed

text \<open>Validated outcomes have no negative amount.\<close>

lemma check_numbers_ok: "check_numbers o1 = Inr () \<Longrightarrow> effect_number name \<Longrightarrow> \<not> bad_number (js_get o1 name)"
  by (induction o1 rule: check_numbers.induct) (auto simp: bad_number_def split: if_splits)

lemma effect_numbers: "effect_number ''delayMs''" "effect_number ''jitterMs''" "\<not> effect_number ''headers''"
  by (simp_all add: effect_number_def ends_with_def)

lemma normalized_numbers:
  assumes "normalizeTransportFaultOutcome x = Inr y" and "effect_number name"
  shows "0 \<le> number_member y name"
proof -
  have "name \<noteq> ''headers''" using assms(2) effect_numbers by auto
  moreover have "check_numbers x = Inr ()" using assms(1)
    by (auto simp: normalizeTransportFaultOutcome_def Let_def split: if_splits sum.splits)
  ultimately have "js_get y name = js_get x name" "\<not> bad_number (js_get x name)"
    using assms check_numbers_ok by (auto simp: normalizeTransportFaultOutcome_def Let_def split: if_splits sum.splits)
  then show ?thesis by (auto simp: number_member_def bad_number_def split: jsval.splits jsnum.splits)
qed

lemma normalize_outcomes_from:
  "normalize_outcomes xs = Inr ys \<Longrightarrow> y \<in> set ys \<Longrightarrow> \<exists>x. normalizeTransportFaultOutcome x = Inr y"
  by (induction xs arbitrary: ys) (auto split: sum.splits)

lemma normalize_rules_from:
  "normalize_rules compiles ids rs = Inr rs' \<Longrightarrow> r \<in> set rs' \<Longrightarrow> y \<in> set (fr_sequence r) \<Longrightarrow>
   \<exists>x. normalizeTransportFaultOutcome x = Inr y"
proof (induction compiles ids rs arbitrary: rs' rule: normalize_rules.induct)
  case (2 compiles ids r1 rs)
  from 2(2) obtain r' os where r': "normalize_rule compiles ids r1 = Inr r'"
      "normalize_rules compiles (insert (fr_id r1) ids) rs = Inr os" "rs' = r' # os"
    by (auto split: sum.splits)
  from r'(1) have "\<exists>xs. normalize_outcomes xs = Inr (fr_sequence r')"
    by (auto simp: normalize_rule_def split: if_splits option.splits sum.splits)
  with 2(1) [OF r'(1,2) _ 2(4)] 2(3,4) r'(3) normalize_outcomes_from show ?case by auto
qed simp

lemma engine_rule_amounts:
  assumes "fault_engine_for compiles model capabilities = Inr e" and "r \<in> set (fm_rules (en_model e))" and "y \<in> set (fr_sequence r)"
  shows "0 \<le> number_member y ''delayMs''" "0 \<le> number_member y ''jitterMs''"
proof -
  from assms(1) obtain rs where "normalize_rules compiles {} (fm_rules model) = Inr rs" "fm_rules (en_model e) = rs"
    by (auto simp: fault_engine_for_def transportFaultModel_def split: sum.splits if_splits)
  with normalize_rules_from assms(2,3) obtain x where "normalizeTransportFaultOutcome x = Inr y" by blast
  from normalized_numbers [OF this] show "0 \<le> number_member y ''delayMs''" "0 \<le> number_member y ''jitterMs''"
    using effect_numbers by auto
qed

section \<open>Properties of the engine\<close>

text \<open>
  C22: which fault a request gets.  In an engine built for a valid model, after any sequence of requests
  and recordings, a request whose first matching rule is \<open>r\<close> is answered from the number of earlier
  requests that matched \<open>r\<close> first, and nothing else: the outcome of that position, then the last one, the
  sequence anew, or no fault, as the rule says.  The index is within the sequence, and the delay lies
  between the declared delay and the declared delay plus jitter.
\<close>

theorem fault_sequence:
  assumes "fault_engine_for compiles model capabilities = Inr e"
    and "matching_rule parse regex_test (en_model e) request = Some r"
    and "k = length (filter (asked_rule parse regex_test (en_model e) r) events)"
  shows "fst (decide parse regex_test digest32 request (fold (engine_event parse regex_test digest32 urls fingerprint) events e))
      = decision_for digest32 (fm_seed (en_model e)) r k
    \<and> map_option fd_sequenceIndex (decision_for digest32 (fm_seed (en_model e)) r k) =
       (if k < length (fr_sequence r) then Some k
        else case fr_repeat r of Some Repeat_none \<Rightarrow> None | Some Repeat_cycle \<Rightarrow> Some (k mod length (fr_sequence r))
             | _ \<Rightarrow> Some (length (fr_sequence r) - 1))
    \<and> (\<forall>d. decision_for digest32 (fm_seed (en_model e)) r k = Some d \<longrightarrow>
         fd_sequenceIndex d < length (fr_sequence r) \<and> fd_outcome d = fr_sequence r ! fd_sequenceIndex d
         \<and> number_member (fd_outcome d) ''delayMs'' \<le> fd_delayMs d
         \<and> fd_delayMs d \<le> number_member (fd_outcome d) ''delayMs'' + number_member (fd_outcome d) ''jitterMs'')"
proof -
  have ok: "model_ok (en_model e)" and empty: "en_counts e = []"
    using assms(1) transportFaultModel_ok by (auto simp: fault_engine_for_def split: sum.splits)
  have r: "r \<in> set (fm_rules (en_model e))" by (rule matching_rule_member [OF assms(2)])
  then have ne: "fr_sequence r \<noteq> []" using ok by (auto simp: model_ok_def)
  note after = engine_events [OF ok r, of parse regex_test digest32 urls fingerprint events]
  let ?e = "fold (engine_event parse regex_test digest32 urls fingerprint) events e"
  have first: "fst (decide parse regex_test digest32 request ?e) = decision_for digest32 (fm_seed (en_model e)) r k"
    using after assms(2,3) empty by (simp add: decide_def Let_def)
  have index: "map_option fd_sequenceIndex (decision_for digest32 (fm_seed (en_model e)) r k) = faultSequenceIndex r k"
    by (simp add: decision_for_def Let_def split: option.split)
  have "faultSequenceIndex r k = (if k < length (fr_sequence r) then Some k
      else case fr_repeat r of Some Repeat_none \<Rightarrow> None | Some Repeat_cycle \<Rightarrow> Some (k mod length (fr_sequence r))
           | _ \<Rightarrow> Some (length (fr_sequence r) - 1))"
    by (auto simp: faultSequenceIndex_def Let_def split: option.split fault_repeat.split)
  moreover have "fd_sequenceIndex d < length (fr_sequence r) \<and> fd_outcome d = fr_sequence r ! fd_sequenceIndex d
      \<and> number_member (fd_outcome d) ''delayMs'' \<le> fd_delayMs d
      \<and> fd_delayMs d \<le> number_member (fd_outcome d) ''delayMs'' + number_member (fd_outcome d) ''jitterMs''"
    if d: "decision_for digest32 (fm_seed (en_model e)) r k = Some d" for d
  proof -
    from d obtain i where i: "faultSequenceIndex r k = Some i" "fd_sequenceIndex d = i" "fd_outcome d = fr_sequence r ! i"
        "fd_delayMs d = max 0 (number_member (fd_outcome d) ''delayMs'' + jitter_of digest32 (fm_seed (en_model e)) (fr_id r) k (fd_outcome d))"
      by (auto simp: decision_for_def Let_def split: option.splits)
    from faultSequenceIndex_less [OF ne i(1)] have "fd_outcome d \<in> set (fr_sequence r)" by (simp add: i(3))
    note amounts = engine_rule_amounts [OF assms(1) r this]
    from faultSequenceIndex_less [OF ne i(1)] i amounts(1) jitter_of_bounds [OF amounts(2), of digest32 "fm_seed (en_model e)" "fr_id r" k]
    show ?thesis by (simp add: max_def)
  qed
  ultimately show ?thesis using first index by (intro conjI allI impI) (simp, simp, blast+)
qed

definition sample_parse :: "string \<Rightarrow> url_parts option" where
  "sample_parse raw = (if starts_with ''https://h'' raw then
     Some \<lparr>up_host = ''h'', up_hostname = ''h'', up_pathname = drop 9 raw, up_username = [], up_password = [], up_query = [], up_rest = []\<rparr>
     else None)"

definition sample_fault_rule :: fault_rule where
  "sample_fault_rule = \<lparr>fr_id = ''r'', fr_match = \<lparr>rm_host = Some ''H'', rm_method = None, rm_path = None, rm_pathPattern = None, rm_headers = None\<rparr>,
     fr_sequence = [[(''passthrough'', JBool True)], [(''delayMs'', JInt 10), (''jitterMs'', JInt 5)]], fr_repeat = Some Repeat_cycle, fr_metadata = None\<rparr>"

definition sample_fault_model :: fault_model where
  "sample_fault_model = \<lparr>fm_schema = None, fm_seed = ''s'', fm_rules = [sample_fault_rule], fm_redactHeaders = None, fm_metadata = None\<rparr>"

definition sample_capabilities :: fault_capabilities where
  "sample_capabilities = \<lparr>fs_adapter = ''a'', fs_capabilities = []\<rparr>"

definition sample_request :: fault_request where
  "sample_request = \<lparr>fq_url = ''https://h/x'', fq_method = ''get'', fq_headers = None, fq_bodyBytes = None\<rparr>"

lemma sample_engine_result:
  "case fault_engine_for (\<lambda>_. True) sample_fault_model sample_capabilities of Inl _ \<Rightarrow> False
   | Inr e \<Rightarrow> (case matching_rule sample_parse (\<lambda>_ _. False) (en_model e) sample_request of None \<Rightarrow> False | Some r \<Rightarrow> length (fr_sequence r) = 2)"
  by code_simp

theorem fault_sequence_witness:
  "\<exists>e r. fault_engine_for (\<lambda>_. True) sample_fault_model sample_capabilities = Inr e
    \<and> matching_rule sample_parse (\<lambda>_ _. False) (en_model e) sample_request = Some r
    \<and> map_option fd_sequenceIndex (decision_for (\<lambda>_. 7) (fm_seed (en_model e)) r 0) = Some 0"
proof -
  from sample_engine_result obtain e r
    where e: "fault_engine_for (\<lambda>_. True) sample_fault_model sample_capabilities = Inr e"
      and r: "matching_rule sample_parse (\<lambda>_ _. False) (en_model e) sample_request = Some r" and n: "length (fr_sequence r) = 2"
    by (auto split: sum.splits option.splits)
  from fault_sequence [OF e r, of 0 "[]" "\<lambda>_. 7"] e r n show ?thesis by auto
qed

section \<open>The published schedule tells no secrets\<close>

text \<open>
  Two outcomes look alike when they have the same members in the same order with the same values, except
  that header values may differ, a body may be any other text of the same size, and metadata may be any
  other object.
\<close>

definition alike_member :: "(string \<Rightarrow> nat) \<Rightarrow> string \<Rightarrow> jsval \<Rightarrow> jsval \<Rightarrow> bool" where
  "alike_member base64_bytes name v v' \<longleftrightarrow>
     v = v' \<or>
     (name = ''headers'' \<and> (\<exists>hs hs'. v = JObj hs \<and> v' = JObj hs' \<and> map fst hs = map fst hs')) \<or>
     (name = ''body'' \<and> (\<exists>s s'. v = JStr s \<and> v' = JStr s' \<and> utf8_bytes s = utf8_bytes s')) \<or>
     (name = ''bodyBase64'' \<and> (\<exists>s s'. v = JStr s \<and> v' = JStr s' \<and> base64_bytes s = base64_bytes s')) \<or>
     (name = ''metadata'' \<and> (\<exists>m m'. v = JObj m \<and> v' = JObj m'))"

definition alike_outcome :: "(string \<Rightarrow> nat) \<Rightarrow> fault_outcome \<Rightarrow> fault_outcome \<Rightarrow> bool" where
  "alike_outcome base64_bytes = list_all2 (\<lambda>(name, v) (name', v'). name = name' \<and> alike_member base64_bytes name v v')"

definition alike_rule :: "(string \<Rightarrow> nat) \<Rightarrow> fault_rule \<Rightarrow> fault_rule \<Rightarrow> bool" where
  "alike_rule base64_bytes r r' \<longleftrightarrow>
     fr_id r = fr_id r' \<and> fr_repeat r = fr_repeat r' \<and> (fr_metadata r = None \<longleftrightarrow> fr_metadata r' = None)
     \<and> list_all2 (alike_outcome base64_bytes) (fr_sequence r) (fr_sequence r')
     \<and> (fr_match r)\<lparr>rm_headers := None\<rparr> = (fr_match r')\<lparr>rm_headers := None\<rparr>
     \<and> map_option (map fst) (rm_headers (fr_match r)) = map_option (map fst) (rm_headers (fr_match r'))"

definition alike_model :: "(string \<Rightarrow> nat) \<Rightarrow> fault_model \<Rightarrow> fault_model \<Rightarrow> bool" where
  "alike_model base64_bytes m m' \<longleftrightarrow>
     fm_schema m = fm_schema m' \<and> fm_seed m = fm_seed m' \<and> fm_redactHeaders m = fm_redactHeaders m'
     \<and> (fm_metadata m = None \<longleftrightarrow> fm_metadata m' = None) \<and> list_all2 (alike_rule base64_bytes) (fm_rules m) (fm_rules m')"

lemma alike_refl [simp]: "alike_member b64 name v v"
  by (simp add: alike_member_def)

lemma alike_get: "alike_outcome b64 x y \<Longrightarrow> alike_member b64 name (js_get x name) (js_get y name)"
  unfolding alike_outcome_def
proof (induction x y rule: list_all2_induct)
  case (Cons a xs b ys)
  obtain n v v' where "a = (n, v)" "b = (n, v')" "alike_member b64 n v v'" using Cons(1) by auto
  with Cons(3) show ?case by (cases "n = name") simp_all
qed simp

lemma alike_plain:
  "alike_member b64 name v v' \<Longrightarrow> name \<notin> {''headers'', ''body'', ''bodyBase64'', ''metadata''} \<Longrightarrow> v = v'"
  unfolding alike_member_def by simp

lemma alike_truthy: "alike_member b64 name v v' \<Longrightarrow> name \<noteq> ''body'' \<Longrightarrow> name \<noteq> ''bodyBase64'' \<Longrightarrow> js_truthy v = js_truthy v'"
  unfolding alike_member_def by (elim disjE conjE exE) simp_all

lemma alike_undefined: "alike_member b64 name v v' \<Longrightarrow> v = JUndef \<longleftrightarrow> v' = JUndef"
  unfolding alike_member_def by (elim disjE conjE exE) simp_all

lemma alike_numbers: "alike_outcome b64 x y \<Longrightarrow> check_numbers x = check_numbers y"
  unfolding alike_outcome_def
proof (induction x y rule: list_all2_induct)
  case (Cons a xs b ys)
  obtain n v v' where ab: "a = (n, v)" "b = (n, v')" and alike: "alike_member b64 n v v'" using Cons(1) by auto
  have "effect_number n \<and> bad_number v \<longleftrightarrow> effect_number n \<and> bad_number v'"
  proof (cases "n \<in> {''headers'', ''body'', ''bodyBase64'', ''metadata''}")
    case True
    then have "\<not> effect_number n" by (auto simp: effect_number_def ends_with_def)
    then show ?thesis by simp
  next
    case False
    with alike_plain [OF alike] show ?thesis by simp
  qed
  with Cons ab show ?case by simp
qed simp

lemma alike_put:
  "alike_outcome b64 x y \<Longrightarrow> alike_member b64 k v v' \<Longrightarrow> alike_outcome b64 (js_put x k v) (js_put y k v')"
  unfolding alike_outcome_def by (induction x y rule: list_all2_induct) auto

lemma keys_update: "map fst (AList.update k v xs) = map fst (AList.update k w ys)" if "map fst xs = map fst ys"
  using that by (induction xs arbitrary: ys) (auto simp: Cons_eq_map_conv)

lemma normalizeHeaders_keys:
  "map fst hs = map fst hs' \<Longrightarrow> map fst (normalizeHeaders hs) = map fst (normalizeHeaders hs')"
proof -
  have "map fst out = map fst out' \<Longrightarrow> map fst hs = map fst hs' \<Longrightarrow>
      map fst (foldl (\<lambda>out (name, value). AList.update (lower name) value out) out hs)
      = map fst (foldl (\<lambda>out (name, value). AList.update (lower name) value out) out' hs')" for out out'
  proof (induction hs arbitrary: hs' out out')
    case (Cons a hs)
    obtain n v where a: "a = (n, v)" by fastforce
    with Cons(3) obtain w bs where hs': "hs' = (n, w) # bs" "map fst hs = map fst bs" by (auto simp: Cons_eq_map_conv)
    from Cons(1) [OF keys_update [OF Cons(2)] hs'(2), of "lower n" v w] show ?case by (simp add: a hs'(1))
  qed simp
  then show "map fst hs = map fst hs' \<Longrightarrow> ?thesis" unfolding normalizeHeaders_def by blast
qed


lemma alike_effects:
  "alike_outcome b64 x y \<Longrightarrow>
   (\<exists>(name, v) \<in> set x. v \<noteq> JUndef \<and> P name) \<longleftrightarrow> (\<exists>(name, v) \<in> set y. v \<noteq> JUndef \<and> P name)"
  unfolding alike_outcome_def
proof (induction x y rule: list_all2_induct)
  case (Cons a xs b ys)
  obtain n v v' where ab: "a = (n, v)" "b = (n, v')" and alike: "alike_member b64 n v v'" using Cons(1) by auto
  from alike_undefined [OF alike] Cons(3) show ?case by (simp add: ab)
qed simp

lemma headers_of_keys: "map fst (headers_of (JObj hs)) = map fst hs"
  by (simp add: headers_of_def comp_def case_prod_beta)

lemma alike_headers:
  assumes "alike_member b64 ''headers'' v v'"
  shows "alike_member b64 ''headers''
    (if js_truthy v then headers_value (normalizeHeaders (headers_of v)) else JUndef)
    (if js_truthy v' then headers_value (normalizeHeaders (headers_of v')) else JUndef)"
proof (cases "v = v'")
  case False
  with assms obtain hs hs' where hs: "v = JObj hs" "v' = JObj hs'" "map fst hs = map fst hs'" by (auto simp: alike_member_def)
  then have "map fst (normalizeHeaders (headers_of v)) = map fst (normalizeHeaders (headers_of v'))"
    by (intro normalizeHeaders_keys) (simp add: headers_of_keys)
  with hs show ?thesis by (auto simp: alike_member_def headers_value_def comp_def case_prod_beta)
qed (simp add: alike_member_def)

lemma alike_normalize:
  assumes "alike_outcome b64 x y"
  shows "rel_sum (=) (alike_outcome b64) (normalizeTransportFaultOutcome x) (normalizeTransportFaultOutcome y)"
proof -
  have eq: "js_get x ''passthrough'' = js_get y ''passthrough''" "js_get x ''status'' = js_get y ''status''"
    using alike_plain [OF alike_get [OF assms]] by auto
  have effects: "(\<exists>(name, v) \<in> set x. v \<noteq> JUndef \<and> name \<noteq> ''passthrough'' \<and> name \<noteq> ''metadata'')
      \<longleftrightarrow> (\<exists>(name, v) \<in> set y. v \<noteq> JUndef \<and> name \<noteq> ''passthrough'' \<and> name \<noteq> ''metadata'')"
    by (rule alike_effects [OF assms])
  define x' where "x' = js_put x ''headers'' (if js_truthy (js_get x ''headers'')
      then headers_value (normalizeHeaders (headers_of (js_get x ''headers''))) else JUndef)"
  define y' where "y' = js_put y ''headers'' (if js_truthy (js_get y ''headers'')
      then headers_value (normalizeHeaders (headers_of (js_get y ''headers''))) else JUndef)"
  have "alike_outcome b64 x' y'"
    unfolding x'_def y'_def by (rule alike_put [OF assms alike_headers [OF alike_get [OF assms]]])
  then show ?thesis
    unfolding normalizeTransportFaultOutcome_def Let_def x'_def [symmetric] y'_def [symmetric] eq effects alike_numbers [OF assms]
    by (simp split: sum.split)
qed

lemma alike_normalize_outcomes:
  "list_all2 (alike_outcome b64) xs ys \<Longrightarrow> rel_sum (=) (list_all2 (alike_outcome b64)) (normalize_outcomes xs) (normalize_outcomes ys)"
proof (induction xs ys rule: list_all2_induct)
  case (Cons x xs y ys)
  from alike_normalize [OF Cons(1)] Cons(3) show ?case by (auto split: sum.split elim: rel_sum.cases)
qed simp

lemma alike_match:
  assumes "m\<lparr>rm_headers := None\<rparr> = m'\<lparr>rm_headers := None\<rparr>"
  shows "rm_host m = rm_host m'" "rm_method m = rm_method m'" "rm_path m = rm_path m'" "rm_pathPattern m = rm_pathPattern m'"
  using arg_cong [OF assms, of rm_host] arg_cong [OF assms, of rm_method] arg_cong [OF assms, of rm_path]
    arg_cong [OF assms, of rm_pathPattern] by simp_all

lemma alike_normalize_rule:
  assumes "alike_rule b64 r r'"
  shows "rel_sum (=) (alike_rule b64) (normalize_rule compiles ids r) (normalize_rule compiles ids r')"
proof -
  have outcomes: "list_all2 (alike_outcome b64) (fr_sequence r) (fr_sequence r')" and fid: "fr_id r = fr_id r'"
    and pattern: "rm_pathPattern (fr_match r) = rm_pathPattern (fr_match r')"
    using assms alike_match [of "fr_match r" "fr_match r'"] by (auto simp: alike_rule_def)
  have empty: "fr_sequence r = [] \<longleftrightarrow> fr_sequence r' = []" using list_all2_lengthD [OF outcomes] by auto
  have "rel_sum (=) (alike_rule b64)
      (case normalize_outcomes (fr_sequence r) of Inl e \<Rightarrow> Inl e | Inr os \<Rightarrow> Inr (r\<lparr>fr_sequence := os\<rparr>))
      (case normalize_outcomes (fr_sequence r') of Inl e \<Rightarrow> Inl e | Inr os \<Rightarrow> Inr (r'\<lparr>fr_sequence := os\<rparr>))"
    using alike_normalize_outcomes [OF outcomes] assms
    by (auto simp: alike_rule_def split: sum.split elim: rel_sum.cases)
  then show ?thesis unfolding normalize_rule_def fid pattern empty by (simp split: option.split)
qed

lemma alike_normalize_rules:
  "list_all2 (alike_rule b64) rs rs' \<Longrightarrow>
   rel_sum (=) (list_all2 (alike_rule b64)) (normalize_rules compiles ids rs) (normalize_rules compiles ids rs')"
proof (induction rs rs' arbitrary: ids rule: list_all2_induct)
  case (Cons r rs r' rs')
  have "fr_id r = fr_id r'" using Cons(1) by (simp add: alike_rule_def)
  with alike_normalize_rule [OF Cons(1), of compiles ids] Cons(3) [of "insert (fr_id r') ids"]
  show ?case by (auto split: sum.split elim: rel_sum.cases)
qed simp

lemma alike_transportFaultModel:
  "alike_model b64 m m' \<Longrightarrow> rel_sum (=) (alike_model b64) (transportFaultModel compiles m) (transportFaultModel compiles m')"
  using alike_normalize_rules [of b64 "fm_rules m" "fm_rules m'" compiles "{}"]
  by (auto simp: transportFaultModel_def alike_model_def split: sum.split elim: rel_sum.cases)

lemma alike_safe_outcome:
  assumes "alike_outcome b64 x y"
  shows "safeTransportFaultOutcome redact b64 x = safeTransportFaultOutcome redact b64 y"
proof -
  have kept: "filter (\<lambda>(k, v). k \<notin> set withheld) x = filter (\<lambda>(k, v). k \<notin> set withheld) y"
    using assms unfolding alike_outcome_def
  proof (induction x y rule: list_all2_induct)
    case (Cons a xs b ys)
    obtain n v v' where ab: "a = (n, v)" "b = (n, v')" and alike: "alike_member b64 n v v'" using Cons(1) by auto
    from alike_plain [OF alike] Cons(3) show ?case by (auto simp: ab withheld_def)
  qed simp
  note get = alike_get [OF assms]
  have host: "js_get x ''remapHost'' = js_get y ''remapHost''" using alike_plain [OF get] by simp
  have names: "(if js_truthy (js_get x ''headers'') then header_names (map fst (record_fields (js_get x ''headers''))) else JUndef)
      = (if js_truthy (js_get y ''headers'') then header_names (map fst (record_fields (js_get y ''headers''))) else JUndef)"
    using get [of "''headers''"] by (auto simp: alike_member_def)
  have meta: "js_truthy (js_get x ''metadata'') = js_truthy (js_get y ''metadata'')" using alike_truthy [OF get] by simp
  have bodies: "(js_get x ''body'' \<noteq> JUndef) = (js_get y ''body'' \<noteq> JUndef)" "(js_get x ''bodyBase64'' \<noteq> JUndef) = (js_get y ''bodyBase64'' \<noteq> JUndef)"
      "utf8_bytes (js_string (js_get x ''body'')) = utf8_bytes (js_string (js_get y ''body''))"
      "b64 (js_string (js_get x ''bodyBase64'')) = b64 (js_string (js_get y ''bodyBase64''))"
    using get [of "''body''"] get [of "''bodyBase64''"] by (auto simp: alike_member_def)
  show ?thesis unfolding safeTransportFaultOutcome_def Let_def kept host names meta bodies ..
qed

lemma alike_safe_rule: "alike_rule b64 r r' \<Longrightarrow> safe_rule_of redact b64 r = safe_rule_of redact b64 r'"
proof -
  assume r: "alike_rule b64 r r'"
  then have outcomes: "list_all2 (alike_outcome b64) (fr_sequence r) (fr_sequence r')" by (simp add: alike_rule_def)
  have "map (safeTransportFaultOutcome redact b64) (fr_sequence r) = map (safeTransportFaultOutcome redact b64) (fr_sequence r')"
    using outcomes by (induction rule: list_all2_induct) (auto simp: alike_safe_outcome)
  moreover have "map_option (\<lambda>hs. sort (map lower (map fst hs))) (rm_headers (fr_match r))
      = map_option (\<lambda>hs. sort (map lower (map fst hs))) (rm_headers (fr_match r'))"
  proof -
    from r have "map_option (map fst) (rm_headers (fr_match r)) = map_option (map fst) (rm_headers (fr_match r'))"
      by (simp add: alike_rule_def)
    from arg_cong [OF this, of "map_option (\<lambda>names. sort (map lower names))"] show ?thesis by (simp add: option.map_comp comp_def)
  qed
  ultimately show ?thesis using r alike_match [of "fr_match r" "fr_match r'"] by (auto simp: safe_rule_of_def alike_rule_def)
qed

text \<open>
  C23: the published schedule depends on no secret of the model.  Two models that look alike, so that they
  differ only in header values, in the text of bodies of equal size and in the content of metadata, have
  the same schedule and the same fingerprint, or are refused for the same reason.
\<close>

theorem safe_schedule_noninterference:
  assumes "alike_model base64_bytes m m'"
  shows "transportFaultSafeSchedule urls base64_bytes compiles fingerprint m
    = transportFaultSafeSchedule urls base64_bytes compiles fingerprint m'"
proof -
  have rules: "map (safe_rule_of redact base64_bytes) (fm_rules n) = map (safe_rule_of redact base64_bytes) (fm_rules n')"
    if "alike_model base64_bytes n n'" for n n' redact
  proof -
    from that have "list_all2 (alike_rule base64_bytes) (fm_rules n) (fm_rules n')" by (simp add: alike_model_def)
    then show ?thesis by (induction rule: list_all2_induct) (auto simp: alike_safe_rule)
  qed
  have "alike_model base64_bytes n n' \<Longrightarrow> transportFaultModel compiles m = Inr n \<Longrightarrow> transportFaultModel compiles m' = Inr n' \<Longrightarrow> ?thesis"
    for n n' using rules [of n n'] by (auto simp: transportFaultSafeSchedule_def alike_model_def Let_def)
  with alike_transportFaultModel [OF assms, of compiles] show ?thesis
    by (auto simp: transportFaultSafeSchedule_def elim: rel_sum.cases)
qed

definition sample_urls :: url_redactor where
  "sample_urls = \<lparr>ur_parse = (\<lambda>_. None), ur_print = up_host\<rparr>"

definition sample_secret_model :: "string \<Rightarrow> fault_model" where
  "sample_secret_model secret = sample_fault_model\<lparr>fm_rules := [sample_fault_rule\<lparr>fr_sequence := [[(''body'', JStr secret)]]\<rparr>]\<rparr>"

theorem safe_schedule_noninterference_witness:
  "transportFaultSafeSchedule sample_urls length (\<lambda>_. True) ss_seed (sample_secret_model ''hunter2'')
    = transportFaultSafeSchedule sample_urls length (\<lambda>_. True) ss_seed (sample_secret_model ''letmein'')"
  by (rule safe_schedule_noninterference)
    (simp add: alike_model_def alike_rule_def alike_outcome_def alike_member_def sample_secret_model_def utf8_bytes_def)

section \<open>The fallback of the URL redaction\<close>

text \<open>
  The pattern of the fallback puts the value of the parameter into the group it keeps, so nothing is
  removed from text that does not parse as a URL: every character of it survives.
\<close>

lemma redact_fallback_keeps: "subseq raw (redact_fallback raw)"
proof (induction raw rule: redact_fallback.induct)
  case (2 c cs)
  show ?case
  proof (cases "if c = CHR ''?'' \<or> c = CHR ''&'' then secret_name cs else None")
    case None
    with 2(1) show ?thesis by simp
  next
    case (Some name)
    define n where "n = length name + length (takeWhile (\<lambda>d. d \<noteq> CHR ''&'' \<and> d \<noteq> CHR ''#'') (drop (length name) cs))"
    have "subseq (drop n cs) (redact_fallback (drop n cs))" using 2(2) [OF Some refl refl] by (simp add: n_def)
    then have "subseq (take n cs @ drop n cs) (take n cs @ REDACTED_VALUE @ redact_fallback (drop n cs))"
      by (intro list_emb_append_mono list_emb_append2) simp_all
    with Some show ?thesis by (simp add: Let_def n_def)
  qed
qed simp

lemma redactTransportUrl_leaks:
  assumes "ur_parse urls raw = None"
  shows "subseq raw (redactTransportUrl urls raw)"
  using assms redact_fallback_keeps by (simp add: redactTransportUrl_def)

lemma redact_fallback_sample: "redact_fallback ''/p?token=hunter2'' = ''/p?token=hunter2[redacted]''"
  by code_simp

text \<open>Negotiation accepts exactly the models whose every semantic the adapter declares and supports.\<close>

lemma negotiation_exact:
  "ng_supported (negotiateTransportFaults m capabilities) \<longleftrightarrow>
     (\<forall>r \<in> set (fm_rules m). \<forall>o1 \<in> set (fr_sequence r). \<forall>s \<in> set (transportFaultOutcomeSemantics o1).
        \<exists>c. find (\<lambda>c. ft_semantic c = s) (fs_capabilities capabilities) = Some c \<and> ft_fidelity c \<noteq> Unsupported)"
  by (fastforce simp: negotiateTransportFaults_def Let_def filter_empty_conv capability_for_def split: option.splits)



end
