(* ===== verification/Stable_Json.thy ===== *)
theory Stable_Json
  imports Js_Conversions "HOL-Library.List_Lexorder" "HOL-Library.Multiset"
begin

text \<open>
  \<open>stableJson\<close> of \<open>packages/runtime-core/src/object-utils.ts\<close>: the serialization under every fingerprint.
  Members are printed in the order of their keys, arrays are cut after 2000 items, objects after 300
  members, and values below depth 30 print as a marker.  \<open>JSON.stringify(undefined)\<close> is \<open>undefined\<close>, here
  \<open>None\<close>; \<open>join\<close> prints it as nothing and a template string as the word.  Errors, functions and cyclic
  objects are not values of the model.
\<close>

section \<open>Printing strings and numbers\<close>

definition hex_digit :: "nat \<Rightarrow> char" where
  "hex_digit n = (if n < 10 then char_of (48 + n) else char_of (87 + n))"

definition json_escape :: "char \<Rightarrow> string" where
  "json_escape c =
     (let n = (of_char c :: nat) in
      if n = 34 then [CHR 0x5C, CHR 0x22]
      else if n = 92 then [CHR 0x5C, CHR 0x5C]
      else if n = 8 then CHR 0x5C # ''b''
      else if n = 9 then CHR 0x5C # ''t''
      else if n = 10 then CHR 0x5C # ''n''
      else if n = 12 then CHR 0x5C # ''f''
      else if n = 13 then CHR 0x5C # ''r''
      else if n < 32 then CHR 0x5C # ''u00'' @ [hex_digit (n div 16), hex_digit (n mod 16)]
      else [c])"

definition json_quote :: "string \<Rightarrow> string" where
  "json_quote s = CHR 0x22 # concat (map json_escape s) @ [CHR 0x22]"

definition json_number :: "jsnum \<Rightarrow> string" where
  "json_number n = (case n of Fin _ \<Rightarrow> js_number_string n | _ \<Rightarrow> ''null'')"

section \<open>The serialization\<close>

lemma size_member: "(k, v) \<in> set obj \<Longrightarrow> size v \<le> size_list (size_prod (\<lambda>x. 0) size) obj"
  by (induction obj) auto

lemma size_item: "v \<in> set vs \<Longrightarrow> size v \<le> size_list size vs"
  by (induction vs) auto

function stableJsonValue :: "nat \<Rightarrow> jsval \<Rightarrow> string option" where
  "stableJsonValue depth value =
     (if depth > 30 then Some (json_quote ''[max-depth]'')
      else case value of
        JUndef \<Rightarrow> None
      | JNull \<Rightarrow> Some ''null''
      | JBool b \<Rightarrow> Some (if b then ''true'' else ''false'')
      | JNum n \<Rightarrow> Some (json_number n)
      | JStr s \<Rightarrow> Some (json_quote s)
      | JArr vs \<Rightarrow> Some (''['' @ join_with '',''
          (map (\<lambda>v. case stableJsonValue (depth + 1) v of None \<Rightarrow> [] | Some t \<Rightarrow> t) (take 2000 vs)) @ '']'')
      | JObj obj \<Rightarrow> Some (''{'' @ join_with '',''
          (map (\<lambda>(k, v). json_quote k @ '':'' @ (case stableJsonValue (depth + 1) v of None \<Rightarrow> ''undefined'' | Some t \<Rightarrow> t))
            (take 300 (sort_key fst obj))) @ ''}''))"
  by pat_completeness auto

termination stableJsonValue
  by (relation "measure (\<lambda>(depth, v). size v)")
     (auto dest!: in_set_takeD intro: size_member size_item simp: less_Suc_eq_le)

declare stableJsonValue.simps [simp del]

definition stableJson :: "jsval \<Rightarrow> string option" where
  "stableJson value = stableJsonValue 0 value"

text \<open>The text that template strings and \<open>hash.update\<close> see.\<close>

definition stable_text :: "jsval \<Rightarrow> string" where
  "stable_text value = (case stableJson value of None \<Rightarrow> ''undefined'' | Some t \<Rightarrow> t)"

section \<open>The order of members does not show\<close>

text \<open>Values that differ in the order of the members of their objects only, at any depth.\<close>

inductive same_members :: "jsval \<Rightarrow> jsval \<Rightarrow> bool" where
  same_refl: "same_members v v"
| same_array: "list_all2 same_members vs ws \<Longrightarrow> same_members (JArr vs) (JArr ws)"
| same_object: "distinct (map fst obj) \<Longrightarrow> mset obj' = mset obj \<Longrightarrow>
    list_all2 (\<lambda>p q. fst p = fst q \<and> same_members (snd p) (snd q)) obj' obj'' \<Longrightarrow>
    same_members (JObj obj) (JObj obj'')"

lemma sort_key_keys:
  assumes "list_all2 (\<lambda>p q. fst p = fst q \<and> P (snd p) (snd q)) xs ys" and "distinct (map fst xs)"
  shows "list_all2 (\<lambda>p q. fst p = fst q \<and> P (snd p) (snd q)) (sort_key fst xs) (sort_key fst ys)"
proof -
  define ps where "ps = sort_key (\<lambda>p. fst (fst p)) (zip xs ys)"
  have len: "length xs = length ys" using assms(1) by (rule list_all2_lengthD)
  have rel: "fst (fst p) = fst (snd p) \<and> P (snd (fst p)) (snd (snd p))" if "p \<in> set (zip xs ys)" for p
    using assms(1) that by (auto simp: list_all2_iff)
  have ps: "set ps = set (zip xs ys)" "mset ps = mset (zip xs ys)" by (simp_all add: ps_def)
  have "sorted (map (\<lambda>p. fst (fst p)) ps)" by (simp add: ps_def)
  then have s1: "sorted (map fst (map fst ps))" by (simp add: comp_def)
  have "map fst (map snd ps) = map fst (map fst ps)" using rel ps(1) by auto
  with s1 have s2: "sorted (map fst (map snd ps))" by (simp only:)
  have "mset (map fst ps) = mset (map fst (zip xs ys))" "mset (map snd ps) = mset (map snd (zip xs ys))"
    using ps(2) by (simp_all del: map_fst_zip map_snd_zip)
  then have m: "mset (map fst ps) = mset xs" "mset (map snd ps) = mset ys" using len by simp_all
  have ks: "map fst ys = map fst xs" using assms(1) by (induction rule: list_all2_induct) auto
  have x: "sort_key fst xs = map fst ps"
    using m(1) s1 assms(2) by (intro sort_key_inj_key_eq) (simp_all add: distinct_map)
  have y: "sort_key fst ys = map snd ps"
    using m(2) s2 assms(2) ks [symmetric] by (intro sort_key_inj_key_eq) (simp_all only: distinct_map)
  show ?thesis unfolding x y list.rel_map by (rule list.rel_refl_strong) (use rel ps(1) in blast)
qed

lemma stableJsonValue_same: "same_members v w \<Longrightarrow> stableJsonValue depth v = stableJsonValue depth w"
proof (induction arbitrary: depth rule: same_members.induct)
  case (same_array vs ws)
  have "list_all2 (\<lambda>v w. \<forall>depth. stableJsonValue depth v = stableJsonValue depth w) vs ws"
    using same_array by (rule list_all2_mono) blast
  then have "map (\<lambda>v. case stableJsonValue (depth + 1) v of None \<Rightarrow> [] | Some t \<Rightarrow> t) (take 2000 vs)
      = map (\<lambda>v. case stableJsonValue (depth + 1) v of None \<Rightarrow> [] | Some t \<Rightarrow> t) (take 2000 ws)"
    by (auto simp: list_all2_conv_all_nth intro!: nth_equalityI)
  then show ?case unfolding stableJsonValue.simps [of depth "JArr vs"] stableJsonValue.simps [of depth "JArr ws"] jsval.case
    by (simp only:)
next
  case (same_object obj obj' obj'')
  have "distinct (map fst obj')" using same_object(1,2) by (metis mset_map mset_eq_imp_distinct_iff)
  moreover have "list_all2 (\<lambda>p q. fst p = fst q \<and> (\<forall>depth. stableJsonValue depth (snd p) = stableJsonValue depth (snd q))) obj' obj''"
    using same_object(3) by (rule list_all2_mono) blast
  ultimately have rel: "list_all2 (\<lambda>p q. fst p = fst q \<and> (\<forall>depth. stableJsonValue depth (snd p) = stableJsonValue depth (snd q)))
      (sort_key fst obj') (sort_key fst obj'')"
    by (intro sort_key_keys [where P = "\<lambda>v w. \<forall>depth. stableJsonValue depth v = stableJsonValue depth w"])
  have "sort_key fst obj = sort_key fst obj'"
  proof (rule sort_key_inj_key_eq)
    show "mset obj = mset (sort_key fst obj')" using same_object(2) by (simp only: mset_sort)
    show "inj_on fst (set obj)" using same_object(1) by (simp only: distinct_map)
  qed simp
  with rel have "map (\<lambda>(k, v). json_quote k @ '':'' @ (case stableJsonValue (depth + 1) v of None \<Rightarrow> ''undefined'' | Some t \<Rightarrow> t))
        (take 300 (sort_key fst obj))
      = map (\<lambda>(k, v). json_quote k @ '':'' @ (case stableJsonValue (depth + 1) v of None \<Rightarrow> ''undefined'' | Some t \<Rightarrow> t))
        (take 300 (sort_key fst obj''))"
    by (auto simp: list_all2_conv_all_nth split_beta intro!: nth_equalityI)
  then show ?case unfolding stableJsonValue.simps [of depth "JObj obj"] stableJsonValue.simps [of depth "JObj obj''"] jsval.case
    by (simp only:)
qed simp

end
