(* ===== verification/Adversarial_Mutation.thy ===== *)
theory Adversarial_Mutation
  imports Stable_Json Redaction "HOL-Library.Word" "HOL-Library.AList"
begin

text \<open>
  The deterministic half of \<open>packages/runtime-core/src/adversarial-campaign.ts\<close>: validating a campaign,
  its budgets, and mutating corpus entries from the seed.  \<open>digest32\<close> is the first four bytes of the
  SHA-256 digest of a text as a number, \<open>sha256\<close> its hexadecimal form.  The two boundary strings
  outside Latin-1 (a right-to-left mark and an emoji) are arguments, in the record of the platform.
\<close>

section \<open>Types\<close>

datatype mutation_kind = Scalar | Structured | Binary | Sequence

fun mutation_name :: "mutation_kind \<Rightarrow> string" where
  "mutation_name Scalar = ''scalar''"
| "mutation_name Structured = ''structured''"
| "mutation_name Binary = ''binary''"
| "mutation_name Sequence = ''sequence''"

datatype case_status = Case_passed | Case_failed | Case_error | Case_timed_out | Case_resource_exhausted

fun case_status_name :: "case_status \<Rightarrow> string" where
  "case_status_name Case_passed = ''passed''"
| "case_status_name Case_failed = ''failed''"
| "case_status_name Case_error = ''error''"
| "case_status_name Case_timed_out = ''timed-out''"
| "case_status_name Case_resource_exhausted = ''resource-exhausted''"

record clock_entry =
  ck_surface :: string
  ck_operation :: string
  ck_time :: jsval
  ck_milliseconds :: jsval

record adv_action =
  aa_type :: string
  aa_input :: jsval
  aa_clock :: "clock_entry list option"
  aa_metadata :: jsval

record corpus_entry =
  ce_id :: string
  ce_actions :: "adv_action list"
  ce_input :: jsval
  ce_signals :: "string list option"
  ce_metadata :: jsval

record resource_budget =
  rb_maxCases :: nat
  rb_maxActionsPerCase :: nat
  rb_maxInputBytes :: nat
  rb_maxCaseTimeMs :: nat
  rb_maxWallTimeMs :: nat
  rb_maxArtifactBytes :: nat
  rb_workers :: nat

record matrix_dimension =
  md_name :: string
  md_values :: "string list"

record oracle_contract =
  oc_id :: string
  oc_severity :: string
  oc_description :: jsval
  oc_metadata :: jsval

record adv_campaign =
  cp_id :: string
  cp_seed :: string
  cp_corpus :: "corpus_entry list"
  cp_mutationKinds :: "mutation_kind list"
  cp_budgets :: resource_budget
  cp_oracles :: "oracle_contract list"
  cp_matrix :: "matrix_dimension list option"
  cp_faults :: jsval
  cp_provenance :: jsval
  cp_replayCommand :: "string option"
  cp_metadata :: jsval

record campaign_input =
  ci_id :: string
  ci_seed :: string
  ci_corpus :: "corpus_entry list"
  ci_mutationKinds :: "mutation_kind list option"
  ci_budgets :: "string \<Rightarrow> jsnum option" \<comment> \<open>the members of the partial budget that are given\<close>
  ci_oracles :: "oracle_contract list option"
  ci_matrix :: "matrix_dimension list option"
  ci_faults :: jsval
  ci_provenance :: jsval
  ci_replayCommand :: "string option"
  ci_metadata :: jsval

record mutation_note =
  mn_kind :: mutation_kind
  mn_path :: string
  mn_description :: string

record case_plan =
  pl_id :: string
  pl_caseId :: string
  pl_corpusId :: string
  pl_iteration :: nat
  pl_workerId :: nat
  pl_matrix :: "(string \<times> string) list"
  pl_actions :: "adv_action list"
  pl_input :: jsval
  pl_mutation :: mutation_note
  pl_metadata :: jsval

datatype campaign_error = Empty_id_or_seed | Empty_corpus | Bad_corpus_id string
  | Bad_clock_surface nat | Bad_clock_operation nat | Bad_clock_time string nat | Bad_clock_milliseconds nat | Bad_clock_restore nat | Buffer_of_undefined

record platform =
  pf_digest32 :: "string \<Rightarrow> nat"
  pf_sha256 :: "string \<Rightarrow> string"
  pf_rtl_text :: string
  pf_emoji :: string

section \<open>Numbers from the seed\<close>

definition deterministicInteger :: "platform \<Rightarrow> string \<Rightarrow> nat \<Rightarrow> nat" where
  "deterministicInteger pf seed maximum = (if maximum \<le> 1 then 0 else pf_digest32 pf seed mod maximum)"

lemma deterministicInteger_less: "0 < maximum \<Longrightarrow> deterministicInteger pf seed maximum < maximum"
  by (simp add: deterministicInteger_def)

definition boundedInteger :: "jsnum option \<Rightarrow> nat \<Rightarrow> nat \<Rightarrow> nat \<Rightarrow> nat" where
  "boundedInteger value fallback minimum maximum =
     (case value of
        Some (Fin q) \<Rightarrow> nat (max (int minimum) (min (int maximum) \<lfloor>q\<rfloor>))
      | _ \<Rightarrow> fallback)"

lemma boundedInteger_bounds:
  "minimum \<le> maximum \<Longrightarrow> minimum \<le> fallback \<Longrightarrow> fallback \<le> maximum \<Longrightarrow>
   minimum \<le> boundedInteger value fallback minimum maximum \<and> boundedInteger value fallback minimum maximum \<le> maximum"
  by (auto simp: boundedInteger_def split: option.split jsnum.split)

definition normalizeBudgets :: "(string \<Rightarrow> jsnum option) \<Rightarrow> resource_budget" where
  "normalizeBudgets input =
     \<lparr>rb_maxCases = boundedInteger (input ''maxCases'') 100 1 100000,
      rb_maxActionsPerCase = boundedInteger (input ''maxActionsPerCase'') 50 1 10000,
      rb_maxInputBytes = boundedInteger (input ''maxInputBytes'') 1048576 1 (64 * 1048576),
      rb_maxCaseTimeMs = boundedInteger (input ''maxCaseTimeMs'') 30000 1 3600000,
      rb_maxWallTimeMs = boundedInteger (input ''maxWallTimeMs'') 300000 1 86400000,
      rb_maxArtifactBytes = boundedInteger (input ''maxArtifactBytes'') (100 * 1048576) 1 (4 * 1024 * 1048576),
      rb_workers = boundedInteger (input ''workers'') 1 1 128\<rparr>"

lemma normalizeBudgets_bounds:
  "1 \<le> rb_maxCases (normalizeBudgets input) \<and> rb_maxCases (normalizeBudgets input) \<le> 100000
   \<and> 1 \<le> rb_workers (normalizeBudgets input) \<and> rb_workers (normalizeBudgets input) \<le> 128
   \<and> 1 \<le> rb_maxActionsPerCase (normalizeBudgets input) \<and> 1 \<le> rb_maxInputBytes (normalizeBudgets input)"
  unfolding normalizeBudgets_def
  using boundedInteger_bounds [of 1 100000 100 "input ''maxCases''"] boundedInteger_bounds [of 1 128 1 "input ''workers''"]
    boundedInteger_bounds [of 1 10000 50 "input ''maxActionsPerCase''"]
    boundedInteger_bounds [of 1 "64 * 1048576" 1048576 "input ''maxInputBytes''"] by simp

section \<open>Validation\<close>

definition nonnegative_integer :: "jsval \<Rightarrow> bool" where
  "nonnegative_integer v = (case safe_integer v of None \<Rightarrow> False | Some i \<Rightarrow> 0 \<le> i)"

definition normalize_clock_entry :: "nat \<Rightarrow> clock_entry \<Rightarrow> campaign_error + clock_entry" where
  "normalize_clock_entry index entry =
     (let op = ck_operation entry in
      if ck_surface entry \<notin> {''runtime'', ''wordpress'', ''scheduler'', ''database''} then Inl (Bad_clock_surface index)
      else if op \<notin> {''freeze'', ''advance'', ''skew'', ''restore''} then Inl (Bad_clock_operation index)
      else if (op = ''freeze'' \<or> op = ''skew'') \<and> \<not> nonnegative_integer (ck_time entry) then Inl (Bad_clock_time op index)
      else if op = ''advance'' \<and> \<not> nonnegative_integer (ck_milliseconds entry) then Inl (Bad_clock_milliseconds index)
      else if op = ''restore'' \<and> (ck_time entry \<noteq> JUndef \<or> ck_milliseconds entry \<noteq> JUndef) then Inl (Bad_clock_restore index)
      else Inr (if op = ''advance'' then entry\<lparr>ck_time := JUndef\<rparr>
                else if op = ''freeze'' \<or> op = ''skew'' then entry\<lparr>ck_milliseconds := JUndef\<rparr>
                else entry\<lparr>ck_time := JUndef, ck_milliseconds := JUndef\<rparr>))"

fun normalize_clock_from :: "nat \<Rightarrow> clock_entry list \<Rightarrow> campaign_error + clock_entry list" where
  "normalize_clock_from index [] = Inr []"
| "normalize_clock_from index (e # es) =
     (case normalize_clock_entry index e of
        Inl err \<Rightarrow> Inl err
      | Inr e' \<Rightarrow> (case normalize_clock_from (index + 1) es of Inl err \<Rightarrow> Inl err | Inr es' \<Rightarrow> Inr (e' # es')))"

definition normalizeAdversarialClockSchedule :: "clock_entry list \<Rightarrow> campaign_error + clock_entry list" where
  "normalizeAdversarialClockSchedule entries = normalize_clock_from 0 entries"

fun normalize_actions :: "adv_action list \<Rightarrow> campaign_error + adv_action list" where
  "normalize_actions [] = Inr []"
| "normalize_actions (a # as) =
     (case (case aa_clock a of None \<Rightarrow> Inr None
            | Some entries \<Rightarrow> (case normalizeAdversarialClockSchedule entries of Inl e \<Rightarrow> Inl e | Inr es \<Rightarrow> Inr (Some es))) of
        Inl e \<Rightarrow> Inl e
      | Inr clock \<Rightarrow> (case normalize_actions as of Inl e \<Rightarrow> Inl e | Inr rest \<Rightarrow> Inr (a\<lparr>aa_clock := clock\<rparr> # rest)))"

definition normalizeCorpusEntry :: "corpus_entry \<Rightarrow> campaign_error + corpus_entry" where
  "normalizeCorpusEntry entry =
     (case normalize_actions (ce_actions entry) of
        Inl e \<Rightarrow> Inl e
      | Inr actions \<Rightarrow> Inr (entry\<lparr>ce_actions := actions,
          ce_signals := map_option (\<lambda>signals. sort (js_unique signals)) (ce_signals entry)\<rparr>))"

fun normalize_corpus :: "corpus_entry list \<Rightarrow> campaign_error + corpus_entry list" where
  "normalize_corpus [] = Inr []"
| "normalize_corpus (e # es) =
     (case normalizeCorpusEntry e of
        Inl err \<Rightarrow> Inl err
      | Inr e' \<Rightarrow> (case normalize_corpus es of Inl err \<Rightarrow> Inl err | Inr es' \<Rightarrow> Inr (e' # es')))"

fun check_corpus_ids :: "string set \<Rightarrow> corpus_entry list \<Rightarrow> campaign_error + unit" where
  "check_corpus_ids ids [] = Inr ()"
| "check_corpus_ids ids (e # es) =
     (if ce_id e = [] \<or> ce_id e \<in> ids then Inl (Bad_corpus_id (ce_id e)) else check_corpus_ids (insert (ce_id e) ids) es)"

definition adversarialCampaign :: "campaign_input \<Rightarrow> campaign_error + adv_campaign" where
  "adversarialCampaign input =
     (if ci_id input = [] \<or> ci_seed input = [] then Inl Empty_id_or_seed
      else if ci_corpus input = [] then Inl Empty_corpus
      else case check_corpus_ids {} (ci_corpus input) of
        Inl e \<Rightarrow> Inl e
      | Inr _ \<Rightarrow>
          (case normalize_corpus (ci_corpus input) of
             Inl e \<Rightarrow> Inl e
           | Inr corpus \<Rightarrow> Inr
               \<lparr>cp_id = ci_id input, cp_seed = ci_seed input, cp_corpus = corpus,
                cp_mutationKinds = (case ci_mutationKinds input of
                   Some (k # ks) \<Rightarrow> js_unique (k # ks) | _ \<Rightarrow> [Scalar, Structured, Binary, Sequence]),
                cp_budgets = normalizeBudgets (ci_budgets input),
                cp_oracles = (case ci_oracles input of None \<Rightarrow> [] | Some os \<Rightarrow> os),
                cp_matrix = ci_matrix input, cp_faults = ci_faults input, cp_provenance = ci_provenance input,
                cp_replayCommand = ci_replayCommand input, cp_metadata = ci_metadata input\<rparr>))"

section \<open>Leaves of a value\<close>

datatype path_segment = Member string | Item nat

lemma size_enumerated: "(i, v) \<in> set (List.enumerate n vs) \<Longrightarrow> size v \<le> size_list size vs"
  using size_item [of v vs] by (auto simp: in_set_enumerate_eq)

function collectValueLeaves :: "jsval \<Rightarrow> path_segment list \<Rightarrow> (path_segment list \<times> jsval) list" where
  "collectValueLeaves (JArr vs) path = concat (map (\<lambda>(i, v). collectValueLeaves v (path @ [Item i])) (List.enumerate 0 vs))"
| "collectValueLeaves (JObj obj) path = concat (map (\<lambda>(k, v). collectValueLeaves v (path @ [Member k])) obj)"
| "collectValueLeaves JUndef path = [(path, JUndef)]"
| "collectValueLeaves JNull path = [(path, JNull)]"
| "collectValueLeaves (JBool b) path = [(path, JBool b)]"
| "collectValueLeaves (JNum n) path = [(path, JNum n)]"
| "collectValueLeaves (JStr s) path = [(path, JStr s)]"
  by pat_completeness auto

termination collectValueLeaves
  by (relation "measure (\<lambda>(v, path). size v)") (auto simp: less_Suc_eq_le intro: size_enumerated size_member)

text \<open>Reading a path, and \<open>setValueAtPath\<close> on a fresh clone; along a collected path every step exists.\<close>

fun value_at :: "jsval \<Rightarrow> path_segment list \<Rightarrow> jsval option" where
  "value_at v [] = Some v"
| "value_at (JArr vs) (Item i # path) = (if i < length vs then value_at (vs ! i) path else None)"
| "value_at (JObj obj) (Member k # path) = (case map_of obj k of None \<Rightarrow> None | Some v \<Rightarrow> value_at v path)"
| "value_at _ _ = None"

fun setValueAtPath :: "jsval \<Rightarrow> path_segment list \<Rightarrow> jsval \<Rightarrow> jsval" where
  "setValueAtPath v [] new = new"
| "setValueAtPath (JArr vs) (Item i # path) new = (if i < length vs then JArr (vs[i := setValueAtPath (vs ! i) path new]) else JArr vs)"
| "setValueAtPath (JObj obj) (Member k # path) new = JObj (js_put obj k (setValueAtPath (js_get obj k) path new))"
| "setValueAtPath v _ new = v"

definition jsonPath :: "path_segment list \<Rightarrow> string" where
  "jsonPath path = CHR ''$'' # concat (map (\<lambda>seg. case seg of Item i \<Rightarrow> ''['' @ string_of_nat i @ '']'' | Member k \<Rightarrow> ''.'' @ k) path)"

section \<open>Boundary values\<close>

text \<open>\<open>Buffer.from(text)\<close> for Latin-1 text, and \<open>toString("base64")\<close>.\<close>

definition utf8_encode :: "string \<Rightarrow> 8 word list" where
  "utf8_encode s = concat (map (\<lambda>c. let n = (of_char c :: nat) in
     if n < 128 then [of_nat n] else [of_nat (192 + n div 64), of_nat (128 + n mod 64)]) s)"

definition base64_char :: "nat \<Rightarrow> char" where
  "base64_char n = (if n < 26 then char_of (65 + n) else if n < 52 then char_of (71 + n) else if n < 62 then char_of (n - 4)
     else if n = 62 then CHR ''+'' else CHR ''/'')"

fun base64_encode :: "8 word list \<Rightarrow> string" where
  "base64_encode [] = []"
| "base64_encode [a] = (let n = unat a * 16 in [base64_char (n div 64), base64_char (n mod 64), CHR ''='', CHR ''=''])"
| "base64_encode [a, b] = (let n = (unat a * 256 + unat b) * 4 in
     [base64_char (n div 4096), base64_char (n div 64 mod 64), base64_char (n mod 64), CHR ''=''])"
| "base64_encode (a # b # c # bytes) = (let n = (unat a * 256 + unat b) * 256 + unat c in
     base64_char (n div 262144) # base64_char (n div 4096 mod 64) # base64_char (n div 64 mod 64) # base64_char (n mod 64)
     # base64_encode bytes)"

definition base64_object :: "string \<Rightarrow> jsval" where
  "base64_object text = JObj [(''encoding'', JStr ''base64''), (''data'', JStr text)]"

definition string_boundaries :: "platform \<Rightarrow> string list" where
  "string_boundaries pf = ['''', [char_of (0 :: nat)], [CHR 0x27, CHR 0x22, CHR ''<'', CHR ''>'', CHR 0x5C], concat (replicate 32 ''../''),
     replicate 4096 (CHR ''A''), pf_rtl_text pf, concat (replicate 256 (pf_emoji pf))]"

text \<open>\<open>Buffer.from(undefined)\<close> throws; \<open>stableJson\<close> is \<open>undefined\<close> for \<open>undefined\<close>.\<close>

definition binary_boundary :: "platform \<Rightarrow> jsval \<Rightarrow> string \<Rightarrow> campaign_error + jsval" where
  "binary_boundary pf value seed =
     (case (case value of JStr s \<Rightarrow> Some s | _ \<Rightarrow> stableJson value) of
        None \<Rightarrow> Inl Buffer_of_undefined
      | Some text \<Rightarrow> Inr (let bytes = utf8_encode text in
      if bytes = [] then base64_object ''/w==''
      else base64_object (base64_encode
        (bytes[deterministicInteger pf seed (length bytes) :=
           xor (bytes ! deterministicInteger pf (seed @ '':byte'') (length bytes)) 255]))))"

definition adversarialBoundaryValue :: "platform \<Rightarrow> jsval \<Rightarrow> string \<Rightarrow> mutation_kind \<Rightarrow> campaign_error + jsval" where
  "adversarialBoundaryValue pf value seed kind =
     (if kind = Binary then binary_boundary pf value seed
      else Inr (case value of
        JStr _ \<Rightarrow> JStr (string_boundaries pf ! deterministicInteger pf seed (length (string_boundaries pf)))
      | JNum _ \<Rightarrow> JInt ([0, -1, max_safe_integer, - max_safe_integer] ! deterministicInteger pf seed 4)
      | JBool b \<Rightarrow> JBool (\<not> b)
      | JNull \<Rightarrow> JObj [(''unexpected'', JBool True)]
      | JUndef \<Rightarrow> JObj [(''unexpected'', JBool True)]
      | JArr [] \<Rightarrow> JArr [JNull]
      | JArr (v # vs) \<Rightarrow> JArr (v # vs @ [v])
      | JObj obj \<Rightarrow> JObj (js_put obj ''__unexpected'' (JObj [(''nested'', JBool True)]))))"

definition mutateAdversarialValue ::
    "platform \<Rightarrow> jsval \<Rightarrow> mutation_kind \<Rightarrow> string \<Rightarrow> campaign_error + (jsval \<times> string \<times> string)" where
  "mutateAdversarialValue pf value kind seed =
     (if kind = Sequence then Inr (value, ''$'', ''sequence mutation is applied to actions'')
      else case collectValueLeaves value [] of
        [] \<Rightarrow> (case adversarialBoundaryValue pf JUndef seed kind of
                 Inl e \<Rightarrow> Inl e | Inr v \<Rightarrow> Inr (v, ''$'', mutation_name kind @ '' root boundary''))
      | leaf # leaves \<Rightarrow>
          (case (leaf # leaves) ! deterministicInteger pf seed (length (leaf # leaves)) of
             (path, old) \<Rightarrow>
               (case adversarialBoundaryValue pf old seed kind of
                  Inl e \<Rightarrow> Inl e
                | Inr replacement \<Rightarrow>
                    if path = [] then Inr (replacement, ''$'', mutation_name kind @ '' root boundary mutation'')
                    else Inr (setValueAtPath value path replacement, jsonPath path, mutation_name kind @ '' boundary mutation''))))"

definition shrinkAdversarialValue :: "jsval \<Rightarrow> jsval list" where
  "shrinkAdversarialValue value =
     (case value of
        JStr s \<Rightarrow> [JStr '''', JStr (take (length s div 2) s), JStr (take 1 s)]
      | JNum (Fin q) \<Rightarrow> [JInt 0, JInt (if q < 0 then -1 else if q = 0 then 0 else 1)]
      | JNum NaN \<Rightarrow> [JInt 0, JNum NaN]
      | JNum PosInf \<Rightarrow> [JInt 0, JInt 1]
      | JNum NegInf \<Rightarrow> [JInt 0, JInt (-1)]
      | JArr vs \<Rightarrow> [JArr [], JArr (take (max 1 (length vs div 2)) vs)]
      | JObj obj \<Rightarrow> map (\<lambda>(k, v). JObj (filter (\<lambda>(c, w). c \<noteq> k) obj)) obj
      | _ \<Rightarrow> [])"

section \<open>Mutating a corpus entry\<close>

definition json_bytes :: "jsval \<Rightarrow> nat" where
  "json_bytes v = (if v = JUndef then 0 else length (utf8_encode (stable_text v)))"

definition truncateJsonValue :: "platform \<Rightarrow> jsval \<Rightarrow> nat \<Rightarrow> jsval" where
  "truncateJsonValue pf value maximumBytes =
     (case value of
        JStr s \<Rightarrow> JStr (take maximumBytes s)
      | _ \<Rightarrow> let serialized = stable_text value in
             JObj [(''truncated'', JBool True), (''sha256'', JStr (pf_sha256 pf serialized)),
                   (''originalBytes'', JInt (int (length (utf8_encode serialized))))])"

fun matrix_from :: "matrix_dimension list \<Rightarrow> nat \<Rightarrow> nat \<Rightarrow> (string \<times> string) list \<Rightarrow> (string \<times> string) list" where
  "matrix_from [] iteration divisor cell = cell"
| "matrix_from (d # ds) iteration divisor cell =
     (if md_values d = [] then matrix_from ds iteration divisor cell
      else matrix_from ds iteration (divisor * length (md_values d))
             (AList.update (md_name d) (md_values d ! (iteration div divisor mod length (md_values d))) cell))"

definition matrixCell :: "matrix_dimension list option \<Rightarrow> nat \<Rightarrow> (string \<times> string) list" where
  "matrixCell dimensions iteration = matrix_from (case dimensions of None \<Rightarrow> [] | Some ds \<Rightarrow> ds) iteration 1 []"

definition noop_action :: adv_action where
  "noop_action = \<lparr>aa_type = ''noop'', aa_input = JUndef, aa_clock = None, aa_metadata = JObj [(''generated'', JBool True)]\<rparr>"

definition mutateActionSequence :: "platform \<Rightarrow> adv_action list \<Rightarrow> string \<Rightarrow> nat \<Rightarrow> adv_action list" where
  "mutateActionSequence pf actions seed maximum =
     (if actions = [] then [noop_action]
      else
        let op = deterministicInteger pf seed 4;
            index = deterministicInteger pf (seed @ '':index'') (length actions);
            target = (index + 1) mod length actions
        in if op = 0 \<and> length actions > 1 then take index actions @ drop (index + 1) actions
           else if op = 1 \<and> length actions < maximum
           then take index actions @ [actions ! index, actions ! index] @ drop (index + 1) actions
           else if op = 2 \<and> length actions > 1 then actions[index := actions ! target, target := actions ! index]
           else take maximum (actions @ [actions ! index]))"

text \<open>The actions, the input and the note that the chosen kind of mutation yields.\<close>

definition mutated_parts ::
    "platform \<Rightarrow> adv_campaign \<Rightarrow> corpus_entry \<Rightarrow> nat \<Rightarrow> campaign_error + (adv_action list \<times> jsval \<times> mutation_note)" where
  "mutated_parts pf campaign source iteration =
     (let seed = (\<lambda>what. cp_seed campaign @ '':'' @ what @ '':'' @ string_of_nat iteration);
          kind = cp_mutationKinds campaign ! deterministicInteger pf (seed ''kind'') (length (cp_mutationKinds campaign));
          actions = ce_actions source
      in if kind = Sequence
         then Inr (mutateActionSequence pf actions (seed ''sequence'') (rb_maxActionsPerCase (cp_budgets campaign)), ce_input source,
                \<lparr>mn_kind = kind, mn_path = ''$.actions'', mn_description = ''stateful action schedule mutation''\<rparr>)
         else if actions \<noteq> [] \<and> deterministicInteger pf (seed ''target'') 2 = 0
         then
           let i = deterministicInteger pf (seed ''action'') (length actions) in
           (case mutateAdversarialValue pf (aa_input (actions ! i)) kind (seed ''value'') of
              Inl e \<Rightarrow> Inl e
            | Inr (v, path, description) \<Rightarrow>
                Inr (actions[i := (actions ! i)\<lparr>aa_input := v\<rparr>], ce_input source,
                  \<lparr>mn_kind = kind, mn_path = ''$.actions['' @ string_of_nat i @ ''].input'' @ drop 1 path, mn_description = description\<rparr>))
         else
           (case mutateAdversarialValue pf (ce_input source) kind (seed ''value'') of
              Inl e \<Rightarrow> Inl e
            | Inr (v, path, description) \<Rightarrow>
                Inr (actions, v, \<lparr>mn_kind = kind, mn_path = ''$.input'' @ drop 1 path, mn_description = description\<rparr>)))"

definition mutateCorpusEntry :: "platform \<Rightarrow> adv_campaign \<Rightarrow> corpus_entry \<Rightarrow> nat \<Rightarrow> nat \<Rightarrow> campaign_error + case_plan" where
  "mutateCorpusEntry pf campaign source iteration workerId =
     (case mutated_parts pf campaign source iteration of
        Inl e \<Rightarrow> Inl e
      | Inr (actions, input, mutation) \<Rightarrow>
          let budgets = cp_budgets campaign in
          Inr \<lparr>pl_id = ce_id source @ ''-mutation-'' @ string_of_nat iteration,
            pl_caseId = cp_id campaign @ ''-'' @ string_of_nat iteration,
            pl_corpusId = ce_id source, pl_iteration = iteration, pl_workerId = workerId,
            pl_matrix = matrixCell (cp_matrix campaign) iteration, pl_actions = take (rb_maxActionsPerCase budgets) actions,
            pl_input = (if json_bytes input > rb_maxInputBytes budgets then truncateJsonValue pf input (rb_maxInputBytes budgets) else input),
            pl_mutation = mutation, pl_metadata = ce_metadata source\<rparr>)"

section \<open>What a mutation guarantees\<close>

lemma mutateCorpusEntry_fields:
  "mutateCorpusEntry pf campaign source iteration workerId = Inr plan \<Longrightarrow>
   pl_iteration plan = iteration \<and> pl_workerId plan = workerId \<and> pl_corpusId plan = ce_id source
   \<and> length (pl_actions plan) \<le> rb_maxActionsPerCase (cp_budgets campaign)
   \<and> pl_caseId plan = cp_id campaign @ ''-'' @ string_of_nat iteration"
  by (auto simp: mutateCorpusEntry_def Let_def split: sum.splits)

text \<open>
  Only a missing value can make a mutation throw, and only the binary kind: a campaign whose corpus
  entries leave out the optional input is at the mercy of the seed.
\<close>

lemma stableJson_defined: "stableJson v = None \<longleftrightarrow> v = JUndef"
  by (cases v) (simp_all add: stableJson_def stableJsonValue.simps)

lemma boundary_throws: "adversarialBoundaryValue pf v seed kind = Inl e \<longleftrightarrow> e = Buffer_of_undefined \<and> kind = Binary \<and> v = JUndef"
  using stableJson_defined [of v]
  by (cases v) (auto simp: adversarialBoundaryValue_def binary_boundary_def split: option.split)

lemma binary_mutation_throws: "mutateAdversarialValue pf JUndef Binary seed = Inl Buffer_of_undefined"
proof -
  have "adversarialBoundaryValue pf JUndef seed Binary = Inl Buffer_of_undefined" by (simp add: boundary_throws)
  then show ?thesis by (simp add: mutateAdversarialValue_def deterministicInteger_def)
qed

end
