(* ===== verification/Adversarial_Campaign.thy ===== *)
theory Adversarial_Campaign
  imports Adversarial_Mutation Chunk_Reduction
begin

text \<open>
  The running half of \<open>packages/runtime-core/src/adversarial-campaign.ts\<close>: rounds of mutated cases, the
  budgets that stop a campaign, the corpus that grows with novelty, and the findings with their
  minimized cases.

  What lies outside is a record of functions: executing a case, judging it, the clock and the abort
  signal.  Each is asked with the number of the interaction, so that two executions of one case may
  differ and a signal may be raised at any moment.  A case that was executed has one of four ends, the
  outcomes of the races in \<open>executeBoundedCase\<close>.
\<close>

section \<open>Observations and findings\<close>

record case_diagnostic =
  dg_code :: string
  dg_message :: string

record case_artifact =
  ca_path :: string
  ca_kind :: string
  ca_bytes :: "nat option"

record observation =
  ob_status :: case_status
  ob_signals :: "string list option"
  ob_diagnostics :: "case_diagnostic list option"
  ob_artifacts :: "case_artifact list option"
  ob_stateDigest :: "string option"

record oracle_result =
  or_oracleId :: string
  or_failed :: bool

datatype case_run = Completed observation | Timed_out_settled | Timed_out_unsettled | Threw string

record schedule_entry =
  se_round :: nat
  se_workerId :: nat
  se_caseId :: string
  se_corpusId :: string
  se_iteration :: nat

record adv_replay =
  ap_campaignId :: string
  ap_seed :: string
  ap_caseId :: string
  ap_corpusId :: string
  ap_workerId :: nat
  ap_iteration :: nat
  ap_matrix :: "(string \<times> string) list"
  ap_actions :: "adv_action list"
  ap_input :: jsval
  ap_faultSchedule :: jsval
  ap_schedule :: "schedule_entry list"
  ap_provenance :: jsval
  ap_command :: string
  ap_expectedFingerprint :: string
  ap_expectedStateDigest :: "string option"

record adv_finding =
  fi_fingerprint :: string
  fi_caseId :: string
  fi_corpusId :: string
  fi_oracleIds :: "string list"
  fi_status :: case_status
  fi_minimized :: corpus_entry
  fi_original :: corpus_entry
  fi_replay :: adv_replay
  fi_diagnostics :: "case_diagnostic list"
  fi_artifactRefs :: "case_artifact list"
  fi_duplicates :: nat
  fi_matrix :: "(string \<times> string) list"

record campaign_env =
  cv_platform :: platform
  cv_execute :: "nat \<Rightarrow> case_plan \<Rightarrow> case_run"
  cv_evaluate :: "(nat \<Rightarrow> case_plan \<Rightarrow> observation \<Rightarrow> oracle_contract list \<Rightarrow> oracle_result list) option"
  cv_now :: "nat \<Rightarrow> int"
  cv_aborted :: "nat \<Rightarrow> bool"
  cv_replayCommand :: "(adv_campaign \<Rightarrow> case_plan \<Rightarrow> string \<Rightarrow> string) option"
  cv_retainNovelty :: bool
  cv_minimize :: bool

record campaign_state =
  cs_tick :: nat \<comment> \<open>interactions so far\<close>
  cs_corpus :: "corpus_entry list"
  cs_novelty :: "string list"
  cs_findings :: "(string \<times> adv_finding) list"
  cs_schedule :: "schedule_entry list"
  cs_diagnostics :: "(string \<times> string) list"
  cs_executed :: nat
  cs_generated :: nat
  cs_artifactBytes :: nat
  cs_timedOut :: nat
  cs_incomplete :: bool

datatype campaign_status = Campaign_passed | Campaign_findings | Campaign_incomplete

record campaign_result =
  cr_campaignId :: string
  cr_seed :: string
  cr_status :: campaign_status
  cr_generated :: nat
  cr_executed :: nat
  cr_retained :: nat
  cr_duplicates :: nat
  cr_timedOut :: nat
  cr_corpus :: "corpus_entry list"
  cr_findings :: "adv_finding list"
  cr_schedule :: "schedule_entry list"
  cr_noveltySignals :: "string list"
  cr_diagnostics :: "(string \<times> string) list"
  cr_wallTimeMs :: int
  cr_artifactBytes :: nat

section \<open>Executing and judging a case\<close>

definition executeBoundedCase :: "adv_campaign \<Rightarrow> case_run \<Rightarrow> observation" where
  "executeBoundedCase campaign run =
     (let time = string_of_nat (rb_maxCaseTimeMs (cp_budgets campaign));
          ended = (\<lambda>status code message. \<lparr>ob_status = status, ob_signals = None,
            ob_diagnostics = Some [\<lparr>dg_code = code, dg_message = message\<rparr>], ob_artifacts = None, ob_stateDigest = None\<rparr>)
      in case run of
           Completed observation \<Rightarrow> observation
         | Timed_out_unsettled \<Rightarrow> ended Case_timed_out ''case-timeout-unsettled'' (''Case exceeded '' @ time
             @ ''ms and did not settle during the abort grace period. Further cases require runtime teardown.'')
         | Timed_out_settled \<Rightarrow> ended Case_timed_out ''case-time-budget-exhausted''
             (''Case exceeded '' @ time @ ''ms and settled after cancellation.'')
         | Threw message \<Rightarrow> ended Case_error ''case-execution-error'' message)"

definition defaultOracleResults :: "observation \<Rightarrow> oracle_result list" where
  "defaultOracleResults observation =
     (if ob_status observation = Case_passed then [] else [\<lparr>or_oracleId = ''runtime-status'', or_failed = True\<rparr>])"

definition judge :: "campaign_env \<Rightarrow> adv_campaign \<Rightarrow> nat \<Rightarrow> case_plan \<Rightarrow> observation \<Rightarrow> oracle_result list" where
  "judge env campaign n plan observation =
     (case cv_evaluate env of None \<Rightarrow> defaultOracleResults observation
      | Some evaluate \<Rightarrow> evaluate n plan observation (cp_oracles campaign))"

definition failing_ids :: "oracle_result list \<Rightarrow> string list" where
  "failing_ids results = map or_oracleId (filter or_failed results)"

definition diagnostics_of :: "observation \<Rightarrow> case_diagnostic list" where
  "diagnostics_of observation = (case ob_diagnostics observation of None \<Rightarrow> [] | Some ds \<Rightarrow> ds)"

definition adversarialFindingFingerprint :: "platform \<Rightarrow> jsval \<Rightarrow> string" where
  "adversarialFindingFingerprint pf value =
     pf_sha256 pf (''wp-codebox/adversarial-finding-fingerprint/v1'' @ [CHR 0x0A] @ stable_text value)"

definition string_array :: "string list \<Rightarrow> jsval" where
  "string_array ss = JArr (map JStr ss)"

definition observationFingerprint :: "platform \<Rightarrow> case_plan \<Rightarrow> observation \<Rightarrow> oracle_result list \<Rightarrow> string" where
  "observationFingerprint pf plan observation oracles = adversarialFindingFingerprint pf (JObj
     [(''oracleIds'', string_array (sort (failing_ids oracles))),
      (''status'', JStr (case_status_name (ob_status observation))),
      (''diagnosticCodes'', string_array (sort (map dg_code (diagnostics_of observation)))),
      (''stateDigest'', case ob_stateDigest observation of None \<Rightarrow> JUndef | Some d \<Rightarrow> JStr d),
      (''matrix'', JObj (map (\<lambda>(k, v). (k, JStr v)) (pl_matrix plan)))])"

section \<open>Minimizing a failing case\<close>

text \<open>
  One trial: the abort signal, an execution and its judgement.  It succeeds when the candidate fails in
  the same way as the original.
\<close>

record minimization =
  mz_plan :: case_plan
  mz_oracleIds :: "string list"
  mz_fingerprint :: string

definition fails_alike :: "campaign_env \<Rightarrow> adv_campaign \<Rightarrow> minimization \<Rightarrow> nat \<Rightarrow> adv_action list \<Rightarrow> jsval \<Rightarrow> bool" where
  "fails_alike env campaign job n actions input =
     (let candidate = (mz_plan job)\<lparr>pl_actions := actions, pl_input := input\<rparr>;
          observation = executeBoundedCase campaign (cv_execute env n candidate);
          results = judge env campaign (n + 1) candidate observation
      in (ob_status observation \<noteq> Case_passed
          \<or> (\<exists>r \<in> set results. or_failed r \<and> (mz_oracleIds job = [] \<or> or_oracleId r \<in> set (mz_oracleIds job))))
         \<and> observationFingerprint (cv_platform env) candidate observation (filter or_failed results) = mz_fingerprint job)"

definition preserves :: "campaign_env \<Rightarrow> adv_campaign \<Rightarrow> minimization \<Rightarrow> adv_action list \<Rightarrow> jsval \<Rightarrow> nat \<Rightarrow> bool \<times> nat" where
  "preserves env campaign job actions input n =
     (if cv_aborted env n then (False, n + 1) else (fails_alike env campaign job (n + 1) actions input, n + 3))"

fun shrink_action :: "campaign_env \<Rightarrow> adv_campaign \<Rightarrow> minimization \<Rightarrow> nat \<Rightarrow> jsval list \<Rightarrow> adv_action list \<Rightarrow> nat
    \<Rightarrow> adv_action list \<times> nat" where
  "shrink_action env campaign job index [] actions n = (actions, n)"
| "shrink_action env campaign job index (c # cs) actions n =
     (let candidate = actions[index := (actions ! index)\<lparr>aa_input := c\<rparr>] in
      case preserves env campaign job candidate (pl_input (mz_plan job)) n of
        (ok, m) \<Rightarrow> shrink_action env campaign job index cs (if ok then candidate else actions) m)"

fun shrink_actions :: "campaign_env \<Rightarrow> adv_campaign \<Rightarrow> minimization \<Rightarrow> nat list \<Rightarrow> adv_action list \<Rightarrow> nat \<Rightarrow> adv_action list \<times> nat" where
  "shrink_actions env campaign job [] actions n = (actions, n)"
| "shrink_actions env campaign job (i # is) actions n =
     (case shrink_action env campaign job i (shrinkAdversarialValue (aa_input (actions ! i))) actions n of
        (actions', m) \<Rightarrow> shrink_actions env campaign job is actions' m)"

fun shrink_input :: "campaign_env \<Rightarrow> adv_campaign \<Rightarrow> minimization \<Rightarrow> adv_action list \<Rightarrow> jsval list \<Rightarrow> jsval \<Rightarrow> nat \<Rightarrow> jsval \<times> nat" where
  "shrink_input env campaign job actions [] input n = (input, n)"
| "shrink_input env campaign job actions (c # cs) input n =
     (case preserves env campaign job actions c n of
        (ok, m) \<Rightarrow> shrink_input env campaign job actions cs (if ok then c else input) m)"

text \<open>The loop over chunks stops at a single action; in \<open>chunk_loop\<close> the passes then find nothing to try.\<close>

definition minimizeAdversarialCase :: "campaign_env \<Rightarrow> adv_campaign \<Rightarrow> minimization \<Rightarrow> nat \<Rightarrow> corpus_entry \<times> nat" where
  "minimizeAdversarialCase env campaign job n =
     (let plan = mz_plan job in
      case chunk_loop (\<lambda>start stop candidate. preserves env campaign job candidate (pl_input plan))
             (max 1 (length (pl_actions plan) div 2)) (pl_actions plan) n of
        (actions1, n1) \<Rightarrow>
          (case shrink_actions env campaign job [0..<length actions1] actions1 n1 of
             (actions2, n2) \<Rightarrow>
               (case shrink_input env campaign job actions2 (shrinkAdversarialValue (pl_input plan)) (pl_input plan) n2 of
                  (input, n3) \<Rightarrow>
                    (\<lparr>ce_id = pl_caseId plan, ce_actions = actions2, ce_input = input, ce_signals = None,
                      ce_metadata = JObj [(''minimizedFrom'', JStr (pl_corpusId plan))]\<rparr>, n3))))"

section \<open>Findings\<close>

definition createFinding ::
    "campaign_env \<Rightarrow> adv_campaign \<Rightarrow> case_plan \<Rightarrow> corpus_entry \<Rightarrow> observation \<Rightarrow> oracle_result list \<Rightarrow> schedule_entry list
      \<Rightarrow> string \<Rightarrow> adv_finding" where
  "createFinding env campaign plan minimized observation oracles schedule fingerprint =
     (let command = (case cv_replayCommand env of Some f \<Rightarrow> f campaign plan fingerprint
            | None \<Rightarrow> (case cp_replayCommand campaign of Some c \<Rightarrow> c
                | None \<Rightarrow> ''wp-codebox adversarial replay --campaign '' @ cp_id campaign @ '' --case '' @ pl_caseId plan))
      in \<lparr>fi_fingerprint = fingerprint, fi_caseId = pl_caseId plan, fi_corpusId = pl_corpusId plan,
          fi_oracleIds = sort (failing_ids oracles), fi_status = ob_status observation, fi_minimized = minimized,
          fi_original = \<lparr>ce_id = pl_caseId plan, ce_actions = pl_actions plan, ce_input = pl_input plan, ce_signals = None, ce_metadata = JUndef\<rparr>,
          fi_replay = \<lparr>ap_campaignId = cp_id campaign, ap_seed = cp_seed campaign, ap_caseId = pl_caseId plan,
             ap_corpusId = pl_corpusId plan, ap_workerId = pl_workerId plan, ap_iteration = pl_iteration plan,
             ap_matrix = pl_matrix plan, ap_actions = ce_actions minimized, ap_input = ce_input minimized,
             ap_faultSchedule = cp_faults campaign, ap_schedule = schedule, ap_provenance = cp_provenance campaign,
             ap_command = command, ap_expectedFingerprint = fingerprint, ap_expectedStateDigest = ob_stateDigest observation\<rparr>,
          fi_diagnostics = diagnostics_of observation,
          fi_artifactRefs = (case ob_artifacts observation of None \<Rightarrow> [] | Some as \<Rightarrow> as), fi_duplicates = 0,
          fi_matrix = pl_matrix plan\<rparr>)"

section \<open>One case after its execution\<close>

definition stop_campaign :: "string \<Rightarrow> string \<Rightarrow> campaign_state \<Rightarrow> campaign_state" where
  "stop_campaign code message s = s\<lparr>cs_incomplete := True, cs_diagnostics := cs_diagnostics s @ [(code, message)]\<rparr>"

definition artifact_bytes :: "observation \<Rightarrow> nat" where
  "artifact_bytes observation =
     sum_list (map (\<lambda>a. case ca_bytes a of None \<Rightarrow> 0 | Some n \<Rightarrow> n) (case ob_artifacts observation of None \<Rightarrow> [] | Some as \<Rightarrow> as))"

definition mutation_json :: "mutation_note \<Rightarrow> jsval" where
  "mutation_json m = JObj [(''kind'', JStr (mutation_name (mn_kind m))), (''path'', JStr (mn_path m)),
     (''description'', JStr (mn_description m))]"

definition retain_novelty :: "campaign_env \<Rightarrow> case_plan \<Rightarrow> observation \<Rightarrow> campaign_state \<Rightarrow> campaign_state" where
  "retain_novelty env plan observation s =
     (let signals = (case ob_signals observation of None \<Rightarrow> [] | Some ss \<Rightarrow> ss);
          fresh = filter (\<lambda>x. x \<notin> set (cs_novelty s)) signals
      in s\<lparr>cs_novelty := js_unique (cs_novelty s @ fresh),
           cs_corpus := (if fresh \<noteq> [] \<and> cv_retainNovelty env
             then cs_corpus s @ [\<lparr>ce_id = pl_caseId plan, ce_actions = pl_actions plan, ce_input = pl_input plan,
               ce_signals = Some (js_unique signals),
               ce_metadata = JObj [(''retainedFrom'', JStr (pl_corpusId plan)), (''mutation'', mutation_json (pl_mutation plan))]\<rparr>]
             else cs_corpus s)\<rparr>)"

definition unminimized :: "case_plan \<Rightarrow> campaign_error + corpus_entry" where
  "unminimized plan = normalizeCorpusEntry
     \<lparr>ce_id = pl_caseId plan, ce_actions = pl_actions plan, ce_input = pl_input plan, ce_signals = None, ce_metadata = JUndef\<rparr>"

definition add_finding :: "string \<Rightarrow> adv_finding \<Rightarrow> (string \<times> adv_finding) list \<Rightarrow> (string \<times> adv_finding) list" where
  "add_finding fingerprint finding findings =
     (case map_of findings fingerprint of
        Some existing \<Rightarrow> AList.update fingerprint (existing\<lparr>fi_duplicates := fi_duplicates existing + 1\<rparr>) findings
      | None \<Rightarrow> findings @ [(fingerprint, finding)])"

definition report_failure ::
    "campaign_env \<Rightarrow> adv_campaign \<Rightarrow> case_plan \<Rightarrow> observation \<Rightarrow> oracle_result list \<Rightarrow> campaign_state \<Rightarrow> campaign_error + campaign_state" where
  "report_failure env campaign plan observation failed s =
     (let fingerprint = observationFingerprint (cv_platform env) plan observation failed in
      case (if cv_minimize env
            then Inr (minimizeAdversarialCase env campaign
                   \<lparr>mz_plan = plan, mz_oracleIds = map or_oracleId failed, mz_fingerprint = fingerprint\<rparr> (cs_tick s))
            else (case unminimized plan of Inl e \<Rightarrow> Inl e | Inr c \<Rightarrow> Inr (c, cs_tick s))) of
        Inl e \<Rightarrow> Inl e
      | Inr (minimized, n) \<Rightarrow> Inr (s\<lparr>cs_tick := n, cs_findings := add_finding fingerprint
          (createFinding env campaign plan minimized observation failed (cs_schedule s) fingerprint) (cs_findings s)\<rparr>))"

definition judge_case ::
    "campaign_env \<Rightarrow> adv_campaign \<Rightarrow> case_plan \<Rightarrow> observation \<Rightarrow> campaign_state \<Rightarrow> campaign_error + campaign_state" where
  "judge_case env campaign plan observation s =
     (let failed = filter or_failed (judge env campaign (cs_tick s) plan observation);
          s1 = s\<lparr>cs_tick := cs_tick s + 1\<rparr>
      in if failed = [] \<and> ob_status observation = Case_passed then Inr s1
         else if cv_aborted env (cs_tick s1)
         then Inr (stop_campaign ''campaign-interrupted'' ''Campaign stopped before finding minimization after an interruption request.''
                (s1\<lparr>cs_tick := cs_tick s1 + 1\<rparr>))
         else report_failure env campaign plan observation failed (s1\<lparr>cs_tick := cs_tick s1 + 1\<rparr>))"

definition process_case ::
    "campaign_env \<Rightarrow> adv_campaign \<Rightarrow> case_plan \<Rightarrow> observation \<Rightarrow> campaign_state \<Rightarrow> campaign_error + campaign_state" where
  "process_case env campaign plan observation s0 =
     (let s = s0\<lparr>cs_executed := cs_executed s0 + 1,
                 cs_timedOut := cs_timedOut s0 + (if ob_status observation = Case_timed_out then 1 else 0)\<rparr>
      in if ob_status observation = Case_resource_exhausted
         then Inr (stop_campaign ''campaign-case-resource-exhausted'' (case diagnostics_of observation of
                d # _ \<Rightarrow> dg_message d
              | [] \<Rightarrow> ''Campaign stopped because '' @ pl_caseId plan @ '' exhausted a runtime resource before coverage completed.'') s)
         else if ''case-timeout-unsettled'' \<in> dg_code ` set (diagnostics_of observation)
         then Inr (stop_campaign ''campaign-timeout-unsettled'' (''Campaign stopped because '' @ pl_caseId plan
                @ '' did not settle after cancellation. The runtime must be torn down before further work.'') s)
         else
           let s1 = s\<lparr>cs_artifactBytes := cs_artifactBytes s + artifact_bytes observation\<rparr> in
           if cs_artifactBytes s1 > rb_maxArtifactBytes (cp_budgets campaign)
           then Inr (stop_campaign ''campaign-artifact-budget-exhausted'' ''Campaign stopped before artifact evidence exceeded its byte budget.'' s1)
           else judge_case env campaign plan observation (retain_novelty env plan observation s1))"

fun process_cases ::
    "campaign_env \<Rightarrow> adv_campaign \<Rightarrow> (case_plan \<times> observation) list \<Rightarrow> campaign_state \<Rightarrow> campaign_error + campaign_state" where
  "process_cases env campaign [] s = Inr s"
| "process_cases env campaign ((plan, observation) # rest) s =
     (case process_case env campaign plan observation s of
        Inl e \<Rightarrow> Inl e
      | Inr s' \<Rightarrow> if cs_incomplete s' then Inr s' else process_cases env campaign rest s')"

section \<open>Rounds\<close>

definition plan_case :: "campaign_env \<Rightarrow> adv_campaign \<Rightarrow> nat \<Rightarrow> nat \<Rightarrow> campaign_state \<Rightarrow> campaign_error + (case_plan \<times> campaign_state)" where
  "plan_case env campaign rnd workerId s =
     (let source = cs_corpus s ! deterministicInteger (cv_platform env)
            (cp_seed campaign @ '':source:'' @ string_of_nat (cs_generated s)) (length (cs_corpus s))
      in case mutateCorpusEntry (cv_platform env) campaign source (cs_generated s) workerId of
           Inl e \<Rightarrow> Inl e
         | Inr plan \<Rightarrow> Inr (plan, s\<lparr>cs_generated := cs_generated s + 1,
             cs_schedule := cs_schedule s @ [\<lparr>se_round = rnd, se_workerId = workerId, se_caseId = pl_caseId plan,
               se_corpusId = pl_corpusId plan, se_iteration = pl_iteration plan\<rparr>]\<rparr>))"

fun plan_round :: "campaign_env \<Rightarrow> adv_campaign \<Rightarrow> nat \<Rightarrow> nat list \<Rightarrow> campaign_state
    \<Rightarrow> campaign_error + (case_plan list \<times> campaign_state)" where
  "plan_round env campaign rnd [] s = Inr ([], s)"
| "plan_round env campaign rnd (w # ws) s =
     (if cs_generated s < rb_maxCases (cp_budgets campaign)
      then (case plan_case env campaign rnd w s of
              Inl e \<Rightarrow> Inl e
            | Inr (plan, s') \<Rightarrow>
                (case plan_round env campaign rnd ws s' of Inl e \<Rightarrow> Inl e | Inr (plans, t) \<Rightarrow> Inr (plan # plans, t)))
      else Inr ([], s))"

text \<open>All cases of a round run before the first of them is looked at.\<close>

definition execute_round :: "campaign_env \<Rightarrow> adv_campaign \<Rightarrow> case_plan list \<Rightarrow> nat \<Rightarrow> (case_plan \<times> observation) list" where
  "execute_round env campaign plans n =
     map (\<lambda>(i, plan). (plan, executeBoundedCase campaign (cv_execute env (n + i) plan))) (List.enumerate 0 plans)"

definition run_round ::
    "campaign_env \<Rightarrow> adv_campaign \<Rightarrow> nat \<Rightarrow> campaign_state \<Rightarrow> campaign_error + campaign_state" where
  "run_round env campaign rnd s =
     (case plan_round env campaign rnd [0..<rb_workers (cp_budgets campaign)] s of
        Inl e \<Rightarrow> Inl e
      | Inr (plans, t) \<Rightarrow>
          process_cases env campaign (execute_round env campaign plans (cs_tick t)) (t\<lparr>cs_tick := cs_tick t + length plans\<rparr>))"

lemma report_failure_generated: "report_failure env campaign plan observation failed s = Inr t \<Longrightarrow> cs_generated t = cs_generated s"
  by (auto simp: report_failure_def Let_def split: if_splits sum.splits prod.splits)

lemma process_case_generated: "process_case env campaign plan observation s = Inr t \<Longrightarrow> cs_generated t = cs_generated s"
  by (auto simp: process_case_def judge_case_def stop_campaign_def retain_novelty_def Let_def dest: report_failure_generated
      split: if_splits list.splits)

lemma process_cases_generated: "process_cases env campaign cases s = Inr t \<Longrightarrow> cs_generated t = cs_generated s"
  by (induction env campaign cases s rule: process_cases.induct)
    (auto dest: process_case_generated split: sum.splits if_splits)

lemma plan_case_generated: "plan_case env campaign rnd w s = Inr (plan, t) \<Longrightarrow> cs_generated t = cs_generated s + 1"
  by (auto simp: plan_case_def Let_def split: sum.splits)

lemma plan_round_generated: "plan_round env campaign rnd ws s = Inr (plans, t) \<Longrightarrow> cs_generated s \<le> cs_generated t"
  by (induction env campaign rnd ws s arbitrary: plans t rule: plan_round.induct)
    (fastforce dest: plan_case_generated split: sum.splits if_splits prod.splits)+

lemma run_round_generated:
  assumes "run_round env campaign rnd s = Inr t" and "cs_generated s < rb_maxCases (cp_budgets campaign)"
    and "rb_workers (cp_budgets campaign) \<ge> 1"
  shows "cs_generated s < cs_generated t"
proof -
  obtain plans u where plans: "plan_round env campaign rnd [0..<rb_workers (cp_budgets campaign)] s = Inr (plans, u)"
      and t: "cs_generated t = cs_generated u"
    using assms(1) by (auto simp: run_round_def dest!: process_cases_generated split: sum.splits)
  have "[0..<rb_workers (cp_budgets campaign)] = 0 # [1..<rb_workers (cp_budgets campaign)]"
    using assms(3) by (simp add: upt_conv_Cons)
  with plans assms(2) obtain plan v rest where "plan_case env campaign rnd 0 s = Inr (plan, v)"
      "plan_round env campaign rnd [1..<rb_workers (cp_budgets campaign)] v = Inr (rest, u)"
    by (auto split: sum.splits prod.splits)
  with plan_case_generated plan_round_generated t show ?thesis by fastforce
qed

text \<open>The loop.  Normalized budgets have a worker; a round without workers would be repeated for ever.\<close>

function campaign_rounds ::
    "campaign_env \<Rightarrow> adv_campaign \<Rightarrow> int \<Rightarrow> nat \<Rightarrow> campaign_state \<Rightarrow> campaign_error + campaign_state" where
  "campaign_rounds env campaign started rnd s =
     (if cs_generated s < rb_maxCases (cp_budgets campaign) \<and> rb_workers (cp_budgets campaign) \<ge> 1
      then if cv_aborted env (cs_tick s)
        then Inr (stop_campaign ''campaign-interrupted'' ''Campaign stopped after an interruption request.'' (s\<lparr>cs_tick := cs_tick s + 1\<rparr>))
        else if cv_now env (cs_tick s + 1) - started \<ge> int (rb_maxWallTimeMs (cp_budgets campaign))
        then Inr (stop_campaign ''campaign-wall-time-exhausted'' ''Campaign stopped at its wall-time budget.'' (s\<lparr>cs_tick := cs_tick s + 2\<rparr>))
        else case run_round env campaign rnd (s\<lparr>cs_tick := cs_tick s + 2\<rparr>) of
               Inl e \<Rightarrow> Inl e
             | Inr t \<Rightarrow> if cs_incomplete t then Inr t else campaign_rounds env campaign started (rnd + 1) t
      else Inr s)"
  by pat_completeness auto

termination campaign_rounds
  by (relation "measure (\<lambda>(env, campaign, started, round, s). rb_maxCases (cp_budgets campaign) - cs_generated s)")
     (auto dest!: run_round_generated)

declare campaign_rounds.simps [simp del]

definition start_state :: "adv_campaign \<Rightarrow> campaign_state" where
  "start_state campaign =
     \<lparr>cs_tick = 1, cs_corpus = cp_corpus campaign,
      cs_novelty = js_unique (concat (map (\<lambda>e. case ce_signals e of None \<Rightarrow> [] | Some ss \<Rightarrow> ss) (cp_corpus campaign))),
      cs_findings = [], cs_schedule = [], cs_diagnostics = [], cs_executed = 0, cs_generated = 0, cs_artifactBytes = 0,
      cs_timedOut = 0, cs_incomplete = False\<rparr>"

definition campaign_report :: "campaign_env \<Rightarrow> adv_campaign \<Rightarrow> campaign_state \<Rightarrow> campaign_result" where
  "campaign_report env campaign s =
     \<lparr>cr_campaignId = cp_id campaign, cr_seed = cp_seed campaign,
      cr_status = (if cs_incomplete s then Campaign_incomplete else if cs_findings s \<noteq> [] then Campaign_findings else Campaign_passed),
      cr_generated = cs_generated s, cr_executed = cs_executed s, cr_retained = length (cs_corpus s),
      cr_duplicates = sum_list (map (fi_duplicates \<circ> snd) (cs_findings s)), cr_timedOut = cs_timedOut s,
      cr_corpus = cs_corpus s, cr_findings = sort_key fi_fingerprint (map snd (cs_findings s)), cr_schedule = cs_schedule s,
      cr_noveltySignals = sort (cs_novelty s), cr_diagnostics = cs_diagnostics s,
      cr_wallTimeMs = max 0 (cv_now env (cs_tick s) - cv_now env 0), cr_artifactBytes = cs_artifactBytes s\<rparr>"

definition runAdversarialCampaign :: "campaign_env \<Rightarrow> campaign_input \<Rightarrow> campaign_error + campaign_result" where
  "runAdversarialCampaign env input =
     (case adversarialCampaign input of
        Inl e \<Rightarrow> Inl e
      | Inr campaign \<Rightarrow>
          (case campaign_rounds env campaign (cv_now env 0) 0 (start_state campaign) of
             Inl e \<Rightarrow> Inl e
           | Inr s \<Rightarrow> Inr (campaign_report env campaign s)))"

section \<open>Differential results\<close>

datatype differential_status = Cell_status case_status | Cell_missing

record differential_cell =
  dc_id :: string
  dc_role :: "string option"
  dc_fingerprint :: "string option"
  dc_status :: differential_status

datatype classification = Candidate_regression | Pre_existing | Platform_difference | Nondeterminism | Equivalent

definition isDifferentialFailure :: "differential_cell \<Rightarrow> bool" where
  "isDifferentialFailure cell \<longleftrightarrow> dc_status cell \<noteq> Cell_status Case_passed \<and> dc_status cell \<noteq> Cell_missing"

definition classifyDifferentialResult :: "differential_cell list \<Rightarrow> classification \<times> string list" where
  "classifyDifferentialResult cells =
     (let fingerprints = sort (js_unique (filter (\<lambda>f. f \<noteq> []) (List.map_filter dc_fingerprint cells)));
          base = filter (\<lambda>c. dc_role c = Some ''base'') cells;
          candidate = filter (\<lambda>c. dc_role c = Some ''candidate'') cells
      in (if (\<exists>c \<in> set cells. dc_status c = Cell_missing) \<or> \<not> distinct (map dc_id cells) then Nondeterminism
          else if (\<exists>c \<in> set candidate. isDifferentialFailure c) \<and> (\<forall>c \<in> set base. \<not> isDifferentialFailure c) then Candidate_regression
          else if (\<exists>c \<in> set candidate. isDifferentialFailure c) \<and> (\<exists>c \<in> set base. isDifferentialFailure c) then Pre_existing
          else if length fingerprints > 1 \<or> length (js_unique (map dc_status cells)) > 1 then Platform_difference
          else Equivalent, fingerprints))"

text \<open>The verdict blames the candidate only when every cell ran once, some candidate cell failed and no base cell did.\<close>

lemma candidate_regression_iff:
  "fst (classifyDifferentialResult cells) = Candidate_regression \<longleftrightarrow>
     (\<forall>c \<in> set cells. dc_status c \<noteq> Cell_missing) \<and> distinct (map dc_id cells)
     \<and> (\<exists>c \<in> set cells. dc_role c = Some ''candidate'' \<and> isDifferentialFailure c)
     \<and> (\<forall>c \<in> set cells. dc_role c = Some ''base'' \<longrightarrow> \<not> isDifferentialFailure c)"
  by (auto simp: classifyDifferentialResult_def Let_def)


section \<open>A minimized case fails like the original\<close>

definition reproduces :: "campaign_env \<Rightarrow> adv_campaign \<Rightarrow> minimization \<Rightarrow> adv_action list \<Rightarrow> jsval \<Rightarrow> bool" where
  "reproduces env campaign job actions input \<longleftrightarrow>
     (actions = pl_actions (mz_plan job) \<and> input = pl_input (mz_plan job)) \<or> (\<exists>n. fails_alike env campaign job n actions input)"

lemma preserves_fails: "preserves env campaign job actions input n = (True, m) \<Longrightarrow> reproduces env campaign job actions input"
  by (auto simp: preserves_def reproduces_def split: if_splits)

lemma shrink_action_ok:
  "shrink_action env campaign job i cs actions n = (actions', m) \<Longrightarrow>
   reproduces env campaign job actions (pl_input (mz_plan job)) \<Longrightarrow>
   reproduces env campaign job actions' (pl_input (mz_plan job)) \<and> length actions' = length actions"
proof (induction cs arbitrary: actions n)
  case (Cons c cs)
  define candidate where "candidate = actions[i := (actions ! i)\<lparr>aa_input := c\<rparr>]"
  obtain ok k where t: "preserves env campaign job candidate (pl_input (mz_plan job)) n = (ok, k)" by fastforce
  with Cons.prems(1) have run: "shrink_action env campaign job i cs (if ok then candidate else actions) k = (actions', m)"
    by (simp add: candidate_def [symmetric] Let_def)
  have "reproduces env campaign job (if ok then candidate else actions) (pl_input (mz_plan job))"
    using preserves_fails [of env campaign job candidate "pl_input (mz_plan job)" n k] t Cons.prems(2) by (cases ok) auto
  from Cons.IH [OF run this] show ?case by (simp add: candidate_def split: if_splits)
qed simp

lemma shrink_actions_ok:
  "shrink_actions env campaign job is actions n = (actions', m) \<Longrightarrow>
   reproduces env campaign job actions (pl_input (mz_plan job)) \<Longrightarrow>
   reproduces env campaign job actions' (pl_input (mz_plan job)) \<and> length actions' = length actions"
proof (induction "is" arbitrary: actions n)
  case (Cons i js)
  obtain a k where a: "shrink_action env campaign job i (shrinkAdversarialValue (aa_input (actions ! i))) actions n = (a, k)"
    by fastforce
  from shrink_action_ok [OF a Cons.prems(2)] Cons.IH [of a k] Cons.prems(1) show ?case by (simp add: a)
qed simp

lemma shrink_input_ok:
  "shrink_input env campaign job actions cs input n = (input', m) \<Longrightarrow> reproduces env campaign job actions input \<Longrightarrow>
   reproduces env campaign job actions input'"
proof (induction cs arbitrary: input n)
  case (Cons c cs)
  obtain ok k where t: "preserves env campaign job actions c n = (ok, k)" by fastforce
  with Cons.prems(1) have run: "shrink_input env campaign job actions cs (if ok then c else input) k = (input', m)" by simp
  have "reproduces env campaign job actions (if ok then c else input)"
    using preserves_fails [of env campaign job actions c n k] t Cons.prems(2) by (cases ok) auto
  from Cons.IH [OF run this] show ?case .
qed simp

lemma minimizeAdversarialCase_ok:
  assumes "minimizeAdversarialCase env campaign job n = (c, m)"
  shows "reproduces env campaign job (ce_actions c) (ce_input c)
    \<and> length (ce_actions c) \<le> length (pl_actions (mz_plan job)) \<and> ce_id c = pl_caseId (mz_plan job)"
proof -
  define plan where "plan = mz_plan job"
  obtain a1 n1 where loop: "chunk_loop (\<lambda>start stop candidate. preserves env campaign job candidate (pl_input plan))
      (max 1 (length (pl_actions plan) div 2)) (pl_actions plan) n = (a1, n1)" by fastforce
  obtain a2 n2 where acts: "shrink_actions env campaign job [0..<length a1] a1 n1 = (a2, n2)" by fastforce
  obtain input n3 where inp: "shrink_input env campaign job a2 (shrinkAdversarialValue (pl_input plan)) (pl_input plan) n2 = (input, n3)"
    by fastforce
  from assms have c: "ce_actions c = a2" "ce_input c = input" "ce_id c = pl_caseId plan"
    unfolding minimizeAdversarialCase_def Let_def plan_def [symmetric] loop prod.case acts inp by auto
  from chunk_loop_subseq [OF loop] have "subseq a1 (pl_actions plan)" "reproduces env campaign job a1 (pl_input plan)"
    using preserves_fails [of env campaign job a1 "pl_input plan"] by (auto simp: reproduces_def plan_def)
  with shrink_actions_ok [OF acts] shrink_input_ok [OF inp] show ?thesis
    unfolding c plan_def [symmetric] by (auto dest: list_emb_length simp: plan_def)
qed

section \<open>Invariant of a campaign\<close>

definition finding_ok :: "campaign_env \<Rightarrow> adv_campaign \<Rightarrow> adv_finding \<Rightarrow> bool" where
  "finding_ok env campaign f \<longleftrightarrow>
     ap_actions (fi_replay f) = ce_actions (fi_minimized f) \<and> ap_input (fi_replay f) = ce_input (fi_minimized f)
     \<and> ap_expectedFingerprint (fi_replay f) = fi_fingerprint f \<and> ce_id (fi_minimized f) = fi_caseId f
     \<and> (cv_minimize env \<longrightarrow> length (ce_actions (fi_minimized f)) \<le> length (ce_actions (fi_original f))
          \<and> (\<exists>job. mz_fingerprint job = fi_fingerprint f \<and> pl_caseId (mz_plan job) = fi_caseId f
               \<and> pl_actions (mz_plan job) = ce_actions (fi_original f) \<and> pl_input (mz_plan job) = ce_input (fi_original f)
               \<and> reproduces env campaign job (ce_actions (fi_minimized f)) (ce_input (fi_minimized f))))"

definition findings_ok :: "campaign_env \<Rightarrow> adv_campaign \<Rightarrow> (string \<times> adv_finding) list \<Rightarrow> bool" where
  "findings_ok env campaign fs \<longleftrightarrow>
     distinct (map fst fs) \<and> (\<forall>(key, f) \<in> set fs. fi_fingerprint f = key \<and> finding_ok env campaign f)"

definition failures_reported :: "(string \<times> adv_finding) list \<Rightarrow> nat" where
  "failures_reported fs = sum_list (map (\<lambda>(key, f). fi_duplicates f + 1) fs)"

lemma finding_ok_duplicates [simp]: "finding_ok env campaign (f\<lparr>fi_duplicates := n\<rparr>) = finding_ok env campaign f"
  by (simp add: finding_ok_def)

lemma failures_update:
  "distinct (map fst fs) \<Longrightarrow> map_of fs key = Some f \<Longrightarrow>
   failures_reported (AList.update key (f\<lparr>fi_duplicates := fi_duplicates f + 1\<rparr>) fs) = failures_reported fs + 1"
  by (induction fs) (auto simp: failures_reported_def)

lemma add_finding_ok:
  assumes "findings_ok env campaign fs" and "finding_ok env campaign f" and "fi_fingerprint f = key" and "fi_duplicates f = 0"
  shows "findings_ok env campaign (add_finding key f fs) \<and> failures_reported (add_finding key f fs) = failures_reported fs + 1"
proof (cases "map_of fs key")
  case None
  then have "add_finding key f fs = fs @ [(key, f)]" by (simp add: add_finding_def)
  moreover from None have "key \<notin> fst ` set fs" unfolding map_of_eq_None_iff .
  ultimately show ?thesis using assms by (auto simp: findings_ok_def failures_reported_def)
next
  case (Some old)
  let ?new = "old\<lparr>fi_duplicates := fi_duplicates old + 1\<rparr>"
  have "set (AList.update key ?new fs) \<subseteq> insert (key, ?new) (set fs)" by (induction fs) auto
  moreover from Some assms(1) have "fi_fingerprint old = key" "finding_ok env campaign old"
    by (auto simp: findings_ok_def dest!: map_of_SomeD)
  ultimately have "findings_ok env campaign (AList.update key ?new fs)"
    using assms(1) by (fastforce simp: findings_ok_def intro: distinct_update)
  with Some assms(1) failures_update [of fs key old] show ?thesis by (simp add: add_finding_def findings_ok_def)
qed

definition campaign_inv :: "campaign_env \<Rightarrow> adv_campaign \<Rightarrow> campaign_state \<Rightarrow> bool" where
  "campaign_inv env campaign s \<longleftrightarrow>
     cs_generated s \<le> rb_maxCases (cp_budgets campaign) \<and> map se_iteration (cs_schedule s) = [0..<cs_generated s]
     \<and> findings_ok env campaign (cs_findings s) \<and> failures_reported (cs_findings s) \<le> cs_executed s
     \<and> length (cs_corpus s) \<le> length (cp_corpus campaign) + cs_executed s
     \<and> (cs_incomplete s \<longleftrightarrow> cs_diagnostics s \<noteq> []) \<and> cs_timedOut s \<le> cs_executed s"

text \<open>What a step may do between rounds: it keeps the invariant and counts one more execution.\<close>

definition counted :: "campaign_env \<Rightarrow> adv_campaign \<Rightarrow> nat \<Rightarrow> campaign_state \<Rightarrow> campaign_state \<Rightarrow> bool" where
  "counted env campaign k s t \<longleftrightarrow> campaign_inv env campaign t \<and> cs_generated t = cs_generated s
     \<and> cs_executed t \<le> cs_executed s + k \<and> (\<not> cs_incomplete t \<longrightarrow> cs_executed t = cs_executed s + k)"

lemma createFinding_ok:
  assumes "cv_minimize env \<Longrightarrow> minimizeAdversarialCase env campaign
      \<lparr>mz_plan = plan, mz_oracleIds = ids, mz_fingerprint = key\<rparr> n = (c, m)" and "ce_id c = pl_caseId plan"
  shows "finding_ok env campaign (createFinding env campaign plan c observation failed schedule key)"
proof -
  have "\<exists>job. mz_fingerprint job = key \<and> pl_caseId (mz_plan job) = pl_caseId plan \<and> pl_actions (mz_plan job) = pl_actions plan
      \<and> pl_input (mz_plan job) = pl_input plan \<and> reproduces env campaign job (ce_actions c) (ce_input c)" if "cv_minimize env"
    using minimizeAdversarialCase_ok [OF assms(1) [OF that]]
    by (intro exI [of _ "\<lparr>mz_plan = plan, mz_oracleIds = ids, mz_fingerprint = key\<rparr>"]) auto
  with assms minimizeAdversarialCase_ok show ?thesis
    unfolding finding_ok_def createFinding_def Let_def by fastforce
qed

lemma createFinding_simps [simp]:
  "fi_fingerprint (createFinding env campaign plan c observation failed schedule key) = key"
  "fi_duplicates (createFinding env campaign plan c observation failed schedule key) = 0"
  by (simp_all add: createFinding_def Let_def)

lemma retain_novelty_fields [simp]:
  "cs_generated (retain_novelty env plan observation s) = cs_generated s"
  "cs_schedule (retain_novelty env plan observation s) = cs_schedule s"
  "cs_findings (retain_novelty env plan observation s) = cs_findings s"
  "cs_executed (retain_novelty env plan observation s) = cs_executed s"
  "cs_timedOut (retain_novelty env plan observation s) = cs_timedOut s"
  "cs_incomplete (retain_novelty env plan observation s) = cs_incomplete s"
  "cs_diagnostics (retain_novelty env plan observation s) = cs_diagnostics s"
  "cs_tick (retain_novelty env plan observation s) = cs_tick s"
  by (simp_all add: retain_novelty_def Let_def)

lemma retain_novelty_corpus: "length (cs_corpus (retain_novelty env plan observation s)) \<le> length (cs_corpus s) + 1"
  by (simp add: retain_novelty_def Let_def)

lemma stop_campaign_fields [simp]:
  "cs_generated (stop_campaign code message s) = cs_generated s" "cs_schedule (stop_campaign code message s) = cs_schedule s"
  "cs_findings (stop_campaign code message s) = cs_findings s" "cs_executed (stop_campaign code message s) = cs_executed s"
  "cs_corpus (stop_campaign code message s) = cs_corpus s" "cs_timedOut (stop_campaign code message s) = cs_timedOut s"
  "cs_incomplete (stop_campaign code message s)" "cs_diagnostics (stop_campaign code message s) \<noteq> []"
  by (simp_all add: stop_campaign_def)

lemma report_failure_ok:
  assumes "report_failure env campaign plan observation failed s = Inr t" and "findings_ok env campaign (cs_findings s)"
  shows "findings_ok env campaign (cs_findings t) \<and> failures_reported (cs_findings t) = failures_reported (cs_findings s) + 1
    \<and> (\<exists>n. t = s\<lparr>cs_tick := n, cs_findings := cs_findings t\<rparr>)"
proof -
  define key where "key = observationFingerprint (cv_platform env) plan observation failed"
  obtain c n where c: "ce_id c = pl_caseId plan"
      "cv_minimize env \<Longrightarrow> minimizeAdversarialCase env campaign
         \<lparr>mz_plan = plan, mz_oracleIds = map or_oracleId failed, mz_fingerprint = key\<rparr> (cs_tick s) = (c, n)"
    and t: "t = s\<lparr>cs_tick := n, cs_findings := add_finding key
         (createFinding env campaign plan c observation failed (cs_schedule s) key) (cs_findings s)\<rparr>"
  proof (cases "cv_minimize env")
    case True
    obtain c n where m: "minimizeAdversarialCase env campaign
        \<lparr>mz_plan = plan, mz_oracleIds = map or_oracleId failed, mz_fingerprint = key\<rparr> (cs_tick s) = (c, n)" by fastforce
    from minimizeAdversarialCase_ok [OF m] have "ce_id c = pl_caseId plan" by simp
    with True m assms(1) show ?thesis by (intro that [of c n]) (auto simp: report_failure_def key_def Let_def)
  next
    case False
    then obtain c where "unminimized plan = Inr c" "t = s\<lparr>cs_tick := cs_tick s, cs_findings := add_finding key
         (createFinding env campaign plan c observation failed (cs_schedule s) key) (cs_findings s)\<rparr>"
      using assms(1) by (auto simp: report_failure_def key_def Let_def split: sum.splits)
    moreover from this(1) have "ce_id c = pl_caseId plan"
      by (auto simp: unminimized_def normalizeCorpusEntry_def split: sum.splits)
    ultimately show ?thesis using False by (intro that [of c "cs_tick s"]) auto
  qed
  from createFinding_ok [OF c(2,1)] have "finding_ok env campaign (createFinding env campaign plan c observation failed (cs_schedule s) key)"
    by blast
  from add_finding_ok [OF assms(2) this] t show ?thesis by (auto intro: exI [of _ n])
qed

lemma judge_case_counted:
  assumes "campaign_inv env campaign s0" and "\<not> cs_incomplete s0"
    and "judge_case env campaign plan observation s = Inr t"
    and "cs_generated s = cs_generated s0" and "cs_schedule s = cs_schedule s0" and "cs_findings s = cs_findings s0"
    and "cs_executed s = cs_executed s0 + 1" and "length (cs_corpus s) \<le> length (cs_corpus s0) + 1"
    and "cs_timedOut s \<le> cs_timedOut s0 + 1" and "cs_incomplete s = cs_incomplete s0" and "cs_diagnostics s = cs_diagnostics s0"
  shows "counted env campaign 1 s0 t"
proof -
  note inv = assms(1) [unfolded campaign_inv_def]
  let ?failed = "filter or_failed (judge env campaign (cs_tick s) plan observation)"
  from assms(3) consider
      (quiet) "t = s\<lparr>cs_tick := cs_tick s + 1\<rparr>"
    | (stopped) code message n where "t = stop_campaign code message (s\<lparr>cs_tick := n\<rparr>)"
    | (failing) "report_failure env campaign plan observation ?failed (s\<lparr>cs_tick := cs_tick s + 2\<rparr>) = Inr t"
    unfolding judge_case_def Let_def by (auto split: if_splits)
  then show ?thesis
  proof cases
    case quiet
    with assms inv show ?thesis by (auto simp: counted_def campaign_inv_def)
  next
    case stopped
    with assms inv show ?thesis by (auto simp: counted_def campaign_inv_def)
  next
    case failing
    from report_failure_ok [OF this] assms(6) inv obtain n
      where "findings_ok env campaign (cs_findings t)" "failures_reported (cs_findings t) = failures_reported (cs_findings s0) + 1"
        and t: "t = s\<lparr>cs_tick := n, cs_findings := cs_findings t\<rparr>" by auto
    moreover have "cs_generated t = cs_generated s" "cs_schedule t = cs_schedule s" "cs_executed t = cs_executed s"
        "cs_corpus t = cs_corpus s" "cs_timedOut t = cs_timedOut s" "cs_incomplete t = cs_incomplete s" "cs_diagnostics t = cs_diagnostics s"
      by (subst t, simp)+
    ultimately show ?thesis using assms inv by (auto simp: counted_def campaign_inv_def)
  qed
qed

lemma process_case_counted:
  assumes "campaign_inv env campaign s" and "\<not> cs_incomplete s" and "process_case env campaign plan observation s = Inr t"
  shows "counted env campaign 1 s t"
proof -
  note inv = assms(1) [unfolded campaign_inv_def]
  define s1 where "s1 = s\<lparr>cs_executed := cs_executed s + 1,
      cs_timedOut := cs_timedOut s + (if ob_status observation = Case_timed_out then 1 else 0)\<rparr>"
  define s2 where "s2 = s1\<lparr>cs_artifactBytes := cs_artifactBytes s1 + artifact_bytes observation\<rparr>"
  from assms(3) consider
      (stopped1) code message where "t = stop_campaign code message s1"
    | (stopped2) code message where "t = stop_campaign code message s2"
    | (judged) "judge_case env campaign plan observation (retain_novelty env plan observation s2) = Inr t"
    unfolding process_case_def Let_def s1_def [symmetric] s2_def [symmetric] by (auto split: if_splits)
  then show ?thesis
  proof cases
    case stopped1
    with assms inv show ?thesis by (auto simp: counted_def campaign_inv_def s1_def)
  next
    case stopped2
    with assms inv show ?thesis by (auto simp: counted_def campaign_inv_def s1_def s2_def)
  next
    case judged
    show ?thesis
      by (rule judge_case_counted [OF assms(1,2) judged])
        (use retain_novelty_corpus [of env plan observation s2] in \<open>auto simp: s1_def s2_def\<close>)
  qed
qed

lemma process_cases_counted:
  "process_cases env campaign cases s = Inr t \<Longrightarrow> campaign_inv env campaign s \<Longrightarrow> \<not> cs_incomplete s \<Longrightarrow>
   counted env campaign (length cases) s t"
proof (induction env campaign cases s rule: process_cases.induct)
  case (2 env campaign plan observation rest s)
  from 2(2) obtain s' where s': "process_case env campaign plan observation s = Inr s'" by (auto split: sum.splits)
  note one = process_case_counted [OF 2(3,4) s']
  show ?case
  proof (cases "cs_incomplete s'")
    case True
    with s' 2(2) one show ?thesis by (auto simp: counted_def)
  next
    case False
    with s' 2(2) have "process_cases env campaign rest s' = Inr t" by simp
    with 2(1) [OF s' False] one False show ?thesis by (auto simp: counted_def)
  qed
qed (simp add: counted_def)

lemma plan_case_ok:
  assumes "plan_case env campaign rnd w s = Inr (plan, t)" and "campaign_inv env campaign s"
    and "cs_generated s < rb_maxCases (cp_budgets campaign)"
  shows "campaign_inv env campaign t \<and> cs_generated t = cs_generated s + 1 \<and> cs_executed t = cs_executed s
    \<and> cs_incomplete t = cs_incomplete s"
  using assms by (auto simp: plan_case_def Let_def campaign_inv_def split: sum.splits dest: mutateCorpusEntry_fields)

lemma plan_round_ok:
  "plan_round env campaign rnd ws s = Inr (plans, t) \<Longrightarrow> campaign_inv env campaign s \<Longrightarrow>
   campaign_inv env campaign t \<and> cs_generated t = cs_generated s + length plans \<and> cs_executed t = cs_executed s
   \<and> cs_incomplete t = cs_incomplete s"
proof (induction env campaign rnd ws s arbitrary: plans t rule: plan_round.induct)
  case (2 env campaign rnd w ws s)
  show ?case
  proof (cases "cs_generated s < rb_maxCases (cp_budgets campaign)")
    case True
    with 2(2) obtain plan u rest where u: "plan_case env campaign rnd w s = Inr (plan, u)"
        "plan_round env campaign rnd ws u = Inr (rest, t)" "plans = plan # rest"
      by (auto split: sum.splits prod.splits)
    from 2(1) [OF True u(1) refl u(2)] plan_case_ok [OF u(1) 2(3) True] u(3) show ?thesis by simp
  next
    case False
    with 2 show ?thesis by simp
  qed
qed simp

definition between_rounds :: "campaign_env \<Rightarrow> adv_campaign \<Rightarrow> campaign_state \<Rightarrow> bool" where
  "between_rounds env campaign s \<longleftrightarrow> campaign_inv env campaign s \<and> cs_executed s \<le> cs_generated s
     \<and> (\<not> cs_incomplete s \<longrightarrow> cs_executed s = cs_generated s)"

lemma tick_inv [simp]: "campaign_inv env campaign (s\<lparr>cs_tick := n\<rparr>) = campaign_inv env campaign s"
  by (simp add: campaign_inv_def)

lemma run_round_ok:
  assumes "run_round env campaign rnd s = Inr t" and "between_rounds env campaign s" and "\<not> cs_incomplete s"
  shows "between_rounds env campaign t"
proof -
  obtain plans u where plans: "plan_round env campaign rnd [0..<rb_workers (cp_budgets campaign)] s = Inr (plans, u)"
    and cases: "process_cases env campaign (execute_round env campaign plans (cs_tick u)) (u\<lparr>cs_tick := cs_tick u + length plans\<rparr>) = Inr t"
    using assms(1) by (auto simp: run_round_def split: sum.splits)
  from plan_round_ok [OF plans] assms(2) have u: "campaign_inv env campaign u" "cs_generated u = cs_generated s + length plans"
      "cs_executed u = cs_executed s" "cs_incomplete u = cs_incomplete s" by (auto simp: between_rounds_def)
  have "length (execute_round env campaign plans (cs_tick u)) = length plans" by (simp add: execute_round_def)
  with process_cases_counted [OF cases] u assms(2,3) show ?thesis by (auto simp: counted_def between_rounds_def)
qed

lemma stop_inv: "campaign_inv env campaign s \<Longrightarrow> campaign_inv env campaign (stop_campaign code message s)"
  by (simp add: campaign_inv_def)

lemma campaign_rounds_ok:
  "campaign_rounds env campaign started rnd s = Inr t \<Longrightarrow> between_rounds env campaign s \<Longrightarrow> \<not> cs_incomplete s \<Longrightarrow>
   between_rounds env campaign t \<and> (cs_incomplete t \<or> cs_generated t \<ge> rb_maxCases (cp_budgets campaign)
     \<or> rb_workers (cp_budgets campaign) = 0)"
proof (induction env campaign started rnd s rule: campaign_rounds.induct)
  case (1 env campaign started rnd s)
  let ?go = "cs_generated s < rb_maxCases (cp_budgets campaign) \<and> rb_workers (cp_budgets campaign) \<ge> 1"
  let ?s = "s\<lparr>cs_tick := cs_tick s + 2\<rparr>"
  show ?case
  proof (cases ?go)
    case False
    with 1(2,3) show ?thesis by (subst (asm) campaign_rounds.simps) auto
  next
    case go: True
    show ?thesis
    proof (cases "cv_aborted env (cs_tick s) \<or> cv_now env (cs_tick s + 1) - started \<ge> int (rb_maxWallTimeMs (cp_budgets campaign))")
      case True
      with go 1(2) obtain code message n where "t = stop_campaign code message (s\<lparr>cs_tick := n\<rparr>)"
        by (subst (asm) campaign_rounds.simps) (auto split: if_splits)
      with 1(3) show ?thesis by (auto simp: between_rounds_def intro: stop_inv)
    next
      case False
      with go 1(2) obtain u where u: "run_round env campaign rnd ?s = Inr u"
          "(if cs_incomplete u then Inr u else campaign_rounds env campaign started (rnd + 1) u) = Inr t"
        by (subst (asm) campaign_rounds.simps) (auto split: sum.splits)
      have "between_rounds env campaign ?s" using 1(3) by (simp add: between_rounds_def)
      from run_round_ok [OF u(1) this] 1(4) have ok: "between_rounds env campaign u" by simp
      show ?thesis
      proof (cases "cs_incomplete u")
        case True
        with u(2) ok show ?thesis by auto
      next
        case inc: False
        with u(2) have "campaign_rounds env campaign started (rnd + 1) u = Inr t" by simp
        with 1(1) [OF go _ _ u(1) inc _ ok inc] False show ?thesis by auto
      qed
    qed
  qed
qed

lemma start_between: "between_rounds env campaign (start_state campaign)"
  by (simp add: between_rounds_def campaign_inv_def start_state_def findings_ok_def failures_reported_def)


section \<open>Properties of a campaign\<close>

lemma failures_reported_sum: "failures_reported fs = length fs + sum_list (map (fi_duplicates \<circ> snd) fs)"
  by (induction fs) (auto simp: failures_reported_def)

lemma start_generated: "cs_generated (start_state campaign) = 0"
  by (simp add: start_state_def)

lemma start_tick: "cs_tick (start_state campaign) = 1"
  by (simp add: start_state_def)

lemma campaign_result_state:
  assumes "runAdversarialCampaign env input = Inr r"
  obtains campaign s where "adversarialCampaign input = Inr campaign" "between_rounds env campaign s"
    "cs_incomplete s \<or> cs_generated s = rb_maxCases (cp_budgets campaign)" "r = campaign_report env campaign s"
    "cp_budgets campaign = normalizeBudgets (ci_budgets input)"
proof -
  from assms obtain campaign s where c: "adversarialCampaign input = Inr campaign"
      "campaign_rounds env campaign (cv_now env 0) 0 (start_state campaign) = Inr s" "r = campaign_report env campaign s"
    by (auto simp: runAdversarialCampaign_def split: sum.splits)
  have b: "cp_budgets campaign = normalizeBudgets (ci_budgets input)"
    using c(1) by (auto simp: adversarialCampaign_def split: if_splits sum.splits)
  have "\<not> cs_incomplete (start_state campaign)" by (simp add: start_state_def)
  from campaign_rounds_ok [OF c(2) start_between this] normalizeBudgets_bounds [of "ci_budgets input"] b
  have ok: "between_rounds env campaign s" "cs_incomplete s \<or> cs_generated s \<ge> rb_maxCases (cp_budgets campaign)" by auto
  from ok have "cs_incomplete s \<or> cs_generated s = rb_maxCases (cp_budgets campaign)"
    by (auto simp: between_rounds_def campaign_inv_def)
  with that c ok b show thesis by blast
qed


definition sample_platform :: platform where
  "sample_platform = \<lparr>pf_digest32 = (\<lambda>_. 0), pf_sha256 = (\<lambda>_. ''f''), pf_rtl_text = ''r'', pf_emoji = ''e''\<rparr>"

definition failing_observation :: observation where
  "failing_observation = \<lparr>ob_status = Case_failed, ob_signals = Some [''x''], ob_diagnostics = None, ob_artifacts = None, ob_stateDigest = None\<rparr>"

definition sample_env :: campaign_env where
  "sample_env = \<lparr>cv_platform = sample_platform, cv_execute = (\<lambda>n plan. Completed failing_observation), cv_evaluate = None,
     cv_now = (\<lambda>_. 0), cv_aborted = (\<lambda>_. False), cv_replayCommand = None, cv_retainNovelty = True, cv_minimize = True\<rparr>"

definition sample_action :: "string \<Rightarrow> adv_action" where
  "sample_action t = \<lparr>aa_type = t, aa_input = JUndef, aa_clock = None, aa_metadata = JUndef\<rparr>"

definition sample_campaign :: "mutation_kind list \<Rightarrow> campaign_input" where
  "sample_campaign kinds = \<lparr>ci_id = ''c'', ci_seed = ''s'',
     ci_corpus = [\<lparr>ce_id = ''e'', ce_actions = [sample_action ''a'', sample_action ''b''], ce_input = JUndef, ce_signals = None, ce_metadata = JUndef\<rparr>],
     ci_mutationKinds = Some kinds, ci_budgets = (\<lambda>name. if name = ''maxCases'' then Some (NInt 1) else None), ci_oracles = None,
     ci_matrix = None, ci_faults = JUndef, ci_provenance = JUndef, ci_replayCommand = None, ci_metadata = JUndef\<rparr>"

lemma sample_adversarialCampaign:
  "\<exists>campaign. adversarialCampaign (sample_campaign [Sequence]) = Inr campaign \<and> cp_budgets campaign = normalizeBudgets (ci_budgets (sample_campaign [Sequence]))
    \<and> cp_mutationKinds campaign = [Sequence] \<and> cp_matrix campaign = None
    \<and> cp_corpus campaign = ci_corpus (sample_campaign [Sequence])"
  by (simp add: sample_campaign_def sample_action_def adversarialCampaign_def normalizeCorpusEntry_def js_unique_def)

lemma sample_budgets:
  "rb_maxCases (normalizeBudgets (ci_budgets (sample_campaign ks))) = 1" "rb_workers (normalizeBudgets (ci_budgets (sample_campaign ks))) = 1"
  "rb_maxActionsPerCase (normalizeBudgets (ci_budgets (sample_campaign ks))) = 50"
  "rb_maxWallTimeMs (normalizeBudgets (ci_budgets (sample_campaign ks))) = 300000"
  by (simp_all add: sample_campaign_def normalizeBudgets_def boundedInteger_def)

lemma sample_campaign_runs:
  "\<exists>r. runAdversarialCampaign sample_env (sample_campaign [Sequence]) = Inr r \<and> length (cr_findings r) = 1"
proof -
  from sample_adversarialCampaign obtain c where c: "adversarialCampaign (sample_campaign [Sequence]) = Inr c"
      "cp_budgets c = normalizeBudgets (ci_budgets (sample_campaign [Sequence]))" "cp_mutationKinds c = [Sequence]" "cp_matrix c = None"
      "cp_corpus c = ci_corpus (sample_campaign [Sequence])" by blast
  note b = sample_budgets [of "[Sequence]", folded c(2)]
  have env: "cv_aborted sample_env n = False" "cv_now sample_env n = 0" "cv_platform sample_env = sample_platform"
      "cv_execute sample_env n plan = Completed failing_observation" "cv_evaluate sample_env = None" "cv_minimize sample_env" for n plan
    by (simp_all add: sample_env_def)
  have number: "deterministicInteger sample_platform seed n = 0" for seed n
    by (simp add: deterministicInteger_def sample_platform_def)
  obtain plan where plan: "mutateCorpusEntry sample_platform c (cp_corpus c ! 0) 0 0 = Inr plan"
    by (simp add: mutateCorpusEntry_def mutated_parts_def c(3) number Let_def split: sum.split)
  define s where "s = (start_state c)\<lparr>cs_tick := Suc (Suc (cs_tick (start_state c)))\<rparr>"
  define t where "t = s\<lparr>cs_generated := 1, cs_schedule := [\<lparr>se_round = 0, se_workerId = 0, se_caseId = pl_caseId plan,
      se_corpusId = pl_corpusId plan, se_iteration = pl_iteration plan\<rparr>]\<rparr>"
  have "plan_case sample_env c 0 0 s = Inr (plan, t)"
    by (simp add: plan_case_def s_def t_def start_state_def env number plan)
  then have "plan_round sample_env c 0 [0..<rb_workers (cp_budgets c)] s = Inr ([plan], t)"
    by (simp add: b s_def start_state_def)
  then have round: "run_round sample_env c 0 s = process_cases sample_env c [(plan, failing_observation)] (t\<lparr>cs_tick := 4\<rparr>)"
    by (simp add: run_round_def execute_round_def env executeBoundedCase_def Let_def t_def s_def start_tick eval_nat_numeral)
  have zero: "\<not> rb_maxArtifactBytes (cp_budgets c) < 0" by simp
  have "\<exists>u. process_case sample_env c plan failing_observation (t\<lparr>cs_tick := 4\<rparr>) = Inr u \<and> length (cs_findings u) = 1
      \<and> \<not> cs_incomplete u \<and> cs_generated u = 1"
    by (simp add: process_case_def judge_case_def judge_def report_failure_def env failing_observation_def diagnostics_of_def
        defaultOracleResults_def artifact_bytes_def t_def s_def start_state_def add_finding_def Let_def split: prod.split)
  then obtain u where u: "process_case sample_env c plan failing_observation (t\<lparr>cs_tick := 4\<rparr>) = Inr u" "length (cs_findings u) = 1"
      "\<not> cs_incomplete u" "cs_generated u = 1" by blast
  have "campaign_rounds sample_env c 0 0 (start_state c) = campaign_rounds sample_env c 0 1 u"
    by (subst campaign_rounds.simps) (use round u in \<open>simp add: b env start_generated s_def [symmetric]\<close>)
  also have "\<dots> = Inr u" by (subst campaign_rounds.simps) (simp add: b u)
  finally show ?thesis using c(1) u(2) by (simp add: runAdversarialCampaign_def env campaign_report_def)
qed


text \<open>
  What a campaign reports can be replayed.  Every finding of a result carries the replay of its
  minimized case and expects the fingerprint of the finding; the minimized case has no more actions than
  the original, and it is the original itself or a case of which some execution ended with the same
  fingerprint and failed again.
\<close>

lemma findings_reproducible:
  assumes "runAdversarialCampaign env input = Inr r" and "f \<in> set (cr_findings r)" and "cv_minimize env"
  shows "ap_actions (fi_replay f) = ce_actions (fi_minimized f) \<and> ap_input (fi_replay f) = ce_input (fi_minimized f)
    \<and> ap_expectedFingerprint (fi_replay f) = fi_fingerprint f
    \<and> length (ce_actions (fi_minimized f)) \<le> length (ce_actions (fi_original f))
    \<and> (\<exists>campaign job. adversarialCampaign input = Inr campaign
         \<and> mz_fingerprint job = fi_fingerprint f \<and> pl_actions (mz_plan job) = ce_actions (fi_original f)
         \<and> pl_input (mz_plan job) = ce_input (fi_original f)
         \<and> ((ce_actions (fi_minimized f) = ce_actions (fi_original f) \<and> ce_input (fi_minimized f) = ce_input (fi_original f))
            \<or> (\<exists>n. fails_alike env campaign job n (ce_actions (fi_minimized f)) (ce_input (fi_minimized f)))))"
proof -
  from campaign_result_state [OF assms(1)] obtain campaign s where s: "adversarialCampaign input = Inr campaign"
      "between_rounds env campaign s" "r = campaign_report env campaign s" .
  then have "findings_ok env campaign (cs_findings s)" by (simp add: between_rounds_def campaign_inv_def)
  moreover have "f \<in> snd ` set (cs_findings s)" using assms(2) by (simp add: s(3) campaign_report_def)
  ultimately have "finding_ok env campaign f" by (auto simp: findings_ok_def)
  with assms(3) s(1) show ?thesis unfolding finding_ok_def reproduces_def by fastforce
qed

lemma findings_reproducible_sample:
  "\<exists>r f. runAdversarialCampaign sample_env (sample_campaign [Sequence]) = Inr r \<and> f \<in> set (cr_findings r)
    \<and> ap_expectedFingerprint (fi_replay f) = fi_fingerprint f"
proof -
  from sample_campaign_runs obtain r where r: "runAdversarialCampaign sample_env (sample_campaign [Sequence]) = Inr r" "length (cr_findings r) = 1"
    by blast
  then obtain f where f: "f \<in> set (cr_findings r)" by (cases "cr_findings r") auto
  moreover have "cv_minimize sample_env" by (simp add: sample_env_def)
  ultimately show ?thesis using findings_reproducible [OF r(1) f] r(1) by blast
qed

text \<open>A campaign that draws the binary kind for an entry without input rejects as a whole.\<close>

lemma binary_campaign_rejects:
  assumes "adversarialCampaign input = Inr campaign" and "cp_mutationKinds campaign = [Binary]"
    and "\<forall>e \<in> set (cp_corpus campaign). ce_actions e = [] \<and> ce_input e = JUndef" and "cp_corpus campaign \<noteq> []"
    and "\<not> cv_aborted env 1" and "cv_now env 2 - cv_now env 0 < int (rb_maxWallTimeMs (cp_budgets campaign))"
    and "rb_maxCases (cp_budgets campaign) \<ge> 1" and "rb_workers (cp_budgets campaign) \<ge> 1"
  shows "runAdversarialCampaign env input = Inl Buffer_of_undefined"
proof -
  let ?s = "(start_state campaign)\<lparr>cs_tick := 3\<rparr>"
  let ?source = "cp_corpus campaign ! deterministicInteger (cv_platform env) (cp_seed campaign @ '':source:'' @ string_of_nat 0) (length (cp_corpus campaign))"
  have "?source \<in> set (cp_corpus campaign)" using assms(4) by (intro nth_mem deterministicInteger_less) simp
  with assms(3) have "ce_actions ?source = []" "ce_input ?source = JUndef" by auto
  then have "mutateCorpusEntry (cv_platform env) campaign ?source 0 0 = Inl Buffer_of_undefined"
    using assms(2) by (simp add: mutateCorpusEntry_def mutated_parts_def deterministicInteger_def binary_mutation_throws Let_def)
  then have "plan_case env campaign 0 0 ?s = Inl Buffer_of_undefined" by (simp add: plan_case_def start_state_def Let_def)
  then have "run_round env campaign 0 ?s = Inl Buffer_of_undefined"
    using assms(7,8) by (simp add: run_round_def upt_conv_Cons start_state_def)
  then have "campaign_rounds env campaign (cv_now env 0) 0 (start_state campaign) = Inl Buffer_of_undefined"
    using assms(5-8) by (subst campaign_rounds.simps) (simp add: start_state_def numeral_3_eq_3 numeral_2_eq_2)
  with assms(1) show ?thesis by (simp add: runAdversarialCampaign_def)
qed

end
