(* ===== verification/Status_Taxonomy.thy ===== *)
theory Status_Taxonomy
  imports Js_Conversions
begin

text \<open>
  \<open>packages/runtime-core/src/status-taxonomy.ts\<close>: the status of a command envelope, of a phase of a
  recipe, of an agent task and of a check, each from an untyped record that may use the words of any
  of the others.
\<close>

section \<open>Conversions\<close>

record status_input =
  si_status :: jsval
  si_success :: jsval
  si_exitStatus :: jsval
  si_timeout :: jsval
  si_providerError :: jsval
  si_unableToRemediate :: jsval
  si_noOp :: jsval

definition no_status :: status_input where
  "no_status = \<lparr>si_status = JUndef, si_success = JUndef, si_exitStatus = JUndef, si_timeout = JUndef,
     si_providerError = JUndef, si_unableToRemediate = JUndef, si_noOp = JUndef\<rparr>"

definition numericExitStatus :: "jsval \<Rightarrow> rat" where
  "numericExitStatus value = (case number_value value of Some q \<Rightarrow> q | None \<Rightarrow> 0)"

definition input_succeeded :: "status_input \<Rightarrow> bool" where
  "input_succeeded input \<longleftrightarrow> si_success input = JBool True \<and> numericExitStatus (si_exitStatus input) = 0"

definition command_statuses :: "string list" where
  "command_statuses = [''completed'', ''failed'', ''timed_out'', ''cancelled'', ''running'', ''queued'']"

definition phase_statuses :: "string list" where
  "phase_statuses = [''succeeded'', ''failed'', ''partial'', ''blocked'', ''skipped'', ''running'']"

definition agent_statuses :: "string list" where
  "agent_statuses = [''succeeded'', ''failed'', ''no_op'', ''timeout'', ''provider_error'', ''unable_to_remediate'']"

definition check_statuses :: "string list" where
  "check_statuses = [''passed'', ''failed'', ''warning'', ''skipped'', ''unknown'']"

definition normalizeCommandEnvelopeStatus :: "status_input \<Rightarrow> string" where
  "normalizeCommandEnvelopeStatus input =
     (let status = text_value (si_status input) in
      if status \<in> set command_statuses then status
      else if status \<in> set [''succeeded'', ''no_op'', ''passed''] then ''completed''
      else if status = ''timeout'' then ''timed_out''
      else if status \<in> set [''provider_error'', ''unable_to_remediate'', ''blocked''] then ''failed''
      else if status \<noteq> [] then status
      else if si_timeout input = JBool True then ''timed_out''
      else if input_succeeded input then ''completed'' else ''failed'')"

definition normalizePhaseRecipeStatus :: "status_input \<Rightarrow> string" where
  "normalizePhaseRecipeStatus input =
     (let status = text_value (si_status input) in
      if status \<in> set phase_statuses then status
      else if status \<in> set [''completed'', ''passed'', ''no_op''] then ''succeeded''
      else if status \<in> set [''timeout'', ''provider_error'', ''unable_to_remediate'', ''timed_out''] then ''failed''
      else if status \<noteq> [] then status
      else if input_succeeded input then ''succeeded'' else ''failed'')"

definition normalizeAgentTaskStatus :: "status_input \<Rightarrow> string" where
  "normalizeAgentTaskStatus input =
     (let status = text_value (si_status input) in
      if status \<in> set agent_statuses then status
      else if status \<in> set [''completed'', ''passed'']
      then (if si_success input = JBool False \<or> numericExitStatus (si_exitStatus input) \<noteq> 0 then ''failed'' else ''succeeded'')
      else if status = ''timed_out'' then ''timeout''
      else if status = ''blocked'' then ''unable_to_remediate''
      else if si_noOp input = JBool True then ''no_op''
      else if si_unableToRemediate input = JBool True then ''unable_to_remediate''
      else if si_timeout input = JBool True then ''timeout''
      else if js_truthy (si_providerError input) then ''provider_error''
      else if input_succeeded input then ''succeeded'' else ''failed'')"

definition normalizeCheckStatus :: "status_input \<Rightarrow> string" where
  "normalizeCheckStatus input =
     (let status = text_value (si_status input) in
      if status \<in> set check_statuses then status
      else if status \<in> set [''succeeded'', ''completed'', ''no_op''] then ''passed''
      else if status \<in> set [''partial'', ''blocked''] then ''warning''
      else if status \<in> set [''timeout'', ''provider_error'', ''unable_to_remediate'', ''timed_out''] then ''failed''
      else if status \<noteq> [] then status
      else if input_succeeded input then ''passed'' else ''failed'')"

definition agentTaskStatusSucceeded :: "jsval \<Rightarrow> bool" where
  "agentTaskStatusSucceeded status \<longleftrightarrow> text_value status \<in> set [''succeeded'', ''no_op'']"

definition agentTaskStatusFailed :: "jsval \<Rightarrow> bool" where
  "agentTaskStatusFailed status \<longleftrightarrow>
     text_value status \<in> set [''failed'', ''timeout'', ''provider_error'', ''unable_to_remediate'']"

section \<open>What the conversions give\<close>

lemmas status_lists = command_statuses_def phase_statuses_def agent_statuses_def check_statuses_def

lemma trim_no_space: "list_all (\<lambda>c. \<not> js_space c) s \<Longrightarrow> trim s = s"
proof -
  assume a: "list_all (\<lambda>c. \<not> js_space c) s"
  then have "dropWhile js_space s = s" by (cases s) simp_all
  moreover from a have "dropWhile js_space (rev s) = rev s" by (cases "rev s") (auto simp: list_all_iff rev_swap)
  ultimately show ?thesis by (simp add: trim_def)
qed

lemma trim_agent_status: "s \<in> set agent_statuses \<Longrightarrow> trim s = s"
  by (auto simp: agent_statuses_def js_space_def intro!: trim_no_space)

lemma agent_status_known: "normalizeAgentTaskStatus input \<in> set agent_statuses"
  by (simp add: normalizeAgentTaskStatus_def Let_def) (simp add: agent_statuses_def)

text \<open>Every agent status is a success or a failure, never both.\<close>

lemma agent_status_classified:
  "agentTaskStatusFailed (JStr (normalizeAgentTaskStatus input))
   = (\<not> agentTaskStatusSucceeded (JStr (normalizeAgentTaskStatus input)))"
  using agent_status_known [of input] trim_agent_status [OF agent_status_known [of input]]
  by (auto simp: agentTaskStatusFailed_def agentTaskStatusSucceeded_def agent_statuses_def)

lemma agent_status_fixed: "s \<in> set agent_statuses \<Longrightarrow> normalizeAgentTaskStatus (input\<lparr>si_status := JStr s\<rparr>) = s"
  using trim_agent_status by (simp add: normalizeAgentTaskStatus_def Let_def)

lemma agent_status_idem:
  "normalizeAgentTaskStatus (input'\<lparr>si_status := JStr (normalizeAgentTaskStatus input)\<rparr>) = normalizeAgentTaskStatus input"
  by (intro agent_status_fixed agent_status_known)

end
