(* ===== verification/Fanout_Aggregation.thy ===== *)
theory Fanout_Aggregation
  imports Status_Taxonomy "HOL-Library.AList"
begin

text \<open>
  \<open>packages/runtime-core/src/fanout-aggregation.ts\<close>: what the workers of a fan-out left behind is
  normalized, searched for conflicts and aggregated under a policy.  The parts of an input that the
  code takes as \<open>unknown\<close> are JSON values; what it has normalized is a record, and \<open>..._js\<close> gives
  the object again where the code normalizes it a second time or validates it.
\<close>

section \<open>Contracts\<close>

record fanout_artifact =
  fa_id :: "string option"
  fa_path :: string
  fa_kind :: "string option"
  fa_workerId :: "string option"
  fa_namespace :: "string option"
  fa_finalPath :: "string option"
  fa_contentType :: "string option"
  fa_sha256 :: "string option"
  fa_bytes :: "jsnum option"
  fa_metadata :: "js_object option"

text \<open>The index signatures of plans and workers keep the fields of the source beside those named.\<close>

record fanout_worker_plan =
  fw_id :: string
  fw_dependsOn :: "string list"
  fw_required :: bool
  fw_namespace :: "string option"
  fw_metadata :: "js_object option"
  fw_other :: js_object

record fanout_plan =
  fp_id :: "string option"
  fp_workers :: "fanout_worker_plan list"
  fp_metadata :: "js_object option"
  fp_other :: js_object

record fanout_error =
  fe_code :: "string option"
  fe_message :: string
  fe_details :: "js_object option"

record fanout_result_ref =
  fr_workerId :: string
  fr_status :: string
  fr_required :: bool
  fr_resultRef :: "string option"
  fr_artifactRefs :: "fanout_artifact list"
  fr_error :: "fanout_error option"
  fr_metadata :: "js_object option"

record fanout_conflict =
  fc_type :: string
  fc_severity :: string
  fc_message :: string
  fc_workerIds :: "string list option"
  fc_path :: "string option"
  fc_artifactRefs :: "fanout_artifact list option"
  fc_dependencyId :: "string option"
  fc_details :: "js_object option"

record aggregation_request =
  rq_schema :: "string option"
  rq_plan :: jsval
  rq_policy :: "string option"
  rq_aggregator :: jsval
  rq_workerResultRefs :: "jsval list"
  rq_artifactRefs :: "jsval list"
  rq_conflictCandidates :: "jsval list"
  rq_metadata :: "js_object option"

record aggregation_input =
  ai_plan :: fanout_plan
  ai_policy :: string
  ai_aggregator :: jsval
  ai_workerResultRefs :: "fanout_result_ref list"
  ai_artifactRefs :: "fanout_artifact list"
  ai_conflictCandidates :: "fanout_conflict list"
  ai_metadata :: "js_object option"

record aggregation_options =
  ag_finalArtifactRefs :: "fanout_artifact list option"
  ag_outputNamespace :: "string option"
  ag_error :: "fanout_error option"
  ag_metadata :: "js_object option"

record aggregation_output =
  ao_status :: string
  ao_policy :: string
  ao_plan :: fanout_plan
  ao_aggregator :: jsval
  ao_workerResultRefs :: "fanout_result_ref list"
  ao_rawWorkerArtifactRefs :: "fanout_artifact list"
  ao_finalArtifactRefs :: "fanout_artifact list"
  ao_conflicts :: "fanout_conflict list"
  ao_metadata :: "js_object option"

definition FANOUT_AGGREGATION_INPUT_SCHEMA :: string where
  "FANOUT_AGGREGATION_INPUT_SCHEMA = ''wp-codebox/agent-fanout-aggregation-input/v1''"

definition FANOUT_AGGREGATION_OUTPUT_SCHEMA :: string where
  "FANOUT_AGGREGATION_OUTPUT_SCHEMA = ''wp-codebox/agent-fanout-aggregation-output/v1''"

section \<open>Normalization\<close>

definition optional_record :: "jsval \<Rightarrow> js_object option" where
  "optional_record v = (case v of JObj obj \<Rightarrow> Some obj | _ \<Rightarrow> None)"

definition js_items :: "jsval \<Rightarrow> jsval list" where
  "js_items v = (case v of JArr vs \<Rightarrow> vs | _ \<Rightarrow> [])"

definition nonempty_strings :: "jsval list \<Rightarrow> string list" where
  "nonempty_strings vs = List.map_filter nonempty_string vs"

definition string_or_empty :: "jsval \<Rightarrow> string" where
  "string_or_empty v = (case nonempty_string v of Some s \<Rightarrow> s | None \<Rightarrow> [])"

definition string_or :: "jsval \<Rightarrow> string \<Rightarrow> string" where
  "string_or v d = (case nonempty_string v of Some s \<Rightarrow> s | None \<Rightarrow> d)"

definition fields_beside :: "string list \<Rightarrow> js_object \<Rightarrow> js_object" where
  "fields_beside names obj = filter (\<lambda>(k, v). k \<notin> set names) obj"

definition normalizeArtifactRef :: "jsval \<Rightarrow> jsval \<Rightarrow> fanout_artifact" where
  "normalizeArtifactRef artifactRef fallbackWorkerId =
     (let source = js_get (record_fields artifactRef) in
      \<lparr>fa_id = nonempty_string (source ''id''), fa_path = string_or_empty (source ''path''),
       fa_kind = nonempty_string (source ''kind''),
       fa_workerId = (case nonempty_string (source ''workerId'') of
          Some s \<Rightarrow> Some s | None \<Rightarrow> nonempty_string fallbackWorkerId),
       fa_namespace = nonempty_string (source ''namespace''), fa_finalPath = nonempty_string (source ''finalPath''),
       fa_contentType = nonempty_string (source ''contentType''), fa_sha256 = nonempty_string (source ''sha256''),
       fa_bytes = (case source ''bytes'' of JNum n \<Rightarrow> Some n | _ \<Rightarrow> None),
       fa_metadata = optional_record (source ''metadata'')\<rparr>)"

definition normalizeError :: "jsval \<Rightarrow> fanout_error option" where
  "normalizeError error =
     map_option (\<lambda>obj. \<lparr>fe_code = nonempty_string (js_get obj ''code''),
       fe_message = string_or (js_get obj ''message'') ''Fanout worker failed.'',
       fe_details = optional_record (js_get obj ''details'')\<rparr>) (optional_record error)"

definition normalizeWorkerResultRef :: "jsval \<Rightarrow> fanout_result_ref" where
  "normalizeWorkerResultRef workerResult =
     (let source = js_get (record_fields workerResult) in
      \<lparr>fr_workerId = string_or_empty (source ''workerId''),
       fr_status = (case nonempty_string (source ''status'') of
          Some _ \<Rightarrow> normalizeAgentTaskStatus (no_status\<lparr>si_status := source ''status'', si_success := source ''success''\<rparr>)
        | None \<Rightarrow> ''missing''),
       fr_required = (source ''required'' \<noteq> JBool False), fr_resultRef = nonempty_string (source ''resultRef''),
       fr_artifactRefs = map (\<lambda>a. normalizeArtifactRef a (source ''workerId'')) (js_items (source ''artifactRefs'')),
       fr_error = normalizeError (source ''error''), fr_metadata = optional_record (source ''metadata'')\<rparr>)"

definition normalizeWorkerPlan :: "jsval \<Rightarrow> fanout_worker_plan" where
  "normalizeWorkerPlan worker =
     (let source = js_get (record_fields worker) in
      \<lparr>fw_id = string_or_empty (source ''id''), fw_dependsOn = nonempty_strings (js_items (source ''dependsOn'')),
       fw_required = (source ''required'' \<noteq> JBool False),
       fw_namespace = nonempty_string (source ''artifactNamespace''),
       fw_metadata = optional_record (source ''metadata''),
       fw_other = fields_beside [''id'', ''dependsOn'', ''required'', ''artifactNamespace'', ''metadata''] (record_fields worker)\<rparr>)"

definition normalizePlan :: "jsval \<Rightarrow> fanout_plan" where
  "normalizePlan plan =
     (let source = js_get (record_fields plan) in
      \<lparr>fp_id = nonempty_string (source ''id''), fp_workers = map normalizeWorkerPlan (js_items (source ''workers'')),
       fp_metadata = optional_record (source ''metadata''),
       fp_other = fields_beside [''id'', ''workers'', ''metadata''] (record_fields plan)\<rparr>)"

definition normalizeConflictRecord :: "jsval \<Rightarrow> fanout_conflict" where
  "normalizeConflictRecord conflict =
     (let source = js_get (record_fields conflict) in
      \<lparr>fc_type = string_or (source ''type'') ''partial-output'', fc_severity = string_or (source ''severity'') ''error'',
       fc_message = string_or (source ''message'') ''Fanout aggregation conflict candidate.'',
       fc_workerIds = (case source ''workerIds'' of JArr vs \<Rightarrow> Some (nonempty_strings vs) | _ \<Rightarrow> None),
       fc_path = nonempty_string (source ''path''),
       fc_artifactRefs = (case source ''artifactRefs'' of
          JArr vs \<Rightarrow> Some (map (\<lambda>a. normalizeArtifactRef a JUndef) vs) | _ \<Rightarrow> None),
       fc_dependencyId = nonempty_string (source ''dependencyId''),
       fc_details = optional_record (source ''details'')\<rparr>)"

definition normalizeFanoutAggregationInput :: "aggregation_request \<Rightarrow> aggregation_input" where
  "normalizeFanoutAggregationInput input =
     (let workerResultRefs = map normalizeWorkerResultRef (rq_workerResultRefs input);
          inputArtifactRefs = map (\<lambda>a. normalizeArtifactRef a JUndef) (rq_artifactRefs input)
      in \<lparr>ai_plan = normalizePlan (rq_plan input),
          ai_policy = (case rq_policy input of Some p \<Rightarrow> p | None \<Rightarrow> ''fail''),
          ai_aggregator = rq_aggregator input, ai_workerResultRefs = workerResultRefs,
          ai_artifactRefs = (if rq_schema input = Some FANOUT_AGGREGATION_INPUT_SCHEMA then inputArtifactRefs
                             else inputArtifactRefs @ concat (map fr_artifactRefs workerResultRefs)),
          ai_conflictCandidates = map normalizeConflictRecord (rq_conflictCandidates input),
          ai_metadata = rq_metadata input\<rparr>)"

definition fanoutAggregationInputFromWorkerArtifacts :: "aggregation_request \<Rightarrow> aggregation_input" where
  "fanoutAggregationInputFromWorkerArtifacts options = normalizeFanoutAggregationInput (options\<lparr>rq_schema := None,
     rq_policy := Some (case rq_policy options of Some p \<Rightarrow> p | None \<Rightarrow> ''fail'')\<rparr>)"

section \<open>Normalized records as objects\<close>

definition js_optional_record :: "js_object option \<Rightarrow> jsval" where
  "js_optional_record r = (case r of None \<Rightarrow> JUndef | Some obj \<Rightarrow> JObj obj)"

definition js_strings :: "string list \<Rightarrow> jsval" where
  "js_strings ss = JArr (map JStr ss)"

definition artifact_js :: "fanout_artifact \<Rightarrow> jsval" where
  "artifact_js a = JObj
     [(''id'', js_optional (fa_id a)), (''path'', JStr (fa_path a)), (''kind'', js_optional (fa_kind a)),
      (''workerId'', js_optional (fa_workerId a)), (''namespace'', js_optional (fa_namespace a)),
      (''finalPath'', js_optional (fa_finalPath a)), (''contentType'', js_optional (fa_contentType a)),
      (''sha256'', js_optional (fa_sha256 a)),
      (''bytes'', case fa_bytes a of None \<Rightarrow> JUndef | Some n \<Rightarrow> JNum n),
      (''metadata'', js_optional_record (fa_metadata a))]"

definition artifacts_js :: "fanout_artifact list \<Rightarrow> jsval" where
  "artifacts_js as = JArr (map artifact_js as)"

definition error_js :: "fanout_error option \<Rightarrow> jsval" where
  "error_js error = (case error of None \<Rightarrow> JUndef
     | Some e \<Rightarrow> JObj [(''code'', js_optional (fe_code e)), (''message'', JStr (fe_message e)),
                      (''details'', js_optional_record (fe_details e))])"

definition result_ref_js :: "fanout_result_ref \<Rightarrow> jsval" where
  "result_ref_js r = JObj
     [(''workerId'', JStr (fr_workerId r)), (''status'', JStr (fr_status r)), (''required'', JBool (fr_required r)),
      (''resultRef'', js_optional (fr_resultRef r)), (''artifactRefs'', artifacts_js (fr_artifactRefs r)),
      (''error'', error_js (fr_error r)), (''metadata'', js_optional_record (fr_metadata r))]"

definition worker_plan_js :: "fanout_worker_plan \<Rightarrow> jsval" where
  "worker_plan_js w = JObj (fw_other w @
     [(''id'', JStr (fw_id w)), (''dependsOn'', js_strings (fw_dependsOn w)), (''required'', JBool (fw_required w)),
      (''artifactNamespace'', js_optional (fw_namespace w)), (''metadata'', js_optional_record (fw_metadata w))])"

definition plan_js :: "fanout_plan \<Rightarrow> jsval" where
  "plan_js p = JObj (fp_other p @
     [(''id'', js_optional (fp_id p)), (''workers'', JArr (map worker_plan_js (fp_workers p))),
      (''metadata'', js_optional_record (fp_metadata p))])"

definition conflict_js :: "fanout_conflict \<Rightarrow> jsval" where
  "conflict_js c = JObj
     [(''type'', JStr (fc_type c)), (''severity'', JStr (fc_severity c)), (''message'', JStr (fc_message c)),
      (''workerIds'', case fc_workerIds c of None \<Rightarrow> JUndef | Some ws \<Rightarrow> js_strings ws),
      (''path'', js_optional (fc_path c)),
      (''artifactRefs'', case fc_artifactRefs c of None \<Rightarrow> JUndef | Some as \<Rightarrow> artifacts_js as),
      (''dependencyId'', js_optional (fc_dependencyId c)), (''details'', js_optional_record (fc_details c))]"

text \<open>A normalized input given to the code again.\<close>

definition request_of :: "aggregation_input \<Rightarrow> aggregation_request" where
  "request_of input =
     \<lparr>rq_schema = Some FANOUT_AGGREGATION_INPUT_SCHEMA, rq_plan = plan_js (ai_plan input), rq_policy = Some (ai_policy input),
      rq_aggregator = ai_aggregator input, rq_workerResultRefs = map result_ref_js (ai_workerResultRefs input),
      rq_artifactRefs = map artifact_js (ai_artifactRefs input),
      rq_conflictCandidates = map conflict_js (ai_conflictCandidates input), rq_metadata = ai_metadata input\<rparr>"

section \<open>Output paths\<close>

definition namespace_char :: "char \<Rightarrow> bool" where
  "namespace_char c \<longleftrightarrow> is_alnum c \<or> c \<in> {CHR ''.'', CHR ''_'', CHR ''-''}"

text \<open>\<open>segment.replace(/[^a-zA-Z0-9._-]+/g, "-")\<close>: each run of other characters becomes one dash.\<close>

fun dash_runs :: "bool \<Rightarrow> string \<Rightarrow> string" where
  "dash_runs inside [] = []"
| "dash_runs inside (c # cs) =
     (if namespace_char c then c # dash_runs False cs
      else if inside then dash_runs True cs
      else CHR ''-'' # dash_runs True cs)"

definition strip_dashes :: "string \<Rightarrow> string" where
  "strip_dashes s = rev (dropWhile (\<lambda>c. c = CHR ''-'') (rev (dropWhile (\<lambda>c. c = CHR ''-'') s)))"

definition normalizeOutputNamespace :: "jsval \<Rightarrow> string" where
  "normalizeOutputNamespace outputNamespace =
     (let raw = string_or outputNamespace ''aggregate/final'';
          segments = filter (\<lambda>s. s \<noteq> []) (map (\<lambda>s. strip_dashes (dash_runs False s)) (split_on (CHR ''/'') raw))
      in str_or (join_with ''/'' segments) ''aggregate/final'')"

definition defaultFanoutAggregationOutputPath :: "aggregation_request \<Rightarrow> string option \<Rightarrow> string" where
  "defaultFanoutAggregationOutputPath input outputNamespace =
     (let normalized = normalizeFanoutAggregationInput input
      in normalizeOutputNamespace (case outputNamespace of
           Some s \<Rightarrow> JStr s | None \<Rightarrow> js_member (ai_aggregator normalized) ''outputNamespace'') @ ''/result.json'')"

definition artifact_at :: "string \<Rightarrow> fanout_artifact" where
  "artifact_at path = \<lparr>fa_id = None, fa_path = path, fa_kind = None, fa_workerId = None, fa_namespace = None,
     fa_finalPath = None, fa_contentType = None, fa_sha256 = None, fa_bytes = None, fa_metadata = None\<rparr>"

definition defaultFinalArtifactRefs :: "aggregation_request \<Rightarrow> string option \<Rightarrow> fanout_artifact list" where
  "defaultFinalArtifactRefs input outputNamespace =
     [(artifact_at (defaultFanoutAggregationOutputPath input outputNamespace))
        \<lparr>fa_kind := Some ''fanout-aggregate-output'', fa_contentType := Some ''application/json''\<rparr>]"

section \<open>Conflicts\<close>

type_synonym final_paths = "(string \<times> fanout_artifact list) list"

definition refs_at :: "final_paths \<Rightarrow> string \<Rightarrow> fanout_artifact list" where
  "refs_at byFinalPath path = (case map_of byFinalPath path of None \<Rightarrow> [] | Some refs \<Rightarrow> refs)"

definition add_final_path :: "final_paths \<Rightarrow> fanout_artifact \<Rightarrow> final_paths" where
  "add_final_path byFinalPath artifactRef =
     (case fa_finalPath artifactRef of
        None \<Rightarrow> byFinalPath
      | Some finalPath \<Rightarrow>
          if finalPath = [] then byFinalPath
          else AList.update finalPath (refs_at byFinalPath finalPath @ [artifactRef]) byFinalPath)"

definition conflict_of :: "string \<Rightarrow> string \<Rightarrow> fanout_conflict" where
  "conflict_of type message = \<lparr>fc_type = type, fc_severity = ''error'', fc_message = message, fc_workerIds = None,
     fc_path = None, fc_artifactRefs = None, fc_dependencyId = None, fc_details = None\<rparr>"

definition detectDuplicateFinalArtifactPathConflicts :: "fanout_artifact list \<Rightarrow> fanout_conflict list" where
  "detectDuplicateFinalArtifactPathConflicts artifactRefs =
     (let byFinalPath = foldl add_final_path [] artifactRefs in
      map (\<lambda>(path, refs).
          (conflict_of ''duplicate-final-artifact-path''
             (''Multiple fanout worker artifacts target final path '' @ path @ ''.''))
            \<lparr>fc_path := Some path,
              fc_workerIds := Some (js_unique (filter (\<lambda>s. s \<noteq> []) (List.map_filter fa_workerId refs))),
              fc_artifactRefs := Some refs\<rparr>)
        (filter (\<lambda>(path, refs). length refs > 1) byFinalPath))"

definition result_of_worker :: "fanout_result_ref list \<Rightarrow> string \<Rightarrow> fanout_result_ref option" where
  "result_of_worker workerResults wid = find (\<lambda>r. fr_workerId r = wid) (rev workerResults)"

definition failed_worker :: "fanout_result_ref \<Rightarrow> fanout_conflict list" where
  "failed_worker result =
     (if fr_required result \<and> \<not> agentTaskStatusSucceeded (JStr (fr_status result))
      then [(conflict_of ''failed-worker''
              (''Required fanout worker '' @ fr_workerId result @ '' ended with status '' @ fr_status result @ ''.''))
            \<lparr>fc_workerIds := Some [fr_workerId result], fc_artifactRefs := Some (fr_artifactRefs result),
              fc_details := (case fr_error result of None \<Rightarrow> None | Some e \<Rightarrow> Some [(''error'', error_js (Some e))])\<rparr>]
      else [])"

definition dependency_conflict :: "fanout_result_ref list \<Rightarrow> fanout_worker_plan \<Rightarrow> string \<Rightarrow> fanout_conflict list" where
  "dependency_conflict workerResults worker dependencyId =
     (case result_of_worker workerResults dependencyId of
        None \<Rightarrow>
          [(conflict_of ''missing-worker-dependency''
             (''Fanout worker '' @ fw_id worker @ '' depends on missing worker '' @ dependencyId @ ''.''))
           \<lparr>fc_workerIds := Some [fw_id worker], fc_dependencyId := Some dependencyId\<rparr>]
      | Some dependency \<Rightarrow>
          if agentTaskStatusSucceeded (JStr (fr_status dependency)) then []
          else
            [(conflict_of ''failed-worker-dependency''
               (''Fanout worker '' @ fw_id worker @ '' depends on '' @ dependencyId @ '', which ended with status ''
                @ fr_status dependency @ ''.''))
             \<lparr>fc_workerIds := Some [fw_id worker, dependencyId], fc_dependencyId := Some dependencyId,
               fc_artifactRefs := Some (fr_artifactRefs dependency)\<rparr>])"

definition detectWorkerDependencyConflicts :: "fanout_plan \<Rightarrow> fanout_result_ref list \<Rightarrow> fanout_conflict list" where
  "detectWorkerDependencyConflicts plan workerResults =
     concat (map failed_worker workerResults)
     @ concat (map (\<lambda>worker. concat (map (dependency_conflict workerResults worker) (fw_dependsOn worker))) (fp_workers plan))"

section \<open>Aggregation\<close>

definition blocking :: "fanout_conflict \<Rightarrow> bool" where
  "blocking conflict \<longleftrightarrow> fc_severity conflict = ''error''"

definition resolveAggregationStatus :: "string \<Rightarrow> fanout_conflict list \<Rightarrow> string" where
  "resolveAggregationStatus policy conflicts =
     (if \<not> list_ex blocking conflicts then ''succeeded''
      else if policy = ''partial'' then ''partial''
      else if policy = ''repair'' then ''repair_required''
      else if policy = ''caller-review-required'' then ''caller_review_required''
      else ''failed'')"

definition aggregation_failure :: "fanout_error option \<Rightarrow> fanout_conflict list" where
  "aggregation_failure error =
     (case error of None \<Rightarrow> []
      | Some e \<Rightarrow> [(conflict_of ''aggregation-failure'' (fe_message e))
          \<lparr>fc_details := Some (js_spread [(''code'', js_optional (fe_code e))]
             (case fe_details e of None \<Rightarrow> [] | Some d \<Rightarrow> d))\<rparr>])"

definition aggregation_conflicts :: "aggregation_input \<Rightarrow> fanout_error option \<Rightarrow> fanout_conflict list" where
  "aggregation_conflicts normalized error =
     ai_conflictCandidates normalized @ detectDuplicateFinalArtifactPathConflicts (ai_artifactRefs normalized)
     @ detectWorkerDependencyConflicts (ai_plan normalized) (ai_workerResultRefs normalized)
     @ aggregation_failure error"

definition aggregateFanoutOutputs :: "aggregation_request \<Rightarrow> aggregation_options \<Rightarrow> aggregation_output" where
  "aggregateFanoutOutputs input options =
     (let normalized = normalizeFanoutAggregationInput input;
          conflicts = aggregation_conflicts normalized (ag_error options);
          hasError = list_ex blocking conflicts
      in \<lparr>ao_status = resolveAggregationStatus (ai_policy normalized) conflicts, ao_policy = ai_policy normalized,
          ao_plan = ai_plan normalized, ao_aggregator = ai_aggregator normalized,
          ao_workerResultRefs = ai_workerResultRefs normalized, ao_rawWorkerArtifactRefs = ai_artifactRefs normalized,
          ao_finalArtifactRefs = (if hasError then []
             else (case ag_finalArtifactRefs options of
                     Some refs \<Rightarrow> refs
                   | None \<Rightarrow> defaultFinalArtifactRefs (request_of normalized) (ag_outputNamespace options))),
          ao_conflicts = conflicts,
          ao_metadata = (case ag_metadata options of Some m \<Rightarrow> Some m | None \<Rightarrow> ai_metadata normalized)\<rparr>)"

section \<open>Validation of an output\<close>

text \<open>The first error of a loop over items.\<close>

fun check_items :: "('a \<Rightarrow> string + unit) \<Rightarrow> 'a list \<Rightarrow> string + unit" where
  "check_items check [] = Inr ()"
| "check_items check (x # xs) = (case check x of Inl e \<Rightarrow> Inl e | Inr _ \<Rightarrow> check_items check xs)"

definition check_then :: "bool \<Rightarrow> string \<Rightarrow> string + unit \<Rightarrow> string + unit" where
  "check_then ok message rest = (if ok then rest else Inl message)"

definition both_checks :: "string + unit \<Rightarrow> string + unit \<Rightarrow> string + unit" where
  "both_checks a b = (case a of Inl e \<Rightarrow> Inl e | Inr _ \<Rightarrow> b)"

definition js_is_array :: "jsval \<Rightarrow> bool" where
  "js_is_array v = (case v of JArr _ \<Rightarrow> True | _ \<Rightarrow> False)"

definition validateFanoutArtifactRef :: "string \<Rightarrow> jsval \<Rightarrow> string + unit" where
  "validateFanoutArtifactRef label artifact =
     check_then (is_record artifact) (label @ '' ref must be an object.'')
       (check_then (js_truthy (js_member artifact ''path'')) (label @ '' ref requires path.'') (Inr ()))"

text \<open>Reading a field of \<open>null\<close> or \<open>undefined\<close> throws.\<close>

definition validate_worker_ref :: "jsval \<Rightarrow> string + unit" where
  "validate_worker_ref worker =
     check_then (\<not> js_nullish worker) ''Cannot read properties of null''
       (check_then (js_truthy (js_member worker ''workerId'')) ''Fanout worker result refs require workerId.''
         (let label = ''Fanout worker '' @ js_string (js_member worker ''workerId'') in
          check_then (js_is_array (js_member worker ''artifactRefs'')) (label @ '' requires artifactRefs.'')
            (check_items (validateFanoutArtifactRef label) (js_items (js_member worker ''artifactRefs'')))))"

definition validateFanoutAggregationOutput :: "jsval \<Rightarrow> string + jsval" where
  "validateFanoutAggregationOutput input =
     (let output = js_get (record_fields input);
          check = check_then (output ''schema'' = JStr FANOUT_AGGREGATION_OUTPUT_SCHEMA)
              (''Fanout aggregation output must use '' @ FANOUT_AGGREGATION_OUTPUT_SCHEMA @ ''.'')
            (check_then (js_is_array (output ''workerResultRefs'')) ''Fanout aggregation output requires workerResultRefs.''
            (check_then (js_is_array (output ''rawWorkerArtifactRefs''))
              ''Fanout aggregation output requires rawWorkerArtifactRefs.''
            (check_then (js_is_array (output ''finalArtifactRefs'')) ''Fanout aggregation output requires finalArtifactRefs.''
            (both_checks (check_items validate_worker_ref (js_items (output ''workerResultRefs'')))
            (both_checks (check_items (validateFanoutArtifactRef ''Fanout raw worker artifact'')
                (js_items (output ''rawWorkerArtifactRefs'')))
              (check_items (validateFanoutArtifactRef ''Fanout final artifact'')
                (js_items (output ''finalArtifactRefs'')))))))) 
      in case check of Inl e \<Rightarrow> Inl e | Inr _ \<Rightarrow> Inr input)"

definition aggregation_output_js :: "aggregation_output \<Rightarrow> jsval" where
  "aggregation_output_js out = JObj
     [(''schema'', JStr FANOUT_AGGREGATION_OUTPUT_SCHEMA), (''status'', JStr (ao_status out)),
      (''policy'', JStr (ao_policy out)), (''plan'', plan_js (ao_plan out)), (''aggregator'', ao_aggregator out),
      (''workerResultRefs'', JArr (map result_ref_js (ao_workerResultRefs out))),
      (''rawWorkerArtifactRefs'', artifacts_js (ao_rawWorkerArtifactRefs out)),
      (''finalArtifactRefs'', artifacts_js (ao_finalArtifactRefs out)),
      (''conflicts'', JArr (map conflict_js (ao_conflicts out))), (''metadata'', js_optional_record (ao_metadata out))]"

section \<open>When an output is valid\<close>

lemma check_items_ok: "check_items check xs = Inr () \<longleftrightarrow> (\<forall>x \<in> set xs. check x = Inr ())"
  by (induction xs) (auto split: sum.split)

lemma check_then_ok [simp]: "check_then ok message rest = Inr u \<longleftrightarrow> ok \<and> rest = Inr u"
  by (simp add: check_then_def)

lemma both_checks_ok [simp]: "both_checks a b = Inr u \<longleftrightarrow> a = Inr () \<and> b = Inr u"
  by (simp add: both_checks_def split: sum.split)

lemma artifact_js_valid [simp]: "validateFanoutArtifactRef label (artifact_js a) = Inr () \<longleftrightarrow> fa_path a \<noteq> []"
  by (simp add: validateFanoutArtifactRef_def artifact_js_def is_record_def)

lemma js_array_simps [simp]: "js_is_array (JArr vs)" "js_items (JArr vs) = vs"
  by (simp_all add: js_is_array_def js_items_def)

lemma artifacts_js_simps [simp]:
  "js_is_array (artifacts_js as)" "js_items (artifacts_js as) = map artifact_js as"
  by (simp_all add: artifacts_js_def)

lemma result_ref_js_valid [simp]:
  "validate_worker_ref (result_ref_js r) = Inr () \<longleftrightarrow> fr_workerId r \<noteq> [] \<and> (\<forall>a \<in> set (fr_artifactRefs r). fa_path a \<noteq> [])"
  by (auto simp: validate_worker_ref_def result_ref_js_def Let_def check_items_ok)

lemma aggregation_output_valid:
  "validateFanoutAggregationOutput (aggregation_output_js out) = Inr (aggregation_output_js out)
   \<longleftrightarrow> (\<forall>r \<in> set (ao_workerResultRefs out). fr_workerId r \<noteq> [] \<and> (\<forall>a \<in> set (fr_artifactRefs r). fa_path a \<noteq> []))
     \<and> (\<forall>a \<in> set (ao_rawWorkerArtifactRefs out). fa_path a \<noteq> [])
     \<and> (\<forall>a \<in> set (ao_finalArtifactRefs out). fa_path a \<noteq> [])"
proof -
  have "(case c of Inl e \<Rightarrow> Inl e | Inr _ \<Rightarrow> Inr x) = Inr x \<longleftrightarrow> c = Inr ()" for c :: "string + unit" and x :: jsval
    by (cases c) simp_all
  then show ?thesis
    unfolding validateFanoutAggregationOutput_def Let_def
    by (simp only: check_then_ok both_checks_ok check_items_ok)
       (simp add: aggregation_output_js_def)
qed

section \<open>When an aggregation succeeds\<close>

text \<open>The non-empty final paths of the artifacts, in their order.\<close>

definition final_paths_of :: "fanout_artifact list \<Rightarrow> string list" where
  "final_paths_of as = filter (\<lambda>p. p \<noteq> []) (List.map_filter fa_finalPath as)"

lemma add_final_path_keys: "distinct (map fst m) \<Longrightarrow> distinct (map fst (foldl add_final_path m as))"
  by (induction as arbitrary: m) (auto simp: add_final_path_def distinct_update split: option.split)

lemma refs_at_fold:
  "refs_at (foldl add_final_path m as) path
   = refs_at m path @ (if path = [] then [] else filter (\<lambda>a. fa_finalPath a = Some path) as)"
  by (induction as arbitrary: m) (auto simp: add_final_path_def refs_at_def update_conv' split: option.split)

lemma final_paths_count:
  "p \<noteq> [] \<Longrightarrow> length (filter (\<lambda>y. y = p) (final_paths_of as)) = length (filter (\<lambda>a. fa_finalPath a = Some p) as)"
  by (induction as) (auto simp: final_paths_of_def map_filter_simps split: option.split)

lemma distinct_by_count: "distinct xs \<longleftrightarrow> (\<forall>x. length (filter (\<lambda>y. y = x) xs) \<le> 1)"
proof (induction xs)
  case (Cons a xs)
  have "length (filter (\<lambda>y. y = a) xs) = 0 \<longleftrightarrow> a \<notin> set xs" by (auto simp: filter_empty_conv)
  with Cons show ?case by (auto simp: le_Suc_eq)
qed simp

lemma no_duplicate_paths:
  "detectDuplicateFinalArtifactPathConflicts as = [] \<longleftrightarrow> distinct (final_paths_of as)"
proof -
  define m where "m = foldl add_final_path [] as"
  have keys: "distinct (map fst m)" unfolding m_def by (rule add_final_path_keys) simp
  have at: "refs_at m p = (if p = [] then [] else filter (\<lambda>a. fa_finalPath a = Some p) as)" for p
    using refs_at_fold [of "[]" as p] by (simp add: m_def refs_at_def)
  have "detectDuplicateFinalArtifactPathConflicts as = [] \<longleftrightarrow> (\<forall>(p, refs) \<in> set m. length refs \<le> 1)"
    by (auto simp: detectDuplicateFinalArtifactPathConflicts_def m_def [symmetric] filter_empty_conv)
  also have "\<dots> \<longleftrightarrow> (\<forall>p. length (refs_at m p) \<le> 1)"
  proof -
    have "(p, refs) \<in> set m \<longleftrightarrow> map_of m p = Some refs" for p refs using keys by (simp add: map_of_eq_Some_iff)
    then have "(\<forall>(p, refs) \<in> set m. length refs \<le> 1) \<longleftrightarrow> (\<forall>p refs. map_of m p = Some refs \<longrightarrow> length refs \<le> 1)"
      by (metis (mono_tags, lifting) case_prodD case_prodI2)
    also have "\<dots> \<longleftrightarrow> (\<forall>p. length (refs_at m p) \<le> 1)" by (simp add: refs_at_def split: option.split)
    finally show ?thesis .
  qed
  also have "\<dots> \<longleftrightarrow> (\<forall>p. length (filter (\<lambda>y. y = p) (final_paths_of as)) \<le> 1)"
  proof (intro all_cong1)
    fix p
    show "length (refs_at m p) \<le> 1 \<longleftrightarrow> length (filter (\<lambda>y. y = p) (final_paths_of as)) \<le> 1"
    proof (cases "p = []")
      case True
      then show ?thesis by (simp add: at final_paths_of_def)
    next
      case False
      with final_paths_count [OF False] show ?thesis by (simp add: at)
    qed
  qed
  finally show ?thesis by (simp add: distinct_by_count)
qed

text \<open>What each detector reports blocks.\<close>

lemma duplicates_block: "c \<in> set (detectDuplicateFinalArtifactPathConflicts as) \<Longrightarrow> blocking c"
  by (auto simp: detectDuplicateFinalArtifactPathConflicts_def conflict_of_def blocking_def Let_def)

lemma failed_worker_blocks: "c \<in> set (failed_worker r) \<Longrightarrow> blocking c"
  by (simp add: failed_worker_def conflict_of_def blocking_def split: if_splits)

lemma dependency_conflict_blocks: "c \<in> set (dependency_conflict rs w d) \<Longrightarrow> blocking c"
  by (simp add: dependency_conflict_def conflict_of_def blocking_def split: option.splits if_splits)

lemma failures_block: "c \<in> set (detectWorkerDependencyConflicts plan rs) \<Longrightarrow> blocking c"
  by (auto simp: detectWorkerDependencyConflicts_def failed_worker_blocks dependency_conflict_blocks)

lemma failed_worker_none: "failed_worker r = [] \<longleftrightarrow> (fr_required r \<longrightarrow> agentTaskStatusSucceeded (JStr (fr_status r)))"
  by (simp add: failed_worker_def)

lemma dependency_conflict_none:
  "dependency_conflict rs w d = [] \<longleftrightarrow>
   (\<exists>r. result_of_worker rs d = Some r \<and> agentTaskStatusSucceeded (JStr (fr_status r)))"
  by (simp add: dependency_conflict_def split: option.split)

lemma no_failures:
  "detectWorkerDependencyConflicts plan rs = [] \<longleftrightarrow>
   (\<forall>r \<in> set rs. fr_required r \<longrightarrow> agentTaskStatusSucceeded (JStr (fr_status r)))
   \<and> (\<forall>w \<in> set (fp_workers plan). \<forall>d \<in> set (fw_dependsOn w).
        \<exists>r. result_of_worker rs d = Some r \<and> agentTaskStatusSucceeded (JStr (fr_status r)))"
  by (simp add: detectWorkerDependencyConflicts_def failed_worker_none dependency_conflict_none)

lemma list_ex_all: "(\<And>x. x \<in> set xs \<Longrightarrow> P x) \<Longrightarrow> list_ex P xs \<longleftrightarrow> xs \<noteq> []"
  by (cases xs) (auto simp: list_ex_iff)

lemma duplicates_ex: "list_ex blocking (detectDuplicateFinalArtifactPathConflicts as) \<longleftrightarrow> \<not> distinct (final_paths_of as)"
  by (subst list_ex_all [OF duplicates_block]) (simp_all add: no_duplicate_paths)

lemma failures_ex: "list_ex blocking (detectWorkerDependencyConflicts plan rs) \<longleftrightarrow> detectWorkerDependencyConflicts plan rs \<noteq> []"
  by (rule list_ex_all [OF failures_block])

lemma aggregation_unblocked:
  "\<not> list_ex blocking (aggregation_conflicts input error) \<longleftrightarrow>
     \<not> list_ex blocking (ai_conflictCandidates input) \<and> error = None
     \<and> distinct (final_paths_of (ai_artifactRefs input))
     \<and> (\<forall>r \<in> set (ai_workerResultRefs input). fr_required r \<longrightarrow> agentTaskStatusSucceeded (JStr (fr_status r)))
     \<and> (\<forall>w \<in> set (fp_workers (ai_plan input)). \<forall>d \<in> set (fw_dependsOn w).
          \<exists>r. result_of_worker (ai_workerResultRefs input) d = Some r \<and> agentTaskStatusSucceeded (JStr (fr_status r)))"
proof -
  have "list_ex blocking (aggregation_failure error) \<longleftrightarrow> error \<noteq> None"
    by (auto simp: aggregation_failure_def conflict_of_def blocking_def split: option.split)
  then show ?thesis by (auto simp: aggregation_conflicts_def duplicates_ex failures_ex no_failures)
qed

lemma aggregation_status:
  "ao_status (aggregateFanoutOutputs request options) = ''succeeded'' \<longleftrightarrow>
     \<not> list_ex blocking (aggregation_conflicts (normalizeFanoutAggregationInput request) (ag_error options))"
  by (simp add: aggregateFanoutOutputs_def resolveAggregationStatus_def Let_def)

lemma aggregation_withholds:
  "ao_status (aggregateFanoutOutputs request options) \<noteq> ''succeeded'' \<Longrightarrow> ao_finalArtifactRefs (aggregateFanoutOutputs request options) = []"
  by (auto simp: aggregation_status) (simp add: aggregateFanoutOutputs_def Let_def)

section \<open>Normalizing twice\<close>

text \<open>
  A normalized input that is given to the code again comes out as it went in, but for one status: a
  worker without a status is \<open>missing\<close> the first time and \<open>failed\<close> the second.
\<close>

definition settled_status :: "fanout_result_ref \<Rightarrow> fanout_result_ref" where
  "settled_status r = (if fr_status r = ''missing'' then r\<lparr>fr_status := ''failed''\<rparr> else r)"

definition settled_input :: "aggregation_input \<Rightarrow> aggregation_input" where
  "settled_input input = input\<lparr>ai_workerResultRefs := map settled_status (ai_workerResultRefs input)\<rparr>"

lemma nonempty_string_Some: "nonempty_string v = Some s \<longleftrightarrow> v = JStr s \<and> s \<noteq> []"
  by (cases v) (auto simp: nonempty_string_def)

lemma nonempty_string_simps [simp]:
  "nonempty_string (JStr s) = (if s = [] then None else Some s)" "nonempty_string JUndef = None"
  by (auto simp: nonempty_string_def)

lemma nonempty_string_ne [simp]: "nonempty_string v \<noteq> Some []"
  by (simp add: nonempty_string_Some)

lemma reread_string [simp]: "s \<noteq> Some [] \<Longrightarrow> nonempty_string (js_optional s) = s"
  by (cases s) (auto simp: js_optional_def)

lemma optional_record_simps [simp]: "optional_record (JObj obj) = Some obj" "optional_record JUndef = None"
  by (simp_all add: optional_record_def)

lemma reread_record [simp]: "optional_record (js_optional_record r) = r"
  by (cases r) (auto simp: js_optional_record_def optional_record_def)

lemma string_or_ne: "d \<noteq> [] \<Longrightarrow> string_or v d \<noteq> []"
  by (auto simp: string_or_def split: option.split)

lemma string_or_JStr [simp]: "s \<noteq> [] \<Longrightarrow> string_or (JStr s) d = s"
  and string_or_empty_JStr [simp]: "string_or_empty (JStr s) = s"
  by (simp_all add: string_or_def string_or_empty_def)

lemma reread_strings [simp]: "[] \<notin> set ss \<Longrightarrow> nonempty_strings (map JStr ss) = ss"
  by (induction ss) (auto simp: nonempty_strings_def map_filter_simps)

lemma nonempty_strings_ne [simp]: "[] \<notin> set (nonempty_strings vs)"
  by (induction vs) (auto simp: nonempty_strings_def map_filter_simps split: option.split)

definition artifact_normal :: "fanout_artifact \<Rightarrow> bool" where
  "artifact_normal a \<longleftrightarrow> fa_id a \<noteq> Some [] \<and> fa_kind a \<noteq> Some [] \<and> fa_workerId a \<noteq> Some [] \<and> fa_namespace a \<noteq> Some []
     \<and> fa_finalPath a \<noteq> Some [] \<and> fa_contentType a \<noteq> Some [] \<and> fa_sha256 a \<noteq> Some []"

lemma normalized_artifact: "artifact_normal (normalizeArtifactRef v fallback)"
  by (simp add: artifact_normal_def normalizeArtifactRef_def Let_def nonempty_string_Some split: option.split)

lemma renormalized_artifact:
  "artifact_normal a \<Longrightarrow> (fa_workerId a = None \<longrightarrow> nonempty_string fallback = None) \<Longrightarrow>
   normalizeArtifactRef (artifact_js a) fallback = a"
  unfolding artifact_normal_def
  by (cases "fa_workerId a"; cases "fa_bytes a") (simp_all add: normalizeArtifactRef_def artifact_js_def Let_def)

lemma renormalized_error: "normalizeError (error_js (normalizeError v)) = normalizeError v"
  by (cases "optional_record v") (simp_all add: normalizeError_def error_js_def string_or_ne)

lemma fallback_worker:
  "fa_workerId (normalizeArtifactRef a (JStr wid)) = None \<Longrightarrow> wid = []"
  by (auto simp: normalizeArtifactRef_def Let_def split: option.splits if_splits)

lemma artifact_fallback: "normalizeArtifactRef a v = normalizeArtifactRef a (JStr (string_or_empty v))"
  by (simp add: normalizeArtifactRef_def string_or_empty_def Let_def split: option.split)

lemma renormalized_result:
  "normalizeWorkerResultRef (result_ref_js (normalizeWorkerResultRef v)) = settled_status (normalizeWorkerResultRef v)"
proof -
  define source where "source = js_get (record_fields v)"
  define r where "r = normalizeWorkerResultRef v"
  have status: "fr_status r \<in> set agent_statuses \<or> fr_status r = ''missing''"
    using agent_status_known by (auto simp: r_def normalizeWorkerResultRef_def Let_def split: option.split)
  then have ne: "fr_status r \<noteq> []" by (auto simp: agent_statuses_def)
  have again: "normalizeAgentTaskStatus (no_status\<lparr>si_status := JStr (fr_status r), si_success := JUndef\<rparr>)
      = fr_status (settled_status r)"
  proof (cases "fr_status r = ''missing''")
    case True
    then show ?thesis
      by (simp add: settled_status_def normalizeAgentTaskStatus_def no_status_def agent_statuses_def input_succeeded_def
          trim_no_space js_space_def Let_def)
  next
    case False
    with status agent_status_fixed [of "fr_status r" "no_status\<lparr>si_success := JUndef\<rparr>"] show ?thesis
      by (simp add: settled_status_def no_status_def)
  qed
  have artifacts: "map (\<lambda>a. normalizeArtifactRef a (JStr (fr_workerId r))) (map artifact_js (fr_artifactRefs r)) = fr_artifactRefs r"
  proof -
    have "normalizeArtifactRef (artifact_js a) (JStr (fr_workerId r)) = a" if "a \<in> set (fr_artifactRefs r)" for a
    proof -
      from that obtain b where "a = normalizeArtifactRef b (source ''workerId'')"
        by (auto simp: r_def normalizeWorkerResultRef_def source_def Let_def)
      then have a: "a = normalizeArtifactRef b (JStr (fr_workerId r))"
        using artifact_fallback [of b "source ''workerId''"] by (simp add: r_def normalizeWorkerResultRef_def source_def Let_def)
      show ?thesis
        using fallback_worker [of b "fr_workerId r"] by (intro renormalized_artifact) (simp_all add: a normalized_artifact)
    qed
    then show ?thesis by (simp add: map_idI)
  qed
  have ref: "fr_resultRef r \<noteq> Some []" "normalizeError (error_js (fr_error r)) = fr_error r"
    by (simp_all add: r_def normalizeWorkerResultRef_def Let_def renormalized_error)
  have "normalizeWorkerResultRef (result_ref_js r) = settled_status r"
    using ne again artifacts ref
    unfolding normalizeWorkerResultRef_def [of "result_ref_js r"] Let_def
    unfolding result_ref_js_def
    by (intro fanout_result_ref.equality) (simp_all add: settled_status_def)
  then show ?thesis by (simp add: r_def)
qed

lemma beside_append [simp]: "fields_beside names (fields_beside names obj) = fields_beside names obj"
  by (induction obj) (auto simp: fields_beside_def)

lemma get_named: "k \<in> set names \<Longrightarrow> js_get (fields_beside names obj @ rest) k = js_get rest k"
  by (induction obj) (auto simp: fields_beside_def)

lemma beside_named: "fst ` set rest \<subseteq> set names \<Longrightarrow> fields_beside names (fields_beside names obj @ rest) = fields_beside names obj"
proof -
  assume "fst ` set rest \<subseteq> set names"
  then have "fields_beside names rest = []" by (induction rest) (auto simp: fields_beside_def)
  then show ?thesis using beside_append [of names obj] by (simp add: fields_beside_def)
qed

lemma renormalized_worker_plan: "normalizeWorkerPlan (worker_plan_js (normalizeWorkerPlan v)) = normalizeWorkerPlan v"
proof -
  define w where "w = normalizeWorkerPlan v"
  have other: "fw_other w = fields_beside [''id'', ''dependsOn'', ''required'', ''artifactNamespace'', ''metadata''] (record_fields v)"
    and strings: "[] \<notin> set (fw_dependsOn w)" "fw_namespace w \<noteq> Some []"
    by (simp_all add: w_def normalizeWorkerPlan_def Let_def)
  have "normalizeWorkerPlan (worker_plan_js w) = w"
    using strings unfolding normalizeWorkerPlan_def [of "worker_plan_js w"] Let_def
    unfolding worker_plan_js_def record_fields.simps other
    by (intro fanout_worker_plan.equality) (simp_all add: get_named beside_named js_strings_def other)
  then show ?thesis by (simp add: w_def)
qed

lemma renormalized_plan: "normalizePlan (plan_js (normalizePlan v)) = normalizePlan v"
proof -
  define p where "p = normalizePlan v"
  have other: "fp_other p = fields_beside [''id'', ''workers'', ''metadata''] (record_fields v)"
    and workers: "fp_workers p = map normalizeWorkerPlan (js_items (js_get (record_fields v) ''workers''))"
    and pid: "fp_id p \<noteq> Some []"
    by (simp_all add: p_def normalizePlan_def Let_def)
  have again: "map normalizeWorkerPlan (map worker_plan_js (fp_workers p)) = fp_workers p"
    by (simp add: workers renormalized_worker_plan)
  have "normalizePlan (plan_js p) = p"
    using pid again unfolding normalizePlan_def [of "plan_js p"] Let_def
    unfolding plan_js_def record_fields.simps other
    by (intro fanout_plan.equality) (simp_all add: get_named beside_named other)
  then show ?thesis by (simp add: p_def)
qed

lemma renormalized_conflict: "normalizeConflictRecord (conflict_js (normalizeConflictRecord v)) = normalizeConflictRecord v"
proof -
  define c where "c = normalizeConflictRecord v"
  have ne: "fc_type c \<noteq> []" "fc_severity c \<noteq> []" "fc_message c \<noteq> []" "fc_path c \<noteq> Some []" "fc_dependencyId c \<noteq> Some []"
    by (simp_all add: c_def normalizeConflictRecord_def Let_def string_or_ne)
  have workers: "\<forall>ws. fc_workerIds c = Some ws \<longrightarrow> [] \<notin> set ws"
    by (auto simp: c_def normalizeConflictRecord_def Let_def split: jsval.splits)
  have artifacts: "\<forall>as. fc_artifactRefs c = Some as \<longrightarrow> map (\<lambda>a. normalizeArtifactRef a JUndef) (map artifact_js as) = as"
  proof (intro allI impI)
    fix as assume "fc_artifactRefs c = Some as"
    then obtain vs where "as = map (\<lambda>a. normalizeArtifactRef a JUndef) vs"
      by (auto simp: c_def normalizeConflictRecord_def Let_def split: jsval.splits)
    then show "map (\<lambda>a. normalizeArtifactRef a JUndef) (map artifact_js as) = as"
      by (simp add: renormalized_artifact normalized_artifact)
  qed
  have "normalizeConflictRecord (conflict_js c) = c"
    using ne workers artifacts unfolding normalizeConflictRecord_def [of "conflict_js c"] Let_def
    unfolding conflict_js_def record_fields.simps
    by (intro fanout_conflict.equality)
       (simp_all add: js_strings_def artifacts_js_def split: option.split)
  then show ?thesis by (simp add: c_def)
qed

lemma renormalized_input:
  "normalizeFanoutAggregationInput (request_of (normalizeFanoutAggregationInput request))
   = settled_input (normalizeFanoutAggregationInput request)"
proof -
  define n where "n = normalizeFanoutAggregationInput request"
  have plan: "normalizePlan (plan_js (ai_plan n)) = ai_plan n"
    and results: "map (normalizeWorkerResultRef \<circ> result_ref_js) (ai_workerResultRefs n) = map settled_status (ai_workerResultRefs n)"
    and conflicts: "map (normalizeConflictRecord \<circ> conflict_js) (ai_conflictCandidates n) = ai_conflictCandidates n"
    by (simp_all add: n_def normalizeFanoutAggregationInput_def Let_def renormalized_plan renormalized_result
        renormalized_conflict)
  have normal: "\<forall>a \<in> set (ai_artifactRefs n). artifact_normal a"
    by (auto simp: n_def normalizeFanoutAggregationInput_def normalizeWorkerResultRef_def Let_def normalized_artifact)
  have artifacts: "map ((\<lambda>a. normalizeArtifactRef a JUndef) \<circ> artifact_js) (ai_artifactRefs n) = ai_artifactRefs n"
    using normal by (intro map_idI) (simp add: renormalized_artifact)
  have "normalizeFanoutAggregationInput (request_of n) = settled_input n"
    using plan results conflicts artifacts
    unfolding normalizeFanoutAggregationInput_def [of "request_of n"] settled_input_def Let_def
    unfolding request_of_def
    by (intro aggregation_input.equality) simp_all
  then show ?thesis by (simp add: n_def)
qed

section \<open>Segments of an output namespace\<close>

definition namespace_segment :: "string \<Rightarrow> bool" where
  "namespace_segment s \<longleftrightarrow> s \<noteq> [] \<and> list_all namespace_char s \<and> hd s \<noteq> CHR ''-'' \<and> last s \<noteq> CHR ''-''"

lemma dash_runs_chars: "list_all namespace_char (dash_runs inside s)"
  by (induction inside s rule: dash_runs.induct) (auto simp: namespace_char_def)

lemma strip_dashes_segment:
  assumes "list_all namespace_char s" and "strip_dashes s \<noteq> []"
  shows "namespace_segment (strip_dashes s)"
proof -
  define t where "t = dropWhile (\<lambda>c. c = CHR ''-'') s"
  have strip: "strip_dashes s = rev (dropWhile (\<lambda>c. c = CHR ''-'') (rev t))" by (simp add: strip_dashes_def t_def)
  with assms(2) have ne: "dropWhile (\<lambda>c. c = CHR ''-'') (rev t) \<noteq> []" by simp
  have "last (strip_dashes s) \<noteq> CHR ''-''" using hd_dropWhile [OF ne] ne by (simp add: strip last_rev)
  moreover obtain u where "rev t = u @ dropWhile (\<lambda>c. c = CHR ''-'') (rev t)" by (metis takeWhile_dropWhile_id)
  then have t: "t = strip_dashes s @ rev u" by (metis strip rev_append rev_rev_ident)
  with assms(2) have "hd (strip_dashes s) = hd t" "t \<noteq> []" by (metis hd_append2, auto)
  then have "hd (strip_dashes s) \<noteq> CHR ''-''" using hd_dropWhile [of "\<lambda>c. c = CHR ''-''" s] by (simp add: t_def)
  moreover have "set t \<subseteq> set s" unfolding t_def by (auto dest: set_dropWhileD)
  with t have "set (strip_dashes s) \<subseteq> set s" by (metis Un_subset_iff set_append)
  with assms(1) have "list_all namespace_char (strip_dashes s)" by (auto simp: list_all_iff)
  ultimately show ?thesis using assms(2) by (simp add: namespace_segment_def)
qed

lemma slash_separates: "\<not> namespace_char (CHR ''/'')"
  by (simp add: namespace_char_def is_alnum_def is_lower_def is_upper_def is_digit_def char_between_def)

lemma output_namespace_segments:
  "\<forall>s \<in> set (split_on (CHR ''/'') (normalizeOutputNamespace v)). namespace_segment s"
proof -
  define segments where "segments = filter (\<lambda>s. s \<noteq> [])
     (map (\<lambda>s. strip_dashes (dash_runs False s)) (split_on (CHR ''/'') (string_or v ''aggregate/final'')))"
  have ok: "\<forall>s \<in> set segments. namespace_segment s"
    using strip_dashes_segment [OF dash_runs_chars] by (auto simp: segments_def)
  then have plain: "\<forall>s \<in> set segments. CHR ''/'' \<notin> set s"
    using slash_separates by (metis list_all_iff namespace_segment_def)
  have result: "normalizeOutputNamespace v = str_or (join_with ''/'' segments) ''aggregate/final''"
    by (simp add: normalizeOutputNamespace_def segments_def Let_def)
  show ?thesis
  proof (cases "join_with ''/'' segments = []")
    case True
    then show ?thesis
      by (simp add: result str_or_def namespace_segment_def namespace_char_def is_alnum_def is_lower_def char_between_def)
  next
    case False
    then have "segments \<noteq> []" by auto
    from split_on_join [OF this plain] ok False show ?thesis by (simp add: result str_or_def)
  qed
qed

text \<open>A segment may consist of dots, so that the path of the default artifact can leave the directory.\<close>

lemma dots_survive: "normalizeOutputNamespace (JStr ''../x'') = ''../x''"
  by (simp add: normalizeOutputNamespace_def strip_dashes_def namespace_char_def is_alnum_def is_lower_def char_between_def
      str_or_def Let_def)

end
