(* ===== verification/Fanout_Contracts.thy ===== *)
theory Fanout_Contracts
  imports Fanout_Aggregation Redaction
begin

text \<open>
  \<open>packages/runtime-core/src/fanout-contracts.ts\<close>: the names of the events of a fan-out and of a host
  delegation, and the validators of the results and requests that cross the boundary.  Each validator
  collects issues; a value is valid when there are none.
\<close>

section \<open>Schemas and events\<close>

definition FANOUT_REQUEST_SCHEMA :: string where
  "FANOUT_REQUEST_SCHEMA = ''wp-codebox/agent-fanout-request/v1''"

definition FANOUT_PLAN_SCHEMA :: string where
  "FANOUT_PLAN_SCHEMA = ''wp-codebox/agent-fanout-plan/v1''"

definition FANOUT_RESULT_SCHEMA :: string where
  "FANOUT_RESULT_SCHEMA = ''wp-codebox/agent-fanout-result/v1''"

definition HOST_DELEGATION_REQUEST_SCHEMA :: string where
  "HOST_DELEGATION_REQUEST_SCHEMA = ''wp-codebox/host-delegation-request/v1''"

definition HOST_DELEGATION_RESULT_SCHEMA :: string where
  "HOST_DELEGATION_RESULT_SCHEMA = ''wp-codebox/host-delegation-result/v1''"

definition FANOUT_EVENT_TYPES :: "string list" where
  "FANOUT_EVENT_TYPES = [''fanout.started'', ''worker.started'', ''worker.completed'', ''worker.failed'', ''worker.skipped'',
     ''aggregation.started'', ''aggregation.completed'', ''fanout.completed'', ''fanout.failed'']"

definition HOST_DELEGATION_EVENT_TYPES :: "string list" where
  "HOST_DELEGATION_EVENT_TYPES = [''host-delegation.requested'', ''host-delegation.unavailable'',
     ''host-delegation.accepted'', ''host-delegation.completed'', ''host-delegation.failed'']"

definition isFanoutEventType :: "string \<Rightarrow> bool" where
  "isFanoutEventType event \<longleftrightarrow> event \<in> set FANOUT_EVENT_TYPES"

definition isHostDelegationEventType :: "string \<Rightarrow> bool" where
  "isHostDelegationEventType event \<longleftrightarrow> event \<in> set HOST_DELEGATION_EVENT_TYPES"

section \<open>Issues\<close>

datatype issue_code = Schema_invalid | Request_invalid | Result_invalid | Request_id_mismatch | Scope_mismatch
  | Source_digest_mismatch

record contract_issue =
  ci_code :: issue_code
  ci_path :: string
  ci_message :: string
  ci_details :: "(string \<times> string) option"

definition issue_when :: "bool \<Rightarrow> issue_code \<Rightarrow> string \<Rightarrow> string \<Rightarrow> contract_issue list" where
  "issue_when c code path message =
     (if c then [\<lparr>ci_code = code, ci_path = path, ci_message = message, ci_details = None\<rparr>] else [])"

definition mismatch_when :: "string \<Rightarrow> string \<Rightarrow> issue_code \<Rightarrow> string \<Rightarrow> string \<Rightarrow> contract_issue list" where
  "mismatch_when expected actual code path message =
     (if expected \<noteq> [] \<and> actual \<noteq> [] \<and> expected \<noteq> actual
      then [\<lparr>ci_code = code, ci_path = path, ci_message = message, ci_details = Some (expected, actual)\<rparr>] else [])"

definition indexed :: "'a list \<Rightarrow> (nat \<times> 'a) list" where
  "indexed xs = zip [0..<length xs] xs"

section \<open>Results of a fan-out\<close>

definition validateFanoutArtifactPath :: "string \<Rightarrow> nat \<times> jsval \<Rightarrow> contract_issue list" where
  "validateFanoutArtifactPath path = (\<lambda>(index, artifact).
     issue_when (\<not> is_record artifact \<or> text_value (js_member artifact ''path'') = []) Result_invalid
       (path @ ''.artifactRefs.'' @ string_of_nat index @ ''.path'')
       ''Fanout worker artifact ref path must be a non-empty string.'')"

definition validateFanoutWorkerResultRef :: "string \<Rightarrow> jsval \<Rightarrow> contract_issue list" where
  "validateFanoutWorkerResultRef path input =
     (if \<not> is_record input then issue_when True Result_invalid path ''Fanout worker result ref must be an object.''
      else
        let worker = js_get (record_fields input) in
        issue_when (text_value (worker ''workerId'') = []) Result_invalid (path @ ''.workerId'')
          ''Fanout worker result ref workerId must be a non-empty string.''
        @ issue_when (text_value (worker ''status'') = []) Result_invalid (path @ ''.status'')
          ''Fanout worker result ref status must be a non-empty string.''
        @ issue_when (worker ''required'' \<notin> {JBool True, JBool False}) Result_invalid (path @ ''.required'')
          ''Fanout worker result ref required must be a boolean.''
        @ issue_when (worker ''resultRef'' \<noteq> JUndef \<and> text_value (worker ''resultRef'') = []) Result_invalid
          (path @ ''.resultRef'') ''Fanout worker result ref resultRef must be a non-empty string when present.''
        @ (if \<not> js_is_array (worker ''artifactRefs'')
           then issue_when True Result_invalid (path @ ''.artifactRefs'')
             ''Fanout worker result ref artifactRefs must be an array.''
           else concat (map (validateFanoutArtifactPath path) (indexed (js_items (worker ''artifactRefs''))))))"

definition positive_number :: "jsval \<Rightarrow> bool" where
  "positive_number v = (case number_value v of Some q \<Rightarrow> 1 \<le> q | None \<Rightarrow> False)"

definition validateFanoutResultContract :: "jsval \<Rightarrow> contract_issue list" where
  "validateFanoutResultContract input =
     (if \<not> is_record input then issue_when True Result_invalid [] ''Fanout result must be an object.''
      else
        let result = js_get (record_fields input) in
        issue_when (result ''schema'' \<noteq> JStr FANOUT_RESULT_SCHEMA) Schema_invalid ''schema''
          (''Fanout result schema must be '' @ FANOUT_RESULT_SCHEMA @ ''.'')
        @ issue_when (result ''success'' \<notin> {JBool True, JBool False}) Result_invalid ''success''
          ''Fanout result success must be a boolean.''
        @ issue_when (text_value (result ''status'') = []) Result_invalid ''status''
          ''Fanout result status must be a non-empty string.''
        @ issue_when (text_value (result ''fanout_id'') = []) Result_invalid ''fanout_id''
          ''Fanout result fanout_id must be a non-empty string.''
        @ issue_when (\<not> positive_number (result ''concurrency'')) Result_invalid ''concurrency''
          ''Fanout result concurrency must be a positive number.''
        @ (if \<not> js_is_array (result ''workerResultRefs'')
           then issue_when True Result_invalid ''workerResultRefs'' ''Fanout result workerResultRefs must be an array.''
           else concat (map (\<lambda>(index, worker). validateFanoutWorkerResultRef (''workerResultRefs.'' @ string_of_nat index) worker)
                  (indexed (js_items (result ''workerResultRefs'')))))
        @ issue_when (result ''aggregate'' \<noteq> JUndef \<and> \<not> is_record (result ''aggregate'')) Result_invalid ''aggregate''
          ''Fanout result aggregate must be an object when present.''
        @ issue_when (result ''counts'' \<noteq> JUndef \<and> \<not> is_record (result ''counts'')) Result_invalid ''counts''
          ''Fanout result counts must be an object when present.'')"

section \<open>Host delegation\<close>

definition hex_digest :: "string \<Rightarrow> bool" where
  "hex_digest s \<longleftrightarrow> length s = 64 \<and> list_all (\<lambda>c. is_digit c \<or> char_between (CHR ''a'') (CHR ''f'') c) s"

definition digestValue :: "jsval \<Rightarrow> string" where
  "digestValue value =
     (let digest = lower (case value of JStr s \<Rightarrow> trim s | JObj obj \<Rightarrow> text_value (js_get obj ''value'') | _ \<Rightarrow> [])
      in if hex_digest digest then digest else [])"

definition isHostDelegationStatus :: "string \<Rightarrow> bool" where
  "isHostDelegationStatus status \<longleftrightarrow> status \<in> set [''accepted'', ''completed'', ''failed'', ''unavailable'']"

definition validateHostDelegationRequestContract :: "jsval \<Rightarrow> contract_issue list" where
  "validateHostDelegationRequestContract input =
     (if \<not> is_record input then issue_when True Request_invalid [] ''Host delegation request must be an object.''
      else
        let request = js_get (record_fields input) in
        issue_when (request ''schema'' \<noteq> JUndef \<and> request ''schema'' \<noteq> JStr HOST_DELEGATION_REQUEST_SCHEMA) Schema_invalid ''schema''
          (''Host delegation request schema must be '' @ HOST_DELEGATION_REQUEST_SCHEMA @ ''.'')
        @ issue_when (text_value (request ''goal'') = [] \<and> text_value (request ''task'') = []) Request_invalid ''goal''
          ''Host delegation requests require a non-empty goal or task.''
        @ concat (map (\<lambda>field. issue_when (request field \<noteq> JUndef \<and> \<not> is_record (request field)) Request_invalid field
            (''Host delegation request '' @ field @ '' must be an object.''))
            [''target'', ''context'', ''execution'', ''orchestrator'', ''metadata''])
        @ issue_when (request ''expected_artifacts'' \<noteq> JUndef \<and> \<not> js_is_array (request ''expected_artifacts''))
          Request_invalid ''expected_artifacts'' ''Host delegation expected_artifacts must be an array.''
        @ issue_when (request ''source_digest'' \<noteq> JUndef \<and> digestValue (request ''source_digest'') = [])
          Request_invalid ''source_digest'' ''Host delegation source_digest must be a 64-character sha256 digest.'')"

text \<open>The part of the answer's check that compares it with its request.\<close>

definition delegation_mismatches :: "js_object \<Rightarrow> js_object \<Rightarrow> contract_issue list" where
  "delegation_mismatches request result =
     (let text = (\<lambda>obj field. text_value (js_get obj field));
          output = record_fields (js_get result ''result'')
      in mismatch_when (text request ''request_id'') (text result ''request_id'') Request_id_mismatch ''request_id''
           ''Host delegation result request_id does not match the request.''
         @ mismatch_when (str_or (text request ''sandbox_session_id'') (text request ''session_id''))
             (str_or (text result ''sandbox_session_id'') (str_or (text result ''session_id'')
               (str_or (text output ''sandbox_session_id'') (text output ''session_id''))))
             Scope_mismatch ''session_id'' ''Host delegation result session scope does not match the request.''
         @ mismatch_when (digestValue (js_get request ''source_digest''))
             (str_or (digestValue (js_get result ''source_digest'')) (digestValue (js_get output ''source_digest'')))
             Source_digest_mismatch ''source_digest'' ''Host delegation result source digest does not match the request.'')"

definition validateHostDelegationResultContract :: "jsval \<Rightarrow> jsval \<Rightarrow> contract_issue list" where
  "validateHostDelegationResultContract requestInput resultInput =
     issue_when (\<not> is_record requestInput) Request_invalid ''request'' ''Host delegation request must be an object.''
     @ (if \<not> is_record resultInput then issue_when True Result_invalid [] ''Host delegation result must be an object.''
        else
          let result = js_get (record_fields resultInput);
              status = str_or (text_value (result ''status''))
                (if result ''success'' = JBool False then ''failed'' else ''completed'')
          in issue_when (result ''schema'' \<noteq> JUndef \<and> result ''schema'' \<noteq> JStr HOST_DELEGATION_RESULT_SCHEMA) Schema_invalid ''schema''
               (''Host delegation result schema must be '' @ HOST_DELEGATION_RESULT_SCHEMA @ ''.'')
             @ issue_when (\<not> isHostDelegationStatus status) Result_invalid ''status''
               ''Host delegation result status must be accepted, completed, failed, or unavailable.''
             @ issue_when (\<not> js_nullish (result ''result'') \<and> \<not> is_record (result ''result'')) Result_invalid ''result''
               ''Host delegation result.result must be an object when present.''
             @ (if is_record requestInput
                then delegation_mismatches (record_fields requestInput) (record_fields resultInput) else []))"

section \<open>Issues of the normalized results\<close>

lemma issue_when_none [simp]: "issue_when c code path message = [] \<longleftrightarrow> \<not> c"
  by (simp add: issue_when_def)

lemma mismatch_when_none [simp]:
  "mismatch_when expected actual code path message = [] \<longleftrightarrow> expected = [] \<or> actual = [] \<or> expected = actual"
  by (simp add: mismatch_when_def)

lemma indexed_all: "(\<forall>(i, x) \<in> set (indexed xs). P x) \<longleftrightarrow> (\<forall>x \<in> set xs. P x)"
  by (auto simp: indexed_def set_zip all_set_conv_all_nth)

text \<open>A valid answer carries no identifier, session or digest that contradicts its request.\<close>

lemma delegation_answers_request:
  assumes "validateHostDelegationResultContract (JObj request) (JObj result) = []"
    and "text_value (js_get request ''request_id'') \<noteq> []" and "text_value (js_get result ''request_id'') \<noteq> []"
  shows "text_value (js_get result ''request_id'') = text_value (js_get request ''request_id'')"
  using assms by (auto simp: validateHostDelegationResultContract_def delegation_mismatches_def is_record_def Let_def)

lemma digestValue_form: "digestValue v = [] \<or> hex_digest (digestValue v)"
  by (simp add: digestValue_def Let_def)

end
