(* ===== verification/Fanout_Execution.thy ===== *)
theory Fanout_Execution
  imports Fanout_Contracts Run_Scheduler
begin

text \<open>
  \<open>packages/runtime-core/src/fanout-execution.ts\<close>: a fan-out request is planned, run by the scheduler
  of \<open>Run_Scheduler\<close>, turned into references to the results of the workers, aggregated, and checked
  against the contract of its result.  Because the workers may finish in any order, a request is a
  relation to its outcomes.
\<close>

section \<open>Requests, options and results\<close>

text \<open>\<open>fq_fields\<close> holds the fields of a request beside its workers.\<close>

record fanout_request =
  fq_workers :: "js_object list"
  fq_fields :: js_object

datatype fanout_hook = On_fanout_started | On_aggregation_started | On_aggregation_completed | On_fanout_completed

text \<open>The hooks of the workers are in \<open>fo_executor\<close>; \<open>fo_hook\<close> says which of the others throws.\<close>

record fanout_options =
  fo_plan :: plan_options
  fo_executor :: executor_options
  fo_sessionId :: string
  fo_aggregationPolicy :: "string option"
  fo_aggregator :: jsval
  fo_finalArtifactRefs :: "fanout_artifact list option"
  fo_outputNamespace :: "string option"
  fo_hook :: "fanout_hook \<Rightarrow> string option"

record planned_worker =
  ew_id :: string
  ew_agent :: string
  ew_goal :: string
  ew_artifact_namespace :: string
  ew_depends_on :: "string list"
  ew_required :: bool
  ew_worker :: js_object

record fanout_execution_plan =
  ep_fanout_id :: string
  ep_session_id :: string
  ep_concurrency :: jsnum
  ep_orchestrator :: js_object
  ep_workers :: "planned_worker list"

text \<open>A reference to a result before it is normalized: its artifacts are still unknown values.\<close>

record execution_ref =
  er_workerId :: string
  er_status :: string
  er_required :: bool
  er_resultRef :: "string option"
  er_artifactRefs :: "jsval list"
  er_error :: "fanout_error option"
  er_metadata :: jsval

record fanout_job =
  fj_sessionId :: string
  fj_concurrency :: jsnum
  fj_workers :: "worker_descriptor list"
  fj_plan :: fanout_execution_plan

record fanout_result =
  fx_success :: bool
  fx_status :: string
  fx_fanout_id :: string
  fx_sessionId :: string
  fx_concurrency :: jsnum
  fx_plan :: fanout_execution_plan
  fx_workers :: "worker_result list"
  fx_workerResultRefs :: "execution_ref list"
  fx_aggregate :: aggregation_output
  fx_counts :: result_counts
  fx_execution :: plan_report

section \<open>Planning\<close>

definition fanoutExecutionPlan :: "string \<Rightarrow> jsnum \<Rightarrow> js_object \<Rightarrow> worker_descriptor list \<Rightarrow> fanout_execution_plan" where
  "fanoutExecutionPlan sessionId concurrency orchestrator workers =
     \<lparr>ep_fanout_id = sessionId, ep_session_id = sessionId, ep_concurrency = concurrency, ep_orchestrator = orchestrator,
      ep_workers = map (\<lambda>d. \<lparr>ew_id = wd_id d, ew_agent = wd_agent d, ew_goal = wd_goal d,
        ew_artifact_namespace = wd_namespace d, ew_depends_on = wd_dependsOn d, ew_required = wd_required d,
        ew_worker = wd_worker d\<rparr>) workers\<rparr>"

definition fanout_session :: "fanout_options \<Rightarrow> int \<Rightarrow> fanout_request \<Rightarrow> string" where
  "fanout_session options clock request =
     (let orchestrator = record_fields (js_get (fq_fields request) ''orchestrator'') in
      str_or (fo_sessionId options)
        (str_or (text_value (js_get (fq_fields request) ''session_id''))
          (str_or (text_value (js_get orchestrator ''session_id''))
            (str_or (text_value (js_get orchestrator ''request_id'')) (''fanout-'' @ string_of_int clock)))))"

definition worker_options :: "fanout_options \<Rightarrow> fanout_request \<Rightarrow> plan_options" where
  "worker_options options request = (fo_plan options)\<lparr>po_defaultAgent :=
     coalesce (po_defaultAgent (fo_plan options)) (JStr (text_value (js_get (fq_fields request) ''agent'')))\<rparr>"

definition execution_options :: "fanout_options \<Rightarrow> fanout_request \<Rightarrow> plan_options" where
  "execution_options options request = (worker_options options request)\<lparr>po_concurrencyMode := Some Validate\<rparr>"

definition call_hook :: "fanout_options \<Rightarrow> fanout_hook \<Rightarrow> string + 'a \<Rightarrow> string + 'a" where
  "call_hook options h rest = (case fo_hook options h of Some e \<Rightarrow> Inl e | None \<Rightarrow> rest)"

text \<open>\<open>executeFanoutRequest\<close> up to the run of its plan.\<close>

definition fanout_prepare :: "fanout_options \<Rightarrow> int \<Rightarrow> fanout_request \<Rightarrow> string + fanout_job" where
  "fanout_prepare options clock request =
     (let schema = js_get (fq_fields request) ''schema'' in
      if js_truthy schema \<and> schema \<noteq> JStr FANOUT_REQUEST_SCHEMA
      then Inl (''Fanout execution requires '' @ FANOUT_REQUEST_SCHEMA @ ''.'')
      else
        let sessionId = fanout_session options clock request;
            maxConcurrency = coalesce (po_maxConcurrency (fo_plan options)) (JInt max_safe_integer)
        in case normalizeRunPlanConcurrency (js_get (fq_fields request) ''concurrency'')
                  (po_defaultConcurrency (fo_plan options)) maxConcurrency (po_concurrencyMode (fo_plan options)) of
             Inl e \<Rightarrow> Inl e
           | Inr concurrency \<Rightarrow>
               (case normalizeRunPlanWorkerDescriptors (fq_workers request) (worker_options options request) of
                  Inl e \<Rightarrow> Inl e
                | Inr workers \<Rightarrow>
                    call_hook options On_fanout_started
                      (Inr \<lparr>fj_sessionId = sessionId, fj_concurrency = concurrency, fj_workers = workers,
                         fj_plan = fanoutExecutionPlan sessionId concurrency
                           (record_fields (js_get (fq_fields request) ''orchestrator'')) workers\<rparr>)))"

section \<open>References to the results\<close>

text \<open>The \<open>error\<close> of a result: the code and message it was built with, or what an adapter put there.\<close>

definition result_error :: "worker_result \<Rightarrow> jsval" where
  "result_error result = (case wr_error result of
     Some (code, message) \<Rightarrow> JObj [(''code'', JStr code), (''message'', JStr message)]
   | None \<Rightarrow> js_get (wr_extra result) ''error'')"

definition text_option :: "string \<Rightarrow> string option" where
  "text_option s = (if s = [] then None else Some s)"

definition fanoutWorkerError :: "jsval \<Rightarrow> fanout_error option" where
  "fanoutWorkerError error =
     map_option (\<lambda>obj. \<lparr>fe_code = text_option (text_value (js_get obj ''code'')),
       fe_message = str_or (text_value (js_get obj ''message'')) ''Fanout worker failed.'',
       fe_details = Some (record_fields (js_get obj ''details''))\<rparr>) (optional_record error)"

definition result_artifacts :: "worker_result \<Rightarrow> jsval list" where
  "result_artifacts result =
     (let extra = js_get (wr_extra result) in
      js_items (coalesce (extra ''artifactRefs'') (coalesce (extra ''artifact_refs'')
        (coalesce (extra ''evidenceRefs'') (extra ''evidence_refs'')))))"

definition fanoutWorkerResultRef :: "worker_result \<Rightarrow> worker_descriptor option \<Rightarrow> execution_ref" where
  "fanoutWorkerResultRef result descriptor =
     (let extra = js_get (wr_extra result) in
      \<lparr>er_workerId = str_or (trim (wr_workerId result)) (case descriptor of Some d \<Rightarrow> wd_id d | None \<Rightarrow> []),
       er_status = str_or (case wr_status result of Some s \<Rightarrow> trim s | None \<Rightarrow> [])
         (if wr_success result = Some True then ''succeeded'' else ''failed''),
       er_required = (case extra ''required'' of JBool b \<Rightarrow> b
          | _ \<Rightarrow> (case descriptor of Some d \<Rightarrow> wd_required d | None \<Rightarrow> True)),
       er_resultRef = text_option (str_or (text_value (extra ''resultRef'')) (text_value (extra ''result_ref''))),
       er_artifactRefs = result_artifacts result, er_error = fanoutWorkerError (result_error result),
       er_metadata = extra ''metadata''\<rparr>)"

text \<open>The own enumerable properties of a value, as spreading it copies them.\<close>

definition own_fields :: "jsval \<Rightarrow> js_object" where
  "own_fields v = (case v of JObj obj \<Rightarrow> obj
     | JArr vs \<Rightarrow> map (\<lambda>(i, x). (string_of_nat i, x)) (indexed vs)
     | JStr s \<Rightarrow> map (\<lambda>(i, c). (string_of_nat i, JStr [c])) (indexed s)
     | _ \<Rightarrow> [])"

text \<open>An artifact of a dependency, kept for a worker that was skipped; it no longer claims a final path.\<close>

definition preserved_ref :: "string \<Rightarrow> jsval \<Rightarrow> jsval" where
  "preserved_ref wid artifactRef =
     JObj (js_put (fields_beside [''finalPath''] (own_fields artifactRef)) ''metadata''
       (JObj (js_put (js_put (own_fields (coalesce (js_member artifactRef ''metadata'') (JObj [])))
           ''preserved_for_skipped_worker'' (JStr wid))
           ''preserved_from_final_path'' (js_member artifactRef ''finalPath''))))"

definition dependency_refs :: "worker_descriptor \<Rightarrow> worker_result list \<Rightarrow> worker_descriptor list \<Rightarrow> jsval list" where
  "dependency_refs descriptor results descriptors =
     concat (map (\<lambda>(candidate, result). er_artifactRefs (fanoutWorkerResultRef result (Some candidate)))
       (filter (\<lambda>(candidate, result). wd_id candidate \<in> set (wd_dependsOn descriptor)) (zip descriptors results)))"

definition fanoutWorkerResultRefWithDependencyRefs ::
    "worker_result list \<Rightarrow> worker_descriptor list \<Rightarrow> worker_result \<Rightarrow> worker_descriptor \<Rightarrow> string + execution_ref" where
  "fanoutWorkerResultRefWithDependencyRefs results descriptors result descriptor =
     (let ref = fanoutWorkerResultRef result (Some descriptor) in
      if er_artifactRefs ref \<noteq> [] \<or> er_status ref \<noteq> ''skipped'' \<or> wd_dependsOn descriptor = [] then Inr ref
      else
        let refs = dependency_refs descriptor results descriptors in
        if list_ex js_nullish refs then Inl ''Cannot destructure property finalPath of null''
        else Inr (ref\<lparr>er_artifactRefs := map (preserved_ref (wd_id descriptor)) refs\<rparr>))"

fun collect_refs :: "('a \<Rightarrow> string + 'b) \<Rightarrow> 'a list \<Rightarrow> string + 'b list" where
  "collect_refs f [] = Inr []"
| "collect_refs f (x # xs) =
     (case f x of Inl e \<Rightarrow> Inl e
      | Inr y \<Rightarrow> (case collect_refs f xs of Inl e \<Rightarrow> Inl e | Inr ys \<Rightarrow> Inr (y # ys)))"

definition worker_result_refs :: "worker_descriptor list \<Rightarrow> worker_result list \<Rightarrow> string + execution_ref list" where
  "worker_result_refs workers results =
     collect_refs (\<lambda>(result, descriptor). fanoutWorkerResultRefWithDependencyRefs results workers result descriptor)
       (zip results workers)"

definition execution_ref_js :: "execution_ref \<Rightarrow> jsval" where
  "execution_ref_js r = JObj
     [(''workerId'', JStr (er_workerId r)), (''status'', JStr (er_status r)), (''required'', JBool (er_required r)),
      (''resultRef'', js_optional (er_resultRef r)), (''artifactRefs'', JArr (er_artifactRefs r)),
      (''error'', error_js (er_error r)), (''metadata'', er_metadata r)]"

section \<open>Aggregation and outcome\<close>

definition fanout_aggregator :: "fanout_options \<Rightarrow> fanout_request \<Rightarrow> jsval" where
  "fanout_aggregator options request =
     (case js_get (fq_fields request) ''aggregator'' of JObj obj \<Rightarrow> JObj obj | _ \<Rightarrow> fo_aggregator options)"

definition planned_worker_js :: "worker_descriptor \<Rightarrow> jsval" where
  "planned_worker_js d = JObj [(''id'', JStr (wd_id d)), (''dependsOn'', js_strings (wd_dependsOn d)),
     (''required'', JBool (wd_required d)), (''artifactNamespace'', JStr (wd_namespace d))]"

definition fanout_aggregation_request ::
    "fanout_options \<Rightarrow> fanout_request \<Rightarrow> fanout_job \<Rightarrow> execution_ref list \<Rightarrow> aggregation_request" where
  "fanout_aggregation_request options request job refs =
     (let aggregator = fanout_aggregator options request in
      \<lparr>rq_schema = None,
       rq_plan = JObj [(''id'', JStr (fj_sessionId job)), (''workers'', JArr (map planned_worker_js (fj_workers job)))],
       rq_policy = Some (case fo_aggregationPolicy options of Some p \<Rightarrow> p
          | None \<Rightarrow> str_or (text_value (js_member aggregator ''policy'')) ''fail''),
       rq_aggregator = aggregator, rq_workerResultRefs = map execution_ref_js refs, rq_artifactRefs = [],
       rq_conflictCandidates = [], rq_metadata = None\<rparr>)"

definition fanout_aggregate ::
    "fanout_options \<Rightarrow> fanout_request \<Rightarrow> fanout_job \<Rightarrow> execution_ref list \<Rightarrow> aggregation_output" where
  "fanout_aggregate options request job refs =
     aggregateFanoutOutputs
       (request_of (fanoutAggregationInputFromWorkerArtifacts (fanout_aggregation_request options request job refs)))
       \<lparr>ag_finalArtifactRefs = fo_finalArtifactRefs options, ag_outputNamespace = fo_outputNamespace options,
        ag_error = None, ag_metadata = None\<rparr>"

definition counts_js :: "result_counts \<Rightarrow> jsval" where
  "counts_js c = JObj [(''total'', JInt (rn_total c)), (''completed'', JInt (rn_completed c)), (''failed'', JInt (rn_failed c)),
     (''skipped'', JInt (rn_skipped c)), (''cancelled'', JInt (rn_cancelled c)), (''timed_out'', JInt (rn_timed_out c))]"

text \<open>The fields of a result that its contract speaks of.\<close>

definition fanout_result_js :: "fanout_result \<Rightarrow> jsval" where
  "fanout_result_js x = JObj
     [(''schema'', JStr FANOUT_RESULT_SCHEMA), (''success'', JBool (fx_success x)), (''status'', JStr (fx_status x)),
      (''fanout_id'', JStr (fx_fanout_id x)), (''sessionId'', JStr (fx_sessionId x)),
      (''concurrency'', JNum (fx_concurrency x)),
      (''workerResultRefs'', JArr (map execution_ref_js (fx_workerResultRefs x))),
      (''aggregate'', aggregation_output_js (fx_aggregate x)), (''counts'', counts_js (fx_counts x))]"

definition fanout_result_of ::
    "fanout_options \<Rightarrow> fanout_request \<Rightarrow> fanout_job \<Rightarrow> plan_report \<Rightarrow> execution_ref list \<Rightarrow> fanout_result" where
  "fanout_result_of options request job execution refs =
     (let aggregate = fanout_aggregate options request job refs;
          success = (ao_status aggregate = ''succeeded'')
      in \<lparr>fx_success = success, fx_status = (if success then ''completed'' else ''failed''),
          fx_fanout_id = fj_sessionId job, fx_sessionId = fj_sessionId job, fx_concurrency = fj_concurrency job,
          fx_plan = fj_plan job, fx_workers = pr_workers execution, fx_workerResultRefs = refs,
          fx_aggregate = aggregate, fx_counts = pr_counts execution, fx_execution = execution\<rparr>)"

definition issue_text :: "contract_issue \<Rightarrow> string" where
  "issue_text issue = ci_path issue @ '': '' @ ci_message issue"

text \<open>\<open>executeFanoutRequest\<close> from the report of the run on.\<close>

definition fanout_complete ::
    "fanout_options \<Rightarrow> fanout_request \<Rightarrow> fanout_job \<Rightarrow> plan_report \<Rightarrow> string + fanout_result" where
  "fanout_complete options request job execution =
     (case worker_result_refs (fj_workers job) (pr_workers execution) of
        Inl e \<Rightarrow> Inl e
      | Inr refs \<Rightarrow>
          let result = fanout_result_of options request job execution refs;
              issues = validateFanoutResultContract (fanout_result_js result)
          in call_hook options On_aggregation_started
               (call_hook options On_aggregation_completed
                 (if issues \<noteq> []
                  then Inl (''Fanout execution produced invalid '' @ FANOUT_RESULT_SCHEMA @ '': ''
                         @ join_with ''; '' (map issue_text issues))
                  else call_hook options On_fanout_completed (Inr result))))"

inductive executeFanoutRequest :: "fanout_options \<Rightarrow> int \<Rightarrow> fanout_request \<Rightarrow> string + fanout_result \<Rightarrow> bool"
  for options clock request where
  not_prepared: "fanout_prepare options clock request = Inl e \<Longrightarrow> executeFanoutRequest options clock request (Inl e)"
| not_planned: "fanout_prepare options clock request = Inr job \<Longrightarrow>
    plan_run (fq_workers request) (JNum (fj_concurrency job)) (execution_options options request) = Inl e \<Longrightarrow>
    executeFanoutRequest options clock request (Inl e)"
| not_run: "fanout_prepare options clock request = Inr job \<Longrightarrow>
    plan_run (fq_workers request) (JNum (fj_concurrency job)) (execution_options options request) = Inr (ds, c) \<Longrightarrow>
    execute_reach (fq_workers request) (JNum (fj_concurrency job)) (execution_options options request)
      (fo_executor options) n s \<Longrightarrow>
    plan_report_of c (sc_outcome s) = Some (Inl e) \<Longrightarrow> executeFanoutRequest options clock request (Inl e)"
| run_reported: "fanout_prepare options clock request = Inr job \<Longrightarrow>
    plan_run (fq_workers request) (JNum (fj_concurrency job)) (execution_options options request) = Inr (ds, c) \<Longrightarrow>
    execute_reach (fq_workers request) (JNum (fj_concurrency job)) (execution_options options request)
      (fo_executor options) n s \<Longrightarrow>
    plan_report_of c (sc_outcome s) = Some (Inr execution) \<Longrightarrow>
    executeFanoutRequest options clock request (fanout_complete options request job execution)"

section \<open>Facts on the references\<close>

definition ref_succeeded :: "execution_ref \<Rightarrow> bool" where
  "ref_succeeded r \<longleftrightarrow> er_status r \<in> {''succeeded'', ''no_op'', ''completed'', ''passed''}"

definition ref_of_worker :: "execution_ref list \<Rightarrow> string \<Rightarrow> execution_ref option" where
  "ref_of_worker refs wid = find (\<lambda>r. er_workerId r = wid) (rev refs)"

definition claimed_paths :: "execution_ref list \<Rightarrow> string list" where
  "claimed_paths refs = nonempty_strings (map (\<lambda>a. js_get (record_fields a) ''finalPath'') (concat (map er_artifactRefs refs)))"

text \<open>An identifier and a status are present and trimmed.\<close>

definition ref_named :: "execution_ref \<Rightarrow> bool" where
  "ref_named r \<longleftrightarrow> er_workerId r \<noteq> [] \<and> trim (er_workerId r) = er_workerId r \<and> er_status r \<noteq> [] \<and> trim (er_status r) = er_status r
     \<and> (\<forall>s. er_resultRef r = Some s \<longrightarrow> s \<noteq> [] \<and> trim s = s)"

lemma safe_segment_trim: "safe_segment s \<Longrightarrow> trim s = s"
proof -
  have "\<not> js_space c" if "is_alnum c \<or> c \<in> {CHR ''.'', CHR ''_'', CHR ''-''}" for c
    using that by (auto simp: is_alnum_def is_lower_def is_upper_def is_digit_def char_between_def js_space_def)
  moreover assume "safe_segment s"
  then have "list_all (\<lambda>c. is_alnum c \<or> c \<in> {CHR ''.'', CHR ''_'', CHR ''-''}) s"
    by (cases s) (auto simp: safe_segment_def)
  ultimately show ?thesis by (intro trim_no_space) (auto simp: list_all_iff)
qed

lemma trim_simps [simp]: "trim ''succeeded'' = ''succeeded''" "trim ''failed'' = ''failed''"
  by (simp_all add: trim_no_space js_space_def)

lemma result_ref_named: "safe_segment (wd_id d) \<Longrightarrow> ref_named (fanoutWorkerResultRef result (Some d))"
  using safe_segment_trim [of "wd_id d"]
  by (auto simp: ref_named_def fanoutWorkerResultRef_def str_or_def text_option_def safe_segment_def Let_def split: option.split)

lemma collect_refs_Inr: "collect_refs f xs = Inr ys \<Longrightarrow> list_all2 (\<lambda>x y. f x = Inr y) xs ys"
  by (induction xs arbitrary: ys) (auto split: sum.splits)

lemma with_dependency_refs:
  assumes "fanoutWorkerResultRefWithDependencyRefs results ds result d = Inr r"
  shows "\<exists>as. r = (fanoutWorkerResultRef result (Some d))\<lparr>er_artifactRefs := as\<rparr>"
proof -
  define ref where "ref = fanoutWorkerResultRef result (Some d)"
  have same: "\<exists>as. ref = ref\<lparr>er_artifactRefs := as\<rparr>" by (rule exI [of _ "er_artifactRefs ref"]) simp
  show ?thesis
    using assms same unfolding fanoutWorkerResultRefWithDependencyRefs_def ref_def [symmetric] Let_def
    by (simp split: if_splits) blast+
qed

lemma worker_refs_named:
  assumes "worker_result_refs ds results = Inr refs" and "\<forall>d \<in> set ds. safe_segment (wd_id d)" and "r \<in> set refs"
  shows "ref_named r"
proof -
  from assms(1) have all: "list_all2 (\<lambda>p y. (case p of (result, d) \<Rightarrow> fanoutWorkerResultRefWithDependencyRefs results ds result d) = Inr y)
      (zip results ds) refs"
    unfolding worker_result_refs_def by (rule collect_refs_Inr)
  from assms(3) obtain i where i: "i < length refs" "refs ! i = r" by (auto simp: in_set_conv_nth)
  with list_all2_nthD2 [OF all, of i] obtain result d where p: "zip results ds ! i = (result, d)"
    and eq: "fanoutWorkerResultRefWithDependencyRefs results ds result d = Inr r"
    by (cases "zip results ds ! i") auto
  have "(result, d) \<in> set (zip results ds)" using p i list_all2_lengthD [OF all] by (metis nth_mem)
  then have "d \<in> set ds" by (rule set_zip_rightD)
  with assms(2) result_ref_named have "ref_named (fanoutWorkerResultRef result (Some d))" by blast
  with with_dependency_refs [OF eq] show ?thesis by (auto simp: ref_named_def)
qed

text \<open>What is preserved for a skipped worker claims no path.\<close>

lemma js_get_beside [simp]: "k \<in> set names \<Longrightarrow> js_get (fields_beside names obj) k = JUndef"
  by (induction obj) (auto simp: fields_beside_def)

lemma preserved_ref_path: "js_get (record_fields (preserved_ref wid a)) ''finalPath'' = JUndef"
  by (simp add: preserved_ref_def)

section \<open>The aggregate of a run\<close>

lemma normalized_ref:
  assumes "ref_named r"
  shows "fr_workerId (normalizeWorkerResultRef (execution_ref_js r)) = er_workerId r"
    and "fr_required (normalizeWorkerResultRef (execution_ref_js r)) = er_required r"
    and "agentTaskStatusSucceeded (JStr (fr_status (normalizeWorkerResultRef (execution_ref_js r)))) = ref_succeeded r"
    and "fr_artifactRefs (normalizeWorkerResultRef (execution_ref_js r))
      = map (\<lambda>a. normalizeArtifactRef a (JStr (er_workerId r))) (er_artifactRefs r)"
proof -
  define n where "n = normalizeWorkerResultRef (execution_ref_js r)"
  have fields: "n = \<lparr>fr_workerId = er_workerId r,
      fr_status = normalizeAgentTaskStatus (no_status\<lparr>si_status := JStr (er_status r), si_success := JUndef\<rparr>),
      fr_required = er_required r, fr_resultRef = er_resultRef r,
      fr_artifactRefs = map (\<lambda>a. normalizeArtifactRef a (JStr (er_workerId r))) (er_artifactRefs r),
      fr_error = normalizeError (error_js (er_error r)), fr_metadata = optional_record (er_metadata r)\<rparr>"
    using assms unfolding n_def normalizeWorkerResultRef_def execution_ref_js_def Let_def ref_named_def
    by (cases "er_resultRef r") auto
  show "fr_workerId (normalizeWorkerResultRef (execution_ref_js r)) = er_workerId r"
    and "fr_required (normalizeWorkerResultRef (execution_ref_js r)) = er_required r"
    and "fr_artifactRefs (normalizeWorkerResultRef (execution_ref_js r))
      = map (\<lambda>a. normalizeArtifactRef a (JStr (er_workerId r))) (er_artifactRefs r)"
    unfolding n_def [symmetric] fields by simp_all
  have "agentTaskStatusSucceeded (JStr (fr_status n)) = (fr_status n \<in> {''succeeded'', ''no_op''})"
    using trim_agent_status [OF agent_status_known] by (simp add: fields agentTaskStatusSucceeded_def)
  also have "\<dots> = ref_succeeded r"
    using assms by (simp add: fields normalizeAgentTaskStatus_def no_status_def agent_statuses_def input_succeeded_def
        ref_succeeded_def ref_named_def numericExitStatus_def number_value_def Let_def)
  finally show "agentTaskStatusSucceeded (JStr (fr_status (normalizeWorkerResultRef (execution_ref_js r)))) = ref_succeeded r"
    unfolding n_def .
qed

lemma find_map_same: "(\<And>x. x \<in> set xs \<Longrightarrow> q (f x) = p x) \<Longrightarrow> find q (map f xs) = map_option f (find p xs)"
  by (induction xs) auto

lemma settled_same [simp]:
  "fr_workerId (settled_status r) = fr_workerId r" "fr_required (settled_status r) = fr_required r"
  "agentTaskStatusSucceeded (JStr (fr_status (settled_status r))) = agentTaskStatusSucceeded (JStr (fr_status r))"
  by (simp_all add: settled_status_def agentTaskStatusSucceeded_def trim_no_space js_space_def)

lemma normalized_final_path: "fa_finalPath (normalizeArtifactRef a w) = nonempty_string (js_get (record_fields a) ''finalPath'')"
  by (simp add: normalizeArtifactRef_def Let_def)

definition aggregated_input ::
    "fanout_options \<Rightarrow> fanout_request \<Rightarrow> fanout_job \<Rightarrow> execution_ref list \<Rightarrow> aggregation_input" where
  "aggregated_input options request job refs =
     settled_input (fanoutAggregationInputFromWorkerArtifacts (fanout_aggregation_request options request job refs))"

lemma aggregated_input_parts:
  "ai_conflictCandidates (aggregated_input options request job refs) = []"
  "ai_workerResultRefs (aggregated_input options request job refs)
     = map (settled_status \<circ> normalizeWorkerResultRef \<circ> execution_ref_js) refs"
  "ai_artifactRefs (aggregated_input options request job refs)
     = concat (map (\<lambda>r. fr_artifactRefs (normalizeWorkerResultRef (execution_ref_js r))) refs)"
  "fp_workers (ai_plan (aggregated_input options request job refs))
     = map (\<lambda>d. normalizeWorkerPlan (planned_worker_js d)) (fj_workers job)"
  by (simp_all add: aggregated_input_def settled_input_def fanoutAggregationInputFromWorkerArtifacts_def
      normalizeFanoutAggregationInput_def fanout_aggregation_request_def normalizePlan_def FANOUT_AGGREGATION_INPUT_SCHEMA_def
      Let_def comp_def)

lemma aggregate_normalized:
  "normalizeFanoutAggregationInput
     (request_of (fanoutAggregationInputFromWorkerArtifacts (fanout_aggregation_request options request job refs)))
   = aggregated_input options request job refs"
  by (simp add: aggregated_input_def fanoutAggregationInputFromWorkerArtifacts_def renormalized_input)

lemma claimed_paths_aggregated:
  assumes "\<forall>r \<in> set refs. ref_named r"
  shows "final_paths_of (concat (map (\<lambda>r. fr_artifactRefs (normalizeWorkerResultRef (execution_ref_js r))) refs)) = claimed_paths refs"
proof -
  have paths: "final_paths_of (map (\<lambda>a. normalizeArtifactRef a w) as)
      = nonempty_strings (map (\<lambda>a. js_get (record_fields a) ''finalPath'') as)" for w as
    by (induction as) (auto simp: final_paths_of_def nonempty_strings_def map_filter_simps normalized_final_path
        nonempty_string_Some split: option.split)
  have append: "final_paths_of (as @ bs) = final_paths_of as @ final_paths_of bs"
    "nonempty_strings (vs @ ws) = nonempty_strings vs @ nonempty_strings ws" for as bs vs ws
    by (simp_all add: final_paths_of_def nonempty_strings_def map_filter_def)
  have none: "final_paths_of [] = []" "nonempty_strings [] = []"
    by (simp_all add: final_paths_of_def nonempty_strings_def map_filter_def)
  show ?thesis
    using assms by (induction refs) (simp_all add: claimed_paths_def normalized_ref paths append none)
qed

lemma aggregate_succeeds:
  assumes "\<forall>r \<in> set refs. ref_named r" and "\<forall>d \<in> set (fj_workers job). [] \<notin> set (wd_dependsOn d)"
  shows "ao_status (fanout_aggregate options request job refs) = ''succeeded'' \<longleftrightarrow>
    distinct (claimed_paths refs) \<and> (\<forall>r \<in> set refs. er_required r \<longrightarrow> ref_succeeded r)
    \<and> (\<forall>d \<in> set (fj_workers job). \<forall>x \<in> set (wd_dependsOn d).
         \<exists>r. ref_of_worker refs x = Some r \<and> ref_succeeded r)"
proof -
  define input where "input = aggregated_input options request job refs"
  have results: "ai_workerResultRefs input = map (settled_status \<circ> normalizeWorkerResultRef \<circ> execution_ref_js) refs"
    by (simp add: input_def aggregated_input_parts)
  have lookup: "result_of_worker (ai_workerResultRefs input) x
      = map_option (settled_status \<circ> normalizeWorkerResultRef \<circ> execution_ref_js) (ref_of_worker refs x)" for x
    unfolding results result_of_worker_def ref_of_worker_def rev_map
    by (rule find_map_same) (use assms(1) in \<open>simp add: normalized_ref\<close>)
  have member: "r \<in> set refs" if "ref_of_worker refs x = Some r" for x r
    using that by (auto simp: ref_of_worker_def find_Some_iff) (metis length_rev nth_mem set_rev)
  have found: "(\<exists>r. result_of_worker (ai_workerResultRefs input) x = Some r \<and> agentTaskStatusSucceeded (JStr (fr_status r)))
      \<longleftrightarrow> (\<exists>r. ref_of_worker refs x = Some r \<and> ref_succeeded r)" for x
    using member [of x] assms(1) by (cases "ref_of_worker refs x") (simp_all add: lookup normalized_ref)
  have deps: "fw_dependsOn (normalizeWorkerPlan (planned_worker_js d)) = wd_dependsOn d" if "d \<in> set (fj_workers job)" for d
    using assms(2) that by (simp add: normalizeWorkerPlan_def planned_worker_js_def js_strings_def Let_def)
  have paths: "final_paths_of (ai_artifactRefs input) = claimed_paths refs"
    unfolding input_def aggregated_input_parts by (rule claimed_paths_aggregated [OF assms(1)])
  have "ao_status (fanout_aggregate options request job refs) = ''succeeded''
      \<longleftrightarrow> \<not> list_ex blocking (aggregation_conflicts input None)"
    by (simp add: fanout_aggregate_def aggregation_status aggregate_normalized input_def)
  also have "\<dots> \<longleftrightarrow> distinct (claimed_paths refs) \<and> (\<forall>r \<in> set refs. er_required r \<longrightarrow> ref_succeeded r)
    \<and> (\<forall>d \<in> set (fj_workers job). \<forall>x \<in> set (wd_dependsOn d). \<exists>r. ref_of_worker refs x = Some r \<and> ref_succeeded r)"
    unfolding aggregation_unblocked found paths
    using assms(1) by (simp add: input_def aggregated_input_parts normalized_ref deps)
  finally show ?thesis .
qed

text \<open>An artifact with a path, as the contract of a result wants it, keeps it when it is normalized.\<close>

definition has_path :: "jsval \<Rightarrow> bool" where
  "has_path a \<longleftrightarrow> is_record a \<and> text_value (js_member a ''path'') \<noteq> []"

lemma text_value_ne: "text_value v \<noteq> [] \<Longrightarrow> \<exists>s. v = JStr s \<and> s \<noteq> []"
  by (cases v) (auto simp: text_value_def trim_def [of "[]"])

lemma has_path_normalized: "has_path a \<Longrightarrow> fa_path (normalizeArtifactRef a w) \<noteq> []"
proof -
  assume "has_path a"
  then obtain obj where a: "a = JObj obj" and "text_value (js_get obj ''path'') \<noteq> []"
    by (cases a) (auto simp: has_path_def is_record_def)
  moreover from this obtain s where "js_get obj ''path'' = JStr s" "s \<noteq> []"
    using text_value_ne by blast
  ultimately show ?thesis by (simp add: normalizeArtifactRef_def Let_def)
qed

lemma output_path_ne: "normalizeOutputNamespace v @ ''/result.json'' \<noteq> []"
  by simp

lemma aggregate_output_valid:
  assumes "\<forall>r \<in> set refs. ref_named r" and "\<forall>r \<in> set refs. \<forall>a \<in> set (er_artifactRefs r). has_path a"
    and "\<forall>as. fo_finalArtifactRefs options = Some as \<longrightarrow> (\<forall>a \<in> set as. fa_path a \<noteq> [])"
  shows "validateFanoutAggregationOutput (aggregation_output_js (fanout_aggregate options request job refs))
    = Inr (aggregation_output_js (fanout_aggregate options request job refs))"
proof -
  define out where "out = fanout_aggregate options request job refs"
  have results: "ao_workerResultRefs out = map (settled_status \<circ> normalizeWorkerResultRef \<circ> execution_ref_js) refs"
    and raw: "ao_rawWorkerArtifactRefs out = concat (map (\<lambda>r. fr_artifactRefs (normalizeWorkerResultRef (execution_ref_js r))) refs)"
    by (simp_all add: out_def fanout_aggregate_def aggregateFanoutOutputs_def aggregate_normalized aggregated_input_parts Let_def)
  have final: "\<forall>a \<in> set (ao_finalArtifactRefs out). fa_path a \<noteq> []"
    using assms(3) by (auto simp: out_def fanout_aggregate_def aggregateFanoutOutputs_def aggregate_normalized
        defaultFinalArtifactRefs_def defaultFanoutAggregationOutputPath_def artifact_at_def Let_def split: option.splits)
  have artifacts: "fr_artifactRefs (settled_status n) = fr_artifactRefs n" for n by (simp add: settled_status_def)
  show ?thesis
    unfolding out_def [symmetric] aggregation_output_valid results raw
    using assms(1,2) final has_path_normalized by (auto simp: normalized_ref artifacts ref_named_def)
qed

section \<open>The contract of a result\<close>

lemma execution_ref_contract:
  assumes "ref_named r"
  shows "validateFanoutWorkerResultRef path (execution_ref_js r) = [] \<longleftrightarrow> (\<forall>a \<in> set (er_artifactRefs r). has_path a)"
proof -
  have paths: "(\<forall>p \<in> set (indexed vs). validateFanoutArtifactPath path p = []) \<longleftrightarrow> (\<forall>a \<in> set vs. has_path a)" for vs
    using indexed_all [of vs has_path] by (simp add: validateFanoutArtifactPath_def has_path_def case_prod_beta)
  have rec: "(\<not> is_record (execution_ref_js r)) = False" by (simp add: is_record_def execution_ref_js_def)
  show ?thesis
    using assms unfolding validateFanoutWorkerResultRef_def rec if_False ref_named_def
    unfolding execution_ref_js_def Let_def
    by (cases "er_resultRef r") (simp_all add: js_optional_def paths)
qed

lemma result_contract_exact:
  assumes "\<forall>r \<in> set refs. ref_named r" and "x = fanout_result_of options request job execution refs"
  shows "validateFanoutResultContract (fanout_result_js x) = [] \<longleftrightarrow>
    trim (fj_sessionId job) \<noteq> [] \<and> positive_number (JNum (fj_concurrency job))
    \<and> (\<forall>r \<in> set refs. \<forall>a \<in> set (er_artifactRefs r). has_path a)"
proof -
  have rec: "(\<not> is_record (fanout_result_js x)) = False" by (simp add: is_record_def fanout_result_js_def)
  have status: "trim (fx_status x) \<noteq> []"
    unfolding assms(2) fanout_result_of_def Let_def by (simp add: trim_no_space js_space_def)
  have parts: "fx_fanout_id x = fj_sessionId job" "fx_concurrency x = fj_concurrency job" "fx_workerResultRefs x = refs"
    by (simp_all add: assms(2) fanout_result_of_def Let_def)
  have refs: "(\<forall>p \<in> set (indexed (map execution_ref_js refs)).
        (case p of (index, worker) \<Rightarrow> validateFanoutWorkerResultRef (path index) worker) = [])
      \<longleftrightarrow> (\<forall>r \<in> set refs. \<forall>a \<in> set (er_artifactRefs r). has_path a)" for path
  proof -
    have "indexed (map execution_ref_js refs) = map (\<lambda>(i, r). (i, execution_ref_js r)) (indexed refs)"
      by (simp add: indexed_def zip_map2)
    moreover have "r \<in> set refs" if "(i, r) \<in> set (indexed refs)" for i r
      using that by (auto simp: indexed_def dest: set_zip_rightD)
    ultimately show ?thesis
      using indexed_all [of refs "\<lambda>r. \<forall>a \<in> set (er_artifactRefs r). has_path a"] assms(1)
      by (fastforce simp: execution_ref_contract)
  qed
  have records: "is_record (aggregation_output_js (fx_aggregate x))" "is_record (counts_js (fx_counts x))"
    by (simp_all add: is_record_def aggregation_output_js_def counts_js_def)
  show ?thesis
    using status records
    unfolding validateFanoutResultContract_def rec if_False
    unfolding fanout_result_js_def Let_def
    by (simp add: parts refs)
qed

section \<open>What a returned result went through\<close>

lemma string_list_ne: "[] \<notin> set (string_list v)"
  by (cases v) (simp_all add: string_list_def)

lemma normalize_workers_dependencies:
  "normalize_workers options seen index workers = Inr ds \<Longrightarrow> \<forall>d \<in> set ds. [] \<notin> set (wd_dependsOn d)"
proof (induction options seen index workers arbitrary: ds rule: normalize_workers.induct)
  case (2 options seen index worker workers)
  then obtain d ds' where d: "normalize_worker options seen index worker = Inr d"
    and ds': "normalize_workers options (wd_id d # seen) (index + 1) workers = Inr ds'" and ds: "ds = d # ds'"
    by (auto split: sum.splits)
  from d have "\<exists>v. wd_dependsOn d = string_list v"
    by (auto simp: normalize_worker_def descriptor_of_def Let_def split: sum.splits if_splits)
  then have "[] \<notin> set (wd_dependsOn d)" using string_list_ne by metis
  with 2(1) [OF d ds'] ds show ?case by simp
qed simp

lemma call_hook_Inr: "call_hook options h rest = Inr y \<longleftrightarrow> fo_hook options h = None \<and> rest = Inr y"
  by (simp add: call_hook_def split: option.split)

lemma prepared_workers:
  assumes "fanout_prepare options clock request = Inr job"
  shows "\<forall>d \<in> set (fj_workers job). safe_segment (wd_id d) \<and> [] \<notin> set (wd_dependsOn d)"
    and "fj_plan job = fanoutExecutionPlan (fj_sessionId job) (fj_concurrency job)
      (record_fields (js_get (fq_fields request) ''orchestrator'')) (fj_workers job)"
proof -
  from assms obtain ds where ds: "normalizeRunPlanWorkerDescriptors (fq_workers request) (worker_options options request) = Inr ds"
    and job: "fj_workers job = ds" "fj_plan job = fanoutExecutionPlan (fj_sessionId job) (fj_concurrency job)
      (record_fields (js_get (fq_fields request) ''orchestrator'')) ds"
    by (auto simp: fanout_prepare_def Let_def call_hook_Inr split: if_splits sum.splits)
  then have n: "normalize_workers (worker_options options request) [] 0 (fq_workers request) = Inr ds"
    by (auto simp: normalizeRunPlanWorkerDescriptors_def split: if_splits)
  show "\<forall>d \<in> set (fj_workers job). safe_segment (wd_id d) \<and> [] \<notin> set (wd_dependsOn d)"
    using normalize_workers_ids [OF n] normalize_workers_dependencies [OF n] job by blast
  from job show "fj_plan job = fanoutExecutionPlan (fj_sessionId job) (fj_concurrency job)
      (record_fields (js_get (fq_fields request) ''orchestrator'')) (fj_workers job)" by simp
qed

lemma fanout_returned:
  assumes "executeFanoutRequest options clock request (Inr x)"
  shows "\<exists>job execution refs. fanout_prepare options clock request = Inr job
    \<and> (\<forall>r \<in> set refs. ref_named r) \<and> x = fanout_result_of options request job execution refs
    \<and> validateFanoutResultContract (fanout_result_js x) = []"
  using assms
proof (cases rule: executeFanoutRequest.cases)
  case (run_reported job ds c n s execution)
  then obtain refs where refs: "worker_result_refs (fj_workers job) (pr_workers execution) = Inr refs"
    by (auto simp: fanout_complete_def split: sum.splits)
  have "\<forall>r \<in> set refs. ref_named r"
    using worker_refs_named [OF refs] prepared_workers(1) [OF run_reported(2)] by blast
  moreover have "x = fanout_result_of options request job execution refs \<and> validateFanoutResultContract (fanout_result_js x) = []"
    using run_reported(1) [symmetric] refs by (auto simp: fanout_complete_def Let_def call_hook_Inr split: if_splits)
  ultimately show ?thesis using run_reported(2) by blast
qed

lemma fanout_has_outcome:
  assumes "\<forall>d t. \<exists>r. execute_task (fo_executor options) d t = Inr r"
  shows "\<exists>out. executeFanoutRequest options clock request out"
proof (cases "fanout_prepare options clock request")
  case (Inl e)
  then show ?thesis by (blast intro: not_prepared)
next
  case (Inr job)
  define run where "run = plan_run (fq_workers request) (JNum (fj_concurrency job)) (execution_options options request)"
  show ?thesis
  proof (cases run)
    case (Inl e)
    with Inr show ?thesis unfolding run_def by (blast intro: not_planned)
  next
    case (Inr p)
    then obtain ds c where run: "run = Inr (ds, c)" by (cases p) auto
    from execution_reaches_end [OF run [unfolded run_def] assms] obtain s rs
      where reach: "execute_reach (fq_workers request) (JNum (fj_concurrency job)) (execution_options options request)
          (fo_executor options) (length (fq_workers request)) s"
        and out: "sc_outcome s = Resolved (map Some rs)" by blast
    have "\<exists>report. plan_report_of c (sc_outcome s) = Some (Inr report)" by (simp add: out plan_report_of_def Let_def)
    with \<open>fanout_prepare options clock request = Inr job\<close> run reach show ?thesis
      unfolding run_def by (blast intro: run_reported)
  qed
qed

section \<open>A worker whose words contradict each other\<close>

definition contradictory_result :: "worker_descriptor \<Rightarrow> worker_result" where
  "contradictory_result d = (done_result d)\<lparr>wr_success := Some False\<rparr>"

definition contradictory_executor :: executor_options where
  "contradictory_executor = sample_executor\<lparr>xo_adapter := (\<lambda>d. Inr (contradictory_result d))\<rparr>"

definition fan_options :: fanout_options where
  "fan_options = \<lparr>fo_plan = sample_options, fo_executor = contradictory_executor, fo_sessionId = [],
     fo_aggregationPolicy = None, fo_aggregator = JUndef, fo_finalArtifactRefs = None, fo_outputNamespace = None,
     fo_hook = (\<lambda>_. None)\<rparr>"

definition fan_request :: fanout_request where
  "fan_request = \<lparr>fq_workers = [[(''id'', JStr ''a'')]], fq_fields = [(''session_id'', JStr ''s'')]\<rparr>"

definition fan_check :: bool where
  "fan_check = (case fanout_prepare fan_options 0 fan_request of
      Inl _ \<Rightarrow> False
    | Inr job \<Rightarrow>
       (case plan_run (fq_workers fan_request) (JNum (fj_concurrency job)) (execution_options fan_options fan_request) of
          Inl _ \<Rightarrow> False
        | Inr (ds, c) \<Rightarrow>
            let limit = effective_concurrency c ds; s = pump limit ds sched_start;
                r = contradictory_result (ds ! 0);
                s' = settle limit ds (ds ! 0, Work) r s
            in ds \<noteq> [] \<and> (ds ! 0, Work) \<in> set (sc_running s) \<and> execute_task contradictory_executor (ds ! 0) Work = Inr r
               \<and> (case plan_report_of c (sc_outcome s') of
                     Some (Inr report) \<Rightarrow> \<not> pr_success report \<and>
                       (case fanout_complete fan_options fan_request job report of
                          Inr x \<Rightarrow> fx_success x \<and> \<not> pr_success (fx_execution x)
                        | Inl _ \<Rightarrow> False)
                   | _ \<Rightarrow> False)))"

lemma fan_check: fan_check
  by code_simp

text \<open>
  The adapter answers that the worker \<open>completed\<close> without success.  The run counts a failure and reports
  no success; the reference keeps the word and drops the flag, and the fan-out reports success.
\<close>

lemma failed_run_reported_as_success:
  "\<exists>x. executeFanoutRequest fan_options 0 fan_request (Inr x) \<and> fx_success x \<and> \<not> pr_success (fx_execution x)"
proof -
  from fan_check obtain job where job: "fanout_prepare fan_options 0 fan_request = Inr job"
    by (auto simp: fan_check_def split: sum.splits)
  from fan_check job obtain p
    where p: "plan_run (fq_workers fan_request) (JNum (fj_concurrency job)) (execution_options fan_options fan_request) = Inr p"
    by (auto simp: fan_check_def split: sum.splits)
  define ds c where "ds = fst p" and "c = snd p"
  with p have run: "plan_run (fq_workers fan_request) (JNum (fj_concurrency job)) (execution_options fan_options fan_request)
      = Inr (ds, c)" by simp
  define limit where "limit = effective_concurrency c ds"
  define s where "s = pump limit ds sched_start"
  define r where "r = contradictory_result (ds ! 0)"
  define s' where "s' = settle limit ds (ds ! 0, Work) r s"
  have check: "ds \<noteq> [] \<and> (ds ! 0, Work) \<in> set (sc_running s) \<and> execute_task contradictory_executor (ds ! 0) Work = Inr r
     \<and> (case plan_report_of c (sc_outcome s') of
           Some (Inr report) \<Rightarrow> \<not> pr_success report \<and>
             (case fanout_complete fan_options fan_request job report of
                Inr x \<Rightarrow> fx_success x \<and> \<not> pr_success (fx_execution x) | Inl _ \<Rightarrow> False)
         | _ \<Rightarrow> False)"
    using fan_check unfolding fan_check_def job run sum.case prod.case Let_def
    unfolding limit_def [symmetric] r_def [symmetric] s_def [symmetric] s'_def [symmetric] .
  have opts: "fo_executor fan_options = contradictory_executor" by (simp add: fan_options_def)
  from check have "sched_reach limit ds (execute_task contradictory_executor) (Suc 0) s'"
    unfolding s'_def s_def by (intro fulfil [OF begin_run]) simp_all
  then have reach: "execute_reach (fq_workers fan_request) (JNum (fj_concurrency job)) (execution_options fan_options fan_request)
      (fo_executor fan_options) (Suc 0) s'"
    unfolding execute_reach_def run sum.case prod.case limit_def opts .
  from check obtain report x where "plan_report_of c (sc_outcome s') = Some (Inr report)"
      "fanout_complete fan_options fan_request job report = Inr x" "fx_success x" "\<not> pr_success (fx_execution x)"
    by (auto split: option.splits sum.splits)
  with run_reported [OF job run reach] show ?thesis by metis
qed

section \<open>Properties of fan-outs\<close>


lemma contradictory_executor_answers: "\<forall>d t. \<exists>r. execute_task contradictory_executor d t = Inr r"
proof (intro allI)
  fix d t show "\<exists>r. execute_task contradictory_executor d t = Inr r"
    by (cases t)
      (auto simp: contradictory_executor_def sample_executor_def with_hook_def runPlanWorkerWithTimeout_def
        split: option.split jsnum.split)
qed




end
