(* ===== verification/Allocation_Lifecycle.thy ===== *)
theory Allocation_Lifecycle
  imports Operation_Tables
begin

text \<open>
  \<open>packages/runtime-cloudflare/src/allocation-lifecycle.ts\<close>: allocations of sites that expire, are
  deleted and leave a tombstone.  The rows live in the tables of \<open>Operation_Tables\<close>, which the
  operation repository reads to see whether its operations are still allowed.  The R2 bucket is an
  argument; whether a table of another component exists yet is part of the state.
\<close>

section \<open>Identities, policy and state\<close>

record allocation_identity =
  id_site :: string
  id_generation :: int

record retention_policy =
  rp_ttlMs :: int
  rp_retainMs :: int

datatype admin_claim_state = Claim_pending | Claim_settled | Claim_expired

record admin_claim =
  ac_site :: string
  ac_state :: admin_claim_state
  ac_updated_at :: int

record 'b allocation_db =
  al_rt :: runtime_db
  al_tables :: "string list"
  al_claims :: "admin_claim list"
  al_roots :: "string list"
  al_bucket :: 'b

datatype allocation_error = AllocationLifecycleConflict string | AllocationInvalid string

type_synonym ('b, 'a) allocation_action = "('b allocation_db, allocation_error, 'a) action"

text \<open>A page of the bucket: keys with sizes, and where the next page starts.\<close>

record bucket_page =
  pg_objects :: "(string \<times> int option) list"
  pg_truncated :: bool
  pg_cursor :: "string option"

record 'b bucket_api =
  bk_list :: "'b \<Rightarrow> string \<Rightarrow> string option \<Rightarrow> int \<Rightarrow> bucket_page"
  bk_delete :: "'b \<Rightarrow> string list \<Rightarrow> 'b"

definition retentionPolicy :: "jsval \<Rightarrow> jsval \<Rightarrow> allocation_error + retention_policy" where
  "retentionPolicy ttlMs retainMs =
     (case (safe_integer ttlMs, safe_integer retainMs) of
        (Some ttl, Some retain) \<Rightarrow>
          if ttl < 1 \<or> retain < 0 then Inl (AllocationInvalid ''Allocation lifecycle policy is invalid.'')
          else Inr \<lparr>rp_ttlMs = ttl, rp_retainMs = retain\<rparr>
      | _ \<Rightarrow> Inl (AllocationInvalid ''Allocation lifecycle policy is invalid.''))"

definition defaultRetention :: retention_policy where
  "defaultRetention = \<lparr>rp_ttlMs = 24 * 60 * 60 * 1000, rp_retainMs = 60 * 60 * 1000\<rparr>"

text \<open>\<open>/-g([1-9][0-9]*)-[a-f0-9]{16}$/\<close>: the last two of three or more parts between dashes.\<close>

definition hex16 :: "string \<Rightarrow> bool" where
  "hex16 s \<longleftrightarrow> length s = 16 \<and> list_all (\<lambda>c. is_digit c \<or> char_between (CHR ''a'') (CHR ''f'') c) s"

definition generation_part :: "string \<Rightarrow> int option" where
  "generation_part s =
     (case s of
        c # d # ds \<Rightarrow>
          if c = CHR ''g'' \<and> is_digit d \<and> d \<noteq> CHR ''0'' \<and> list_all is_digit ds
          then Some (foldl (\<lambda>n x. 10 * n + (of_char x - 48)) 0 (d # ds)) else None
      | _ \<Rightarrow> None)"

definition allocationIdentity :: "string \<Rightarrow> allocation_identity" where
  "allocationIdentity siteId =
     \<lparr>id_site = siteId,
      id_generation =
        (case rev (split_on (CHR ''-'') siteId) of
           h # g # _ # _ \<Rightarrow> if hex16 h then (case generation_part g of Some n \<Rightarrow> n | None \<Rightarrow> 1) else 1
         | _ \<Rightarrow> 1)\<rparr>"

section \<open>Statements on the lifecycles\<close>

definition of_identity :: "allocation_identity \<Rightarrow> lifecycle_row \<Rightarrow> bool" where
  "of_identity identity l \<longleftrightarrow> lc_site l = id_site identity \<and> lc_generation l = id_generation identity"

definition owned_allocation :: "allocation_identity \<Rightarrow> string \<Rightarrow> int \<Rightarrow> lifecycle_row \<Rightarrow> bool" where
  "owned_allocation identity owner now l \<longleftrightarrow> of_identity identity l \<and> lc_principal l = owner
     \<and> lc_state l = Lifecycle_active \<and> lc_expires_at l > now"

definition update_lifecycles :: "(lifecycle_row \<Rightarrow> bool) \<Rightarrow> (lifecycle_row \<Rightarrow> lifecycle_row) \<Rightarrow> runtime_statement" where
  "update_lifecycles c f db =
     (case sql_update c f (rt_lifecycles db) of (n, rows) \<Rightarrow> (n, db\<lparr>rt_lifecycles := rows\<rparr>))"

definition new_lifecycle :: "retention_policy \<Rightarrow> allocation_identity \<Rightarrow> string \<Rightarrow> int \<Rightarrow> lifecycle_row" where
  "new_lifecycle policy identity owner now =
     \<lparr>lc_site = id_site identity, lc_generation = id_generation identity, lc_principal = owner,
      lc_state = Lifecycle_active, lc_expires_at = now + rp_ttlMs policy,
      lc_retain_until = now + rp_ttlMs policy + rp_retainMs policy, lc_mutation_fence = 1, lc_operation_fence = 1,
      lc_cursor = None, lc_deleted_objects = 0, lc_deleted_bytes = 0, lc_deleted_records = 0, lc_receipt = None,
      lc_terminal_at = None, lc_updated_at = now\<rparr>"

definition stmt_create_allocation :: "retention_policy \<Rightarrow> allocation_identity \<Rightarrow> string \<Rightarrow> int \<Rightarrow> runtime_statement" where
  "stmt_create_allocation policy identity owner now db =
     (case sql_insert_ignore lifecycle_key (new_lifecycle policy identity owner now) (rt_lifecycles db) of
        (n, rows) \<Rightarrow> (n, db\<lparr>rt_lifecycles := rows\<rparr>))"

definition renewed_row :: "retention_policy \<Rightarrow> int \<Rightarrow> lifecycle_row \<Rightarrow> lifecycle_row" where
  "renewed_row policy now l = l\<lparr>lc_expires_at := now + rp_ttlMs policy,
     lc_retain_until := now + rp_ttlMs policy + rp_retainMs policy, lc_updated_at := now\<rparr>"

definition stmt_renew_allocation :: "retention_policy \<Rightarrow> allocation_identity \<Rightarrow> string \<Rightarrow> int \<Rightarrow> runtime_statement" where
  "stmt_renew_allocation policy identity owner now =
     update_lifecycles (owned_allocation identity owner now) (renewed_row policy now)"

definition mutated_row :: "int \<Rightarrow> lifecycle_row \<Rightarrow> lifecycle_row" where
  "mutated_row now l = l\<lparr>lc_mutation_fence := lc_mutation_fence l + 1, lc_updated_at := now\<rparr>"

definition stmt_begin_mutation :: "allocation_identity \<Rightarrow> string \<Rightarrow> int \<Rightarrow> runtime_statement" where
  "stmt_begin_mutation identity owner now =
     update_lifecycles (owned_allocation identity owner now) (mutated_row now)"

definition deleting_row :: "retention_policy \<Rightarrow> int \<Rightarrow> lifecycle_row \<Rightarrow> lifecycle_row" where
  "deleting_row policy now l = l\<lparr>lc_state := Deleting, lc_mutation_fence := lc_mutation_fence l + 1,
     lc_operation_fence := lc_operation_fence l + 1,
     lc_retain_until := min (lc_retain_until l) (now + rp_retainMs policy), lc_cursor := None, lc_updated_at := now\<rparr>"

definition stmt_begin_deletion ::
    "retention_policy \<Rightarrow> allocation_identity \<Rightarrow> string option \<Rightarrow> int \<Rightarrow> runtime_statement" where
  "stmt_begin_deletion policy identity owner now =
     update_lifecycles (\<lambda>l. of_identity identity l \<and> (case owner of None \<Rightarrow> True | Some p \<Rightarrow> lc_principal l = p)
         \<and> lc_state l = Lifecycle_active)
       (deleting_row policy now)"

definition being_deleted :: "allocation_identity \<Rightarrow> int \<Rightarrow> lifecycle_row \<Rightarrow> bool" where
  "being_deleted identity fence l \<longleftrightarrow> of_identity identity l \<and> lc_state l = Deleting \<and> lc_operation_fence l = fence"

definition cleaned_row :: "string option \<Rightarrow> int \<Rightarrow> int \<Rightarrow> int \<Rightarrow> int \<Rightarrow> lifecycle_row \<Rightarrow> lifecycle_row" where
  "cleaned_row cursor objects bytes records now l = l\<lparr>lc_cursor := cursor,
     lc_deleted_objects := lc_deleted_objects l + objects, lc_deleted_bytes := lc_deleted_bytes l + bytes,
     lc_deleted_records := lc_deleted_records l + records, lc_updated_at := now\<rparr>"

definition stmt_progress ::
    "allocation_identity \<Rightarrow> int \<Rightarrow> string option \<Rightarrow> int \<Rightarrow> int \<Rightarrow> int \<Rightarrow> int \<Rightarrow> runtime_statement" where
  "stmt_progress identity fence cursor objects bytes records now =
     update_lifecycles (being_deleted identity fence) (cleaned_row cursor objects bytes records now)"

definition tombstone_row :: "deletion_receipt \<Rightarrow> int \<Rightarrow> lifecycle_row \<Rightarrow> lifecycle_row" where
  "tombstone_row receipt now l = l\<lparr>lc_state := Tombstoned, lc_cursor := None, lc_receipt := Some receipt,
     lc_terminal_at := Some now, lc_updated_at := now\<rparr>"

definition stmt_tombstone :: "allocation_identity \<Rightarrow> int \<Rightarrow> deletion_receipt \<Rightarrow> int \<Rightarrow> runtime_statement" where
  "stmt_tombstone identity fence receipt now =
     update_lifecycles (being_deleted identity fence) (tombstone_row receipt now)"

definition receipt_key :: "deletion_receipt \<Rightarrow> string \<times> int" where
  "receipt_key r = (dr_siteId r, dr_generation r)"

definition stmt_deletion_receipt :: "deletion_receipt \<Rightarrow> runtime_statement" where
  "stmt_deletion_receipt receipt db =
     (case sql_insert_ignore receipt_key receipt (rt_deletion_receipts db) of
        (n, rows) \<Rightarrow> (n, db\<lparr>rt_deletion_receipts := rows\<rparr>))"

section \<open>Work of a deleted allocation\<close>

definition table_exists :: "'b allocation_db \<Rightarrow> string \<Rightarrow> bool" where
  "table_exists s name \<longleftrightarrow> name \<in> set (al_tables s)"

definition on_runtime :: "runtime_statement \<Rightarrow> 'b allocation_db \<Rightarrow> nat \<times> 'b allocation_db" where
  "on_runtime stmt s = (case stmt (al_rt s) of (n, db) \<Rightarrow> (n, s\<lparr>al_rt := db\<rparr>))"

definition cancelled_attempt :: "int \<Rightarrow> attempt_row \<Rightarrow> attempt_row" where
  "cancelled_attempt now a = a\<lparr>at_completed := Some now, at_state := Failed, at_stage := ''allocation-deleted'',
     at_error_code := Some ''allocation_deleted'', at_error_message := Some ''Allocation deletion fenced this attempt.''\<rparr>"

definition cancelled_operation :: "int \<Rightarrow> operation_row \<Rightarrow> operation_row" where
  "cancelled_operation now w = w\<lparr>op_state := Failed, op_stage := ''allocation-deleted'', op_progress := 100,
     op_claim_token := None, op_claim_expires := None, op_retry_at := None,
     op_error_code := Some ''allocation_deleted'',
     op_error_message := Some ''Allocation deletion fenced this operation.'',
     op_completed_at := Some now, op_updated_at := now\<rparr>"

definition cancelled_dispatch :: "int \<Rightarrow> dispatch_row \<Rightarrow> dispatch_row" where
  "cancelled_dispatch now d = d\<lparr>ds_state := Done, ds_last_error := Some ''Allocation deletion fenced this dispatch.'',
     ds_completed_at := Some now, ds_updated_at := now\<rparr>"

definition cancel_operations :: "string \<Rightarrow> int \<Rightarrow> runtime_db \<Rightarrow> runtime_db" where
  "cancel_operations siteId now db = db\<lparr>
     rt_attempts := snd (sql_update (\<lambda>a. at_site a = siteId \<and> at_completed a = None) (cancelled_attempt now) (rt_attempts db)),
     rt_operations := snd (sql_update (\<lambda>w. op_site w = siteId
         \<and> op_state w \<in> {Queued, Running, Retryable, Publication_pending}) (cancelled_operation now) (rt_operations db))\<rparr>"

definition cancel_dispatches :: "string \<Rightarrow> int \<Rightarrow> runtime_db \<Rightarrow> runtime_db" where
  "cancel_dispatches siteId now db = db\<lparr>
     rt_dispatches := snd (sql_update (\<lambda>d. ds_site d = siteId \<and> ds_state d \<notin> {Done, Dead_letter}) (cancelled_dispatch now)
       (rt_dispatches db))\<rparr>"

definition cancelWork :: "allocation_identity \<Rightarrow> int \<Rightarrow> ('b, unit) allocation_action" where
  "cancelWork identity now = modify (\<lambda>s.
     let siteId = id_site identity;
         s1 = (if table_exists s ''wp_codebox_operations'' \<and> table_exists s ''wp_codebox_operation_attempts''
               then s\<lparr>al_rt := cancel_operations siteId now (al_rt s)\<rparr> else s);
         s2 = (if table_exists s ''wp_codebox_api_admin_claims''
               then s1\<lparr>al_claims := snd (sql_update (\<lambda>c. ac_site c = siteId \<and> ac_state c = Claim_pending)
                      (\<lambda>c. c\<lparr>ac_state := Claim_expired, ac_updated_at := now\<rparr>) (al_claims s1))\<rparr> else s1)
     in if table_exists s ''wp_codebox_runtime_dispatches''
        then s2\<lparr>al_rt := cancel_dispatches siteId now (al_rt s2)\<rparr> else s2)"

text \<open>\<open>DELETE ... WHERE rowid IN (SELECT rowid ... LIMIT n)\<close> takes the first rows of the table.\<close>

fun delete_first :: "('r \<Rightarrow> bool) \<Rightarrow> nat \<Rightarrow> 'r list \<Rightarrow> nat \<times> 'r list" where
  "delete_first c n [] = (0, [])"
| "delete_first c 0 (r # rows) = (0, r # rows)"
| "delete_first c (Suc n) (r # rows) =
     (if c r then (case delete_first c n rows of (k, rest) \<Rightarrow> (Suc k, rest))
      else (case delete_first c (Suc n) rows of (k, rest) \<Rightarrow> (k, r # rest)))"

definition work_tables :: "string list" where
  "work_tables = [''wp_codebox_operation_attempts'', ''wp_codebox_operations'', ''wp_codebox_api_admin_claims'',
     ''wp_codebox_api_admin_roots'', ''wp_codebox_runtime_dead_letters'', ''wp_codebox_runtime_dispatches'',
     ''wp_codebox_runtime_fairness'']"

text \<open>The rows a table holds for a site, and deleting them: the two big tables a limited number at a time.\<close>

definition site_rows :: "string \<Rightarrow> 'b allocation_db \<Rightarrow> string \<Rightarrow> nat" where
  "site_rows siteId s table =
     (let db = al_rt s in
      if table = ''wp_codebox_operation_attempts'' then length (filter (\<lambda>a. at_site a = siteId) (rt_attempts db))
      else if table = ''wp_codebox_operations'' then length (filter (\<lambda>w. op_site w = siteId) (rt_operations db))
      else if table = ''wp_codebox_api_admin_claims'' then length (filter (\<lambda>c. ac_site c = siteId) (al_claims s))
      else if table = ''wp_codebox_api_admin_roots'' then length (filter (\<lambda>r. r = siteId) (al_roots s))
      else if table = ''wp_codebox_runtime_dead_letters'' then length (filter (\<lambda>d. dl_site d = siteId) (rt_dead_letters db))
      else if table = ''wp_codebox_runtime_dispatches'' then length (filter (\<lambda>d. ds_site d = siteId) (rt_dispatches db))
      else (if rt_fairness db siteId = None then 0 else 1))"

definition changed_rows :: "nat \<times> 'r list \<Rightarrow> ('r list \<Rightarrow> 's) \<Rightarrow> nat \<times> 's" where
  "changed_rows result store = (fst result, store (snd result))"

definition delete_site_rows :: "string \<Rightarrow> nat \<Rightarrow> string \<Rightarrow> 'b allocation_db \<Rightarrow> nat \<times> 'b allocation_db" where
  "delete_site_rows siteId limit table s =
     (let db = al_rt s in
      if table = ''wp_codebox_operation_attempts''
      then changed_rows (delete_first (\<lambda>a. at_site a = siteId) limit (rt_attempts db)) (\<lambda>rows. s\<lparr>al_rt := db\<lparr>rt_attempts := rows\<rparr>\<rparr>)
      else if table = ''wp_codebox_operations''
      then changed_rows (delete_first (\<lambda>w. op_site w = siteId) limit (rt_operations db)) (\<lambda>rows. s\<lparr>al_rt := db\<lparr>rt_operations := rows\<rparr>\<rparr>)
      else if table = ''wp_codebox_api_admin_claims''
      then changed_rows (sql_delete (\<lambda>c. ac_site c = siteId) (al_claims s)) (\<lambda>rows. s\<lparr>al_claims := rows\<rparr>)
      else if table = ''wp_codebox_api_admin_roots''
      then changed_rows (sql_delete (\<lambda>r. r = siteId) (al_roots s)) (\<lambda>rows. s\<lparr>al_roots := rows\<rparr>)
      else if table = ''wp_codebox_runtime_dead_letters''
      then changed_rows (sql_delete (\<lambda>d. dl_site d = siteId) (rt_dead_letters db)) (\<lambda>rows. s\<lparr>al_rt := db\<lparr>rt_dead_letters := rows\<rparr>\<rparr>)
      else if table = ''wp_codebox_runtime_dispatches''
      then changed_rows (sql_delete (\<lambda>d. ds_site d = siteId) (rt_dispatches db)) (\<lambda>rows. s\<lparr>al_rt := db\<lparr>rt_dispatches := rows\<rparr>\<rparr>)
      else (if rt_fairness db siteId = None then 0 else 1, s\<lparr>al_rt := db\<lparr>rt_fairness := (rt_fairness db)(siteId := None)\<rparr>\<rparr>))"

fun delete_tables :: "string \<Rightarrow> nat \<Rightarrow> string list \<Rightarrow> 'b allocation_db \<Rightarrow> nat \<times> 'b allocation_db" where
  "delete_tables siteId limit [] s = (0, s)"
| "delete_tables siteId limit (table # tables) s =
     (case delete_site_rows siteId limit table s of
        (n, s') \<Rightarrow> (case delete_tables siteId limit tables s' of (m, t) \<Rightarrow> (n + m, t)))"

definition existing_work_tables :: "'b allocation_db \<Rightarrow> string list" where
  "existing_work_tables s = filter (table_exists s) work_tables"

definition unresolved_rows :: "string \<Rightarrow> 'b allocation_db \<Rightarrow> nat" where
  "unresolved_rows siteId s = sum_list (map (site_rows siteId s) (existing_work_tables s))"

definition cleanupWork :: "string \<Rightarrow> nat \<Rightarrow> ('b, nat \<times> nat) allocation_action" where
  "cleanupWork siteId limit s =
     (case delete_tables siteId limit (existing_work_tables s) s of
        (deleted, s') \<Rightarrow> (Inr (deleted, unresolved_rows siteId s'), s'))"

section \<open>The methods\<close>

definition conflict :: "string \<Rightarrow> allocation_error" where
  "conflict message = AllocationLifecycleConflict message"

definition allocation_get :: "allocation_identity \<Rightarrow> ('b, lifecycle_row option) allocation_action" where
  "allocation_get identity = query (\<lambda>s. lifecycle_at (al_rt s) (id_site identity) (id_generation identity))"

text \<open>\<open>(await this.get(identity))!\<close> after a statement that found the row.\<close>

definition allocation_get_row :: "allocation_identity \<Rightarrow> ('b, lifecycle_row) allocation_action" where
  "allocation_get_row identity =
     and_then (allocation_get identity) (\<lambda>l. case l of
        Some row \<Rightarrow> succeed row | None \<Rightarrow> throw (AllocationInvalid ''Cannot read properties of null''))"

text \<open>A statement that has to change one row.\<close>

definition change_one :: "runtime_statement \<Rightarrow> string \<Rightarrow> ('b, unit) allocation_action" where
  "change_one stmt message = and_then (execute (on_runtime stmt)) (\<lambda>n. require (n = 1) (conflict message))"

definition allocation_create :: "retention_policy \<Rightarrow> site_context \<Rightarrow> string \<Rightarrow> int \<Rightarrow> ('b, lifecycle_row) allocation_action" where
  "allocation_create policy site owner now =
     (let identity = allocationIdentity (ctx_id site) in
      and_then (execute (on_runtime (stmt_create_allocation policy identity owner now))) (\<lambda>_.
      and_then (allocation_get identity) (\<lambda>l. case l of
          Some row \<Rightarrow> if lc_principal row = owner then succeed row
                      else throw (conflict ''Allocation identity conflicts with an existing owner.'')
        | None \<Rightarrow> throw (conflict ''Allocation identity conflicts with an existing owner.''))))"

definition allocation_renew :: "retention_policy \<Rightarrow> allocation_identity \<Rightarrow> string \<Rightarrow> int \<Rightarrow> ('b, lifecycle_row) allocation_action" where
  "allocation_renew policy identity owner now =
     and_then (change_one (stmt_renew_allocation policy identity owner now) ''Allocation is not renewable by this owner.'')
       (\<lambda>_. allocation_get_row identity)"

definition allocation_beginMutation :: "allocation_identity \<Rightarrow> string \<Rightarrow> int \<Rightarrow> ('b, int) allocation_action" where
  "allocation_beginMutation identity owner now =
     and_then (change_one (stmt_begin_mutation identity owner now) ''Allocation is not mutable by this owner.'')
       (\<lambda>_. and_then (allocation_get_row identity) (\<lambda>l. succeed (lc_mutation_fence l)))"

definition mutation_allowed :: "int \<Rightarrow> int \<Rightarrow> lifecycle_row option \<Rightarrow> bool" where
  "mutation_allowed fence now l = (case l of None \<Rightarrow> False
     | Some row \<Rightarrow> lc_state row = Lifecycle_active \<and> now < lc_expires_at row \<and> lc_mutation_fence row = fence)"

definition allocation_assertMutation :: "allocation_identity \<Rightarrow> int \<Rightarrow> int \<Rightarrow> ('b, unit) allocation_action" where
  "allocation_assertMutation identity fence now =
     and_then (allocation_get identity) (\<lambda>l.
       require (mutation_allowed fence now l) (conflict ''Allocation mutation fence changed.''))"

definition allocation_assertActive :: "allocation_identity \<Rightarrow> int \<Rightarrow> ('b, unit) allocation_action" where
  "allocation_assertActive identity now =
     and_then (allocation_get identity) (\<lambda>l.
       require (case l of None \<Rightarrow> True | Some row \<Rightarrow> lc_state row = Lifecycle_active \<and> now < lc_expires_at row)
         (conflict ''Allocation is no longer active.''))"

definition allocation_beginDeletion ::
    "retention_policy \<Rightarrow> allocation_identity \<Rightarrow> string option \<Rightarrow> int \<Rightarrow> ('b, int) allocation_action" where
  "allocation_beginDeletion policy identity owner now =
     and_then (change_one (stmt_begin_deletion policy identity owner now) ''Allocation is not deletable by this owner.'') (\<lambda>_.
     and_then (allocation_get_row identity) (\<lambda>l.
     and_then (cancelWork identity now) (\<lambda>_. succeed (lc_operation_fence l))))"

text \<open>SQL's \<open>LIMIT\<close>: a negative number is no limit.\<close>

definition sql_limit :: "int \<Rightarrow> 'r list \<Rightarrow> 'r list" where
  "sql_limit n rows = (if n < 0 then rows else take (nat n) rows)"

fun expire_each :: "retention_policy \<Rightarrow> int \<Rightarrow> allocation_identity list \<Rightarrow> ('b, allocation_identity list) allocation_action" where
  "expire_each policy now [] s = (Inr [], s)"
| "expire_each policy now (identity # rest) s =
     (case allocation_beginDeletion policy identity None now s of
        (Inl _, s') \<Rightarrow> expire_each policy now rest s'
      | (Inr _, s') \<Rightarrow> (case expire_each policy now rest s' of (r, t) \<Rightarrow> (map_sum id ((#) identity) r, t)))"

definition allocation_expire :: "retention_policy \<Rightarrow> int \<Rightarrow> int \<Rightarrow> ('b, allocation_identity list) allocation_action" where
  "allocation_expire policy now limit =
     and_then (query (\<lambda>s. sql_limit limit
         (sql_select (\<lambda>l. lc_state l = Lifecycle_active \<and> lc_expires_at l \<le> now) lc_expires_at (rt_lifecycles (al_rt s)))))
       (\<lambda>rows. expire_each policy now (map (\<lambda>l. \<lparr>id_site = lc_site l, id_generation = lc_generation l\<rparr>) rows))"

definition allocation_pendingDeletions :: "int \<Rightarrow> int \<Rightarrow> ('b, lifecycle_row list) allocation_action" where
  "allocation_pendingDeletions limit now = query (\<lambda>s. sql_limit limit
     (sql_select (\<lambda>l. lc_state l = Deleting \<and> lc_retain_until l \<le> now) lc_updated_at (rt_lifecycles (al_rt s))))"

definition page_limit :: "jsnum \<Rightarrow> int option" where
  "page_limit n = (case n of Fin q \<Rightarrow> if of_int \<lfloor>q\<rfloor> = q \<and> 1 \<le> q \<and> q \<le> 1000 then Some \<lfloor>q\<rfloor> else None | _ \<Rightarrow> None)"

definition page_bytes :: "bucket_page \<Rightarrow> int" where
  "page_bytes page = sum_list (map (\<lambda>(key, size). case size of Some n \<Rightarrow> n | None \<Rightarrow> 0) (pg_objects page))"

definition deletion_receipt_of :: "lifecycle_row \<Rightarrow> allocation_identity \<Rightarrow> bucket_page \<Rightarrow> nat \<Rightarrow> int \<Rightarrow> deletion_receipt" where
  "deletion_receipt_of l identity page deleted now =
     \<lparr>dr_siteId = id_site identity, dr_generation = id_generation identity,
      dr_deletedObjects = lc_deleted_objects l + int (length (pg_objects page)),
      dr_deletedBytes = lc_deleted_bytes l + page_bytes page,
      dr_deletedRecords = lc_deleted_records l + int deleted, dr_startedAt = lc_expires_at l, dr_completedAt = now\<rparr>"

text \<open>What \<open>reclaim\<close> does with a page of a deletion it may go on with.\<close>

definition reclaim_page ::
    "'b bucket_api \<Rightarrow> allocation_identity \<Rightarrow> int \<Rightarrow> int \<Rightarrow> int \<Rightarrow> lifecycle_row \<Rightarrow> ('b, lifecycle_row) allocation_action" where
  "reclaim_page bucket identity operationFence limit now lifecycle =
     and_then (query (\<lambda>s. bk_list bucket (al_bucket s) (''sites/'' @ id_site identity @ ''/'') (lc_cursor lifecycle) limit)) (\<lambda>page.
     and_then (modify (\<lambda>s. if pg_objects page = [] then s
       else s\<lparr>al_bucket := bk_delete bucket (al_bucket s) (map fst (pg_objects page))\<rparr>)) (\<lambda>_.
     (let cursor = (if pg_truncated page then pg_cursor page else None);
          more = (cursor \<noteq> None \<and> cursor \<noteq> Some [])
      in and_then (if more then succeed (0, 0) else cleanupWork (id_site identity) (nat limit)) (\<lambda>(deleted, unresolved).
         and_then (change_one (stmt_progress identity operationFence cursor (int (length (pg_objects page))) (page_bytes page)
             (int deleted) now) ''Allocation deletion fence changed.'') (\<lambda>_.
         if more \<or> unresolved \<noteq> 0 then allocation_get_row identity
         else
           let receipt = deletion_receipt_of lifecycle identity page deleted now in
           and_then (batch (on_runtime (stmt_deletion_receipt receipt)) (on_runtime (stmt_tombstone identity operationFence receipt now)))
             (\<lambda>_. allocation_get_row identity))))))"

definition allocation_reclaim ::
    "'b bucket_api \<Rightarrow> allocation_identity \<Rightarrow> int \<Rightarrow> jsnum \<Rightarrow> int \<Rightarrow> ('b, lifecycle_row) allocation_action" where
  "allocation_reclaim bucket identity operationFence limit now =
     (case page_limit limit of
        None \<Rightarrow> throw (AllocationInvalid ''Allocation reclamation limit is invalid.'')
      | Some n \<Rightarrow>
          and_then (allocation_get identity) (\<lambda>l. case l of
             None \<Rightarrow> throw (conflict ''Allocation deletion fence changed.'')
           | Some lifecycle \<Rightarrow>
               if lc_state lifecycle \<noteq> Deleting \<or> lc_operation_fence lifecycle \<noteq> operationFence
               then throw (conflict ''Allocation deletion fence changed.'')
               else if now < lc_retain_until lifecycle
               then throw (conflict ''Allocation retention period is still active.'')
               else reclaim_page bucket identity operationFence n now lifecycle))"

section \<open>The life of an allocation\<close>

text \<open>
  The statements of all methods on the lifecycles, in whatever order the callers' requests interleave.
\<close>

datatype lifecycle_statement =
    Create_allocation retention_policy allocation_identity string int
  | Renew_allocation retention_policy allocation_identity string int
  | Begin_mutation allocation_identity string int
  | Begin_deletion retention_policy allocation_identity "string option" int
  | Note_progress allocation_identity int "string option" int int int int
  | Set_tombstone allocation_identity int deletion_receipt int

fun apply_lifecycle :: "lifecycle_statement \<Rightarrow> runtime_statement" where
  "apply_lifecycle (Create_allocation policy i owner now) = stmt_create_allocation policy i owner now"
| "apply_lifecycle (Renew_allocation policy i owner now) = stmt_renew_allocation policy i owner now"
| "apply_lifecycle (Begin_mutation i owner now) = stmt_begin_mutation i owner now"
| "apply_lifecycle (Begin_deletion policy i owner now) = stmt_begin_deletion policy i owner now"
| "apply_lifecycle (Note_progress i fence cursor objects bytes records now) = stmt_progress i fence cursor objects bytes records now"
| "apply_lifecycle (Set_tombstone i fence receipt now) = stmt_tombstone i fence receipt now"

definition run_lifecycles :: "lifecycle_statement list \<Rightarrow> runtime_db \<Rightarrow> runtime_db" where
  "run_lifecycles stmts db = foldl (\<lambda>db stmt. snd (apply_lifecycle stmt db)) db stmts"

text \<open>The statements that hand out or withdraw a mutation fence of an allocation.\<close>

fun supersedes :: "allocation_identity \<Rightarrow> lifecycle_statement \<Rightarrow> bool" where
  "supersedes i (Begin_mutation j owner now) = (j = i)"
| "supersedes i (Begin_deletion policy j owner now) = (j = i)"
| "supersedes i stmt = False"

text \<open>How many of them changed the row.\<close>

fun fence_changes :: "allocation_identity \<Rightarrow> lifecycle_statement list \<Rightarrow> runtime_db \<Rightarrow> nat" where
  "fence_changes i [] db = 0"
| "fence_changes i (stmt # stmts) db =
     (if supersedes i stmt then fst (apply_lifecycle stmt db) else 0)
     + fence_changes i stmts (snd (apply_lifecycle stmt db))"

fun life_rank :: "lifecycle_state \<Rightarrow> nat" where
  "life_rank Lifecycle_active = 0"
| "life_rank Deleting = 1"
| "life_rank Tombstoned = 2"

definition row_life :: "lifecycle_row \<Rightarrow> lifecycle_row \<Rightarrow> bool" where
  "row_life l l' \<longleftrightarrow> lifecycle_key l' = lifecycle_key l \<and> lc_principal l' = lc_principal l
     \<and> life_rank (lc_state l) \<le> life_rank (lc_state l') \<and> lc_mutation_fence l \<le> lc_mutation_fence l'
     \<and> lc_operation_fence l' = lc_operation_fence l
         + (if lc_state l = Lifecycle_active \<and> lc_state l' \<noteq> Lifecycle_active then 1 else 0)
     \<and> (lc_state l \<noteq> Lifecycle_active \<longrightarrow> lc_mutation_fence l' = lc_mutation_fence l
          \<and> lc_retain_until l' = lc_retain_until l)
     \<and> (lc_state l = Tombstoned \<longrightarrow> l' = l)"

lemma row_life_refl [simp]: "row_life l l"
  by (simp add: row_life_def)

lemma row_life_trans: "row_life a b \<Longrightarrow> row_life b c \<Longrightarrow> row_life a c"
  unfolding row_life_def
  by (cases "lc_state a"; cases "lc_state b"; cases "lc_state c") auto

text \<open>An update keeps the keys; where its condition names an identity it changes at most one row.\<close>

definition keeps_key :: "(lifecycle_row \<Rightarrow> lifecycle_row) \<Rightarrow> bool" where
  "keeps_key f \<longleftrightarrow> (\<forall>l. lifecycle_key (f l) = lifecycle_key l)"

definition lifecycles_wf :: "runtime_db \<Rightarrow> bool" where
  "lifecycles_wf db \<longleftrightarrow> unique_by lifecycle_key (rt_lifecycles db)"

lemma row_changes [simp]:
  "keeps_key (renewed_row policy now)" "keeps_key (mutated_row now)" "keeps_key (deleting_row policy now)"
  "keeps_key (cleaned_row cursor objects bytes records now)" "keeps_key (tombstone_row receipt now)"
  by (simp_all add: keeps_key_def lifecycle_key_def renewed_row_def mutated_row_def deleting_row_def cleaned_row_def
      tombstone_row_def)

lemma update_lifecycles_wf: "keeps_key f \<Longrightarrow> lifecycles_wf db \<Longrightarrow> lifecycles_wf (snd (update_lifecycles c f db))"
  by (simp add: lifecycles_wf_def update_lifecycles_def keeps_key_def split: prod.split)
     (metis snd_conv unique_by_update)

lemma find_lifecycle_iff:
  "lifecycles_wf db \<Longrightarrow> lifecycle_at db site gen = Some l \<longleftrightarrow> l \<in> set (rt_lifecycles db) \<and> lc_site l = site \<and> lc_generation l = gen"
proof -
  assume wf: "lifecycles_wf db"
  define P where "P = (\<lambda>l :: lifecycle_row. lc_site l = site \<and> lc_generation l = gen)"
  have found: "find P (rt_lifecycles db) = Some l" if l: "l \<in> set (rt_lifecycles db)" "P l"
  proof -
    obtain m where m: "find P (rt_lifecycles db) = Some m"
      using l by (cases "find P (rt_lifecycles db)") (auto simp: find_None_iff)
    from find_sql [OF m] l have "lifecycle_key m = lifecycle_key l" by (simp add: P_def lifecycle_key_def)
    with unique_by_eq [OF wf [unfolded lifecycles_wf_def]] find_sql [OF m] l(1) have "m = l" by blast
    with m show ?thesis by simp
  qed
  show ?thesis
    using found find_sql [of P "rt_lifecycles db" l] unfolding lifecycle_at_def P_def [symmetric]
    by (auto simp: P_def)
qed

lemma update_lifecycles_at:
  assumes "lifecycles_wf db" and "keeps_key f" and "lifecycle_at db site gen = Some l"
  shows "lifecycle_at (snd (update_lifecycles c f db)) site gen = Some (if c l then f l else l)"
proof -
  have rows: "rt_lifecycles (snd (update_lifecycles c f db)) = map (\<lambda>r. if c r then f r else r) (rt_lifecycles db)"
    by (simp add: update_lifecycles_def sql_update_def)
  have "lifecycles_wf (snd (update_lifecycles c f db))" using update_lifecycles_wf [OF assms(2,1)] .
  moreover have "(if c l then f l else l) \<in> set (rt_lifecycles (snd (update_lifecycles c f db)))"
    using assms(3) find_lifecycle_iff [OF assms(1)] by (auto simp: rows)
  moreover have "lc_site (f l) = lc_site l" "lc_generation (f l) = lc_generation l"
    using assms(2) by (simp_all add: keeps_key_def lifecycle_key_def)
  ultimately show ?thesis
    using assms(3) find_lifecycle_iff [OF assms(1)] by (auto simp: find_lifecycle_iff)
qed

lemma update_lifecycles_count:
  assumes "lifecycles_wf db" and "\<And>r. c r \<Longrightarrow> of_identity i r"
    and "lifecycle_at db (id_site i) (id_generation i) = Some l"
  shows "fst (update_lifecycles c f db) = (if c l then 1 else 0)"
proof -
  have "fst (update_lifecycles c f db) = fst (sql_update c f (rt_lifecycles db))"
    by (simp add: update_lifecycles_def split: prod.split)
  also have "\<dots> = (if \<exists>r \<in> set (rt_lifecycles db). c r then 1 else 0)"
    by (rule sql_update_one [where key = lifecycle_key and k = "(id_site i, id_generation i)"])
       (use assms(1,2) in \<open>auto simp: lifecycles_wf_def of_identity_def lifecycle_key_def\<close>)
  also have "(\<exists>r \<in> set (rt_lifecycles db). c r) \<longleftrightarrow> c l"
  proof
    assume "\<exists>r \<in> set (rt_lifecycles db). c r"
    then obtain r where r: "r \<in> set (rt_lifecycles db)" "c r" by blast
    with assms(2) have "of_identity i r" by blast
    with r find_lifecycle_iff [OF assms(1), of "id_site i" "id_generation i" r] assms(3) show "c l"
      by (simp add: of_identity_def)
  next
    assume "c l"
    with find_lifecycle_iff [OF assms(1)] assms(3) show "\<exists>r \<in> set (rt_lifecycles db). c r" by blast
  qed
  finally show ?thesis by simp
qed

lemma of_identity_unique: "of_identity i l \<Longrightarrow> of_identity j l \<Longrightarrow> j = i"
  by (rule allocation_identity.equality) (simp_all add: of_identity_def)

lemma create_allocation_at:
  assumes "lifecycle_at db site gen = Some l"
  shows "lifecycle_at (snd (stmt_create_allocation policy i owner now db)) site gen = Some l"
proof -
  have "find P (xs @ ys) = Some l" if "find P xs = Some l" for P :: "lifecycle_row \<Rightarrow> bool" and xs ys
    using that by (induction xs) (auto split: if_splits)
  with assms show ?thesis by (simp add: stmt_create_allocation_def sql_insert_ignore_def lifecycle_at_def)
qed

lemma create_allocation_wf: "lifecycles_wf db \<Longrightarrow> lifecycles_wf (snd (stmt_create_allocation policy i owner now db))"
  using unique_by_insert [of lifecycle_key "rt_lifecycles db" "new_lifecycle policy i owner now"]
  by (auto simp: lifecycles_wf_def stmt_create_allocation_def split: prod.split)

lemmas lifecycle_updates = stmt_renew_allocation_def stmt_begin_mutation_def stmt_begin_deletion_def stmt_progress_def
  stmt_tombstone_def

lemma apply_lifecycle_wf: "lifecycles_wf db \<Longrightarrow> lifecycles_wf (snd (apply_lifecycle stmt db))"
  by (cases stmt) (simp_all add: lifecycle_updates update_lifecycles_wf create_allocation_wf)

text \<open>An update of one allocation that raises its mutation fence, and one that leaves the fence alone.\<close>

lemma fencing_update:
  assumes wf: "lifecycles_wf db" and l: "lifecycle_at db (id_site i) (id_generation i) = Some l"
    and c: "\<And>r. c r \<Longrightarrow> of_identity j r" and f: "keeps_key f"
    and life: "c l \<Longrightarrow> row_life l (f l)" and fence: "lc_mutation_fence (f l) = lc_mutation_fence l + 1"
  shows "\<exists>l'. lifecycle_at (snd (update_lifecycles c f db)) (id_site i) (id_generation i) = Some l' \<and> row_life l l'
    \<and> lc_mutation_fence l' = lc_mutation_fence l + int (if j = i then fst (update_lifecycles c f db) else 0)"
proof -
  have i: "of_identity i l" using l find_lifecycle_iff [OF wf] by (simp add: of_identity_def)
  note l' = update_lifecycles_at [OF wf f l, where c = c]
  show ?thesis
  proof (cases "c l")
    case True
    then have j: "j = i" using of_identity_unique [OF i c] by blast
    have "fst (update_lifecycles c f db) = 1"
      using update_lifecycles_count [OF wf c [unfolded j] l, where f = f] True by simp
    with l' True life fence j show ?thesis by simp
  next
    case False
    have "fst (update_lifecycles c f db) = 0" if "j = i"
      using update_lifecycles_count [OF wf c [unfolded that] l, where f = f] False by simp
    with l' False show ?thesis by simp
  qed
qed

lemma other_update:
  assumes "lifecycles_wf db" and "lifecycle_at db site gen = Some l" and "keeps_key f"
    and "c l \<Longrightarrow> row_life l (f l)" and "lc_mutation_fence (f l) = lc_mutation_fence l"
  shows "\<exists>l'. lifecycle_at (snd (update_lifecycles c f db)) site gen = Some l' \<and> row_life l l'
    \<and> lc_mutation_fence l' = lc_mutation_fence l"
  using update_lifecycles_at [OF assms(1,3,2), where c = c] assms(4,5) by simp

lemma lifecycle_step:
  assumes wf: "lifecycles_wf db" and l: "lifecycle_at db (id_site i) (id_generation i) = Some l"
  shows "\<exists>l'. lifecycle_at (snd (apply_lifecycle stmt db)) (id_site i) (id_generation i) = Some l' \<and> row_life l l'
    \<and> lc_mutation_fence l' = lc_mutation_fence l + int (if supersedes i stmt then fst (apply_lifecycle stmt db) else 0)"
proof (cases stmt)
  case (Create_allocation policy j owner now)
  with create_allocation_at [OF l] show ?thesis by simp
next
  case (Renew_allocation policy j owner now)
  show ?thesis
    unfolding Renew_allocation apply_lifecycle.simps supersedes.simps lifecycle_updates if_False of_nat_0 add_0_right
    by (rule other_update [OF wf l]) (simp_all add: row_life_def renewed_row_def lifecycle_key_def owned_allocation_def)
next
  case (Begin_mutation j owner now)
  show ?thesis
    unfolding Begin_mutation apply_lifecycle.simps supersedes.simps lifecycle_updates
    by (rule fencing_update [OF wf l]) (simp_all add: row_life_def mutated_row_def lifecycle_key_def owned_allocation_def)
next
  case (Begin_deletion policy j owner now)
  show ?thesis
    unfolding Begin_deletion apply_lifecycle.simps supersedes.simps lifecycle_updates
    by (rule fencing_update [OF wf l]) (simp_all add: row_life_def deleting_row_def lifecycle_key_def)
next
  case (Note_progress j fence cursor objects bytes records now)
  show ?thesis
    unfolding Note_progress apply_lifecycle.simps supersedes.simps lifecycle_updates if_False of_nat_0 add_0_right
    by (rule other_update [OF wf l]) (simp_all add: row_life_def cleaned_row_def lifecycle_key_def being_deleted_def)
next
  case (Set_tombstone j fence receipt now)
  show ?thesis
    unfolding Set_tombstone apply_lifecycle.simps supersedes.simps lifecycle_updates if_False of_nat_0 add_0_right
    by (rule other_update [OF wf l]) (simp_all add: row_life_def tombstone_row_def lifecycle_key_def being_deleted_def)
qed

lemma lifecycles_run:
  assumes "lifecycles_wf db" and "lifecycle_at db (id_site i) (id_generation i) = Some l"
  shows "\<exists>l'. lifecycle_at (run_lifecycles stmts db) (id_site i) (id_generation i) = Some l' \<and> row_life l l'
    \<and> lc_mutation_fence l' = lc_mutation_fence l + int (fence_changes i stmts db)"
  using assms
proof (induction stmts arbitrary: db l)
  case (Cons stmt stmts)
  from lifecycle_step [OF Cons.prems] obtain m where m: "lifecycle_at (snd (apply_lifecycle stmt db)) (id_site i) (id_generation i) = Some m"
    "row_life l m" "lc_mutation_fence m = lc_mutation_fence l + int (if supersedes i stmt then fst (apply_lifecycle stmt db) else 0)" by blast
  from Cons.IH [OF apply_lifecycle_wf [OF Cons.prems(1)] m(1)] obtain l' where
    "lifecycle_at (run_lifecycles stmts (snd (apply_lifecycle stmt db))) (id_site i) (id_generation i) = Some l'" "row_life m l'"
    "lc_mutation_fence l' = lc_mutation_fence m + int (fence_changes i stmts (snd (apply_lifecycle stmt db)))" by blast
  with m row_life_trans show ?case by (auto simp: run_lifecycles_def)
qed (simp add: run_lifecycles_def)

section \<open>Cancelling the work of an allocation\<close>

lemma update_set: "snd (sql_update c f rows) = map (\<lambda>r. if c r then f r else r) rows"
  by (simp add: sql_update_def)

definition cancellable :: "string \<Rightarrow> operation_row \<Rightarrow> bool" where
  "cancellable siteId w \<longleftrightarrow> op_site w = siteId \<and> op_state w \<in> {Queued, Running, Retryable, Publication_pending}"

lemma cancelled_rows:
  "rt_operations (cancel_operations siteId now db)
     = map (\<lambda>w. if cancellable siteId w then cancelled_operation now w else w) (rt_operations db)"
  "rt_attempts (cancel_operations siteId now db)
     = map (\<lambda>a. if at_site a = siteId \<and> at_completed a = None then cancelled_attempt now a else a) (rt_attempts db)"
  by (simp_all add: cancel_operations_def update_set cancellable_def)

lemma cancelled_operation_fields [simp]:
  "operation_key (cancelled_operation now w) = operation_key w" "idempotency_key (cancelled_operation now w) = idempotency_key w"
  "op_site (cancelled_operation now w) = op_site w" "op_id (cancelled_operation now w) = op_id w"
  "op_attempts (cancelled_operation now w) = op_attempts w" "op_state (cancelled_operation now w) = Failed"
  "op_claim_token (cancelled_operation now w) = None" "op_claim_expires (cancelled_operation now w) = None"
  by (simp_all add: cancelled_operation_def operation_key_def idempotency_key_def)

lemma cancelled_attempt_fields [simp]:
  "attempt_key (cancelled_attempt now a) = attempt_key a" "at_site (cancelled_attempt now a) = at_site a"
  "at_op (cancelled_attempt now a) = at_op a" "at_number (cancelled_attempt now a) = at_number a"
  by (simp_all add: cancelled_attempt_def attempt_key_def)

lemma unique_by_map: "(\<And>r. r \<in> set rows \<Longrightarrow> key (f r) = key r) \<Longrightarrow> unique_by key rows \<Longrightarrow> unique_by key (map f rows)"
proof -
  assume "\<And>r. r \<in> set rows \<Longrightarrow> key (f r) = key r"
  then have "map key (map f rows) = map key rows" by simp
  then show "unique_by key rows \<Longrightarrow> unique_by key (map f rows)" by (simp only: unique_by_def)
qed

lemma filter_length_mono: "(\<And>x. P x \<Longrightarrow> Q x) \<Longrightarrow> length (filter P xs) \<le> length (filter Q xs)"
  by (induction xs) (auto simp: le_SucI)

lemma cancel_one_active:
  assumes "one_active rows"
  shows "one_active (map (\<lambda>w. if cancellable siteId w then cancelled_operation now w else w) rows)"
proof -
  define f where "f = (\<lambda>w. if cancellable siteId w then cancelled_operation now w else w)"
  have le: "op_site (f w) = site \<and> op_active (f w) \<Longrightarrow> op_site w = site \<and> op_active w" for site w
    by (auto simp: f_def op_active_def split: if_splits)
  have "length (filter (\<lambda>w. op_site w = site \<and> op_active w) (map f rows))
      \<le> length (filter (\<lambda>w. op_site w = site \<and> op_active w) rows)" for site
    unfolding filter_map length_map comp_def by (rule filter_length_mono) (rule le)
  with assms have "length (filter (\<lambda>w. op_site w = site \<and> op_active w) (map f rows)) \<le> 1" for site
    unfolding one_active_def by (meson le_trans)
  then show ?thesis unfolding one_active_def f_def by blast
qed

lemma open_attempts_elsewhere:
  "site \<noteq> siteId \<Longrightarrow> open_attempts (cancel_operations siteId now db) site opId token = open_attempts db site opId token"
proof -
  assume "site \<noteq> siteId"
  then have "filter (\<lambda>a. at_site a = site \<and> at_op a = opId \<and> at_token a = token \<and> at_completed a = None)
      (map (\<lambda>a. if at_site a = siteId \<and> at_completed a = None then cancelled_attempt now a else a) rows)
    = filter (\<lambda>a. at_site a = site \<and> at_op a = opId \<and> at_token a = token \<and> at_completed a = None) rows" for rows
    by (induction rows) auto
  then show ?thesis by (simp add: open_attempts_def cancelled_rows)
qed

lemma cancel_operation_wf:
  assumes "operation_wf db w"
  shows "operation_wf (cancel_operations siteId now db) (if cancellable siteId w then cancelled_operation now w else w)"
proof (cases "cancellable siteId w")
  case True
  with assms show ?thesis by (simp add: operation_wf_def)
next
  case False
  show ?thesis
  proof (cases "op_site w = siteId")
    case True
    with False assms have "op_claim_token w = None" by (auto simp: operation_wf_def cancellable_def)
    with False assms show ?thesis by (simp add: operation_wf_def)
  next
    case other: False
    then have "open_attempts (cancel_operations siteId now db) (op_site w) (op_id w) token
        = open_attempts db (op_site w) (op_id w) token" for token
      by (rule open_attempts_elsewhere)
    with assms have "operation_wf (cancel_operations siteId now db) w" unfolding operation_wf_def by metis
    with False show ?thesis by simp
  qed
qed

lemma cancel_attempt_wf:
  assumes "attempt_wf db a"
  shows "attempt_wf (cancel_operations siteId now db) (if c then cancelled_attempt now a else a)"
proof -
  have "map operation_key (rt_operations (cancel_operations siteId now db)) = map operation_key (rt_operations db)"
    by (simp add: cancelled_rows)
  then have "operation_key ` set (rt_operations (cancel_operations siteId now db)) = operation_key ` set (rt_operations db)"
    by (metis set_map)
  moreover have "1 \<le> at_number a \<and> at_number a \<le> op_attempts w"
    if "w \<in> set (rt_operations (cancel_operations siteId now db))" "operation_key w = (at_site a, at_op a)" for w
  proof -
    from that(1) obtain v where v: "v \<in> set (rt_operations db)"
        "w = (if cancellable siteId v then cancelled_operation now v else v)"
      by (auto simp: cancelled_rows)
    then have "operation_key v = operation_key w" "op_attempts v = op_attempts w" by simp_all
    with v(1) that(2) assms show ?thesis by (auto simp: attempt_wf_def)
  qed
  ultimately show ?thesis using assms by (auto simp: attempt_wf_def)
qed

lemma cancel_operations_wf:
  assumes "repository_wf db"
  shows "repository_wf (cancel_operations siteId now db)"
proof -
  from assms have keys: "unique_by operation_key (rt_operations db)" "unique_by idempotency_key (rt_operations db)"
      "unique_by attempt_key (rt_attempts db)" and active: "one_active (rt_operations db)"
    and operations: "\<And>w. w \<in> set (rt_operations db) \<Longrightarrow> operation_wf db w"
    and attempts: "\<And>a. a \<in> set (rt_attempts db) \<Longrightarrow> attempt_wf db a"
    by (simp_all add: repository_wf_def)
  have "unique_by operation_key (rt_operations (cancel_operations siteId now db))"
    unfolding cancelled_rows by (rule unique_by_map [OF _ keys(1)]) simp
  moreover have "unique_by idempotency_key (rt_operations (cancel_operations siteId now db))"
    unfolding cancelled_rows by (rule unique_by_map [OF _ keys(2)]) simp
  moreover have "unique_by attempt_key (rt_attempts (cancel_operations siteId now db))"
    unfolding cancelled_rows by (rule unique_by_map [OF _ keys(3)]) simp
  moreover have "one_active (rt_operations (cancel_operations siteId now db))"
    unfolding cancelled_rows by (rule cancel_one_active [OF active])
  moreover have "operation_wf (cancel_operations siteId now db) w"
    if "w \<in> set (rt_operations (cancel_operations siteId now db))" for w
  proof -
    from that obtain v where "v \<in> set (rt_operations db)" "w = (if cancellable siteId v then cancelled_operation now v else v)"
      unfolding cancelled_rows(1) set_map by blast
    with cancel_operation_wf [OF operations] show ?thesis by blast
  qed
  moreover have "attempt_wf (cancel_operations siteId now db) a"
    if "a \<in> set (rt_attempts (cancel_operations siteId now db))" for a
  proof -
    from that obtain b where "b \<in> set (rt_attempts db)"
        "a = (if at_site b = siteId \<and> at_completed b = None then cancelled_attempt now b else b)"
      unfolding cancelled_rows(2) set_map by blast
    with cancel_attempt_wf [OF attempts] show ?thesis by blast
  qed
  ultimately show ?thesis by (simp add: repository_wf_def)
qed

text \<open>Only operations and attempts matter to the repository.\<close>

lemma repository_wf_same:
  "rt_operations db' = rt_operations db \<Longrightarrow> rt_attempts db' = rt_attempts db \<Longrightarrow> repository_wf db' = repository_wf db"
  by (simp add: repository_wf_def operation_wf_def attempt_wf_def open_attempts_def)

lemma change_one_eq:
  "change_one stmt message s = (case stmt (al_rt s) of (n, db) \<Rightarrow>
     (if n = 1 then Inr () else Inl (conflict message), s\<lparr>al_rt := db\<rparr>))"
  by (simp add: change_one_def and_then_execute on_runtime_def require_def succeed_def throw_def split: prod.split)

definition cancelled_db :: "string \<Rightarrow> int \<Rightarrow> runtime_db \<Rightarrow> runtime_db" where
  "cancelled_db siteId now db = cancel_dispatches siteId now (cancel_operations siteId now db)"

lemma cancelWork_db:
  assumes "set work_tables \<subseteq> set (al_tables s)"
  shows "fst (cancelWork i now s) = Inr ()" and "al_rt (snd (cancelWork i now s)) = cancelled_db (id_site i) now (al_rt s)"
proof -
  have tables: "table_exists s ''wp_codebox_operations''" "table_exists s ''wp_codebox_operation_attempts''"
      "table_exists s ''wp_codebox_runtime_dispatches''" "table_exists s ''wp_codebox_api_admin_claims''"
    using assms by (simp_all add: work_tables_def table_exists_def)
  show "fst (cancelWork i now s) = Inr ()" "al_rt (snd (cancelWork i now s)) = cancelled_db (id_site i) now (al_rt s)"
    unfolding cancelWork_def modify_def Let_def if_P [OF conjI [OF tables(1,2)]] if_P [OF tables(3)] if_P [OF tables(4)]
    by (simp_all add: cancelled_db_def)
qed

lemma cancelled_db_lifecycles [simp]: "rt_lifecycles (cancelled_db siteId now db) = rt_lifecycles db"
  by (simp add: cancelled_db_def cancel_dispatches_def cancel_operations_def)

lemma cancelled_db_operations [simp]:
  "rt_operations (cancelled_db siteId now db) = rt_operations (cancel_operations siteId now db)"
  "rt_attempts (cancelled_db siteId now db) = rt_attempts (cancel_operations siteId now db)"
  by (simp_all add: cancelled_db_def cancel_dispatches_def)

lemma begin_deletion_tables [simp]:
  "rt_operations (snd (stmt_begin_deletion policy i owner now db)) = rt_operations db"
  "rt_attempts (snd (stmt_begin_deletion policy i owner now db)) = rt_attempts db"
  "rt_dispatches (snd (stmt_begin_deletion policy i owner now db)) = rt_dispatches db"
  by (simp_all add: stmt_begin_deletion_def update_lifecycles_def split: prod.split)

text \<open>What a granted deletion did.\<close>

lemma beginDeletion_granted:
  assumes wf: "lifecycles_wf (al_rt s)" and tables: "set work_tables \<subseteq> set (al_tables s)"
    and ok: "allocation_beginDeletion policy i owner now s = (Inr fence, s')"
  shows "\<exists>l. lifecycle_at (al_rt s) (id_site i) (id_generation i) = Some l \<and> lc_state l = Lifecycle_active
    \<and> lifecycle_at (al_rt s') (id_site i) (id_generation i) = Some (deleting_row policy now l)
    \<and> fence = lc_operation_fence l + 1
    \<and> al_rt s' = cancelled_db (id_site i) now (snd (stmt_begin_deletion policy i owner now (al_rt s)))"
proof -
  define c where "c = (\<lambda>l. of_identity i l \<and> (case owner of None \<Rightarrow> True | Some p \<Rightarrow> lc_principal l = p)
      \<and> lc_state l = Lifecycle_active)"
  define n where "n = fst (stmt_begin_deletion policy i owner now (al_rt s))"
  define s1 where "s1 = s\<lparr>al_rt := snd (stmt_begin_deletion policy i owner now (al_rt s))\<rparr>"
  have one: "change_one (stmt_begin_deletion policy i owner now) message s
      = (if n = 1 then Inr () else Inl (conflict message), s1)" for message
    by (simp add: change_one_eq n_def s1_def split: prod.split)
  from ok have n: "n = 1" by (auto simp: allocation_beginDeletion_def and_then_def one split: if_splits)
  then obtain r where r: "r \<in> set (rt_lifecycles (al_rt s))" "c r"
    unfolding n_def stmt_begin_deletion_def update_lifecycles_def c_def [symmetric]
    using sql_update_count [of c "deleting_row policy now" "rt_lifecycles (al_rt s)"] by (auto split: prod.splits)
  then have l: "lifecycle_at (al_rt s) (id_site i) (id_generation i) = Some r"
    using find_lifecycle_iff [OF wf] by (simp add: c_def of_identity_def)
  have l1: "lifecycle_at (al_rt s1) (id_site i) (id_generation i) = Some (deleting_row policy now r)"
    using update_lifecycles_at [OF wf row_changes(3) l, where c = c] r(2)
    by (simp add: s1_def stmt_begin_deletion_def c_def)
  have tables1: "set work_tables \<subseteq> set (al_tables s1)" using tables by (simp add: s1_def)
  have work: "cancelWork i now s1 = (Inr (), snd (cancelWork i now s1))"
    using cancelWork_db(1) [OF tables1, of i now] by (cases "cancelWork i now s1") simp
  have "allocation_beginDeletion policy i owner now s
      = (Inr (lc_operation_fence (deleting_row policy now r)), snd (cancelWork i now s1))"
    unfolding allocation_beginDeletion_def and_then_def one
    by (simp add: n allocation_get_row_def allocation_get_def and_then_def query_def succeed_def l1) (subst work, simp)
  with ok have "fence = lc_operation_fence r + 1" "s' = snd (cancelWork i now s1)" by (simp_all add: deleting_row_def)
  moreover from this(2) have db: "al_rt s' = cancelled_db (id_site i) now (snd (stmt_begin_deletion policy i owner now (al_rt s)))"
    using cancelWork_db(2) [OF tables1] by (simp add: s1_def)
  moreover have "lifecycle_at (al_rt s') (id_site i) (id_generation i) = Some (deleting_row policy now r)"
    using l1 unfolding db by (simp add: lifecycle_at_def s1_def)
  ultimately show ?thesis using l r(2) by (auto simp: c_def)
qed

text \<open>\<open>reclaim\<close> does nothing under another fence or before the end of the retention.\<close>

lemma reclaim_refused:
  assumes "lifecycle_at (al_rt s) (id_site i) (id_generation i) = Some l"
    and "lc_state l \<noteq> Deleting \<or> lc_operation_fence l \<noteq> fence \<or> now < lc_retain_until l"
  shows "\<exists>e. allocation_reclaim bucket i fence limit now s = (Inl e, s)"
proof (cases "page_limit limit")
  case (Some n)
  from assms(2) show ?thesis
    unfolding allocation_reclaim_def Some option.case allocation_get_def and_then_query assms(1)
    by (simp add: throw_def)
qed (simp add: allocation_reclaim_def throw_def)

section \<open>Properties of allocations\<close>

text \<open>
  C27: whatever statements of whatever callers interleave on the lifecycles, an allocation is never
  removed or given to another principal, moves only from active to deleting to tombstoned and stays as
  it is once it is tombstoned; its operation fence rises exactly when it leaves the active state, and
  its mutation fence by one for every mutation or deletion that was granted.  So a mutation fence is
  accepted only as long as nothing has been granted since.
\<close>

theorem allocation_fences:
  assumes "lifecycles_wf db" and "lifecycle_at db (id_site i) (id_generation i) = Some l"
  shows "\<exists>l'. lifecycle_at (run_lifecycles stmts db) (id_site i) (id_generation i) = Some l' \<and> row_life l l'
    \<and> lc_mutation_fence l' = lc_mutation_fence l + int (fence_changes i stmts db)
    \<and> (mutation_allowed (lc_mutation_fence l) now (Some l') \<longrightarrow> fence_changes i stmts db = 0 \<and> lc_state l = Lifecycle_active)"
proof -
  from lifecycles_run [OF assms] obtain l' where l': "lifecycle_at (run_lifecycles stmts db) (id_site i) (id_generation i) = Some l'"
    "row_life l l'" "lc_mutation_fence l' = lc_mutation_fence l + int (fence_changes i stmts db)" by blast
  have "lc_state l = Lifecycle_active" if "lc_state l' = Lifecycle_active"
    using that l'(2) by (cases "lc_state l") (simp_all add: row_life_def)
  with l' show ?thesis by (auto simp: mutation_allowed_def)
qed

definition sample_identity :: allocation_identity where
  "sample_identity = \<lparr>id_site = ''s'', id_generation = 1\<rparr>"

definition sample_allocations :: runtime_db where
  "sample_allocations = empty_runtime_db\<lparr>rt_lifecycles := [new_lifecycle defaultRetention sample_identity ''p'' 0]\<rparr>"

lemma sample_allocations_ok:
  "lifecycles_wf sample_allocations"
  "lifecycle_at sample_allocations (id_site sample_identity) (id_generation sample_identity)
     = Some (new_lifecycle defaultRetention sample_identity ''p'' 0)"
  by (simp_all add: sample_allocations_def lifecycles_wf_def unique_by_def lifecycle_at_def new_lifecycle_def)

theorem allocation_fences_witness:
  "\<exists>l'. lifecycle_at (run_lifecycles [Begin_mutation sample_identity ''p'' 1] sample_allocations) ''s'' 1 = Some l'
    \<and> lc_mutation_fence l' = 2"
proof -
  have "fence_changes sample_identity [Begin_mutation sample_identity ''p'' 1] sample_allocations = 1"
    by (simp add: stmt_begin_mutation_def update_lifecycles_def sql_update_def sample_allocations_def new_lifecycle_def
        owned_allocation_def of_identity_def sample_identity_def defaultRetention_def)
  with allocation_fences [OF sample_allocations_ok, of "[Begin_mutation sample_identity ''p'' 1]"] show ?thesis
    by (auto simp: sample_identity_def new_lifecycle_def)
qed

lemma cancelled_states:
  assumes "w \<in> set (rt_operations (cancel_operations siteId now db))" and "op_site w = siteId"
  shows "op_state w \<in> {Succeeded, Failed}"
proof -
  from assms(1) obtain v where "w = (if cancellable siteId v then cancelled_operation now v else v)"
    unfolding cancelled_rows(1) set_map by blast
  with assms(2) show ?thesis by (cases "op_state v") (auto simp: cancellable_def split: if_splits)
qed

lemma cancelled_elsewhere:
  "filter (\<lambda>w. op_site w \<noteq> siteId) (rt_operations (cancel_operations siteId now db))
   = filter (\<lambda>w. op_site w \<noteq> siteId) (rt_operations db)"
proof -
  have "filter (\<lambda>w. op_site w \<noteq> siteId) (map (\<lambda>w. if cancellable siteId w then cancelled_operation now w else w) rows)
    = filter (\<lambda>w. op_site w \<noteq> siteId) rows" for rows
    by (induction rows) (auto simp: cancellable_def)
  then show ?thesis by (simp add: cancelled_rows)
qed

lemma cancelled_dispatches:
  assumes "d \<in> set (rt_dispatches (cancelled_db siteId now db))" and "ds_site d = siteId"
  shows "ds_state d \<in> {Done, Dead_letter}"
proof -
  define c where "c = (\<lambda>d :: dispatch_row. ds_site d = siteId \<and> ds_state d \<notin> {Done, Dead_letter})"
  have rows: "rt_dispatches (cancelled_db siteId now db)
      = map (\<lambda>d. if c d then cancelled_dispatch now d else d) (rt_dispatches db)"
    by (simp add: cancelled_db_def cancel_dispatches_def update_set c_def cancel_operations_def)
  from assms(1) obtain v where v: "d = (if c v then cancelled_dispatch now v else v)"
    unfolding rows set_map by blast
  show ?thesis
  proof (cases "c v")
    case True
    with v show ?thesis by (simp add: cancelled_dispatch_def)
  next
    case False
    with v have "d = v" by simp
    with False assms(2) show ?thesis by (auto simp: c_def)
  qed
qed


definition sample_allocation_db :: "unit allocation_db" where
  "sample_allocation_db = \<lparr>al_rt = sample_allocations, al_tables = work_tables, al_claims = [], al_roots = [], al_bucket = ()\<rparr>"


text \<open>
  The receipt takes the moment of expiry for the start of the deletion.  An owner who deletes before
  that moment gets a receipt that completes before it starts.
\<close>

lemma receipt_completes_before_start:
  assumes "now < lc_expires_at l"
  shows "dr_completedAt (deletion_receipt_of (deleting_row policy begun l) i page n now)
    < dr_startedAt (deletion_receipt_of (deleting_row policy begun l) i page n now)"
  using assms by (simp add: deletion_receipt_of_def deleting_row_def)

end
