(* ===== verification/Principal_Credentials.thy ===== *)
theory Principal_Credentials
  imports Sql_Table
begin

text \<open>
  \<open>packages/runtime-cloudflare/src/principal-credential-repository.ts\<close>: the bearer credentials of the
  provisioning API.  A credential is registered in versions, each under the digest of its bearer, with
  scopes, an expiry and possibly the sites it is limited to; it can be revoked; and every decision
  leaves an entry in an audit table of bounded size, where denials of one kind are entered once in five
  minutes.

  \<open>Date.parse\<close> and \<open>toISOString\<close> are arguments, as is the SHA-256 digest of a bearer.  JSON text in a
  column is kept as the list it encodes.  An insertion that is ignored leaves the sequence of the audit
  table alone.  Between two statements of a method other clients may write; what they did is an
  argument too.
\<close>

section \<open>Data\<close>

record principal_policy =
  pp_principal :: string
  pp_scopes :: "string list"
  pp_expiresAt :: string
  pp_maxSites :: jsval
  pp_sites :: "string list option"

record credential_version = principal_policy +
  cv_credentialId :: string
  cv_version :: string
  cv_digest :: string

record authenticated_principal = principal_policy +
  ap_credentialId :: string
  ap_version :: string

record credential_row =
  cd_credential_id :: string
  cd_version :: string
  cd_digest :: string
  cd_principal :: string
  cd_scopes :: "string list"
  cd_expires_at :: int
  cd_max_sites :: int
  cd_sites :: "string list option"
  cd_revoked_at :: "int option"
  cd_created_at :: int

datatype audit_kind = Registered | Revoked | Authenticated | Denied
datatype audit_reason = Reason_ok | Reason_unknown | Reason_expired | Reason_revoked | Reason_scope | Reason_site

record audit_event =
  au_id :: int
  au_at :: int
  au_kind :: audit_kind
  au_principal :: "string option"
  au_credential_id :: "string option"
  au_version :: "string option"
  au_reason :: audit_reason

record audit_row = audit_event +
  au_dedupe_key :: "string option"

record credential_db =
  cb_credentials :: "credential_row list"
  cb_audit :: "audit_row list"
  cb_sequence :: int

type_synonym credential_statement = "credential_db \<Rightarrow> nat \<times> credential_db"
type_synonym 'a credential_action = "(credential_db, string, 'a) action"

datatype authorization_decision =
    Not_found
  | Allowed authenticated_principal
  | Denied_because audit_reason string string string

record date_functions =
  dt_parse :: "string \<Rightarrow> int option"
  dt_iso :: "int \<Rightarrow> string option"

text \<open>The schema: both tables start empty.\<close>

definition credential_schema :: credential_db where
  "credential_schema = \<lparr>cb_credentials = [], cb_audit = [], cb_sequence = 0\<rparr>"

definition SCOPES :: "string list" where
  "SCOPES = [''sites:create'', ''sites:read'', ''sites:import'', ''operations:read'']"

definition UNKNOWN_AUDIT_BUCKET_MS :: int where
  "UNKNOWN_AUDIT_BUCKET_MS = 5 * 60000"

definition DEFAULT_AUDIT_LIMIT :: int where
  "DEFAULT_AUDIT_LIMIT = 10000"

section \<open>Validation\<close>

definition name_char :: "char \<Rightarrow> bool" where
  "name_char c \<longleftrightarrow> is_alnum c \<or> c \<in> {CHR ''.'', CHR ''_'', CHR ''-''}"

definition credential_identifier :: "string \<Rightarrow> bool" where
  "credential_identifier s \<longleftrightarrow> s \<noteq> [] \<and> length s \<le> 64 \<and> list_all name_char s"

definition principalId :: "string \<Rightarrow> bool" where
  "principalId s \<longleftrightarrow> s \<noteq> [] \<and> length s \<le> 128 \<and> list_all (\<lambda>c. name_char c \<or> c = CHR '':'') s"

definition validSiteId :: "string \<Rightarrow> bool" where
  "validSiteId s \<longleftrightarrow> list_all (\<lambda>w. w \<noteq> [] \<and> list_all (\<lambda>c. is_lower c \<or> is_digit c) w) (split_on (CHR ''-'') s)
     \<and> length s \<le> 63"

definition digest_text :: "string \<Rightarrow> bool" where
  "digest_text s \<longleftrightarrow> length s = 64 \<and> list_all (\<lambda>c. is_digit c \<or> char_between (CHR ''a'') (CHR ''f'') c) s"

definition max_sites_ok :: "jsval \<Rightarrow> bool" where
  "max_sites_ok v = (case v of JNum (Fin q) \<Rightarrow> of_int \<lfloor>q\<rfloor> = q \<and> 0 \<le> q \<and> q \<le> 10000 | _ \<Rightarrow> False)"

definition validPolicy :: "date_functions \<Rightarrow> 'a principal_policy_scheme \<Rightarrow> bool" where
  "validPolicy dates v \<longleftrightarrow>
     (case dt_parse dates (pp_expiresAt v) of
        None \<Rightarrow> False
      | Some t \<Rightarrow> pp_scopes v \<noteq> [] \<and> length (pp_scopes v) \<le> 4 \<and> distinct (pp_scopes v)
          \<and> list_all (\<lambda>s. s \<in> set SCOPES) (pp_scopes v) \<and> max_sites_ok (pp_maxSites v)
          \<and> dt_iso dates t = Some (pp_expiresAt v) \<and> 0 < t
          \<and> (case pp_sites v of None \<Rightarrow> True
             | Some sites \<Rightarrow> length sites \<le> 256 \<and> distinct sites \<and> list_all validSiteId sites))"

definition validatePrincipalCredentialVersion :: "date_functions \<Rightarrow> credential_version \<Rightarrow> bool" where
  "validatePrincipalCredentialVersion dates input \<longleftrightarrow> credential_identifier (cv_credentialId input)
     \<and> credential_identifier (cv_version input) \<and> principalId (pp_principal input) \<and> digest_text (cv_digest input)
     \<and> validPolicy dates input"

definition hydrate :: "date_functions \<Rightarrow> credential_row \<Rightarrow> string + authenticated_principal" where
  "hydrate dates row =
     (case dt_iso dates (cd_expires_at row) of
        None \<Rightarrow> Inl ''Stored credential policy is invalid.''
      | Some expiresAt \<Rightarrow>
          let value = \<lparr>pp_principal = cd_principal row, pp_scopes = cd_scopes row, pp_expiresAt = expiresAt,
                pp_maxSites = JInt (cd_max_sites row), pp_sites = cd_sites row,
                ap_credentialId = cd_credential_id row, ap_version = cd_version row\<rparr>
          in if credential_identifier (cd_credential_id row) \<and> credential_identifier (cd_version row)
                \<and> principalId (cd_principal row) \<and> validPolicy dates value
             then Inr value else Inl ''Stored credential policy is invalid.'')"

definition sites_limit :: "jsval \<Rightarrow> int" where
  "sites_limit v = (case v of JNum (Fin q) \<Rightarrow> \<lfloor>q\<rfloor> | _ \<Rightarrow> 0)"

definition expiry_of :: "date_functions \<Rightarrow> credential_version \<Rightarrow> int" where
  "expiry_of dates input = (case dt_parse dates (pp_expiresAt input) of Some t \<Rightarrow> t | None \<Rightarrow> 0)"

definition sameCredential :: "date_functions \<Rightarrow> credential_row \<Rightarrow> credential_version \<Rightarrow> bool" where
  "sameCredential dates row input \<longleftrightarrow> cd_digest row = cv_digest input \<and> cd_principal row = pp_principal input
     \<and> cd_scopes row = pp_scopes input \<and> cd_expires_at row = expiry_of dates input
     \<and> cd_max_sites row = sites_limit (pp_maxSites input) \<and> cd_sites row = pp_sites input"

section \<open>Statements\<close>

definition credential_key :: "credential_row \<Rightarrow> string \<times> string" where
  "credential_key row = (cd_credential_id row, cd_version row)"

definition find_credential :: "string \<Rightarrow> string \<Rightarrow> credential_db \<Rightarrow> credential_row option" where
  "find_credential credentialId version db = find (\<lambda>row. credential_key row = (credentialId, version)) (cb_credentials db)"

definition find_digest :: "string \<Rightarrow> credential_db \<Rightarrow> credential_row option" where
  "find_digest digest db = find (\<lambda>row. cd_digest row = digest) (cb_credentials db)"

definition credential_row_of :: "date_functions \<Rightarrow> credential_version \<Rightarrow> int \<Rightarrow> credential_row" where
  "credential_row_of dates input now =
     \<lparr>cd_credential_id = cv_credentialId input, cd_version = cv_version input, cd_digest = cv_digest input,
      cd_principal = pp_principal input, cd_scopes = pp_scopes input, cd_expires_at = expiry_of dates input,
      cd_max_sites = sites_limit (pp_maxSites input), cd_sites = pp_sites input, cd_revoked_at = None, cd_created_at = now\<rparr>"

text \<open>The primary key or the \<open>UNIQUE\<close> digest refuses the row.\<close>

definition credential_taken :: "credential_version \<Rightarrow> credential_db \<Rightarrow> bool" where
  "credential_taken input db \<longleftrightarrow>
     (\<exists>row \<in> set (cb_credentials db). credential_key row = (cv_credentialId input, cv_version input) \<or> cd_digest row = cv_digest input)"

definition stmt_insert_credential :: "date_functions \<Rightarrow> credential_version \<Rightarrow> int \<Rightarrow> credential_statement" where
  "stmt_insert_credential dates input now db =
     (1, db\<lparr>cb_credentials := cb_credentials db @ [credential_row_of dates input now]\<rparr>)"

definition reason_name :: "audit_reason \<Rightarrow> string" where
  "reason_name r = (case r of Reason_ok \<Rightarrow> ''ok'' | Reason_unknown \<Rightarrow> ''unknown'' | Reason_expired \<Rightarrow> ''expired''
     | Reason_revoked \<Rightarrow> ''revoked'' | Reason_scope \<Rightarrow> ''scope'' | Reason_site \<Rightarrow> ''site'')"

definition shown_text :: "string option \<Rightarrow> string" where
  "shown_text v = (case v of None \<Rightarrow> ''null'' | Some s \<Rightarrow> s)"

definition audit_dedupe :: "audit_kind \<Rightarrow> string option \<Rightarrow> string option \<Rightarrow> audit_reason \<Rightarrow> int \<Rightarrow> string option" where
  "audit_dedupe kind credentialId version reason at_ms =
     (if kind = Denied
      then Some (''denied:'' @ shown_text credentialId @ '':'' @ shown_text version @ '':'' @ reason_name reason @ '':''
                 @ string_of_int (at_ms div UNKNOWN_AUDIT_BUCKET_MS))
      else None)"

text \<open>\<open>INSERT OR IGNORE\<close>: a row whose key is there already is ignored, and \<open>NULL\<close> equals no key.\<close>

definition insert_audit ::
    "audit_kind \<Rightarrow> string option \<Rightarrow> string option \<Rightarrow> string option \<Rightarrow> audit_reason \<Rightarrow> int \<Rightarrow> string option \<Rightarrow> credential_statement" where
  "insert_audit kind principal_id credentialId version reason at_ms key db =
     (if key \<noteq> None \<and> (\<exists>r \<in> set (cb_audit db). au_dedupe_key r = key) then (0, db)
      else (1, db\<lparr>cb_audit := cb_audit db @ [\<lparr>au_id = cb_sequence db + 1, au_at = at_ms, au_kind = kind,
                   au_principal = principal_id, au_credential_id = credentialId, au_version = version, au_reason = reason,
                   au_dedupe_key = key\<rparr>],
                 cb_sequence := cb_sequence db + 1\<rparr>))"

definition auditStatement ::
    "audit_kind \<Rightarrow> string option \<Rightarrow> string option \<Rightarrow> string option \<Rightarrow> audit_reason \<Rightarrow> int \<Rightarrow> credential_statement" where
  "auditStatement kind principal_id credentialId version reason at_ms =
     insert_audit kind principal_id credentialId version reason at_ms (audit_dedupe kind credentialId version reason at_ms)"

text \<open>\<open>ORDER BY id DESC LIMIT -1 OFFSET n\<close>: all but the newest so many.\<close>

definition trimAuditStatement :: "nat \<Rightarrow> credential_statement" where
  "trimAuditStatement auditLimit db =
     (let old = drop auditLimit (rev (sort (map au_id (cb_audit db)))) in
      case sql_delete (\<lambda>r. au_id r \<in> set old) (cb_audit db) of (n, rows) \<Rightarrow> (n, db\<lparr>cb_audit := rows\<rparr>))"

definition revoked_row :: "int \<Rightarrow> credential_row \<Rightarrow> credential_row" where
  "revoked_row now row = row\<lparr>cd_revoked_at := Some now\<rparr>"

definition stmt_revoke :: "string \<Rightarrow> string \<Rightarrow> int \<Rightarrow> credential_statement" where
  "stmt_revoke credentialId version now db =
     (case sql_update (\<lambda>row. credential_key row = (credentialId, version) \<and> cd_revoked_at row = None) (revoked_row now)
             (cb_credentials db) of
        (n, rows) \<Rightarrow> (n, db\<lparr>cb_credentials := rows\<rparr>))"

text \<open>The batches: each is one transaction.\<close>

definition register_batch :: "date_functions \<Rightarrow> nat \<Rightarrow> credential_version \<Rightarrow> int \<Rightarrow> credential_statement" where
  "register_batch dates auditLimit input now db =
     (let db1 = snd (stmt_insert_credential dates input now db);
          db2 = snd (auditStatement Registered (Some (pp_principal input)) (Some (cv_credentialId input))
                       (Some (cv_version input)) Reason_ok now db1)
      in (1, snd (trimAuditStatement auditLimit db2)))"

definition revoke_batch :: "nat \<Rightarrow> string \<Rightarrow> string \<Rightarrow> string \<Rightarrow> int \<Rightarrow> credential_statement" where
  "revoke_batch auditLimit principal_id credentialId version now db =
     (case stmt_revoke credentialId version now db of (n, db1) \<Rightarrow>
        let db2 = (if n = 1 then snd (insert_audit Revoked (Some principal_id) (Some credentialId) (Some version) Reason_ok now None db1)
                   else db1)
        in (n, snd (trimAuditStatement auditLimit db2)))"

definition audit_batch ::
    "nat \<Rightarrow> audit_kind \<Rightarrow> string option \<Rightarrow> string option \<Rightarrow> string option \<Rightarrow> audit_reason \<Rightarrow> int \<Rightarrow> string option \<Rightarrow> credential_statement" where
  "audit_batch auditLimit kind principal_id credentialId version reason at_ms key db =
     (case insert_audit kind principal_id credentialId version reason at_ms key db of
        (n, db1) \<Rightarrow> (n, snd (trimAuditStatement auditLimit db1)))"

section \<open>Methods\<close>

definition auditLimit_of :: "jsval \<Rightarrow> string + nat" where
  "auditLimit_of v = (case safe_integer v of
      Some n \<Rightarrow> if n < 1 \<or> n > DEFAULT_AUDIT_LIMIT then Inl ''Credential audit limit is invalid.'' else Inr (nat n)
    | None \<Rightarrow> Inl ''Credential audit limit is invalid.'')"

definition registered_already :: "date_functions \<Rightarrow> credential_version \<Rightarrow> string \<Rightarrow> credential_row option \<Rightarrow> unit credential_action" where
  "registered_already dates input message found =
     (case found of Some row \<Rightarrow> require (sameCredential dates row input) message | None \<Rightarrow> throw message)"

definition credential_register ::
    "date_functions \<Rightarrow> nat \<Rightarrow> (nat \<Rightarrow> credential_db \<Rightarrow> credential_db) \<Rightarrow> credential_version \<Rightarrow> int \<Rightarrow> unit credential_action" where
  "credential_register dates auditLimit others input now =
     and_then (require (validatePrincipalCredentialVersion dates input) ''Credential policy is invalid.'') (\<lambda>_.
     and_then (query (find_credential (cv_credentialId input) (cv_version input))) (\<lambda>existing.
     case existing of
       Some row \<Rightarrow> registered_already dates input
         ''Credential version is already registered with different identity or policy.'' (Some row)
     | None \<Rightarrow>
         and_then (modify (others 0)) (\<lambda>_.
         and_then (query (credential_taken input)) (\<lambda>taken.
         if \<not> taken then and_then (execute (register_batch dates auditLimit input now)) (\<lambda>_. succeed ())
         else
           and_then (modify (others 1)) (\<lambda>_.
           and_then (query (find_credential (cv_credentialId input) (cv_version input)))
             (registered_already dates input ''Credential digest is already registered.''))))))"

definition valid_moment :: "jsval \<Rightarrow> int option" where
  "valid_moment now = (case safe_integer now of Some n \<Rightarrow> if n < 1 then None else Some n | None \<Rightarrow> None)"

definition credential_revoke ::
    "nat \<Rightarrow> (nat \<Rightarrow> credential_db \<Rightarrow> credential_db) \<Rightarrow> string \<Rightarrow> string \<Rightarrow> jsval \<Rightarrow> bool credential_action" where
  "credential_revoke auditLimit others credentialId version now =
     (case valid_moment now of
        None \<Rightarrow> throw ''Credential revocation request is invalid.''
      | Some t \<Rightarrow>
          and_then (require (credential_identifier credentialId \<and> credential_identifier version)
            ''Credential revocation request is invalid.'') (\<lambda>_.
          and_then (query (find_credential credentialId version)) (\<lambda>found.
          case found of
            None \<Rightarrow> succeed False
          | Some row \<Rightarrow>
              and_then (modify (others 0)) (\<lambda>_.
              and_then (execute (revoke_batch auditLimit (cd_principal row) credentialId version t)) (\<lambda>n. succeed (n = 1))))))"

definition denial_reason ::
    "date_functions \<Rightarrow> credential_row \<Rightarrow> authenticated_principal \<Rightarrow> string option \<Rightarrow> string option \<Rightarrow> int \<Rightarrow> audit_reason option" where
  "denial_reason dates row value scope siteId now =
     (if cd_revoked_at row \<noteq> None then Some Reason_revoked
      else if (case dt_parse dates (pp_expiresAt value) of Some t \<Rightarrow> t \<le> now | None \<Rightarrow> False) then Some Reason_expired
      else if (case scope of Some s \<Rightarrow> s \<noteq> [] \<and> s \<notin> set (pp_scopes value) | None \<Rightarrow> False) then Some Reason_scope
      else if (case (siteId, pp_sites value) of (Some s, Some sites) \<Rightarrow> s \<noteq> [] \<and> s \<notin> set sites | _ \<Rightarrow> False) then Some Reason_site
      else None)"

definition authorization_request :: "string \<Rightarrow> string option \<Rightarrow> string option \<Rightarrow> bool" where
  "authorization_request digest scope siteId \<longleftrightarrow> digest_text digest
     \<and> (case scope of None \<Rightarrow> True | Some s \<Rightarrow> s \<in> set SCOPES) \<and> (case siteId of None \<Rightarrow> True | Some s \<Rightarrow> validSiteId s)"

definition audited :: "nat \<Rightarrow> audit_kind \<Rightarrow> authenticated_principal \<Rightarrow> audit_reason \<Rightarrow> int \<Rightarrow> credential_statement" where
  "audited auditLimit kind value reason t =
     audit_batch auditLimit kind (Some (pp_principal value)) (Some (ap_credentialId value)) (Some (ap_version value)) reason t
       (audit_dedupe kind (Some (ap_credentialId value)) (Some (ap_version value)) reason t)"

definition decide_credential ::
    "date_functions \<Rightarrow> nat \<Rightarrow> credential_row \<Rightarrow> string option \<Rightarrow> string option \<Rightarrow> int \<Rightarrow> authorization_decision credential_action" where
  "decide_credential dates auditLimit row scope siteId t =
     and_then (from_result (hydrate dates row)) (\<lambda>value.
     case denial_reason dates row value scope siteId t of
       Some reason \<Rightarrow> and_then (execute (audited auditLimit Denied value reason t))
         (\<lambda>_. succeed (Denied_because reason (pp_principal value) (ap_credentialId value) (ap_version value)))
     | None \<Rightarrow> and_then (execute (audited auditLimit Authenticated value Reason_ok t)) (\<lambda>_. succeed (Allowed value)))"

definition authorizeDigest ::
    "date_functions \<Rightarrow> nat \<Rightarrow> (nat \<Rightarrow> credential_db \<Rightarrow> credential_db) \<Rightarrow> string \<Rightarrow> string option \<Rightarrow> string option \<Rightarrow> jsval
      \<Rightarrow> authorization_decision credential_action" where
  "authorizeDigest dates auditLimit others digest scope siteId now =
     (case valid_moment now of
        None \<Rightarrow> throw ''Credential authorization request is invalid.''
      | Some t \<Rightarrow>
          and_then (require (authorization_request digest scope siteId) ''Credential authorization request is invalid.'') (\<lambda>_.
          and_then (query (find_digest digest)) (\<lambda>found.
          case found of
            None \<Rightarrow> succeed Not_found
          | Some row \<Rightarrow> and_then (modify (others 0)) (\<lambda>_. decide_credential dates auditLimit row scope siteId t))))"

definition recordUnknownDenial :: "nat \<Rightarrow> jsval \<Rightarrow> unit credential_action" where
  "recordUnknownDenial auditLimit now =
     (case valid_moment now of
        None \<Rightarrow> throw ''Credential audit time is invalid.''
      | Some t \<Rightarrow>
          and_then (execute (audit_batch auditLimit Denied None None None Reason_unknown t
              (Some (''unknown:'' @ string_of_int (t div UNKNOWN_AUDIT_BUCKET_MS)))))
            (\<lambda>_. succeed ()))"

text \<open>\<open>TextEncoder\<close> on the 8-bit part of Unicode.\<close>

definition utf8_length :: "string \<Rightarrow> nat" where
  "utf8_length s = sum_list (map (\<lambda>c. if (of_char c :: nat) < 128 then 1 else 2) s)"

definition bearerDigest :: "(string \<Rightarrow> string) \<Rightarrow> string \<Rightarrow> string + string" where
  "bearerDigest sha256 value =
     (if value = [] \<or> utf8_length value > 4096 then Inl ''Credential bearer is invalid.'' else Inr (sha256 value))"

definition credential_authorize ::
    "(string \<Rightarrow> string) \<Rightarrow> date_functions \<Rightarrow> nat \<Rightarrow> (nat \<Rightarrow> credential_db \<Rightarrow> credential_db) \<Rightarrow> string \<Rightarrow> string option
      \<Rightarrow> string option \<Rightarrow> jsval \<Rightarrow> authenticated_principal option credential_action" where
  "credential_authorize sha256 dates auditLimit others bearer scope siteId now =
     and_then (from_result (bearerDigest sha256 bearer)) (\<lambda>digest.
     and_then (authorizeDigest dates auditLimit others digest scope siteId now) (\<lambda>decision.
     and_then (if decision = Not_found then recordUnknownDenial auditLimit now else succeed ()) (\<lambda>_.
     succeed (case decision of Allowed p \<Rightarrow> Some p | _ \<Rightarrow> None))))"

definition credential_authenticate ::
    "(string \<Rightarrow> string) \<Rightarrow> date_functions \<Rightarrow> nat \<Rightarrow> (nat \<Rightarrow> credential_db \<Rightarrow> credential_db) \<Rightarrow> string \<Rightarrow> jsval
      \<Rightarrow> authenticated_principal option credential_action" where
  "credential_authenticate sha256 dates auditLimit others bearer now =
     credential_authorize sha256 dates auditLimit others bearer None None now"

definition auditEvents :: "jsval \<Rightarrow> audit_event list credential_action" where
  "auditEvents limit = query (\<lambda>db.
     let bounded = (case safe_integer limit of Some n \<Rightarrow> min (max n 1) 100 | None \<Rightarrow> 100)
     in map audit_event.truncate (take (nat bounded) (sql_select (\<lambda>_. True) (\<lambda>r. - au_id r) (cb_audit db))))"

section \<open>The audit table\<close>

definition audit_ok :: "nat \<Rightarrow> credential_db \<Rightarrow> bool" where
  "audit_ok auditLimit db \<longleftrightarrow> sorted_wrt (<) (map au_id (cb_audit db)) \<and> (\<forall>r \<in> set (cb_audit db). au_id r \<le> cb_sequence db)
     \<and> length (cb_audit db) \<le> auditLimit"

lemma filter_not_first:
  "distinct (map f rows) \<Longrightarrow> filter (\<lambda>r. f r \<notin> set (take k (map f rows))) rows = drop k rows"
proof (induction rows arbitrary: k)
  case (Cons r rows)
  show ?case
  proof (cases k)
    case (Suc j)
    have "filter (\<lambda>x. f x \<notin> set (take k (map f (r # rows)))) (r # rows) = filter (\<lambda>x. f x \<notin> set (take j (map f rows))) rows"
      using Cons.prems unfolding Suc by (auto intro!: filter_cong) (metis image_eqI)
    with Cons show ?thesis by (simp add: Suc)
  qed simp
qed simp

lemma trim_audit:
  assumes "sorted_wrt (<) (map au_id (cb_audit db))"
  shows "snd (trimAuditStatement auditLimit db) = db\<lparr>cb_audit := drop (length (cb_audit db) - auditLimit) (cb_audit db)\<rparr>"
proof -
  have strict: "sorted (map au_id (cb_audit db))" "distinct (map au_id (cb_audit db))"
    using assms by (auto simp: strict_sorted_iff)
  have "set (drop auditLimit (rev (map au_id (cb_audit db))))
      = set (take (length (cb_audit db) - auditLimit) (map au_id (cb_audit db)))"
    by (simp add: drop_rev)
  then show ?thesis
    using filter_not_first [OF strict(2), of "length (cb_audit db) - auditLimit"] strict(1)
    by (simp add: trimAuditStatement_def Let_def sql_delete_def sorted_sort_id)
qed

lemma insert_audit_sorted:
  assumes "sorted_wrt (<) (map au_id (cb_audit db))" and "\<forall>r \<in> set (cb_audit db). au_id r \<le> cb_sequence db"
  shows "sorted_wrt (<) (map au_id (cb_audit (snd (insert_audit k p c v a t d db))))
    \<and> (\<forall>r \<in> set (cb_audit (snd (insert_audit k p c v a t d db))). au_id r \<le> cb_sequence (snd (insert_audit k p c v a t d db)))"
proof -
  have "\<forall>r \<in> set (cb_audit db). au_id r < cb_sequence db + 1" using assms(2) by auto
  with assms show ?thesis by (auto simp: insert_audit_def sorted_wrt_append)
qed

lemma insert_audit_credentials [simp]: "cb_credentials (snd (insert_audit k p c v a t d db)) = cb_credentials db"
  by (simp add: insert_audit_def)

lemma trim_credentials [simp]: "cb_credentials (snd (trimAuditStatement n db)) = cb_credentials db"
  by (simp add: trimAuditStatement_def Let_def split: prod.split)

lemma trim_audit_ok:
  assumes "sorted_wrt (<) (map au_id (cb_audit db))" and "\<forall>r \<in> set (cb_audit db). au_id r \<le> cb_sequence db"
  shows "audit_ok auditLimit (snd (trimAuditStatement auditLimit db))"
  using assms unfolding trim_audit [OF assms(1)]
  by (auto simp: audit_ok_def drop_map [symmetric] intro: sorted_wrt_drop dest: in_set_dropD)

lemma audit_ok_transfer: "audit_ok n db \<Longrightarrow> cb_audit db' = cb_audit db \<Longrightarrow> cb_sequence db' = cb_sequence db \<Longrightarrow> audit_ok n db'"
  by (simp add: audit_ok_def)

lemma insert_trim_ok:
  assumes "audit_ok auditLimit db"
  shows "audit_ok auditLimit (snd (trimAuditStatement auditLimit (snd (insert_audit k p c v a t d db))))"
  using assms insert_audit_sorted unfolding audit_ok_def by (intro trim_audit_ok [unfolded audit_ok_def]) blast+

lemma snd_audit_batch: "snd (audit_batch n k p c v a t d db) = snd (trimAuditStatement n (snd (insert_audit k p c v a t d db)))"
  by (simp add: audit_batch_def split: prod.split)

text \<open>An entry that is inserted is the newest and stays, as long as the table may hold any.\<close>

lemma audit_batch_entry:
  assumes "audit_ok auditLimit db" and "0 < auditLimit"
  shows "\<exists>r \<in> set (cb_audit (snd (audit_batch auditLimit k p c v a t None db))).
    au_kind r = k \<and> au_principal r = p \<and> au_credential_id r = c \<and> au_version r = v \<and> au_reason r = a \<and> au_at r = t"
proof -
  define r where "r = \<lparr>au_id = cb_sequence db + 1, au_at = t, au_kind = k, au_principal = p, au_credential_id = c, au_version = v,
    au_reason = a, au_dedupe_key = (None :: string option)\<rparr>"
  have inserted: "cb_audit (snd (insert_audit k p c v a t None db)) = cb_audit db @ [r]"
    by (simp add: insert_audit_def r_def)
  have "sorted_wrt (<) (map au_id (cb_audit (snd (insert_audit k p c v a t None db))))"
    using assms(1) insert_audit_sorted by (simp add: audit_ok_def)
  from trim_audit [OF this] assms(2) have "r \<in> set (cb_audit (snd (audit_batch auditLimit k p c v a t None db)))"
    by (simp add: snd_audit_batch inserted)
  then show ?thesis by (intro bexI [where x = r]) (simp_all add: r_def)
qed

section \<open>Rows and batches\<close>

definition credential_row_wf :: "date_functions \<Rightarrow> credential_row \<Rightarrow> bool" where
  "credential_row_wf dates row \<longleftrightarrow> (\<exists>value. hydrate dates row = Inr value \<and> dt_parse dates (pp_expiresAt value) = Some (cd_expires_at row))"

lemma hydrate_fields:
  "hydrate dates row = Inr value \<Longrightarrow> pp_principal value = cd_principal row \<and> pp_scopes value = cd_scopes row
   \<and> pp_sites value = cd_sites row \<and> ap_credentialId value = cd_credential_id row \<and> ap_version value = cd_version row"
  by (auto simp: hydrate_def Let_def split: option.splits if_splits)

lemma hydrate_revoked [simp]: "hydrate dates (revoked_row now row) = hydrate dates row"
  by (simp add: hydrate_def revoked_row_def Let_def split: option.split)

lemma credential_row_wf_revoked: "credential_row_wf dates row \<Longrightarrow> credential_row_wf dates (revoked_row now row)"
  by (simp add: credential_row_wf_def) (simp add: revoked_row_def)

lemma registered_row_wf:
  assumes "validatePrincipalCredentialVersion dates input"
  shows "credential_row_wf dates (credential_row_of dates input now)"
proof -
  from assms obtain t where t: "dt_parse dates (pp_expiresAt input) = Some t" "dt_iso dates t = Some (pp_expiresAt input)" "0 < t"
    by (auto simp: validatePrincipalCredentialVersion_def validPolicy_def split: option.splits)
  then have e: "expiry_of dates input = t" by (simp add: expiry_of_def)
  have "max_sites_ok (JInt (sites_limit (pp_maxSites input)))"
    using assms by (auto simp: validatePrincipalCredentialVersion_def validPolicy_def max_sites_ok_def sites_limit_def
        split: option.splits jsval.splits jsnum.splits)
  then show ?thesis
    using assms t by (auto simp: credential_row_wf_def hydrate_def credential_row_of_def e validatePrincipalCredentialVersion_def
        validPolicy_def Let_def split: option.splits)
qed

definition credential_ok :: "date_functions \<Rightarrow> nat \<Rightarrow> credential_db \<Rightarrow> bool" where
  "credential_ok dates auditLimit db \<longleftrightarrow> unique_by credential_key (cb_credentials db) \<and> unique_by cd_digest (cb_credentials db)
     \<and> (\<forall>row \<in> set (cb_credentials db). credential_row_wf dates row) \<and> audit_ok auditLimit db"

text \<open>The writes of the repository, in any order and by any clients.\<close>

inductive credential_reach :: "date_functions \<Rightarrow> nat \<Rightarrow> credential_db \<Rightarrow> credential_db \<Rightarrow> bool"
  for dates auditLimit base where
  no_write: "credential_reach dates auditLimit base base"
| register_write: "credential_reach dates auditLimit base db \<Longrightarrow> validatePrincipalCredentialVersion dates input \<Longrightarrow>
    \<not> credential_taken input db \<Longrightarrow> credential_reach dates auditLimit base (snd (register_batch dates auditLimit input now db))"
| revoke_write: "credential_reach dates auditLimit base db \<Longrightarrow>
    credential_reach dates auditLimit base (snd (revoke_batch auditLimit p c v now db))"
| audit_write: "credential_reach dates auditLimit base db \<Longrightarrow>
    credential_reach dates auditLimit base (snd (audit_batch auditLimit k p c v a t key db))"

lemma credential_reach_trans:
  "credential_reach dates n b c \<Longrightarrow> credential_reach dates n a b \<Longrightarrow> credential_reach dates n a c"
  by (induction rule: credential_reach.induct) (auto intro: credential_reach.intros)

lemma register_batch_rows:
  "cb_credentials (snd (register_batch dates n input now db)) = cb_credentials db @ [credential_row_of dates input now]"
  by (simp add: register_batch_def Let_def auditStatement_def stmt_insert_credential_def)

lemma revoke_batch_rows:
  "cb_credentials (snd (revoke_batch n p c v now db))
   = snd (sql_update (\<lambda>row. credential_key row = (c, v) \<and> cd_revoked_at row = None) (revoked_row now) (cb_credentials db))"
  by (auto simp: revoke_batch_def stmt_revoke_def Let_def split: prod.split)

lemma register_batch_ok:
  assumes ok: "credential_ok dates n db" and valid: "validatePrincipalCredentialVersion dates input"
    and free: "\<not> credential_taken input db"
  shows "credential_ok dates n (snd (register_batch dates n input now db))"
proof -
  have "audit_ok n (db\<lparr>cb_credentials := cb_credentials db @ [credential_row_of dates input now]\<rparr>)"
    using ok by (simp add: credential_ok_def audit_ok_def)
  then have "audit_ok n (snd (register_batch dates n input now db))"
    by (simp add: register_batch_def Let_def auditStatement_def stmt_insert_credential_def insert_trim_ok)
  moreover have "unique_by credential_key (cb_credentials db @ [credential_row_of dates input now])"
    "unique_by cd_digest (cb_credentials db @ [credential_row_of dates input now])"
    using ok free by (auto simp: credential_ok_def unique_by_def credential_taken_def credential_row_of_def credential_key_def)
  ultimately show ?thesis
    using ok registered_row_wf [OF valid] by (auto simp: credential_ok_def register_batch_rows)
qed

lemma revoke_batch_ok:
  assumes ok: "credential_ok dates n db"
  shows "credential_ok dates n (snd (revoke_batch n p c v now db))"
proof -
  obtain m rows where u: "sql_update (\<lambda>row. credential_key row = (c, v) \<and> cd_revoked_at row = None) (revoked_row now)
      (cb_credentials db) = (m, rows)" by force
  then have rows: "rows = snd (sql_update (\<lambda>row. credential_key row = (c, v) \<and> cd_revoked_at row = None) (revoked_row now)
      (cb_credentials db))" by simp
  have aok: "audit_ok n (db\<lparr>cb_credentials := rows\<rparr>)" using ok by (simp add: credential_ok_def audit_ok_def)
  then have "audit_ok n (snd (trimAuditStatement n (db\<lparr>cb_credentials := rows\<rparr>)))"
    by (intro trim_audit_ok) (auto simp: audit_ok_def)
  then have "audit_ok n (snd (revoke_batch n p c v now db))"
    using insert_trim_ok [OF aok] by (simp add: revoke_batch_def stmt_revoke_def u)
  moreover have "unique_by credential_key rows" "unique_by cd_digest rows"
    using ok unfolding rows by (simp_all add: credential_ok_def revoked_row_def credential_key_def)
  moreover have "credential_row_wf dates row" if "row \<in> set rows" for row
    using that ok unfolding rows by (auto simp: set_sql_update credential_ok_def credential_row_wf_revoked split: if_splits)
  ultimately show ?thesis by (simp add: credential_ok_def revoke_batch_rows rows)
qed

lemma audit_batch_ok:
  "credential_ok dates n db \<Longrightarrow> credential_ok dates n (snd (audit_batch n k p c v a t key db))"
  by (simp add: credential_ok_def snd_audit_batch insert_trim_ok)

lemma credential_reach_ok:
  "credential_reach dates n base db \<Longrightarrow> credential_ok dates n base \<Longrightarrow> credential_ok dates n db"
  by (induction rule: credential_reach.induct) (auto intro: register_batch_ok revoke_batch_ok audit_batch_ok)

lemma credential_schema_ok: "credential_ok dates n credential_schema"
  by (simp add: credential_ok_def audit_ok_def credential_schema_def unique_by_def)

text \<open>A credential is never changed but by being revoked once.\<close>

definition credential_lasts :: "credential_row \<Rightarrow> credential_row \<Rightarrow> bool" where
  "credential_lasts row row' \<longleftrightarrow> row' = row \<or> cd_revoked_at row = None \<and> (\<exists>now. row' = revoked_row now row)"

lemma credential_lasts_trans: "credential_lasts a b \<Longrightarrow> credential_lasts b c \<Longrightarrow> credential_lasts a c"
  by (auto simp: credential_lasts_def revoked_row_def)

lemma credential_reach_lasts:
  "credential_reach dates n base db \<Longrightarrow> row \<in> set (cb_credentials base) \<Longrightarrow> \<exists>row' \<in> set (cb_credentials db). credential_lasts row row'"
proof (induction rule: credential_reach.induct)
  case no_write
  then show ?case by (auto simp: credential_lasts_def)
next
  case (register_write db input now)
  then show ?case by (auto simp: register_batch_rows)
next
  case (revoke_write db p c v now)
  then obtain row' where row': "row' \<in> set (cb_credentials db)" "credential_lasts row row'" by blast
  let ?c = "\<lambda>row. credential_key row = (c, v) \<and> cd_revoked_at row = None"
  have "credential_lasts row' (if ?c row' then revoked_row now row' else row')" by (auto simp: credential_lasts_def)
  with row' have "credential_lasts row (if ?c row' then revoked_row now row' else row')" using credential_lasts_trans by blast
  moreover have "(if ?c row' then revoked_row now row' else row')
      \<in> set (cb_credentials (snd (revoke_batch n p c v now db)))"
    unfolding revoke_batch_rows set_sql_update using row'(1) by blast
  ultimately show ?case by blast
next
  case (audit_write db k p c v a t key)
  then show ?case by (simp add: snd_audit_batch)
qed

section \<open>The methods\<close>

text \<open>What other clients do between two statements are writes of the repository as well.\<close>

definition other_clients :: "date_functions \<Rightarrow> nat \<Rightarrow> (nat \<Rightarrow> credential_db \<Rightarrow> credential_db) \<Rightarrow> bool" where
  "other_clients dates n others \<longleftrightarrow> (\<forall>i db. credential_reach dates n db (others i db))"

definition writes_only :: "date_functions \<Rightarrow> nat \<Rightarrow> 'a credential_action \<Rightarrow> bool" where
  "writes_only dates n m \<longleftrightarrow> (\<forall>base. keeps (credential_reach dates n base) m)"

lemma writes_only_intros:
  "writes_only dates n (succeed x)" "writes_only dates n (throw e)" "writes_only dates n (from_result r)"
  "writes_only dates n (query f)" "writes_only dates n (require b e)"
  by (simp_all add: writes_only_def keeps_intros)

lemma writes_only_then:
  "writes_only dates n m \<Longrightarrow> (\<And>x. writes_only dates n (k x)) \<Longrightarrow> writes_only dates n (and_then m k)"
  by (simp add: writes_only_def keeps_and_then)

lemma writes_only_others: "other_clients dates n others \<Longrightarrow> writes_only dates n (modify (others i))"
  unfolding writes_only_def other_clients_def by (metis credential_reach_trans keeps_modify)

lemma writes_only_audit: "writes_only dates n (execute (audit_batch n k p c v a t key))"
  and writes_only_revoke: "writes_only dates n (execute (revoke_batch n p' c' v' now))"
  by (auto simp: writes_only_def keeps_def execute_def split: prod.split)
    (metis credential_reach.audit_write snd_conv, metis credential_reach.revoke_write snd_conv)

lemma writes_onlyD: "writes_only dates n m \<Longrightarrow> m db = (r, db') \<Longrightarrow> credential_reach dates n db db'"
  using no_write [of dates n db] unfolding writes_only_def keeps_def by (metis snd_conv)

lemma revoke_writes_only:
  "other_clients dates n others \<Longrightarrow> writes_only dates n (credential_revoke n others c v now)"
  unfolding credential_revoke_def
  by (auto intro!: writes_only_then writes_only_intros writes_only_others writes_only_revoke split: option.split)

lemma decide_writes_only: "writes_only dates n (decide_credential dates n row scope siteId t)"
  unfolding decide_credential_def audited_def
  by (auto intro!: writes_only_then writes_only_intros writes_only_audit split: option.split)

lemma authorize_writes_only:
  "other_clients dates n others \<Longrightarrow> writes_only dates n (authorizeDigest dates n others digest scope siteId now)"
  unfolding authorizeDigest_def
  by (auto intro!: writes_only_then writes_only_intros writes_only_others decide_writes_only split: option.split)

lemma unknown_writes_only: "writes_only dates n (recordUnknownDenial n now)"
  unfolding recordUnknownDenial_def
  by (auto intro!: writes_only_then writes_only_intros writes_only_audit split: option.split)

lemma authenticate_writes_only:
  "other_clients dates n others \<Longrightarrow> writes_only dates n (credential_authorize sha256 dates n others bearer scope siteId now)"
  unfolding credential_authorize_def
  by (auto intro!: writes_only_then writes_only_intros authorize_writes_only unknown_writes_only)

text \<open>A registration writes only what is valid and not taken.\<close>

lemma register_writes_only:
  assumes others: "other_clients dates n others"
  shows "writes_only dates n (credential_register dates n others input now)"
proof (cases "validatePrincipalCredentialVersion dates input")
  case False
  then have "credential_register dates n others input now = throw ''Credential policy is invalid.''"
    by (rule_tac ext) (simp add: credential_register_def and_then_require throw_def)
  then show ?thesis by (simp add: writes_only_intros)
next
  case True
  have already: "writes_only dates n (registered_already dates input m found)" for m found
    by (auto simp: registered_already_def intro: writes_only_intros split: option.split)
  have insertion: "writes_only dates n (and_then (query (credential_taken input)) (\<lambda>taken.
         if \<not> taken then and_then (execute (register_batch dates n input now)) (\<lambda>_. succeed ())
         else and_then (modify (others 1)) (\<lambda>_.
           and_then (query (find_credential (cv_credentialId input) (cv_version input)))
             (registered_already dates input m))))" for m
  proof -
    have "writes_only dates n (and_then (modify (others 1)) (\<lambda>_.
           and_then (query (find_credential (cv_credentialId input) (cv_version input))) (registered_already dates input m)))"
      by (intro writes_only_then writes_only_intros writes_only_others others already)
    then show ?thesis
      using True credential_reach.register_write [of dates n _ _ input now]
      by (auto simp: writes_only_def keeps_def run_action) (auto simp: succeed_def)
  qed
  show ?thesis
    unfolding credential_register_def
    by (intro writes_only_then writes_only_intros) (auto intro!: already writes_only_then writes_only_others others insertion split: option.split)
qed

section \<open>Correctness\<close>

lemma unique_find:
  assumes "unique_by key rows" and "row \<in> set rows" and "key row = k"
  shows "find (\<lambda>r. key r = k) rows = Some row"
proof -
  have "find (\<lambda>r. key r = k) rows \<noteq> None" using assms by (auto simp: find_None_iff)
  then obtain r where r: "find (\<lambda>r. key r = k) rows = Some r" by auto
  with find_sql [OF r] unique_by_eq [OF assms(1) _ assms(2)] assms(3) show ?thesis by metis
qed

text \<open>Under which rows a request is granted.\<close>

definition grants :: "credential_row \<Rightarrow> string option \<Rightarrow> string option \<Rightarrow> int \<Rightarrow> bool" where
  "grants row scope siteId now \<longleftrightarrow> cd_revoked_at row = None \<and> now < cd_expires_at row
     \<and> (\<forall>s. scope = Some s \<longrightarrow> s \<in> set (cd_scopes row))
     \<and> (\<forall>s sites. siteId = Some s \<longrightarrow> cd_sites row = Some sites \<longrightarrow> s \<in> set sites)"

lemma denial_reason_none:
  assumes policy: "hydrate dates row = Inr value" "dt_parse dates (pp_expiresAt value) = Some (cd_expires_at row)"
    and request: "authorization_request digest scope siteId"
  shows "denial_reason dates row value scope siteId now = None \<longleftrightarrow> grants row scope siteId now"
proof -
  have "scope \<noteq> Some []" using request by (auto simp: authorization_request_def SCOPES_def)
  moreover have "siteId \<noteq> Some []" using request by (auto simp: authorization_request_def validSiteId_def)
  ultimately show ?thesis
    using hydrate_fields [OF policy(1)] policy(2) by (auto simp: denial_reason_def grants_def split: option.splits)
qed

definition decision_audited :: "authorization_decision \<Rightarrow> int \<Rightarrow> credential_db \<Rightarrow> bool" where
  "decision_audited d now db = (case d of
      Allowed p \<Rightarrow> \<exists>a \<in> set (cb_audit db). au_kind a = Authenticated \<and> au_principal a = Some (pp_principal p)
        \<and> au_credential_id a = Some (ap_credentialId p) \<and> au_version a = Some (ap_version p) \<and> au_reason a = Reason_ok \<and> au_at a = now
    | _ \<Rightarrow> True)"

lemma decide_credential_result:
  assumes policy: "hydrate dates row = Inr value" "dt_parse dates (pp_expiresAt value) = Some (cd_expires_at row)"
    and request: "authorization_request digest scope siteId" and ok: "credential_ok dates n db" and n: "0 < n"
  shows "\<exists>d db'. decide_credential dates n row scope siteId t db = (Inr d, db') \<and> d \<noteq> Not_found
    \<and> d = (if grants row scope siteId t then Allowed value
           else Denied_because (the (denial_reason dates row value scope siteId t)) (cd_principal row) (cd_credential_id row) (cd_version row))
    \<and> cb_credentials db' = cb_credentials db \<and> decision_audited d t db'"
proof (cases "denial_reason dates row value scope siteId t")
  case None
  then have "grants row scope siteId t" using denial_reason_none [OF policy request, of t] by simp
  moreover have "decision_audited (Allowed value) t (snd (audited n Authenticated value Reason_ok t db))"
    using audit_batch_entry [of n db] ok n by (simp add: decision_audited_def audited_def audit_dedupe_def credential_ok_def)
  ultimately show ?thesis
    using None policy(1) by (simp add: decide_credential_def run_action succeed_def audited_def snd_audit_batch)
next
  case (Some reason)
  then have "\<not> grants row scope siteId t" using denial_reason_none [OF policy request, of t] by simp
  then show ?thesis
    using Some policy(1) hydrate_fields [OF policy(1)]
    by (simp add: decide_credential_def run_action succeed_def audited_def snd_audit_batch decision_audited_def)
qed

lemma authorize_not_found:
  assumes "valid_moment now = Some t" and "authorization_request digest scope siteId" and "find_digest digest db = None"
  shows "authorizeDigest dates n others digest scope siteId now db = (Inr Not_found, db)"
  using assms by (simp add: authorizeDigest_def run_action succeed_def)

lemma authorize_found:
  assumes "valid_moment now = Some t" and "authorization_request digest scope siteId" and "find_digest digest db = Some row"
  shows "authorizeDigest dates n others digest scope siteId now db = decide_credential dates n row scope siteId t (others 0 db)"
  using assms by (simp add: authorizeDigest_def run_action succeed_def)


text \<open>
  C30: a revocation is final.  Once a credential is revoked, after whatever calls of any clients every
  valid request with its bearer is denied as revoked, and is denied as the principal it belonged to.
\<close>

theorem revocation_final:
  assumes "credential_reach dates n credential_schema db" and "row \<in> set (cb_credentials db)" and "cd_revoked_at row \<noteq> None"
    and "credential_reach dates n db db'" and "other_clients dates n others" and "0 < n"
    and "valid_moment now = Some t" and "authorization_request (cd_digest row) scope siteId"
  shows "fst (authorizeDigest dates n others (cd_digest row) scope siteId now db')
    = Inr (Denied_because Reason_revoked (cd_principal row) (cd_credential_id row) (cd_version row))"
proof -
  have ok: "credential_ok dates n db" by (rule credential_reach_ok [OF assms(1) credential_schema_ok])
  have ok': "credential_ok dates n db'" by (rule credential_reach_ok [OF assms(4) ok])
  have "credential_reach dates n db' (others 0 db')" using assms(5) by (simp add: other_clients_def)
  from credential_reach_ok [OF this ok'] have ok1: "credential_ok dates n (others 0 db')" .
  obtain row' where "row' \<in> set (cb_credentials db')" "credential_lasts row row'"
    using credential_reach_lasts [OF assms(4,2)] by blast
  with assms(3) have row: "row \<in> set (cb_credentials db')" by (auto simp: credential_lasts_def)
  have "find_digest (cd_digest row) db' = Some row"
    unfolding find_digest_def by (rule unique_find [OF _ row refl]) (use ok' in \<open>simp add: credential_ok_def\<close>)
  note run = authorize_found [OF assms(7,8) this, of dates n others]
  from ok' row obtain p where p: "hydrate dates row = Inr p" "dt_parse dates (pp_expiresAt p) = Some (cd_expires_at row)"
    by (auto simp: credential_ok_def credential_row_wf_def)
  have "denial_reason dates row p scope siteId t = Some Reason_revoked" "\<not> grants row scope siteId t"
    using assms(3) by (simp_all add: denial_reason_def grants_def)
  with decide_credential_result [OF p assms(8) ok1 assms(6), of t] run show ?thesis by auto
qed

section \<open>A sample repository\<close>

definition sample_dates :: date_functions where
  "sample_dates = \<lparr>dt_parse = (\<lambda>s. if s = ''2030-01-01T00:00:00.000Z'' then Some 1893456000000 else None),
     dt_iso = (\<lambda>t. if t = 1893456000000 then Some ''2030-01-01T00:00:00.000Z'' else None)\<rparr>"

definition sample_digest :: string where
  "sample_digest = replicate 64 (CHR ''a'')"

definition sample_credential :: credential_version where
  "sample_credential = \<lparr>pp_principal = ''operator:a'', pp_scopes = [''sites:read''], pp_expiresAt = ''2030-01-01T00:00:00.000Z'',
     pp_maxSites = JInt 2, pp_sites = Some [''site-a''], cv_credentialId = ''cred'', cv_version = ''v1'', cv_digest = sample_digest\<rparr>"

definition sample_credentials :: credential_db where
  "sample_credentials = snd (register_batch sample_dates 100 sample_credential 1000 credential_schema)"

definition sample_revoked :: credential_db where
  "sample_revoked = snd (revoke_batch 100 ''operator:a'' ''cred'' ''v1'' 2000 sample_credentials)"

lemma sample_credential_valid: "validatePrincipalCredentialVersion sample_dates sample_credential"
  by code_simp

lemma sample_credentials_reach: "credential_reach sample_dates 100 credential_schema sample_credentials"
  unfolding sample_credentials_def
  by (rule register_write [OF no_write sample_credential_valid]) (simp add: credential_taken_def credential_schema_def)

lemma sample_revoked_reach: "credential_reach sample_dates 100 credential_schema sample_revoked"
  unfolding sample_revoked_def by (rule revoke_write [OF sample_credentials_reach])

lemma sample_authorization: "authorization_request sample_digest (Some ''sites:read'') (Some ''site-a'')"
  by code_simp

lemma sample_others: "other_clients sample_dates 100 (\<lambda>_ db. db)"
  by (simp add: other_clients_def no_write)

lemma sample_rows:
  "cb_credentials sample_credentials = [credential_row_of sample_dates sample_credential 1000]"
  "cb_credentials sample_revoked = [revoked_row 2000 (credential_row_of sample_dates sample_credential 1000)]"
  by (simp_all add: sample_credentials_def sample_revoked_def register_batch_rows revoke_batch_rows credential_schema_def
      sql_update_def credential_key_def credential_row_of_def sample_credential_def)


theorem revocation_final_witness:
  "fst (authorizeDigest sample_dates 100 (\<lambda>_ db. db) sample_digest (Some ''sites:read'') (Some ''site-a'') (JInt 5000) sample_revoked)
   = Inr (Denied_because Reason_revoked ''operator:a'' ''cred'' ''v1'')"
proof -
  define row where "row = revoked_row 2000 (credential_row_of sample_dates sample_credential 1000)"
  have row: "row \<in> set (cb_credentials sample_revoked)" "cd_revoked_at row \<noteq> None" "cd_digest row = sample_digest"
      "cd_principal row = ''operator:a''" "cd_credential_id row = ''cred''" "cd_version row = ''v1''"
    by (simp_all add: row_def sample_rows revoked_row_def credential_row_of_def sample_credential_def)
  have now: "valid_moment (JInt 5000) = Some 5000" by (simp add: valid_moment_def max_safe_integer_def)
  from revocation_final [OF sample_revoked_reach row(1,2) no_write sample_others _ now] sample_authorization row(3-6)
  show ?thesis by simp
qed

end
