(* ===== verification/Bounded_Pool.thy ===== *)
theory Bounded_Pool
  imports Js_Conversions
begin

text \<open>
  The pool of runners that \<open>runBoundedConcurrent\<close> (\<open>packages/runtime-core/src/run-plan.ts\<close>) and
  \<open>executeEntries\<close> (\<open>bounded-runtime-plan.ts\<close>) share in shape: so many runners draw the next index from
  one counter, work on that item, store its result at the index and draw again, until the items are
  used up.  Between two awaits a runner is not interrupted, so drawing is one action; the promises of the
  items in flight are fulfilled by the environment in any order.
\<close>

section \<open>The pool and its steps\<close>

datatype pool_event = Item_started nat | Item_settled nat

record 'r pool =
  pl_next :: nat
  pl_results :: "nat \<Rightarrow> 'r option"
  pl_running :: "nat list"
  pl_failed :: bool
  pl_error :: "string option"
  pl_log :: "pool_event list"

definition pool_start :: "'r pool" where
  "pool_start = \<lparr>pl_next = 0, pl_results = (\<lambda>_. None), pl_running = [], pl_failed = False, pl_error = None, pl_log = []\<rparr>"

text \<open>
  A runner draws: \<open>skip\<close> says what is stored for an item that is passed over because another has failed.
\<close>

function draw :: "nat \<Rightarrow> (nat \<Rightarrow> 'r option) \<Rightarrow> 'r pool \<Rightarrow> 'r pool" where
  "draw n skip s =
     (if n \<le> pl_next s then s
      else
        let index = pl_next s; s' = s\<lparr>pl_next := index + 1\<rparr> in
        case (if pl_failed s then skip index else None) of
          Some r \<Rightarrow> draw n skip (s'\<lparr>pl_results := (pl_results s)(index := Some r)\<rparr>)
        | None \<Rightarrow> s'\<lparr>pl_running := pl_running s @ [index], pl_log := pl_log s @ [Item_started index]\<rparr>)"
  by pat_completeness auto

termination draw
  by (relation "measure (\<lambda>(n, skip, s). n - pl_next s)") auto

declare draw.simps [simp del]

text \<open>The runners start one after the other; each runs up to its first await.\<close>

definition pool_begin :: "nat \<Rightarrow> nat \<Rightarrow> (nat \<Rightarrow> 'r option) \<Rightarrow> 'r pool" where
  "pool_begin runners n skip = (draw n skip ^^ min runners n) pool_start"

text \<open>An item settles: its runner stores the result and draws again, or stops with the error.\<close>

definition settle_item :: "nat \<Rightarrow> (nat \<Rightarrow> 'r option) \<Rightarrow> ('r \<Rightarrow> bool) \<Rightarrow> nat \<Rightarrow> 'r \<Rightarrow> 'r pool \<Rightarrow> 'r pool" where
  "settle_item n skip bad i r s =
     draw n skip (s\<lparr>pl_results := (pl_results s)(i := Some r), pl_running := remove1 i (pl_running s),
       pl_failed := pl_failed s \<or> bad r, pl_log := pl_log s @ [Item_settled i]\<rparr>)"

definition reject_item :: "nat \<Rightarrow> string \<Rightarrow> 'r pool \<Rightarrow> 'r pool" where
  "reject_item i e s = s\<lparr>pl_running := remove1 i (pl_running s),
     pl_error := (case pl_error s of None \<Rightarrow> Some e | Some e' \<Rightarrow> Some e'), pl_log := pl_log s @ [Item_settled i]\<rparr>"

inductive pool_reach ::
    "nat \<Rightarrow> nat \<Rightarrow> (nat \<Rightarrow> 'r option) \<Rightarrow> ('r \<Rightarrow> bool) \<Rightarrow> (nat \<Rightarrow> string + 'r) \<Rightarrow> nat \<Rightarrow> 'r pool \<Rightarrow> bool"
  for runners n skip bad work where
  pool_begins: "pool_reach runners n skip bad work 0 (pool_begin runners n skip)"
| item_fulfilled: "pool_reach runners n skip bad work k s \<Longrightarrow> i \<in> set (pl_running s) \<Longrightarrow> work i = Inr r \<Longrightarrow>
    pool_reach runners n skip bad work (Suc k) (settle_item n skip bad i r s)"
| item_rejected: "pool_reach runners n skip bad work k s \<Longrightarrow> i \<in> set (pl_running s) \<Longrightarrow> work i = Inl e \<Longrightarrow>
    pool_reach runners n skip bad work (Suc k) (reject_item i e s)"

inductive_cases pool_reachE: "pool_reach runners n skip bad work k s"

section \<open>What every state of a pool satisfies\<close>

definition failure_in :: "(nat \<Rightarrow> string + 'r) \<Rightarrow> ('r \<Rightarrow> bool) \<Rightarrow> pool_event list \<Rightarrow> bool" where
  "failure_in work bad es \<longleftrightarrow> (\<exists>i r. Item_settled i \<in> set es \<and> work i = Inr r \<and> bad r)"

text \<open>No item that could be passed over is started once a failure has been seen.\<close>

definition starts_before_failure ::
    "(nat \<Rightarrow> 'r option) \<Rightarrow> (nat \<Rightarrow> string + 'r) \<Rightarrow> ('r \<Rightarrow> bool) \<Rightarrow> pool_event list \<Rightarrow> bool" where
  "starts_before_failure skip work bad es \<longleftrightarrow>
     (\<forall>k < length es. \<forall>j. es ! k = Item_started j \<longrightarrow> skip j = None \<or> \<not> failure_in work bad (take k es))"

lemma starts_before_failure_settled [simp]:
  "starts_before_failure skip work bad (es @ [Item_settled i]) = starts_before_failure skip work bad es"
  by (auto simp: starts_before_failure_def nth_append less_Suc_eq)

lemma starts_before_failure_started [simp]:
  "starts_before_failure skip work bad (es @ [Item_started j]) \<longleftrightarrow>
     starts_before_failure skip work bad es \<and> (skip j = None \<or> \<not> failure_in work bad es)"
  by (auto simp: starts_before_failure_def nth_append less_Suc_eq)

lemma starts_before_failure_Nil [simp]: "starts_before_failure skip work bad []"
  and failure_in_Nil [simp]: "\<not> failure_in work bad []"
  by (simp_all add: starts_before_failure_def failure_in_def)

lemma failure_in_started [simp]: "failure_in work bad (es @ [Item_started i]) = failure_in work bad es"
  by (simp add: failure_in_def)

lemma failure_in_settled:
  "failure_in work bad (es @ [Item_settled i]) \<longleftrightarrow> failure_in work bad es \<or> (\<exists>r. work i = Inr r \<and> bad r)"
  by (auto simp: failure_in_def)

text \<open>Where an item stands: in flight, settled, passed over, or not drawn yet.\<close>

fun settled_as :: "string + 'r \<Rightarrow> 'r option \<Rightarrow> string option \<Rightarrow> bool" where
  "settled_as (Inr r) result error = (result = Some r)"
| "settled_as (Inl e) result error = (result = None \<and> error \<noteq> None)"

definition item_ok ::
    "(nat \<Rightarrow> 'r option) \<Rightarrow> (nat \<Rightarrow> string + 'r) \<Rightarrow> 'r pool \<Rightarrow> nat \<Rightarrow> bool" where
  "item_ok skip work s i \<longleftrightarrow>
     (if i \<in> set (pl_running s)
      then i < pl_next s \<and> Item_started i \<in> set (pl_log s) \<and> Item_settled i \<notin> set (pl_log s) \<and> pl_results s i = None
      else if Item_settled i \<in> set (pl_log s)
      then i < pl_next s \<and> Item_started i \<in> set (pl_log s)
        \<and> settled_as (work i) (pl_results s i) (pl_error s)
      else Item_started i \<notin> set (pl_log s)
        \<and> (if i < pl_next s then pl_failed s \<and> skip i \<noteq> None \<and> pl_results s i = skip i else pl_results s i = None))"

definition pool_core ::
    "nat \<Rightarrow> (nat \<Rightarrow> 'r option) \<Rightarrow> ('r \<Rightarrow> bool) \<Rightarrow> (nat \<Rightarrow> string + 'r) \<Rightarrow> 'r pool \<Rightarrow> bool" where
  "pool_core n skip bad work s \<longleftrightarrow>
     pl_next s \<le> n \<and> distinct (pl_running s) \<and> distinct (pl_log s) \<and> (\<forall>i. item_ok skip work s i)
     \<and> pl_failed s = failure_in work bad (pl_log s) \<and> starts_before_failure skip work bad (pl_log s)"

lemma pool_core_start: "pool_core n skip bad work pool_start"
  by (simp add: pool_core_def item_ok_def pool_start_def)

lemma pool_coreD:
  assumes "pool_core n skip bad work s"
  shows "pl_next s \<le> n" and "distinct (pl_running s)" and "distinct (pl_log s)" and "item_ok skip work s i"
    and "pl_failed s = failure_in work bad (pl_log s)" and "starts_before_failure skip work bad (pl_log s)"
  using assms by (simp_all add: pool_core_def)

lemma item_undrawn:
  assumes "item_ok skip work s i" and "\<not> i < pl_next s"
  shows "i \<notin> set (pl_running s) \<and> Item_started i \<notin> set (pl_log s) \<and> Item_settled i \<notin> set (pl_log s) \<and> pl_results s i = None"
  using assms by (auto simp: item_ok_def split: if_splits)

lemma pool_core_skip:
  assumes core: "pool_core n skip bad work s" and "pl_next s < n" and "pl_failed s" and "skip (pl_next s) = Some r"
  shows "pool_core n skip bad work
    (s\<lparr>pl_next := pl_next s + 1, pl_results := (pl_results s)(pl_next s := Some r)\<rparr>)"
proof -
  have "item_ok skip work (s\<lparr>pl_next := pl_next s + 1, pl_results := (pl_results s)(pl_next s := Some r)\<rparr>) i" for i
  proof (cases "i = pl_next s")
    case True
    with item_undrawn [OF pool_coreD(4) [OF core, of "pl_next s"] less_irrefl] assms(3,4) show ?thesis
      by (simp add: item_ok_def)
  next
    case False
    with pool_coreD(4) [OF core, of i] show ?thesis by (simp add: item_ok_def less_Suc_eq)
  qed
  with assms(1,2) show ?thesis by (simp add: pool_core_def)
qed

lemma pool_core_begin:
  assumes core: "pool_core n skip bad work s" and "pl_next s < n" and "pl_failed s \<Longrightarrow> skip (pl_next s) = None"
  shows "pool_core n skip bad work
    (s\<lparr>pl_next := pl_next s + 1, pl_running := pl_running s @ [pl_next s], pl_log := pl_log s @ [Item_started (pl_next s)]\<rparr>)"
proof -
  note fresh = item_undrawn [OF pool_coreD(4) [OF core, of "pl_next s"] less_irrefl]
  have "item_ok skip work (s\<lparr>pl_next := pl_next s + 1, pl_running := pl_running s @ [pl_next s],
      pl_log := pl_log s @ [Item_started (pl_next s)]\<rparr>) i" for i
    using pool_coreD(4) [OF core, of i] fresh by (cases "i = pl_next s") (simp_all add: item_ok_def less_Suc_eq)
  moreover have "skip (pl_next s) = None \<or> \<not> failure_in work bad (pl_log s)"
    using assms(3) pool_coreD(5) [OF core] by blast
  ultimately show ?thesis using core assms(2) fresh by (simp add: pool_core_def)
qed

lemma pool_core_draw: "pool_core n skip bad work s \<Longrightarrow> pool_core n skip bad work (draw n skip s)"
proof (induction n skip s rule: draw.induct)
  case (1 n skip s)
  show ?case
  proof (cases "n \<le> pl_next s")
    case True
    then show ?thesis using 1(2) by (subst draw.simps) simp
  next
    case False
    show ?thesis
    proof (cases "if pl_failed s then skip (pl_next s) else None")
      case None
      have "draw n skip s = s\<lparr>pl_next := pl_next s + 1, pl_running := pl_running s @ [pl_next s],
          pl_log := pl_log s @ [Item_started (pl_next s)]\<rparr>"
        using False None by (subst draw.simps) (simp add: Let_def)
      moreover have "pl_failed s \<Longrightarrow> skip (pl_next s) = None" using None by simp
      ultimately show ?thesis using pool_core_begin [OF 1(2)] False by simp
    next
      case (Some r)
      let ?s = "s\<lparr>pl_next := pl_next s + 1, pl_results := (pl_results s)(pl_next s := Some r)\<rparr>"
      have "draw n skip s = draw n skip ?s"
        using False Some by (subst draw.simps) (simp add: Let_def)
      moreover have "pool_core n skip bad work ?s"
        by (rule pool_core_skip [OF 1(2)]) (use False Some in \<open>auto split: if_splits\<close>)
      ultimately show ?thesis using 1(1) [OF False refl refl Some] by simp
    qed
  qed
qed

lemma settled_as_error: "settled_as w result error \<Longrightarrow> error = None \<or> error' \<noteq> None \<Longrightarrow> settled_as w result error'"
  by (cases w) auto

lemma pool_core_settle:
  assumes core: "pool_core n skip bad work s" and running: "i \<in> set (pl_running s)" and work: "work i = Inr r"
  shows "pool_core n skip bad work (s\<lparr>pl_results := (pl_results s)(i := Some r), pl_running := remove1 i (pl_running s),
       pl_failed := pl_failed s \<or> bad r, pl_log := pl_log s @ [Item_settled i]\<rparr>)" (is "pool_core n skip bad work ?t")
proof -
  have "item_ok skip work ?t j" for j
    using pool_coreD(2) [OF core] pool_coreD(4) [OF core, of j] running work by (cases "j = i") (simp_all add: item_ok_def)
  moreover have "Item_settled i \<notin> set (pl_log s)"
    using pool_coreD(4) [OF core, of i] running by (simp add: item_ok_def)
  ultimately show ?thesis using core work by (auto simp: pool_core_def failure_in_settled)
qed

lemma pool_core_reject:
  assumes core: "pool_core n skip bad work s" and running: "i \<in> set (pl_running s)" and work: "work i = Inl e"
  shows "pool_core n skip bad work (reject_item i e s)"
proof -
  have error: "pl_error (reject_item i e s) \<noteq> None" by (simp add: reject_item_def split: option.split)
  have "item_ok skip work (reject_item i e s) j" for j
    using pool_coreD(2) [OF core] pool_coreD(4) [OF core, of j] running work error
      settled_as_error [of "work j" "pl_results s j" "pl_error s" "pl_error (reject_item i e s)"]
    by (cases "j = i") (simp_all add: item_ok_def reject_item_def)
  moreover have "Item_settled i \<notin> set (pl_log s)"
    using pool_coreD(4) [OF core, of i] running by (simp add: item_ok_def)
  ultimately show ?thesis using core work by (simp add: pool_core_def failure_in_settled reject_item_def)
qed

text \<open>Drawing takes at most one item into flight, and takes one as long as there are any.\<close>

lemma draw_flight:
  "length (pl_running s) \<le> length (pl_running (draw n skip s)) \<and> length (pl_running (draw n skip s)) \<le> length (pl_running s) + 1
   \<and> (length (pl_running (draw n skip s)) = length (pl_running s) + 1 \<or> n \<le> pl_next (draw n skip s))
   \<and> pl_next s \<le> pl_next (draw n skip s) \<and> pl_error (draw n skip s) = pl_error s"
proof (induction n skip s rule: draw.induct)
  case (1 n skip s)
  show ?case
  proof (cases "n \<le> pl_next s")
    case True
    then show ?thesis by (subst (1 2 3 4 5 6) draw.simps) simp
  next
    case False
    show ?thesis
    proof (cases "if pl_failed s then skip (pl_next s) else None")
      case None
      have "draw n skip s = s\<lparr>pl_next := pl_next s + 1, pl_running := pl_running s @ [pl_next s],
          pl_log := pl_log s @ [Item_started (pl_next s)]\<rparr>"
        using False None by (subst draw.simps) (simp add: Let_def)
      then show ?thesis by simp
    next
      case (Some r)
      have "draw n skip s = draw n skip (s\<lparr>pl_next := pl_next s + 1, pl_results := (pl_results s)(pl_next s := Some r)\<rparr>)"
        using False Some by (subst draw.simps) (simp add: Let_def)
      then show ?thesis using 1 [OF False refl refl Some] by simp
    qed
  qed
qed

section \<open>Reachable pools\<close>

definition pool_ok ::
    "nat \<Rightarrow> nat \<Rightarrow> (nat \<Rightarrow> 'r option) \<Rightarrow> ('r \<Rightarrow> bool) \<Rightarrow> (nat \<Rightarrow> string + 'r) \<Rightarrow> 'r pool \<Rightarrow> bool" where
  "pool_ok runners n skip bad work s \<longleftrightarrow> pool_core n skip bad work s \<and> length (pl_running s) \<le> min runners n
     \<and> (pl_error s = None \<longrightarrow> length (pl_running s) = min runners n \<or> pl_next s = n)"

lemma pool_ok_begin: "pool_ok runners n skip bad work (pool_begin runners n skip)"
proof -
  have "pool_core n skip bad work ((draw n skip ^^ k) pool_start)
      \<and> length (pl_running ((draw n skip ^^ k) pool_start)) \<le> k
      \<and> (length (pl_running ((draw n skip ^^ k) pool_start)) = k \<or> n \<le> pl_next ((draw n skip ^^ k) pool_start))" for k
  proof (induction k)
    case 0
    show ?case using pool_core_start by (simp add: pool_start_def)
  next
    case (Suc k)
    let ?s = "(draw n skip ^^ k) pool_start"
    show ?case using Suc pool_core_draw [of n skip bad work ?s] draw_flight [of ?s n skip] by auto
  qed
  from this [of "min runners n"] show ?thesis
    using pool_coreD(1) unfolding pool_ok_def pool_begin_def by fastforce
qed

lemma length_flight:
  "i \<in> set (pl_running s) \<Longrightarrow> length (remove1 i (pl_running s)) + 1 = length (pl_running s)"
  using length_pos_if_in_set [of i "pl_running s"] by (simp add: length_remove1)

lemma pool_ok_settle:
  assumes ok: "pool_ok runners n skip bad work s" and running: "i \<in> set (pl_running s)" and work: "work i = Inr r"
  shows "pool_ok runners n skip bad work (settle_item n skip bad i r s)"
proof -
  let ?t = "s\<lparr>pl_results := (pl_results s)(i := Some r), pl_running := remove1 i (pl_running s),
       pl_failed := pl_failed s \<or> bad r, pl_log := pl_log s @ [Item_settled i]\<rparr>"
  have "pool_core n skip bad work (draw n skip ?t)"
    using ok pool_core_settle [where s = s and n = n and skip = skip and bad = bad and work = work, OF _ running work]
      pool_core_draw by (auto simp: pool_ok_def)
  then show ?thesis
    using ok draw_flight [of ?t n skip] length_flight [OF running] pool_coreD(1)
    unfolding pool_ok_def settle_item_def by fastforce
qed

lemma pool_ok_reject:
  assumes ok: "pool_ok runners n skip bad work s" and running: "i \<in> set (pl_running s)" and work: "work i = Inl e"
  shows "pool_ok runners n skip bad work (reject_item i e s)"
  using pool_core_reject [where s = s and n = n and skip = skip and bad = bad and work = work, OF _ running work] length_flight [OF running] ok
  by (auto simp: pool_ok_def reject_item_def split: option.splits)

lemma pool_reach_ok: "pool_reach runners n skip bad work k s \<Longrightarrow> pool_ok runners n skip bad work s"
  by (induction rule: pool_reach.induct) (auto intro: pool_ok_begin pool_ok_settle pool_ok_reject)

section \<open>How a pool ends\<close>

fun settled_items :: "pool_event list \<Rightarrow> nat list" where
  "settled_items [] = []"
| "settled_items (Item_settled i # es) = i # settled_items es"
| "settled_items (Item_started i # es) = settled_items es"

lemma settled_items_append [simp]: "settled_items (es @ es') = settled_items es @ settled_items es'"
  by (induction es rule: settled_items.induct) auto

lemma set_settled_items [simp]: "i \<in> set (settled_items es) \<longleftrightarrow> Item_settled i \<in> set es"
  by (induction es rule: settled_items.induct) auto

lemma distinct_settled_items: "distinct es \<Longrightarrow> distinct (settled_items es)"
  by (induction es rule: settled_items.induct) auto

lemma draw_settled [simp]: "settled_items (pl_log (draw n skip s)) = settled_items (pl_log s)"
  by (induction n skip s rule: draw.induct) (subst draw.simps, auto simp: Let_def split: option.split)

lemma pool_begin_settled: "settled_items (pl_log (pool_begin runners n skip)) = []"
proof -
  have "settled_items (pl_log ((draw n skip ^^ k) pool_start)) = []" for k
    by (induction k) (simp_all add: pool_start_def)
  then show ?thesis by (simp add: pool_begin_def)
qed

lemma pool_reach_count: "pool_reach runners n skip bad work k s \<Longrightarrow> k = length (settled_items (pl_log s))"
  by (induction rule: pool_reach.induct) (simp_all add: pool_begin_settled settle_item_def reject_item_def)

text \<open>Every item settles at most once, so a pool takes at most as many steps as there are items.\<close>

lemma pool_reach_bound:
  assumes "pool_reach runners n skip bad work k s"
  shows "k \<le> n"
proof -
  have core: "pool_core n skip bad work s" using pool_reach_ok [OF assms] by (simp add: pool_ok_def)
  have "i < n" if "i \<in> set (settled_items (pl_log s))" for i
    using that pool_coreD(4) [OF core, of i] pool_coreD(1) [OF core] by (auto simp: item_ok_def split: if_splits)
  then have "set (settled_items (pl_log s)) \<subseteq> {..<n}" by auto
  from card_mono [OF _ this] show ?thesis
    using pool_reach_count [OF assms] distinct_card [OF distinct_settled_items [OF pool_coreD(3) [OF core]]] by simp
qed

lemma pool_reach_step:
  assumes "pool_reach runners n skip bad work k s" and "pl_running s \<noteq> []"
  shows "\<exists>t. pool_reach runners n skip bad work (Suc k) t"
proof -
  from assms(2) obtain i where i: "i \<in> set (pl_running s)" by (cases "pl_running s") auto
  show ?thesis
  proof (cases "work i")
    case (Inl e)
    from item_rejected [OF assms(1) i this] show ?thesis by blast
  next
    case (Inr r)
    from item_fulfilled [OF assms(1) i this] show ?thesis by blast
  qed
qed

lemma pool_ends: "\<exists>k s. pool_reach runners n skip bad work k s \<and> pl_running s = []"
proof -
  have "pool_reach runners n skip bad work k s \<Longrightarrow> \<exists>k s. pool_reach runners n skip bad work k s \<and> pl_running s = []" for k s
  proof (induction "n - k" arbitrary: k s rule: less_induct)
    case less
    show ?case
    proof (cases "pl_running s = []")
      case False
      from pool_reach_step [OF less(2) this] obtain t where t: "pool_reach runners n skip bad work (Suc k) t" ..
      with pool_reach_bound [OF t] show ?thesis by (intro less(1) [OF _ t]) simp
    qed (use less in blast)
  qed
  with pool_begins show ?thesis by blast
qed

text \<open>When no promise is left and none was rejected, every item has its result at its index.\<close>

lemma pool_complete:
  assumes "pool_reach runners n skip bad work k s" and "pl_running s = []" and "pl_error s = None" and "0 < runners"
    and "i < n"
  shows "if Item_settled i \<in> set (pl_log s) then (case work i of Inr r \<Rightarrow> pl_results s i = Some r | Inl e \<Rightarrow> False)
    else pl_failed s \<and> skip i \<noteq> None \<and> pl_results s i = skip i"
proof -
  have ok: "pool_ok runners n skip bad work s" by (rule pool_reach_ok [OF assms(1)])
  with assms(2-5) have "pl_next s = n" by (auto simp: pool_ok_def)
  with pool_coreD(4) [of n skip bad work s i] ok assms(2,3,5) show ?thesis
    by (auto simp: pool_ok_def item_ok_def split: if_splits sum.split)
qed

text \<open>While some promise is in flight there are at most as many as runners, each item once.\<close>

lemma pool_flight:
  assumes "pool_reach runners n skip bad work k s"
  shows "length (pl_running s) \<le> min runners n \<and> distinct (pl_log s)
    \<and> starts_before_failure skip work bad (pl_log s)"
  using pool_reach_ok [OF assms] by (auto simp: pool_ok_def dest: pool_coreD)

text \<open>Every prefix of the events leaves at most so many items in flight.\<close>

definition in_flight :: "pool_event list \<Rightarrow> nat set" where
  "in_flight es = {i. Item_started i \<in> set es \<and> Item_settled i \<notin> set es}"

definition flight_bounded :: "nat \<Rightarrow> pool_event list \<Rightarrow> bool" where
  "flight_bounded m es \<longleftrightarrow> (\<forall>k. card (in_flight (take k es)) \<le> m)"

lemma flight_bounded_snoc:
  "flight_bounded m (es @ [e]) \<longleftrightarrow> flight_bounded m es \<and> card (in_flight (es @ [e])) \<le> m"
proof
  assume a: "flight_bounded m (es @ [e])"
  have "take k es = take (min k (length es)) (es @ [e])" for k by (simp add: min_def)
  with a have "flight_bounded m es" unfolding flight_bounded_def by metis
  moreover from a have "card (in_flight (es @ [e])) \<le> m" unfolding flight_bounded_def by (metis order_refl take_all)
  ultimately show "flight_bounded m es \<and> card (in_flight (es @ [e])) \<le> m" ..
next
  assume a: "flight_bounded m es \<and> card (in_flight (es @ [e])) \<le> m"
  have "take k (es @ [e]) = (if k \<le> length es then take k es else es @ [e])" for k
    by (cases "k - length es") auto
  with a show "flight_bounded m (es @ [e])" by (simp add: flight_bounded_def)
qed

lemma in_flight_core: "pool_core n skip bad work s \<Longrightarrow> in_flight (pl_log s) = set (pl_running s)"
proof (rule set_eqI)
  fix i assume "pool_core n skip bad work s"
  from pool_coreD(4) [OF this, of i] show "i \<in> in_flight (pl_log s) \<longleftrightarrow> i \<in> set (pl_running s)"
    by (simp add: in_flight_def item_ok_def split: if_splits)
qed

lemma card_flight: "pool_core n skip bad work s \<Longrightarrow> card (in_flight (pl_log s)) = length (pl_running s)"
  by (simp add: in_flight_core distinct_card pool_coreD(2))

lemma draw_log: "pl_log (draw n skip s) = pl_log s \<or> (\<exists>i. pl_log (draw n skip s) = pl_log s @ [Item_started i])"
  by (induction n skip s rule: draw.induct) (subst (1 2) draw.simps, auto simp: Let_def split: option.split)

lemma flight_bounded_draw:
  assumes "pool_core n skip bad work s" and "flight_bounded m (pl_log s)" and "length (pl_running s) < m"
  shows "flight_bounded m (pl_log (draw n skip s))"
proof -
  have "card (in_flight (pl_log (draw n skip s))) \<le> m"
    using card_flight [OF pool_core_draw [OF assms(1)]] draw_flight [of s n skip] assms(3) by simp
  with draw_log [of n skip s] assms(2) show ?thesis by (auto simp: flight_bounded_snoc)
qed

lemma flight_bounded_settled:
  assumes "flight_bounded m es"
  shows "flight_bounded m (es @ [Item_settled i])"
proof -
  have "in_flight (es @ [Item_settled i]) \<subseteq> in_flight es" by (auto simp: in_flight_def)
  moreover have "finite (in_flight es)"
    by (rule finite_subset [where B = "(\<lambda>e. case e of Item_started i \<Rightarrow> i | Item_settled i \<Rightarrow> i) ` set es"])
      (force simp: in_flight_def)+
  ultimately have "card (in_flight (es @ [Item_settled i])) \<le> card (in_flight es)" by (rule card_mono [rotated])
  moreover have "card (in_flight es) \<le> m" using assms unfolding flight_bounded_def by (metis order_refl take_all)
  ultimately show ?thesis using assms by (simp add: flight_bounded_snoc)
qed

lemma pool_begin_flight: "flight_bounded (min runners n) (pl_log (pool_begin runners n (skip :: nat \<Rightarrow> 'r option)))"
proof -
  define bad :: "'r \<Rightarrow> bool" where "bad = (\<lambda>_. False)"
  define work :: "nat \<Rightarrow> string + 'r" where "work = (\<lambda>_. Inl [])"
  have "k \<le> min runners n \<Longrightarrow> pool_core n skip bad work ((draw n skip ^^ k) pool_start)
      \<and> length (pl_running ((draw n skip ^^ k) pool_start)) \<le> k
      \<and> flight_bounded (min runners n) (pl_log ((draw n skip ^^ k) pool_start))" for k
  proof (induction k)
    case 0
    show ?case using pool_core_start by (simp add: pool_start_def flight_bounded_def in_flight_def)
  next
    case (Suc k)
    let ?s = "(draw n skip ^^ k) pool_start"
    show ?case
      using Suc pool_core_draw [of n skip bad work ?s] draw_flight [of ?s n skip]
        flight_bounded_draw [of n skip bad work ?s "min runners n"] by simp
  qed
  from this [of "min runners n"] show ?thesis by (simp add: pool_begin_def)
qed

lemma pool_reach_flight:
  "pool_reach runners n skip bad work k s \<Longrightarrow> flight_bounded (min runners n) (pl_log s)"
proof (induction rule: pool_reach.induct)
  case pool_begins
  show ?case by (rule pool_begin_flight)
next
  case (item_fulfilled k s i r)
  let ?t = "s\<lparr>pl_results := (pl_results s)(i := Some r), pl_running := remove1 i (pl_running s),
       pl_failed := pl_failed s \<or> bad r, pl_log := pl_log s @ [Item_settled i]\<rparr>"
  have ok: "pool_ok runners n skip bad work s" by (rule pool_reach_ok [OF item_fulfilled(1)])
  then have "pool_core n skip bad work ?t"
    by (intro pool_core_settle) (use item_fulfilled in \<open>simp_all add: pool_ok_def\<close>)
  moreover have "length (pl_running ?t) < min runners n"
    using ok length_flight [OF item_fulfilled(2)] by (simp add: pool_ok_def)
  ultimately show ?case
    unfolding settle_item_def by (intro flight_bounded_draw) (simp_all add: flight_bounded_settled item_fulfilled.IH)
next
  case (item_rejected k s i e)
  then show ?case by (simp add: reject_item_def flight_bounded_settled)
qed

end
