(* ===== verification/Bounded_Runtime_Plan.thy ===== *)
theory Bounded_Runtime_Plan
  imports Bounded_Pool Run_Scheduler
begin

text \<open>
  \<open>packages/runtime-core/src/bounded-runtime-plan.ts\<close>: a plan of commands that share one workspace, one
  runtime and one set of services, run by a pool of bounded size; and the unordered pool
  \<open>runBoundedConcurrent\<close> and the event constructor of \<open>run-plan.ts\<close>, which complete that file.

  What an adapter answers is an argument.  The events of a run are recorded in the order in which they
  happen: the calls of the adapter and the starts and ends of the entries.
\<close>

section \<open>The pool of run plans\<close>

text \<open>\<open>Array.from({ length: n })\<close> makes so many runners.\<close>

definition runner_count :: "jsnum \<Rightarrow> nat" where
  "runner_count n = (case n of Fin q \<Rightarrow> nat \<lfloor>q\<rfloor> | _ \<Rightarrow> 0)"

definition runBoundedConcurrent_reach ::
    "'a list \<Rightarrow> jsnum \<Rightarrow> ('a \<Rightarrow> nat \<Rightarrow> string + 'r) \<Rightarrow> nat \<Rightarrow> 'r pool \<Rightarrow> bool" where
  "runBoundedConcurrent_reach items concurrency worker =
     pool_reach (runner_count (effective_concurrency concurrency items)) (length items) (\<lambda>_. None) (\<lambda>_. False)
       (\<lambda>i. worker (items ! i) i)"

text \<open>\<open>Promise.all(runners)\<close>: the first error of a runner, or the results once every runner has returned.\<close>

definition pool_outcome :: "nat \<Rightarrow> 'r pool \<Rightarrow> (string + 'r list) option" where
  "pool_outcome n s = (case pl_error s of
      Some e \<Rightarrow> Some (Inl e)
    | None \<Rightarrow> if pl_running s = [] then Some (Inr (map (the \<circ> pl_results s) [0..<n])) else None)"

text \<open>\<open>{ schema, time: event.time ?? clock, ...event }\<close>\<close>

definition createRunPlanEvent :: "string \<Rightarrow> js_object \<Rightarrow> string \<Rightarrow> js_object" where
  "createRunPlanEvent schema event clock =
     js_spread [(''schema'', JStr schema), (''time'', coalesce (js_get event ''time'') (JStr clock))] event"

lemma concurrency_number:
  assumes "normalizeRunPlanConcurrency value fallback maximum mode = Inr n"
  shows "n \<noteq> NaN"
proof -
  define r where "r = js_floor (js_num_or (js_number value) (at_least_one fallback (Fin 1)))"
  have "r \<noteq> NaN" using js_floor_or_nan at_least_one_ne [of "Fin 1" fallback] by (simp add: r_def)
  moreover have "max_concurrency_of maximum \<noteq> NaN"
    using at_least_one_ne [of "NInt max_safe_integer" maximum] by (simp add: max_concurrency_of_def)
  moreover have "n = js_max (Fin 1) (js_min (max_concurrency_of maximum) r)"
    using assms by (auto simp: normalizeRunPlanConcurrency_def Let_def r_def split: if_splits)
  ultimately show ?thesis by (auto simp: js_max_def js_min_def)
qed

text \<open>With a maximum that is a positive integer the concurrency is a number between one and it.\<close>

lemma concurrency_within:
  assumes "normalizeRunPlanConcurrency value fallback (JInt (int m)) mode = Inr n" and "0 < m"
  obtains q where "n = Fin q" and "1 \<le> q" and "q \<le> of_nat m"
proof -
  have "max_concurrency_of (JInt (int m)) = Fin (of_nat m)"
    using assms(2) by (simp add: max_concurrency_of_def at_least_one_def js_num_or_def js_max_def)
  with concurrency_bounds [OF assms(1)] have "\<not> js_less n (Fin 1)" "\<not> js_less (Fin (of_nat m)) n" by auto
  with concurrency_number [OF assms(1)] that show thesis by (cases n) auto
qed

lemma runner_count_pos:
  "0 < runner_count (effective_concurrency concurrency items)"
proof (cases "normalizeRunPlanConcurrency (JNum concurrency) JUndef (JInt (max 1 (int (length items)))) None")
  case (Inl e)
  then show ?thesis by (simp add: effective_concurrency_def runner_count_def)
next
  case (Inr n)
  have "max 1 (int (length items)) = int (max 1 (length items))" by simp
  with Inr have "normalizeRunPlanConcurrency (JNum concurrency) JUndef (JInt (int (max 1 (length items)))) None = Inr n" by metis
  then obtain q where "n = Fin q" "1 \<le> q" by (rule concurrency_within) simp
  with Inr show ?thesis by (simp add: effective_concurrency_def runner_count_def)
qed

text \<open>The results stand in the order of the items, whatever the order in which their workers finish.\<close>

lemma runBoundedConcurrent_results:
  assumes reach: "runBoundedConcurrent_reach items concurrency worker k s"
    and outcome: "pool_outcome (length items) s = Some (Inr rs)"
  shows "map Inr rs = map (\<lambda>i. worker (items ! i) i) [0..<length items]"
proof -
  have ended: "pl_running s = []" "pl_error s = None" "rs = map (the \<circ> pl_results s) [0..<length items]"
    using outcome by (auto simp: pool_outcome_def split: option.splits if_splits)
  have "worker (items ! i) i = Inr (the (pl_results s i))" if "i < length items" for i
    using pool_complete [OF reach [unfolded runBoundedConcurrent_reach_def] ended(1,2) runner_count_pos that]
    by (auto split: if_splits sum.splits)
  then show ?thesis by (simp add: ended(3))
qed

section \<open>Plans and their validation\<close>

text \<open>
  An entry as it is given: what the validation tests at run time is a \<open>jsval\<close>.  That \<open>entries\<close> is an
  array is left to the type.
\<close>

record bounded_entry =
  be_id :: jsval
  be_argv :: jsval
  be_environment :: jsval
  be_timeoutMs :: jsval
  be_processIdentity :: jsval
  be_artifactNamespace :: jsval
  be_inputIndex :: jsval

record bounded_plan =
  bp_schema :: jsval
  bp_concurrency :: jsval
  bp_failFast :: jsval
  bp_entries :: "bounded_entry list"

definition bounded_plan_schema :: string where
  "bounded_plan_schema = ''wp-codebox/bounded-runtime-plan/v1''"

definition safeIdentifier :: "jsval \<Rightarrow> bool" where
  "safeIdentifier v = (case v of JStr s \<Rightarrow> safe_segment s | _ \<Rightarrow> False)"

text \<open>\<open>value || "<empty>"\<close> in a template string.\<close>

definition shown :: "jsval \<Rightarrow> string" where
  "shown v = (if js_truthy v then js_string v else ''<empty>'')"

definition argv_strings :: "jsval \<Rightarrow> bool" where
  "argv_strings v = (case v of JArr vs \<Rightarrow> list_all (\<lambda>x. case x of JStr _ \<Rightarrow> True | _ \<Rightarrow> False) vs | _ \<Rightarrow> False)"

definition input_index :: "jsval \<Rightarrow> bool" where
  "input_index v = (case v of JNum (Fin q) \<Rightarrow> of_int \<lfloor>q\<rfloor> = q \<and> 0 \<le> q | _ \<Rightarrow> False)"

definition positive_timeout :: "jsval \<Rightarrow> bool" where
  "positive_timeout v = (v = JUndef \<or> (case v of JNum (Fin q) \<Rightarrow> 0 < q | _ \<Rightarrow> False))"

text \<open>\<open>Object.entries\<close>\<close>

definition js_entries :: "jsval \<Rightarrow> js_object" where
  "js_entries v = (case v of
      JObj obj \<Rightarrow> obj
    | JArr vs \<Rightarrow> zip (map string_of_nat [0..<length vs]) vs
    | JStr s \<Rightarrow> zip (map string_of_nat [0..<length s]) (map (\<lambda>c. JStr [c]) s)
    | _ \<Rightarrow> [])"

definition environment_name :: "string \<Rightarrow> bool" where
  "environment_name s \<longleftrightarrow> s \<noteq> [] \<and> (is_lower (hd s) \<or> is_upper (hd s) \<or> hd s = CHR ''_'')
     \<and> list_all (\<lambda>c. is_alnum c \<or> c = CHR ''_'') (tl s)"

definition environment_ok :: "jsval \<Rightarrow> bool" where
  "environment_ok v \<longleftrightarrow> js_truthy v \<longrightarrow>
     list_all (\<lambda>(name, x). environment_name name \<and> (case x of JStr _ \<Rightarrow> True | _ \<Rightarrow> False)) (js_entries v)"

definition validate_entry :: "jsval list \<Rightarrow> jsval list \<Rightarrow> bounded_entry \<Rightarrow> string + unit" where
  "validate_entry ids indexes e =
     (if \<not> safeIdentifier (be_id e) \<or> be_id e \<in> set ids
      then Inl (''Bounded runtime plan entry ids must be unique safe identifiers: '' @ shown (be_id e))
      else if \<not> safeIdentifier (be_processIdentity e)
      then Inl (''Bounded runtime plan process identity must be a safe identifier: '' @ shown (be_processIdentity e))
      else case safeRunPlanNamespace (string_value (be_artifactNamespace e)) of
        Inl message \<Rightarrow> Inl message
      | Inr _ \<Rightarrow>
          if \<not> argv_strings (be_argv e)
          then Inl (''Bounded runtime plan entry argv must be a string array: '' @ js_string (be_id e))
          else if \<not> input_index (be_inputIndex e) \<or> be_inputIndex e \<in> set indexes
          then Inl (''Bounded runtime plan input indexes must be unique non-negative integers: '' @ js_string (be_id e))
          else if \<not> positive_timeout (be_timeoutMs e)
          then Inl (''Bounded runtime plan timeout must be positive: '' @ js_string (be_id e))
          else if \<not> environment_ok (be_environment e)
          then Inl (''Bounded runtime plan environment must contain string environment overrides: '' @ js_string (be_id e))
          else Inr ())"

fun validate_entries :: "jsval list \<Rightarrow> jsval list \<Rightarrow> bounded_entry list \<Rightarrow> string + unit" where
  "validate_entries ids indexes [] = Inr ()"
| "validate_entries ids indexes (e # es) =
     (case validate_entry ids indexes e of
        Inl message \<Rightarrow> Inl message
      | Inr _ \<Rightarrow> validate_entries (be_id e # ids) (be_inputIndex e # indexes) es)"

definition bounded_concurrency :: "bounded_plan \<Rightarrow> string + jsnum" where
  "bounded_concurrency plan = normalizeRunPlanConcurrency (bp_concurrency plan) JUndef
     (JInt (int (length (bp_entries plan)))) (Some Validate)"

definition validateBoundedRuntimePlan :: "bounded_plan \<Rightarrow> string + unit" where
  "validateBoundedRuntimePlan plan =
     (if bp_schema plan \<noteq> JStr bounded_plan_schema
      then Inl (''Bounded runtime plan schema must be '' @ bounded_plan_schema @ ''.'')
      else if bp_entries plan = [] then Inl ''Bounded runtime plan requires at least one entry.''
      else case bounded_concurrency plan of
        Inl message \<Rightarrow> Inl message
      | Inr _ \<Rightarrow> validate_entries [] [] (bp_entries plan))"

section \<open>One entry\<close>

datatype bounded_status = Entry_succeeded | Entry_failed | Entry_timed_out | Entry_cancelled

record execution_answer =
  ea_success :: bool
  ea_exitCode :: "int option"
  ea_message :: "string option"
  ea_stdoutRef :: "string option"
  ea_stderrRef :: "string option"
  ea_resultRef :: "string option"
  ea_artifactRefs :: "string list option"

text \<open>
  What becomes of the call of the adapter: it answers, or throws an \<open>Error\<close> with a message or something
  else; whether the timer of the entry fires first, in which case the answer is awaited and dropped; and
  the time that \<open>Date.now\<close> measures.
\<close>

datatype execution_end = Execution_answers execution_answer | Execution_throws "string option"

record entry_execution =
  ex_end :: execution_end
  ex_late :: bool
  ex_durationMs :: int

record entry_result =
  er_id :: jsval
  er_inputIndex :: jsval
  er_processIdentity :: jsval
  er_artifactNamespace :: jsval
  er_status :: bounded_status
  er_success :: bool
  er_durationMs :: int
  er_exitCode :: "int option"
  er_stdoutRef :: "string option"
  er_stderrRef :: "string option"
  er_resultRef :: "string option"
  er_artifactRefs :: "string list option"
  er_error :: "(string \<times> string) option"

text \<open>\<open>text.split(value).join(by)\<close> for a value that is not empty.\<close>

function replace_all :: "string \<Rightarrow> string \<Rightarrow> string \<Rightarrow> string" where
  "replace_all value by text =
     (if text = [] \<or> value = [] then text
      else if starts_with value text then by @ replace_all value by (drop (length value) text)
      else hd text # replace_all value by (tl text))"
  by pat_completeness auto

termination replace_all
  by (relation "measure (\<lambda>(value, by, text). length text)") auto

declare replace_all.simps [simp del]

definition redactEntryMessage :: "string \<Rightarrow> bounded_entry \<Rightarrow> string" where
  "redactEntryMessage message e =
     foldl (\<lambda>redacted (name, v). case v of JStr value \<Rightarrow> if value = [] then redacted else replace_all value ''[redacted]'' redacted
                                  | _ \<Rightarrow> redacted)
       message (js_entries (be_environment e))"

definition baseResult :: "bounded_entry \<Rightarrow> bounded_status \<Rightarrow> bool \<Rightarrow> int \<Rightarrow> int option \<Rightarrow> entry_result" where
  "baseResult e status success duration exitCode =
     \<lparr>er_id = be_id e, er_inputIndex = be_inputIndex e, er_processIdentity = be_processIdentity e,
      er_artifactNamespace = be_artifactNamespace e, er_status = status, er_success = success, er_durationMs = duration,
      er_exitCode = exitCode, er_stdoutRef = None, er_stderrRef = None, er_resultRef = None, er_artifactRefs = None,
      er_error = None\<rparr>"

definition cancelledResult :: "bounded_entry \<Rightarrow> entry_result" where
  "cancelledResult e = (baseResult e Entry_cancelled False 0 None)
     \<lparr>er_error := Some (''fail-fast'', ''Execution was not started after an earlier failure: '' @ js_string (be_id e))\<rparr>"

definition kept_ref :: "string option \<Rightarrow> string option" where
  "kept_ref ref = (case ref of Some s \<Rightarrow> non_empty s | None \<Rightarrow> None)"

definition executionReferences :: "execution_answer \<Rightarrow> entry_result \<Rightarrow> entry_result" where
  "executionReferences a r = r\<lparr>er_stdoutRef := kept_ref (ea_stdoutRef a), er_stderrRef := kept_ref (ea_stderrRef a),
     er_resultRef := kept_ref (ea_resultRef a),
     er_artifactRefs := (case ea_artifactRefs a of Some (x # xs) \<Rightarrow> Some (x # xs) | _ \<Rightarrow> None)\<rparr>"

definition executeEntry :: "bounded_entry \<Rightarrow> entry_execution \<Rightarrow> entry_result" where
  "executeEntry e x =
     (if be_timeoutMs e \<noteq> JUndef \<and> ex_late x
      then (baseResult e Entry_timed_out False (ex_durationMs x) None)
             \<lparr>er_error := Some (''timed-out'', ''Execution timed out: '' @ js_string (be_id e))\<rparr>
      else case ex_end x of
        Execution_answers a \<Rightarrow>
          if ea_success a
          then executionReferences a (baseResult e Entry_succeeded True (ex_durationMs x) (ea_exitCode a))
          else (executionReferences a (baseResult e Entry_failed False (ex_durationMs x) (ea_exitCode a)))
                 \<lparr>er_error := Some (''execution-failed'',
                    redactEntryMessage (case ea_message a of Some m \<Rightarrow> if m = [] then ''Execution failed: '' @ js_string (be_id e) else m
                                        | None \<Rightarrow> ''Execution failed: '' @ js_string (be_id e)) e)\<rparr>
      | Execution_throws message \<Rightarrow>
          (baseResult e Entry_failed False (ex_durationMs x) None)
            \<lparr>er_error := Some (''execution-threw'',
               redactEntryMessage (case message of Some m \<Rightarrow> m | None \<Rightarrow> ''Execution threw: '' @ js_string (be_id e)) e)\<rparr>)"

section \<open>The whole plan\<close>

record bounded_counts =
  bc_total :: int
  bc_succeeded :: int
  bc_failed :: int
  bc_timedOut :: int
  bc_cancelled :: int

record bounded_result =
  br_success :: bool
  br_concurrency :: jsnum
  br_counts :: bounded_counts
  br_entries :: "entry_result list"

definition boundedRuntimePlanCounts :: "entry_result list \<Rightarrow> bounded_counts" where
  "boundedRuntimePlanCounts es =
     \<lparr>bc_total = int (length es), bc_succeeded = count_where (\<lambda>r. er_status r = Entry_succeeded) es,
      bc_failed = count_where (\<lambda>r. er_status r = Entry_failed) es,
      bc_timedOut = count_where (\<lambda>r. er_status r = Entry_timed_out) es,
      bc_cancelled = count_where (\<lambda>r. er_status r = Entry_cancelled) es\<rparr>"

record ('m, 's) plan_adapter =
  pa_materialize :: "string + 'm"
  pa_startServices :: "'m \<Rightarrow> string + 's"
  pa_execute :: "'m \<Rightarrow> 's \<Rightarrow> bounded_entry \<Rightarrow> entry_execution"
  pa_stopServices :: "'m \<Rightarrow> 's \<Rightarrow> string option"
  pa_dispose :: "'m \<Rightarrow> string option"

datatype lifecycle_event = Materialize | Start_services | Entry_event pool_event | Stop_services | Dispose

text \<open>An entry that is drawn after a failure of a fail-fast plan is cancelled without being started.\<close>

definition fail_fast_skip :: "bounded_plan \<Rightarrow> nat \<Rightarrow> entry_result option" where
  "fail_fast_skip plan i = (if js_truthy (bp_failFast plan) then Some (cancelledResult (bp_entries plan ! i)) else None)"

definition executeEntries_reach ::
    "bounded_plan \<Rightarrow> jsnum \<Rightarrow> (bounded_entry \<Rightarrow> entry_execution) \<Rightarrow> nat \<Rightarrow> entry_result pool \<Rightarrow> bool" where
  "executeEntries_reach plan concurrency run =
     pool_reach (runner_count concurrency) (length (bp_entries plan)) (fail_fast_skip plan) (\<lambda>r. \<not> er_success r)
       (\<lambda>i. Inr (executeEntry (bp_entries plan ! i) (run (bp_entries plan ! i))))"

definition bounded_result_of :: "jsnum \<Rightarrow> entry_result list \<Rightarrow> bounded_result" where
  "bounded_result_of concurrency es =
     \<lparr>br_success = list_all er_success es, br_concurrency = concurrency, br_counts = boundedRuntimePlanCounts es,
      br_entries = es\<rparr>"

text \<open>An error thrown in a \<open>finally\<close> block replaces the outcome of the block before it.\<close>

definition after_finally :: "string option \<Rightarrow> string + 'a \<Rightarrow> string + 'a" where
  "after_finally thrown outcome = (case thrown of Some e \<Rightarrow> Inl e | None \<Rightarrow> outcome)"

inductive executeBoundedRuntimePlan ::
    "bounded_plan \<Rightarrow> ('m, 's) plan_adapter \<Rightarrow> lifecycle_event list \<Rightarrow> string + bounded_result \<Rightarrow> bool"
  for plan adapter where
  plan_invalid: "validateBoundedRuntimePlan plan = Inl e \<Longrightarrow> executeBoundedRuntimePlan plan adapter [] (Inl e)"
| not_materialized: "validateBoundedRuntimePlan plan = Inr () \<Longrightarrow> pa_materialize adapter = Inl e \<Longrightarrow>
    executeBoundedRuntimePlan plan adapter [Materialize] (Inl e)"
| services_failed: "validateBoundedRuntimePlan plan = Inr () \<Longrightarrow> pa_materialize adapter = Inr m \<Longrightarrow>
    pa_startServices adapter m = Inl e \<Longrightarrow>
    executeBoundedRuntimePlan plan adapter [Materialize, Start_services, Dispose] (after_finally (pa_dispose adapter m) (Inl e))"
| entries_run: "validateBoundedRuntimePlan plan = Inr () \<Longrightarrow> pa_materialize adapter = Inr m \<Longrightarrow>
    pa_startServices adapter m = Inr sv \<Longrightarrow> bounded_concurrency plan = Inr c \<Longrightarrow>
    executeEntries_reach plan c (pa_execute adapter m sv) k s \<Longrightarrow>
    pool_outcome (length (bp_entries plan)) s = Some (Inr es) \<Longrightarrow>
    executeBoundedRuntimePlan plan adapter
      ([Materialize, Start_services] @ map Entry_event (pl_log s) @ [Stop_services, Dispose])
      (after_finally (pa_dispose adapter m) (after_finally (pa_stopServices adapter m sv)
        (Inr (bounded_result_of c es))))"

inductive_cases executeBoundedRuntimePlanE: "executeBoundedRuntimePlan plan adapter trace outcome"

definition retryBoundedRuntimePlan :: "bounded_plan \<Rightarrow> entry_result list \<Rightarrow> string + bounded_plan" where
  "retryBoundedRuntimePlan plan previous =
     (case validateBoundedRuntimePlan plan of
        Inl e \<Rightarrow> Inl e
      | Inr _ \<Rightarrow>
          let unsuccessful = map er_id (filter (\<lambda>r. \<not> er_success r) previous);
              es = filter (\<lambda>e. be_id e \<in> set unsuccessful) (bp_entries plan)
          in if es = [] then Inl ''Bounded runtime plan retry requires at least one unsuccessful prior entry.''
             else Inr (plan\<lparr>bp_concurrency := JNum (js_min (js_number (bp_concurrency plan)) (NInt (int (length es)))),
                           bp_entries := es\<rparr>))"

section \<open>What the validation accepts\<close>

definition entry_fields_ok :: "bounded_entry \<Rightarrow> bool" where
  "entry_fields_ok e \<longleftrightarrow> safeIdentifier (be_id e) \<and> safeIdentifier (be_processIdentity e)
     \<and> safeRunPlanNamespace (string_value (be_artifactNamespace e)) \<noteq> Inl (''Run plan namespace must contain safe path segments: ''
          @ or_empty (trim (string_value (be_artifactNamespace e))))
     \<and> argv_strings (be_argv e) \<and> input_index (be_inputIndex e) \<and> positive_timeout (be_timeoutMs e)
     \<and> environment_ok (be_environment e)"

lemma validate_entry_ok:
  "validate_entry ids indexes e = Inr () \<longleftrightarrow> entry_fields_ok e \<and> be_id e \<notin> set ids \<and> be_inputIndex e \<notin> set indexes"
  by (auto simp: validate_entry_def entry_fields_ok_def safeRunPlanNamespace_def Let_def)

lemma validate_entries_ok:
  "validate_entries ids indexes es = Inr () \<longleftrightarrow> (\<forall>e \<in> set es. entry_fields_ok e)
     \<and> distinct (map be_id es) \<and> be_id ` set es \<inter> set ids = {}
     \<and> distinct (map be_inputIndex es) \<and> be_inputIndex ` set es \<inter> set indexes = {}"
proof (induction es arbitrary: ids indexes)
  case (Cons e es)
  show ?case
  proof (cases "validate_entry ids indexes e")
    case (Inl message)
    then have "\<not> (entry_fields_ok e \<and> be_id e \<notin> set ids \<and> be_inputIndex e \<notin> set indexes)"
      using validate_entry_ok [of ids indexes e] by simp
    with Inl show ?thesis by auto
  next
    case (Inr u)
    then have "entry_fields_ok e \<and> be_id e \<notin> set ids \<and> be_inputIndex e \<notin> set indexes"
      using validate_entry_ok [of ids indexes e] by simp
    with Inr Cons.IH [of "be_id e # ids" "be_inputIndex e # indexes"] show ?thesis by auto
  qed
qed simp

lemma validate_plan_ok:
  "validateBoundedRuntimePlan plan = Inr () \<longleftrightarrow> bp_schema plan = JStr bounded_plan_schema \<and> bp_entries plan \<noteq> []
     \<and> (\<exists>c. bounded_concurrency plan = Inr c) \<and> (\<forall>e \<in> set (bp_entries plan). entry_fields_ok e)
     \<and> distinct (map be_id (bp_entries plan)) \<and> distinct (map be_inputIndex (bp_entries plan))"
  by (auto simp: validateBoundedRuntimePlan_def validate_entries_ok split: sum.split)

lemma validate_plan_unit: "validateBoundedRuntimePlan plan = Inr u \<longleftrightarrow> validateBoundedRuntimePlan plan = Inr ()"
  by simp

section \<open>The pool of a plan\<close>

lemma bounded_runners:
  assumes "bounded_concurrency plan = Inr c" and "bp_entries plan \<noteq> []"
  shows "0 < runner_count c" and "runner_count c \<le> length (bp_entries plan)"
proof -
  obtain q where q: "c = Fin q" "1 \<le> q" "q \<le> of_nat (length (bp_entries plan))"
    using concurrency_within [of "bp_concurrency plan" JUndef "length (bp_entries plan)" "Some Validate" c] assms
    by (auto simp: bounded_concurrency_def)
  then have "1 \<le> \<lfloor>q\<rfloor>" "\<lfloor>q\<rfloor> \<le> int (length (bp_entries plan))" by linarith+
  with q show "0 < runner_count c" "runner_count c \<le> length (bp_entries plan)" by (auto simp: runner_count_def)
qed

text \<open>The runners of a plan never reject, so the pool ends when nothing is in flight any more.\<close>

lemma entries_no_error:
  "executeEntries_reach plan c run k s \<Longrightarrow> pl_error s = None"
  unfolding executeEntries_reach_def
proof (induction rule: pool_reach.induct)
  case pool_begins
  have "pl_error ((draw n skip ^^ j) pool_start) = None" for n j and skip :: "nat \<Rightarrow> entry_result option"
    by (induction j) (simp_all add: pool_start_def draw_flight)
  then show ?case by (simp add: pool_begin_def)
next
  case (item_fulfilled k s i r)
  then show ?case by (simp add: settle_item_def draw_flight)
qed simp

definition was_started :: "entry_result pool \<Rightarrow> nat \<Rightarrow> bool" where
  "was_started s i \<longleftrightarrow> Item_settled i \<in> set (pl_log s)"

lemma entries_outcome:
  assumes reach: "executeEntries_reach plan c run k s"
    and c: "bounded_concurrency plan = Inr c" and ne: "bp_entries plan \<noteq> []"
    and outcome: "pool_outcome (length (bp_entries plan)) s = Some (Inr es)"
  shows "pl_running s = []" and "length es = length (bp_entries plan)"
    and "i < length (bp_entries plan) \<Longrightarrow>
      es ! i = (if was_started s i then executeEntry (bp_entries plan ! i) (run (bp_entries plan ! i))
                else cancelledResult (bp_entries plan ! i))
      \<and> (\<not> was_started s i \<longrightarrow> pl_failed s \<and> js_truthy (bp_failFast plan))"
proof -
  have ended: "pl_running s = []" "pl_error s = None" "es = map (the \<circ> pl_results s) [0..<length (bp_entries plan)]"
    using outcome by (auto simp: pool_outcome_def split: option.splits if_splits)
  then show "pl_running s = []" "length es = length (bp_entries plan)" by simp_all
  assume i: "i < length (bp_entries plan)"
  from pool_complete [OF reach [unfolded executeEntries_reach_def] ended(1,2) bounded_runners(1) [OF c ne] i]
  show "es ! i = (if was_started s i then executeEntry (bp_entries plan ! i) (run (bp_entries plan ! i))
                else cancelledResult (bp_entries plan ! i))
      \<and> (\<not> was_started s i \<longrightarrow> pl_failed s \<and> js_truthy (bp_failFast plan))"
    using i by (auto simp: ended(3) was_started_def fail_fast_skip_def split: if_splits)
qed

section \<open>Entries and counts\<close>

definition same_entry :: "bounded_entry \<Rightarrow> entry_result \<Rightarrow> bool" where
  "same_entry e r \<longleftrightarrow> er_id r = be_id e \<and> er_inputIndex r = be_inputIndex e
     \<and> er_processIdentity r = be_processIdentity e \<and> er_artifactNamespace r = be_artifactNamespace e"

lemma executeEntry_facts:
  "same_entry e (executeEntry e x) \<and> er_success (executeEntry e x) = (er_status (executeEntry e x) = Entry_succeeded)
   \<and> er_status (executeEntry e x) \<noteq> Entry_cancelled
   \<and> (er_success (executeEntry e x) \<longleftrightarrow> er_error (executeEntry e x) = None)"
  by (auto simp: same_entry_def executeEntry_def baseResult_def executionReferences_def split: execution_end.split)

lemma cancelledResult_facts:
  "same_entry e (cancelledResult e) \<and> \<not> er_success (cancelledResult e) \<and> er_status (cancelledResult e) = Entry_cancelled
   \<and> er_error (cancelledResult e) \<noteq> None"
  by (simp add: same_entry_def cancelledResult_def baseResult_def)

lemma bounded_counts_total:
  "bc_total (boundedRuntimePlanCounts es) = bc_succeeded (boundedRuntimePlanCounts es) + bc_failed (boundedRuntimePlanCounts es)
     + bc_timedOut (boundedRuntimePlanCounts es) + bc_cancelled (boundedRuntimePlanCounts es)"
proof (induction es)
  case (Cons r es)
  then show ?case by (cases "er_status r") (simp_all add: boundedRuntimePlanCounts_def count_where_def)
qed (simp add: boundedRuntimePlanCounts_def count_where_def)

lemma all_succeeded_count:
  assumes "\<forall>r \<in> set es. er_success r = (er_status r = Entry_succeeded)"
  shows "list_all er_success es \<longleftrightarrow> bc_succeeded (boundedRuntimePlanCounts es) = bc_total (boundedRuntimePlanCounts es)"
proof -
  have "list_all er_success es \<longleftrightarrow> filter (\<lambda>r. er_status r = Entry_succeeded) es = es"
    using assms by (auto simp: list_all_iff filter_id_conv)
  also have "\<dots> \<longleftrightarrow> length (filter (\<lambda>r. er_status r = Entry_succeeded) es) = length es"
    by (metis filter_id_conv length_filter_less less_irrefl)
  finally show ?thesis by (simp add: boundedRuntimePlanCounts_def count_where_def)
qed

text \<open>
  Every plan comes to an end under every adapter, and with a result when the plan is valid and no step
  of the lifecycle fails.
\<close>

lemma entries_end:
  assumes "validateBoundedRuntimePlan plan = Inr ()" and "pa_materialize adapter = Inr m" and "pa_startServices adapter m = Inr sv"
  shows "\<exists>trace es c. executeBoundedRuntimePlan plan adapter trace
    (after_finally (pa_dispose adapter m) (after_finally (pa_stopServices adapter m sv) (Inr (bounded_result_of c es))))"
proof -
  from assms(1) obtain c where c: "bounded_concurrency plan = Inr c" by (auto simp: validate_plan_ok)
  obtain k s where reach: "executeEntries_reach plan c (pa_execute adapter m sv) k s" and ended: "pl_running s = []"
    unfolding executeEntries_reach_def using pool_ends by blast
  then have "pool_outcome (length (bp_entries plan)) s
      = Some (Inr (map (the \<circ> pl_results s) [0..<length (bp_entries plan)]))"
    by (simp add: pool_outcome_def entries_no_error)
  from entries_run [OF assms c reach this] show ?thesis by blast
qed

lemma bounded_plan_completes: "\<exists>trace outcome. executeBoundedRuntimePlan plan adapter trace outcome"
proof (cases "validateBoundedRuntimePlan plan")
  case (Inl e)
  from plan_invalid [OF this] show ?thesis by blast
next
  case (Inr u)
  then have valid: "validateBoundedRuntimePlan plan = Inr ()" by simp
  show ?thesis
  proof (cases "pa_materialize adapter")
    case (Inl e)
    from not_materialized [OF valid this] show ?thesis by blast
  next
    case m: (Inr m)
    show ?thesis
    proof (cases "pa_startServices adapter m")
      case (Inl e)
      from services_failed [OF valid m this] show ?thesis by blast
    next
      case sv: (Inr sv)
      from entries_end [OF valid m sv] show ?thesis by blast
    qed
  qed
qed

lemma bounded_plan_answers:
  assumes "validateBoundedRuntimePlan plan = Inr ()" and "pa_materialize adapter = Inr m" and "pa_startServices adapter m = Inr sv"
    and "pa_stopServices adapter m sv = None" and "pa_dispose adapter m = None"
  shows "\<exists>trace r. executeBoundedRuntimePlan plan adapter trace (Inr r)"
  using entries_end [OF assms(1-3)] assms(4,5) by (auto simp: after_finally_def)

section \<open>Correctness of a run\<close>

text \<open>The calls of the adapter around the entries.\<close>

definition nested_lifecycle :: "nat \<Rightarrow> lifecycle_event list \<Rightarrow> bool" where
  "nested_lifecycle m trace \<longleftrightarrow> (\<exists>es. trace = [Materialize, Start_services] @ map Entry_event es @ [Stop_services, Dispose]
     \<and> distinct es \<and> in_flight es = {} \<and> flight_bounded m es)"

lemma entries_trace:
  assumes reach: "executeEntries_reach plan c run k s" and ended: "pl_running s = []"
    and c: "bounded_concurrency plan = Inr c" and ne: "bp_entries plan \<noteq> []"
  shows "distinct (pl_log s) \<and> in_flight (pl_log s) = {} \<and> flight_bounded (runner_count c) (pl_log s)"
proof -
  note reach' = reach [unfolded executeEntries_reach_def]
  have "in_flight (pl_log s) = set (pl_running s)"
    using pool_reach_ok [OF reach'] in_flight_core unfolding pool_ok_def by blast
  moreover have "min (runner_count c) (length (bp_entries plan)) = runner_count c"
    using bounded_runners(2) [OF c ne] by simp
  ultimately show ?thesis using pool_flight [OF reach'] pool_reach_flight [OF reach'] ended by simp
qed

text \<open>
  C31: the lifecycle of a bounded plan.  Either nothing was started (the plan is invalid, or the workspace
  or the services failed, and then a workspace that was made is disposed), or the entries run between the
  start of the services and their stop: each entry starts and ends once, never more at a time than the
  concurrency, none is still at work when the services stop, and the workspace is disposed last, also
  when stopping the services throws.
\<close>

theorem bounded_plan_lifecycle:
  assumes "executeBoundedRuntimePlan plan adapter trace outcome"
  shows "trace \<in> {[], [Materialize], [Materialize, Start_services, Dispose]} \<and> (\<exists>e. outcome = Inl e)
    \<or> (\<exists>c. bounded_concurrency plan = Inr c \<and> nested_lifecycle (runner_count c) trace)"
  using assms
proof cases
  case (services_failed m e)
  then show ?thesis by (simp add: after_finally_def split: option.split)
next
  case (entries_run m sv c k s es)
  have ne: "bp_entries plan \<noteq> []" using entries_run(3) by (simp add: validate_plan_ok)
  have "pl_running s = []" by (rule entries_outcome(1) [OF entries_run(7,6) ne entries_run(8)])
  from entries_trace [OF entries_run(7) this entries_run(6) ne] entries_run(1,6) show ?thesis
    unfolding nested_lifecycle_def by blast
qed simp_all

definition sample_entry :: "string \<Rightarrow> int \<Rightarrow> bounded_entry" where
  "sample_entry name i = \<lparr>be_id = JStr name, be_argv = JArr [JStr ''phpunit''], be_environment = JObj [(''DB'', JStr ''s3'')],
     be_timeoutMs = JUndef, be_processIdentity = JStr name, be_artifactNamespace = JStr name, be_inputIndex = JInt i\<rparr>"

definition sample_bounded_plan :: bounded_plan where
  "sample_bounded_plan = \<lparr>bp_schema = JStr bounded_plan_schema, bp_concurrency = JInt 1, bp_failFast = JBool True,
     bp_entries = [sample_entry ''a'' 0, sample_entry ''b'' 1]\<rparr>"

definition sample_plan_adapter :: "(unit, unit) plan_adapter" where
  "sample_plan_adapter = \<lparr>pa_materialize = Inr (), pa_startServices = (\<lambda>_. Inr ()),
     pa_execute = (\<lambda>_ _ _. \<lparr>ex_end = Execution_throws (Some ''s3 refused''), ex_late = False, ex_durationMs = 7\<rparr>),
     pa_stopServices = (\<lambda>_ _. None), pa_dispose = (\<lambda>_. None)\<rparr>"

lemma sample_bounded_valid: "validateBoundedRuntimePlan sample_bounded_plan = Inr ()"
  by code_simp

lemma sample_bounded_answers: "\<exists>trace r. executeBoundedRuntimePlan sample_bounded_plan sample_plan_adapter trace (Inr r)"
  by (rule bounded_plan_answers [OF sample_bounded_valid]) (simp_all add: sample_plan_adapter_def)

theorem bounded_plan_lifecycle_witness:
  "\<exists>trace r c. executeBoundedRuntimePlan sample_bounded_plan sample_plan_adapter trace (Inr r)
    \<and> bounded_concurrency sample_bounded_plan = Inr c \<and> nested_lifecycle (runner_count c) trace"
  using sample_bounded_answers bounded_plan_lifecycle [of sample_bounded_plan sample_plan_adapter] by blast

lemma failed_in_pool:
  assumes reach: "executeEntries_reach plan c run k s" and "pl_failed s"
  shows "\<exists>i < length (bp_entries plan). was_started s i \<and> \<not> er_success (executeEntry (bp_entries plan ! i) (run (bp_entries plan ! i)))"
proof -
  have ok: "pool_ok (runner_count c) (length (bp_entries plan)) (fail_fast_skip plan) (\<lambda>r. \<not> er_success r)
      (\<lambda>i. Inr (executeEntry (bp_entries plan ! i) (run (bp_entries plan ! i)))) s"
    by (rule pool_reach_ok [OF reach [unfolded executeEntries_reach_def]])
  then have core: "pool_core (length (bp_entries plan)) (fail_fast_skip plan) (\<lambda>r. \<not> er_success r)
      (\<lambda>i. Inr (executeEntry (bp_entries plan ! i) (run (bp_entries plan ! i)))) s" by (simp add: pool_ok_def)
  from pool_coreD(5) [OF core] assms(2) obtain i where i: "Item_settled i \<in> set (pl_log s)"
      "\<not> er_success (executeEntry (bp_entries plan ! i) (run (bp_entries plan ! i)))" by (auto simp: failure_in_def)
  with pool_coreD(4) [OF core, of i] pool_coreD(1) [OF core] have "i < length (bp_entries plan)"
    by (auto simp: item_ok_def split: if_splits)
  with i show ?thesis by (auto simp: was_started_def)
qed

text \<open>An entry is reported as what its execution gave, or as cancelled by an earlier failure.\<close>

definition entry_reported :: "bounded_plan \<Rightarrow> bounded_entry \<Rightarrow> entry_execution \<Rightarrow> entry_result list \<Rightarrow> entry_result \<Rightarrow> bool" where
  "entry_reported plan e x es r \<longleftrightarrow> same_entry e r \<and> (r = executeEntry e x
     \<or> r = cancelledResult e \<and> js_truthy (bp_failFast plan)
       \<and> (\<exists>q \<in> set es. er_status q \<in> {Entry_failed, Entry_timed_out}))"

lemma entries_reported:
  assumes reach: "executeEntries_reach plan c run k s"
    and c: "bounded_concurrency plan = Inr c" and ne: "bp_entries plan \<noteq> []"
    and outcome: "pool_outcome (length (bp_entries plan)) s = Some (Inr es)"
  shows "list_all2 (\<lambda>e r. entry_reported plan e (run e) es r) (bp_entries plan) es"
proof (rule list_all2_all_nthI)
  show "length (bp_entries plan) = length es" using entries_outcome(2) [OF assms] by simp
next
  fix i assume i: "i < length (bp_entries plan)"
  note here = entries_outcome(3) [OF assms i]
  show "entry_reported plan (bp_entries plan ! i) (run (bp_entries plan ! i)) es (es ! i)"
  proof (cases "was_started s i")
    case True
    with here show ?thesis using executeEntry_facts by (simp add: entry_reported_def)
  next
    case False
    with here have "pl_failed s" and fast: "js_truthy (bp_failFast plan)" by auto
    from failed_in_pool [OF reach this(1)] obtain j where j: "j < length (bp_entries plan)" "was_started s j"
      "\<not> er_success (executeEntry (bp_entries plan ! j) (run (bp_entries plan ! j)))" by blast
    with entries_outcome(3) [OF assms j(1)] have "es ! j = executeEntry (bp_entries plan ! j) (run (bp_entries plan ! j))" by simp
    with j(3) executeEntry_facts have "er_status (es ! j) \<in> {Entry_failed, Entry_timed_out}"
      by (metis (full_types) bounded_status.exhaust insertI1 insertI2)
    moreover have "es ! j \<in> set es" using j(1) entries_outcome(2) [OF assms] by simp
    ultimately have "\<exists>q \<in> set es. er_status q \<in> {Entry_failed, Entry_timed_out}" by blast
    with False here fast show ?thesis using cancelledResult_facts by (simp add: entry_reported_def)
  qed
qed

lemma reported_status: "entry_reported plan e x es r \<Longrightarrow> er_success r = (er_status r = Entry_succeeded)"
  using executeEntry_facts [of e x] cancelledResult_facts [of e] by (auto simp: entry_reported_def)

text \<open>
  C32: what a bounded plan reports.  The results stand in the order of the entries and carry their
  identities; each is what its own execution gave, or says that the entry was cancelled, which happens
  only in a fail-fast plan of which another entry failed or timed out.  The four counts add up to the
  number of entries, and the plan succeeds exactly when all of them are counted as succeeded.
\<close>

theorem bounded_plan_report:
  assumes "executeBoundedRuntimePlan plan adapter trace (Inr r)"
  shows "(\<exists>m sv. pa_materialize adapter = Inr m \<and> pa_startServices adapter m = Inr sv
      \<and> list_all2 (\<lambda>e q. entry_reported plan e (pa_execute adapter m sv e) (br_entries r) q) (bp_entries plan) (br_entries r))
    \<and> bc_total (br_counts r) = int (length (bp_entries plan))
    \<and> bc_total (br_counts r) = bc_succeeded (br_counts r) + bc_failed (br_counts r) + bc_timedOut (br_counts r) + bc_cancelled (br_counts r)
    \<and> (br_success r \<longleftrightarrow> bc_succeeded (br_counts r) = bc_total (br_counts r))"
  using assms
proof cases
  case (services_failed m e)
  then show ?thesis by (auto simp: after_finally_def split: option.splits)
next
  case (entries_run m sv c k s es)
  have ne: "bp_entries plan \<noteq> []" using entries_run(3) by (simp add: validate_plan_ok)
  have r: "r = bounded_result_of c es" using entries_run(2) by (auto simp: after_finally_def split: option.splits)
  note reported = entries_reported [OF entries_run(7,6) ne entries_run(8)]
  have "er_success q = (er_status q = Entry_succeeded)" if "q \<in> set es" for q
  proof -
    from that obtain i where "i < length es" "q = es ! i" by (auto simp: in_set_conv_nth)
    with list_all2_nthD2 [OF reported] reported_status show ?thesis by metis
  qed
  then have "\<forall>q \<in> set es. er_success q = (er_status q = Entry_succeeded)" by blast
  from all_succeeded_count [OF this] have "br_success r \<longleftrightarrow> bc_succeeded (br_counts r) = bc_total (br_counts r)"
    by (simp add: r bounded_result_of_def)
  moreover have "bc_total (br_counts r) = int (length (bp_entries plan))"
    using list_all2_lengthD [OF reported] by (simp add: r bounded_result_of_def boundedRuntimePlanCounts_def)
  ultimately show ?thesis
    using reported entries_run(4,5) bounded_counts_total [of es] by (auto simp: r bounded_result_of_def)
qed

theorem bounded_plan_report_witness:
  "\<exists>trace r. executeBoundedRuntimePlan sample_bounded_plan sample_plan_adapter trace (Inr r) \<and> bc_total (br_counts r) = 2"
proof -
  have "length (bp_entries sample_bounded_plan) = 2" by (simp add: sample_bounded_plan_def)
  moreover obtain trace r where run: "executeBoundedRuntimePlan sample_bounded_plan sample_plan_adapter trace (Inr r)"
    using sample_bounded_answers by blast
  ultimately show ?thesis using bounded_plan_report [OF run] by auto
qed

section \<open>Retrying a plan\<close>

lemma validate_subplan:
  assumes valid: "validateBoundedRuntimePlan plan = Inr ()" and ne: "filter P (bp_entries plan) \<noteq> []"
    and c: "bounded_concurrency (plan\<lparr>bp_concurrency := v, bp_entries := filter P (bp_entries plan)\<rparr>) = Inr c"
  shows "validateBoundedRuntimePlan (plan\<lparr>bp_concurrency := v, bp_entries := filter P (bp_entries plan)\<rparr>) = Inr ()"
  using valid ne c by (auto simp: validate_plan_ok distinct_map_filter)

text \<open>The smaller concurrency is valid for the smaller plan.\<close>

lemma retry_concurrency:
  assumes "normalizeRunPlanConcurrency v JUndef (JInt (int n)) (Some Validate) = Inr c" and "0 < m" and "m \<le> n"
  shows "\<exists>c'. normalizeRunPlanConcurrency (JNum (js_min (js_number v) (NInt (int m)))) JUndef (JInt (int m)) (Some Validate) = Inr c'"
proof -
  have bound: "max_concurrency_of (JNum (Fin (rat_of_nat k))) = Fin (of_nat k)" if "0 < k" for k
    using that by (simp add: max_concurrency_of_def at_least_one_def js_num_or_def js_max_def)
  define requested where "requested = js_floor (js_num_or (js_number v) (Fin 1))"
  have default: "at_least_one JUndef (Fin 1) = Fin 1" by (simp add: at_least_one_def js_num_or_def js_max_def)
  have "\<not> js_less requested (Fin 1)" "\<not> js_less (Fin (of_nat n)) requested"
    using assms by (auto simp: normalizeRunPlanConcurrency_def bound default requested_def Let_def split: if_splits)
  then have "\<not> js_less (js_floor (js_num_or (js_min (js_number v) (NInt (int m))) (Fin 1))) (Fin 1)
      \<and> \<not> js_less (Fin (of_nat m)) (js_floor (js_num_or (js_min (js_number v) (NInt (int m))) (Fin 1)))"
    using assms(2,3) by (cases "js_number v")
      (auto simp: requested_def js_min_def js_num_or_def le_floor_iff floor_less_iff not_less intro: order_trans [OF of_int_floor_le])
  then show ?thesis
    by (simp add: normalizeRunPlanConcurrency_def bound [OF assms(2)] default Let_def)
qed

lemma retry_plan:
  assumes "retryBoundedRuntimePlan plan previous = Inr plan'"
  shows "validateBoundedRuntimePlan plan' = Inr ()
    \<and> bp_entries plan' = filter (\<lambda>e. \<exists>r \<in> set previous. \<not> er_success r \<and> er_id r = be_id e) (bp_entries plan)"
proof -
  define P where "P = (\<lambda>e :: bounded_entry. be_id e \<in> set (map er_id (filter (\<lambda>r. \<not> er_success r) previous)))"
  have valid: "validateBoundedRuntimePlan plan = Inr ()" and ne: "filter P (bp_entries plan) \<noteq> []"
    and plan': "plan' = plan\<lparr>bp_concurrency := JNum (js_min (js_number (bp_concurrency plan)) (NInt (int (length (filter P (bp_entries plan)))))),
      bp_entries := filter P (bp_entries plan)\<rparr>"
    using assms by (auto simp: retryBoundedRuntimePlan_def P_def Let_def split: sum.splits if_splits)
  from valid obtain c where "bounded_concurrency plan = Inr c" by (auto simp: validate_plan_ok)
  from retry_concurrency [OF this [unfolded bounded_concurrency_def], of "length (filter P (bp_entries plan))"] ne
  obtain c' where "bounded_concurrency plan' = Inr c'" by (auto simp: bounded_concurrency_def plan')
  with validate_subplan [OF valid ne] have "validateBoundedRuntimePlan plan' = Inr ()" by (simp add: plan')
  moreover have "P = (\<lambda>e. \<exists>r \<in> set previous. \<not> er_success r \<and> er_id r = be_id e)"
    by (rule ext) (simp add: P_def image_iff, metis)
  ultimately show ?thesis by (simp add: plan')
qed

section \<open>What the redaction leaves\<close>

text \<open>
  The values are replaced one after the other, so a value that begins like an earlier, shorter one is
  cut in two and its rest stays in the message.
\<close>

lemma redaction_leaves_suffix:
  "redactEntryMessage ''denied: hunter2secret''
     ((sample_entry ''a'' 0)\<lparr>be_environment := JObj [(''DB_USER'', JStr ''hunter''), (''DB_PASSWORD'', JStr ''hunter2secret'')]\<rparr>)
   = ''denied: [redacted]2secret''"
  by code_simp

text \<open>The namespace is validated after trimming and used as it is.\<close>

lemma untrimmed_namespace_accepted:
  "validateBoundedRuntimePlan (sample_bounded_plan\<lparr>bp_entries := [(sample_entry ''a'' 0)\<lparr>be_artifactNamespace := JStr '' a ''\<rparr>]\<rparr>) = Inr ()
   \<and> er_artifactNamespace (cancelledResult ((sample_entry ''a'' 0)\<lparr>be_artifactNamespace := JStr '' a ''\<rparr>)) = JStr '' a ''"
  by code_simp
end
