(* ===== verification/Sandbox_Tool_Policy.thy ===== *)
theory Sandbox_Tool_Policy
  imports Js_Conversions
begin

text \<open>
  \<open>packages/runtime-core/src/sandbox-tool-policy.ts\<close>: which tools an agent in the sandbox may use.  A
  policy snapshot is validated as an untyped value; the effective policy describes each tool and lists
  the ones that are allowed, visible, reserved to the parent, or hidden.
\<close>

section \<open>Constants and data\<close>

definition SANDBOX_TOOL_POLICY_SCHEMA :: string where "SANDBOX_TOOL_POLICY_SCHEMA = ''wp-codebox/sandbox-tool-policy/v1''"
definition TOOL_BRIDGE_SCHEMA :: string where "TOOL_BRIDGE_SCHEMA = ''wp-codebox/tool-bridge/v1''"
definition AGENTS_API_RUNTIME_LOCAL :: string where "AGENTS_API_RUNTIME_LOCAL = ''runtime_local''"
definition AGENTS_API_CONTROL_PLANE :: string where "AGENTS_API_CONTROL_PLANE = ''control_plane''"

datatype tool_issue_code = Invalid_policy | Invalid_tool | Duplicate_tool

record tool_issue =
  ti_code :: tool_issue_code
  ti_field :: string
  ti_message :: string

record runtime_metadata =
  rm_environment :: string
  rm_capability_scope :: string

record tool_descriptor =
  td_id :: jsval
  td_runtimeToolId :: jsval
  td_aliases :: "string list"
  td_allowed :: jsval
  td_executionLocation :: jsval
  td_transportVisibility :: jsval
  td_visible :: bool
  td_parentOnly :: bool
  td_hidden :: bool
  td_runtime :: runtime_metadata
  td_schema :: "string option"
  td_policy :: "js_object option"
  td_metadata :: jsval

record effective_policy =
  ep_schema :: jsval
  ep_version :: jsval
  ep_tools :: "tool_descriptor list"
  ep_allowedRuntimeToolIds :: "string list"
  ep_visibleRuntimeToolIds :: "string list"
  ep_parentOnlyRuntimeToolIds :: "string list"
  ep_hiddenRuntimeToolIds :: "string list"
  ep_metadata :: jsval

record runtime_tool_input =
  ri_allowed_tools :: "string list"
  ri_runtime_tools :: "tool_descriptor list"

text \<open>\<open>stringList\<close> of \<open>object-utils.ts\<close>.\<close>

definition unique_strings :: "jsval \<Rightarrow> string list" where
  "unique_strings v = (case v of
      JArr vs \<Rightarrow> js_unique (filter (\<lambda>s. s \<noteq> []) (map (\<lambda>x. trim (js_string x)) vs))
    | _ \<Rightarrow> [])"

section \<open>Validation\<close>

definition runtimeMetadataForExecutionLocation :: "string \<Rightarrow> runtime_metadata option" where
  "runtimeMetadataForExecutionLocation location =
     (if location = ''sandbox'' then Some \<lparr>rm_environment = AGENTS_API_RUNTIME_LOCAL, rm_capability_scope = AGENTS_API_RUNTIME_LOCAL\<rparr>
      else if location = ''parent'' then Some \<lparr>rm_environment = AGENTS_API_CONTROL_PLANE, rm_capability_scope = AGENTS_API_CONTROL_PLANE\<rparr>
      else None)"

definition tool_issue_at :: "string \<Rightarrow> string \<Rightarrow> string \<Rightarrow> tool_issue" where
  "tool_issue_at field member problem =
     \<lparr>ti_code = Invalid_tool, ti_field = field @ member, ti_message = field @ member @ problem\<rparr>"

definition runtime_issue :: "string \<Rightarrow> string \<Rightarrow> string \<Rightarrow> string \<Rightarrow> string option \<Rightarrow> tool_issue list" where
  "runtime_issue field member location given canonical =
     (if given = [] then [tool_issue_at field member '' must be a non-empty string.'']
      else case canonical of
        Some c \<Rightarrow> if given \<noteq> c then [tool_issue_at field member ('' must be '' @ c @ '' for '' @ location @ '' tools.'')] else []
      | None \<Rightarrow> [])"

definition id_issue :: "string \<Rightarrow> string list \<Rightarrow> string \<Rightarrow> tool_issue list" where
  "id_issue field seen ident =
     (if ident = [] then [tool_issue_at field ''.id'' '' must be a non-empty string.'']
      else if ident \<in> set seen
      then [\<lparr>ti_code = Duplicate_tool, ti_field = field @ ''.id'', ti_message = ''Duplicate sandbox tool policy id: '' @ ident @ ''.''\<rparr>]
      else [])"

definition allowed_issue :: "string \<Rightarrow> jsval \<Rightarrow> tool_issue list" where
  "allowed_issue field v = (case v of JBool _ \<Rightarrow> [] | _ \<Rightarrow> [tool_issue_at field ''.allowed'' '' must be boolean.''])"

definition tool_issues :: "string \<Rightarrow> string list \<Rightarrow> js_object \<Rightarrow> tool_issue list" where
  "tool_issues field seen tool =
     (let location = text_value (js_get tool ''execution_location'');
          runtime = record_fields (js_get tool ''runtime'');
          canonical = runtimeMetadataForExecutionLocation location
      in id_issue field seen (text_value (js_get tool ''id''))
       @ (if text_value (js_get tool ''runtime_tool_id'') = [] then [tool_issue_at field ''.runtime_tool_id'' '' must be a non-empty string.''] else [])
       @ (if location \<noteq> ''sandbox'' \<and> location \<noteq> ''parent'' then [tool_issue_at field ''.execution_location'' '' must be sandbox or parent.''] else [])
       @ runtime_issue field ''.runtime.environment'' location (text_value (js_get runtime ''environment'')) (map_option rm_environment canonical)
       @ runtime_issue field ''.runtime.capability_scope'' location (text_value (js_get runtime ''capability_scope'')) (map_option rm_capability_scope canonical)
       @ allowed_issue field (js_get tool ''allowed''))"

fun tools_issues :: "nat \<Rightarrow> string list \<Rightarrow> jsval list \<Rightarrow> tool_issue list" where
  "tools_issues index seen [] = []"
| "tools_issues index seen (tool # tools) =
     (let field = ''tools['' @ string_of_nat index @ '']'' in
      case tool of
        JObj obj \<Rightarrow> tool_issues field seen obj @ tools_issues (index + 1) (text_value (js_get obj ''id'') # seen) tools
      | _ \<Rightarrow> tool_issue_at field '''' '' must be an object.'' # tools_issues (index + 1) seen tools)"

definition policy_issue :: "string \<Rightarrow> string \<Rightarrow> tool_issue" where
  "policy_issue field message = \<lparr>ti_code = Invalid_policy, ti_field = field, ti_message = message\<rparr>"

definition validateSandboxToolPolicySnapshot :: "jsval \<Rightarrow> tool_issue list" where
  "validateSandboxToolPolicySnapshot input =
     (case input of
        JObj obj \<Rightarrow>
          (if js_get obj ''schema'' \<noteq> JStr SANDBOX_TOOL_POLICY_SCHEMA
           then [policy_issue ''schema'' (''sandbox_tool_policy.schema must be '' @ SANDBOX_TOOL_POLICY_SCHEMA @ ''.'')] else [])
          @ (if js_get obj ''version'' \<noteq> JInt 1
             then [policy_issue ''version'' ''sandbox_tool_policy.version must be 1.''] else [])
          @ (case js_get obj ''tools'' of
               JArr tools \<Rightarrow> tools_issues 0 [] tools
             | _ \<Rightarrow> [policy_issue ''tools'' ''sandbox_tool_policy.tools must be an array.''])
      | _ \<Rightarrow> [policy_issue ''sandbox_tool_policy'' ''sandbox_tool_policy must be an object.''])"

definition policy_error_message :: "tool_issue list \<Rightarrow> string" where
  "policy_error_message issues = ''Sandbox tool policy is invalid: '' @ join_with ''; '' (map ti_message issues)"

definition normalizeSandboxToolPolicySnapshot :: "jsval \<Rightarrow> string + jsval" where
  "normalizeSandboxToolPolicySnapshot input =
     (let issues = validateSandboxToolPolicySnapshot input in
      if issues \<noteq> [] then Inl (policy_error_message issues) else Inr input)"

section \<open>The effective policy\<close>

definition policy_tools :: "jsval \<Rightarrow> js_object list" where
  "policy_tools policy = (case js_member policy ''tools'' of JArr vs \<Rightarrow> map record_fields vs | _ \<Rightarrow> [])"

definition sandboxToolRuntimeMetadata :: "js_object \<Rightarrow> runtime_metadata" where
  "sandboxToolRuntimeMetadata tool =
     (case (case js_get tool ''execution_location'' of JStr s \<Rightarrow> runtimeMetadataForExecutionLocation s | _ \<Rightarrow> None) of
        Some m \<Rightarrow> m
      | None \<Rightarrow> \<lparr>rm_environment = [], rm_capability_scope = []\<rparr>)"

definition tool_aliases :: "js_object \<Rightarrow> string list" where
  "tool_aliases tool = unique_strings (JArr ([js_get tool ''id'', js_get tool ''runtime_tool_id'']
     @ map JStr (unique_strings (js_get tool ''aliases''))
     @ map JStr (unique_strings (js_member (js_get tool ''metadata'') ''aliases''))))"

definition runtimeToolDescriptor :: "js_object \<Rightarrow> tool_descriptor" where
  "runtimeToolDescriptor tool =
     (let runtime = sandboxToolRuntimeMetadata tool;
          visibility = js_get tool ''transport_visibility'';
          parentOnly = (rm_environment runtime \<noteq> AGENTS_API_RUNTIME_LOCAL \<or> rm_capability_scope runtime \<noteq> AGENTS_API_RUNTIME_LOCAL);
          hidden = (visibility = JStr ''hidden'')
      in \<lparr>td_id = js_get tool ''id'', td_runtimeToolId = js_get tool ''runtime_tool_id'', td_aliases = tool_aliases tool,
          td_allowed = js_get tool ''allowed'', td_executionLocation = js_get tool ''execution_location'',
          td_transportVisibility = visibility,
          td_visible = (\<not> parentOnly \<and> \<not> hidden \<and> (visibility = JStr ''sandbox'' \<or> visibility = JStr ''both'')),
          td_parentOnly = parentOnly, td_hidden = hidden, td_runtime = runtime,
          td_schema = nonempty_string (js_member (js_get tool ''metadata'') ''schema''),
          td_policy = (case js_member (js_get tool ''metadata'') ''policy'' of JObj p \<Rightarrow> Some p | _ \<Rightarrow> None),
          td_metadata = (if js_truthy (js_get tool ''metadata'') then js_get tool ''metadata'' else JUndef)\<rparr>)"

definition tool_ids :: "(tool_descriptor \<Rightarrow> bool) \<Rightarrow> tool_descriptor list \<Rightarrow> string list" where
  "tool_ids P tools = unique_strings (JArr (map td_runtimeToolId (filter P tools)))"

definition resolveEffectiveRuntimeToolPolicy :: "jsval \<Rightarrow> effective_policy" where
  "resolveEffectiveRuntimeToolPolicy policy =
     (let tools = map runtimeToolDescriptor (policy_tools policy) in
      \<lparr>ep_schema = js_member policy ''schema'', ep_version = js_member policy ''version'', ep_tools = tools,
       ep_allowedRuntimeToolIds = tool_ids (\<lambda>t. js_truthy (td_allowed t) \<and> td_visible t) tools,
       ep_visibleRuntimeToolIds = tool_ids td_visible tools,
       ep_parentOnlyRuntimeToolIds = tool_ids td_parentOnly tools,
       ep_hiddenRuntimeToolIds = tool_ids td_hidden tools, ep_metadata = js_member policy ''metadata''\<rparr>)"

definition sandboxAllowedRuntimeToolIds :: "jsval \<Rightarrow> string list" where
  "sandboxAllowedRuntimeToolIds policy = ep_allowedRuntimeToolIds (resolveEffectiveRuntimeToolPolicy policy)"

definition runtimeToolInputFromSandboxToolPolicy :: "jsval \<Rightarrow> runtime_tool_input" where
  "runtimeToolInputFromSandboxToolPolicy policy =
     (let effective = resolveEffectiveRuntimeToolPolicy policy in
      \<lparr>ri_allowed_tools = ep_allowedRuntimeToolIds effective, ri_runtime_tools = filter td_visible (ep_tools effective)\<rparr>)"

definition resolveRuntimeToolAlias :: "effective_policy \<Rightarrow> string \<Rightarrow> tool_descriptor option" where
  "resolveRuntimeToolAlias effective text =
     (let trimmed = trim text in
      if trimmed = [] then None
      else find (\<lambda>t. td_id t = JStr trimmed \<or> td_runtimeToolId t = JStr trimmed \<or> trimmed \<in> set (td_aliases t)) (ep_tools effective))"

section \<open>Policies and bridges from a list of tools\<close>

text \<open>\<open>replace(/[^A-Za-z0-9_]+/g, "_").replace(/^_+|_+$/g, "")\<close>\<close>

definition word_char :: "char \<Rightarrow> bool" where
  "word_char c \<longleftrightarrow> is_alnum c \<or> c = CHR ''_''"

fun underscore_runs :: "bool \<Rightarrow> string \<Rightarrow> string" where
  "underscore_runs inside [] = []"
| "underscore_runs inside (c # cs) =
     (if word_char c then c # underscore_runs False cs
      else if inside then underscore_runs True cs else CHR ''_'' # underscore_runs True cs)"

definition strip_underscores :: "string \<Rightarrow> string" where
  "strip_underscores s = rev (dropWhile (\<lambda>c. c = CHR ''_'') (rev (dropWhile (\<lambda>c. c = CHR ''_'') s)))"

definition providerSafeRuntimeToolId :: "string \<Rightarrow> string" where
  "providerSafeRuntimeToolId toolId = strip_underscores (underscore_runs False toolId)"

definition sandbox_tool :: "string \<Rightarrow> jsval" where
  "sandbox_tool tool = JObj
     [(''id'', JStr tool), (''runtime_tool_id'', JStr (providerSafeRuntimeToolId tool)),
      (''execution_location'', JStr ''sandbox''), (''transport_visibility'', JStr ''sandbox''), (''allowed'', JBool True),
      (''runtime'', JObj [(''environment'', JStr AGENTS_API_RUNTIME_LOCAL), (''capability_scope'', JStr AGENTS_API_RUNTIME_LOCAL)])]"

definition sandboxToolPolicyFromAllowedTools :: "jsval \<Rightarrow> js_object \<Rightarrow> jsval" where
  "sandboxToolPolicyFromAllowedTools allowedTools metadata = JObj
     [(''schema'', JStr SANDBOX_TOOL_POLICY_SCHEMA), (''version'', JInt 1),
      (''tools'', JArr (map sandbox_tool (unique_strings allowedTools))), (''metadata'', JObj metadata)]"

definition toolBridgeFromSandboxToolPolicy :: "jsval \<Rightarrow> jsval list \<Rightarrow> js_object" where
  "toolBridgeFromSandboxToolPolicy policy allowedTools =
     [(''schema'', JStr TOOL_BRIDGE_SCHEMA), (''version'', JInt 1),
      (''allowed_tools'', JArr (map JStr (unique_strings (JArr (if allowedTools \<noteq> [] then allowedTools
         else map (\<lambda>tool. js_get tool ''id'') (policy_tools policy)))))),
      (''sandbox_tool_policy'', policy),
      (''dispatcher'', JObj [(''owner'', JStr ''wp-codebox''), (''callback'', JStr ''wp_codebox_browser_runtime_tool_callback''),
         (''location'', JStr ''sandbox'')]),
      (''authorization'', JObj [(''mode'', JStr ''allowlist''),
         (''notes'', JStr ''Only sandbox-visible tools in sandbox_tool_policy are exposed to the runtime agent. Parent control-plane actions remain outside the sandbox bridge.'')]),
      (''redaction'', JObj [(''notes'', JStr ''Secret values are passed through environment allowlists only and must not be embedded in tool bridge payloads, logs, or dispatcher metadata.'')])]"

section \<open>What a valid policy looks like\<close>

lemma set_unique_strings: "s \<in> set (unique_strings (JArr vs)) \<longleftrightarrow> s \<noteq> [] \<and> (\<exists>v \<in> set vs. s = trim (js_string v))"
  by (auto simp: unique_strings_def)

lemma distinct_unique_strings [simp]: "distinct (unique_strings v)"
  by (cases v) (simp_all add: unique_strings_def)

lemma trim_unique_strings: "s \<in> set (unique_strings v) \<Longrightarrow> trim s = s \<and> s \<noteq> []"
  by (cases v) (auto simp: unique_strings_def)

definition tool_ok :: "js_object \<Rightarrow> bool" where
  "tool_ok tool \<longleftrightarrow> text_value (js_get tool ''id'') \<noteq> [] \<and> text_value (js_get tool ''runtime_tool_id'') \<noteq> []
     \<and> (\<exists>m. runtimeMetadataForExecutionLocation (text_value (js_get tool ''execution_location'')) = Some m
          \<and> text_value (js_get (record_fields (js_get tool ''runtime'')) ''environment'') = rm_environment m
          \<and> text_value (js_get (record_fields (js_get tool ''runtime'')) ''capability_scope'') = rm_capability_scope m)
     \<and> (\<exists>b. js_get tool ''allowed'' = JBool b)"

lemma metadata_some:
  "(\<exists>m. runtimeMetadataForExecutionLocation s = Some m) \<longleftrightarrow> s = ''sandbox'' \<or> s = ''parent''"
  by (simp add: runtimeMetadataForExecutionLocation_def)

lemma metadata_nonempty:
  "runtimeMetadataForExecutionLocation s = Some m \<Longrightarrow> rm_environment m \<noteq> [] \<and> rm_capability_scope m \<noteq> []"
  by (auto simp: runtimeMetadataForExecutionLocation_def AGENTS_API_RUNTIME_LOCAL_def AGENTS_API_CONTROL_PLANE_def split: if_splits)

lemma id_issue_none: "id_issue field seen s = [] \<longleftrightarrow> s \<noteq> [] \<and> s \<notin> set seen"
  by (simp add: id_issue_def)

lemma runtime_issue_none: "runtime_issue field member location given (Some c) = [] \<longleftrightarrow> given \<noteq> [] \<and> given = c"
  by (simp add: runtime_issue_def)

lemma allowed_issue_none: "allowed_issue field v = [] \<longleftrightarrow> (\<exists>b. v = JBool b)"
  by (cases v) (simp_all add: allowed_issue_def)

lemma tool_issues_none:
  "tool_issues field seen tool = [] \<longleftrightarrow> tool_ok tool \<and> text_value (js_get tool ''id'') \<notin> set seen"
proof (cases "runtimeMetadataForExecutionLocation (text_value (js_get tool ''execution_location''))")
  case None
  then have "text_value (js_get tool ''execution_location'') \<noteq> ''sandbox'' \<and> text_value (js_get tool ''execution_location'') \<noteq> ''parent''"
    using metadata_some by (metis option.distinct(1))
  with None show ?thesis by (simp add: tool_issues_def tool_ok_def Let_def)
next
  case (Some m)
  then have "\<not> (text_value (js_get tool ''execution_location'') \<noteq> ''sandbox'' \<and> text_value (js_get tool ''execution_location'') \<noteq> ''parent'')"
    using metadata_some by metis
  with Some show ?thesis
    using metadata_nonempty [OF Some]
    by (simp add: tool_issues_def tool_ok_def Let_def id_issue_none runtime_issue_none allowed_issue_none) metis
qed

lemma tools_issues_none:
  "tools_issues index seen tools = [] \<longleftrightarrow> (\<forall>v \<in> set tools. \<exists>obj. v = JObj obj \<and> tool_ok obj)
     \<and> distinct (map (\<lambda>v. text_value (js_get (record_fields v) ''id'')) tools)
     \<and> (\<lambda>v. text_value (js_get (record_fields v) ''id'')) ` set tools \<inter> set seen = {}"
proof (induction tools arbitrary: index seen)
  case (Cons tool tools)
  show ?case
  proof (cases tool)
    case (JObj obj)
    then have "tools_issues index seen (tool # tools) = [] \<longleftrightarrow> tool_ok obj \<and> text_value (js_get obj ''id'') \<notin> set seen
        \<and> tools_issues (index + 1) (text_value (js_get obj ''id'') # seen) tools = []"
      by (simp add: Let_def tool_issues_none)
    also have "\<dots> \<longleftrightarrow> tool_ok obj \<and> text_value (js_get obj ''id'') \<notin> set seen
        \<and> (\<forall>v \<in> set tools. \<exists>obj. v = JObj obj \<and> tool_ok obj)
        \<and> distinct (map (\<lambda>v. text_value (js_get (record_fields v) ''id'')) tools)
        \<and> (\<lambda>v. text_value (js_get (record_fields v) ''id'')) ` set tools \<inter> set (text_value (js_get obj ''id'') # seen) = {}"
      unfolding Cons.IH ..
    finally show ?thesis unfolding JObj by auto
  qed (simp_all add: Let_def)
qed simp

lemma valid_policy_iff:
  "validateSandboxToolPolicySnapshot input = [] \<longleftrightarrow> (\<exists>obj tools. input = JObj obj
     \<and> js_get obj ''schema'' = JStr SANDBOX_TOOL_POLICY_SCHEMA \<and> js_get obj ''version'' = JInt 1 \<and> js_get obj ''tools'' = JArr tools
     \<and> tools_issues 0 [] tools = [])"
  by (auto simp: validateSandboxToolPolicySnapshot_def split: jsval.splits)

lemma valid_policy:
  assumes "validateSandboxToolPolicySnapshot input = []"
  shows "(\<forall>tool \<in> set (policy_tools input). tool_ok tool)
    \<and> distinct (map (\<lambda>tool. text_value (js_get tool ''id'')) (policy_tools input))"
proof -
  from assms obtain obj tools where "input = JObj obj" "js_get obj ''tools'' = JArr tools" "tools_issues 0 [] tools = []"
    by (auto simp: valid_policy_iff)
  then show ?thesis by (auto simp: policy_tools_def tools_issues_none comp_def)
qed

section \<open>Exposure\<close>

definition exposed :: "js_object \<Rightarrow> bool" where
  "exposed tool \<longleftrightarrow> js_get tool ''execution_location'' = JStr ''sandbox''
     \<and> (js_get tool ''transport_visibility'' = JStr ''sandbox'' \<or> js_get tool ''transport_visibility'' = JStr ''both'')"

lemma local_runtime:
  "rm_environment (sandboxToolRuntimeMetadata tool) = AGENTS_API_RUNTIME_LOCAL
   \<and> rm_capability_scope (sandboxToolRuntimeMetadata tool) = AGENTS_API_RUNTIME_LOCAL
   \<longleftrightarrow> js_get tool ''execution_location'' = JStr ''sandbox''"
  by (auto simp: sandboxToolRuntimeMetadata_def runtimeMetadataForExecutionLocation_def AGENTS_API_RUNTIME_LOCAL_def
      AGENTS_API_CONTROL_PLANE_def split: jsval.splits)

lemma descriptor_visible: "td_visible (runtimeToolDescriptor tool) = exposed tool"
  using local_runtime [of tool] by (auto simp: runtimeToolDescriptor_def Let_def exposed_def)

lemma descriptor_fields:
  "td_id (runtimeToolDescriptor tool) = js_get tool ''id''"
  "td_runtimeToolId (runtimeToolDescriptor tool) = js_get tool ''runtime_tool_id''"
  "td_allowed (runtimeToolDescriptor tool) = js_get tool ''allowed''"
  "td_aliases (runtimeToolDescriptor tool) = tool_aliases tool"
  by (simp_all add: runtimeToolDescriptor_def Let_def)

lemma ok_runtime_id: "tool_ok tool \<Longrightarrow> \<exists>s. js_get tool ''runtime_tool_id'' = JStr s \<and> trim s \<noteq> []"
  by (auto simp: tool_ok_def text_value_def split: jsval.splits)

lemma set_tool_ids:
  assumes "\<forall>tool \<in> set tools. tool_ok tool"
  shows "set (tool_ids P (map runtimeToolDescriptor tools))
    = {text_value (js_get tool ''runtime_tool_id'') | tool. tool \<in> set tools \<and> P (runtimeToolDescriptor tool)}"
proof (rule set_eqI)
  fix s
  have "s \<in> set (tool_ids P (map runtimeToolDescriptor tools)) \<longleftrightarrow> s \<noteq> [] \<and>
      (\<exists>tool \<in> set tools. P (runtimeToolDescriptor tool) \<and> s = trim (js_string (js_get tool ''runtime_tool_id'')))"
    by (auto simp: tool_ids_def set_unique_strings descriptor_fields)
  also have "\<dots> \<longleftrightarrow> (\<exists>tool \<in> set tools. P (runtimeToolDescriptor tool) \<and> s = text_value (js_get tool ''runtime_tool_id''))"
  proof -
    have "trim (js_string (js_get tool ''runtime_tool_id'')) = text_value (js_get tool ''runtime_tool_id'')
        \<and> text_value (js_get tool ''runtime_tool_id'') \<noteq> []" if "tool \<in> set tools" for tool
      using ok_runtime_id [of tool] assms that by fastforce
    then show ?thesis by metis
  qed
  finally show "s \<in> set (tool_ids P (map runtimeToolDescriptor tools)) \<longleftrightarrow>
      s \<in> {text_value (js_get tool ''runtime_tool_id'') | tool. tool \<in> set tools \<and> P (runtimeToolDescriptor tool)}" by blast
qed

lemma exposed_declares_local:
  assumes "tool_ok tool" and "exposed tool"
  shows "text_value (js_get (record_fields (js_get tool ''runtime'')) ''environment'') = AGENTS_API_RUNTIME_LOCAL
    \<and> text_value (js_get (record_fields (js_get tool ''runtime'')) ''capability_scope'') = AGENTS_API_RUNTIME_LOCAL"
proof -
  have "trim ''sandbox'' = ''sandbox''" by code_simp
  with assms show ?thesis
    by (auto simp: tool_ok_def exposed_def runtimeMetadataForExecutionLocation_def)
qed

lemma alias_found:
  assumes "resolveRuntimeToolAlias (resolveEffectiveRuntimeToolPolicy policy) text = Some t"
  shows "t \<in> set (ep_tools (resolveEffectiveRuntimeToolPolicy policy)) \<and> trim text \<in> set (td_aliases t)"
proof -
  let ?P = "\<lambda>t. td_id t = JStr (trim text) \<or> td_runtimeToolId t = JStr (trim text) \<or> trim text \<in> set (td_aliases t)"
  from assms have ne: "trim text \<noteq> []" and found: "find ?P (ep_tools (resolveEffectiveRuntimeToolPolicy policy)) = Some t"
    by (auto simp: resolveRuntimeToolAlias_def Let_def split: if_splits)
  from found have t: "t \<in> set (ep_tools (resolveEffectiveRuntimeToolPolicy policy))" "?P t"
    by (auto simp: find_Some_iff in_set_conv_nth)
  then obtain tool where tool: "t = runtimeToolDescriptor tool"
    by (auto simp: resolveEffectiveRuntimeToolPolicy_def Let_def)
  have "trim text \<in> set (tool_aliases tool)" if "js_get tool ''id'' = JStr (trim text) \<or> js_get tool ''runtime_tool_id'' = JStr (trim text)"
  proof -
    have "trim (js_string (JStr (trim text))) = trim text" by simp
    with that ne show ?thesis unfolding tool_aliases_def set_unique_strings by (metis Un_iff list.set_intros set_append)
  qed
  with t tool show ?thesis by (auto simp: descriptor_fields)
qed


definition sample_tool :: "string \<Rightarrow> string \<Rightarrow> string \<Rightarrow> bool \<Rightarrow> jsval" where
  "sample_tool ident location visibility allowed = JObj
     [(''id'', JStr ident), (''runtime_tool_id'', JStr (''client/'' @ ident)), (''execution_location'', JStr location),
      (''transport_visibility'', JStr visibility), (''allowed'', JBool allowed),
      (''runtime'', JObj [(''environment'', JStr (if location = ''sandbox'' then ''runtime_local'' else ''control_plane'')),
                          (''capability_scope'', JStr (if location = ''sandbox'' then ''runtime_local'' else ''control_plane''))])]"

definition sample_policy :: jsval where
  "sample_policy = JObj [(''schema'', JStr SANDBOX_TOOL_POLICY_SCHEMA), (''version'', JInt 1),
     (''tools'', JArr [sample_tool ''write'' ''sandbox'' ''sandbox'' True, sample_tool ''review'' ''parent'' ''parent'' True,
        sample_tool ''token'' ''sandbox'' ''hidden'' True, sample_tool ''shell'' ''sandbox'' ''both'' False])]"

lemma sample_policy_valid: "validateSandboxToolPolicySnapshot sample_policy = []"
  by code_simp


section \<open>Policies from a list of tools\<close>

lemma from_allowed_tools:
  "policy_tools (sandboxToolPolicyFromAllowedTools allowedTools metadata)
   = map (record_fields \<circ> sandbox_tool) (unique_strings allowedTools)"
  by (simp add: policy_tools_def sandboxToolPolicyFromAllowedTools_def)

lemma sandbox_tool_exposed: "exposed (record_fields (sandbox_tool tool)) \<and> js_get (record_fields (sandbox_tool tool)) ''allowed'' = JBool True"
  by (simp add: exposed_def sandbox_tool_def)

text \<open>Such a policy is valid exactly when no name consists of separators alone.\<close>

lemma sandbox_tool_ok:
  "tool_ok (record_fields (sandbox_tool tool)) \<longleftrightarrow> trim tool \<noteq> [] \<and> trim (providerSafeRuntimeToolId tool) \<noteq> []"
proof -
  have "trim ''sandbox'' = ''sandbox''" "trim ''runtime_local'' = ''runtime_local''" by code_simp+
  then show ?thesis
    by (auto simp: tool_ok_def sandbox_tool_def runtimeMetadataForExecutionLocation_def AGENTS_API_RUNTIME_LOCAL_def)
qed

lemma from_allowed_valid:
  "validateSandboxToolPolicySnapshot (sandboxToolPolicyFromAllowedTools allowedTools metadata) = []
   \<longleftrightarrow> (\<forall>tool \<in> set (unique_strings allowedTools). trim (providerSafeRuntimeToolId tool) \<noteq> [])"
proof -
  let ?tools = "map sandbox_tool (unique_strings allowedTools)"
  have "(\<lambda>v. text_value (js_get (record_fields v) ''id'')) \<circ> sandbox_tool = trim" by (rule ext) (simp add: sandbox_tool_def)
  moreover have "map trim (unique_strings allowedTools) = unique_strings allowedTools"
    by (rule map_idI) (simp add: trim_unique_strings)
  ultimately have "distinct (map (\<lambda>v. text_value (js_get (record_fields v) ''id'')) ?tools)" by simp
  moreover have "(\<exists>obj. sandbox_tool tool = JObj obj \<and> tool_ok obj) \<longleftrightarrow> trim (providerSafeRuntimeToolId tool) \<noteq> []"
    if "tool \<in> set (unique_strings allowedTools)" for tool
    using that trim_unique_strings [of tool allowedTools] sandbox_tool_ok [of tool] by (simp add: sandbox_tool_def)
  ultimately have "tools_issues 0 [] ?tools = [] \<longleftrightarrow>
      (\<forall>tool \<in> set (unique_strings allowedTools). trim (providerSafeRuntimeToolId tool) \<noteq> [])"
    by (simp add: tools_issues_none)
  then show ?thesis
    by (simp add: valid_policy_iff) (simp add: sandboxToolPolicyFromAllowedTools_def)
qed

text \<open>Two names may get one runtime identifier, which the validation does not notice.\<close>

lemma runtime_ids_collide:
  "validateSandboxToolPolicySnapshot (sandboxToolPolicyFromAllowedTools (JArr [JStr ''a/b'', JStr ''a_b'']) []) = []
   \<and> sandboxAllowedRuntimeToolIds (sandboxToolPolicyFromAllowedTools (JArr [JStr ''a/b'', JStr ''a_b'']) []) = [''a_b'']"
  by code_simp

text \<open>A bridge without a list of its own offers all tools of the policy.\<close>

lemma bridge_lists_all_tools:
  "js_get (toolBridgeFromSandboxToolPolicy sample_policy []) ''allowed_tools''
   = JArr [JStr ''write'', JStr ''review'', JStr ''token'', JStr ''shell'']"
  by code_simp

text \<open>The validation trims the location, the descriptor does not.\<close>

lemma padded_location:
  "runtimeMetadataForExecutionLocation (trim '' sandbox'') \<noteq> None
   \<and> td_parentOnly (runtimeToolDescriptor [(''execution_location'', JStr '' sandbox'')])"
  by code_simp
end
