(* ===== verification/Site_Contexts.thy ===== *)
theory Site_Contexts
  imports Allocation_Lifecycle Principal_Credentials Stable_Json "HOL-Library.Word"
begin

text \<open>
  \<open>packages/runtime-cloudflare/src/site-context.ts\<close>: the sites a worker serves.  They are configured
  as JSON text, or their names are previews that carry a signature of their own, so that a reader can
  tell an allocated name from an invented one without a database.  Every object of a site is stored
  under keys that start with the site's root.

  \<open>JSON.parse\<close>, the URL parser, \<open>crypto.randomUUID\<close> and HMAC-SHA-256 over two UTF-8 texts are
  arguments: the platform provides them.  A request enters as the hostname of its URL.  Numbers of
  generations are exact, which JavaScript's are up to \<open>2 ^ 53\<close>.
\<close>

section \<open>Data\<close>

record preview_domain =
  pd_suffix :: string
  pd_hostSecret :: string

record site_storage_keys =
  sk_root :: string
  sk_markdownCurrent :: string
  sk_markdownRevisionPrefix :: string
  sk_markdownObjectPrefix :: string
  sk_publishedCurrent :: string
  sk_publishedRevisionPrefix :: string
  sk_publishedPagePrefix :: string
  sk_publicationJobPrefix :: string
  sk_publicationProgressPrefix :: string
  sk_publicationClaimPrefix :: string
  sk_publicationReceiptPrefix :: string
  sk_uploadObjectPrefix :: string
  sk_wpContentObjectPrefix :: string
  sk_staticArtifactPrefix :: string

text \<open>What the URL parser says of an origin.\<close>

record parsed_origin =
  og_protocol :: string
  og_username :: string
  og_password :: string
  og_hostname :: string
  og_pathname :: string
  og_search :: string
  og_hash :: string
  og_origin :: string

record site_platform =
  sp_json :: "string \<Rightarrow> jsval option"
  sp_url :: "string \<Rightarrow> parsed_origin option"
  sp_hmac :: "string \<Rightarrow> string \<Rightarrow> 8 word list"

definition DEFAULT_SITE_CONTEXT :: site_context where
  "DEFAULT_SITE_CONTEXT = \<lparr>ctx_id = ''default'',
     ctx_hostname = ''wp-codebox-cloudflare-runtime.chubes.workers.dev'',
     ctx_origin = ''https://wp-codebox-cloudflare-runtime.chubes.workers.dev''\<rparr>"

section \<open>Hostnames\<close>

text \<open>\<open>toLowerCase\<close> on Latin-1.\<close>

definition latin_lower :: "char \<Rightarrow> char" where
  "latin_lower c =
     (if is_upper c \<or> char_between (CHR 0xC0) (CHR 0xDE) c \<and> c \<noteq> CHR 0xD7
      then char_of ((of_char c :: nat) + 32) else c)"

definition normalizeHostname :: "string \<Rightarrow> string" where
  "normalizeHostname hostname =
     (if starts_with ''['' hostname \<and> ends_with '']'' hostname then butlast (tl hostname) else hostname)"

definition isLocalHostname :: "string \<Rightarrow> bool" where
  "isLocalHostname hostname \<longleftrightarrow> hostname = ''localhost'' \<or> ends_with ''.localhost'' hostname
     \<or> hostname = ''127.0.0.1'' \<or> hostname = ''::1''"

text \<open>\<open>/^[a-z0-9](?:[a-z0-9-]{0,61}[a-z0-9])?$/\<close>\<close>

definition name_letter :: "char \<Rightarrow> bool" where
  "name_letter c \<longleftrightarrow> is_lower c \<or> is_digit c"

definition dns_label :: "string \<Rightarrow> bool" where
  "dns_label s \<longleftrightarrow> s \<noteq> [] \<and> length s \<le> 63 \<and> name_letter (hd s) \<and> name_letter (last s)
     \<and> list_all (\<lambda>c. name_letter c \<or> c = CHR ''-'') s"

definition isDnsHostname :: "string \<Rightarrow> bool" where
  "isDnsHostname s \<longleftrightarrow> length s \<le> 253 \<and> list_all dns_label (split_on (CHR ''.'') s)"

definition isSiteId :: "jsval \<Rightarrow> bool" where
  "isSiteId v = (case v of JStr s \<Rightarrow> validSiteId s | _ \<Rightarrow> False)"

section \<open>Configured sites\<close>

definition normalizeSiteContext :: "site_platform \<Rightarrow> string \<Rightarrow> string \<Rightarrow> string \<Rightarrow> string + site_context" where
  "normalizeSiteContext platform siteId hostname origin =
     (if hostname \<noteq> map latin_lower hostname \<or> CHR ''/'' \<in> set hostname \<or> CHR 0x5C \<in> set hostname
         \<or> CHR ''@'' \<in> set hostname \<or> (CHR '':'' \<in> set hostname \<and> hostname \<noteq> ''::1'')
      then Inl ''Site hostname is invalid.''
      else case sp_url platform origin of
        None \<Rightarrow> Inl ''Site origin is invalid.''
      | Some url \<Rightarrow>
          if hostname \<noteq> normalizeHostname (og_hostname url) \<or> og_origin url \<noteq> origin \<or> og_username url \<noteq> []
             \<or> og_password url \<noteq> [] \<or> og_pathname url \<noteq> ''/'' \<or> og_search url \<noteq> [] \<or> og_hash url \<noteq> []
          then Inl ''Site origin is not canonical.''
          else if og_protocol url \<noteq> ''https:'' \<and> \<not> (og_protocol url = ''http:'' \<and> isLocalHostname hostname)
          then Inl ''Site origin must use HTTPS except for local hosts.''
          else Inr \<lparr>ctx_id = siteId, ctx_hostname = hostname, ctx_origin = origin\<rparr>)"

definition parse_site_context :: "site_platform \<Rightarrow> jsval \<Rightarrow> string + site_context" where
  "parse_site_context platform v =
     (if \<not> is_record v then Inl ''Site context is invalid.''
      else case (js_member v ''id'', js_member v ''hostname'', js_member v ''origin'') of
        (JStr siteId, JStr hostname, JStr origin) \<Rightarrow>
          if isSiteId (JStr siteId) then normalizeSiteContext platform siteId hostname origin
          else Inl ''Site context is invalid.''
      | _ \<Rightarrow> Inl ''Site context is invalid.'')"

text \<open>The loop over the entries, with the ids and hostnames seen.\<close>

fun parse_entries :: "site_platform \<Rightarrow> string list \<Rightarrow> string list \<Rightarrow> jsval list \<Rightarrow> string + site_context list" where
  "parse_entries platform ids hostnames [] = Inr []"
| "parse_entries platform ids hostnames (v # vs) =
     (case parse_site_context platform v of
        Inl e \<Rightarrow> Inl e
      | Inr context \<Rightarrow>
          if ctx_id context \<in> set ids \<or> ctx_hostname context \<in> set hostnames
          then Inl ''Site contexts must have unique ids and hostnames.''
          else (case parse_entries platform (ctx_id context # ids) (ctx_hostname context # hostnames) vs of
                  Inl e \<Rightarrow> Inl e
                | Inr contexts \<Rightarrow> Inr (context # contexts)))"

definition parseSiteContexts :: "site_platform \<Rightarrow> string option \<Rightarrow> string + site_context list" where
  "parseSiteContexts platform configured =
     (case configured of
        None \<Rightarrow> Inr [DEFAULT_SITE_CONTEXT]
      | Some text \<Rightarrow>
          if trim text = [] then Inr [DEFAULT_SITE_CONTEXT]
          else (case sp_json platform text of
                  None \<Rightarrow> Inl ''WORDPRESS_SITE_CONTEXTS must be valid JSON.''
                | Some (JArr (v # vs)) \<Rightarrow> parse_entries platform [] [] (v # vs)
                | Some _ \<Rightarrow> Inl ''WORDPRESS_SITE_CONTEXTS must be a non-empty array.''))"

definition resolveSiteContext :: "string \<Rightarrow> site_context list \<Rightarrow> string + site_context" where
  "resolveSiteContext hostname contexts =
     (case find (\<lambda>c. ctx_hostname c = hostname) contexts of
        None \<Rightarrow> Inl ''Unknown site hostname.'' | Some c \<Rightarrow> Inr c)"

definition resolveSiteContextFromRequest :: "string \<Rightarrow> site_context list \<Rightarrow> string + site_context" where
  "resolveSiteContextFromRequest hostname contexts = resolveSiteContext (normalizeHostname hostname) contexts"

section \<open>Preview names\<close>

definition previewDomain :: "string option \<Rightarrow> string option \<Rightarrow> string + preview_domain option" where
  "previewDomain suffix hostSecret =
     (case (suffix, hostSecret) of
        (None, None) \<Rightarrow> Inr None
      | (Some s, Some secret) \<Rightarrow>
          if length secret < 32 then Inl ''Preview hostname configuration is invalid.''
          else let normalized = normalizeHostname s in
            if s \<noteq> normalized \<or> \<not> isDnsHostname normalized \<or> length (split_on (CHR ''.'') normalized) < 2
            then Inl ''Preview hostname configuration is invalid.''
            else Inr (Some \<lparr>pd_suffix = normalized, pd_hostSecret = secret\<rparr>)
      | _ \<Rightarrow> Inl ''Preview hostname configuration is invalid.'')"

text \<open>\<open>byte.toString(16).padStart(2, "0")\<close>\<close>

definition byte_hex :: "8 word \<Rightarrow> string" where
  "byte_hex b = (let n = unat b; s = (if n < 16 then [hex_digit n] else [hex_digit (n div 16), hex_digit (n mod 16)])
     in replicate (2 - length s) (CHR ''0'') @ s)"

definition preview_message :: "preview_domain \<Rightarrow> string \<Rightarrow> int \<Rightarrow> string" where
  "preview_message domain nonce generation =
     ''wp-codebox-preview-host/v1:'' @ pd_suffix domain @ '':'' @ nonce @ '':'' @ string_of_int generation"

definition previewSignature :: "site_platform \<Rightarrow> preview_domain \<Rightarrow> string \<Rightarrow> int \<Rightarrow> string" where
  "previewSignature platform domain nonce generation =
     concat (map byte_hex (take 8 (sp_hmac platform (pd_hostSecret domain) (preview_message domain nonce generation))))"

text \<open>\<open>/^s([a-f0-9]{24})-g([1-9][0-9]*)-([a-f0-9]{16})$/\<close>: three parts between dashes.\<close>

definition preview_parts :: "string \<Rightarrow> (string \<times> int \<times> string) option" where
  "preview_parts siteId =
     (case split_on (CHR ''-'') siteId of
        [c # nonce, g, h] \<Rightarrow>
          if c = CHR ''s'' \<and> length nonce = 24 \<and> list_all is_hex nonce \<and> hex16 h
          then map_option (\<lambda>generation. (nonce, generation, h)) (generation_part g) else None
      | _ \<Rightarrow> None)"

definition previewSiteContext :: "site_platform \<Rightarrow> string \<Rightarrow> preview_domain \<Rightarrow> string + site_context" where
  "previewSiteContext platform siteId domain =
     (case preview_parts siteId of
        None \<Rightarrow> Inl ''Unknown site hostname.''
      | Some (nonce, generation, signature) \<Rightarrow>
          if signature \<noteq> previewSignature platform domain nonce generation then Inl ''Unknown site hostname.''
          else let hostname = siteId @ ''.'' @ pd_suffix domain
               in Inr \<lparr>ctx_id = siteId, ctx_hostname = hostname, ctx_origin = ''https://'' @ hostname\<rparr>)"

definition preview_site_id :: "site_platform \<Rightarrow> preview_domain \<Rightarrow> string \<Rightarrow> int \<Rightarrow> string" where
  "preview_site_id platform domain nonce generation =
     ''s'' @ nonce @ ''-g'' @ string_of_int generation @ ''-'' @ previewSignature platform domain nonce generation"

definition allocatePreviewSiteContext ::
    "site_platform \<Rightarrow> string \<Rightarrow> preview_domain \<Rightarrow> int \<Rightarrow> string + site_context" where
  "allocatePreviewSiteContext platform uuid domain generation =
     (let nonce = take 24 (filter (\<lambda>c. c \<noteq> CHR ''-'') uuid)
      in previewSiteContext platform (preview_site_id platform domain nonce generation) domain)"

definition resolvePreviewSiteContextFromRequest ::
    "site_platform \<Rightarrow> string \<Rightarrow> preview_domain option \<Rightarrow> string + site_context" where
  "resolvePreviewSiteContextFromRequest platform request_hostname configured =
     (case configured of
        None \<Rightarrow> Inl ''Unknown site hostname.''
      | Some domain \<Rightarrow>
          let hostname = normalizeHostname request_hostname; suffix = CHR ''.'' # pd_suffix domain in
          if \<not> ends_with suffix hostname then Inl ''Unknown site hostname.''
          else let siteId = take (length hostname - length suffix) hostname in
            if siteId = [] \<or> CHR ''.'' \<in> set siteId then Inl ''Unknown site hostname.''
            else previewSiteContext platform siteId domain)"

section \<open>Keys in the bucket\<close>

definition siteStorageKeys :: "site_context \<Rightarrow> site_storage_keys" where
  "siteStorageKeys site =
     (let prefix = ''sites/'' @ ctx_id site in
      \<lparr>sk_root = prefix,
       sk_markdownCurrent = prefix @ ''/markdown/current.json'',
       sk_markdownRevisionPrefix = prefix @ ''/markdown/revisions'',
       sk_markdownObjectPrefix = prefix @ ''/markdown/objects'',
       sk_publishedCurrent = prefix @ ''/publications/current.json'',
       sk_publishedRevisionPrefix = prefix @ ''/publications/revisions'',
       sk_publishedPagePrefix = prefix @ ''/pages'',
       sk_publicationJobPrefix = prefix @ ''/publications/jobs'',
       sk_publicationProgressPrefix = prefix @ ''/publications/job-progress'',
       sk_publicationClaimPrefix = prefix @ ''/publications/job-claims'',
       sk_publicationReceiptPrefix = prefix @ ''/publications/job-receipts'',
       sk_uploadObjectPrefix = prefix @ ''/uploads/objects'',
       sk_wpContentObjectPrefix = prefix @ ''/wp-content/objects'',
       sk_staticArtifactPrefix = prefix @ ''/import-artifacts''\<rparr>)"

section \<open>Decimal numbers\<close>

lemma of_char_digit: "d < 10 \<Longrightarrow> (of_char (char_of (48 + d) :: char) :: nat) = 48 + d"
  by (simp add: of_char_of take_bit_eq_mod)

lemma is_digit_char: "d < 10 \<Longrightarrow> is_digit (char_of (48 + d :: nat))"
  by (simp add: is_digit_def char_between_def of_char_digit)

lemma string_of_nat_digits: "list_all is_digit (string_of_nat n)"
proof (induction n rule: string_of_nat.induct)
  case (1 n)
  then show ?case by (subst string_of_nat.simps) (simp add: is_digit_char)
qed

lemma string_of_nat_ne [simp]: "string_of_nat n \<noteq> []"
  by (subst string_of_nat.simps) simp

lemma int_of_char: "(of_char c :: int) = int (of_char c)"
  by (simp add: of_nat_of_char)

lemma string_of_nat_value: "foldl (\<lambda>m x. 10 * m + (of_char x - 48)) 0 (string_of_nat n) = int n"
proof (induction n rule: string_of_nat.induct)
  case (1 n)
  show ?case
  proof (cases "n < 10")
    case True
    then show ?thesis by (subst string_of_nat.simps) (simp add: int_of_char of_char_digit)
  next
    case False
    then have "foldl (\<lambda>m x. 10 * m + (of_char x - 48)) 0 (string_of_nat (n div 10)) = int (n div 10)"
      by (rule 1)
    moreover have "(of_char (char_of (48 + n mod 10) :: char) :: int) = 48 + int (n mod 10)"
      by (simp add: int_of_char of_char_digit)
    moreover have "10 * int (n div 10) + int (n mod 10) = int n" by presburger
    ultimately show ?thesis using False by (subst string_of_nat.simps) simp
  qed
qed

lemma string_of_nat_hd: "0 < n \<Longrightarrow> hd (string_of_nat n) \<noteq> CHR ''0''"
proof (induction n rule: string_of_nat.induct)
  case (1 n)
  show ?case
  proof (cases "n < 10")
    case True
    then have "(of_char (hd (string_of_nat n)) :: nat) = 48 + n"
      by (subst string_of_nat.simps) (simp add: of_char_digit)
    then show ?thesis using 1 by auto
  next
    case False
    then show ?thesis using 1 by (subst string_of_nat.simps) simp
  qed
qed

lemma string_of_nat_length: "n < 10 ^ k \<Longrightarrow> 0 < k \<Longrightarrow> length (string_of_nat n) \<le> k"
proof (induction k arbitrary: n)
  case (Suc k)
  show ?case
  proof (cases "n < 10")
    case True
    then show ?thesis by (subst string_of_nat.simps) simp
  next
    case False
    then have "0 < k" using Suc.prems by (cases k) auto
    moreover have "n div 10 < 10 ^ k" using Suc.prems(1) by (simp add: less_mult_imp_div_less mult.commute)
    ultimately have "length (string_of_nat (n div 10)) \<le> k" by (rule Suc.IH [rotated])
    then show ?thesis using False by (subst string_of_nat.simps) simp
  qed
qed simp

lemma generation_part_print: "1 \<le> g \<Longrightarrow> generation_part (CHR ''g'' # string_of_int g) = Some g"
proof -
  assume g: "1 \<le> g"
  obtain d ds where s: "string_of_nat (nat g) = d # ds" by (cases "string_of_nat (nat g)") auto
  have "d \<noteq> CHR ''0''" using string_of_nat_hd [of "nat g"] g by (simp add: s)
  moreover have "is_digit d \<and> list_all is_digit ds" using string_of_nat_digits [of "nat g"] by (simp add: s)
  ultimately show ?thesis
    using string_of_nat_value [of "nat g"] g by (simp add: generation_part_def string_of_int_def s)
qed

lemma digit_value:
  assumes "is_digit c"
  obtains k where "k < 10" and "(of_char c :: int) = 48 + int k" and "char_of (48 + k) = c"
proof -
  define k where "k = of_char c - (48 :: nat)"
  have c: "48 \<le> (of_char c :: nat)" "(of_char c :: nat) \<le> 57"
    using assms by (simp_all add: is_digit_def char_between_def)
  then have k: "48 + k = of_char c" by (simp add: k_def)
  show thesis by (rule that [of k]) (use c k in \<open>simp_all add: int_of_char\<close>)
qed

text \<open>A numeral without leading zeros is what its number prints as.\<close>

lemma print_value:
  assumes "is_digit d" and "d \<noteq> CHR ''0''" and "list_all is_digit ds"
  shows "1 \<le> foldl (\<lambda>m x. 10 * m + (of_char x - 48)) (0 :: int) (d # ds)
    \<and> string_of_nat (nat (foldl (\<lambda>m x. 10 * m + (of_char x - 48)) 0 (d # ds))) = d # ds"
  using assms(3)
proof (induction ds rule: rev_induct)
  case Nil
  obtain k where k: "k < 10" "(of_char d :: int) = 48 + int k" "char_of (48 + k) = d"
    using assms(1) by (rule digit_value)
  have "k \<noteq> 0"
  proof
    assume "k = 0"
    then have "d = char_of (48 :: nat)" using k(3) by simp
    also have "\<dots> = CHR ''0''" by code_simp
    finally show False using assms(2) by simp
  qed
  then show ?case using k by (subst string_of_nat.simps) simp
next
  case (snoc x ds)
  define v where "v = foldl (\<lambda>m x. 10 * m + (of_char x - 48)) (0 :: int) (d # ds)"
  obtain k where k: "k < 10" "(of_char x :: int) = 48 + int k" "char_of (48 + k) = x"
    using snoc.prems by (auto elim: digit_value)
  have v: "1 \<le> v" "string_of_nat (nat v) = d # ds" using snoc unfolding v_def by auto
  have v': "foldl (\<lambda>m x. 10 * m + (of_char x - 48)) (0 :: int) (d # ds @ [x]) = 10 * v + int k"
    by (simp add: v_def k(2))
  have n: "nat (10 * v + int k) = 10 * nat v + k" using v(1) by (simp add: nat_add_distrib nat_mult_distrib)
  have "string_of_nat (10 * nat v + k) = string_of_nat (nat v) @ [x]"
    using v(1) k by (subst string_of_nat.simps) simp
  then show ?case using v v' n by simp
qed

lemma generation_partD:
  assumes "generation_part g = Some n"
  shows "1 \<le> n \<and> g = CHR ''g'' # string_of_int n"
proof -
  obtain d ds where g: "g = CHR ''g'' # d # ds" and d: "is_digit d" "d \<noteq> CHR ''0''" "list_all is_digit ds"
    and n: "n = foldl (\<lambda>m x. 10 * m + (of_char x - 48)) 0 (d # ds)"
    using assms by (auto simp: generation_part_def split: list.splits if_splits)
  show ?thesis using print_value [OF d] by (simp add: g n string_of_int_def)
qed

section \<open>Preview names are what they sign\<close>

lemma join_split: "join_with [d] (split_on d s) = s"
proof (induction s)
  case (Cons c s)
  obtain w ws where "split_on d s = w # ws" by (cases "split_on d s") simp_all
  then show ?case using Cons by (cases ws) auto
qed simp

lemma hex_digit_is_hex: "n < 16 \<Longrightarrow> is_hex (hex_digit n)"
  by (simp add: hex_digit_def is_hex_def is_digit_def char_between_def of_char_of take_bit_eq_mod)

lemma byte_hex: "length (byte_hex b) = 2 \<and> list_all is_hex (byte_hex b)"
proof -
  have "unat b < 256" using unsigned_less [of b, where ?'a = nat] by simp
  then have "unat b div 16 < 16" by simp
  then show ?thesis
    by (auto simp: byte_hex_def Let_def hex_digit_is_hex is_hex_def [of "CHR ''0''"] is_digit_def char_between_def)
qed

lemma hex16_hex: "hex16 s \<longleftrightarrow> length s = 16 \<and> list_all is_hex s"
  by (simp add: hex16_def is_hex_def list_all_iff)

definition hmac_sha256 :: "site_platform \<Rightarrow> bool" where
  "hmac_sha256 platform \<longleftrightarrow> (\<forall>key message. length (sp_hmac platform key message) = 32)"

lemma concat_byte_hex: "length (concat (map byte_hex bs)) = 2 * length bs \<and> list_all is_hex (concat (map byte_hex bs))"
  by (induction bs) (simp_all add: byte_hex)

lemma signature_hex: "hmac_sha256 platform \<Longrightarrow> hex16 (previewSignature platform domain nonce g)"
  by (simp add: hex16_hex previewSignature_def concat_byte_hex hmac_sha256_def)

definition preview_nonce :: "string \<Rightarrow> bool" where
  "preview_nonce nonce \<longleftrightarrow> length nonce = 24 \<and> list_all is_hex nonce"

lemma no_dash:
  "list_all is_hex s \<Longrightarrow> CHR ''-'' \<notin> set s" "list_all is_digit s \<Longrightarrow> CHR ''-'' \<notin> set s"
  by (auto simp: list_all_iff is_hex_def is_digit_def char_between_def)

lemma string_of_pos: "1 \<le> g \<Longrightarrow> list_all is_digit (string_of_int g) \<and> string_of_int g \<noteq> []"
  by (simp add: string_of_int_def string_of_nat_digits)

lemma split_three:
  assumes "CHR ''-'' \<notin> set a" "CHR ''-'' \<notin> set b" "CHR ''-'' \<notin> set c"
  shows "split_on (CHR ''-'') (a @ ''-'' @ b @ ''-'' @ c) = [a, b, c]"
  using assms by (simp add: split_on_append_sep split_on_id)

lemma split_preview:
  assumes "preview_nonce nonce" and "1 \<le> g" and "hex16 h"
  shows "split_on (CHR ''-'') (''s'' @ nonce @ ''-g'' @ string_of_int g @ ''-'' @ h)
    = [CHR ''s'' # nonce, CHR ''g'' # string_of_int g, h]"
proof -
  have "CHR ''-'' \<notin> set (CHR ''s'' # nonce)" using assms(1) no_dash(1) by (simp add: preview_nonce_def)
  moreover have "CHR ''-'' \<notin> set (CHR ''g'' # string_of_int g)"
    using string_of_pos [OF assms(2)] no_dash(2) by simp
  moreover have "CHR ''-'' \<notin> set h" using assms(3) no_dash(1) by (simp add: hex16_hex)
  ultimately show ?thesis using split_three [of "CHR ''s'' # nonce" "CHR ''g'' # string_of_int g" h] by simp
qed

lemma preview_parts_iff:
  "preview_parts siteId = Some (nonce, g, h) \<longleftrightarrow> preview_nonce nonce \<and> 1 \<le> g \<and> hex16 h
     \<and> siteId = ''s'' @ nonce @ ''-g'' @ string_of_int g @ ''-'' @ h"
proof
  assume parts: "preview_parts siteId = Some (nonce, g, h)"
  then obtain p where p: "split_on (CHR ''-'') siteId = [CHR ''s'' # nonce, p, h]"
    "preview_nonce nonce" "hex16 h" "generation_part p = Some g"
    by (auto simp: preview_parts_def preview_nonce_def split: list.splits if_splits)
  have "siteId = join_with ''-'' [CHR ''s'' # nonce, p, h]" using join_split [of "CHR ''-''" siteId] p(1) by simp
  then show "preview_nonce nonce \<and> 1 \<le> g \<and> hex16 h \<and> siteId = ''s'' @ nonce @ ''-g'' @ string_of_int g @ ''-'' @ h"
    using generation_partD [OF p(4)] p by simp
next
  assume "preview_nonce nonce \<and> 1 \<le> g \<and> hex16 h \<and> siteId = ''s'' @ nonce @ ''-g'' @ string_of_int g @ ''-'' @ h"
  then show "preview_parts siteId = Some (nonce, g, h)"
    using split_preview [of nonce g h] generation_part_print [of g]
    by (simp add: preview_parts_def preview_nonce_def)
qed

text \<open>The context of an allocated name.\<close>

definition signed_context :: "site_platform \<Rightarrow> preview_domain \<Rightarrow> string \<Rightarrow> int \<Rightarrow> site_context" where
  "signed_context platform domain nonce generation =
     (let siteId = preview_site_id platform domain nonce generation; hostname = siteId @ ''.'' @ pd_suffix domain
      in \<lparr>ctx_id = siteId, ctx_hostname = hostname, ctx_origin = ''https://'' @ hostname\<rparr>)"

lemma previewSiteContext_iff:
  assumes "hmac_sha256 platform"
  shows "previewSiteContext platform siteId domain = Inr ctx \<longleftrightarrow>
    (\<exists>nonce g. preview_nonce nonce \<and> 1 \<le> g \<and> siteId = preview_site_id platform domain nonce g
       \<and> ctx = signed_context platform domain nonce g)"
proof
  assume "previewSiteContext platform siteId domain = Inr ctx"
  then obtain nonce g where "preview_parts siteId = Some (nonce, g, previewSignature platform domain nonce g)"
    and "ctx = \<lparr>ctx_id = siteId, ctx_hostname = siteId @ ''.'' @ pd_suffix domain,
           ctx_origin = ''https://'' @ siteId @ ''.'' @ pd_suffix domain\<rparr>"
    by (auto simp: previewSiteContext_def Let_def split: option.splits if_splits)
  then show "\<exists>nonce g. preview_nonce nonce \<and> 1 \<le> g \<and> siteId = preview_site_id platform domain nonce g
       \<and> ctx = signed_context platform domain nonce g"
    by (auto simp: preview_parts_iff preview_site_id_def signed_context_def Let_def)
next
  assume "\<exists>nonce g. preview_nonce nonce \<and> 1 \<le> g \<and> siteId = preview_site_id platform domain nonce g
       \<and> ctx = signed_context platform domain nonce g"
  then obtain nonce g where n: "preview_nonce nonce" "1 \<le> g" "siteId = preview_site_id platform domain nonce g"
    and ctx: "ctx = signed_context platform domain nonce g" by blast
  have "preview_parts siteId = Some (nonce, g, previewSignature platform domain nonce g)"
    using n signature_hex [OF assms] by (simp add: preview_parts_iff preview_site_id_def)
  then show "previewSiteContext platform siteId domain = Inr ctx"
    by (simp add: previewSiteContext_def ctx signed_context_def n(3) Let_def)
qed

lemma preview_id_chars:
  assumes "hmac_sha256 platform" and "preview_nonce nonce" and "1 \<le> g"
  shows "list_all (\<lambda>c. name_letter c \<or> c = CHR ''-'') (preview_site_id platform domain nonce g)"
proof -
  have hex: "name_letter c" if "is_hex c" for c
    using that by (auto simp: is_hex_def name_letter_def is_lower_def is_digit_def char_between_def)
  have "list_all name_letter nonce" "list_all name_letter (previewSignature platform domain nonce g)"
    using assms(2) signature_hex [OF assms(1)] hex by (simp_all add: preview_nonce_def hex16_hex list_all_iff)
  moreover have "list_all name_letter (string_of_int g)"
    using string_of_pos [OF assms(3)] by (simp add: list_all_iff name_letter_def)
  ultimately show ?thesis
    by (auto simp: preview_site_id_def list_all_iff name_letter_def is_lower_def char_between_def)
qed

lemma no_dot: "list_all (\<lambda>c. name_letter c \<or> c = CHR ''-'') s \<Longrightarrow> CHR ''.'' \<notin> set s"
  by (auto simp: list_all_iff name_letter_def is_lower_def is_digit_def char_between_def)

lemma ends_with_append [simp]: "ends_with p (s @ p)"
  by (simp add: ends_with_def)

lemma ends_with_take: "ends_with p s \<Longrightarrow> take (length s - length p) s @ p = s"
  unfolding ends_with_def by (metis append_take_drop_id)

lemma resolve_preview_iff:
  assumes hmac: "hmac_sha256 platform"
  shows "resolvePreviewSiteContextFromRequest platform request (Some domain) = Inr ctx \<longleftrightarrow>
    (\<exists>nonce g. preview_nonce nonce \<and> 1 \<le> g \<and> ctx = signed_context platform domain nonce g
       \<and> normalizeHostname request = ctx_hostname ctx)"
proof
  define hostname where "hostname = normalizeHostname request"
  define suffix where "suffix = CHR ''.'' # pd_suffix domain"
  define siteId where "siteId = take (length hostname - length suffix) hostname"
  assume "resolvePreviewSiteContextFromRequest platform request (Some domain) = Inr ctx"
  then have "ends_with suffix hostname" and "previewSiteContext platform siteId domain = Inr ctx"
    by (auto simp: resolvePreviewSiteContextFromRequest_def Let_def hostname_def suffix_def siteId_def split: if_splits)
  then obtain nonce g where n: "preview_nonce nonce" "1 \<le> g" "siteId = preview_site_id platform domain nonce g"
      "ctx = signed_context platform domain nonce g" and h: "siteId @ suffix = hostname"
    using previewSiteContext_iff [OF hmac] ends_with_take [of suffix hostname] unfolding siteId_def by blast
  have "hostname = ctx_hostname ctx"
    using n(3,4) h by (simp add: signed_context_def suffix_def Let_def)
  then show "\<exists>nonce g. preview_nonce nonce \<and> 1 \<le> g \<and> ctx = signed_context platform domain nonce g
       \<and> normalizeHostname request = ctx_hostname ctx"
    using n unfolding hostname_def by blast
next
  assume "\<exists>nonce g. preview_nonce nonce \<and> 1 \<le> g \<and> ctx = signed_context platform domain nonce g
       \<and> normalizeHostname request = ctx_hostname ctx"
  then obtain nonce g where n: "preview_nonce nonce" "1 \<le> g" "ctx = signed_context platform domain nonce g"
    and h: "normalizeHostname request = ctx_hostname ctx" by blast
  define siteId where "siteId = preview_site_id platform domain nonce g"
  have host: "normalizeHostname request = siteId @ CHR ''.'' # pd_suffix domain"
    using h n(3) by (simp add: signed_context_def siteId_def Let_def)
  have "CHR ''.'' \<notin> set siteId" using no_dot [OF preview_id_chars [OF hmac n(1,2)]] by (simp add: siteId_def)
  moreover have "siteId \<noteq> []" by (simp add: siteId_def preview_site_id_def)
  moreover have "previewSiteContext platform siteId domain = Inr ctx"
    using n siteId_def previewSiteContext_iff [OF hmac] by blast
  ultimately show "resolvePreviewSiteContextFromRequest platform request (Some domain) = Inr ctx"
    by (simp add: resolvePreviewSiteContextFromRequest_def Let_def host)
qed

lemma allocate_preview:
  assumes "hmac_sha256 platform" and "list_all (\<lambda>c. is_hex c \<or> c = CHR ''-'') uuid"
    and "24 \<le> length (filter (\<lambda>c. c \<noteq> CHR ''-'') uuid)" and "1 \<le> generation"
  defines "nonce \<equiv> take 24 (filter (\<lambda>c. c \<noteq> CHR ''-'') uuid)"
  shows "preview_nonce nonce
    \<and> allocatePreviewSiteContext platform uuid domain generation = Inr (signed_context platform domain nonce generation)"
proof -
  have "list_all is_hex (filter (\<lambda>c. c \<noteq> CHR ''-'') uuid)" using assms(2) by (auto simp: list_all_iff)
  then have "list_all is_hex nonce" by (auto simp: nonce_def list_all_iff dest: in_set_takeD)
  moreover have "length nonce = 24" using assms(3) by (simp add: nonce_def)
  ultimately have n: "preview_nonce nonce" by (simp add: preview_nonce_def)
  then have "previewSiteContext platform (preview_site_id platform domain nonce generation) domain
      = Inr (signed_context platform domain nonce generation)"
    using previewSiteContext_iff [OF assms(1)] assms(4) by blast
  then show ?thesis using n by (simp add: allocatePreviewSiteContext_def nonce_def)
qed

lemma signed_identity:
  assumes "hmac_sha256 platform" and "preview_nonce nonce" and "1 \<le> g"
  shows "allocationIdentity (preview_site_id platform domain nonce g)
    = \<lparr>id_site = preview_site_id platform domain nonce g, id_generation = g\<rparr>"
  using split_preview [OF assms(2,3) signature_hex [OF assms(1)]] signature_hex [OF assms(1)]
    generation_part_print [OF assms(3)]
  by (simp add: allocationIdentity_def preview_site_id_def)

lemma signed_id_valid:
  assumes "hmac_sha256 platform" and "preview_nonce nonce" and "1 \<le> g" and "g < 10 ^ 19"
  shows "validSiteId (preview_site_id platform domain nonce g) \<and> dns_label (preview_site_id platform domain nonce g)"
proof -
  let ?h = "previewSignature platform domain nonce g"
  let ?id = "preview_site_id platform domain nonce g"
  have h: "hex16 ?h" by (rule signature_hex [OF assms(1)])
  have "nat g < 10 ^ 19" using assms(3,4) by (simp add: nat_less_iff)
  then have "length (string_of_int g) \<le> 19" using assms(3) string_of_nat_length [of "nat g" 19] by (simp add: string_of_int_def)
  then have len: "length ?id \<le> 63" using assms(2) h by (simp add: preview_site_id_def preview_nonce_def hex16_hex)
  have hex: "name_letter c" if "is_hex c" for c
    using that by (auto simp: is_hex_def name_letter_def is_lower_def is_digit_def char_between_def)
  have s: "split_on (CHR ''-'') ?id = [CHR ''s'' # nonce, CHR ''g'' # string_of_int g, ?h]"
    using split_preview [OF assms(2,3) h] by (simp add: preview_site_id_def)
  have parts: "list_all name_letter nonce" "list_all name_letter (string_of_int g)" "list_all name_letter ?h" "?h \<noteq> []"
    using assms(2) h hex string_of_pos [OF assms(3)]
    by (auto simp: preview_nonce_def hex16_hex list_all_iff name_letter_def)
  have letters: "name_letter (CHR ''s'')" "name_letter (CHR ''g'')" by code_simp+
  have "validSiteId ?id" using s parts letters len by (simp add: validSiteId_def name_letter_def [abs_def])
  moreover have "name_letter (last ?id)" using parts(3,4) by (simp add: preview_site_id_def list_all_iff)
  moreover have "hd ?id = CHR ''s''" "?id \<noteq> []" by (simp_all add: preview_site_id_def)
  ultimately show ?thesis
    using letters len preview_id_chars [OF assms(1-3)] by (simp add: dns_label_def)
qed

section \<open>Configured sites are distinct and found by their hostnames\<close>

lemma parse_site_context_Inr:
  assumes "parse_site_context platform v = Inr c"
  shows "validSiteId (ctx_id c) \<and> (\<exists>url. sp_url platform (ctx_origin c) = Some url \<and> og_origin url = ctx_origin c
    \<and> ctx_hostname c = normalizeHostname (og_hostname url)
    \<and> (og_protocol url = ''https:'' \<or> og_protocol url = ''http:'' \<and> isLocalHostname (ctx_hostname c)))"
  using assms
  by (auto simp: parse_site_context_def normalizeSiteContext_def isSiteId_def split: jsval.splits if_splits option.splits)

lemma parse_entries_Inr:
  "parse_entries platform ids hostnames vs = Inr cs \<Longrightarrow>
     length cs = length vs \<and> distinct (map ctx_id cs) \<and> distinct (map ctx_hostname cs)
     \<and> set (map ctx_id cs) \<inter> set ids = {} \<and> set (map ctx_hostname cs) \<inter> set hostnames = {}
     \<and> (\<forall>c \<in> set cs. \<exists>v \<in> set vs. parse_site_context platform v = Inr c)"
proof (induction vs arbitrary: ids hostnames cs)
  case (Cons v vs)
  obtain c rest where c: "parse_site_context platform v = Inr c" "ctx_id c \<notin> set ids" "ctx_hostname c \<notin> set hostnames"
    and rest: "parse_entries platform (ctx_id c # ids) (ctx_hostname c # hostnames) vs = Inr rest" and cs: "cs = c # rest"
    using Cons.prems by (auto split: sum.splits if_splits)
  show ?case using Cons.IH [OF rest] c cs by auto
qed simp

lemma validSiteId_chars: "validSiteId s \<Longrightarrow> CHR ''/'' \<notin> set s"
proof
  assume v: "validSiteId s" and "CHR ''/'' \<in> set s"
  have join: "set (join_with d ws) \<subseteq> set d \<union> \<Union> (set ` set ws)" for d ws
    by (induction d ws rule: join_with.induct) auto
  have "CHR ''/'' \<in> set (join_with ''-'' (split_on (CHR ''-'') s))" using \<open>CHR ''/'' \<in> set s\<close> by (simp add: join_split)
  then obtain w where "w \<in> set (split_on (CHR ''-'') s)" "CHR ''/'' \<in> set w" using join by fastforce
  then have "is_lower (CHR ''/'') \<or> is_digit (CHR ''/'')" using v by (auto simp: validSiteId_def list_all_iff)
  then show False by (simp add: is_lower_def is_digit_def char_between_def)
qed

text \<open>A key below the root of a site.\<close>

definition key_of_site :: "site_context \<Rightarrow> string \<Rightarrow> bool" where
  "key_of_site site key \<longleftrightarrow> starts_with (sk_root (siteStorageKeys site) @ ''/'') key"

lemma take_until:
  assumes "d \<notin> set a" and "d \<notin> set b" and "a @ d # x = b @ d # y"
  shows "a = b"
proof -
  have "takeWhile (\<lambda>c. c \<noteq> d) (a @ d # x) = a" and "takeWhile (\<lambda>c. c \<noteq> d) (b @ d # y) = b"
    using assms(1,2) by (auto simp: takeWhile_append)
  then show ?thesis using assms(3) by simp
qed

lemma key_of_one_site:
  assumes "validSiteId (ctx_id a)" and "validSiteId (ctx_id b)" and "key_of_site a key" and "key_of_site b key"
  shows "ctx_id a = ctx_id b"
proof -
  have key: "\<exists>x. key = ''sites/'' @ ctx_id c @ CHR ''/'' # x" if "key_of_site c key" for c
  proof -
    have "take (length (''sites/'' @ ctx_id c @ ''/'')) key = ''sites/'' @ ctx_id c @ ''/''"
      using that by (simp add: key_of_site_def siteStorageKeys_def starts_with_def Let_def)
    then have "key = (''sites/'' @ ctx_id c @ ''/'') @ drop (length (''sites/'' @ ctx_id c @ ''/'')) key"
      by (metis append_take_drop_id)
    then show ?thesis by auto
  qed
  obtain x y where "key = ''sites/'' @ ctx_id a @ CHR ''/'' # x" "key = ''sites/'' @ ctx_id b @ CHR ''/'' # y"
    using key [OF assms(3)] key [OF assms(4)] by blast
  then have "ctx_id a @ CHR ''/'' # x = ctx_id b @ CHR ''/'' # y" by simp
  then show ?thesis using take_until validSiteId_chars assms(1,2) by metis
qed

lemma site_keys_below_root:
  "list_all (key_of_site site)
     [sk_markdownCurrent (siteStorageKeys site), sk_markdownRevisionPrefix (siteStorageKeys site),
      sk_markdownObjectPrefix (siteStorageKeys site), sk_publishedCurrent (siteStorageKeys site),
      sk_publishedRevisionPrefix (siteStorageKeys site), sk_publishedPagePrefix (siteStorageKeys site),
      sk_publicationJobPrefix (siteStorageKeys site), sk_publicationProgressPrefix (siteStorageKeys site),
      sk_publicationClaimPrefix (siteStorageKeys site), sk_publicationReceiptPrefix (siteStorageKeys site),
      sk_uploadObjectPrefix (siteStorageKeys site), sk_wpContentObjectPrefix (siteStorageKeys site),
      sk_staticArtifactPrefix (siteStorageKeys site)]"
  by (simp add: key_of_site_def siteStorageKeys_def starts_with_def Let_def)

lemma find_unique:
  "distinct (map f xs) \<Longrightarrow> x \<in> set xs \<Longrightarrow> find (\<lambda>y. f y = f x) xs = Some x"
  by (induction xs) (auto simp: image_iff)

lemma default_context_valid: "validSiteId (ctx_id DEFAULT_SITE_CONTEXT)"
  by code_simp

lemma parseSiteContexts_cases:
  assumes "parseSiteContexts platform configured = Inr cs"
  shows "cs = [DEFAULT_SITE_CONTEXT] \<or> (\<exists>t vs. configured = Some t \<and> sp_json platform t = Some (JArr vs)
    \<and> vs \<noteq> [] \<and> parse_entries platform [] [] vs = Inr cs)"
  using assms by (auto simp: parseSiteContexts_def split: option.splits if_splits jsval.splits list.splits)

lemma configured_sites_facts:
  assumes "parseSiteContexts platform configured = Inr cs"
  shows "cs \<noteq> [] \<and> distinct (map ctx_id cs) \<and> distinct (map ctx_hostname cs) \<and> (\<forall>c \<in> set cs. validSiteId (ctx_id c))"
  using parseSiteContexts_cases [OF assms]
proof (elim disjE exE conjE)
  assume "cs = [DEFAULT_SITE_CONTEXT]"
  then show ?thesis using default_context_valid by simp
next
  fix t vs assume vs: "vs \<noteq> []" "parse_entries platform [] [] vs = Inr cs"
  show ?thesis using parse_entries_Inr [OF vs(2)] vs(1) parse_site_context_Inr by fastforce
qed

lemma signed_context_iff:
  "ctx = signed_context platform domain nonce g \<and> normalizeHostname request = ctx_hostname ctx \<longleftrightarrow>
     normalizeHostname request = ctx_hostname ctx
     \<and> ctx_id ctx = ''s'' @ nonce @ ''-g'' @ string_of_int g @ ''-''
         @ concat (map byte_hex (take 8 (sp_hmac platform (pd_hostSecret domain) (preview_message domain nonce g))))
     \<and> ctx_hostname ctx = ctx_id ctx @ ''.'' @ pd_suffix domain \<and> ctx_origin ctx = ''https://'' @ ctx_hostname ctx"
proof -
  have "ctx = signed_context platform domain nonce g \<longleftrightarrow> ctx_id ctx = preview_site_id platform domain nonce g
     \<and> ctx_hostname ctx = ctx_id ctx @ ''.'' @ pd_suffix domain \<and> ctx_origin ctx = ''https://'' @ ctx_hostname ctx"
    by (cases ctx) (auto simp: signed_context_def Let_def)
  then show ?thesis by (auto simp: preview_site_id_def previewSignature_def)
qed

section \<open>Properties\<close>

text \<open>
  C38: A preview name is found again: the context allocated under a generation from a random UUID is
  the one its hostname resolves to, the allocation's identity reads the generation back from its id,
  and the id is a site id and a DNS label, so that it can be a key and a hostname.
\<close>
theorem preview_allocation_resolves:
  assumes "hmac_sha256 platform" and "list_all (\<lambda>c. is_hex c \<or> c = CHR ''-'') uuid"
    and "24 \<le> length (filter (\<lambda>c. c \<noteq> CHR ''-'') uuid)" and "1 \<le> generation" and "generation \<le> max_safe_integer"
  shows "\<exists>ctx. allocatePreviewSiteContext platform uuid domain generation = Inr ctx
    \<and> resolvePreviewSiteContextFromRequest platform (ctx_hostname ctx) (Some domain) = Inr ctx
    \<and> allocationIdentity (ctx_id ctx) = \<lparr>id_site = ctx_id ctx, id_generation = generation\<rparr>
    \<and> validSiteId (ctx_id ctx) \<and> dns_label (ctx_id ctx)"
proof -
  define nonce where "nonce = take 24 (filter (\<lambda>c. c \<noteq> CHR ''-'') uuid)"
  define ctx where "ctx = signed_context platform domain nonce generation"
  have n: "preview_nonce nonce" and alloc: "allocatePreviewSiteContext platform uuid domain generation = Inr ctx"
    using allocate_preview [OF assms(1-4)] by (simp_all add: nonce_def ctx_def)
  have "hd (ctx_hostname ctx) = CHR ''s''" by (simp add: ctx_def signed_context_def preview_site_id_def Let_def)
  then have "normalizeHostname (ctx_hostname ctx) = ctx_hostname ctx"
    by (cases "ctx_hostname ctx") (auto simp: normalizeHostname_def starts_with_def)
  then have "resolvePreviewSiteContextFromRequest platform (ctx_hostname ctx) (Some domain) = Inr ctx"
    using resolve_preview_iff [OF assms(1)] n assms(4) ctx_def by blast
  moreover have "ctx_id ctx = preview_site_id platform domain nonce generation"
    by (simp add: ctx_def signed_context_def Let_def)
  moreover have "generation < 10 ^ 19" using assms(5) by (simp add: max_safe_integer_def)
  ultimately show ?thesis
    using alloc signed_identity [OF assms(1) n assms(4)] signed_id_valid [OF assms(1) n assms(4)] by auto
qed

definition sample_site_platform :: site_platform where
  "sample_site_platform = \<lparr>sp_json = (\<lambda>_. None), sp_url = (\<lambda>_. None),
     sp_hmac = (\<lambda>key message. replicate 32 (if last (key @ message) = CHR ''1'' then 0x5a else 0xc3))\<rparr>"

definition sample_domain :: preview_domain where
  "sample_domain = \<lparr>pd_suffix = ''preview.example'', pd_hostSecret = replicate 32 (CHR ''k'')\<rparr>"

lemma sample_hmac: "hmac_sha256 sample_site_platform"
  by (simp add: hmac_sha256_def sample_site_platform_def)

theorem preview_allocation_resolves_witness:
  "\<exists>ctx. allocatePreviewSiteContext sample_site_platform ''3f2504e0-4f89-41d3-9a0c-0305e82c3301'' sample_domain 7 = Inr ctx
    \<and> resolvePreviewSiteContextFromRequest sample_site_platform (ctx_hostname ctx) (Some sample_domain) = Inr ctx
    \<and> allocationIdentity (ctx_id ctx) = \<lparr>id_site = ctx_id ctx, id_generation = 7\<rparr>
    \<and> validSiteId (ctx_id ctx) \<and> dns_label (ctx_id ctx)"
proof (rule preview_allocation_resolves [OF sample_hmac])
  show "list_all (\<lambda>c. is_hex c \<or> c = CHR ''-'') ''3f2504e0-4f89-41d3-9a0c-0305e82c3301''" by code_simp
  show "24 \<le> length (filter (\<lambda>c. c \<noteq> CHR ''-'') ''3f2504e0-4f89-41d3-9a0c-0305e82c3301'')" by simp
qed (simp_all add: max_safe_integer_def)



text \<open>
  In an accepted configuration every site is found by its own hostname, and no key in the bucket
  lies below the roots of two different sites.
\<close>
lemma configured_sites_apart:
  assumes "parseSiteContexts platform configured = Inr cs" and "a \<in> set cs" and "b \<in> set cs"
  shows "resolveSiteContext (ctx_hostname a) cs = Inr a \<and> (key_of_site a key \<and> key_of_site b key \<longrightarrow> a = b)"
proof -
  have facts: "distinct (map ctx_id cs)" "distinct (map ctx_hostname cs)" "validSiteId (ctx_id a)" "validSiteId (ctx_id b)"
    using configured_sites_facts [OF assms(1)] assms(2,3) by auto
  have "resolveSiteContext (ctx_hostname a) cs = Inr a"
    using find_unique [OF facts(2) assms(2)] by (simp add: resolveSiteContext_def)
  moreover have "a = b" if "key_of_site a key" "key_of_site b key"
    using key_of_one_site [OF facts(3,4) that] facts(1) assms(2,3)
    by (metis unique_by_def unique_by_eq)
  ultimately show ?thesis by blast
qed

lemma configured_sites_apart_sample:
  "resolveSiteContext (ctx_hostname DEFAULT_SITE_CONTEXT) [DEFAULT_SITE_CONTEXT] = Inr DEFAULT_SITE_CONTEXT"
  using configured_sites_apart [of sample_site_platform None "[DEFAULT_SITE_CONTEXT]" DEFAULT_SITE_CONTEXT DEFAULT_SITE_CONTEXT "[]"]
  by (simp add: parseSiteContexts_def)

end
