(* ===== verification/Administrator_Secrets.thy ===== *)
theory Administrator_Secrets
  imports Site_Contexts
begin

text \<open>
  \<open>packages/runtime-cloudflare/src/administrator-secret-bindings.ts\<close>: the secrets from which the
  administrator's claim and password of a site are derived.  They come in named versions, one of them
  active; a site is pinned to the version it was allocated under by digests of its secrets, so that the
  active version can be rotated while the site keeps its own.

  \<open>JSON.parse\<close>, SHA-256 and HMAC-SHA-256 of UTF-8 texts are arguments.
\<close>

section \<open>Data\<close>

record admin_binding =
  ab_version :: string
  ab_claimSecret :: string
  ab_password :: string

record admin_bindings =
  bs_active :: admin_binding
  bs_values :: "admin_binding list"

record admin_pin =
  pn_version :: string
  pn_claimSecretDigest :: string
  pn_passwordDigest :: string

record secret_env =
  se_bindings :: "string option"
  se_claimSecret :: "string option"
  se_password :: "string option"

record secret_platform =
  sx_json :: "string \<Rightarrow> jsval option"
  sx_sha256 :: "string \<Rightarrow> 8 word list"
  sx_hmac :: "string \<Rightarrow> string \<Rightarrow> 8 word list"

definition MAX_CONFIGURATION_BYTES :: nat where
  "MAX_CONFIGURATION_BYTES = 16 * 1024"

definition MAX_BINDINGS :: nat where
  "MAX_BINDINGS = 8"

definition invalid_bindings :: string where
  "invalid_bindings = ''Administrator secret bindings are invalid.''"

section \<open>Parsing\<close>

text \<open>\<open>VERSION\<close> is the pattern of the credentials' identifiers.\<close>

definition validBinding :: "jsval \<Rightarrow> jsval \<Rightarrow> jsval \<Rightarrow> admin_binding option" where
  "validBinding version claimSecret password =
     (case (version, claimSecret, password) of
        (JStr v, JStr c, JStr p) \<Rightarrow>
          if credential_identifier v \<and> 32 \<le> utf8_length c \<and> 0 < utf8_length p
          then Some \<lparr>ab_version = v, ab_claimSecret = c, ab_password = p\<rparr> else None
      | _ \<Rightarrow> None)"

definition only_keys :: "string list \<Rightarrow> jsval \<Rightarrow> bool" where
  "only_keys keys v \<longleftrightarrow> list_all (\<lambda>k. k \<in> set keys) (map fst (record_fields v))"

definition parseBinding :: "jsval \<Rightarrow> string + admin_binding" where
  "parseBinding v =
     (if \<not> is_record v \<or> \<not> only_keys [''version'', ''claimSecret'', ''password''] v then Inl invalid_bindings
      else case validBinding (js_member v ''version'') (js_member v ''claimSecret'') (js_member v ''password'') of
        None \<Rightarrow> Inl invalid_bindings | Some b \<Rightarrow> Inr b)"

fun parse_bindings :: "jsval list \<Rightarrow> string + admin_binding list" where
  "parse_bindings [] = Inr []"
| "parse_bindings (v # vs) =
     (case parseBinding v of
        Inl e \<Rightarrow> Inl e
      | Inr b \<Rightarrow> (case parse_bindings vs of Inl e \<Rightarrow> Inl e | Inr bs \<Rightarrow> Inr (b # bs)))"

text \<open>\<open>new Map(...)\<close>: the last value of a key stays.  The callers pass an active version that is there.\<close>

definition version_map :: "admin_binding list \<Rightarrow> string \<Rightarrow> admin_binding option" where
  "version_map values version = map_of (map (\<lambda>b. (ab_version b, b)) (rev values)) version"

definition byVersion :: "admin_bindings \<Rightarrow> string \<Rightarrow> admin_binding option" where
  "byVersion bs version = version_map (bs_values bs) version"

definition bindings_of :: "admin_binding list \<Rightarrow> string \<Rightarrow> string + admin_bindings" where
  "bindings_of values activeVersion =
     (case version_map values activeVersion of
        None \<Rightarrow> Inl invalid_bindings
      | Some b \<Rightarrow> Inr \<lparr>bs_active = b, bs_values = values\<rparr>)"

definition legacyBinding :: "secret_env \<Rightarrow> string + admin_binding" where
  "legacyBinding env =
     (case validBinding (JStr ''legacy'') (js_optional (se_claimSecret env)) (js_optional (se_password env)) of
        None \<Rightarrow> Inl invalid_bindings | Some b \<Rightarrow> Inr b)"

definition parse_managed :: "jsval \<Rightarrow> string + admin_bindings" where
  "parse_managed v =
     (case (js_member v ''activeVersion'', js_member v ''versions'') of
        (JStr activeVersion, JArr entries) \<Rightarrow>
          if \<not> is_record v \<or> \<not> only_keys [''activeVersion'', ''versions''] v \<or> entries = []
             \<or> length entries > MAX_BINDINGS
          then Inl invalid_bindings
          else (case parse_bindings entries of
                  Inl e \<Rightarrow> Inl e
                | Inr versions \<Rightarrow>
                    if \<not> distinct (map ab_version versions) \<or> activeVersion \<notin> set (map ab_version versions)
                    then Inl invalid_bindings
                    else bindings_of versions activeVersion)
      | _ \<Rightarrow> Inl invalid_bindings)"

definition parseAdministratorSecretBindings :: "secret_platform \<Rightarrow> secret_env \<Rightarrow> string + admin_bindings" where
  "parseAdministratorSecretBindings platform env =
     (case se_bindings env of
        None \<Rightarrow> (case legacyBinding env of Inl e \<Rightarrow> Inl e | Inr b \<Rightarrow> bindings_of [b] ''legacy'')
      | Some configured \<Rightarrow>
          if se_claimSecret env \<noteq> None \<or> se_password env \<noteq> None then Inl invalid_bindings
          else if utf8_length configured > MAX_CONFIGURATION_BYTES then Inl invalid_bindings
          else (case sx_json platform configured of
                  None \<Rightarrow> Inl invalid_bindings | Some v \<Rightarrow> parse_managed v))"

section \<open>Pins\<close>

definition hex_text :: "8 word list \<Rightarrow> string" where
  "hex_text bytes = concat (map byte_hex bytes)"

definition digest_of :: "secret_platform \<Rightarrow> string \<Rightarrow> string" where
  "digest_of platform text_in = hex_text (sx_sha256 platform text_in)"

definition keyedDigest :: "secret_platform \<Rightarrow> string \<Rightarrow> string \<Rightarrow> string" where
  "keyedDigest platform key text_in = hex_text (sx_hmac platform key text_in)"

text \<open>A comparison that looks at every character: bitwise operations of JavaScript are on 32 bits.\<close>

definition char_code :: "char \<Rightarrow> 32 word" where
  "char_code c = word_of_nat (of_char c)"

definition equal_texts :: "string \<Rightarrow> string \<Rightarrow> bool" where
  "equal_texts left right \<longleftrightarrow> length left = length right
     \<and> foldl (\<lambda>result (a, b). Bit_Operations.or result (Bit_Operations.xor (char_code a) (char_code b))) 0 (zip left right) = 0"

definition pinAdministratorSecretBinding :: "secret_platform \<Rightarrow> admin_binding \<Rightarrow> admin_pin" where
  "pinAdministratorSecretBinding platform b =
     \<lparr>pn_version = ab_version b, pn_claimSecretDigest = digest_of platform (ab_claimSecret b),
      pn_passwordDigest = keyedDigest platform (ab_claimSecret b) (ab_password b)\<rparr>"

definition resolvePinnedAdministratorSecretBinding ::
    "secret_platform \<Rightarrow> admin_bindings \<Rightarrow> admin_pin option \<Rightarrow> admin_binding option" where
  "resolvePinnedAdministratorSecretBinding platform bs pin =
     (case pin of
        None \<Rightarrow> Some (bs_active bs)
      | Some p \<Rightarrow>
          (case byVersion bs (pn_version p) of
             None \<Rightarrow> None
           | Some b \<Rightarrow>
               if \<not> equal_texts (digest_of platform (ab_claimSecret b)) (pn_claimSecretDigest p)
                  \<or> \<not> equal_texts (keyedDigest platform (ab_claimSecret b) (ab_password b)) (pn_passwordDigest p)
               then None else Some b))"

section \<open>The comparison is equality\<close>

lemma unat_char_code: "unat (char_code c) = of_char c"
proof -
  have "(of_char c :: nat) < 256" by (rule nat_of_char_less_256)
  then have "(of_char c :: nat) mod 4294967296 = of_char c" by (intro mod_less) linarith
  then show ?thesis by (simp add: char_code_def unat_of_nat)
qed

lemma char_code_inject [simp]: "char_code a = char_code b \<longleftrightarrow> a = b"
  by (metis unat_char_code of_char_eq_iff)

lemma xor_zero: "Bit_Operations.xor a b = (0 :: 32 word) \<longleftrightarrow> a = b"
  by (auto simp: bit_eq_iff bit_xor_iff)

lemma or_zero: "Bit_Operations.or a b = (0 :: 32 word) \<longleftrightarrow> a = 0 \<and> b = 0"
  by (auto simp: bit_eq_iff bit_or_iff)

lemma fold_difference:
  "foldl (\<lambda>result (a, b). Bit_Operations.or result (Bit_Operations.xor (char_code a) (char_code b))) r ps = 0 \<longleftrightarrow>
     r = 0 \<and> (\<forall>(a, b) \<in> set ps. a = b)"
  by (induction ps arbitrary: r) (auto simp: xor_zero or_zero)

lemma equal_texts [simp]: "equal_texts left right \<longleftrightarrow> left = right"
proof
  assume "equal_texts left right"
  then have "length left = length right" and "\<forall>(a, b) \<in> set (zip left right). a = b"
    by (simp_all add: equal_texts_def fold_difference)
  then show "left = right" by (auto simp: list_eq_iff_zip_eq)
qed (auto simp: equal_texts_def fold_difference zip_same)

section \<open>What is parsed\<close>

lemma validBinding_Some:
  "validBinding v c p = Some b \<Longrightarrow> credential_identifier (ab_version b) \<and> 32 \<le> utf8_length (ab_claimSecret b)
     \<and> 0 < utf8_length (ab_password b)"
  by (auto simp: validBinding_def split: jsval.splits if_splits)

definition binding_ok :: "admin_binding \<Rightarrow> bool" where
  "binding_ok b \<longleftrightarrow> credential_identifier (ab_version b) \<and> 32 \<le> utf8_length (ab_claimSecret b)
     \<and> 0 < utf8_length (ab_password b)"

lemma parseBinding_Inr: "parseBinding v = Inr b \<Longrightarrow> binding_ok b"
  using validBinding_Some by (auto simp: parseBinding_def binding_ok_def split: if_splits option.splits)

lemma parse_bindings_Inr: "parse_bindings vs = Inr bs \<Longrightarrow> length bs = length vs \<and> (\<forall>b \<in> set bs. binding_ok b)"
  by (induction vs arbitrary: bs) (auto split: sum.splits dest: parseBinding_Inr)

text \<open>A parsed configuration: well-formed versions under their own names, the active one among them.\<close>

definition bindings_wf :: "admin_bindings \<Rightarrow> bool" where
  "bindings_wf bs \<longleftrightarrow> byVersion bs (ab_version (bs_active bs)) = Some (bs_active bs)
     \<and> (\<forall>v b. byVersion bs v = Some b \<longrightarrow> ab_version b = v \<and> binding_ok b)"

lemma version_map_Some:
  assumes "version_map values v = Some b"
  shows "b \<in> set values \<and> ab_version b = v"
  using map_of_SomeD [OF assms [unfolded version_map_def]] by fastforce

lemma bindings_of_wf:
  assumes "bindings_of values v = Inr bs" and "\<forall>b \<in> set values. binding_ok b"
  shows "bindings_wf bs"
proof -
  obtain b where b: "version_map values v = Some b" "bs = \<lparr>bs_active = b, bs_values = values\<rparr>"
    using assms(1) by (auto simp: bindings_of_def split: option.splits)
  then show ?thesis
    using version_map_Some assms(2) by (fastforce simp: bindings_wf_def byVersion_def)
qed

lemma parse_managed_wf:
  assumes "parse_managed v = Inr bs"
  shows "bindings_wf bs"
proof -
  obtain active entries versions where "parse_bindings entries = Inr versions" "bindings_of versions active = Inr bs"
    using assms by (auto simp: parse_managed_def split: jsval.splits if_splits sum.splits)
  then show ?thesis using bindings_of_wf parse_bindings_Inr by blast
qed

lemma legacyBinding_Inr: "legacyBinding env = Inr b \<Longrightarrow> binding_ok b"
  using validBinding_Some by (auto simp: legacyBinding_def binding_ok_def split: option.splits)

lemma parse_wf:
  assumes "parseAdministratorSecretBindings platform env = Inr bs"
  shows "bindings_wf bs"
proof (cases "se_bindings env")
  case None
  then obtain b where "legacyBinding env = Inr b" "bindings_of [b] ''legacy'' = Inr bs"
    using assms by (auto simp: parseAdministratorSecretBindings_def split: sum.splits)
  then show ?thesis using bindings_of_wf legacyBinding_Inr by fastforce
next
  case (Some configured)
  then obtain v where "parse_managed v = Inr bs"
    using assms by (auto simp: parseAdministratorSecretBindings_def split: option.splits if_splits)
  then show ?thesis by (rule parse_managed_wf)
qed

lemma resolve_pin_iff:
  "resolvePinnedAdministratorSecretBinding platform bs (Some pin) = Some b \<longleftrightarrow>
     byVersion bs (pn_version pin) = Some b \<and> digest_of platform (ab_claimSecret b) = pn_claimSecretDigest pin
     \<and> keyedDigest platform (ab_claimSecret b) (ab_password b) = pn_passwordDigest pin"
  by (auto simp: resolvePinnedAdministratorSecretBinding_def split: option.splits)

text \<open>
  C40: A pin made under one configuration resolves under any other configuration to the binding of its
  version exactly when that binding has the same digests, whatever version is active there: a binding
  that is kept is found again after a rotation, and one whose secrets were changed, or that was dropped,
  is never replaced by another.
\<close>
theorem pin_survives_rotation:
  assumes "parseAdministratorSecretBindings platform before = Inr old"
    and "parseAdministratorSecretBindings platform after = Inr new"
  shows "(resolvePinnedAdministratorSecretBinding platform new
        (Some (pinAdministratorSecretBinding platform (bs_active old))) = Some b) =
    (byVersion new (ab_version (bs_active old)) = Some b \<and> ab_version b = ab_version (bs_active old)
     \<and> pinAdministratorSecretBinding platform b = pinAdministratorSecretBinding platform (bs_active old))"
  using parse_wf [OF assms(2)]
  by (auto simp: resolve_pin_iff pinAdministratorSecretBinding_def bindings_wf_def)

definition sample_secrets :: secret_platform where
  "sample_secrets = \<lparr>sx_json = (\<lambda>s. if s = ''rotated''
        then Some (JObj [(''activeVersion'', JStr ''v2''),
               (''versions'', JArr [JObj [(''version'', JStr ''legacy''), (''claimSecret'', JStr (replicate 32 (CHR ''k''))),
                                         (''password'', JStr ''secret'')],
                                   JObj [(''version'', JStr ''v2''), (''claimSecret'', JStr (replicate 32 (CHR ''n''))),
                                         (''password'', JStr ''other'')]])])
        else None),
     sx_sha256 = (\<lambda>s. if s = replicate 32 (CHR ''k'') then [1] else [2]), sx_hmac = (\<lambda>key s. if s = ''secret'' then [3] else [4])\<rparr>"

definition secrets_before :: secret_env where
  "secrets_before = \<lparr>se_bindings = None, se_claimSecret = Some (replicate 32 (CHR ''k'')), se_password = Some ''secret''\<rparr>"

definition secrets_after :: secret_env where
  "secrets_after = \<lparr>se_bindings = Some ''rotated'', se_claimSecret = None, se_password = None\<rparr>"

definition sample_binding :: "string \<Rightarrow> char \<Rightarrow> string \<Rightarrow> admin_binding" where
  "sample_binding version c password = \<lparr>ab_version = version, ab_claimSecret = replicate 32 c, ab_password = password\<rparr>"

lemma sample_parsed:
  "parseAdministratorSecretBindings sample_secrets secrets_before
     = bindings_of [sample_binding ''legacy'' (CHR ''k'') ''secret''] ''legacy''"
  "parseAdministratorSecretBindings sample_secrets secrets_after
     = bindings_of [sample_binding ''legacy'' (CHR ''k'') ''secret'', sample_binding ''v2'' (CHR ''n'') ''other''] ''v2''"
  by code_simp+

text \<open>A site pinned to the legacy pair keeps it after the configuration has moved to managed versions.\<close>
theorem pin_survives_rotation_witness:
  "\<exists>old new. parseAdministratorSecretBindings sample_secrets secrets_before = Inr old
    \<and> parseAdministratorSecretBindings sample_secrets secrets_after = Inr new
    \<and> bs_active new = sample_binding ''v2'' (CHR ''n'') ''other''
    \<and> resolvePinnedAdministratorSecretBinding sample_secrets new
        (Some (pinAdministratorSecretBinding sample_secrets (bs_active old)))
      = Some (sample_binding ''legacy'' (CHR ''k'') ''secret'')"
proof -
  let ?a = "sample_binding ''legacy'' (CHR ''k'') ''secret''"
  let ?b = "sample_binding ''v2'' (CHR ''n'') ''other''"
  obtain old where old: "parseAdministratorSecretBindings sample_secrets secrets_before = Inr old" "bs_active old = ?a"
    by (simp add: sample_parsed bindings_of_def version_map_def byVersion_def sample_binding_def)
  obtain new where new: "parseAdministratorSecretBindings sample_secrets secrets_after = Inr new" "bs_active new = ?b"
      "byVersion new ''legacy'' = Some ?a"
    by (simp add: sample_parsed bindings_of_def version_map_def byVersion_def sample_binding_def)
  have "resolvePinnedAdministratorSecretBinding sample_secrets new
      (Some (pinAdministratorSecretBinding sample_secrets (bs_active old))) = Some ?a"
    unfolding pin_survives_rotation [OF old(1) new(1)] using old(2) new(3) by (simp add: sample_binding_def)
  then show ?thesis using old(1) new(1,2) by blast
qed

end
