(* ===== verification/Provisioning_Store.thy ===== *)
theory Provisioning_Store
  imports Administrator_Secrets Operation_Repository
begin

text \<open>
  The tables of the provisioning API (\<open>AllocationStore\<close> and \<open>AdministratorClaimStore\<close> of
  \<open>packages/runtime-cloudflare/src/provisioning-api.ts\<close>): which principal holds which site under which
  request, which administrator root a site is pinned to, which operations its requests started, and the
  claim by which its administrator's password is handed out once.  \<open>deriveSiteCredential\<close> of
  \<open>wordpress-auth.ts\<close> is here too.

  The sites and lifecycles are those of \<open>Operation_Tables\<close>.  Every statement of a method, and every
  batch, is one transaction; between two of them other clients may have run statements of their own,
  which is an argument of the methods, as are the clock readings in the order they are made.
\<close>

section \<open>Data\<close>

record create_input =
  ci_key :: string
  ci_fingerprint :: string
  ci_artifactSha256 :: string
  ci_artifactSize :: int
  ci_slug :: string
  ci_name :: string
  ci_siteTitle :: string

record api_token =
  tk_principal :: string
  tk_sites :: "string list option"
  tk_maxSites :: int

text \<open>\<open>wp_codebox_api_sites\<close>, \<open>_admin_roots\<close>, \<open>_operation_links\<close> and \<open>_admin_claims\<close>.\<close>

record api_site_row =
  as_site :: string
  as_principal :: string
  as_input :: create_input
  as_operation :: "string option"
  as_created :: int

record root_row =
  rr_site :: string
  rr_pin :: admin_pin
  rr_created :: int

datatype link_kind = Link_provision | Link_import

record link_row =
  lk_principal :: string
  lk_site :: string
  lk_operation :: string
  lk_kind :: link_kind
  lk_key :: string

record admin_claim_row =
  cl_site :: string
  cl_capabilityDigest :: string
  cl_credentialDigest :: string
  cl_expires_at :: int
  cl_state :: admin_claim_state
  cl_updated_at :: int

record provisioning_db =
  pr_rt :: runtime_db
  pr_sites :: "api_site_row list"
  pr_roots :: "root_row list"
  pr_links :: "link_row list"
  pr_claims :: "admin_claim_row list"

text \<open>What a caller of the store gets: the row joined with its root.\<close>

record provisioning_allocation =
  pa_siteId :: string
  pa_principal :: string
  pa_input :: create_input
  pa_operationId :: "string option"
  pa_administratorRoot :: "admin_pin option"

datatype provisioning_error =
    Provisioning_conflict string
  | Quota_exceeded
  | Capacity_exhausted
  | Lifecycle_conflict
  | Claim_error
  | Provisioning_failure string

type_synonym provisioning_statement = "provisioning_db \<Rightarrow> nat \<times> provisioning_db"
type_synonym 'a provisioning_action = "(provisioning_db, provisioning_error, 'a) action"

definition empty_provisioning_db :: provisioning_db where
  "empty_provisioning_db = \<lparr>pr_rt = empty_runtime_db, pr_sites = [], pr_roots = [], pr_links = [], pr_claims = []\<rparr>"

section \<open>Reading\<close>

definition api_site :: "provisioning_db \<Rightarrow> string \<Rightarrow> api_site_row option" where
  "api_site db siteId = find (\<lambda>a. as_site a = siteId) (pr_sites db)"

definition root_of :: "provisioning_db \<Rightarrow> string \<Rightarrow> admin_pin option" where
  "root_of db siteId = map_option rr_pin (find (\<lambda>r. rr_site r = siteId) (pr_roots db))"

definition claim_of :: "string \<Rightarrow> provisioning_db \<Rightarrow> admin_claim_row option" where
  "claim_of siteId db = find (\<lambda>c. cl_site c = siteId) (pr_claims db)"

definition hydrate_allocation :: "provisioning_db \<Rightarrow> api_site_row \<Rightarrow> provisioning_allocation" where
  "hydrate_allocation db a =
     \<lparr>pa_siteId = as_site a, pa_principal = as_principal a, pa_input = as_input a, pa_operationId = as_operation a,
      pa_administratorRoot = root_of db (as_site a)\<rparr>"

definition bySite :: "string \<Rightarrow> provisioning_db \<Rightarrow> provisioning_allocation option" where
  "bySite siteId db = map_option (hydrate_allocation db) (api_site db siteId)"

definition of_request :: "string \<Rightarrow> string \<Rightarrow> api_site_row \<Rightarrow> bool" where
  "of_request owner key a \<longleftrightarrow> as_principal a = owner \<and> ci_key (as_input a) = key"

definition byRequest :: "string \<Rightarrow> string \<Rightarrow> provisioning_db \<Rightarrow> provisioning_allocation option" where
  "byRequest owner key db = map_option (hydrate_allocation db) (find (of_request owner key) (pr_sites db))"

definition provisioned_context :: "string \<Rightarrow> provisioning_db \<Rightarrow> site_context option" where
  "provisioned_context siteId db =
     map_option (\<lambda>s. \<lparr>ctx_id = sr_id s, ctx_hostname = sr_hostname s, ctx_origin = sr_origin s\<rparr>) (site_of (pr_rt db) siteId)"

text \<open>
  The quota counts the rows of \<open>a LEFT JOIN l\<close> that are not tombstoned: an allocation without a
  lifecycle is one row, and one with several has a row for each.
\<close>

definition joined_rows :: "lifecycle_row list \<Rightarrow> string \<Rightarrow> nat" where
  "joined_rows lifecycles siteId =
     (let own = filter (\<lambda>l. lc_site l = siteId) lifecycles in
      if own = [] then 1 else length (filter (\<lambda>l. lc_state l \<noteq> Tombstoned) own))"

definition live_count :: "string \<Rightarrow> provisioning_db \<Rightarrow> nat" where
  "live_count owner db =
     sum_list (map (\<lambda>a. joined_rows (rt_lifecycles (pr_rt db)) (as_site a)) (filter (\<lambda>a. as_principal a = owner) (pr_sites db)))"

section \<open>The batch of an allocation\<close>

definition api_row :: "api_token \<Rightarrow> create_input \<Rightarrow> string \<Rightarrow> int \<Rightarrow> api_site_row" where
  "api_row token input siteId now =
     \<lparr>as_site = siteId, as_principal = tk_principal token, as_input = input, as_operation = None, as_created = now\<rparr>"

text \<open>\<open>INSERT OR IGNORE ... SELECT ... WHERE\<close>: under the quota, for a free site and a new request.\<close>

definition admits_allocation :: "api_token \<Rightarrow> create_input \<Rightarrow> string \<Rightarrow> provisioning_db \<Rightarrow> bool" where
  "admits_allocation token input siteId db \<longleftrightarrow> int (live_count (tk_principal token) db) < tk_maxSites token
     \<and> site_of (pr_rt db) siteId = None
     \<and> (\<forall>a \<in> set (pr_sites db). as_site a \<noteq> siteId \<and> \<not> of_request (tk_principal token) (ci_key input) a)"

definition insert_allocation :: "api_token \<Rightarrow> create_input \<Rightarrow> string \<Rightarrow> int \<Rightarrow> provisioning_statement" where
  "insert_allocation token input siteId now db =
     (if admits_allocation token input siteId db then (1, db\<lparr>pr_sites := pr_sites db @ [api_row token input siteId now]\<rparr>) else (0, db))"

text \<open>An \<open>INSERT\<close> that violates a key fails, and the batch with it.\<close>

definition insert_root :: "string \<Rightarrow> admin_pin \<Rightarrow> int \<Rightarrow> provisioning_db \<Rightarrow> (nat \<times> provisioning_db) option" where
  "insert_root siteId pin now db =
     (if root_of db siteId \<noteq> None then None
      else Some (1, db\<lparr>pr_roots := pr_roots db @ [\<lparr>rr_site = siteId, rr_pin = pin, rr_created = now\<rparr>]\<rparr>))"

definition new_site :: "site_context \<Rightarrow> site_row" where
  "new_site site = \<lparr>sr_id = ctx_id site, sr_hostname = ctx_hostname site, sr_origin = ctx_origin site,
     sr_generation = id_generation (allocationIdentity (ctx_id site))\<rparr>"

definition insert_site :: "api_token \<Rightarrow> create_input \<Rightarrow> site_context \<Rightarrow> provisioning_db \<Rightarrow> (nat \<times> provisioning_db) option" where
  "insert_site token input site db =
     (if (\<exists>a \<in> set (pr_sites db). as_site a = ctx_id site \<and> of_request (tk_principal token) (ci_key input) a
            \<and> ci_fingerprint (as_input a) = ci_fingerprint input) \<and> root_of db (ctx_id site) \<noteq> None
      then (if \<exists>s \<in> set (rt_sites (pr_rt db)). sr_id s = ctx_id site \<or> sr_hostname s = ctx_hostname site then None
            else Some (1, db\<lparr>pr_rt := (pr_rt db)\<lparr>rt_sites := rt_sites (pr_rt db) @ [new_site site]\<rparr>\<rparr>))
      else Some (0, db))"

definition allocate_batch ::
    "api_token \<Rightarrow> create_input \<Rightarrow> site_context \<Rightarrow> admin_pin \<Rightarrow> int \<Rightarrow> provisioning_db
      \<Rightarrow> (nat \<times> nat \<times> nat) option \<times> provisioning_db" where
  "allocate_batch token input site pin now db =
     (case insert_allocation token input (ctx_id site) now db of
        (n, db1) \<Rightarrow>
          (case (if n = 1 then insert_root (ctx_id site) pin now db1 else Some (0, db1)) of
             None \<Rightarrow> (None, db)
           | Some (m, db2) \<Rightarrow>
               (case insert_site token input site db2 of
                  None \<Rightarrow> (None, db)
                | Some (k, db3) \<Rightarrow> (Some (n, m, k), db3))))"

section \<open>The other statements\<close>

definition on_lifecycles :: "runtime_statement \<Rightarrow> provisioning_statement" where
  "on_lifecycles stmt db = (case stmt (pr_rt db) of (n, rt) \<Rightarrow> (n, db\<lparr>pr_rt := rt\<rparr>))"

definition stmt_bind :: "string \<Rightarrow> string \<Rightarrow> provisioning_statement" where
  "stmt_bind siteId operationId db =
     (case sql_update (\<lambda>a. as_site a = siteId \<and> (as_operation a = None \<or> as_operation a = Some operationId))
             (\<lambda>a. a\<lparr>as_operation := Some operationId\<rparr>) (pr_sites db) of
        (n, rows) \<Rightarrow> (n, db\<lparr>pr_sites := rows\<rparr>))"

text \<open>Both the primary key and the \<open>UNIQUE\<close> columns of the links make an insertion ignored.\<close>

definition same_link :: "link_row \<Rightarrow> link_row \<Rightarrow> bool" where
  "same_link l m \<longleftrightarrow> lk_principal l = lk_principal m \<and> lk_site l = lk_site m
     \<and> (lk_operation l = lk_operation m \<or> lk_kind l = lk_kind m \<and> lk_key l = lk_key m)"

definition stmt_link :: "link_row \<Rightarrow> provisioning_statement" where
  "stmt_link l db = (if \<exists>m \<in> set (pr_links db). same_link l m then (0, db) else (1, db\<lparr>pr_links := pr_links db @ [l]\<rparr>))"

definition ignore_root :: "string \<Rightarrow> admin_pin \<Rightarrow> int \<Rightarrow> provisioning_statement" where
  "ignore_root siteId pin now db =
     (case sql_insert_ignore rr_site \<lparr>rr_site = siteId, rr_pin = pin, rr_created = now\<rparr> (pr_roots db) of
        (n, rows) \<Rightarrow> (n, db\<lparr>pr_roots := rows\<rparr>))"

definition new_claim :: "string \<Rightarrow> string \<Rightarrow> string \<Rightarrow> int \<Rightarrow> int \<Rightarrow> admin_claim_row" where
  "new_claim siteId capability credential expires now =
     \<lparr>cl_site = siteId, cl_capabilityDigest = capability, cl_credentialDigest = credential, cl_expires_at = expires,
      cl_state = Claim_pending, cl_updated_at = now\<rparr>"

definition insert_claim :: "string \<Rightarrow> admin_pin \<Rightarrow> string \<Rightarrow> string \<Rightarrow> int \<Rightarrow> int \<Rightarrow> provisioning_statement" where
  "insert_claim siteId pin capability credential expires now db =
     (if root_of db siteId = Some pin
      then (case sql_insert_ignore cl_site (new_claim siteId capability credential expires now) (pr_claims db) of
              (n, rows) \<Rightarrow> (n, db\<lparr>pr_claims := rows\<rparr>))
      else (0, db))"

definition issue_batch :: "string \<Rightarrow> admin_pin \<Rightarrow> string \<Rightarrow> string \<Rightarrow> int \<Rightarrow> int \<Rightarrow> provisioning_statement" where
  "issue_batch siteId pin capability credential expires now db =
     insert_claim siteId pin capability credential expires now (snd (ignore_root siteId pin now db))"

definition update_claims :: "(admin_claim_row \<Rightarrow> bool) \<Rightarrow> admin_claim_state \<Rightarrow> int \<Rightarrow> provisioning_statement" where
  "update_claims c state now db =
     (case sql_update c (\<lambda>r. r\<lparr>cl_state := state, cl_updated_at := now\<rparr>) (pr_claims db) of
        (n, rows) \<Rightarrow> (n, db\<lparr>pr_claims := rows\<rparr>))"

definition stmt_expire_claim :: "string \<Rightarrow> int \<Rightarrow> int \<Rightarrow> provisioning_statement" where
  "stmt_expire_claim siteId now now' =
     update_claims (\<lambda>c. cl_site c = siteId \<and> cl_state c = Claim_pending \<and> cl_expires_at c \<le> now') Claim_expired now"

text \<open>The site of the claim exists and its lifecycle, if it has one, is active.\<close>

definition site_live :: "int \<Rightarrow> runtime_db \<Rightarrow> string \<Rightarrow> bool" where
  "site_live now rt siteId =
     (case site_of rt siteId of
        None \<Rightarrow> False
      | Some s \<Rightarrow>
          (case lifecycle_at rt siteId (sr_generation s) of
             None \<Rightarrow> True
           | Some l \<Rightarrow> lc_state l = Lifecycle_active \<and> now < lc_expires_at l))"

definition stmt_consume :: "string \<Rightarrow> string \<Rightarrow> int \<Rightarrow> provisioning_statement" where
  "stmt_consume siteId digest now db =
     update_claims (\<lambda>c. cl_site c = siteId \<and> cl_state c = Claim_pending \<and> cl_capabilityDigest c = digest
         \<and> now < cl_expires_at c \<and> site_live now (pr_rt db) (cl_site c)) Claim_settled now db"

text \<open>What a deletion does to these tables (\<open>cancelWork\<close> and \<open>cleanupWork\<close> of \<open>allocation-lifecycle.ts\<close>).\<close>

definition stmt_cancel_claims :: "string \<Rightarrow> int \<Rightarrow> provisioning_statement" where
  "stmt_cancel_claims siteId now =
     update_claims (\<lambda>c. cl_site c = siteId \<and> cl_state c = Claim_pending) Claim_expired now"

definition stmt_clean_claims :: "string \<Rightarrow> provisioning_statement" where
  "stmt_clean_claims siteId db =
     (case sql_delete (\<lambda>c. cl_site c = siteId) (pr_claims db) of (n, rows) \<Rightarrow> (n, db\<lparr>pr_claims := rows\<rparr>))"

definition stmt_clean_roots :: "string \<Rightarrow> provisioning_statement" where
  "stmt_clean_roots siteId db =
     (case sql_delete (\<lambda>r. rr_site r = siteId) (pr_roots db) of (n, rows) \<Rightarrow> (n, db\<lparr>pr_roots := rows\<rparr>))"

section \<open>The methods of the allocations\<close>

text \<open>An interference: what other clients did before the statement with this number.\<close>

type_synonym others = "nat \<Rightarrow> provisioning_db \<Rightarrow> provisioning_db"

definition binding_conflict :: string where
  "binding_conflict = ''The idempotency key is already bound to a different immutable input.''"

definition same_request :: "create_input \<Rightarrow> provisioning_allocation \<Rightarrow> provisioning_allocation provisioning_action" where
  "same_request input existing =
     (if ci_fingerprint (pa_input existing) \<noteq> ci_fingerprint input
      then throw (Provisioning_conflict binding_conflict) else succeed existing)"

text \<open>\<open>lifecycle.create\<close>: a row that is there already has to be of the same owner.\<close>

definition create_lifecycle ::
    "(provisioning_db \<Rightarrow> provisioning_db) \<Rightarrow> site_context \<Rightarrow> string \<Rightarrow> int \<Rightarrow> unit provisioning_action" where
  "create_lifecycle other site owner now =
     (let identity = allocationIdentity (ctx_id site) in
      and_then (execute (on_lifecycles (stmt_create_allocation defaultRetention identity owner now))) (\<lambda>_.
      and_then (modify other) (\<lambda>_.
      and_then (query (\<lambda>db. lifecycle_at (pr_rt db) (id_site identity) (id_generation identity))) (\<lambda>l.
        require (case l of None \<Rightarrow> False | Some row \<Rightarrow> lc_principal row = owner) Lifecycle_conflict))))"

definition run_batch :: "('db \<Rightarrow> 'r \<times> 'db) \<Rightarrow> ('db, 'e, 'r) action" where
  "run_batch f db = (case f db of (r, db') \<Rightarrow> (Inr r, db'))"

definition new_allocation :: "api_token \<Rightarrow> create_input \<Rightarrow> string \<Rightarrow> admin_pin \<Rightarrow> provisioning_allocation" where
  "new_allocation token input siteId pin =
     \<lparr>pa_siteId = siteId, pa_principal = tk_principal token, pa_input = input, pa_operationId = None,
      pa_administratorRoot = Some pin\<rparr>"

text \<open>The loop over the candidates: others come before the batch of an attempt and before what follows it.\<close>

fun try_sites ::
    "others \<Rightarrow> (nat \<Rightarrow> int) \<Rightarrow> api_token \<Rightarrow> create_input \<Rightarrow> admin_pin \<Rightarrow> nat \<Rightarrow> (string + site_context) list
      \<Rightarrow> provisioning_allocation provisioning_action" where
  "try_sites others clock token input pin k [] =
     and_then (modify (others (3 * k))) (\<lambda>_.
     and_then (query (live_count (tk_principal token))) (\<lambda>count.
       throw (if int count \<ge> tk_maxSites token then Quota_exceeded else Capacity_exhausted)))"
| "try_sites others clock token input pin k (candidate # rest) =
     and_then (modify (others (3 * k))) (\<lambda>_.
     and_then (from_result (map_sum Provisioning_failure (\<lambda>s. s) candidate)) (\<lambda>site.
     and_then (run_batch (allocate_batch token input site pin (clock k))) (\<lambda>changes.
     and_then (modify (others (3 * k + 1))) (\<lambda>_.
       if changes = Some (1, 1, 1)
       then and_then (create_lifecycle (others (3 * k + 2)) site (tk_principal token) (clock k)) (\<lambda>_.
              succeed (new_allocation token input (ctx_id site) pin))
       else
         and_then (query (byRequest (tk_principal token) (ci_key input))) (\<lambda>raced.
         case raced of
           Some a \<Rightarrow> same_request input a
         | None \<Rightarrow> try_sites others clock token input pin (Suc k) rest)))))"

definition candidates ::
    "site_platform \<Rightarrow> (nat \<Rightarrow> string) \<Rightarrow> preview_domain option \<Rightarrow> site_context list \<Rightarrow> (string + site_context) list" where
  "candidates platform uuid domain configured =
     (case domain of
        Some d \<Rightarrow> map (\<lambda>k. allocatePreviewSiteContext platform (uuid k) d 1) [0..<8]
      | None \<Rightarrow> map Inr configured)"

definition allocate ::
    "site_platform \<Rightarrow> (nat \<Rightarrow> string) \<Rightarrow> others \<Rightarrow> (nat \<Rightarrow> int) \<Rightarrow> api_token \<Rightarrow> create_input \<Rightarrow> preview_domain option
      \<Rightarrow> site_context list \<Rightarrow> admin_pin \<Rightarrow> provisioning_allocation provisioning_action" where
  "allocate platform uuid others clock token input domain configured pin =
     and_then (query (byRequest (tk_principal token) (ci_key input))) (\<lambda>existing.
     case existing of
       Some a \<Rightarrow> same_request input a
     | None \<Rightarrow>
         if domain \<noteq> None \<and> tk_sites token \<noteq> None then throw Quota_exceeded
         else try_sites others clock token input pin 0 (candidates platform uuid domain configured))"

definition bindOperation :: "others \<Rightarrow> provisioning_allocation \<Rightarrow> string \<Rightarrow> unit provisioning_action" where
  "bindOperation others a operationId =
     and_then (execute (stmt_bind (pa_siteId a) operationId)) (\<lambda>_.
     and_then (modify (others 0)) (\<lambda>_.
     and_then (query (bySite (pa_siteId a))) (\<lambda>current.
       require (case current of None \<Rightarrow> False | Some c \<Rightarrow> pa_operationId c = Some operationId)
         (Provisioning_conflict ''The provisioning allocation is already bound to another operation.''))))"

definition linked_operation :: "string \<Rightarrow> string \<Rightarrow> link_kind \<Rightarrow> string \<Rightarrow> provisioning_db \<Rightarrow> string option" where
  "linked_operation owner siteId kind key db = map_option lk_operation
     (find (\<lambda>m. lk_principal m = owner \<and> lk_site m = siteId \<and> lk_kind m = kind \<and> lk_key m = key) (pr_links db))"

definition linkOperation ::
    "others \<Rightarrow> string \<Rightarrow> string \<Rightarrow> string \<Rightarrow> link_kind \<Rightarrow> string \<Rightarrow> unit provisioning_action" where
  "linkOperation others owner siteId operationId kind key =
     and_then (execute (stmt_link \<lparr>lk_principal = owner, lk_site = siteId, lk_operation = operationId, lk_kind = kind,
       lk_key = key\<rparr>)) (\<lambda>_.
     and_then (modify (others 0)) (\<lambda>_.
     and_then (query (linked_operation owner siteId kind key)) (\<lambda>linked.
       require (linked = Some operationId)
         (Provisioning_conflict ''The API idempotency key is already bound to another operation.''))))"

definition ownsOperation :: "string \<Rightarrow> string \<Rightarrow> string \<Rightarrow> provisioning_db \<Rightarrow> bool" where
  "ownsOperation owner siteId operationId db \<longleftrightarrow>
     (\<exists>m \<in> set (pr_links db). lk_principal m = owner \<and> lk_site m = siteId \<and> lk_operation m = operationId)"

section \<open>The methods of the administrator's claim\<close>

record claim_metadata =
  cm_state :: admin_claim_state
  cm_expiresAt :: int
  cm_token :: "string option"

definition metadata_of :: "admin_claim_row \<Rightarrow> claim_metadata" where
  "metadata_of c = \<lparr>cm_state = cl_state c, cm_expiresAt = cl_expires_at c, cm_token = None\<rparr>"

definition expired_metadata :: "admin_claim_row \<Rightarrow> claim_metadata" where
  "expired_metadata c = \<lparr>cm_state = Claim_expired, cm_expiresAt = cl_expires_at c, cm_token = None\<rparr>"

definition nul :: string where
  "nul = [CHR 0x00]"

definition claimCapability :: "secret_platform \<Rightarrow> string \<Rightarrow> provisioning_allocation \<Rightarrow> string" where
  "claimCapability platform rootCredential a = keyedDigest platform rootCredential
     (''wp-codebox/administrator-claim/v1'' @ nul @ pa_siteId a @ nul @ pa_principal a @ nul @ ci_key (pa_input a) @ nul
      @ ci_fingerprint (pa_input a))"

definition deriveSiteCredential :: "secret_platform \<Rightarrow> string \<Rightarrow> string \<Rightarrow> string \<Rightarrow> string + string" where
  "deriveSiteCredential platform rootCredential site purpose =
     (if rootCredential = [] then Inl (''WORDPRESS_'' @ (if purpose = ''admin-password'' then ''ADMIN_PASSWORD'' else ''OPERATOR_TOKEN'')
        @ '' is required.'')
      else if site = ''default'' then Inr rootCredential
      else Inr (keyedDigest platform rootCredential (''wp-codebox/site-credential/v1'' @ nul @ site @ nul @ purpose)))"

definition administratorBinding :: "secret_platform \<Rightarrow> secret_env \<Rightarrow> admin_pin option \<Rightarrow> string + admin_binding option" where
  "administratorBinding platform env pin =
     (case parseAdministratorSecretBindings platform env of
        Inl e \<Rightarrow> Inl e | Inr bs \<Rightarrow> Inr (resolvePinnedAdministratorSecretBinding platform bs pin))"

definition allocationActive :: "int \<Rightarrow> string \<Rightarrow> provisioning_db \<Rightarrow> bool" where
  "allocationActive now siteId db =
     (case lifecycle_at (pr_rt db) siteId (id_generation (allocationIdentity siteId)) of
        None \<Rightarrow> True | Some l \<Rightarrow> lc_state l = Lifecycle_active \<and> now < lc_expires_at l)"

definition claim_matches :: "string \<Rightarrow> string \<Rightarrow> admin_claim_row \<Rightarrow> bool" where
  "claim_matches capability credential c \<longleftrightarrow> equal_texts capability (cl_capabilityDigest c)
     \<and> equal_texts credential (cl_credentialDigest c)"

definition day_ms :: int where
  "day_ms = 24 * 60 * 60 * 1000"

text \<open>The end of \<open>issue\<close>: what the batch left has to be the evidence of this allocation.\<close>

definition confirm_claim ::
    "string \<Rightarrow> admin_pin \<Rightarrow> string \<Rightarrow> string \<Rightarrow> string \<Rightarrow> admin_claim_row option \<Rightarrow> provisioning_allocation option
      \<Rightarrow> claim_metadata provisioning_action" where
  "confirm_claim siteId rootPin token digest credentialDigest claim pinned =
     (case (claim, pinned) of
        (Some c, Some p) \<Rightarrow>
          (case pa_administratorRoot p of
             None \<Rightarrow> throw (Provisioning_failure ''Administrator claim and root evidence were not persisted.'')
           | Some r \<Rightarrow>
               if \<not> claim_matches digest credentialDigest c then throw Claim_error
               else if pn_version r \<noteq> pn_version rootPin
                  \<or> \<not> equal_texts (pn_claimSecretDigest r) (pn_claimSecretDigest rootPin)
                  \<or> \<not> equal_texts (pn_passwordDigest r) (pn_passwordDigest rootPin) then throw Claim_error
               else if cl_state c = Claim_pending
               then succeed \<lparr>cm_state = cl_state c, cm_expiresAt = cl_expires_at c, cm_token = Some token\<rparr>
               else succeed (metadata_of c))
      | _ \<Rightarrow> throw (Provisioning_failure ''Administrator claim and root evidence were not persisted.''))"

definition issue_new ::
    "secret_platform \<Rightarrow> secret_env \<Rightarrow> others \<Rightarrow> (nat \<Rightarrow> int) \<Rightarrow> provisioning_allocation \<Rightarrow> admin_claim_row option
      \<Rightarrow> claim_metadata provisioning_action" where
  "issue_new platform env others clock a existing =
     and_then (from_result (map_sum Provisioning_failure (\<lambda>b. b) (administratorBinding platform env (pa_administratorRoot a)))) (\<lambda>found.
     case found of
       None \<Rightarrow> throw Claim_error
     | Some b \<Rightarrow>
         let rootPin = (case pa_administratorRoot a of Some r \<Rightarrow> r | None \<Rightarrow> pinAdministratorSecretBinding platform b);
             token = claimCapability platform (ab_claimSecret b) a;
             digest = digest_of platform token
         in and_then (from_result (map_sum Provisioning_failure (\<lambda>p. p)
              (deriveSiteCredential platform (ab_password b) (pa_siteId a) ''admin-password''))) (\<lambda>credential.
            let credentialDigest = digest_of platform credential in
            if (case existing of None \<Rightarrow> False | Some c \<Rightarrow> \<not> claim_matches digest credentialDigest c) then throw Claim_error
            else
              and_then (modify (others 2)) (\<lambda>_.
              and_then (execute (issue_batch (pa_siteId a) rootPin digest credentialDigest (clock 3 + day_ms) (clock 4))) (\<lambda>_.
              and_then (modify (others 3)) (\<lambda>_.
              and_then (query (claim_of (pa_siteId a))) (\<lambda>claim.
              and_then (modify (others 4)) (\<lambda>_.
              and_then (query (bySite (pa_siteId a))) (\<lambda>pinned.
                confirm_claim (pa_siteId a) rootPin token digest credentialDigest claim pinned))))))))"

definition issue ::
    "secret_platform \<Rightarrow> secret_env \<Rightarrow> others \<Rightarrow> (nat \<Rightarrow> int) \<Rightarrow> provisioning_allocation \<Rightarrow> claim_metadata provisioning_action" where
  "issue platform env others clock a =
     and_then (query (allocationActive (clock 0) (pa_siteId a))) (\<lambda>active.
     if \<not> active then throw Claim_error
     else
       and_then (modify (others 0)) (\<lambda>_.
       and_then (query (claim_of (pa_siteId a))) (\<lambda>existing.
       case existing of
         None \<Rightarrow> issue_new platform env others clock a None
       | Some c \<Rightarrow>
           if cl_state c = Claim_pending \<and> cl_expires_at c \<le> clock 1
           then and_then (modify (others 1)) (\<lambda>_.
                and_then (execute (stmt_expire_claim (pa_siteId a) (clock 2) (clock 3))) (\<lambda>_. succeed (expired_metadata c)))
           else if cl_state c \<noteq> Claim_pending then succeed (metadata_of c)
           else issue_new platform env others clock a (Some c))))"

definition claim_metadata_of :: "others \<Rightarrow> (nat \<Rightarrow> int) \<Rightarrow> string \<Rightarrow> claim_metadata option provisioning_action" where
  "claim_metadata_of others clock siteId =
     and_then (query (claim_of siteId)) (\<lambda>claim.
     case claim of
       None \<Rightarrow> succeed None
     | Some c \<Rightarrow>
         if cl_state c = Claim_pending \<and> cl_expires_at c \<le> clock 0
         then and_then (modify (others 0)) (\<lambda>_.
              and_then (execute (stmt_expire_claim siteId (clock 1) (clock 2))) (\<lambda>_. succeed (Some (expired_metadata c))))
         else succeed (Some (metadata_of c)))"

definition consume :: "string \<Rightarrow> string \<Rightarrow> int \<Rightarrow> bool provisioning_action" where
  "consume siteId digest now = and_then (execute (stmt_consume siteId digest now)) (\<lambda>n. succeed (n = 1))"

section \<open>Redeeming the claim\<close>

datatype claim_response = Claim_unavailable | Claim_not_ready | Claim_credential string

definition provisioned_operation :: "string \<Rightarrow> string option \<Rightarrow> provisioning_db \<Rightarrow> operation_row option" where
  "provisioned_operation siteId operationId db =
     (case operationId of
        None \<Rightarrow> None
      | Some i \<Rightarrow> if i = [] then None else find (\<lambda>w. op_site w = siteId \<and> op_id w = i) (rt_operations (pr_rt db)))"

text \<open>The handler once the binding is known: the password is released by the statement that consumes the claim.\<close>

definition redeem_claim ::
    "secret_platform \<Rightarrow> others \<Rightarrow> (nat \<Rightarrow> int) \<Rightarrow> string \<Rightarrow> string \<Rightarrow> admin_claim_row \<Rightarrow> provisioning_allocation option
      \<Rightarrow> admin_binding \<Rightarrow> claim_response provisioning_action" where
  "redeem_claim platform others clock siteId capability c a b =
     (let digest = digest_of platform capability in
      if \<not> equal_texts digest (cl_capabilityDigest c) then succeed Claim_unavailable
      else
        and_then (modify (others 2)) (\<lambda>_.
        and_then (query (provisioned_operation siteId (case a of None \<Rightarrow> None | Some x \<Rightarrow> pa_operationId x))) (\<lambda>operation.
        if map_option op_state operation \<noteq> Some Succeeded then succeed Claim_not_ready
        else case deriveSiteCredential platform (ab_password b) siteId ''admin-password'' of
          Inl e \<Rightarrow> succeed Claim_unavailable
        | Inr password \<Rightarrow>
            if \<not> equal_texts (digest_of platform password) (cl_credentialDigest c) then succeed Claim_unavailable
            else and_then (modify (others 3)) (\<lambda>_.
                 and_then (consume siteId digest (clock 3)) (\<lambda>ok.
                   succeed (if ok then Claim_credential password else Claim_unavailable))))))"

definition claimAdministrator ::
    "secret_platform \<Rightarrow> secret_env \<Rightarrow> others \<Rightarrow> (nat \<Rightarrow> int) \<Rightarrow> string option \<Rightarrow> string \<Rightarrow> claim_response provisioning_action" where
  "claimAdministrator platform env others clock capability siteId =
     (case capability of
        None \<Rightarrow> succeed Claim_unavailable
      | Some token \<Rightarrow>
          and_then (query (claim_of siteId)) (\<lambda>claim.
          case claim of
            None \<Rightarrow> succeed Claim_unavailable
          | Some c \<Rightarrow>
              if cl_state c \<noteq> Claim_pending then succeed Claim_unavailable
              else if cl_expires_at c \<le> clock 0
              then and_then (modify (others 0)) (\<lambda>_.
                   and_then (execute (stmt_expire_claim siteId (clock 1) (clock 2))) (\<lambda>_. succeed Claim_unavailable))
              else
                and_then (modify (others 1)) (\<lambda>_.
                and_then (query (bySite siteId)) (\<lambda>a.
                case administratorBinding platform env (case a of None \<Rightarrow> None | Some x \<Rightarrow> pa_administratorRoot x) of
                  Inr (Some b) \<Rightarrow> redeem_claim platform others clock siteId token c a b
                | _ \<Rightarrow> succeed Claim_unavailable))))"

section \<open>Runs of statements\<close>

text \<open>
  The statements of all clients, one after another.  What the operation repository does to its own rows
  is a step that leaves any operations.
\<close>

datatype provisioning_step =
    Step_allocate api_token create_input site_context admin_pin int
  | Step_lifecycle lifecycle_statement
  | Step_register site_context
  | Step_operations "operation_row list"
  | Step_bind string string
  | Step_link link_row
  | Step_issue string admin_pin string string int int
  | Step_expire string int int
  | Step_consume string string int
  | Step_cancel string int
  | Step_clean_claims string
  | Step_clean_roots string

definition changed_by_batch :: "(nat \<times> nat \<times> nat) option \<Rightarrow> nat" where
  "changed_by_batch r = (case r of None \<Rightarrow> 0 | Some (n, m, k) \<Rightarrow> n + m + k)"

fun apply_step :: "provisioning_step \<Rightarrow> provisioning_statement" where
  "apply_step (Step_allocate token input site pin now) db =
     (case allocate_batch token input site pin now db of (r, db') \<Rightarrow> (changed_by_batch r, db'))"
| "apply_step (Step_lifecycle stmt) db = on_lifecycles (apply_lifecycle stmt) db"
| "apply_step (Step_register site) db = on_lifecycles (stmt_register site) db"
| "apply_step (Step_operations rows) db = (0, db\<lparr>pr_rt := (pr_rt db)\<lparr>rt_operations := rows\<rparr>\<rparr>)"
| "apply_step (Step_bind siteId operationId) db = stmt_bind siteId operationId db"
| "apply_step (Step_link l) db = stmt_link l db"
| "apply_step (Step_issue siteId pin capability credential expires now) db =
     issue_batch siteId pin capability credential expires now db"
| "apply_step (Step_expire siteId now now') db = stmt_expire_claim siteId now now' db"
| "apply_step (Step_consume siteId digest now) db = stmt_consume siteId digest now db"
| "apply_step (Step_cancel siteId now) db = stmt_cancel_claims siteId now db"
| "apply_step (Step_clean_claims siteId) db = stmt_clean_claims siteId db"
| "apply_step (Step_clean_roots siteId) db = stmt_clean_roots siteId db"

text \<open>
  What the callers guarantee: a token's quota is within the limit of its principal, a lifecycle is
  created under the identity its site's name shows, a site is registered under generation one only when
  its name shows no other, and evidence is cleaned only for a site whose deletion has begun.
\<close>

definition deletion_begun :: "string \<Rightarrow> provisioning_db \<Rightarrow> bool" where
  "deletion_begun siteId db \<longleftrightarrow> (\<exists>l \<in> set (rt_lifecycles (pr_rt db)). lc_site l = siteId \<and> lc_state l \<noteq> Lifecycle_active)"

fun permitted :: "(string \<Rightarrow> int) \<Rightarrow> provisioning_db \<Rightarrow> provisioning_step \<Rightarrow> bool" where
  "permitted limits db (Step_allocate token input site pin now) \<longleftrightarrow> tk_maxSites token \<le> limits (tk_principal token)"
| "permitted limits db (Step_lifecycle (Create_allocation policy i owner now)) \<longleftrightarrow> i = allocationIdentity (id_site i)"
| "permitted limits db (Step_register site) \<longleftrightarrow> id_generation (allocationIdentity (ctx_id site)) = 1"
| "permitted limits db (Step_clean_claims siteId) \<longleftrightarrow> deletion_begun siteId db"
| "permitted limits db (Step_clean_roots siteId) \<longleftrightarrow> deletion_begun siteId db"
| "permitted limits db _ \<longleftrightarrow> True"

inductive provisioning_run ::
    "(string \<Rightarrow> int) \<Rightarrow> provisioning_db \<Rightarrow> (provisioning_step \<times> nat) list \<Rightarrow> provisioning_db \<Rightarrow> bool" for limits where
  no_steps: "provisioning_run limits db [] db"
| one_step: "permitted limits db stmt \<Longrightarrow> apply_step stmt db = (n, db') \<Longrightarrow> provisioning_run limits db' trace db''
    \<Longrightarrow> provisioning_run limits db ((stmt, n) # trace) db''"

inductive_cases run_nil: "provisioning_run limits db [] db'"
inductive_cases run_cons: "provisioning_run limits db (e # trace) db'"

section \<open>Well-formed tables\<close>

definition canonical :: "runtime_db \<Rightarrow> bool" where
  "canonical rt \<longleftrightarrow> lifecycles_wf rt \<and> unique_by sr_id (rt_sites rt)
     \<and> (\<forall>l \<in> set (rt_lifecycles rt). lc_generation l = id_generation (allocationIdentity (lc_site l)))
     \<and> (\<forall>s \<in> set (rt_sites rt). sr_generation s = id_generation (allocationIdentity (sr_id s)))"

definition provisioning_wf :: "provisioning_db \<Rightarrow> bool" where
  "provisioning_wf db \<longleftrightarrow> canonical (pr_rt db) \<and> unique_by as_site (pr_sites db)
     \<and> unique_by (\<lambda>a. (as_principal a, ci_key (as_input a))) (pr_sites db)
     \<and> unique_by rr_site (pr_roots db) \<and> unique_by cl_site (pr_claims db)"

lemma id_site_identity [simp]: "id_site (allocationIdentity siteId) = siteId"
  by (simp add: allocationIdentity_def)

lemma empty_provisioning_wf: "provisioning_wf empty_provisioning_db"
  by (simp add: provisioning_wf_def canonical_def lifecycles_wf_def empty_provisioning_db_def empty_runtime_db_def unique_by_def)

lemma apply_lifecycle_sites [simp]: "rt_sites (snd (apply_lifecycle stmt rt)) = rt_sites rt"
  by (cases stmt) (simp_all add: lifecycle_updates update_lifecycles_def stmt_create_allocation_def split: prod.split)

lemma update_lifecycles_keys:
  assumes "keeps_key f" and "l \<in> set (rt_lifecycles (snd (update_lifecycles c f rt)))"
  shows "\<exists>m \<in> set (rt_lifecycles rt). lifecycle_key l = lifecycle_key m"
  using assms by (auto simp: update_lifecycles_def sql_update_def keeps_key_def split: if_splits)

lemma apply_lifecycle_keys:
  assumes "l \<in> set (rt_lifecycles (snd (apply_lifecycle stmt rt)))"
  shows "(\<exists>m \<in> set (rt_lifecycles rt). lifecycle_key l = lifecycle_key m)
    \<or> (\<exists>policy i owner now. stmt = Create_allocation policy i owner now \<and> l = new_lifecycle policy i owner now)"
proof (cases stmt)
  case (Create_allocation policy i owner now)
  then show ?thesis using assms by (auto simp: stmt_create_allocation_def sql_insert_ignore_def split: if_splits)
qed (use assms in \<open>auto simp: lifecycle_updates dest!: update_lifecycles_keys [OF row_changes(1)]
    update_lifecycles_keys [OF row_changes(2)] update_lifecycles_keys [OF row_changes(3)]
    update_lifecycles_keys [OF row_changes(4)] update_lifecycles_keys [OF row_changes(5)]\<close>)

lemma canonical_lifecycle:
  assumes "canonical rt" and "permitted limits db (Step_lifecycle stmt)"
  shows "canonical (snd (apply_lifecycle stmt rt))"
proof -
  have "lc_generation l = id_generation (allocationIdentity (lc_site l))"
    if l: "l \<in> set (rt_lifecycles (snd (apply_lifecycle stmt rt)))" for l
    using apply_lifecycle_keys [OF l]
  proof (elim disjE bexE exE conjE)
    fix m assume "m \<in> set (rt_lifecycles rt)" "lifecycle_key l = lifecycle_key m"
    then show ?thesis using assms(1) by (simp add: canonical_def lifecycle_key_def)
  next
    fix policy i owner now assume s: "stmt = Create_allocation policy i owner now" "l = new_lifecycle policy i owner now"
    then have "i = allocationIdentity (id_site i)" using assms(2) by simp
    then have "id_generation i = id_generation (allocationIdentity (id_site i))" by metis
    then show ?thesis using s by (simp add: new_lifecycle_def)
  qed
  then show ?thesis using assms(1) apply_lifecycle_wf by (simp add: canonical_def)
qed

lemma canonical_register:
  assumes "canonical rt" and "permitted limits db (Step_register site)"
  shows "canonical (snd (stmt_register site rt))"
proof (cases "site_of rt (ctx_id site) \<noteq> None \<or> (\<exists>s \<in> set (rt_sites rt). sr_hostname s = ctx_hostname site)")
  case False
  then have "\<forall>s \<in> set (rt_sites rt). sr_id s \<noteq> ctx_id site" by (auto simp: site_of_def find_None_iff)
  then show ?thesis using False assms
    by (auto simp: stmt_register_def canonical_def lifecycles_wf_def unique_by_def)
qed (use assms(1) in \<open>auto simp: stmt_register_def\<close>)

text \<open>The batch of an allocation: it fails, inserts nothing, or inserts all three rows.\<close>

definition after_allocation :: "api_token \<Rightarrow> create_input \<Rightarrow> site_context \<Rightarrow> admin_pin \<Rightarrow> int \<Rightarrow> provisioning_db \<Rightarrow> provisioning_db" where
  "after_allocation token input site pin now db =
     db\<lparr>pr_sites := pr_sites db @ [api_row token input (ctx_id site) now],
        pr_roots := pr_roots db @ [\<lparr>rr_site = ctx_id site, rr_pin = pin, rr_created = now\<rparr>],
        pr_rt := (pr_rt db)\<lparr>rt_sites := rt_sites (pr_rt db) @ [new_site site]\<rparr>\<rparr>"

definition late_site :: "api_token \<Rightarrow> create_input \<Rightarrow> site_context \<Rightarrow> provisioning_db \<Rightarrow> bool" where
  "late_site token input site db \<longleftrightarrow> (\<exists>a \<in> set (pr_sites db). as_site a = ctx_id site \<and> of_request (tk_principal token) (ci_key input) a
      \<and> ci_fingerprint (as_input a) = ci_fingerprint input) \<and> root_of db (ctx_id site) \<noteq> None
     \<and> (\<forall>s \<in> set (rt_sites (pr_rt db)). sr_id s \<noteq> ctx_id site \<and> sr_hostname s \<noteq> ctx_hostname site)"

lemma root_of_append: "root_of (db\<lparr>pr_sites := rows\<rparr>) siteId = root_of db siteId"
  by (simp add: root_of_def)

lemma find_append_new: "find P (xs @ [x]) = (case find P xs of Some y \<Rightarrow> Some y | None \<Rightarrow> if P x then Some x else None)"
  by (induction xs) auto

lemma allocate_batch_cases:
  assumes "allocate_batch token input site pin now db = (r, db')"
  shows "(db' = db \<and> r \<noteq> Some (1, 1, 1))
    \<or> (admits_allocation token input (ctx_id site) db \<and> root_of db (ctx_id site) = None
       \<and> (\<forall>s \<in> set (rt_sites (pr_rt db)). sr_id s \<noteq> ctx_id site \<and> sr_hostname s \<noteq> ctx_hostname site)
       \<and> r = Some (1, 1, 1) \<and> db' = after_allocation token input site pin now db)
    \<or> (late_site token input site db \<and> r = Some (0, 0, 1)
       \<and> db' = db\<lparr>pr_rt := (pr_rt db)\<lparr>rt_sites := rt_sites (pr_rt db) @ [new_site site]\<rparr>\<rparr>)"
proof (cases "admits_allocation token input (ctx_id site) db")
  case True
  then show ?thesis using assms
    by (auto simp: allocate_batch_def insert_allocation_def insert_root_def insert_site_def root_of_append
        after_allocation_def api_row_def of_request_def root_of_def find_append_new split: if_splits option.splits)
next
  case False
  then show ?thesis using assms
    by (auto simp: allocate_batch_def insert_allocation_def insert_site_def late_site_def split: if_splits)
qed

lemma unique_by_append: "unique_by key (rows @ [row]) \<longleftrightarrow> unique_by key rows \<and> (\<forall>r \<in> set rows. key r \<noteq> key row)"
  by (auto simp: unique_by_def) (metis image_eqI)

lemma new_site_fields [simp]:
  "sr_id (new_site site) = ctx_id site" "sr_generation (new_site site) = id_generation (allocationIdentity (ctx_id site))"
  by (simp_all add: new_site_def)

lemma canonical_new_site:
  assumes "canonical rt" and "\<forall>s \<in> set (rt_sites rt). sr_id s \<noteq> ctx_id site"
  shows "canonical (rt\<lparr>rt_sites := rt_sites rt @ [new_site site]\<rparr>)"
  using assms by (auto simp: canonical_def lifecycles_wf_def unique_by_append)

lemma root_of_None: "root_of db siteId = None \<longleftrightarrow> (\<forall>r \<in> set (pr_roots db). rr_site r \<noteq> siteId)"
  by (auto simp: root_of_def find_None_iff)

lemma allocate_wf:
  assumes wf: "provisioning_wf db" and batch: "allocate_batch token input site pin now db = (r, db')"
  shows "provisioning_wf db'"
  using allocate_batch_cases [OF batch]
proof (elim disjE conjE)
  assume a: "admits_allocation token input (ctx_id site) db" "root_of db (ctx_id site) = None"
    "\<forall>s \<in> set (rt_sites (pr_rt db)). sr_id s \<noteq> ctx_id site \<and> sr_hostname s \<noteq> ctx_hostname site"
    and db': "db' = after_allocation token input site pin now db"
  then show ?thesis using wf canonical_new_site
    by (auto simp: provisioning_wf_def after_allocation_def unique_by_append admits_allocation_def api_row_def of_request_def
        root_of_None)
next
  assume "late_site token input site db"
    and "db' = db\<lparr>pr_rt := (pr_rt db)\<lparr>rt_sites := rt_sites (pr_rt db) @ [new_site site]\<rparr>\<rparr>"
  then show ?thesis using wf canonical_new_site by (auto simp: provisioning_wf_def late_site_def)
qed (use wf in auto)

lemma update_claims_wf: "provisioning_wf db \<Longrightarrow> provisioning_wf (snd (update_claims c state now db))"
  by (simp add: provisioning_wf_def update_claims_def case_prod_unfold)

lemma on_lifecycles_wf: "provisioning_wf db \<Longrightarrow> canonical (snd (stmt (pr_rt db))) \<Longrightarrow> provisioning_wf (snd (on_lifecycles stmt db))"
  by (auto simp: provisioning_wf_def on_lifecycles_def split: prod.split)

lemma bind_wf: "provisioning_wf db \<Longrightarrow> provisioning_wf (snd (stmt_bind siteId operationId db))"
  by (simp add: provisioning_wf_def stmt_bind_def case_prod_unfold)

lemma issue_wf: "provisioning_wf db \<Longrightarrow> provisioning_wf (snd (issue_batch siteId pin capability credential expires now db))"
  by (simp add: provisioning_wf_def issue_batch_def insert_claim_def ignore_root_def case_prod_unfold unique_by_insert)

lemma clean_wf:
  "provisioning_wf db \<Longrightarrow> provisioning_wf (snd (stmt_clean_claims siteId db))"
  "provisioning_wf db \<Longrightarrow> provisioning_wf (snd (stmt_clean_roots siteId db))"
  by (simp_all add: provisioning_wf_def stmt_clean_claims_def stmt_clean_roots_def case_prod_unfold unique_by_delete)

lemma step_wf:
  assumes "provisioning_wf db" and "permitted limits db stmt"
  shows "provisioning_wf (snd (apply_step stmt db))"
proof (cases stmt)
  case (Step_allocate token input site pin now)
  then show ?thesis using allocate_wf [OF assms(1)] by (auto split: prod.split)
next
  case (Step_lifecycle s)
  then show ?thesis using assms canonical_lifecycle on_lifecycles_wf by (simp add: provisioning_wf_def)
next
  case (Step_register site)
  then show ?thesis using assms canonical_register on_lifecycles_wf by (simp add: provisioning_wf_def)
next
  case (Step_operations rows)
  then show ?thesis using assms by (simp add: provisioning_wf_def canonical_def lifecycles_wf_def)
next
  case (Step_link l)
  then show ?thesis using assms by (simp add: provisioning_wf_def stmt_link_def)
qed (use assms update_claims_wf bind_wf issue_wf clean_wf in \<open>simp_all add: stmt_expire_claim_def stmt_consume_def stmt_cancel_claims_def\<close>)

lemma run_wf: "provisioning_run limits db trace db' \<Longrightarrow> provisioning_wf db \<Longrightarrow> provisioning_wf db'"
proof (induction rule: provisioning_run.induct)
  case (one_step db stmt n db' trace db'')
  then show ?case using step_wf by (metis snd_conv)
qed

section \<open>The quota\<close>

lemma singleton_list: "distinct xs \<Longrightarrow> set xs = {x} \<Longrightarrow> xs = [x]"
  by (cases xs; cases "tl xs") auto

lemma joined_canonical:
  assumes "canonical rt"
  shows "joined_rows (rt_lifecycles rt) siteId =
    (case lifecycle_at rt siteId (id_generation (allocationIdentity siteId)) of
       None \<Rightarrow> 1 | Some l \<Rightarrow> if lc_state l = Tombstoned then 0 else 1)"
proof -
  let ?g = "id_generation (allocationIdentity siteId)"
  define own where "own = filter (\<lambda>l. lc_site l = siteId) (rt_lifecycles rt)"
  have wf: "lifecycles_wf rt" and gen: "\<And>l. l \<in> set own \<Longrightarrow> lc_generation l = ?g"
    using assms by (auto simp: canonical_def own_def)
  have own_iff: "l \<in> set own \<longleftrightarrow> lifecycle_at rt siteId ?g = Some l" for l
    using gen by (auto simp: find_lifecycle_iff [OF wf] own_def)
  have dist: "distinct own" using wf by (auto simp: own_def lifecycles_wf_def unique_by_def distinct_map)
  have "own = (case lifecycle_at rt siteId ?g of None \<Rightarrow> [] | Some l \<Rightarrow> [l])"
  proof (cases "lifecycle_at rt siteId ?g")
    case None
    then have "own = []" using own_iff by (cases own) auto
    then show ?thesis using None by simp
  next
    case (Some l)
    then have "set own = {l}" using own_iff by auto
    then show ?thesis using Some singleton_list [OF dist] by simp
  qed
  then show ?thesis by (simp add: joined_rows_def own_def [symmetric] Let_def split: option.split)
qed

lemma live_count_alt:
  "live_count owner db = sum_list (map (\<lambda>(p, s). if p = owner then joined_rows (rt_lifecycles (pr_rt db)) s else 0)
     (map (\<lambda>a. (as_principal a, as_site a)) (pr_sites db)))"
proof -
  have "sum_list (map f (filter P xs)) = sum_list (map (\<lambda>x. if P x then f x else 0) xs)" for P and f :: "api_site_row \<Rightarrow> nat" and xs
    by (induction xs) auto
  then show ?thesis by (simp add: live_count_def comp_def)
qed

lemma live_count_same:
  assumes "map (\<lambda>a. (as_principal a, as_site a)) (pr_sites db') = map (\<lambda>a. (as_principal a, as_site a)) (pr_sites db)"
    and "rt_lifecycles (pr_rt db') = rt_lifecycles (pr_rt db)"
  shows "live_count owner db' = live_count owner db"
  unfolding live_count_alt assms by (rule refl)

lemma live_count_mono:
  assumes "pr_sites db' = pr_sites db"
    and "\<And>s. joined_rows (rt_lifecycles (pr_rt db')) s \<le> joined_rows (rt_lifecycles (pr_rt db)) s"
  shows "live_count owner db' \<le> live_count owner db"
  using assms by (simp add: live_count_def sum_list_mono)

lemma lifecycle_joined:
  assumes wf: "canonical rt" and ok: "permitted limits db (Step_lifecycle stmt)"
  shows "joined_rows (rt_lifecycles (snd (apply_lifecycle stmt rt))) s \<le> joined_rows (rt_lifecycles rt) s"
proof (cases "lifecycle_at rt s (id_generation (allocationIdentity s))")
  case None
  then show ?thesis using joined_canonical [OF wf] joined_canonical [OF canonical_lifecycle [OF wf ok]]
    by (simp split: option.split)
next
  case (Some l)
  then obtain l' where l': "lifecycle_at (snd (apply_lifecycle stmt rt)) s (id_generation (allocationIdentity s)) = Some l'" "row_life l l'"
    using lifecycle_step [of rt "allocationIdentity s" l stmt] wf by (auto simp: canonical_def)
  then show ?thesis using Some joined_canonical [OF wf] joined_canonical [OF canonical_lifecycle [OF wf ok]]
    by (auto simp: row_life_def)
qed

lemma allocate_count:
  assumes wf: "provisioning_wf db" and batch: "allocate_batch token input site pin now db = (r, db')"
  shows "live_count owner db' = live_count owner db
    \<or> owner = tk_principal token \<and> int (live_count owner db) < tk_maxSites token \<and> live_count owner db' \<le> live_count owner db + 1"
  using allocate_batch_cases [OF batch]
proof (elim disjE conjE)
  assume "admits_allocation token input (ctx_id site) db" and db': "db' = after_allocation token input site pin now db"
  moreover have "joined_rows (rt_lifecycles (pr_rt db)) (ctx_id site) \<le> 1"
    using joined_canonical wf by (auto simp: provisioning_wf_def split: option.split)
  ultimately show ?thesis
    by (auto simp: live_count_def after_allocation_def api_row_def admits_allocation_def)
qed (simp_all add: live_count_def)

lemma step_quota:
  assumes wf: "provisioning_wf db" and ok: "permitted limits db stmt" and count: "int (live_count owner db) \<le> limits owner"
  shows "int (live_count owner (snd (apply_step stmt db))) \<le> limits owner"
proof (cases stmt)
  case (Step_allocate token input site pin now)
  obtain r db' where batch: "allocate_batch token input site pin now db = (r, db')" by fastforce
  then show ?thesis using allocate_count [OF wf batch, of owner] ok count by (auto simp: Step_allocate)
next
  case (Step_lifecycle s)
  have "live_count owner (snd (apply_step stmt db)) \<le> live_count owner db"
    by (rule live_count_mono) (use wf ok lifecycle_joined Step_lifecycle in
        \<open>auto simp: provisioning_wf_def on_lifecycles_def case_prod_unfold\<close>)
  then show ?thesis using count by linarith
next
  case (Step_bind siteId operationId)
  have "live_count owner (snd (apply_step stmt db)) = live_count owner db"
    by (rule live_count_same) (auto simp: Step_bind stmt_bind_def sql_update_def)
  then show ?thesis using count by simp
qed (use count in \<open>simp_all add: live_count_def on_lifecycles_def stmt_register_def stmt_link_def issue_batch_def insert_claim_def
      ignore_root_def stmt_expire_claim_def stmt_consume_def stmt_cancel_claims_def update_claims_def stmt_clean_claims_def
      stmt_clean_roots_def case_prod_unfold\<close>)

lemma run_quota:
  "provisioning_run limits db trace db' \<Longrightarrow> provisioning_wf db \<Longrightarrow> int (live_count owner db) \<le> limits owner
    \<Longrightarrow> int (live_count owner db') \<le> limits owner"
proof (induction rule: provisioning_run.induct)
  case (one_step db stmt n db' trace db'')
  then show ?case using step_wf step_quota by (metis snd_conv)
qed

section \<open>What is kept\<close>

definition kept_row :: "api_site_row \<Rightarrow> api_site_row \<Rightarrow> bool" where
  "kept_row a b \<longleftrightarrow> as_site b = as_site a \<and> as_principal b = as_principal a \<and> as_input b = as_input a
     \<and> as_created b = as_created a \<and> (as_operation a \<noteq> None \<longrightarrow> as_operation b = as_operation a)"

lemma kept_row_refl [simp]: "kept_row a a"
  by (simp add: kept_row_def)

lemma kept_row_trans: "kept_row a b \<Longrightarrow> kept_row b c \<Longrightarrow> kept_row a c"
  by (auto simp: kept_row_def)

lemma bind_keeps: "a \<in> set (pr_sites db) \<Longrightarrow> \<exists>b \<in> set (pr_sites (snd (stmt_bind siteId operationId db))). kept_row a b"
proof -
  let ?c = "\<lambda>a. as_site a = siteId \<and> (as_operation a = None \<or> as_operation a = Some operationId)"
  let ?b = "if ?c a then a\<lparr>as_operation := Some operationId\<rparr> else a"
  assume "a \<in> set (pr_sites db)"
  then have "?b \<in> set (pr_sites (snd (stmt_bind siteId operationId db)))" by (auto simp: stmt_bind_def sql_update_def)
  moreover have "kept_row a ?b" by (auto simp: kept_row_def)
  ultimately show ?thesis by blast
qed

lemma allocate_keeps_sites:
  "allocate_batch token input site pin now db = (r, db') \<Longrightarrow> set (pr_sites db) \<subseteq> set (pr_sites db')"
  by (drule allocate_batch_cases) (auto simp: after_allocation_def)

lemmas other_statements = on_lifecycles_def stmt_link_def issue_batch_def insert_claim_def ignore_root_def
  stmt_expire_claim_def stmt_consume_def stmt_cancel_claims_def update_claims_def stmt_clean_claims_def stmt_clean_roots_def
  case_prod_unfold

lemma step_keeps_row:
  assumes "a \<in> set (pr_sites db)"
  shows "\<exists>b \<in> set (pr_sites (snd (apply_step stmt db))). kept_row a b"
proof (cases stmt)
  case (Step_allocate token input site pin now)
  obtain r db' where batch: "allocate_batch token input site pin now db = (r, db')" by fastforce
  then have "a \<in> set (pr_sites (snd (apply_step stmt db)))"
    using allocate_keeps_sites [OF batch] assms by (auto simp: Step_allocate)
  then show ?thesis using kept_row_refl by blast
next
  case (Step_bind siteId operationId)
  then show ?thesis using bind_keeps assms by simp
qed (use assms in \<open>auto simp: other_statements intro!: bexI [of _ a]\<close>)

lemma run_keeps_row:
  "provisioning_run limits db trace db' \<Longrightarrow> a \<in> set (pr_sites db) \<Longrightarrow> \<exists>b \<in> set (pr_sites db'). kept_row a b"
proof (induction arbitrary: a rule: provisioning_run.induct)
  case (one_step db stmt n db' trace db'')
  then obtain b where "b \<in> set (pr_sites db')" "kept_row a b" using step_keeps_row by (metis snd_conv)
  then show ?case using one_step.IH kept_row_trans by blast
next
  case (no_steps db)
  then show ?case using kept_row_refl by blast
qed

lemma find_unique_key:
  assumes "unique_by key rows"
  shows "find (\<lambda>r. key r = k) rows = Some r \<longleftrightarrow> r \<in> set rows \<and> key r = k"
  using assms find_unique [of key rows r] find_sql [of "\<lambda>r. key r = k" rows r] by (auto simp: unique_by_def)

lemma claim_of_iff: "provisioning_wf db \<Longrightarrow> claim_of siteId db = Some c \<longleftrightarrow> c \<in> set (pr_claims db) \<and> cl_site c = siteId"
  by (simp add: claim_of_def provisioning_wf_def find_unique_key [where key = cl_site])

lemma api_site_iff: "provisioning_wf db \<Longrightarrow> api_site db siteId = Some a \<longleftrightarrow> a \<in> set (pr_sites db) \<and> as_site a = siteId"
  by (simp add: api_site_def provisioning_wf_def find_unique_key [where key = as_site])

text \<open>A root stays until the evidence of its site is cleaned.\<close>

lemma root_of_iff:
  "provisioning_wf db \<Longrightarrow> root_of db siteId = Some pin \<longleftrightarrow> (\<exists>r \<in> set (pr_roots db). rr_site r = siteId \<and> rr_pin r = pin)"
  by (auto simp: root_of_def provisioning_wf_def find_unique_key [where key = rr_site])

lemma step_keeps_root:
  assumes "root_of db siteId = Some pin" and "provisioning_wf db" and "permitted limits db stmt"
  shows "root_of (snd (apply_step stmt db)) siteId = Some pin \<or> stmt = Step_clean_roots siteId"
proof -
  have wf': "provisioning_wf (snd (apply_step stmt db))" by (rule step_wf [OF assms(2,3)])
  obtain r where r: "r \<in> set (pr_roots db)" "rr_site r = siteId" "rr_pin r = pin"
    using root_of_iff [OF assms(2)] assms(1) by blast
  have "r \<in> set (pr_roots (snd (apply_step stmt db))) \<or> stmt = Step_clean_roots siteId"
  proof (cases stmt)
    case (Step_allocate token input site p now)
    obtain q db' where batch: "allocate_batch token input site p now db = (q, db')" by fastforce
    then have "set (pr_roots db) \<subseteq> set (pr_roots db')"
      by (auto dest!: allocate_batch_cases simp: after_allocation_def)
    then show ?thesis using batch r(1) by (auto simp: Step_allocate)
  qed (use r in \<open>auto simp: other_statements sql_insert_ignore_def sql_delete_def stmt_bind_def\<close>)
  then show ?thesis using root_of_iff [OF wf'] r by blast
qed

lemma run_keeps_root:
  "provisioning_run limits db trace db' \<Longrightarrow> provisioning_wf db \<Longrightarrow> root_of db siteId = Some pin
    \<Longrightarrow> root_of db' siteId = Some pin \<or> Step_clean_roots siteId \<in> fst ` set trace"
proof (induction rule: provisioning_run.induct)
  case (one_step db stmt n db' trace db'')
  then have wf: "provisioning_wf db'" using step_wf by (metis snd_conv)
  have "root_of db' siteId = Some pin \<or> stmt = Step_clean_roots siteId"
    using step_keeps_root one_step.hyps(1,2) one_step.prems by (metis snd_conv)
  then show ?case using one_step.IH [OF wf] by auto
qed simp

section \<open>A claim is consumed once\<close>

lemma find_lifecycle_of_site:
  assumes "canonical rt" and "l \<in> set (rt_lifecycles rt)"
  shows "lifecycle_at rt (lc_site l) (id_generation (allocationIdentity (lc_site l))) = Some l"
  using assms by (auto simp: canonical_def find_lifecycle_iff)

lemma deletion_begun_iff:
  assumes "provisioning_wf db"
  shows "deletion_begun siteId db \<longleftrightarrow>
    (\<exists>l. lifecycle_at (pr_rt db) siteId (id_generation (allocationIdentity siteId)) = Some l \<and> lc_state l \<noteq> Lifecycle_active)"
  using assms find_lifecycle_of_site [of "pr_rt db"]
  by (auto simp: deletion_begun_def provisioning_wf_def canonical_def find_lifecycle_iff)

lemma lifecycles_unchanged:
  assumes "\<And>s. stmt \<noteq> Step_lifecycle s"
  shows "rt_lifecycles (pr_rt (snd (apply_step stmt db))) = rt_lifecycles (pr_rt db)"
proof (cases stmt)
  case (Step_allocate token input site pin now)
  obtain r db' where batch: "allocate_batch token input site pin now db = (r, db')" by fastforce
  then have "rt_lifecycles (pr_rt db') = rt_lifecycles (pr_rt db)"
    by (auto dest!: allocate_batch_cases simp: after_allocation_def)
  then show ?thesis by (simp add: Step_allocate batch)
qed (use assms in \<open>auto simp: other_statements stmt_bind_def stmt_register_def\<close>)

lemma step_deletion_begun:
  assumes wf: "provisioning_wf db" and ok: "permitted limits db stmt" and begun: "deletion_begun siteId db"
  shows "deletion_begun siteId (snd (apply_step stmt db))"
proof (cases "\<exists>s. stmt = Step_lifecycle s")
  case True
  then obtain s where s: "stmt = Step_lifecycle s" by blast
  obtain l where l: "lifecycle_at (pr_rt db) siteId (id_generation (allocationIdentity siteId)) = Some l" "lc_state l \<noteq> Lifecycle_active"
    using begun deletion_begun_iff [OF wf] by blast
  then obtain l' where l': "lifecycle_at (snd (apply_lifecycle s (pr_rt db))) siteId (id_generation (allocationIdentity siteId)) = Some l'"
      "row_life l l'"
    using lifecycle_step [of "pr_rt db" "allocationIdentity siteId" l s] wf by (auto simp: provisioning_wf_def canonical_def)
  have "lc_state l' \<noteq> Lifecycle_active" using l'(2) l(2) by (cases "lc_state l") (auto simp: row_life_def)
  then show ?thesis
    using l'(1) deletion_begun_iff [OF step_wf [OF wf ok]] by (auto simp: s on_lifecycles_def case_prod_unfold)
next
  case False
  then show ?thesis using lifecycles_unchanged begun by (simp add: deletion_begun_def)
qed

definition spent :: "string \<Rightarrow> provisioning_db \<Rightarrow> bool" where
  "spent siteId db \<longleftrightarrow> (\<exists>c \<in> set (pr_claims db). cl_site c = siteId \<and> cl_state c \<noteq> Claim_pending) \<or> deletion_begun siteId db"

lemma update_keeps_settled:
  assumes "c \<in> set (pr_claims db)" and "cl_state c \<noteq> Claim_pending" and "\<And>r. P r \<Longrightarrow> cl_state r = Claim_pending"
  shows "c \<in> set (pr_claims (snd (update_claims P state now db)))"
  using assms by (auto simp: update_claims_def sql_update_def case_prod_unfold image_iff)

lemma step_claim_kept:
  assumes c: "c \<in> set (pr_claims db)" "cl_state c \<noteq> Claim_pending"
  shows "c \<in> set (pr_claims (snd (apply_step stmt db))) \<or> stmt = Step_clean_claims (cl_site c)"
proof (cases stmt)
  case (Step_allocate token input site pin now)
  obtain r db' where batch: "allocate_batch token input site pin now db = (r, db')" by fastforce
  then have "pr_claims db' = pr_claims db" by (auto dest!: allocate_batch_cases simp: after_allocation_def)
  then show ?thesis using c by (simp add: Step_allocate batch)
next
  case (Step_expire siteId now now')
  then show ?thesis by (auto simp: stmt_expire_claim_def intro!: update_keeps_settled [OF c])
next
  case (Step_consume siteId digest now)
  then show ?thesis by (auto simp: stmt_consume_def intro!: update_keeps_settled [OF c])
next
  case (Step_cancel siteId now)
  then show ?thesis by (auto simp: stmt_cancel_claims_def intro!: update_keeps_settled [OF c])
qed (use c in \<open>auto simp: on_lifecycles_def stmt_link_def issue_batch_def insert_claim_def ignore_root_def sql_insert_ignore_def
      stmt_clean_claims_def sql_delete_def stmt_clean_roots_def stmt_bind_def case_prod_unfold\<close>)

lemma step_spent:
  assumes "provisioning_wf db" and "permitted limits db stmt" and "spent siteId db"
  shows "spent siteId (snd (apply_step stmt db))"
  using assms(3) unfolding spent_def
proof (elim disjE bexE conjE)
  fix c assume c: "c \<in> set (pr_claims db)" "cl_site c = siteId" "cl_state c \<noteq> Claim_pending"
  show "(\<exists>c \<in> set (pr_claims (snd (apply_step stmt db))). cl_site c = siteId \<and> cl_state c \<noteq> Claim_pending)
      \<or> deletion_begun siteId (snd (apply_step stmt db))"
  proof (cases "stmt = Step_clean_claims siteId")
    case True
    then have "deletion_begun siteId db" using assms(2) by simp
    then show ?thesis using step_deletion_begun [OF assms(1,2)] by blast
  next
    case False
    then show ?thesis using step_claim_kept [OF c(1,3), of stmt] c by blast
  qed
qed (use step_deletion_begun [OF assms(1,2)] in blast)

lemma consume_condition:
  assumes "fst (stmt_consume siteId digest now db) \<noteq> 0"
  shows "\<exists>c \<in> set (pr_claims db). cl_site c = siteId \<and> cl_state c = Claim_pending \<and> cl_capabilityDigest c = digest
    \<and> now < cl_expires_at c \<and> site_live now (pr_rt db) siteId"
  using assms by (auto simp: stmt_consume_def update_claims_def sql_update_def case_prod_unfold filter_empty_conv)

lemma live_not_deleted:
  assumes "provisioning_wf db" and "site_live now (pr_rt db) siteId"
  shows "\<not> deletion_begun siteId db"
proof -
  obtain s where s: "site_of (pr_rt db) siteId = Some s"
    using assms(2) by (auto simp: site_live_def split: option.splits)
  then have "s \<in> set (rt_sites (pr_rt db))" "sr_id s = siteId" using find_sql by (fastforce simp: site_of_def)+
  then have "sr_generation s = id_generation (allocationIdentity siteId)"
    using assms(1) by (auto simp: provisioning_wf_def canonical_def)
  then show ?thesis using assms s by (auto simp: deletion_begun_iff site_live_def split: option.splits)
qed

lemma consume_spent:
  assumes wf: "provisioning_wf db" and "spent siteId db"
  shows "fst (stmt_consume siteId digest now db) = 0"
proof (rule ccontr)
  assume "fst (stmt_consume siteId digest now db) \<noteq> 0"
  then obtain c where c: "c \<in> set (pr_claims db)" "cl_site c = siteId" "cl_state c = Claim_pending"
    and "site_live now (pr_rt db) siteId" using consume_condition by blast
  then have "\<not> deletion_begun siteId db" using live_not_deleted wf by blast
  then obtain d where d: "d \<in> set (pr_claims db)" "cl_site d = siteId" "cl_state d \<noteq> Claim_pending"
    using assms(2) by (auto simp: spent_def)
  have "d = c" using unique_by_eq [of cl_site "pr_claims db" d c] wf c d by (simp add: provisioning_wf_def)
  then show False using c d by simp
qed

lemma consume_spends:
  assumes "fst (stmt_consume siteId digest now db) \<noteq> 0"
  shows "spent siteId (snd (stmt_consume siteId digest now db))"
proof -
  obtain c where c: "c \<in> set (pr_claims db)" "cl_site c = siteId" "cl_state c = Claim_pending" "cl_capabilityDigest c = digest"
    "now < cl_expires_at c" "site_live now (pr_rt db) siteId" using consume_condition [OF assms] by blast
  then have "c\<lparr>cl_state := Claim_settled, cl_updated_at := now\<rparr> \<in> set (pr_claims (snd (stmt_consume siteId digest now db)))"
    by (auto simp: stmt_consume_def update_claims_def sql_update_def case_prod_unfold image_iff intro!: bexI [of _ c])
  then have "\<exists>d \<in> set (pr_claims (snd (stmt_consume siteId digest now db))). cl_site d = siteId \<and> cl_state d \<noteq> Claim_pending"
    by (rule bexI [rotated]) (simp add: c(2))
  then show ?thesis by (simp add: spent_def)
qed

fun consumes :: "string \<Rightarrow> provisioning_step \<times> nat \<Rightarrow> bool" where
  "consumes siteId (Step_consume s digest now, n) \<longleftrightarrow> s = siteId \<and> n \<noteq> 0"
| "consumes siteId _ \<longleftrightarrow> False"

lemma run_spent: "provisioning_run limits db trace db' \<Longrightarrow> provisioning_wf db \<Longrightarrow> spent siteId db \<Longrightarrow> filter (consumes siteId) trace = []"
proof (induction rule: provisioning_run.induct)
  case (one_step db stmt n db' trace db'')
  have next_wf: "provisioning_wf db'" "spent siteId db'"
    using step_wf step_spent one_step.hyps(1,2) one_step.prems by (metis snd_conv)+
  have "\<not> consumes siteId (stmt, n)"
  proof
    assume "consumes siteId (stmt, n)"
    then obtain digest now where "stmt = Step_consume siteId digest now" "n \<noteq> 0" by (cases stmt) auto
    then show False using consume_spent [OF one_step.prems, of digest now] one_step.hyps(2) by simp
  qed
  then show ?case using one_step.IH [OF next_wf] by simp
qed simp

lemma run_consumes_once:
  "provisioning_run limits db trace db' \<Longrightarrow> provisioning_wf db \<Longrightarrow> length (filter (consumes siteId) trace) \<le> 1"
proof (induction rule: provisioning_run.induct)
  case (one_step db stmt n db' trace db'')
  have wf: "provisioning_wf db'" using step_wf one_step.hyps(1,2) one_step.prems by (metis snd_conv)
  show ?case
  proof (cases "consumes siteId (stmt, n)")
    case True
    then obtain digest now where s: "stmt = Step_consume siteId digest now" "n \<noteq> 0" by (cases stmt) auto
    then have "spent siteId db'" using consume_spends [of siteId digest now db] one_step.hyps(2) by simp
    then have "filter (consumes siteId) trace = []" using run_spent one_step.hyps(3) wf by blast
    then show ?thesis by simp
  next
    case False
    then show ?thesis using one_step.IH [OF wf] by simp
  qed
qed simp

section \<open>The methods run the statements\<close>

definition reaches :: "(string \<Rightarrow> int) \<Rightarrow> provisioning_db \<Rightarrow> provisioning_db \<Rightarrow> bool" where
  "reaches limits db db' \<longleftrightarrow> (\<exists>trace. provisioning_run limits db trace db')"

lemma run_append:
  "provisioning_run limits db trace db' \<Longrightarrow> provisioning_run limits db' rest db'' \<Longrightarrow> provisioning_run limits db (trace @ rest) db''"
  by (induction rule: provisioning_run.induct) (auto intro: provisioning_run.intros)

lemma run_split:
  "provisioning_run limits db (trace @ rest) db'' \<Longrightarrow> \<exists>db'. provisioning_run limits db trace db' \<and> provisioning_run limits db' rest db''"
proof (induction trace arbitrary: db)
  case (Cons e trace)
  from Cons.prems have "provisioning_run limits db (e # (trace @ rest)) db''" by simp
  then show ?case
  proof (rule run_cons)
    fix stmt n db1 assume e: "e = (stmt, n)" and step: "permitted limits db stmt" "apply_step stmt db = (n, db1)"
      and run: "provisioning_run limits db1 (trace @ rest) db''"
    then show ?thesis using Cons.IH [OF run] one_step [OF step] by blast
  qed
qed (auto intro: no_steps)

lemma reaches_refl [simp]: "reaches limits db db"
  by (auto simp: reaches_def intro: no_steps)

lemma reaches_trans: "reaches limits a b \<Longrightarrow> reaches limits b c \<Longrightarrow> reaches limits a c"
  unfolding reaches_def using run_append by blast

lemma reaches_step: "permitted limits db stmt \<Longrightarrow> reaches limits db (snd (apply_step stmt db))"
  unfolding reaches_def by (metis no_steps one_step prod.collapse)

text \<open>An action moves along a run, whether it returns or throws.\<close>

definition moves :: "(string \<Rightarrow> int) \<Rightarrow> 'a provisioning_action \<Rightarrow> bool" where
  "moves limits m \<longleftrightarrow> (\<forall>db. reaches limits db (snd (m db)))"

named_theorems moves_intros \<open>rules that show an action moves along a run\<close>

lemma moves_basic [moves_intros]:
  "moves limits (succeed x)" "moves limits (throw e)" "moves limits (from_result r)" "moves limits (query f)"
  "moves limits (require b e)"
  by (auto simp: moves_def action_defs)

lemma moves_and_then [moves_intros]:
  assumes "moves limits m" and "\<And>x. moves limits (k x)"
  shows "moves limits (and_then m k)"
  unfolding moves_def
proof
  fix db
  show "reaches limits db (snd (and_then m k db))"
  proof (cases "m db")
    case (Pair r t)
    then have "reaches limits db t" using assms(1) by (metis moves_def snd_conv)
    moreover have "reaches limits t (snd (k x t))" for x using assms(2) by (simp add: moves_def)
    ultimately show ?thesis using Pair reaches_trans by (cases r) (auto simp: and_then_def)
  qed
qed

lemma moves_if [moves_intros]: "moves limits a \<Longrightarrow> moves limits b \<Longrightarrow> moves limits (if c then a else b)"
  by simp

lemma moves_option [moves_intros]: "moves limits a \<Longrightarrow> (\<And>x. moves limits (f x)) \<Longrightarrow> moves limits (case v of None \<Rightarrow> a | Some x \<Rightarrow> f x)"
  by (simp split: option.split)

lemma moves_sum [moves_intros]: "(\<And>e. moves limits (f e)) \<Longrightarrow> (\<And>x. moves limits (g x)) \<Longrightarrow> moves limits (case v of Inl e \<Rightarrow> f e | Inr x \<Rightarrow> g x)"
  by (simp split: sum.split)

lemma moves_let [moves_intros]: "(\<And>x. moves limits (f x)) \<Longrightarrow> moves limits (let x = v in f x)"
  by (simp add: Let_def)

lemma moves_statement:
  assumes "\<And>db. permitted limits db step" and "\<And>db. apply_step step db = stmt db"
  shows "moves limits (execute stmt)"
  unfolding moves_def
proof
  fix db
  show "reaches limits db (snd (execute stmt db))"
    using reaches_step [OF assms(1)] by (simp add: execute_def assms(2) case_prod_unfold)
qed

lemma moves_steps [moves_intros]:
  "moves limits (execute (stmt_bind siteId operationId))" "moves limits (execute (stmt_link l))"
  "moves limits (execute (issue_batch siteId pin capability credential expires now))"
  "moves limits (execute (stmt_expire_claim siteId now now'))" "moves limits (execute (stmt_consume siteId digest now))"
  by (rule moves_statement [where step = "Step_bind siteId operationId"], simp, simp)
    (rule moves_statement [where step = "Step_link l"], simp, simp,
     rule moves_statement [where step = "Step_issue siteId pin capability credential expires now"], simp, simp,
     rule moves_statement [where step = "Step_expire siteId now now'"], simp, simp,
     rule moves_statement [where step = "Step_consume siteId digest now"], simp, simp)

definition interferes :: "(string \<Rightarrow> int) \<Rightarrow> others \<Rightarrow> bool" where
  "interferes limits others \<longleftrightarrow> (\<forall>k db. reaches limits db (others k db))"

lemma moves_others [moves_intros]: "interferes limits others \<Longrightarrow> moves limits (modify (others k))"
  by (simp add: moves_def interferes_def modify_def)

lemma moves_allocate_batch:
  assumes "tk_maxSites token \<le> limits (tk_principal token)"
  shows "moves limits (run_batch (allocate_batch token input site pin now))"
  unfolding moves_def
proof
  fix db
  have "reaches limits db (snd (apply_step (Step_allocate token input site pin now) db))"
    by (rule reaches_step) (simp add: assms)
  then show "reaches limits db (snd (run_batch (allocate_batch token input site pin now) db))"
    by (simp add: run_batch_def case_prod_unfold)
qed

lemma moves_create_lifecycle [moves_intros]:
  assumes "interferes limits others"
  shows "moves limits (create_lifecycle (others k) site owner now)"
proof -
  let ?i = "allocationIdentity (ctx_id site)"
  have "moves limits (execute (on_lifecycles (stmt_create_allocation defaultRetention ?i owner now)))"
    by (rule moves_statement [where step = "Step_lifecycle (Create_allocation defaultRetention ?i owner now)"]) simp_all
  then show ?thesis unfolding create_lifecycle_def Let_def using assms by (intro moves_intros)
qed

lemma moves_same_request [moves_intros]: "moves limits (same_request input existing)"
  unfolding same_request_def by (intro moves_intros)

lemma moves_try_sites:
  assumes "interferes limits others" and "tk_maxSites token \<le> limits (tk_principal token)"
  shows "moves limits (try_sites others clock token input pin k cs)"
proof (induction cs arbitrary: k)
  case Nil
  show ?case unfolding try_sites.simps by (intro moves_intros assms)
next
  case (Cons c cs)
  show ?case unfolding try_sites.simps by (intro moves_intros moves_allocate_batch assms Cons.IH)
qed

lemma moves_allocate:
  assumes "interferes limits others" and "tk_maxSites token \<le> limits (tk_principal token)"
  shows "moves limits (allocate platform uuid others clock token input domain configured pin)"
  unfolding allocate_def by (intro moves_intros moves_try_sites assms)

lemma moves_bindOperation: "interferes limits others \<Longrightarrow> moves limits (bindOperation others a operationId)"
  unfolding bindOperation_def by (intro moves_intros)

lemma moves_linkOperation: "interferes limits others \<Longrightarrow> moves limits (linkOperation others owner siteId operationId kind key)"
  unfolding linkOperation_def by (intro moves_intros)

lemma moves_confirm_claim [moves_intros]:
  "moves limits (confirm_claim siteId pin token digest credentialDigest claim pinned)"
  unfolding confirm_claim_def prod.case by (intro moves_intros)

lemma moves_issue_new [moves_intros]: "interferes limits others \<Longrightarrow> moves limits (issue_new platform env others clock a existing)"
  unfolding issue_new_def by (intro moves_intros)

lemma moves_issue: "interferes limits others \<Longrightarrow> moves limits (issue platform env others clock a)"
  unfolding issue_def by (intro moves_intros)

lemma moves_metadata: "interferes limits others \<Longrightarrow> moves limits (claim_metadata_of others clock siteId)"
  unfolding claim_metadata_of_def by (intro moves_intros)

lemma moves_consume [moves_intros]: "moves limits (consume siteId digest now)"
  unfolding consume_def by (intro moves_intros)

lemma moves_redeem [moves_intros]: "interferes limits others \<Longrightarrow> moves limits (redeem_claim platform others clock siteId capability c a b)"
  unfolding redeem_claim_def by (intro moves_intros)

lemma moves_claimAdministrator: "interferes limits others \<Longrightarrow> moves limits (claimAdministrator platform env others clock capability siteId)"
  unfolding claimAdministrator_def by (intro moves_intros)

section \<open>What an allocation grants\<close>

definition allocation_granted :: "string \<Rightarrow> create_input \<Rightarrow> provisioning_allocation \<Rightarrow> provisioning_db \<Rightarrow> bool" where
  "allocation_granted owner input a db \<longleftrightarrow> pa_principal a = owner
     \<and> (\<exists>row \<in> set (pr_sites db). as_site row = pa_siteId a \<and> of_request owner (ci_key input) row
          \<and> ci_fingerprint (as_input row) = ci_fingerprint input)"

lemma reaches_wf: "reaches limits db db' \<Longrightarrow> provisioning_wf db \<Longrightarrow> provisioning_wf db'"
  using run_wf by (auto simp: reaches_def)

lemma granted_reaches: "reaches limits db db' \<Longrightarrow> allocation_granted owner input a db \<Longrightarrow> allocation_granted owner input a db'"
proof -
  assume run: "reaches limits db db'" and "allocation_granted owner input a db"
  then obtain row where row: "row \<in> set (pr_sites db)" "as_site row = pa_siteId a" "of_request owner (ci_key input) row"
      "ci_fingerprint (as_input row) = ci_fingerprint input" "pa_principal a = owner"
    by (auto simp: allocation_granted_def)
  obtain row' where "row' \<in> set (pr_sites db')" "kept_row row row'" using run run_keeps_row row(1) unfolding reaches_def by blast
  then show ?thesis using row by (auto simp: allocation_granted_def kept_row_def of_request_def)
qed

lemma moves_reach: "moves limits m \<Longrightarrow> m db = (r, db') \<Longrightarrow> reaches limits db db'"
  by (metis moves_def snd_conv)

lemma byRequest_iff:
  assumes "provisioning_wf db"
  shows "byRequest owner key db = Some a \<longleftrightarrow> (\<exists>row \<in> set (pr_sites db). of_request owner key row \<and> a = hydrate_allocation db row)"
proof -
  let ?key = "\<lambda>a. (as_principal a, ci_key (as_input a))"
  have "of_request owner key = (\<lambda>row. ?key row = (owner, key))" by (auto simp: of_request_def)
  then have "find (of_request owner key) (pr_sites db) = Some row \<longleftrightarrow> row \<in> set (pr_sites db) \<and> of_request owner key row" for row
    using find_unique_key [of ?key "pr_sites db" "(owner, key)" row] assms by (simp add: provisioning_wf_def)
  then show ?thesis by (auto simp: byRequest_def)
qed

lemma same_request_granted:
  assumes "provisioning_wf db" and "byRequest owner (ci_key input) db = Some existing" and "same_request input existing db = (Inr a, db')"
  shows "db' = db \<and> allocation_granted owner input a db"
proof -
  obtain row where row: "row \<in> set (pr_sites db)" "of_request owner (ci_key input) row" "existing = hydrate_allocation db row"
    using byRequest_iff [OF assms(1)] assms(2) by blast
  have "a = existing" "db' = db" "ci_fingerprint (pa_input existing) = ci_fingerprint input"
    using assms(3) by (auto simp: same_request_def split: if_splits)
  then show ?thesis using row by (auto simp: allocation_granted_def hydrate_allocation_def of_request_def)
qed

lemma after_allocation_granted:
  "allocation_granted (tk_principal token) input (new_allocation token input (ctx_id site) pin) (after_allocation token input site pin now db)"
  by (simp add: allocation_granted_def new_allocation_def after_allocation_def api_row_def of_request_def)

lemma batch_granted:
  assumes "fst (allocate_batch token input site pin now db) = Some (1, 1, 1)"
  shows "allocation_granted (tk_principal token) input (new_allocation token input (ctx_id site) pin)
    (snd (allocate_batch token input site pin now db))"
proof -
  obtain db' where batch: "allocate_batch token input site pin now db = (Some (1, 1, 1), db')" using assms by (metis prod.collapse)
  have "db' = after_allocation token input site pin now db" using allocate_batch_cases [OF batch] by simp
  then show ?thesis unfolding batch snd_conv using after_allocation_granted by simp
qed

lemma and_then_run_batch: "and_then (run_batch f) k db = k (fst (f db)) (snd (f db))"
  by (simp add: and_then_def run_batch_def case_prod_unfold)

lemma try_sites_granted:
  assumes inter: "interferes limits others" and quota: "tk_maxSites token \<le> limits (tk_principal token)"
  shows "provisioning_wf db \<Longrightarrow> try_sites others clock token input pin k cs db = (Inr a, db') \<Longrightarrow> allocation_granted (tk_principal token) input a db'"
proof (induction cs arbitrary: k db)
  case (Cons c cs)
  obtain site where c: "c = Inr site"
  proof (cases c)
    case (Inl e)
    show thesis
      using Cons.prems(2) unfolding try_sites.simps Inl and_then_modify map_sum.simps and_then_result sum.case by simp
  qed (rule that)
  define db1 where "db1 = others (3 * k) db"
  define changes where "changes = fst (allocate_batch token input site pin (clock k) db1)"
  define db2 where "db2 = snd (allocate_batch token input site pin (clock k) db1)"
  define db3 where "db3 = others (3 * k + 1) db2"
  have rest: "(if changes = Some (1, 1, 1)
       then and_then (create_lifecycle (others (3 * k + 2)) site (tk_principal token) (clock k)) (\<lambda>_.
              succeed (new_allocation token input (ctx_id site) pin))
       else and_then (query (byRequest (tk_principal token) (ci_key input))) (\<lambda>raced. case raced of
           Some a \<Rightarrow> same_request input a
         | None \<Rightarrow> try_sites others clock token input pin (Suc k) cs)) db3 = (Inr a, db')"
    using Cons.prems(2) unfolding try_sites.simps c and_then_modify map_sum.simps and_then_result sum.case and_then_run_batch
      db1_def changes_def db2_def db3_def .
  have reach: "reaches limits db db1" "reaches limits db1 db2" "reaches limits db2 db3"
    using inter moves_allocate_batch [of token limits input site pin "clock k", OF quota]
    by (simp_all add: interferes_def db1_def db2_def db3_def moves_def run_batch_def case_prod_unfold)
  have wf: "provisioning_wf db3" using reach Cons.prems(1) reaches_wf by blast
  show ?case
  proof (cases "changes = Some (1, 1, 1)")
    case True
    then obtain u where create: "create_lifecycle (others (3 * k + 2)) site (tk_principal token) (clock k) db3 = (Inr u, db')"
      and a: "a = new_allocation token input (ctx_id site) pin"
      using rest by (auto simp: and_then_Inr_iff)
    have "allocation_granted (tk_principal token) input a db2" using batch_granted True by (simp add: db2_def changes_def a)
    then show ?thesis
      using granted_reaches reach(3) moves_reach [OF moves_create_lifecycle [OF inter] create] by blast
  next
    case False
    show ?thesis
    proof (cases "byRequest (tk_principal token) (ci_key input) db3")
      case None
      then show ?thesis using rest False Cons.IH [OF wf] by (simp add: and_then_query)
    next
      case (Some existing)
      then have "same_request input existing db3 = (Inr a, db')" using rest False by (simp add: and_then_query)
      then show ?thesis using same_request_granted [OF wf Some] by simp
    qed
  qed
qed (simp add: and_then_Inr_iff)

lemma allocate_granted:
  assumes inter: "interferes limits others" and quota: "tk_maxSites token \<le> limits (tk_principal token)"
    and wf: "provisioning_wf db"
    and call: "allocate platform uuid others clock token input domain configured pin db = (Inr a, db')"
  shows "allocation_granted (tk_principal token) input a db' \<and> provisioning_wf db'"
proof -
  have "provisioning_wf db'" using moves_reach [OF moves_allocate [OF inter quota] call] wf reaches_wf by blast
  moreover have "allocation_granted (tk_principal token) input a db'"
  proof (cases "byRequest (tk_principal token) (ci_key input) db")
    case None
    then have "try_sites others clock token input pin 0 (candidates platform uuid domain configured) db = (Inr a, db')"
      using call by (auto simp: allocate_def and_then_query throw_def split: if_splits)
    then show ?thesis using try_sites_granted [OF inter quota wf] by blast
  next
    case (Some existing)
    then have "same_request input existing db = (Inr a, db')" using call by (simp add: allocate_def and_then_query)
    then show ?thesis using same_request_granted [OF wf Some] by simp
  qed
  ultimately show ?thesis by blast
qed

lemma allocate_again:
  assumes wf: "provisioning_wf db" and allocation_granted: "allocation_granted (tk_principal token) input a db"
    and key: "ci_key input' = ci_key input"
  shows "snd (allocate platform uuid others clock token input' domain configured pin db) = db
    \<and> (if ci_fingerprint input' = ci_fingerprint input
       then \<exists>b. fst (allocate platform uuid others clock token input' domain configured pin db) = Inr b
              \<and> pa_siteId b = pa_siteId a \<and> pa_principal b = pa_principal a
       else fst (allocate platform uuid others clock token input' domain configured pin db)
              = Inl (Provisioning_conflict binding_conflict))"
proof -
  obtain row where row: "row \<in> set (pr_sites db)" "as_site row = pa_siteId a" "of_request (tk_principal token) (ci_key input) row"
      "ci_fingerprint (as_input row) = ci_fingerprint input" "pa_principal a = tk_principal token"
    using allocation_granted by (auto simp: allocation_granted_def)
  have "byRequest (tk_principal token) (ci_key input') db = Some (hydrate_allocation db row)"
    using byRequest_iff [OF wf] row key by auto
  then have "allocate platform uuid others clock token input' domain configured pin db
      = same_request input' (hydrate_allocation db row) db" by (simp add: allocate_def and_then_query)
  then show ?thesis using row
    by (auto simp: same_request_def action_defs hydrate_allocation_def of_request_def)
qed

section \<open>What a redemption releases\<close>

lemma redeem_released:
  assumes inter: "interferes limits others"
    and call: "redeem_claim platform others clock siteId token c a b db = (Inr (Claim_credential password), db')"
  shows "\<exists>mid. reaches limits db mid \<and> stmt_consume siteId (digest_of platform token) (clock 3) mid = (1, db')
    \<and> deriveSiteCredential platform (ab_password b) siteId ''admin-password'' = Inr password"
proof -
  define mid where "mid = others 3 (others 2 db)"
  have reach: "reaches limits db mid" using inter reaches_trans unfolding mid_def interferes_def by blast
  have match: "digest_of platform token = cl_capabilityDigest c"
    using call by (auto simp: redeem_claim_def Let_def succeed_def split: if_splits)
  obtain w where w: "provisioned_operation siteId (case a of None \<Rightarrow> None | Some x \<Rightarrow> pa_operationId x) (others 2 db) = Some w"
    and ready: "op_state w = Succeeded"
    using call match by (auto simp: redeem_claim_def and_then_modify and_then_query Let_def succeed_def split: if_splits)
  obtain p where p: "deriveSiteCredential platform (ab_password b) siteId ''admin-password'' = Inr p"
    using call match w ready
    by (cases "deriveSiteCredential platform (ab_password b) siteId ''admin-password''")
      (auto simp: redeem_claim_def and_then_modify and_then_query Let_def succeed_def)
  have "digest_of platform p = cl_credentialDigest c"
    using call match w ready p
    by (auto simp: redeem_claim_def and_then_modify and_then_query Let_def succeed_def split: if_splits)
  then have "and_then (consume siteId (digest_of platform token) (clock 3)) (\<lambda>ok.
      succeed (if ok then Claim_credential p else Claim_unavailable)) mid = (Inr (Claim_credential password), db')"
    using call match w ready p
    by (simp add: redeem_claim_def and_then_modify and_then_query Let_def mid_def)
  then have "stmt_consume siteId (digest_of platform token) (clock 3) mid = (1, db') \<and> p = password"
    by (cases "stmt_consume siteId (digest_of platform token) (clock 3) mid")
      (auto simp: consume_def and_then_assoc and_then_execute and_then_succeed succeed_def split: if_splits)
  then show ?thesis using reach p by blast
qed

definition pinned_root :: "string \<Rightarrow> provisioning_db \<Rightarrow> admin_pin option" where
  "pinned_root siteId db = (case bySite siteId db of None \<Rightarrow> None | Some x \<Rightarrow> pa_administratorRoot x)"

lemma claim_released:
  assumes inter: "interferes limits others"
    and call: "claimAdministrator platform env others clock (Some token) siteId db = (Inr (Claim_credential password), db')"
  shows "\<exists>mid b. reaches limits db mid \<and> stmt_consume siteId (digest_of platform token) (clock 3) mid = (1, db')
    \<and> administratorBinding platform env (pinned_root siteId (others 1 db)) = Inr (Some b)
    \<and> deriveSiteCredential platform (ab_password b) siteId ''admin-password'' = Inr password"
proof -
  obtain c where c: "claim_of siteId db = Some c"
    using call by (cases "claim_of siteId db") (auto simp: claimAdministrator_def and_then_query succeed_def)
  have pending: "cl_state c = Claim_pending" "\<not> cl_expires_at c \<le> clock 0"
    using call c by (auto simp: claimAdministrator_def run_action succeed_def split: if_splits)
  define db1 where "db1 = others 1 db"
  have "(case administratorBinding platform env (pinned_root siteId db1) of
      Inr (Some b) \<Rightarrow> redeem_claim platform others clock siteId token c (bySite siteId db1) b
    | _ \<Rightarrow> succeed Claim_unavailable) db1 = (Inr (Claim_credential password), db')"
    unfolding db1_def pinned_root_def using call c pending
    by (simp add: claimAdministrator_def and_then_modify and_then_query del: One_nat_def)
  then obtain b where b: "administratorBinding platform env (pinned_root siteId db1) = Inr (Some b)"
    and redeem: "redeem_claim platform others clock siteId token c (bySite siteId db1) b db1 = (Inr (Claim_credential password), db')"
    by (auto simp: succeed_def split: sum.splits option.splits)
  have "reaches limits db db1" using inter by (simp add: interferes_def db1_def)
  then show ?thesis using redeem_released [OF inter redeem] reaches_trans b unfolding db1_def by blast
qed

section \<open>The tables as a deletion sees them\<close>

text \<open>
  \<open>Allocation_Lifecycle\<close> knows the claims and roots by what a deletion does to them.  On that view its
  statements are the ones of this theory.
\<close>

definition claim_view :: "admin_claim_row \<Rightarrow> admin_claim" where
  "claim_view c = \<lparr>ac_site = cl_site c, ac_state = cl_state c, ac_updated_at = cl_updated_at c\<rparr>"

definition deletion_view :: "string list \<Rightarrow> 'b \<Rightarrow> provisioning_db \<Rightarrow> 'b allocation_db" where
  "deletion_view tables bucket db =
     \<lparr>al_rt = pr_rt db, al_tables = tables, al_claims = map claim_view (pr_claims db), al_roots = map rr_site (pr_roots db),
      al_bucket = bucket\<rparr>"

lemma cancel_claims_view:
  "snd (sql_update (\<lambda>c. ac_site c = siteId \<and> ac_state c = Claim_pending) (\<lambda>c. c\<lparr>ac_state := Claim_expired, ac_updated_at := now\<rparr>)
      (map claim_view (pr_claims db)))
   = map claim_view (pr_claims (snd (stmt_cancel_claims siteId now db)))"
  by (simp add: stmt_cancel_claims_def update_claims_def sql_update_def case_prod_unfold claim_view_def)

lemma cancelWork_view:
  assumes "''wp_codebox_api_admin_claims'' \<in> set tables" and "''wp_codebox_operations'' \<notin> set tables"
    and "''wp_codebox_runtime_dispatches'' \<notin> set tables"
  shows "snd (cancelWork identity now (deletion_view tables bucket db))
    = deletion_view tables bucket (snd (stmt_cancel_claims (id_site identity) now db))"
  using assms cancel_claims_view [of "id_site identity" now db]
  by (simp add: cancelWork_def modify_def Let_def table_exists_def deletion_view_def stmt_cancel_claims_def update_claims_def
      case_prod_unfold)

lemma clean_view:
  "delete_site_rows siteId limit ''wp_codebox_api_admin_claims'' (deletion_view tables bucket db)
     = (fst (stmt_clean_claims siteId db), deletion_view tables bucket (snd (stmt_clean_claims siteId db)))"
  "delete_site_rows siteId limit ''wp_codebox_api_admin_roots'' (deletion_view tables bucket db)
     = (fst (stmt_clean_roots siteId db), deletion_view tables bucket (snd (stmt_clean_roots siteId db)))"
  by (simp_all add: delete_site_rows_def changed_rows_def deletion_view_def stmt_clean_claims_def stmt_clean_roots_def
      sql_delete_def case_prod_unfold filter_map comp_def claim_view_def)

section \<open>Interrupted and late calls\<close>

text \<open>
  A call that ends between its batch and \<open>lifecycle.create\<close> leaves an allocation without a lifecycle.
  A replay finds the allocation and creates none, so nothing is there to expire, renew or delete.
\<close>

lemma find_lifecycle_none:
  "lifecycle_at rt (id_site i) (id_generation i) = None \<longleftrightarrow> (\<forall>l \<in> set (rt_lifecycles rt). \<not> of_identity i l)"
  by (auto simp: lifecycle_at_def of_identity_def find_None_iff)

lemma interrupted_allocation:
  assumes wf: "provisioning_wf db" and batch: "allocate_batch token input site pin now db = (Some (1, 1, 1), db1)"
    and none: "lifecycle_at (pr_rt db) (ctx_id site) (id_generation (allocationIdentity (ctx_id site))) = None"
  shows "(\<exists>b. allocate platform uuid others clock token input domain configured pin' db1 = (Inr b, db1) \<and> pa_siteId b = ctx_id site)
    \<and> lifecycle_at (pr_rt db1) (ctx_id site) (id_generation (allocationIdentity (ctx_id site))) = None
    \<and> fst (stmt_renew_allocation policy (allocationIdentity (ctx_id site)) owner later (pr_rt db1)) = 0
    \<and> fst (stmt_begin_deletion policy (allocationIdentity (ctx_id site)) who later (pr_rt db1)) = 0"
proof -
  let ?i = "allocationIdentity (ctx_id site)"
  have db1: "db1 = after_allocation token input site pin now db" using allocate_batch_cases [OF batch] by simp
  have "allocation_granted (tk_principal token) input (new_allocation token input (ctx_id site) pin) db1"
    unfolding db1 by (rule after_allocation_granted)
  then have again: "\<exists>b. allocate platform uuid others clock token input domain configured pin' db1 = (Inr b, db1) \<and> pa_siteId b = ctx_id site"
    using allocate_again [OF allocate_wf [OF wf batch], of token input "new_allocation token input (ctx_id site) pin" input
        platform uuid others clock domain configured pin']
    by (auto simp: new_allocation_def prod_eq_iff)
  have rows: "rt_lifecycles (pr_rt db1) = rt_lifecycles (pr_rt db)" by (simp add: db1 after_allocation_def)
  then have none': "\<forall>l \<in> set (rt_lifecycles (pr_rt db1)). \<not> of_identity ?i l"
    using none find_lifecycle_none [of "pr_rt db" ?i] by simp
  then have "lifecycle_at (pr_rt db1) (ctx_id site) (id_generation ?i) = None"
    using find_lifecycle_none [of "pr_rt db1" ?i] by simp
  moreover have "fst (stmt_renew_allocation policy ?i owner later (pr_rt db1)) = 0"
    using none' by (auto simp: stmt_renew_allocation_def update_lifecycles_def sql_update_def owned_allocation_def filter_empty_conv)
  moreover have "fst (stmt_begin_deletion policy ?i who later (pr_rt db1)) = 0"
    using none' by (auto simp: stmt_begin_deletion_def update_lifecycles_def sql_update_def filter_empty_conv)
  ultimately show ?thesis using again by blast
qed

text \<open>The site named \<open>default\<close> gets the root itself, from which the passwords of all other sites are derived.\<close>

lemma default_gets_root: "rootCredential \<noteq> [] \<Longrightarrow> deriveSiteCredential platform rootCredential ''default'' purpose = Inr rootCredential"
  by (simp add: deriveSiteCredential_def)

section \<open>Properties\<close>

text \<open>Running a list of steps, for examples.\<close>

fun exec_ok :: "(string \<Rightarrow> int) \<Rightarrow> provisioning_step list \<Rightarrow> provisioning_db \<Rightarrow> bool" where
  "exec_ok limits [] db = True"
| "exec_ok limits (s # ss) db = (permitted limits db s \<and> exec_ok limits ss (snd (apply_step s db)))"

fun exec_steps :: "provisioning_step list \<Rightarrow> provisioning_db \<Rightarrow> provisioning_db" where
  "exec_steps [] db = db"
| "exec_steps (s # ss) db = exec_steps ss (snd (apply_step s db))"

lemma exec_run: "exec_ok limits ss db \<Longrightarrow> \<exists>trace. provisioning_run limits db trace (exec_steps ss db)"
proof (induction ss arbitrary: db)
  case (Cons s ss)
  then obtain trace where "provisioning_run limits (snd (apply_step s db)) trace (exec_steps ss (snd (apply_step s db)))" by auto
  then have "provisioning_run limits db ((s, fst (apply_step s db)) # trace) (exec_steps (s # ss) db)"
    using Cons.prems one_step by (metis exec_ok.simps(2) exec_steps.simps(2) prod.collapse)
  then show ?case by blast
qed (auto intro: no_steps)

text \<open>
  C34: However the statements of all clients interleave, a principal never holds more live allocations
  than the largest quota its tokens carry: the insertion counts in the statement that inserts, and no
  renewal, deletion or tombstone brings a released allocation back.
\<close>
theorem site_quota:
  assumes "provisioning_run limits empty_provisioning_db trace db" and "0 \<le> limits owner"
  shows "int (live_count owner db) \<le> limits owner"
  by (rule run_quota [OF assms(1) empty_provisioning_wf])
    (use assms(2) in \<open>simp add: live_count_def empty_provisioning_db_def\<close>)

definition sample_token :: api_token where
  "sample_token = \<lparr>tk_principal = ''client-a'', tk_sites = None, tk_maxSites = 1\<rparr>"

definition sample_request_input :: "string \<Rightarrow> create_input" where
  "sample_request_input key = \<lparr>ci_key = key, ci_fingerprint = ''f'' @ key, ci_artifactSha256 = ''a'', ci_artifactSize = 10,
     ci_slug = ''site'', ci_name = ''Site'', ci_siteTitle = ''Site''\<rparr>"

definition sample_context :: "string \<Rightarrow> site_context" where
  "sample_context siteId = \<lparr>ctx_id = siteId, ctx_hostname = siteId @ ''.example'', ctx_origin = ''https://'' @ siteId @ ''.example''\<rparr>"

definition sample_pin :: admin_pin where
  "sample_pin = pinAdministratorSecretBinding sample_secrets (sample_binding ''legacy'' (CHR ''k'') ''secret'')"

text \<open>The second request is over the quota of one.\<close>

definition two_requests :: "provisioning_step list" where
  "two_requests = [Step_allocate sample_token (sample_request_input ''k1'') (sample_context ''one'') sample_pin 5,
     Step_allocate sample_token (sample_request_input ''k2'') (sample_context ''two'') sample_pin 6]"

theorem site_quota_witness:
  "int (live_count ''client-a'' (exec_steps two_requests empty_provisioning_db)) \<le> 1
   \<and> map as_site (pr_sites (exec_steps two_requests empty_provisioning_db)) = [''one'']"
proof
  have "exec_ok (\<lambda>_. 1) two_requests empty_provisioning_db" by code_simp
  then obtain trace where "provisioning_run (\<lambda>_. 1) empty_provisioning_db trace (exec_steps two_requests empty_provisioning_db)"
    using exec_run by blast
  then show "int (live_count ''client-a'' (exec_steps two_requests empty_provisioning_db)) \<le> 1"
    by (rule site_quota) simp
  show "map as_site (pr_sites (exec_steps two_requests empty_provisioning_db)) = [''one'']" by code_simp
qed

text \<open>
  C35: An allocation belongs to its request for good.  When a request was granted a site, whatever other
  clients did in between, every later request of the principal under the same idempotency key gets the
  same site, or a conflict when its input differs, and changes nothing.
\<close>
theorem allocation_idempotent:
  assumes "interferes limits others" and "tk_maxSites token \<le> limits (tk_principal token)" and "provisioning_wf db"
    and "allocate platform uuid others clock token input domain configured pin db = (Inr a, db1)"
    and "provisioning_run limits db1 trace db2"
    and "tk_principal token' = tk_principal token" and "ci_key input' = ci_key input"
  shows "snd (allocate platform' uuid' others' clock' token' input' domain' configured' pin' db2) = db2
    \<and> (if ci_fingerprint input' = ci_fingerprint input
       then \<exists>b. fst (allocate platform' uuid' others' clock' token' input' domain' configured' pin' db2) = Inr b
              \<and> pa_siteId b = pa_siteId a \<and> pa_principal b = tk_principal token
       else fst (allocate platform' uuid' others' clock' token' input' domain' configured' pin' db2)
              = Inl (Provisioning_conflict binding_conflict))"
proof -
  have g: "allocation_granted (tk_principal token) input a db1 \<and> provisioning_wf db1" by (rule allocate_granted [OF assms(1-4)])
  have reach: "reaches limits db1 db2" using assms(5) by (auto simp: reaches_def)
  have wf: "provisioning_wf db2" and g2: "allocation_granted (tk_principal token') input a db2"
    using g reaches_wf [OF reach] granted_reaches [OF reach] assms(6) by auto
  have owner: "pa_principal a = tk_principal token" using g by (simp add: allocation_granted_def)
  show ?thesis
    using allocate_again [OF wf g2 assms(7), where platform = platform' and uuid = uuid' and others = others' and clock = clock'
        and domain = domain' and configured = configured' and pin = pin']
    unfolding owner .
qed

definition no_others :: others where
  "no_others k db = db"

lemma no_others [simp]: "interferes limits no_others"
  by (simp add: interferes_def no_others_def)

definition call_allocate :: "create_input \<Rightarrow> provisioning_db \<Rightarrow> (provisioning_error + provisioning_allocation) \<times> provisioning_db" where
  "call_allocate input = allocate sample_site_platform (\<lambda>_. []) no_others (\<lambda>_. 5) sample_token input None
     [sample_context ''one''] sample_pin"

theorem allocation_idempotent_witness:
  "\<exists>a db1. call_allocate (sample_request_input ''k1'') empty_provisioning_db = (Inr a, db1) \<and> pa_siteId a = ''one''
    \<and> snd (call_allocate (sample_request_input ''k1'') db1) = db1
    \<and> (\<exists>b. fst (call_allocate (sample_request_input ''k1'') db1) = Inr b \<and> pa_siteId b = ''one'')"
proof -
  obtain a db1 where call: "call_allocate (sample_request_input ''k1'') empty_provisioning_db = (Inr a, db1)" and site: "pa_siteId a = ''one''"
  proof -
    have "map_sum (\<lambda>_. ()) pa_siteId (fst (call_allocate (sample_request_input ''k1'') empty_provisioning_db)) = Inr ''one''" by code_simp
    then show thesis using that
      by (cases "call_allocate (sample_request_input ''k1'') empty_provisioning_db"; cases "fst (call_allocate (sample_request_input ''k1'') empty_provisioning_db)")
        auto
  qed
  have "snd (call_allocate (sample_request_input ''k1'') db1) = db1
    \<and> (\<exists>b. fst (call_allocate (sample_request_input ''k1'') db1) = Inr b \<and> pa_siteId b = pa_siteId a
         \<and> pa_principal b = tk_principal sample_token)"
    using allocation_idempotent [OF no_others, where limits = "\<lambda>_. 1" and token = sample_token and db = empty_provisioning_db
        and input = "sample_request_input ''k1''" and token' = sample_token and input' = "sample_request_input ''k1''" and others' = no_others,
        OF _ empty_provisioning_wf call [unfolded call_allocate_def] no_steps]
    by (simp add: call_allocate_def sample_token_def)
  then show ?thesis using call site by auto
qed

text \<open>
  C36: The administrator's password is released once in the life of a site.  A redemption that returns it
  consumed the claim under the digest of the token it was called with; neither before nor after, in
  whatever order the statements of all clients run, and even after a deletion and a new claim, does any
  other statement consume a claim of this site.  The password is derived from the binding the site is
  pinned to.
\<close>
theorem administrator_released_once:
  assumes "interferes limits others" and "provisioning_run limits empty_provisioning_db trace db"
    and "claimAdministrator platform env others clock (Some token) siteId db = (Inr (Claim_credential password), db')"
  shows "\<exists>mid t b. provisioning_run limits db t mid
    \<and> stmt_consume siteId (digest_of platform token) (clock 3) mid = (1, db')
    \<and> administratorBinding platform env (pinned_root siteId (others 1 db)) = Inr (Some b)
    \<and> deriveSiteCredential platform (ab_password b) siteId ''admin-password'' = Inr password
    \<and> filter (consumes siteId) (trace @ t) = []
    \<and> (\<forall>later final. provisioning_run limits db' later final \<longrightarrow> filter (consumes siteId) later = [])"
proof -
  obtain mid b t where t: "provisioning_run limits db t mid"
    and consume: "stmt_consume siteId (digest_of platform token) (clock 3) mid = (1, db')"
    and b: "administratorBinding platform env (pinned_root siteId (others 1 db)) = Inr (Some b)"
      "deriveSiteCredential platform (ab_password b) siteId ''admin-password'' = Inr password"
    using claim_released [OF assms(1,3)] by (auto simp: reaches_def)
  let ?e = "(Step_consume siteId (digest_of platform token) (clock 3), 1)"
  have mid: "provisioning_run limits empty_provisioning_db (trace @ t) mid" by (rule run_append [OF assms(2) t])
  have once: "length (filter (consumes siteId) ((trace @ t) @ ?e # later)) \<le> 1"
    if "provisioning_run limits db' later final" for later final
  proof -
    have "provisioning_run limits mid (?e # later) final" by (rule one_step [OF _ _ that]) (simp_all add: consume)
    then show ?thesis using run_consumes_once [OF run_append [OF mid] empty_provisioning_wf] by blast
  qed
  have "filter (consumes siteId) (trace @ t) = []" using once [OF no_steps] by simp
  moreover have "filter (consumes siteId) later = []" if "provisioning_run limits db' later final" for later final
    using once [OF that] by simp
  ultimately show ?thesis using t consume b by blast
qed

definition sample_capability :: string where
  "sample_capability = ''capability''"

definition succeeded_operation :: operation_row where
  "succeeded_operation = (new_operation ''one'' ''op-1''
     \<lparr>in_key = ''k1'', in_fingerprint = ''f'', in_r2Key = ''r'', in_sha256 = ''a'', in_size = 10, in_slug = ''site'',
      in_name = ''Site'', in_siteTitle = ''Site''\<rparr> None 7)\<lparr>op_state := Succeeded\<rparr>"

definition sample_provisioned :: "provisioning_step list" where
  "sample_provisioned = [Step_allocate sample_token (sample_request_input ''k1'') (sample_context ''one'') sample_pin 5,
     Step_issue ''one'' sample_pin (digest_of sample_secrets sample_capability)
       (digest_of sample_secrets (keyedDigest sample_secrets ''secret''
          (''wp-codebox/site-credential/v1'' @ nul @ ''one'' @ nul @ ''admin-password''))) 1000 6,
     Step_operations [succeeded_operation], Step_bind ''one'' ''op-1'']"

definition sample_provisioned_db :: provisioning_db where
  "sample_provisioned_db = exec_steps sample_provisioned empty_provisioning_db"

theorem administrator_released_once_witness:
  "\<exists>db'. claimAdministrator sample_secrets secrets_before no_others (\<lambda>_. 10) (Some sample_capability) ''one'' sample_provisioned_db
      = (Inr (Claim_credential ''04''), db')
    \<and> (\<forall>later final. provisioning_run (\<lambda>_. 1) db' later final \<longrightarrow> filter (consumes ''one'') later = [])"
proof -
  have "exec_ok (\<lambda>_. 1) sample_provisioned empty_provisioning_db" by code_simp
  then obtain trace where run: "provisioning_run (\<lambda>_. 1) empty_provisioning_db trace sample_provisioned_db"
    using exec_run sample_provisioned_db_def by metis
  have "fst (claimAdministrator sample_secrets secrets_before no_others (\<lambda>_. 10) (Some sample_capability) ''one'' sample_provisioned_db)
      = Inr (Claim_credential ''04'')" by code_simp
  then obtain db' where call: "claimAdministrator sample_secrets secrets_before no_others (\<lambda>_. 10) (Some sample_capability) ''one''
      sample_provisioned_db = (Inr (Claim_credential ''04''), db')" by (metis prod.collapse)
  show ?thesis using call administrator_released_once [OF no_others run call] by blast
qed

text \<open>
  The batch of \<open>issue\<close> does not look at the lifecycle again: when a deletion is completed between the
  check and the batch, the root and a pending claim are written for a site that has its tombstone.
\<close>

definition late_issue :: "provisioning_step list" where
  "late_issue =
     (let i = allocationIdentity ''one'' in
      [Step_allocate sample_token (sample_request_input ''k1'') (sample_context ''one'') sample_pin 5,
       Step_lifecycle (Create_allocation defaultRetention i ''client-a'' 5),
       Step_lifecycle (Begin_deletion defaultRetention i (Some ''client-a'') 6),
       Step_cancel ''one'' 6, Step_clean_claims ''one'', Step_clean_roots ''one'',
       Step_lifecycle (Set_tombstone i 2 \<lparr>dr_siteId = ''one'', dr_generation = 1, dr_deletedObjects = 0, dr_deletedBytes = 0,
         dr_deletedRecords = 1, dr_startedAt = 6, dr_completedAt = 7\<rparr> 7),
       Step_issue ''one'' sample_pin ''c'' ''d'' 1000 8])"

lemma issued_after_tombstone:
  "exec_ok (\<lambda>_. 1) late_issue empty_provisioning_db
   \<and> map lc_state (rt_lifecycles (pr_rt (exec_steps late_issue empty_provisioning_db))) = [Tombstoned]
   \<and> map cl_state (pr_claims (exec_steps late_issue empty_provisioning_db)) = [Claim_pending]
   \<and> map rr_site (pr_roots (exec_steps late_issue empty_provisioning_db)) = [''one'']"
  by code_simp

end
