(* ===== verification/Provisioning_Api.thy ===== *)
theory Provisioning_Api
  imports Provisioning_Store Js_Conversions
begin

text \<open>
  The provisioning API of \<open>packages/runtime-cloudflare/src/provisioning-api.ts\<close>: routing a request,
  authenticating its bearer by the durable credentials and then by the configured tokens, and the
  handlers that read a site, its operations and its lifecycle, renew or delete it, and redeem its
  administrator's claim.  They compose \<open>Principal_Credentials\<close>, \<open>Provisioning_Store\<close>,
  \<open>Allocation_Lifecycle\<close> and \<open>Operation_Repository\<close>.

  The handlers that read request bodies and artifacts are an argument of the dispatch.  A request is
  its method, the parts of its path and two of its headers.  What other clients do between two
  statements is an argument, as are the clock readings and SHA-256 of a UTF-8 text in hexadecimal digits.
\<close>

section \<open>Requests and routes\<close>

record api_request =
  rq_method :: string
  rq_pathname :: string
  rq_authorization :: "string option"

definition path_parts :: "string \<Rightarrow> string list" where
  "path_parts pathname = filter (\<lambda>w. w \<noteq> []) (split_on (CHR ''/'') pathname)"

text \<open>\<open>/^[0-9a-f-]{36}$/\<close>\<close>

definition operation_part :: "string \<Rightarrow> bool" where
  "operation_part s \<longleftrightarrow> length s = 36 \<and> list_all (\<lambda>c. is_hex c \<or> c = CHR ''-'') s"

datatype api_route =
    Route_artifact string
  | Route_create
  | Route_claim string
  | Route_site string
  | Route_status string
  | Route_renew string
  | Route_delete string
  | Route_import string
  | Route_operation string string
  | Route_refused string
  | Route_unknown

definition only_method :: "string \<Rightarrow> string \<Rightarrow> api_route \<Rightarrow> api_route" where
  "only_method wanted verb route = (if verb = wanted then route else Route_refused wanted)"

text \<open>The routes below a site, in the order of the code.\<close>

definition site_route :: "string \<Rightarrow> string \<Rightarrow> string list \<Rightarrow> api_route" where
  "site_route verb siteId rest =
     (if rest = [''administrator-claim''] then only_method ''POST'' verb (Route_claim siteId)
      else if rest = [] then only_method ''GET'' verb (Route_site siteId)
      else if rest = [''lifecycle''] \<and> verb = ''GET'' then Route_status siteId
      else if rest = [''lifecycle'', ''renew''] then only_method ''POST'' verb (Route_renew siteId)
      else if rest = [''lifecycle''] then (if verb = ''DELETE'' then Route_delete siteId else Route_refused ''GET, DELETE'')
      else if rest = [''imports''] then only_method ''POST'' verb (Route_import siteId)
      else (case rest of
          [p, operationId] \<Rightarrow>
            if p = ''operations'' \<and> operation_part operationId
            then only_method ''GET'' verb (Route_operation siteId operationId) else Route_unknown
        | _ \<Rightarrow> Route_unknown))"

definition routeProvisioningApi :: "api_request \<Rightarrow> api_route" where
  "routeProvisioningApi request =
     (let verb = rq_method request in
      case path_parts (rq_pathname request) of
        v # rest \<Rightarrow>
          if v \<noteq> ''v1'' then Route_unknown
          else (case rest of
              [p] \<Rightarrow> if p = ''sites'' then only_method ''POST'' verb Route_create else Route_unknown
            | p # q # below \<Rightarrow>
                if p = ''artifacts'' \<and> below = [] \<and> digest_text q then only_method ''PUT'' verb (Route_artifact q)
                else if p \<noteq> ''sites'' \<or> \<not> validSiteId q then Route_unknown
                else site_route verb q below
            | [] \<Rightarrow> Route_unknown)
      | [] \<Rightarrow> Route_unknown)"

definition requestedSiteId :: "api_request \<Rightarrow> string option" where
  "requestedSiteId request =
     (case path_parts (rq_pathname request) of
        _ # p # q # _ \<Rightarrow> if p = ''sites'' \<and> validSiteId q then Some q else None
      | _ \<Rightarrow> None)"

text \<open>\<open>/^Bearer ([^\s]+)$/\<close>\<close>

definition bearer_of :: "string option \<Rightarrow> string option" where
  "bearer_of header =
     (case header of
        None \<Rightarrow> None
      | Some h \<Rightarrow>
          if starts_with ''Bearer '' h \<and> drop 7 h \<noteq> [] \<and> list_all (\<lambda>c. \<not> js_space c) (drop 7 h)
          then Some (drop 7 h) else None)"

section \<open>Responses\<close>

record site_claim_resource =
  sc_url :: string
  sc_state :: admin_claim_state
  sc_expiresAt :: string
  sc_token :: "string option"

record site_resource =
  sr_resource_id :: string
  sr_status :: string
  sr_url :: string
  sr_operation :: "string option"
  sr_claim :: "site_claim_resource option"

record lifecycle_resource =
  lr_state :: lifecycle_state
  lr_expiresAt :: string
  lr_retainUntil :: string
  lr_generation :: int
  lr_receipt :: "deletion_receipt option"

datatype api_response =
    Api_error nat string string
  | Api_lifecycle lifecycle_resource
  | Api_site nat site_resource
  | Api_operation nat string static_operation
  | Api_credential string

definition notFound :: api_response where
  "notFound = Api_error 404 ''not_found'' ''The API resource is unavailable.''"

definition claimUnavailable :: api_response where
  "claimUnavailable = Api_error 401 ''administrator_claim_unavailable'' ''The administrator claim is unavailable.''"

text \<open>The \<open>Allow\<close> header of this response is the argument of \<open>Route_refused\<close>.\<close>

definition methodNotAllowed :: api_response where
  "methodNotAllowed = Api_error 405 ''method_not_allowed'' ''The API method is unsupported.''"

definition unauthorized :: "string \<Rightarrow> api_response" where
  "unauthorized message = Api_error 401 ''unauthorized'' message"

definition forbidden :: api_response where
  "forbidden = Api_error 403 ''forbidden'' ''The bearer token lacks the required scope.''"

section \<open>Configured tokens\<close>

text \<open>
  \<open>RegExp.test\<close> turns its argument into a string first, so a field that is not a string is judged by
  how it prints.
\<close>

record static_token =
  st_id :: jsval
  st_principal :: jsval
  st_digest :: jsval
  st_scopes :: "string list"
  st_expiresAt :: string
  st_maxSites :: int
  st_sites :: "jsval list option"

text \<open>Membership in a \<open>Set\<close>: arrays and objects are not the same unless they are one object.\<close>

fun same_value :: "jsval \<Rightarrow> jsval \<Rightarrow> bool" where
  "same_value (JArr _) _ = False"
| "same_value (JObj _) _ = False"
| "same_value a b = (a = b)"

text \<open>\<open>validSiteId(site)\<close> of a configured value, where only strings and arrays have a length.\<close>

definition configured_site :: "jsval \<Rightarrow> bool" where
  "configured_site v =
     (case v of
        JStr s \<Rightarrow> validSiteId s
      | JArr vs \<Rightarrow> list_all (\<lambda>w. w \<noteq> [] \<and> list_all (\<lambda>c. is_lower c \<or> is_digit c) w) (split_on (CHR ''-'') (js_string v))
          \<and> length vs \<le> 63
      | _ \<Rightarrow> False)"

definition token_scopes :: "jsval \<Rightarrow> string list option" where
  "token_scopes v =
     (case v of
        JArr vs \<Rightarrow>
          if vs \<noteq> [] \<and> length vs \<le> 4 \<and> list_all (\<lambda>s. \<exists>scope \<in> set SCOPES. s = JStr scope) vs
          then Some (map string_value vs) else None
      | _ \<Rightarrow> None)"

definition token_expiry :: "date_functions \<Rightarrow> jsval \<Rightarrow> string option" where
  "token_expiry dates v =
     (case v of
        JStr s \<Rightarrow> (case dt_parse dates s of None \<Rightarrow> None
          | Some t \<Rightarrow> if dt_iso dates t = Some s \<and> 0 < t then Some s else None)
      | _ \<Rightarrow> None)"

definition token_sites :: "jsval \<Rightarrow> jsval list option option" where
  "token_sites v =
     (case v of
        JUndef \<Rightarrow> Some None
      | JArr vs \<Rightarrow> if length vs \<le> 256 \<and> list_all configured_site vs then Some (Some vs) else None
      | _ \<Rightarrow> None)"

definition parse_token :: "date_functions \<Rightarrow> jsval \<Rightarrow> static_token option" where
  "parse_token dates raw =
     (if \<not> is_record raw \<or> \<not> credential_identifier (js_string (js_member raw ''id''))
         \<or> \<not> principalId (js_string (js_member raw ''principal'')) \<or> \<not> digest_text (js_string (js_member raw ''digest''))
         \<or> \<not> max_sites_ok (js_member raw ''maxSites'')
      then None
      else case (token_scopes (js_member raw ''scopes''), token_expiry dates (js_member raw ''expiresAt''),
                 token_sites (js_member raw ''sites'')) of
        (Some scopes, Some expiresAt, Some sites) \<Rightarrow>
          Some \<lparr>st_id = js_member raw ''id'', st_principal = js_member raw ''principal'', st_digest = js_member raw ''digest'',
            st_scopes = scopes, st_expiresAt = expiresAt, st_maxSites = sites_limit (js_member raw ''maxSites''),
            st_sites = sites\<rparr>
      | _ \<Rightarrow> None)"

fun parse_token_list :: "date_functions \<Rightarrow> static_token list \<Rightarrow> jsval list \<Rightarrow> static_token list option" where
  "parse_token_list dates seen [] = Some []"
| "parse_token_list dates seen (raw # rest) =
     (case parse_token dates raw of
        None \<Rightarrow> None
      | Some t \<Rightarrow>
          if \<exists>u \<in> set seen. same_value (st_id t) (st_id u) \<or> same_value (st_digest t) (st_digest u) then None
          else map_option ((#) t) (parse_token_list dates (t # seen) rest))"

definition parseTokens :: "(string \<Rightarrow> jsval option) \<Rightarrow> date_functions \<Rightarrow> string option \<Rightarrow> static_token list option" where
  "parseTokens parse_json dates configured =
     (case parse_json (case configured of None \<Rightarrow> [] | Some s \<Rightarrow> s) of
        Some (JArr vs) \<Rightarrow> if vs = [] \<or> length vs > 64 then None else parse_token_list dates [] vs
      | _ \<Rightarrow> None)"

section \<open>The state and the surroundings\<close>

record api_db =
  ad_credentials :: credential_db
  ad_store :: provisioning_db

type_synonym 'a api_action = "(api_db, string, 'a) action"

record api_env =
  ae_secrets :: secret_platform
  ae_secretEnv :: secret_env
  ae_dates :: date_functions
  ae_json :: "string \<Rightarrow> jsval option"
  ae_tokens :: "string option"
  ae_clock :: "nat \<Rightarrow> int"
  ae_others :: "nat \<Rightarrow> provisioning_db \<Rightarrow> provisioning_db"
  ae_credential_others :: "nat \<Rightarrow> credential_db \<Rightarrow> credential_db"

definition on_credentials :: "'a credential_action \<Rightarrow> 'a api_action" where
  "on_credentials m s = (case m (ad_credentials s) of (r, c) \<Rightarrow> (r, s\<lparr>ad_credentials := c\<rparr>))"

definition failure_text :: "provisioning_error \<Rightarrow> string" where
  "failure_text e = (case e of Provisioning_conflict m \<Rightarrow> m | Provisioning_failure m \<Rightarrow> m | Quota_exceeded \<Rightarrow> ''quota_exceeded''
     | Capacity_exhausted \<Rightarrow> ''capacity_exhausted'' | _ \<Rightarrow> [])"

definition on_store :: "'a provisioning_action \<Rightarrow> 'a api_action" where
  "on_store m s = (case m (ad_store s) of (r, d) \<Rightarrow> (map_sum failure_text (\<lambda>x. x) r, s\<lparr>ad_store := d\<rparr>))"

text \<open>\<open>try { ... } catch\<close>\<close>

definition attempt :: "('s, 'e, 'a) action \<Rightarrow> ('s, 'f, 'e + 'a) action" where
  "attempt m s = (case m s of (r, t) \<Rightarrow> (Inr r, t))"

definition interrupted :: "api_env \<Rightarrow> nat \<Rightarrow> unit api_action" where
  "interrupted env k = on_store (modify (ae_others env k))"

section \<open>Authentication\<close>

record api_principal =
  ak_principal :: jsval
  ak_scopes :: "string list"
  ak_sites :: "jsval list option"
  ak_maxSites :: int

definition tokenFromPrincipal :: "authenticated_principal \<Rightarrow> api_principal" where
  "tokenFromPrincipal p = \<lparr>ak_principal = JStr (pp_principal p), ak_scopes = pp_scopes p,
     ak_sites = map_option (map JStr) (pp_sites p), ak_maxSites = sites_limit (pp_maxSites p)\<rparr>"

definition principal_of_token :: "static_token \<Rightarrow> api_principal" where
  "principal_of_token t = \<lparr>ak_principal = st_principal t, ak_scopes = st_scopes t, ak_sites = st_sites t,
     ak_maxSites = st_maxSites t\<rparr>"

definition site_allowed :: "api_principal \<Rightarrow> string \<Rightarrow> bool" where
  "site_allowed token siteId = (case ak_sites token of None \<Rightarrow> True | Some sites \<Rightarrow> JStr siteId \<in> set sites)"

definition audit_rows :: nat where
  "audit_rows = 10000"

definition failed_bearer :: string where
  "failed_bearer = ''Bearer authentication failed.''"

definition deny_unknown :: "api_env \<Rightarrow> nat \<Rightarrow> string \<Rightarrow> (api_response + api_principal) api_action" where
  "deny_unknown env k message =
     and_then (on_credentials (recordUnknownDenial audit_rows (JInt (ae_clock env (k + 2))))) (\<lambda>_. succeed (Inl (unauthorized message)))"

definition judge_token :: "api_env \<Rightarrow> nat \<Rightarrow> string \<Rightarrow> static_token \<Rightarrow> api_response + api_principal" where
  "judge_token env k scope t =
     (if (case dt_parse (ae_dates env) (st_expiresAt t) of Some e \<Rightarrow> e \<le> ae_clock env (k + 1) | None \<Rightarrow> False)
      then Inl (unauthorized failed_bearer)
      else if scope \<in> set (st_scopes t) then Inr (principal_of_token t) else Inl forbidden)"

definition static_authentication ::
    "api_env \<Rightarrow> nat \<Rightarrow> string \<Rightarrow> string \<Rightarrow> (api_response + api_principal) api_action" where
  "static_authentication env k digest scope =
     (case parseTokens (ae_json env) (ae_dates env) (ae_tokens env) of
        None \<Rightarrow> deny_unknown env k ''Bearer authentication is unavailable.''
      | Some tokens \<Rightarrow>
          (case find (\<lambda>t. st_digest t = JStr digest) tokens of
             Some t \<Rightarrow> succeed (judge_token env k scope t)
           | None \<Rightarrow> deny_unknown env k failed_bearer))"

definition denied_response :: "audit_reason \<Rightarrow> api_response" where
  "denied_response reason = (if reason = Reason_scope then forbidden else if reason = Reason_site then notFound
     else unauthorized failed_bearer)"

definition authenticate :: "api_env \<Rightarrow> nat \<Rightarrow> api_request \<Rightarrow> string \<Rightarrow> (api_response + api_principal) api_action" where
  "authenticate env k request scope =
     (case bearer_of (rq_authorization request) of
        None \<Rightarrow> succeed (Inl (unauthorized ''Bearer authentication is required.''))
      | Some bearer \<Rightarrow>
          let digest = digest_of (ae_secrets env) bearer in
          and_then (attempt (on_credentials (authorizeDigest (ae_dates env) audit_rows (ae_credential_others env) digest (Some scope)
              (requestedSiteId request) (JInt (ae_clock env k))))) (\<lambda>decision.
          case decision of
            Inl _ \<Rightarrow> succeed (Inl (unauthorized ''Bearer authentication is unavailable.''))
          | Inr (Allowed p) \<Rightarrow> succeed (Inr (tokenFromPrincipal p))
          | Inr (Denied_because reason _ _ _) \<Rightarrow> succeed (Inl (denied_response reason))
          | Inr Not_found \<Rightarrow> static_authentication env k digest scope))"

text \<open>\<open>const token = await authenticate(...); if (token instanceof Response) return token\<close>\<close>

definition with_token ::
    "api_env \<Rightarrow> nat \<Rightarrow> api_request \<Rightarrow> string \<Rightarrow> (api_principal \<Rightarrow> api_response api_action) \<Rightarrow> api_response api_action" where
  "with_token env k request scope handler =
     and_then (authenticate env k request scope) (\<lambda>r. case r of Inl response \<Rightarrow> succeed response | Inr token \<Rightarrow> handler token)"

definition owns :: "api_principal \<Rightarrow> string \<Rightarrow> provisioning_allocation option \<Rightarrow> bool" where
  "owns token siteId a = (case a of None \<Rightarrow> False | Some x \<Rightarrow> ak_principal token = JStr (pa_principal x) \<and> site_allowed token siteId)"

section \<open>The lifecycle of a site\<close>

definition iso_text :: "api_env \<Rightarrow> int \<Rightarrow> string api_action" where
  "iso_text env t = (case dt_iso (ae_dates env) t of None \<Rightarrow> throw ''Invalid time value'' | Some s \<Rightarrow> succeed s)"

definition lifecycleResource :: "api_env \<Rightarrow> lifecycle_row \<Rightarrow> api_response api_action" where
  "lifecycleResource env l =
     and_then (iso_text env (lc_expires_at l)) (\<lambda>expires.
     and_then (iso_text env (lc_retain_until l)) (\<lambda>retain.
       succeed (Api_lifecycle \<lparr>lr_state = lc_state l, lr_expiresAt = expires, lr_retainUntil = retain,
         lr_generation = lc_generation l, lr_receipt = lc_receipt l\<rparr>)))"

definition lifecycle_of :: "string \<Rightarrow> provisioning_db \<Rightarrow> lifecycle_row option" where
  "lifecycle_of siteId db = lifecycle_at (pr_rt db) siteId (id_generation (allocationIdentity siteId))"

definition lifecycleStatus :: "api_env \<Rightarrow> nat \<Rightarrow> api_request \<Rightarrow> string \<Rightarrow> api_response api_action" where
  "lifecycleStatus env k request siteId =
     with_token env k request ''sites:read'' (\<lambda>token.
     and_then (on_store (query (bySite siteId))) (\<lambda>a.
     if \<not> owns token siteId a then succeed notFound
     else
       and_then (interrupted env k) (\<lambda>_.
       and_then (on_store (query (lifecycle_of siteId))) (\<lambda>l.
       case l of None \<Rightarrow> succeed notFound | Some row \<Rightarrow> lifecycleResource env row))))"

text \<open>\<open>CloudflareAllocationLifecycle.renew\<close> and \<open>beginDeletion\<close> on these tables.\<close>

definition granted_lifecycle :: "runtime_statement \<Rightarrow> string \<Rightarrow> lifecycle_row provisioning_action" where
  "granted_lifecycle stmt siteId =
     and_then (execute (on_lifecycles stmt)) (\<lambda>n.
     and_then (require (n = 1) Lifecycle_conflict) (\<lambda>_.
     and_then (query (lifecycle_of siteId)) (\<lambda>l.
     case l of None \<Rightarrow> throw Lifecycle_conflict | Some row \<Rightarrow> succeed row)))"

definition store_renew :: "string \<Rightarrow> string \<Rightarrow> int \<Rightarrow> lifecycle_row provisioning_action" where
  "store_renew siteId owner now =
     granted_lifecycle (stmt_renew_allocation defaultRetention (allocationIdentity siteId) owner now) siteId"

definition store_cancel :: "string \<Rightarrow> int \<Rightarrow> provisioning_db \<Rightarrow> provisioning_db" where
  "store_cancel siteId now db =
     (let db1 = db\<lparr>pr_rt := cancel_operations siteId now (pr_rt db)\<rparr>; db2 = snd (stmt_cancel_claims siteId now db1)
      in db2\<lparr>pr_rt := cancel_dispatches siteId now (pr_rt db2)\<rparr>)"

definition store_delete :: "string \<Rightarrow> string \<Rightarrow> int \<Rightarrow> unit provisioning_action" where
  "store_delete siteId owner now =
     and_then (granted_lifecycle (stmt_begin_deletion defaultRetention (allocationIdentity siteId) (Some owner) now) siteId) (\<lambda>_.
       modify (store_cancel siteId now))"

definition owner_name :: "provisioning_allocation option \<Rightarrow> string" where
  "owner_name a = (case a of None \<Rightarrow> [] | Some x \<Rightarrow> pa_principal x)"

definition renewLifecycle :: "api_env \<Rightarrow> api_request \<Rightarrow> string \<Rightarrow> api_response api_action" where
  "renewLifecycle env request siteId =
     with_token env 0 request ''sites:import'' (\<lambda>token.
     and_then (on_store (query (bySite siteId))) (\<lambda>a.
     if \<not> owns token siteId a then succeed notFound
     else
       and_then (interrupted env 0) (\<lambda>_.
       and_then (attempt (and_then (on_store (store_renew siteId (owner_name a) (ae_clock env 3))) (lifecycleResource env))) (\<lambda>r.
       case r of
         Inl _ \<Rightarrow> succeed (Api_error 409 ''lifecycle_conflict'' ''The allocation lifecycle cannot be renewed.'')
       | Inr response \<Rightarrow> succeed response))))"

text \<open>After the deletion the status is answered to the same request, under the scope of reading.\<close>

definition deleteLifecycle :: "api_env \<Rightarrow> api_request \<Rightarrow> string \<Rightarrow> api_response api_action" where
  "deleteLifecycle env request siteId =
     with_token env 0 request ''sites:import'' (\<lambda>token.
     and_then (on_store (query (bySite siteId))) (\<lambda>a.
     if \<not> owns token siteId a then succeed notFound
     else
       and_then (interrupted env 0) (\<lambda>_.
       and_then (attempt (on_store (store_delete siteId (owner_name a) (ae_clock env 3)))) (\<lambda>r.
       case r of
         Inl _ \<Rightarrow> succeed (Api_error 409 ''lifecycle_conflict'' ''The allocation lifecycle cannot be deleted.'')
       | Inr _ \<Rightarrow> lifecycleStatus env 4 request siteId))))"

section \<open>Reading a site and its operations\<close>

definition resource_state :: "operation_state option \<Rightarrow> string" where
  "resource_state s = (case s of Some Succeeded \<Rightarrow> ''ready'' | Some Failed \<Rightarrow> ''failed''
     | Some Publication_pending \<Rightarrow> ''publication-pending'' | _ \<Rightarrow> ''provisioning'')"

definition claim_resource :: "api_env \<Rightarrow> string \<Rightarrow> claim_metadata option \<Rightarrow> site_claim_resource option api_action" where
  "claim_resource env siteId claim =
     (case claim of
        None \<Rightarrow> succeed None
      | Some c \<Rightarrow> and_then (iso_text env (cm_expiresAt c)) (\<lambda>expires.
          succeed (Some \<lparr>sc_url = ''/v1/sites/'' @ siteId @ ''/administrator-claim'', sc_state = cm_state c, sc_expiresAt = expires,
            sc_token = cm_token c\<rparr>)))"

definition siteResource ::
    "api_env \<Rightarrow> site_context \<Rightarrow> static_operation option \<Rightarrow> nat \<Rightarrow> claim_metadata option \<Rightarrow> api_response api_action" where
  "siteResource env site operation status claim =
     and_then (claim_resource env (ctx_id site) claim) (\<lambda>c.
       succeed (Api_site status \<lparr>sr_resource_id = ctx_id site, sr_status = resource_state (map_option so_state operation),
         sr_url = ctx_origin site,
         sr_operation = map_option (\<lambda>w. ''/v1/sites/'' @ ctx_id site @ ''/operations/'' @ so_operationId w) operation,
         sr_claim = c\<rparr>))"

definition store_operation :: "string \<Rightarrow> string option \<Rightarrow> provisioning_db \<Rightarrow> static_operation option" where
  "store_operation siteId operationId db =
     (case operationId of None \<Rightarrow> None
      | Some i \<Rightarrow> if i = [] then None else op_select (\<lambda>w. op_site w = siteId \<and> op_id w = i) (pr_rt db))"

definition readSite :: "api_env \<Rightarrow> api_request \<Rightarrow> string \<Rightarrow> api_response api_action" where
  "readSite env request siteId =
     with_token env 0 request ''sites:read'' (\<lambda>token.
     and_then (on_store (query (bySite siteId))) (\<lambda>a.
     and_then (interrupted env 0) (\<lambda>_.
     and_then (on_store (query (provisioned_context siteId))) (\<lambda>site.
     case site of
       None \<Rightarrow> succeed notFound
     | Some ctx \<Rightarrow>
         if \<not> owns token siteId a then succeed notFound
         else
           and_then (interrupted env 1) (\<lambda>_.
           and_then (on_store (claim_metadata_of (\<lambda>j. ae_others env (j + 2)) (\<lambda>j. ae_clock env (j + 3)) siteId)) (\<lambda>claim.
           and_then (interrupted env 5) (\<lambda>_.
           and_then (on_store (query (store_operation siteId (case a of None \<Rightarrow> None | Some x \<Rightarrow> pa_operationId x)))) (\<lambda>operation.
             siteResource env ctx operation 200 claim))))))))"

definition readOperation :: "api_env \<Rightarrow> api_request \<Rightarrow> string \<Rightarrow> string \<Rightarrow> api_response api_action" where
  "readOperation env request siteId operationId =
     with_token env 0 request ''operations:read'' (\<lambda>token.
     and_then (on_store (query (bySite siteId))) (\<lambda>a.
     if a = None then succeed notFound
     else
       and_then (interrupted env 0) (\<lambda>_.
       and_then (on_store (query (provisioned_context siteId))) (\<lambda>site.
       if site = None \<or> \<not> owns token siteId a then succeed notFound
       else
         and_then (interrupted env 1) (\<lambda>_.
         and_then (on_store (query (ownsOperation (owner_name a) siteId operationId))) (\<lambda>linked.
         if \<not> linked then succeed notFound
         else
           and_then (interrupted env 2) (\<lambda>_.
           and_then (on_store (query (store_operation siteId (Some operationId)))) (\<lambda>operation.
           case operation of None \<Rightarrow> succeed notFound | Some w \<Rightarrow> succeed (Api_operation 200 siteId w)))))))))"

definition claim_response_of :: "claim_response \<Rightarrow> api_response" where
  "claim_response_of r = (case r of Claim_unavailable \<Rightarrow> claimUnavailable
     | Claim_not_ready \<Rightarrow> Api_error 409 ''administrator_claim_not_ready'' ''The administrator credential is not ready.''
     | Claim_credential password \<Rightarrow> Api_credential password)"

definition claimAdministrator_response :: "api_env \<Rightarrow> api_request \<Rightarrow> string \<Rightarrow> api_response api_action" where
  "claimAdministrator_response env request siteId =
     and_then (on_store (claimAdministrator (ae_secrets env) (ae_secretEnv env) (ae_others env) (ae_clock env)
         (bearer_of (rq_authorization request)) siteId)) (\<lambda>r. succeed (claim_response_of r))"

section \<open>The dispatch\<close>

definition handle_request :: "(api_route \<Rightarrow> api_response api_action) \<Rightarrow> api_env \<Rightarrow> api_request \<Rightarrow> api_response api_action" where
  "handle_request writers env request =
     (case routeProvisioningApi request of
        Route_claim siteId \<Rightarrow> claimAdministrator_response env request siteId
      | Route_site siteId \<Rightarrow> readSite env request siteId
      | Route_status siteId \<Rightarrow> lifecycleStatus env 0 request siteId
      | Route_renew siteId \<Rightarrow> renewLifecycle env request siteId
      | Route_delete siteId \<Rightarrow> deleteLifecycle env request siteId
      | Route_operation siteId operationId \<Rightarrow> readOperation env request siteId operationId
      | Route_refused _ \<Rightarrow> succeed methodNotAllowed
      | Route_unknown \<Rightarrow> succeed notFound
      | route \<Rightarrow> writers route)"

section \<open>Who is authenticated\<close>

text \<open>
  The specification of \<open>authenticate\<close>: the digest of the bearer is that of a durable credential whose row
  denies nothing, or of a configured token where no durable credential has it.
\<close>

definition durable_grant :: "api_env \<Rightarrow> nat \<Rightarrow> string \<Rightarrow> string option \<Rightarrow> string \<Rightarrow> credential_db \<Rightarrow> api_principal \<Rightarrow> bool" where
  "durable_grant env k scope siteId digest credentials token \<longleftrightarrow>
     (\<exists>row p. find_digest digest credentials = Some row \<and> hydrate (ae_dates env) row = Inr p
        \<and> denial_reason (ae_dates env) row p (Some scope) siteId (ae_clock env k) = None \<and> token = tokenFromPrincipal p)"

definition configured_grant :: "api_env \<Rightarrow> nat \<Rightarrow> string \<Rightarrow> string \<Rightarrow> credential_db \<Rightarrow> api_principal \<Rightarrow> bool" where
  "configured_grant env k scope digest credentials token \<longleftrightarrow> find_digest digest credentials = None
     \<and> (\<exists>tokens t. parseTokens (ae_json env) (ae_dates env) (ae_tokens env) = Some tokens
          \<and> find (\<lambda>t. st_digest t = JStr digest) tokens = Some t \<and> scope \<in> set (st_scopes t)
          \<and> \<not> (case dt_parse (ae_dates env) (st_expiresAt t) of Some e \<Rightarrow> e \<le> ae_clock env (k + 1) | None \<Rightarrow> False)
          \<and> token = principal_of_token t)"

definition authenticated_by :: "api_env \<Rightarrow> nat \<Rightarrow> api_request \<Rightarrow> string \<Rightarrow> credential_db \<Rightarrow> api_principal \<Rightarrow> bool" where
  "authenticated_by env k request scope credentials token \<longleftrightarrow>
     (\<exists>bearer. bearer_of (rq_authorization request) = Some bearer
        \<and> (durable_grant env k scope (requestedSiteId request) (digest_of (ae_secrets env) bearer) credentials token
           \<or> configured_grant env k scope (digest_of (ae_secrets env) bearer) credentials token))"

lemma on_credentials_store [simp]: "ad_store (snd (on_credentials m s)) = ad_store s"
  by (simp add: on_credentials_def case_prod_unfold)

lemma on_store_credentials [simp]: "ad_credentials (snd (on_store m s)) = ad_credentials s"
  by (simp add: on_store_def case_prod_unfold)

lemma snd_attempt [simp]: "snd (attempt m s) = snd (m s)"
  by (simp add: attempt_def case_prod_unfold)

lemma and_then_attempt: "and_then (attempt m) k s = k (fst (m s)) (snd (m s))"
  by (simp add: and_then_def attempt_def case_prod_unfold)

lemma deny_unknown_store [simp]: "ad_store (snd (deny_unknown env k message s)) = ad_store s"
proof (cases "on_credentials (recordUnknownDenial audit_rows (JInt (ae_clock env (k + 2)))) s")
  case (Pair r u)
  then have "ad_store u = ad_store s" using on_credentials_store [of _ s] by (metis snd_conv)
  then show ?thesis using Pair by (cases r) (simp_all add: deny_unknown_def and_then_def succeed_def)
qed

lemma deny_unknown_result: "fst (deny_unknown env k message s) \<noteq> Inr (Inr token)"
  by (auto simp: deny_unknown_def and_then_def succeed_def split: prod.splits sum.splits)

lemma static_authentication_store [simp]: "ad_store (snd (static_authentication env k digest scope s)) = ad_store s"
  by (simp add: static_authentication_def succeed_def split: option.split)

lemma authenticate_eq:
  "authenticate env k request scope s =
    (case bearer_of (rq_authorization request) of
       None \<Rightarrow> (Inr (Inl (unauthorized ''Bearer authentication is required.'')), s)
     | Some bearer \<Rightarrow>
         let digest = digest_of (ae_secrets env) bearer;
             call = on_credentials (authorizeDigest (ae_dates env) audit_rows (ae_credential_others env) digest (Some scope)
               (requestedSiteId request) (JInt (ae_clock env k))) s
         in (case fst call of
               Inl _ \<Rightarrow> (Inr (Inl (unauthorized ''Bearer authentication is unavailable.'')), snd call)
             | Inr (Allowed p) \<Rightarrow> (Inr (Inr (tokenFromPrincipal p)), snd call)
             | Inr (Denied_because reason _ _ _) \<Rightarrow> (Inr (Inl (denied_response reason)), snd call)
             | Inr Not_found \<Rightarrow> static_authentication env k digest scope (snd call)))"
  by (simp add: authenticate_def and_then_attempt Let_def succeed_def split: option.split sum.split authorization_decision.split)

lemma authenticate_store [simp]: "ad_store (snd (authenticate env k request scope s)) = ad_store s"
  by (simp add: authenticate_eq Let_def split: option.split sum.split authorization_decision.split)

lemma authorize_allowed:
  assumes "fst (authorizeDigest dates n others digest (Some scope) siteId (JInt now) c) = Inr (Allowed p)"
  shows "\<exists>row. find_digest digest c = Some row \<and> hydrate dates row = Inr p
    \<and> denial_reason dates row p (Some scope) siteId now = None"
proof -
  obtain t where t: "valid_moment (JInt now) = Some t"
    using assms by (cases "valid_moment (JInt now)") (auto simp: authorizeDigest_def throw_def)
  then have now: "t = now" by (auto simp: valid_moment_def safe_integer_JInt split: if_splits)
  obtain row where row: "find_digest digest c = Some row"
    using assms t by (cases "find_digest digest c")
      (auto simp: authorizeDigest_def run_action succeed_def split: if_splits)
  have decide: "fst (decide_credential dates n row (Some scope) siteId t (others 0 c)) = Inr (Allowed p)"
    using assms t row by (auto simp: authorizeDigest_def run_action split: if_splits)
  then obtain q where q: "hydrate dates row = Inr q"
    by (cases "hydrate dates row") (auto simp: decide_credential_def run_action)
  have "q = p \<and> denial_reason dates row p (Some scope) siteId t = None"
    using decide q by (auto simp: decide_credential_def run_action succeed_def split: option.splits)
  then show ?thesis using row q now by blast
qed

lemma authorize_missed:
  assumes "fst (authorizeDigest dates n others digest (Some scope) siteId (JInt now) c) = Inr Not_found"
  shows "find_digest digest c = None"
proof (rule ccontr)
  assume "find_digest digest c \<noteq> None"
  then obtain row where row: "find_digest digest c = Some row" by blast
  obtain t where t: "valid_moment (JInt now) = Some t"
    using assms by (cases "valid_moment (JInt now)") (auto simp: authorizeDigest_def throw_def)
  have "fst (decide_credential dates n row (Some scope) siteId t (others 0 c)) = Inr Not_found"
    using assms t row by (auto simp: authorizeDigest_def run_action split: if_splits)
  then show False
    by (auto simp: decide_credential_def run_action succeed_def split: option.splits sum.splits)
qed

lemma fst_on_credentials: "fst (on_credentials m s) = fst (m (ad_credentials s))"
  by (simp add: on_credentials_def case_prod_unfold)

lemma authenticate_granted:
  assumes "fst (authenticate env k request scope s) = Inr (Inr token)"
  shows "authenticated_by env k request scope (ad_credentials s) token"
proof -
  obtain bearer where bearer: "bearer_of (rq_authorization request) = Some bearer"
    using assms by (cases "bearer_of (rq_authorization request)") (auto simp: authenticate_eq)
  define digest where "digest = digest_of (ae_secrets env) bearer"
  define call where "call = on_credentials (authorizeDigest (ae_dates env) audit_rows (ae_credential_others env) digest (Some scope)
      (requestedSiteId request) (JInt (ae_clock env k))) s"
  note result = assms [unfolded authenticate_eq bearer option.case Let_def, folded digest_def, folded call_def]
  have "durable_grant env k scope (requestedSiteId request) digest (ad_credentials s) token
      \<or> configured_grant env k scope digest (ad_credentials s) token"
  proof (cases "fst call")
    case (Inr decision)
    show ?thesis
    proof (cases decision)
      case Not_found
      then have none: "find_digest digest (ad_credentials s) = None"
        using Inr authorize_missed by (auto simp: call_def fst_on_credentials)
      have "fst (static_authentication env k digest scope (snd call)) = Inr (Inr token)" using result Inr Not_found by simp
      then show ?thesis using none deny_unknown_result
        by (auto simp: static_authentication_def configured_grant_def succeed_def judge_token_def split: option.splits if_splits)
    next
      case (Allowed p)
      then have "token = tokenFromPrincipal p" using result Inr by simp
      moreover have "fst (authorizeDigest (ae_dates env) audit_rows (ae_credential_others env) digest (Some scope)
          (requestedSiteId request) (JInt (ae_clock env k)) (ad_credentials s)) = Inr (Allowed p)"
        using Inr Allowed by (simp add: call_def fst_on_credentials)
      ultimately show ?thesis using authorize_allowed unfolding durable_grant_def by blast
    next
      case (Denied_because r a b c)
      then show ?thesis using result Inr by simp
    qed
  qed (use result in simp)
  then show ?thesis using bearer by (auto simp: authenticated_by_def digest_def)
qed

section \<open>Sites of other principals\<close>

lemma and_then_store_query: "and_then (on_store (query f)) k s = k (f (ad_store s)) s"
  by (simp add: and_then_def on_store_def query_def)

lemma and_then_interrupted: "and_then (interrupted env j) k s = k () (s\<lparr>ad_store := ae_others env j (ad_store s)\<rparr>)"
  by (simp add: and_then_def interrupted_def on_store_def modify_def)

lemma with_token_eq:
  "with_token env k request scope handler s =
    (case fst (authenticate env k request scope s) of
       Inl e \<Rightarrow> (Inl e, snd (authenticate env k request scope s))
     | Inr (Inl response) \<Rightarrow> (Inr response, snd (authenticate env k request scope s))
     | Inr (Inr token) \<Rightarrow> handler token (snd (authenticate env k request scope s)))"
  by (cases "authenticate env k request scope s") (simp add: with_token_def and_then_def succeed_def split: sum.split)

definition is_error :: "api_response \<Rightarrow> bool" where
  "is_error r \<longleftrightarrow> (\<exists>status code message. r = Api_error status code message)"

lemma error_responses [simp]:
  "is_error notFound" "is_error forbidden" "is_error (unauthorized m)" "is_error (denied_response reason)"
  by (auto simp: is_error_def notFound_def forbidden_def unauthorized_def denied_response_def)

lemma static_authentication_error:
  "fst (static_authentication env k digest scope s) = Inr (Inl r) \<Longrightarrow> is_error r"
  by (auto simp: static_authentication_def deny_unknown_def judge_token_def and_then_def succeed_def
      split: option.splits prod.splits sum.splits if_splits)

lemma authenticate_error: "fst (authenticate env k request scope s) = Inr (Inl r) \<Longrightarrow> is_error r"
  by (auto simp: authenticate_eq Let_def split: option.splits sum.splits authorization_decision.splits
      dest: static_authentication_error)

text \<open>The routes that authenticate for a site, and the scope each asks for.\<close>

fun guarded_route :: "api_route \<Rightarrow> (string \<times> string) option" where
  "guarded_route (Route_site siteId) = Some (siteId, ''sites:read'')"
| "guarded_route (Route_status siteId) = Some (siteId, ''sites:read'')"
| "guarded_route (Route_renew siteId) = Some (siteId, ''sites:import'')"
| "guarded_route (Route_delete siteId) = Some (siteId, ''sites:import'')"
| "guarded_route (Route_operation siteId operationId) = Some (siteId, ''operations:read'')"
| "guarded_route _ = None"

text \<open>What a handler does for a token that does not own the site.\<close>

definition hides :: "api_env \<Rightarrow> string \<Rightarrow> (api_principal \<Rightarrow> api_response api_action) \<Rightarrow> bool" where
  "hides env siteId handler \<longleftrightarrow> (\<forall>token s. \<not> owns token siteId (bySite siteId (ad_store s)) \<longrightarrow>
     fst (handler token s) = Inr notFound \<and> ad_store (snd (handler token s)) \<in> {ad_store s, ae_others env 0 (ad_store s)})"

definition hidden_by :: "api_env \<Rightarrow> api_request \<Rightarrow> string \<Rightarrow> string \<Rightarrow> api_response api_action \<Rightarrow> bool" where
  "hidden_by env request siteId scope m \<longleftrightarrow> (\<exists>handler. m = with_token env 0 request scope handler \<and> hides env siteId handler)"

lemma lifecycleStatus_hidden: "hidden_by env request siteId ''sites:read'' (lifecycleStatus env 0 request siteId)"
  unfolding hidden_by_def lifecycleStatus_def
  by (intro exI conjI, rule refl) (simp add: hides_def and_then_store_query succeed_def)

lemma renewLifecycle_hidden: "hidden_by env request siteId ''sites:import'' (renewLifecycle env request siteId)"
  unfolding hidden_by_def renewLifecycle_def
  by (intro exI conjI, rule refl) (simp add: hides_def and_then_store_query succeed_def)

lemma deleteLifecycle_hidden: "hidden_by env request siteId ''sites:import'' (deleteLifecycle env request siteId)"
  unfolding hidden_by_def deleteLifecycle_def
  by (intro exI conjI, rule refl) (simp add: hides_def and_then_store_query succeed_def)

lemma readSite_hidden: "hidden_by env request siteId ''sites:read'' (readSite env request siteId)"
  unfolding hidden_by_def readSite_def
  by (intro exI conjI, rule refl)
    (simp add: hides_def and_then_store_query and_then_interrupted succeed_def split: option.split)

lemma readOperation_hidden: "hidden_by env request siteId ''operations:read'' (readOperation env request siteId operationId)"
  unfolding hidden_by_def readOperation_def
  by (intro exI conjI, rule refl)
    (simp add: hides_def and_then_store_query and_then_interrupted succeed_def)

lemma guarded_hidden:
  assumes "guarded_route (routeProvisioningApi request) = Some (siteId, scope)"
  shows "hidden_by env request siteId scope (handle_request writers env request)"
proof (cases "routeProvisioningApi request")
  case (Route_site x)
  then show ?thesis using assms readSite_hidden by (simp add: handle_request_def)
next
  case (Route_status x)
  then show ?thesis using assms lifecycleStatus_hidden by (simp add: handle_request_def)
next
  case (Route_renew x)
  then show ?thesis using assms renewLifecycle_hidden by (simp add: handle_request_def)
next
  case (Route_delete x)
  then show ?thesis using assms deleteLifecycle_hidden by (simp add: handle_request_def)
next
  case (Route_operation x y)
  then show ?thesis using assms readOperation_hidden by (simp add: handle_request_def)
qed (use assms in simp_all)

text \<open>The token of a request is determined: authentication has one outcome.\<close>

lemma authenticated_unique:
  "authenticated_by env k request scope c token \<Longrightarrow> authenticated_by env k request scope c token' \<Longrightarrow> token = token'"
  by (auto simp: authenticated_by_def durable_grant_def configured_grant_def)

lemma owner_iff:
  "owns token siteId a \<longleftrightarrow> (\<exists>x. a = Some x \<and> ak_principal token = JStr (pa_principal x)
     \<and> (\<forall>sites. ak_sites token = Some sites \<longrightarrow> JStr siteId \<in> set sites))"
  by (cases "ak_sites token") (auto simp: owns_def site_allowed_def split: option.split)


definition api_dates :: date_functions where
  "api_dates = \<lparr>dt_parse = (\<lambda>s. if s = ''later'' then Some 5000 else None), dt_iso = (\<lambda>t. Some ''later'')\<rparr>"

definition sample_api_env :: api_env where
  "sample_api_env = \<lparr>ae_secrets = sample_secrets\<lparr>sx_sha256 := \<lambda>s. replicate 32 (if s = ''alice'' then 0x11 else 0x22)\<rparr>,
     ae_secretEnv = secrets_before, ae_dates = api_dates, ae_json = (\<lambda>_. None), ae_tokens = None, ae_clock = (\<lambda>_. 10),
     ae_others = (\<lambda>_ d. d), ae_credential_others = (\<lambda>_ c. c)\<rparr>"

definition api_credential :: "string \<Rightarrow> char \<Rightarrow> string list \<Rightarrow> credential_row" where
  "api_credential owner d scopes =
     \<lparr>cd_credential_id = owner, cd_version = ''v1'', cd_digest = replicate 64 d, cd_principal = owner,
      cd_scopes = scopes, cd_expires_at = 5000, cd_max_sites = 1, cd_sites = None, cd_revoked_at = None, cd_created_at = 1\<rparr>"

definition sample_owned_store :: provisioning_db where
  "sample_owned_store =
     \<lparr>pr_rt = empty_runtime_db\<lparr>rt_sites := [new_site (sample_context ''one'')],
        rt_lifecycles := [new_lifecycle defaultRetention \<lparr>id_site = ''one'', id_generation = 1\<rparr> ''client-a'' 5]\<rparr>,
      pr_sites = [api_row sample_token (sample_request_input ''k1'') ''one'' 5], pr_roots = [], pr_links = [], pr_claims = []\<rparr>"

definition sample_api_db :: "credential_row list \<Rightarrow> api_db" where
  "sample_api_db rows = \<lparr>ad_credentials = \<lparr>cb_credentials = rows, cb_audit = [], cb_sequence = 0\<rparr>, ad_store = sample_owned_store\<rparr>"

definition owner_db :: api_db where
  "owner_db = sample_api_db [api_credential ''client-a'' (CHR ''1'') [''sites:import'', ''sites:read'']]"

definition stranger_db :: api_db where
  "stranger_db = sample_api_db [api_credential ''client-b'' (CHR ''2'') [''sites:read'']]"

definition sample_api_request :: "string \<Rightarrow> string \<Rightarrow> api_request" where
  "sample_api_request verb bearer =
     \<lparr>rq_method = verb, rq_pathname = ''/v1/sites/one/lifecycle'', rq_authorization = Some (''Bearer '' @ bearer)\<rparr>"


section \<open>Corner cases\<close>

text \<open>
  Deleting asks for the scope of importing, but its answer is the status, which asks for the scope of
  reading: a bearer with the first alone deletes its allocation and is told that it was forbidden.
\<close>

definition import_only_db :: api_db where
  "import_only_db = sample_api_db [api_credential ''client-a'' (CHR ''1'') [''sites:import'']]"

lemma deletion_answers_forbidden:
  "case deleteLifecycle sample_api_env (sample_api_request ''DELETE'' ''alice'') ''one'' import_only_db of
     (answer, after) \<Rightarrow> answer = Inr forbidden \<and> map lc_state (rt_lifecycles (pr_rt (ad_store after))) = [Deleting]"
  by code_simp

text \<open>A configured token without a principal is accepted: \<open>undefined\<close> prints as a name.\<close>

lemma zero_digest: "digest_text (replicate 64 (CHR ''0''))"
  by code_simp

lemma token_without_principal:
  "map_option st_principal (parse_token api_dates (JObj [(''id'', JStr ''a''), (''digest'', JStr (replicate 64 (CHR ''0''))),
     (''scopes'', JArr [JStr ''sites:read'']), (''maxSites'', JInt 1), (''expiresAt'', JStr ''later'')])) = Some JUndef"
  by (simp add: parse_token_def is_record_def credential_identifier_def principalId_def name_char_def is_alnum_def is_lower_def
      is_upper_def is_digit_def char_between_def zero_digest max_sites_ok_def token_scopes_def token_expiry_def token_sites_def
      SCOPES_def api_dates_def)

end
