(* ===== verification/Spec2Isabelle.thy ===== *)
theory Spec2Isabelle
  imports Coordinator_Refinement Repository_Calls Dispatch_Repository Run_Scheduler Run_Registry Artifact_Digest
    Fuzz_Minimizer Transport_Faults Adversarial_Campaign Fanout_Execution Allocation_Lifecycle Principal_Credentials Bounded_Runtime_Plan Sandbox_Tool_Policy
    Provisioning_Api
begin

text \<open>
  WP Codebox runs WordPress sites in sandboxes: on Cloudflare, where a canonical revision of each site
  lives in object storage and requests, queue consumers and administrators compete for it, and as plans
  of agents and fuzzing campaigns that run locally.  This development models the part of the program
  that decides: who may change what, which work runs when, what a result means, and what is kept.

  \<^bold>\<open>Conventions.\<close>  A TypeScript interface is a record and a union of literals a datatype, both with the
  names of the source; an untyped value is a \<open>jsval\<close>.  An \<open>async\<close> method of a stateful object is an
  action: a function from the state to a result or a thrown error, and the state it leaves.  An SQL
  statement is a function from the tables to the number of rows it changed and the tables it leaves; a
  D1 batch is one transaction.  Where a method awaits, other clients may come between, so invariants
  are proved for the single statements and lifted to methods and to sequences of calls.  Clocks,
  random tokens, digests, regular expressions of a caller, and the programs that are executed are
  arguments.  Numbers are exact: the code adds integers far below \<open>2 ^ 53\<close> and checks the rest with
  \<open>Number.isSafeInteger\<close>, whose bound is kept.

  \<^bold>\<open>Ground.\<close>  \<open>Codebox_Prelude\<close> holds JSON values, actions with their rules and strings;
  \<open>Js_Conversions\<close> the conversions of the language (\<open>String\<close>, \<open>Number\<close>, spreads); \<open>Sql_Table\<close> statements
  and tables; \<open>Stable_Json\<close> the serialization under every fingerprint (\<open>object-utils.ts\<close>);
  \<open>Redaction\<close> the walk of \<open>redaction.ts\<close>.

  \<^bold>\<open>Canonical revisions\<close> (\<open>packages/runtime-cloudflare/src\<close>).
  \<open>Revision_Contract\<close> (\<open>revision-coordinator.ts\<close>) states the interface of a coordinator as the locales
  \<open>revision_coordinator\<close> and \<open>receipted_coordinator\<close>, whose client lemmas follow from laws about one
  call.  \<open>Durable_Coordinator\<close> (\<open>state-coordinator.ts\<close>: a record and receipts in the storage of a Durable
  Object, its request handler and the client stub) and \<open>D1_Coordinator\<close>
  (\<open>d1-revision-coordinator.ts\<close>: three tables, each statement on its own) interpret them.
  \<open>Coordinator_Refinement\<close> shows that both refine one abstract coordinator for the calls that do not
  depend on the store.  The first properties below are the absence of lost updates and the exclusion
  between leases and fences; then follow lemmas on what a refused call leaves and what happens to
  receipts, and the refinement.

  \<^bold>\<open>Runtime work\<close> (\<open>packages/runtime-cloudflare/src\<close>).
  \<open>Operation_Tables\<close> are the tables that operations, dispatches and allocations share.
  \<open>Operation_Repository\<close> and \<open>Repository_Calls\<close> hold the operations of
  \<open>d1-operation-repository.ts\<close> (creation under an idempotency key, claims, the state machine, the
  publication that is reconciled), \<open>Dispatch_Repository\<close> its dispatches (admission, selection by turns,
  retries, dead letters), \<open>Runtime_Queue\<close> the messages and batches of \<open>queue-dispatch.ts\<close> and
  \<open>queue-batch.ts\<close>, and \<open>Allocation_Lifecycle\<close> the allocations of \<open>allocation-lifecycle.ts\<close> whose
  deletion fences the work of their site.  Bounds of the queue policy are its own fields.
  \<open>Principal_Credentials\<close> (\<open>principal-credential-repository.ts\<close>) are the bearer credentials of the
  provisioning API with their audit table.

  \<^bold>\<open>Provisioning\<close> (\<open>packages/runtime-cloudflare/src\<close>).
  \<open>Site_Contexts\<close> (\<open>site-context.ts\<close>) are the sites of a worker: configured ones, and previews whose
  names carry a signature; \<open>preview_allocation_resolves\<close> and \<open>preview_only_signed\<close> show that exactly the
  allocated names are found.  \<open>Administrator_Secrets\<close> (\<open>administrator-secret-bindings.ts\<close>) are the
  versions of the administrator's secret, and the pins that tie a site to one of them through rotations.
  \<open>Provisioning_Store\<close> holds the tables of \<open>provisioning-api.ts\<close> (\<open>AllocationStore\<close>,
  \<open>AdministratorClaimStore\<close>) with \<open>deriveSiteCredential\<close> of \<open>wordpress-auth.ts\<close>: every statement or
  batch is one transaction, methods are interrupted by others in between, and \<open>provisioning_run\<close> is the
  relation of all interleavings, over which the quota, the idempotency of an allocation and the single
  release of a password are proved.  Lemmas ending in \<open>_view\<close> relate its claims and roots to those that
  \<open>Allocation_Lifecycle\<close> cancels and cleans.  \<open>Provisioning_Api\<close> is the front of it: routes, the
  authentication by durable credentials and configured tokens, the handlers, and that a principal
  neither sees nor changes the sites of another.

  \<^bold>\<open>Plans of workers\<close> (\<open>packages/runtime-core/src\<close>).
  \<open>Run_Plan\<close> and \<open>Run_Scheduler\<close> hold \<open>run-plan.ts\<close>: normalization, the depth-first search for cycles,
  counting, the progress snapshot, and the scheduler as a step relation in which the environment
  fulfils promises in any order.  \<open>Bounded_Pool\<close> and \<open>Bounded_Runtime_Plan\<close>
  (\<open>bounded-runtime-plan.ts\<close>) hold the pool of runners and the plans of commands that share one
  workspace.  \<open>Run_Registry\<close> is \<open>run-registry.ts\<close>, the directory of run records,
  with \<open>Artifact_Digest\<close> for the references it stores.  \<open>Status_Taxonomy\<close> (\<open>status-taxonomy.ts\<close>),
  \<open>Fanout_Aggregation\<close>, \<open>Fanout_Contracts\<close> and \<open>Fanout_Execution\<close> (\<open>fanout-*.ts\<close>) take a request for
  several agents through plan, execution, references and aggregation to a result that passes its own
  validator.  \<open>Sandbox_Tool_Policy\<close> (\<open>sandbox-tool-policy.ts\<close>) decides which tools an agent sees.

  \<^bold>\<open>Fuzzing\<close> (\<open>packages/runtime-core/src\<close>).
  \<open>Chunk_Reduction\<close> is the reduction that \<open>Fuzz_Minimizer\<close> (\<open>fuzz-case-minimizer.ts\<close>) and
  \<open>Adversarial_Campaign\<close> share; \<open>Adversarial_Mutation\<close> and \<open>Adversarial_Campaign\<close> are
  \<open>adversarial-campaign.ts\<close>: budgets, seeded mutations, rounds, corpus, findings.  \<open>Transport_Faults\<close>
  (\<open>transport-faults.ts\<close>) is the engine that decides which fault a request gets, and its evidence.

  \<^bold>\<open>Loops.\<close>  Every loop terminates in the model by structural recursion or a measure: the search for
  cycles by the nodes not yet visited, the pump of the scheduler and the rounds of a campaign by what is
  left to start, the reduction by the length of the sequence and the size of the chunk.  There is no
  fuel.  Executions whose order is chosen by the environment are relations, with theorems that they
  cannot get stuck and how many steps they take.

  \<^bold>\<open>Not modelled.\<close>  The Cloudflare workers (\<open>worker*.ts\<close>, the published reader, static artifacts and
  restore packs) are plumbing around PHP-WASM, R2 and HTTP over the coordinators modelled here.  The
  command line, the Playground runtime and its browsers are input and output.  The WordPress plugin is
  PHP; the runtime overlays are compiled PHP interpreters.  Of \<open>redaction.ts\<close> the rewriting of free text
  by regular expressions is an argument.  Of \<open>provisioning-api.ts\<close> the handlers that read request bodies
  and artifacts from object storage (\<open>stageArtifact\<close>, \<open>create\<close>, \<open>importSite\<close>,
  \<open>resumeProvisioningAllocation\<close>) are an argument of the dispatch; the store methods they call are modelled.  Strings are restricted to 8-bit code units, numbers
  to exact rationals with \<open>NaN\<close> and the infinities; a non-integer that JavaScript prints in exponent
  notation is outside the model.

  \<^bold>\<open>Plan.\<close>  Next in line are the validators of the remaining contracts of \<open>runtime-core\<close>
  (\<open>workspace-policy.ts\<close>, \<open>live-progress.ts\<close>, the recipe plan) and the decisions of the worker that do not
  depend on PHP (routing, preconditions of a publication).
\<close>

section \<open>Sample values of the witnesses\<close>

definition sample_pointer :: markdown_pointer where
  "sample_pointer = \<lparr>revision = ''r1'', manifestKey = ''m1'', persistedAt = ''t1''\<rparr>"

definition sample_lease :: revision_lease where
  "sample_lease = \<lparr>lease_token = ''a'', lease_pointer = None, lease_version = 0, lease_expiresAt = 1100\<rparr>"

definition sample_contender :: coordinator_call where
  "sample_contender = \<lparr>call_op = Acquire (JInt 100), call_uuid = ''b'', call_now = 1010\<rparr>"

lemma sample_contender_other: "\<forall>c \<in> set [sample_contender]. is_acquire (call_op c) \<longrightarrow> call_uuid c \<noteq> ''a''"
  by (simp add: sample_contender_def)

lemma do_sample_grant:
  "\<exists>t. do_perform JUndef ''x'' (Acquire (JInt 100)) ''a'' 1000 do_empty = (Inr (Lease_reply sample_lease), t)
    \<and> (\<exists>u r. do_perform JUndef ''x'' (Commit sample_lease sample_pointer) ''c'' 1020
         (durable.run JUndef ''x'' [sample_contender] t) = (Inr r, u))"
  by (simp add: sample_contender_def do_eval do_empty_def sample_lease_def)

lemma d1_sample_grant:
  "\<exists>t. d1_perform (JInt 90000) ''x'' (Acquire (JInt 100)) ''a'' 1000 d1_empty = (Inr (Lease_reply sample_lease), t)
    \<and> (\<exists>u r. d1_perform (JInt 90000) ''x'' (Commit sample_lease sample_pointer) ''c'' 1020
         (d1.run (JInt 90000) ''x'' [sample_contender] t) = (Inr r, u))"
  by (simp add: sample_contender_def d1_eval d1_empty_def sample_lease_def)

section \<open>Canonical revisions\<close>

text \<open>
  C1: no lost update on the Durable Object.  If a client is granted a lease and later commits under
  it, then whatever calls other clients made in between (any number of commits, adoptions, resets,
  fences, and acquisitions that drew other tokens), the canonical pointer and version the commit
  replaces are those the lease was granted on, and the commit raises the version by one.
\<close>

theorem durable_no_lost_update:
  assumes "do_perform leaseMs site (Acquire ttl) tok now s = (Inr (Lease_reply l), t)"
    and "\<forall>c \<in> set calls. is_acquire (call_op c) \<longrightarrow> call_uuid c \<noteq> tok"
    and "do_perform leaseMs site (Commit l p) uuid now' (durable.run leaseMs site calls t) = (Inr r, u)"
  shows "view_pointer (do_view site (durable.run leaseMs site calls t)) = view_pointer (do_view site s)
    \<and> view_version (do_view site (durable.run leaseMs site calls t)) = view_version (do_view site s)
    \<and> view_pointer (do_view site u) = Some p \<and> view_version (do_view site u) = view_version (do_view site s) + 1"
  using durable.commit_replaces_base [OF TrueI] assms by blast

theorem durable_no_lost_update_witness:
  "\<exists>t u r. do_perform JUndef ''x'' (Commit sample_lease sample_pointer) ''c'' 1020
        (durable.run JUndef ''x'' [sample_contender] t) = (Inr r, u)
    \<and> view_pointer (do_view ''x'' u) = Some sample_pointer \<and> view_version (do_view ''x'' u) = 1"
proof -
  from do_sample_grant obtain t u r
    where grant: "do_perform JUndef ''x'' (Acquire (JInt 100)) ''a'' 1000 do_empty = (Inr (Lease_reply sample_lease), t)"
      and commit: "do_perform JUndef ''x'' (Commit sample_lease sample_pointer) ''c'' 1020
         (durable.run JUndef ''x'' [sample_contender] t) = (Inr r, u)" by blast
  have "view_version (do_view ''x'' do_empty) = 0" by (simp add: do_view_def loaded_def do_empty_def)
  with durable_no_lost_update [OF grant sample_contender_other commit] commit show ?thesis by auto
qed

text \<open>
  C2: no lost update on D1, the same statement for the coordinator that keeps its state in tables,
  on every database whose site is well-formed (which the next property shows all of them are).
\<close>

theorem d1_no_lost_update:
  assumes "site_wf db site"
    and "d1_perform leaseMs site (Acquire ttl) tok now db = (Inr (Lease_reply l), t)"
    and "\<forall>c \<in> set calls. is_acquire (call_op c) \<longrightarrow> call_uuid c \<noteq> tok"
    and "d1_perform leaseMs site (Commit l p) uuid now' (d1.run leaseMs site calls t) = (Inr r, u)"
  shows "view_pointer (d1_view site (d1.run leaseMs site calls t)) = view_pointer (d1_view site db)
    \<and> view_version (d1_view site (d1.run leaseMs site calls t)) = view_version (d1_view site db)
    \<and> view_pointer (d1_view site u) = Some p \<and> view_version (d1_view site u) = view_version (d1_view site db) + 1"
  using d1.commit_replaces_base [OF assms] .

theorem d1_no_lost_update_witness:
  "\<exists>t u r. d1_perform (JInt 90000) ''x'' (Commit sample_lease sample_pointer) ''c'' 1020
        (d1.run (JInt 90000) ''x'' [sample_contender] t) = (Inr r, u)
    \<and> view_pointer (d1_view ''x'' u) = Some sample_pointer \<and> view_version (d1_view ''x'' u) = 1"
proof -
  from d1_sample_grant obtain t u r
    where grant: "d1_perform (JInt 90000) ''x'' (Acquire (JInt 100)) ''a'' 1000 d1_empty = (Inr (Lease_reply sample_lease), t)"
      and commit: "d1_perform (JInt 90000) ''x'' (Commit sample_lease sample_pointer) ''c'' 1020
         (d1.run (JInt 90000) ''x'' [sample_contender] t) = (Inr r, u)" by blast
  have "view_version (d1_view ''x'' d1_empty) = 0" by (simp add: row_at_def d1_empty_def fresh_row_def)
  with d1_no_lost_update [OF d1_empty_wf grant sample_contender_other commit] commit show ?thesis by auto
qed



text \<open>
  C4: the Durable Object never grants a lease while a fence is in force nor a fence while a lease
  is, also when the clock advances between the two readings one request makes: if before a call no
  later moment has both in force, the same holds after it.
\<close>

theorem durable_exclusive:
  assumes "do_client leaseMs site op uuid now now' s = (r, t)" and "now \<le> now'"
    and "exclusive_from now (do_view site s)"
  shows "exclusive_from now' (do_view site t)"
  using do_effect_exclusive [OF do_client_effect [OF assms(1)] assms(2,3)] .

theorem durable_exclusive_witness:
  "exclusive_from 1001 (do_view ''x''
     (snd (do_client JUndef ''x'' (Acquire_fence (JInt 30000)) ''f'' 1000 1001 do_empty)))
   \<and> fence_active (do_view ''x''
     (snd (do_client JUndef ''x'' (Acquire_fence (JInt 30000)) ''f'' 1000 1001 do_empty))) 1001"
proof -
  have "exclusive_from 1000 (do_view ''x'' do_empty)"
    by (simp add: exclusive_from_def lease_active_def do_view_def loaded_def do_empty_def)
  then have "exclusive_from 1001 (do_view ''x''
     (snd (do_client JUndef ''x'' (Acquire_fence (JInt 30000)) ''f'' 1000 1001 do_empty)))"
    by (intro durable_exclusive [OF surjective_pairing]) simp_all
  then show ?thesis
    by (simp add: do_eval do_empty_def fence_active_def do_view_def loaded_def)
qed

text \<open>
  A call the D1 coordinator refuses changes nothing a client can observe, for any site: the
  database is as it was, or only the empty row of the site was inserted.
\<close>

lemma d1_refused_unchanged:
  assumes "site_wf db site" and "d1_client leaseMs site op uuid now now' db = (Inl e, t)"
  shows "d1_view other t = d1_view other db"
  using d1_client_refused [OF assms] by auto

lemma d1_refused_unchanged_sample:
  "\<exists>e. fst (d1_client (JInt 90000) ''x'' (Commit sample_lease sample_pointer) ''u'' 1000 1000 d1_empty) = Inl e
   \<and> d1_view ''y'' (snd (d1_client (JInt 90000) ''x'' (Commit sample_lease sample_pointer) ''u'' 1000 1000 d1_empty))
     = d1_view ''y'' d1_empty"
proof -
  have "\<exists>e t. d1_client (JInt 90000) ''x'' (Commit sample_lease sample_pointer) ''u'' 1000 1000 d1_empty = (Inl e, t)"
    by (simp add: d1_eval d1_empty_def sample_lease_def)
  then obtain e t where
    "d1_client (JInt 90000) ''x'' (Commit sample_lease sample_pointer) ''u'' 1000 1000 d1_empty = (Inl e, t)" by blast
  with d1_refused_unchanged [OF d1_empty_wf this, of "''y''"] show ?thesis by simp
qed

text \<open>
  Commit receipts on the Durable Object.  Once a receipt is written it is never changed or lost
  while no reset is among the calls, from any state whose receipts belong to versions up to the
  current one.  (A reset breaks this: see the next lemma.)
\<close>

lemma durable_receipts_kept:
  assumes "do_tidy site s" and "\<forall>c \<in> set calls. call_op c \<noteq> Reset"
    and "do_commits s k = Some p"
  shows "do_commits (durable.run leaseMs site calls s) k = Some p"
  using durable.receipt_run [OF TrueI assms(1,2), of k p leaseMs] assms(3) by (simp add: do_view_def)

definition sample_promoted :: do_state where
  "sample_promoted = \<lparr>do_record = Some \<lparr>cr_initialized = True, cr_siteId = Some ''x'',
     cr_pointer = Some sample_pointer, cr_version = 1, cr_lease = None, cr_fence = None\<rparr>,
     do_commits = (\<lambda>_. None)(1 := Some sample_pointer),
     do_bucket = (\<lambda>_. None)(pointerKey ''x'' := Some sample_pointer)\<rparr>"

lemma durable_receipts_kept_sample:
  "do_commits (durable.run JUndef ''x'' [sample_contender] sample_promoted) 1 = Some sample_pointer"
  by (rule durable_receipts_kept)
     (simp_all add: do_tidy_def loaded_def sample_promoted_def sample_contender_def)

text \<open>
  A reset of the Durable Object forgets the pointer and restarts the version at zero, but it
  leaves every commit receipt where it is.  So after a reset the receipts of the discarded history
  are still answered by \<open>committed\<close>, and belong to versions above the current one.
\<close>

lemma durable_reset_leaves_receipts:
  assumes "do_perform leaseMs site Reset uuid now s = (Inr r, t)"
  shows "view_pointer (do_view site t) = None \<and> view_version (do_view site t) = 0
    \<and> view_lease (do_view site t) = None \<and> do_commits t = do_commits s"
  using assms by (auto simp: do_perform_def do_client_methods replying_iffs do_view_def dest!: do_reset_Inr)

lemma durable_reset_leaves_receipts_sample:
  "do_commits (snd (do_perform JUndef ''x'' Reset ''u'' 1000 sample_promoted)) 1 = Some sample_pointer
   \<and> view_version (do_view ''x'' (snd (do_perform JUndef ''x'' Reset ''u'' 1000 sample_promoted))) = 0"
proof -
  have "\<exists>r t. do_perform JUndef ''x'' Reset ''u'' 1000 sample_promoted = (Inr r, t)"
    by (simp add: do_eval sample_promoted_def)
  then obtain r t where run: "do_perform JUndef ''x'' Reset ''u'' 1000 sample_promoted = (Inr r, t)" by blast
  from durable_reset_leaves_receipts [OF this] run show ?thesis by (simp add: sample_promoted_def)
qed

text \<open>
  Commit receipts on D1 survive every call but a reset, granted or refused.
\<close>

lemma d1_receipts_kept:
  assumes "site_wf db site" and "d1_client leaseMs site op uuid now now' db = (r, t)" and "op \<noteq> Reset"
    and "db_commits db (site, k) = Some p"
  shows "db_commits t (site, k) = Some p"
  using d1_client_receipts [OF assms] .

definition sample_tables :: d1_db where
  "sample_tables = d1_empty\<lparr>db_state := (\<lambda>_. None)(''x'' := Some (fresh_row\<lparr>row_revision := Some ''r1'',
       row_manifest_key := Some ''m1'', row_persisted_at := Some ''t1'', row_version := 1\<rparr>)),
     db_commits := (\<lambda>_. None)((''x'', 1) := Some sample_pointer)\<rparr>"

lemma sample_tables_wf: "site_wf sample_tables ''x''"
  by (auto simp: site_wf_def site_ordered_def receipt_current_def row_at_def sample_tables_def d1_empty_def
      fresh_row_def row_wf_def row_pointer_def sample_pointer_def)

lemma d1_receipts_kept_sample:
  "db_commits (snd (d1_client (JInt 90000) ''x'' (Acquire (JInt 100)) ''u'' 1000 1000 sample_tables)) (''x'', 1)
   = Some sample_pointer"
  by (rule d1_receipts_kept [OF sample_tables_wf surjective_pairing]) (simp_all add: sample_tables_def)

text \<open>
  A reset that D1 grants deletes all receipts of the site with its pointer, raises its version by
  one, and leaves the other sites alone.
\<close>

lemma d1_reset_empties:
  assumes "site_wf db site" and "d1_client leaseMs site Reset uuid now now' db = (Inr rep, u)"
  shows "(\<forall>k. db_commits u (site, k) = None) \<and> view_pointer (d1_view site u) = None
    \<and> view_version (d1_view site u) = view_version (d1_view site db) + 1
    \<and> (other \<noteq> site \<longrightarrow> d1_view other u = d1_view other db)"
  using d1_client_reset [OF assms] .

lemma d1_reset_empties_sample:
  "view_version (d1_view ''x'' (snd (d1_client (JInt 90000) ''x'' Reset ''u'' 1000 1000 sample_tables))) = 2
   \<and> db_commits (snd (d1_client (JInt 90000) ''x'' Reset ''u'' 1000 1000 sample_tables)) (''x'', 1) = None"
proof -
  have "\<exists>r t. d1_client (JInt 90000) ''x'' Reset ''u'' 1000 1000 sample_tables = (Inr r, t)"
    by (simp add: d1_eval sample_tables_def d1_empty_def)
  then obtain r t where run: "d1_client (JInt 90000) ''x'' Reset ''u'' 1000 1000 sample_tables = (Inr r, t)" by blast
  from d1_reset_empties [OF sample_tables_wf this] run show ?thesis
    by (simp add: sample_tables_def row_at_def)
qed

text \<open>
  C5: the Durable Object refines the abstract coordinator: for the portable calls its reply (or
  refusal) and the pointer, version, lease and fence in force afterwards are those of
  \<open>abstract_call\<close>.
\<close>

theorem durable_refines_abstract:
  assumes "do_owned site s" and "portable op" and "do_perform leaseMs site op uuid now s = (r, t)"
  shows "abstract_call op uuid now (in_force now (do_view site s)) = (granted r, in_force now (do_view site t))"
  using do_refines [OF assms] .

theorem durable_refines_abstract_witness:
  "abstract_call (Acquire (JInt 100)) ''a'' 1000 (in_force 1000 (do_view ''x'' do_empty)) =
     (granted (fst (do_perform JUndef ''x'' (Acquire (JInt 100)) ''a'' 1000 do_empty)),
      in_force 1000 (do_view ''x'' (snd (do_perform JUndef ''x'' (Acquire (JInt 100)) ''a'' 1000 do_empty))))"
  by (rule durable_refines_abstract) (simp_all add: do_owned_def do_empty_def max_safe_integer_def)

text \<open>
  C6: the D1 coordinator refines the same abstract coordinator.
\<close>

theorem d1_refines_abstract:
  assumes "site_wf db site" and "portable op" and "d1_perform leaseMs site op uuid now db = (r, t)"
  shows "abstract_call op uuid now (in_force now (d1_view site db)) = (granted r, in_force now (d1_view site t))"
  using d1_refines [OF assms] .

theorem d1_refines_abstract_witness:
  "abstract_call (Acquire (JInt 100)) ''a'' 1000 (in_force 1000 (d1_view ''x'' d1_empty)) =
     (granted (fst (d1_perform JUndef ''x'' (Acquire (JInt 100)) ''a'' 1000 d1_empty)),
      in_force 1000 (d1_view ''x'' (snd (d1_perform JUndef ''x'' (Acquire (JInt 100)) ''a'' 1000 d1_empty))))"
  by (rule d1_refines_abstract) (simp_all add: max_safe_integer_def)

text \<open>
  The two coordinators cannot be told apart by the portable calls.  From states with the same
  pointer, version, lease and fence in force, the same call is granted with the same reply or refused
  by both, and leaves the same pointer, version, lease and fence in force.
\<close>

lemma coordinators_agree:
  assumes "do_owned site s" and "site_wf db site" and "portable op"
    and "in_force now (do_view site s) = in_force now (d1_view site db)"
    and "do_perform leaseMs site op uuid now s = (r, s')" and "d1_perform leaseMs' site op uuid now db = (q, db')"
  shows "granted r = granted q \<and> in_force now (do_view site s') = in_force now (d1_view site db')"
  using do_refines [OF assms(1,3,5)] d1_refines [OF assms(2,3,6)] assms(4) by simp

lemma coordinators_agree_sample:
  "granted (fst (do_perform JUndef ''x'' (Acquire (JInt 100)) ''a'' 1000 do_empty))
   = granted (fst (d1_perform (JInt 5) ''x'' (Acquire (JInt 100)) ''a'' 1000 d1_empty))"
proof -
  have start: "in_force 1000 (do_view ''x'' do_empty) = in_force 1000 (d1_view ''x'' d1_empty)"
    by (simp add: in_force_def do_view_def loaded_def do_empty_def row_at_def d1_empty_def fresh_row_def
        row_pointer_def row_lease_def)
  have "do_owned ''x'' do_empty" "portable (Acquire (JInt 100))"
    by (simp_all add: do_owned_def do_empty_def max_safe_integer_def)
  from coordinators_agree [OF this(1) d1_empty_wf this(2) start surjective_pairing surjective_pairing]
  show ?thesis by blast
qed

end
